(* ===== verification/Prelude.thy ===== *)
theory Prelude
  imports Main "HOL-Library.Product_Lexorder" "HOL-Library.List_Lexorder" "HOL-Library.Char_ord"
begin

text \<open>
  Shared vocabulary of the development: Python exceptions as values, sequencing of fallible
  computations, the ordered traversals of the source (first match, keyed minimum and maximum,
  stable sorting in both directions, de-duplication that keeps the first occurrence) and the
  text operations (strip, lower, upper, prefixes) the components share.

  \<^item> \<open>py_error\<close> is the exception raised by the source, with its message; a fallible function
    returns \<open>py_error + 'a\<close>, \<open>Inl\<close> standing for the raise.
  \<^item> \<open>ebind\<close> runs a computation and stops at the first exception, \<open>require\<close> is the guard
    \<open>if not cond: raise\<close>.
  \<^item> The collection \<open>err_simps\<close> holds the inversion rules for successful runs.
\<close>

section \<open>Exceptions as values\<close>

named_theorems err_simps \<open>inversion of successful fallible computations\<close>
named_theorems time_simps \<open>definitions of the freshness windows\<close>

datatype py_error =
    ValueError string
  | TypeError string
  | KeyErr string
  | IndexErr
  | InvalidOp string
  | DivisionByZero
  | OverflowErr
  | AttributeErr string
  | DerivedPriceUnavailable string
  | UnknownInstrument string
  | RedisUnavailable string
  | RefreshSuspended string
  | LeaseLost
  | FormulaError string
  | PermanentDelivery string
  | HttpError nat string
  | DatabaseErr

type_synonym 'a result = "py_error + 'a"

definition ebind :: "'e + 'a \<Rightarrow> ('a \<Rightarrow> 'e + 'b) \<Rightarrow> 'e + 'b" where
  "ebind m f = (case m of Inl e \<Rightarrow> Inl e | Inr x \<Rightarrow> f x)"

definition require :: "bool \<Rightarrow> 'e \<Rightarrow> 'e + unit" where
  "require c e = (if c then Inr () else Inl e)"

lemma ebind_simps [simp]:
  "ebind (Inl e) f = Inl e"
  "ebind (Inr x) f = f x"
  by (simp_all add: ebind_def)

lemma require_simps [simp]:
  "c \<Longrightarrow> require c e = Inr ()"
  "\<not> c \<Longrightarrow> require c e = Inl e"
  by (simp_all add: require_def)

lemma ebind_Inr [err_simps]: "ebind m f = Inr y \<longleftrightarrow> (\<exists>x. m = Inr x \<and> f x = Inr y)"
  by (cases m) auto

lemma ebind_InrE: "ebind m f = Inr y \<Longrightarrow> (\<And>x. m = Inr x \<Longrightarrow> f x = Inr y \<Longrightarrow> thesis) \<Longrightarrow> thesis"
  by (auto simp: err_simps)

lemma require_Inr [err_simps]: "require c e = Inr u \<longleftrightarrow> c"
  by (simp add: require_def)

lemma ebind_Inl: "ebind m f = Inl e \<longleftrightarrow> m = Inl e \<or> (\<exists>x. m = Inr x \<and> f x = Inl e)"
  by (cases m) auto

lemma if_Inl_Inr [err_simps]:
  "(if c then Inl e else r) = Inr y \<longleftrightarrow> \<not> c \<and> r = Inr y"
  "(if c then r else Inl e) = Inr y \<longleftrightarrow> c \<and> r = Inr y"
  by auto

fun is_ok :: "'e + 'a \<Rightarrow> bool" where
  "is_ok (Inl _) = False"
| "is_ok (Inr _) = True"

lemma is_ok_iff: "is_ok r \<longleftrightarrow> (\<exists>x. r = Inr x)"
  by (cases r) auto

text \<open>Applying a fallible function to a list stops at the first exception, as a loop does.\<close>

fun emap :: "('a \<Rightarrow> 'e + 'b) \<Rightarrow> 'a list \<Rightarrow> 'e + 'b list" where
  "emap f [] = Inr []"
| "emap f (x # xs) = ebind (f x) (\<lambda>y. ebind (emap f xs) (\<lambda>ys. Inr (y # ys)))"

lemma emap_Inr_length: "emap f xs = Inr ys \<Longrightarrow> length ys = length xs"
  by (induction xs arbitrary: ys) (auto simp: err_simps)

lemma emap_Inr_nth:
  "emap f xs = Inr ys \<Longrightarrow> i < length xs \<Longrightarrow> f (xs ! i) = Inr (ys ! i)"
  by (induction xs arbitrary: ys i) (auto simp: err_simps nth_Cons split: nat.splits)

lemma emap_Inr_in: "emap f xs = Inr ys \<Longrightarrow> y \<in> set ys \<Longrightarrow> \<exists>x\<in>set xs. f x = Inr y"
  by (induction xs arbitrary: ys) (auto simp: err_simps)

lemma emap_Inr_ex: "emap f xs = Inr ys \<Longrightarrow> x \<in> set xs \<Longrightarrow> \<exists>y\<in>set ys. f x = Inr y"
  by (induction xs arbitrary: ys) (auto simp: err_simps)

section \<open>Minimum and maximum of a sequence\<close>

text \<open>Python's \<open>min\<close> and \<open>max\<close> over a non-empty sequence, given as its head and tail.\<close>

fun min_of :: "'a::linorder \<Rightarrow> 'a list \<Rightarrow> 'a" where
  "min_of x [] = x"
| "min_of x (y # ys) = min_of (min x y) ys"

fun max_of :: "'a::linorder \<Rightarrow> 'a list \<Rightarrow> 'a" where
  "max_of x [] = x"
| "max_of x (y # ys) = max_of (max x y) ys"

lemma min_of_eq_Min: "min_of x xs = Min (insert x (set xs))"
proof (induction xs arbitrary: x)
  case (Cons y ys)
  show ?case
    by (cases "ys = []") (auto simp: Cons min.assoc insert_commute)
qed simp

lemma max_of_eq_Max: "max_of x xs = Max (insert x (set xs))"
proof (induction xs arbitrary: x)
  case (Cons y ys)
  show ?case
    by (cases "ys = []") (auto simp: Cons max.assoc insert_commute)
qed simp

lemma min_of_le: "y \<in> insert x (set xs) \<Longrightarrow> min_of x xs \<le> y"
  by (simp add: min_of_eq_Min)

lemma min_of_mem: "min_of x xs \<in> insert x (set xs)"
  unfolding min_of_eq_Min by (rule Min_in) auto

lemma min_of_ge: "(\<And>y. y \<in> insert x (set xs) \<Longrightarrow> b \<le> y) \<Longrightarrow> b \<le> min_of x xs"
  using min_of_mem by blast

lemma max_of_ge: "y \<in> insert x (set xs) \<Longrightarrow> y \<le> max_of x xs"
  by (simp add: max_of_eq_Max)

lemma max_of_mem: "max_of x xs \<in> insert x (set xs)"
  unfolding max_of_eq_Max by (rule Max_in) auto

lemma max_of_le: "(\<And>y. y \<in> insert x (set xs) \<Longrightarrow> y \<le> b) \<Longrightarrow> max_of x xs \<le> b"
  using max_of_mem by blast

text \<open>\<open>max(items, key=k, default=None)\<close> keeps the first of several maximal items.\<close>

fun max_by :: "('a \<Rightarrow> 'k::linorder) \<Rightarrow> 'a list \<Rightarrow> 'a option" where
  "max_by k [] = None"
| "max_by k (x # xs) =
     (case max_by k xs of None \<Rightarrow> Some x | Some y \<Rightarrow> if k x < k y then Some y else Some x)"

lemma max_by_None [simp]: "max_by k xs = None \<longleftrightarrow> xs = []"
  by (cases xs) (auto split: option.splits)

lemma max_by_in: "max_by k xs = Some y \<Longrightarrow> y \<in> set xs"
  by (induction xs arbitrary: y) (auto split: option.splits if_splits)

lemma max_by_ge: "max_by k xs = Some y \<Longrightarrow> x \<in> set xs \<Longrightarrow> k x \<le> k y"
proof (induction xs arbitrary: y)
  case (Cons a xs)
  then show ?case
    by (cases "max_by k xs") (fastforce split: if_splits)+
qed simp

section \<open>Sorting\<close>

text \<open>
  \<open>sorted(xs, key=k)\<close> is stable, as \<^const>\<open>sort_key\<close> is. With \<open>reverse=True\<close> Python keeps the
  original order of equal items as well.
\<close>

definition sort_desc :: "('a \<Rightarrow> 'k::linorder) \<Rightarrow> 'a list \<Rightarrow> 'a list" where
  "sort_desc k xs = rev (sort_key k (rev xs))"

lemma set_sort_desc [simp]: "set (sort_desc k xs) = set xs"
  by (simp add: sort_desc_def)

lemma length_sort_desc [simp]: "length (sort_desc k xs) = length xs"
  by (simp add: sort_desc_def)

lemma sort_desc_sorted: "sorted_wrt (\<lambda>x y. k y \<le> k x) (sort_desc k xs)"
proof -
  have "sorted (map k (sort_key k (rev xs)))"
    by simp
  then show ?thesis
    by (simp add: sort_desc_def sorted_wrt_rev sorted_map)
qed

lemma distinct_sort_desc [simp]: "distinct (sort_desc k xs) = distinct xs"
  by (simp add: sort_desc_def)

lemma distinct_map_sort_desc [simp]: "distinct (map f (sort_desc k xs)) = distinct (map f xs)"
  by (simp add: sort_desc_def distinct_map)

section \<open>Sequences without repetition\<close>

text \<open>
  The loop \<open>for v in items: if v and v not in result: result.append(v)\<close>, started from a
  list already collected.
\<close>

fun append_new :: "string list \<Rightarrow> string list \<Rightarrow> string list" where
  "append_new acc [] = acc"
| "append_new acc (v # vs) =
     append_new (if v \<noteq> [] \<and> v \<notin> set acc then acc @ [v] else acc) vs"

lemma set_append_new: "set (append_new acc vs) = set acc \<union> (set vs - {[]})"
  by (induction vs arbitrary: acc) auto

lemma distinct_append_new: "distinct acc \<Longrightarrow> distinct (append_new acc vs)"
  by (induction vs arbitrary: acc) auto

section \<open>Text\<close>

text \<open>
  A Python \<open>str\<close> is modelled by the list of its characters, read as Latin-1; case conversion
  acts on the ASCII letters and \<open>strip\<close> removes the white space of Python's \<open>str.strip\<close>
  in that range.
\<close>

definition is_space :: "char \<Rightarrow> bool" where
  "is_space c \<longleftrightarrow> (let n = (of_char c :: nat)
     in (9 \<le> n \<and> n \<le> 13) \<or> (28 \<le> n \<and> n \<le> 32) \<or> n = 133 \<or> n = 160)"

definition lower_char :: "char \<Rightarrow> char" where
  "lower_char c = (let n = (of_char c :: nat) in if 65 \<le> n \<and> n \<le> 90 then char_of (n + 32) else c)"

definition upper_char :: "char \<Rightarrow> char" where
  "upper_char c = (let n = (of_char c :: nat) in if 97 \<le> n \<and> n \<le> 122 then char_of (n - 32) else c)"

definition lower :: "string \<Rightarrow> string" where
  "lower s = map lower_char s"

definition upper :: "string \<Rightarrow> string" where
  "upper s = map upper_char s"

definition strip :: "string \<Rightarrow> string" where
  "strip s = rev (dropWhile is_space (rev (dropWhile is_space s)))"

definition starts_with :: "string \<Rightarrow> string \<Rightarrow> bool" where
  "starts_with p s \<longleftrightarrow> take (length p) s = p"

text \<open>\<open>value or default\<close> on an optional text: an absent or empty text gives the default.\<close>

fun or_text :: "string option \<Rightarrow> string \<Rightarrow> string" where
  "or_text None d = d"
| "or_text (Some s) d = (if s = [] then d else s)"

lemma lower_char_idem [simp]: "lower_char (lower_char c) = lower_char c"
  by (simp add: lower_char_def Let_def)

lemma upper_char_idem [simp]: "upper_char (upper_char c) = upper_char c"
  by (auto simp: upper_char_def Let_def)

lemma lower_idem [simp]: "lower (lower s) = lower s"
  by (simp add: lower_def)

lemma upper_idem [simp]: "upper (upper s) = upper s"
  by (simp add: upper_def)

lemma upper_Nil [simp]: "upper s = [] \<longleftrightarrow> s = []"
  by (simp add: upper_def)

lemma lower_Nil [simp]: "lower s = [] \<longleftrightarrow> s = []"
  by (simp add: lower_def)

lemma dropWhile_rev_idem:
  "dropWhile P (rev (dropWhile P (rev (dropWhile P s)))) = rev (dropWhile P (rev (dropWhile P s)))"
proof (cases "dropWhile P s = []")
  case False
  let ?t = "dropWhile P s"
  have hd: "\<not> P (hd ?t)"
    using False hd_dropWhile by blast
  let ?u = "rev (dropWhile P (rev ?t))"
  have pre: "?t = ?u @ rev (takeWhile P (rev ?t))"
    by (metis rev_append rev_rev_ident takeWhile_dropWhile_id)
  have "?u \<noteq> []"
  proof
    assume "?u = []"
    then have "\<forall>x\<in>set ?t. P x"
      by (simp add: dropWhile_eq_Nil_conv)
    with hd False show False
      by simp
  qed
  then have "hd ?u = hd ?t"
    using pre by (metis hd_append2)
  with hd \<open>?u \<noteq> []\<close> show ?thesis
    by (metis dropWhile_eq_self_iff)
next
  case True
  show ?thesis
    unfolding True by simp
qed

lemma strip_idem [simp]: "strip (strip s) = strip s"
  unfolding strip_def by (simp add: dropWhile_rev_idem dropWhile_idem)

end
