(* ===== verification/Py_Numbers.thy ===== *)
theory Py_Numbers
  imports Complex_Main Prelude
begin

text \<open>
  The two number systems the source computes with.

  \<^item> \<open>Decimal\<close>: a finite decimal is its value, a rational number; every arithmetic operation
    rounds to the 28 significant digits of Python's default context, ties to even
    (\<open>dctx\<close>, \<open>dadd\<close>, \<open>dsub\<close>, \<open>dmul\<close>, \<open>ddiv\<close>, \<open>dabs\<close>). Values that are not finite
    exist only where text is read (\<open>pydec\<close>). The exponent of a decimal (its trailing zeros)
    and the exponent range of the context are not represented.
  \<^item> \<open>float\<close>: a finite float is its value; \<open>f64\<close> rounds to 53 bits with ties to even, with the
    subnormal range, and is \<open>None\<close> where the result overflows to an infinity.

  The lemmas show that rounding is monotone, keeps signs, and fixes short integers, which is
  what the price policies rely on.
\<close>

section \<open>Rounding to the nearest integer, ties to even\<close>

definition round_half_even :: "rat \<Rightarrow> int" where
  "round_half_even x =
     (let f = \<lfloor>x\<rfloor>; d = x - of_int f
      in if d < 1/2 then f else if d > 1/2 then f + 1 else if even f then f else f + 1)"

lemma round_half_even_of_int [simp]: "round_half_even (of_int n) = n"
  by (simp add: round_half_even_def)

lemma round_half_even_bounds: "\<lfloor>x\<rfloor> \<le> round_half_even x" "round_half_even x \<le> \<lfloor>x\<rfloor> + 1"
  by (auto simp: round_half_even_def Let_def)

lemma round_half_even_error: "\<bar>of_int (round_half_even x) - x\<bar> \<le> 1/2"
proof -
  have "of_int \<lfloor>x\<rfloor> \<le> x" "x < of_int \<lfloor>x\<rfloor> + 1"
    by linarith+
  then show ?thesis
    unfolding round_half_even_def Let_def by (simp add: abs_if) linarith
qed

lemma round_half_even_mono:
  assumes "x \<le> y" shows "round_half_even x \<le> round_half_even y"
proof (cases "\<lfloor>x\<rfloor> = \<lfloor>y\<rfloor>")
  case True
  with assms show ?thesis
    by (auto simp: round_half_even_def Let_def)
next
  case False
  with assms have "\<lfloor>x\<rfloor> + 1 \<le> \<lfloor>y\<rfloor>"
    by (meson floor_mono int_one_le_iff_zero_less le_less zless_imp_add1_zle)
  then show ?thesis
    using round_half_even_bounds[of x] round_half_even_bounds[of y] by linarith
qed

section \<open>Rounding to a number of significant digits\<close>

text \<open>\<open>ilog b n\<close> counts how often \<open>n\<close> can be divided by the base before it is a single digit.\<close>

function ilog :: "int \<Rightarrow> int \<Rightarrow> int" where
  "ilog b n = (if b \<le> 1 \<or> n < b then 0 else 1 + ilog b (n div b))"
  by pat_completeness auto
termination
  by (relation "measure (\<lambda>(b, n). nat n)") (auto intro!: nat_mono_iff[THEN iffD2] int_div_less_self)

declare ilog.simps [simp del]

lemma ilog_nonneg: "0 \<le> ilog b n"
proof (induction b n rule: ilog.induct)
  case (1 b n)
  then show ?case
    by (cases "b \<le> 1 \<or> n < b") (auto simp: ilog.simps[of b n])
qed

lemma ilog_bounds: "1 < b \<Longrightarrow> 1 \<le> n \<Longrightarrow> b ^ nat (ilog b n) \<le> n \<and> n < b ^ Suc (nat (ilog b n))"
proof (induction b n rule: ilog.induct)
  case (1 b n)
  show ?case
  proof (cases "n < b")
    case True
    with 1 show ?thesis by (simp add: ilog.simps[of b n])
  next
    case False
    let ?k = "nat (ilog b (n div b))"
    have "b ^ ?k \<le> n div b \<and> n div b < b ^ Suc ?k"
      using 1 False pos_imp_zdiv_pos_iff[of b n] by auto
    then have "b * b ^ ?k \<le> b * (n div b)" "b * (n div b + 1) \<le> b * b ^ Suc ?k"
      using 1 by auto
    moreover have "b * (n div b) = n - n mod b" "0 \<le> n mod b" "n mod b < b"
      using 1 by (simp_all add: minus_mod_eq_mult_div)
    moreover have "b * (n div b + 1) = b * (n div b) + b"
      by (simp add: algebra_simps)
    moreover have "nat (ilog b n) = Suc ?k"
      using False 1 ilog_nonneg[of b "n div b"] by (simp add: ilog.simps[of b n] nat_add_distrib)
    ultimately show ?thesis
      by (simp only: power_Suc) linarith
  qed
qed

text \<open>
  \<open>expo b x\<close> is the exponent of the leading digit of a positive \<open>x\<close> in base \<open>b\<close>:
  \<open>b powi expo b x \<le> x < b powi (expo b x + 1)\<close>.
\<close>

definition expo :: "int \<Rightarrow> rat \<Rightarrow> int" where
  "expo b x = (if 1 \<le> x then ilog b \<lfloor>x\<rfloor> else - 1 - ilog b (\<lceil>1 / x\<rceil> - 1))"

definition round_at :: "int \<Rightarrow> int \<Rightarrow> rat \<Rightarrow> rat" where
  "round_at b e x = of_int (round_half_even (x / of_int b powi e)) * of_int b powi e"

definition round_sig :: "int \<Rightarrow> int \<Rightarrow> rat \<Rightarrow> rat" where
  "round_sig b p x = (if x = 0 then 0 else round_at b (expo b \<bar>x\<bar> - p + 1) x)"

lemma ilog_rat_bounds:
  assumes "1 < b" "1 \<le> n"
  shows "(of_int b :: rat) powi ilog b n \<le> of_int n"
    and "(of_int (n + 1) :: rat) \<le> of_int b powi (ilog b n + 1)"
proof -
  have p: "(of_int b :: rat) powi ilog b n = of_int (b ^ nat (ilog b n))"
      "(of_int b :: rat) powi (ilog b n + 1) = of_int (b ^ Suc (nat (ilog b n)))"
    using ilog_nonneg[of b n] by (simp_all add: power_int_def nat_add_distrib)
  show "(of_int b :: rat) powi ilog b n \<le> of_int n"
    unfolding p using ilog_bounds[OF assms] of_int_le_iff by blast
  show "(of_int (n + 1) :: rat) \<le> of_int b powi (ilog b n + 1)"
    unfolding p using ilog_bounds[OF assms] by (metis add1_zle_eq of_int_le_iff)
qed

lemma expo_bounds:
  assumes b: "1 < b" and x: "0 < x"
  shows "of_int b powi expo b x \<le> x" and "x < of_int b powi (expo b x + 1)"
proof -
  have "of_int b powi expo b x \<le> x \<and> x < of_int b powi (expo b x + 1)"
  proof (cases "1 \<le> x")
    case True
    then have "1 \<le> \<lfloor>x\<rfloor>"
      by (simp add: le_floor_iff)
    from ilog_rat_bounds[OF b this] True show ?thesis
      by (auto simp: expo_def) linarith+
  next
    case False
    let ?y = "1 / x" and ?n = "\<lceil>1 / x\<rceil> - 1"
    have "1 < ?y"
      using False x by simp
    then have n: "1 \<le> ?n"
      by linarith
    have y: "of_int ?n < ?y" "?y \<le> of_int (?n + 1)"
      by linarith+
    have e: "expo b x = - (ilog b ?n + 1)" "expo b x + 1 = - ilog b ?n"
      using False by (simp_all add: expo_def)
    have "?y \<le> of_int b powi (ilog b ?n + 1)" "of_int b powi ilog b ?n < ?y"
      using ilog_rat_bounds[OF b n] y by linarith+
    then show ?thesis
      unfolding e(2) unfolding e(1) power_int_minus using x b
      by (auto simp: field_simps)
  qed
  then show "of_int b powi expo b x \<le> x" and "x < of_int b powi (expo b x + 1)"
    by auto
qed

lemma round_at_mono: "1 < b \<Longrightarrow> x \<le> y \<Longrightarrow> round_at b e x \<le> round_at b e y"
  unfolding round_at_def
  by (intro mult_right_mono) (auto intro!: round_half_even_mono divide_right_mono)

lemma round_at_grid: "1 < b \<Longrightarrow> round_at b e (of_int k * of_int b powi e) = of_int k * of_int b powi e"
  by (simp add: round_at_def)

lemma grid_int:
  assumes "1 < b" "e \<le> d"
  shows "\<exists>k. of_int b powi d = of_int k * (of_int b powi e :: rat)"
proof -
  have "of_int b powi d = of_int b powi (d - e) * (of_int b powi e :: rat)"
    using assms by (simp flip: power_int_add)
  also have "of_int b powi (d - e) = (of_int (b ^ nat (d - e)) :: rat)"
    using assms by (simp add: power_int_def)
  finally show ?thesis
    by blast
qed

lemma round_sig_pos_bounds:
  assumes b: "1 < b" and p: "0 < p" and x: "0 < x"
  shows "of_int b powi expo b x \<le> round_sig b p x"
    and "round_sig b p x \<le> of_int b powi (expo b x + 1)"
proof -
  let ?e = "expo b x - p + 1"
  have r: "round_sig b p x = round_at b ?e x"
    using x by (simp add: round_sig_def)
  obtain k where k: "of_int b powi expo b x = of_int k * (of_int b powi ?e :: rat)"
    using grid_int[OF b, of ?e "expo b x"] p by auto
  obtain l where l: "of_int b powi (expo b x + 1) = of_int l * (of_int b powi ?e :: rat)"
    using grid_int[OF b, of ?e "expo b x + 1"] p by auto
  show "of_int b powi expo b x \<le> round_sig b p x"
    using round_at_mono[OF b expo_bounds(1)[OF b x], of ?e] round_at_grid[OF b, of ?e k]
    unfolding r k by simp
  show "round_sig b p x \<le> of_int b powi (expo b x + 1)"
    using round_at_mono[OF b less_imp_le[OF expo_bounds(2)[OF b x]], of ?e]
      round_at_grid[OF b, of ?e l]
    unfolding r l by simp
qed

lemma round_sig_0 [simp]: "round_sig b p 0 = 0"
  by (simp add: round_sig_def)

lemma round_sig_pos: "1 < b \<Longrightarrow> 0 < p \<Longrightarrow> 0 < x \<Longrightarrow> 0 < round_sig b p x"
  using round_sig_pos_bounds(1)[of b p x] zero_less_power_int[of "of_int b :: rat" "expo b x"]
  by (meson less_le_trans of_int_0_less_iff order_less_trans zero_less_one)

lemma round_half_even_minus: "round_half_even (- x) = - round_half_even x"
proof (cases "x = of_int \<lfloor>x\<rfloor>")
  case True
  then show ?thesis
    by (metis of_int_minus round_half_even_of_int)
next
  case False
  then have f: "\<lfloor>- x\<rfloor> = - \<lfloor>x\<rfloor> - 1"
    by linarith
  have "x - of_int \<lfloor>x\<rfloor> > 0"
    using False by linarith
  then show ?thesis
    unfolding round_half_even_def Let_def f by auto
qed

lemma round_sig_minus: "round_sig b p (- x) = - round_sig b p x"
  by (simp add: round_sig_def round_at_def round_half_even_minus)

lemma expo_mono:
  assumes "1 < b" "0 < x" "x \<le> y" shows "expo b x \<le> expo b y"
proof (rule ccontr)
  assume "\<not> expo b x \<le> expo b y"
  then have "(of_int b :: rat) powi (expo b y + 1) \<le> of_int b powi expo b x"
    using assms by (intro power_int_increasing) auto
  with assms expo_bounds[of b x] expo_bounds[of b y] show False
    by fastforce
qed

lemma round_sig_mono_pos:
  assumes b: "1 < b" and p: "0 < p" and "0 < x" "x \<le> y"
  shows "round_sig b p x \<le> round_sig b p y"
proof (cases "expo b x = expo b y")
  case True
  with assms show ?thesis
    by (auto simp: round_sig_def intro!: round_at_mono)
next
  case False
  with expo_mono[of b x y] assms have "expo b x + 1 \<le> expo b y"
    by linarith
  then have "(of_int b :: rat) powi (expo b x + 1) \<le> of_int b powi expo b y"
    using b by (intro power_int_increasing) auto
  with assms round_sig_pos_bounds(2)[OF b p, of x] round_sig_pos_bounds(1)[OF b p, of y]
  show ?thesis by linarith
qed

lemma round_sig_mono:
  assumes b: "1 < b" and p: "0 < p" and xy: "x \<le> y"
  shows "round_sig b p x \<le> round_sig b p y"
proof -
  note pos = round_sig_pos[OF b p]
  consider "0 < x" | "x \<le> 0" "0 \<le> y" | "y < 0"
    by linarith
  then show ?thesis
  proof cases
    case 2
    have "round_sig b p x \<le> 0"
      using 2(1) pos[of "- x"] by (cases "x = 0") (auto simp: round_sig_minus)
    also have "0 \<le> round_sig b p y"
      using 2(2) pos[of y] by (cases "y = 0") auto
    finally show ?thesis .
  next
    case 3
    then show ?thesis
      using round_sig_mono_pos[OF b p, of "- y" "- x"] xy by (auto simp: round_sig_minus)
  qed (use round_sig_mono_pos[OF b p] xy in auto)
qed

lemma round_sig_nonneg: "1 < b \<Longrightarrow> 0 < p \<Longrightarrow> 0 \<le> x \<Longrightarrow> 0 \<le> round_sig b p x"
  using round_sig_mono[of b p 0 x] by simp

text \<open>A number with at most \<open>p\<close> digits, scaled by a power of the base, is not changed.\<close>

lemma round_sig_short:
  assumes b: "1 < b" and p: "0 < p" and k: "\<bar>k\<bar> < b ^ nat p"
  shows "round_sig b p (of_int k * of_int b powi e) = of_int k * of_int b powi e"
proof (cases "k = 0")
  case False
  let ?x = "of_int k * (of_int b :: rat) powi e"
  have pw: "0 < (of_int b :: rat) powi e"
    using b by simp
  have x: "\<bar>?x\<bar> = of_int \<bar>k\<bar> * of_int b powi e" "0 < \<bar>?x\<bar>"
    using False pw by (auto simp: abs_mult)
  have "(of_int \<bar>k\<bar> :: rat) < of_int b ^ nat p"
    using k by (metis of_int_less_iff of_int_power)
  then have "\<bar>?x\<bar> < of_int b powi p * of_int b powi e"
    unfolding x(1) using pw p by (simp add: power_int_def)
  also have "\<dots> = of_int b powi (p + e)"
    using b by (simp add: power_int_add)
  finally have "of_int b powi expo b \<bar>?x\<bar> < (of_int b :: rat) powi (p + e)"
    using expo_bounds(1)[OF b x(2)] by linarith
  then have "expo b \<bar>?x\<bar> < p + e"
    using b power_int_increasing[of "p + e" "expo b \<bar>?x\<bar>" "of_int b :: rat"]
    by (meson linorder_not_less of_int_1_le_iff order_less_imp_le)
  define E where "E = expo b \<bar>?x\<bar> - p + 1"
  have "E \<le> e"
    using \<open>expo b \<bar>?x\<bar> < p + e\<close> by (simp add: E_def)
  then obtain l where l: "of_int b powi e = of_int l * (of_int b powi E :: rat)"
    using grid_int[OF b] by blast
  have "?x = of_int (k * l) * of_int b powi E"
    using l by simp
  moreover have "round_sig b p ?x = round_at b E ?x"
    using x(2) by (metis E_def abs_zero less_irrefl round_sig_def)
  ultimately show ?thesis
    using round_at_grid[OF b, of E "k * l"] by metis
qed simp

section \<open>Decimal arithmetic\<close>

definition dctx :: "rat \<Rightarrow> rat" where
  "dctx x = round_sig 10 28 x"

definition dadd :: "rat \<Rightarrow> rat \<Rightarrow> rat" where "dadd x y = dctx (x + y)"
definition dsub :: "rat \<Rightarrow> rat \<Rightarrow> rat" where "dsub x y = dctx (x - y)"
definition dmul :: "rat \<Rightarrow> rat \<Rightarrow> rat" where "dmul x y = dctx (x * y)"
definition dabs :: "rat \<Rightarrow> rat" where "dabs x = dctx \<bar>x\<bar>"

text \<open>Division; the callers establish a non-zero divisor or guard it themselves.\<close>

definition ddiv :: "rat \<Rightarrow> rat \<Rightarrow> rat result" where
  "ddiv x y = (if y = 0 then Inl DivisionByZero else Inr (dctx (x / y)))"

text \<open>\<open>x.quantize(Decimal("0.000001"))\<close>: a result with more than 28 digits is an error.\<close>

definition quantize6 :: "rat \<Rightarrow> rat result" where
  "quantize6 x =
     (let n = round_half_even (x * 1000000)
      in if 10 ^ 28 \<le> \<bar>n\<bar> then Inl (InvalidOp ''quantize'') else Inr (of_int n / 1000000))"

lemma dctx_mono: "x \<le> y \<Longrightarrow> dctx x \<le> dctx y"
  by (simp add: dctx_def round_sig_mono)

lemma dctx_0 [simp]: "dctx 0 = 0"
  by (simp add: dctx_def)

lemma dctx_nonneg: "0 \<le> x \<Longrightarrow> 0 \<le> dctx x"
  by (simp add: dctx_def round_sig_nonneg)

lemma dctx_pos: "0 < x \<Longrightarrow> 0 < dctx x"
  by (simp add: dctx_def round_sig_pos)

lemma dctx_nonpos: "x \<le> 0 \<Longrightarrow> dctx x \<le> 0"
  using dctx_mono[of x 0] by simp

lemma dctx_minus: "dctx (- x) = - dctx x"
  by (simp add: dctx_def round_sig_minus)

lemma dctx_pos_iff [simp]: "0 < dctx x \<longleftrightarrow> 0 < x"
  using dctx_pos[of x] dctx_nonpos[of x] by fastforce

lemma dctx_sign_iff [simp]:
  "dctx x \<le> 0 \<longleftrightarrow> x \<le> 0" "0 \<le> dctx x \<longleftrightarrow> 0 \<le> x" "dctx x < 0 \<longleftrightarrow> x < 0" "dctx x = 0 \<longleftrightarrow> x = 0"
proof -
  show a: "dctx x \<le> 0 \<longleftrightarrow> x \<le> 0" for x
    using dctx_pos_iff[of x] by (simp add: not_less[symmetric] del: dctx_pos_iff)
  show b: "0 \<le> dctx x \<longleftrightarrow> 0 \<le> x"
    using a[of "- x"] by (simp add: dctx_minus)
  show "dctx x < 0 \<longleftrightarrow> x < 0" "dctx x = 0 \<longleftrightarrow> x = 0"
    using a[of x] b by auto
qed

lemma dctx_short: "\<bar>k\<bar> < 10 ^ 28 \<Longrightarrow> dctx (of_int k * 10 powi e) = of_int k * 10 powi e"
  using round_sig_short[of 10 28 k e] by (simp add: dctx_def)

lemma dctx_int: "\<bar>k\<bar> < 10 ^ 28 \<Longrightarrow> dctx (of_int k) = of_int k"
  using dctx_short[of k 0] by simp

lemma dctx_numeral [simp]: "(numeral n :: int) < 10 ^ 28 \<Longrightarrow> dctx (numeral n) = numeral n"
  using dctx_int[of "numeral n"] by simp

lemma dctx_1 [simp]: "dctx 1 = 1"
  using dctx_int[of 1] by simp

lemma dabs_nonneg: "0 \<le> dabs x"
  by (simp add: dabs_def dctx_nonneg)

lemma dsub_self [simp]: "dsub x x = 0"
  by (simp add: dsub_def)

lemma dabs_0 [simp]: "dabs 0 = 0"
  by (simp add: dabs_def)

lemma dmul_nonneg: "0 \<le> x \<Longrightarrow> 0 \<le> y \<Longrightarrow> 0 \<le> dmul x y"
  by (simp add: dmul_def dctx_nonneg)

lemma dmul_mono: "0 \<le> x \<Longrightarrow> x \<le> x' \<Longrightarrow> 0 \<le> y \<Longrightarrow> y \<le> y' \<Longrightarrow> dmul x y \<le> dmul x' y'"
  by (auto simp: dmul_def intro!: dctx_mono mult_mono)

lemma dmul_0 [simp]: "dmul 0 x = 0" "dmul x 0 = 0"
  by (simp_all add: dmul_def)

lemma dadd_mono: "x \<le> x' \<Longrightarrow> y \<le> y' \<Longrightarrow> dadd x y \<le> dadd x' y'"
  by (auto simp: dadd_def intro!: dctx_mono)

lemma dadd_nonneg: "0 \<le> x \<Longrightarrow> 0 \<le> y \<Longrightarrow> 0 \<le> dadd x y"
  by (simp add: dadd_def dctx_nonneg)

lemma ddiv_Inr [err_simps]: "ddiv x y = Inr z \<longleftrightarrow> y \<noteq> 0 \<and> z = dctx (x / y)"
  by (auto simp: ddiv_def)

lemma quantize6_close: "quantize6 x = Inr y \<Longrightarrow> \<bar>y - x\<bar> \<le> 1 / 2000000"
  using round_half_even_error[of "x * 1000000"]
  by (auto simp: quantize6_def Let_def err_simps abs_if field_simps split: if_splits)

section \<open>Binary floats\<close>

definition f64 :: "rat \<Rightarrow> rat option" where
  "f64 x =
     (if x = 0 then Some 0
      else let r = round_at 2 (max (expo 2 \<bar>x\<bar> - 52) (- 1074)) x
           in if 2 ^ 1024 \<le> \<bar>r\<bar> then None else Some r)"

text \<open>
  The shortest decimal that reads back as the same float, which is what \<open>str\<close> of a float
  shows: the first of the roundings to 1, 2, \<open>\<dots>\<close>, 17 digits with that property.
\<close>

fun shortest_from :: "nat \<Rightarrow> int \<Rightarrow> rat \<Rightarrow> rat" where
  "shortest_from 0 p x = round_sig 10 p x"
| "shortest_from (Suc n) p x =
     (if f64 (round_sig 10 p x) = Some x then round_sig 10 p x else shortest_from n (p + 1) x)"

definition float_str :: "rat \<Rightarrow> rat" where
  "float_str x = shortest_from 16 1 x"

lemma f64_nonneg: "0 \<le> x \<Longrightarrow> f64 x = Some y \<Longrightarrow> 0 \<le> y"
proof -
  assume x: "0 \<le> x" and f: "f64 x = Some y"
  have "0 \<le> round_at 2 e x" for e
    using x round_half_even_mono[of 0 "x / 2 powi e"]
    by (simp add: round_at_def round_half_even_def)
  with f show ?thesis
    by (auto simp: f64_def Let_def split: if_splits)
qed

lemma f64_int:
  assumes "\<bar>k\<bar> < 2 ^ 53" shows "f64 (of_int k) = Some (of_int k)"
proof (cases "k = 0")
  case False
  have "(1::rat) \<le> of_int \<bar>k\<bar>"
    using False by linarith
  then have "0 \<le> expo 2 \<bar>of_int k\<bar>"
    by (simp add: expo_def ilog_nonneg)
  then have "max (expo 2 \<bar>of_int k\<bar> - 52) (- 1074) = expo 2 \<bar>of_int k\<bar> - 53 + 1"
    by simp
  then have r: "round_at 2 (max (expo 2 \<bar>of_int k\<bar> - 52) (- 1074)) (of_int k) = of_int k"
    using round_sig_short[of 2 53 k 0] assms False by (simp add: round_sig_def)
  have "\<bar>of_int k :: rat\<bar> < of_int (2 ^ 53)"
    using assms by (metis of_int_abs of_int_less_iff)
  also have "\<dots> < (2::rat) ^ 1024"
    by simp
  finally show ?thesis
    unfolding f64_def r Let_def using False by simp
qed (simp add: f64_def)

lemma f64_numeral [simp]: "(numeral n :: int) < 2 ^ 53 \<Longrightarrow> f64 (numeral n) = Some (numeral n)"
  using f64_int[of "numeral n"] by simp

lemma shortest_from_nonneg: "0 \<le> x \<Longrightarrow> 0 < p \<Longrightarrow> 0 \<le> shortest_from n p x"
  by (induction n p x rule: shortest_from.induct) (auto simp: round_sig_nonneg)

lemma float_str_nonneg: "0 \<le> x \<Longrightarrow> 0 \<le> float_str x"
  by (simp add: float_str_def shortest_from_nonneg)

section \<open>Median and elapsed seconds\<close>

text \<open>
  \<open>statistics.median\<close> of decimals: the middle value, or half the sum of the two middle
  values, computed with decimal arithmetic; the empty sequence is an error.
\<close>

definition dmedian :: "rat list \<Rightarrow> rat result" where
  "dmedian xs =
     (let s = sort xs; n = length s
      in if n = 0 then Inl (ValueError ''no median for empty data'')
         else if odd n then Inr (s ! (n div 2))
         else Inr (dctx (dadd (s ! (n div 2 - 1)) (s ! (n div 2)) / 2)))"

lemma dmedian_Inr_iff: "(\<exists>m. dmedian xs = Inr m) \<longleftrightarrow> xs \<noteq> []"
  by (cases xs) (auto simp: dmedian_def Let_def)

lemma dmedian_pos:
  assumes m: "dmedian xs = Inr m" and pos: "\<forall>x\<in>set xs. 0 < x"
  shows "0 < m"
proof -
  have ne: "xs \<noteq> []"
    using m dmedian_Inr_iff by blast
  have nth: "i < length xs \<Longrightarrow> 0 < sort xs ! i" for i
    using pos nth_mem[of i "sort xs"] by auto
  have "length xs div 2 < length xs" "length xs div 2 - 1 < length xs"
    using ne by (auto intro: le_less_trans[OF diff_le_self])
  with nth have "0 < sort xs ! (length xs div 2)" "0 < sort xs ! (length xs div 2 - 1)"
    using ne by auto
  with m show ?thesis
    by (auto simp: dmedian_def Let_def dadd_def split: if_splits)
qed

lemma dmedian_singleton [simp]: "dmedian [x] = Inr x"
  by (simp add: dmedian_def)

text \<open>
  On prices with at most six decimal places, below \<open>10 ^ 20\<close>, the median is computed without
  rounding and lies between the prices.
\<close>

definition price_grid :: "rat \<Rightarrow> bool" where
  "price_grid x \<longleftrightarrow> (let n = \<lfloor>x * 1000000\<rfloor> in x * 1000000 = of_int n \<and> \<bar>n\<bar> < 10 ^ 26)"

lemma dctx_grid: "\<bar>k\<bar> < 10 ^ 28 \<Longrightarrow> dctx (of_int k / 10000000) = of_int k / 10000000"
  using dctx_short[of k "- 7"] by (simp add: power_int_minus field_simps)

lemma grid_midpoint:
  assumes "price_grid a" "price_grid b"
  shows "dctx (dadd a b / 2) = (a + b) / 2"
proof -
  define k l where "k = \<lfloor>a * 1000000\<rfloor>" and "l = \<lfloor>b * 1000000\<rfloor>"
  have ab: "a = of_int k / 1000000" "b = of_int l / 1000000" "\<bar>k\<bar> < 10 ^ 26" "\<bar>l\<bar> < 10 ^ 26"
    using assms by (simp_all add: price_grid_def k_def l_def Let_def field_simps)
  have s: "a + b = of_int ((k + l) * 10) / 10000000" "(a + b) / 2 = of_int ((k + l) * 5) / 10000000"
    by (simp_all add: ab field_simps)
  have kl: "\<bar>k + l\<bar> < 2 * 10 ^ 26"
    using ab(3,4) by linarith
  have "\<bar>(k + l) * 10\<bar> < 10 ^ 28" "\<bar>(k + l) * 5\<bar> < 10 ^ 28"
    using kl by (simp_all add: abs_mult)
  then show ?thesis
    unfolding dadd_def using dctx_grid s by metis
qed

lemma dmedian_between:
  assumes m: "dmedian xs = Inr m" and g: "\<forall>x\<in>set xs. price_grid x"
    and lo: "\<forall>x\<in>set xs. lo \<le> x" and hi: "\<forall>x\<in>set xs. x \<le> hi"
  shows "lo \<le> m \<and> m \<le> hi"
proof -
  let ?n = "length xs" and ?s = "sort xs"
  have "xs \<noteq> []"
    using m dmedian_Inr_iff by blast
  then have "?n div 2 < ?n" "?n div 2 - 1 < ?n"
    by (auto intro: le_less_trans[OF diff_le_self])
  then have "?s ! (?n div 2) \<in> set xs" "?s ! (?n div 2 - 1) \<in> set xs"
    using nth_mem[of _ ?s] by simp_all
  with lo hi g have b: "lo \<le> ?s ! (?n div 2)" "?s ! (?n div 2) \<le> hi"
      "lo \<le> ?s ! (?n div 2 - 1)" "?s ! (?n div 2 - 1) \<le> hi"
      "dctx (dadd (?s ! (?n div 2 - 1)) (?s ! (?n div 2)) / 2)
         = (?s ! (?n div 2 - 1) + ?s ! (?n div 2)) / 2"
    using grid_midpoint by blast+
  have "m = ?s ! (?n div 2) \<or> m = dctx (dadd (?s ! (?n div 2 - 1)) (?s ! (?n div 2)) / 2)"
    using m by (auto simp: dmedian_def Let_def split: if_splits)
  then show ?thesis
    unfolding b(5) using b(1-4) by auto
qed

text \<open>
  An instant or a duration is a number of microseconds. \<open>timedelta.total_seconds\<close> divides
  by a million in floating point; the result is in the normal range.
\<close>

type_synonym instant = int
type_synonym duration = int

definition seconds :: "int \<Rightarrow> duration" where
  "seconds n = n * 1000000"

definition total_seconds :: "duration \<Rightarrow> rat" where
  "total_seconds d = round_sig 2 53 (of_int d / 1000000)"

lemma seconds_simps [simp]:
  "seconds 0 = 0"
  "seconds m \<le> seconds n \<longleftrightarrow> m \<le> n"
  "seconds m < seconds n \<longleftrightarrow> m < n"
  "0 < seconds n \<longleftrightarrow> 0 < n"
  "0 \<le> seconds n \<longleftrightarrow> 0 \<le> n"
  by (simp_all add: seconds_def)

lemma seconds_min: "seconds (min m n) = min (seconds m) (seconds n)"
  by (simp add: seconds_def min_def)

lemma total_seconds_mono: "c \<le> d \<Longrightarrow> total_seconds c \<le> total_seconds d"
  by (simp add: total_seconds_def round_sig_mono divide_right_mono)

lemma total_seconds_neg [simp]: "total_seconds d < 0 \<longleftrightarrow> d < 0"
proof
  assume "d < 0"
  then show "total_seconds d < 0"
    using round_sig_pos[of 2 53 "- (of_int d / 1000000)"]
    unfolding round_sig_minus total_seconds_def by simp
next
  assume *: "total_seconds d < 0"
  then show "d < 0"
    using round_sig_nonneg[of 2 53 "of_int d / 1000000"]
    by (rule_tac ccontr) (auto simp: total_seconds_def)
qed

lemma total_seconds_nonneg [simp]: "0 \<le> total_seconds d \<longleftrightarrow> 0 \<le> d"
  by (simp add: not_less[symmetric])

lemma total_seconds_whole: "\<bar>m\<bar> < 2 ^ 53 \<Longrightarrow> total_seconds (seconds m) = of_int m"
  using round_sig_short[of 2 53 m 0] by (simp add: total_seconds_def seconds_def)

lemma round_sig_error:
  assumes b: "1 < b" and x: "0 < x"
  shows "\<bar>round_sig b p x - x\<bar> \<le> of_int b powi (expo b x - p + 1) / 2"
proof -
  let ?g = "(of_int b :: rat) powi (expo b x - p + 1)"
  have g: "0 < ?g"
    using b by simp
  have "round_sig b p x - x = (of_int (round_half_even (x / ?g)) - x / ?g) * ?g"
    using x g b by (simp add: round_sig_def round_at_def algebra_simps)
  then have "\<bar>round_sig b p x - x\<bar> = \<bar>of_int (round_half_even (x / ?g)) - x / ?g\<bar> * ?g"
    using g by (simp add: abs_mult)
  also have "\<dots> \<le> 1 / 2 * ?g"
    using round_half_even_error[of "x / ?g"] g by (intro mult_right_mono) auto
  finally show ?thesis by simp
qed

text \<open>
  For durations below \<open>2 ^ 32\<close> seconds the float comparison with a whole number of seconds
  is the exact one.
\<close>

lemma total_seconds_gt_iff:
  assumes m: "0 \<le> m" "m < 2 ^ 31"
  shows "of_int m < total_seconds d \<longleftrightarrow> seconds m < d"
proof
  assume *: "of_int m < total_seconds d"
  show "seconds m < d"
  proof (rule ccontr)
    assume "\<not> seconds m < d"
    then have "total_seconds d \<le> total_seconds (seconds m)"
      by (intro total_seconds_mono) simp
    with * m show False
      by (simp add: total_seconds_whole)
  qed
next
  assume "seconds m < d"
  then have le: "seconds m + 1 \<le> d"
    by simp
  let ?x = "of_int (seconds m + 1) / 1000000 :: rat"
  have x: "?x = of_int m + 1 / 1000000"
    by (simp add: seconds_def field_simps)
  have pos: "0 < ?x"
    unfolding x using m(1) by (simp add: add_nonneg_pos)
  have "?x < 2 ^ 32"
  proof -
    have "(of_int m :: rat) < of_int (2 ^ 31)"
      using m(2) of_int_less_iff by blast
    then show ?thesis
      unfolding x by simp
  qed
  then have "(2::rat) powi expo 2 ?x < 2 powi 32"
    using expo_bounds(1)[of 2 ?x] pos by simp
  then have "expo 2 ?x < 32"
    using power_int_increasing[of 32 "expo 2 ?x" "2::rat"] by (meson linorder_not_less one_le_numeral)
  then have "(2::rat) powi (expo 2 ?x - 53 + 1) \<le> 2 powi (- 21)"
    by (intro power_int_increasing) auto
  then have "\<bar>total_seconds (seconds m + 1) - ?x\<bar> \<le> 2 powi (- 21) / 2"
    using round_sig_error[of 2 ?x 53] pos by (simp add: total_seconds_def)
  also have "(2::rat) powi (- 21) / 2 < 1 / 1000000"
    by (simp add: power_int_minus)
  finally have "of_int m < total_seconds (seconds m + 1)"
    unfolding x by linarith
  also have "\<dots> \<le> total_seconds d"
    using le by (rule total_seconds_mono)
  finally show "of_int m < total_seconds d" .
qed

end
