(* ===== verification/Py_Values.thy ===== *)
theory Py_Values
  imports Py_Numbers
begin

text \<open>
  The values found in the dictionaries of the source (\<open>metadata\<close>, \<open>source_summary\<close>, settings
  rows, price snapshots) and the conversions \<open>int(..)\<close>, \<open>Decimal(str(..))\<close>, \<open>float(..)\<close>,
  \<open>bool(..)\<close> and \<open>str(..)\<close> the source applies to them.

  A Python \<open>str\<close> is one of three constructors: \<open>PStr\<close> for plain text, \<open>PIso t\<close> for the
  ISO timestamp of the instant \<open>t\<close> (the text \<open>isoformat\<close> writes and \<open>fromisoformat\<close> reads
  back as \<open>t\<close>) and \<open>PDecStr q\<close> for the text of the decimal \<open>q\<close>. A list is either a list of
  texts (\<open>PList\<close>) or a list of dictionaries (\<open>PDicts\<close>), the two kinds the source stores. What a provider sent
  and no other constructor can hold, such as a text beyond the first 256 characters, is \<open>PJson\<close>.
\<close>

datatype pyfloat = FFin rat | FInf bool | FNaN

datatype pydec = DFin rat | DInf bool | DNaN

text \<open>What \<open>json.loads\<close> gives: a text is the list of its code points, an object the list of its members in order,
  each name once.\<close>

type_synonym utext = "nat list"

datatype json =
    JNull
  | JBool bool
  | JInt int
  | JFloat pyfloat
  | JStr utext
  | JList "json list"
  | JObj "(utext \<times> json) list"

fun j_truth :: "json \<Rightarrow> bool" where
  "j_truth JNull = False"
| "j_truth (JBool b) = b"
| "j_truth (JInt n) = (n \<noteq> 0)"
| "j_truth (JFloat f) = (f \<noteq> FFin 0)"
| "j_truth (JStr s) = (s \<noteq> [])"
| "j_truth (JList xs) = (xs \<noteq> [])"
| "j_truth (JObj ms) = (ms \<noteq> [])"

datatype pyval =
    PNone
  | PBool bool
  | PInt int
  | PFloat pyfloat
  | PStr string
  | PIso instant
  | PDecStr rat
  | PList "string list"
  | PDicts "(string \<times> pyval) list list"
  | PJson json

type_synonym dict = "string \<rightharpoonup> pyval"

definition dict_get :: "dict \<Rightarrow> string \<Rightarrow> pyval \<Rightarrow> pyval" where
  "dict_get d k v = (case d k of None \<Rightarrow> v | Some x \<Rightarrow> x)"

fun py_truth :: "pyval \<Rightarrow> bool" where
  "py_truth PNone = False"
| "py_truth (PBool b) = b"
| "py_truth (PInt n) = (n \<noteq> 0)"
| "py_truth (PFloat f) = (f \<noteq> FFin 0)"
| "py_truth (PStr s) = (s \<noteq> [])"
| "py_truth (PIso t) = True"
| "py_truth (PDecStr q) = True"
| "py_truth (PList xs) = (xs \<noteq> [])"
| "py_truth (PDicts xs) = (xs \<noteq> [])"
| "py_truth (PJson j) = j_truth j"

definition is_finite :: "pydec \<Rightarrow> bool" where
  "is_finite d = (case d of DFin _ \<Rightarrow> True | _ \<Rightarrow> False)"

lemma is_finite_iff: "is_finite d \<longleftrightarrow> (\<exists>q. d = DFin q)"
  by (cases d) (auto simp: is_finite_def)

section \<open>Reading numbers from text\<close>

definition is_digit :: "char \<Rightarrow> bool" where
  "is_digit c \<longleftrightarrow> (let n = (of_char c :: nat) in 48 \<le> n \<and> n \<le> 57)"

definition digit_val :: "char \<Rightarrow> int" where
  "digit_val c = int (of_char c) - 48"

definition digits_val :: "string \<Rightarrow> int" where
  "digits_val s = foldl (\<lambda>a c. 10 * a + digit_val c) 0 s"

fun split_sign :: "string \<Rightarrow> int \<times> string" where
  "split_sign [] = (1, [])"
| "split_sign (c # s) = (if c = CHR ''-'' then (- 1, s) else if c = CHR ''+'' then (1, s) else (1, c # s))"

text \<open>\<open>int(text)\<close>: white space around, a sign, digits with single underscores between them.\<close>

fun digits_with_underscores :: "string \<Rightarrow> bool" where
  "digits_with_underscores [] = False"
| "digits_with_underscores [c] = is_digit c"
| "digits_with_underscores (c # d # s) =
     (is_digit c \<and> (if d = CHR ''_'' then digits_with_underscores s
                    else digits_with_underscores (d # s)))"

definition parse_int :: "string \<Rightarrow> int option" where
  "parse_int s =
     (case split_sign (strip s) of (sg, ds) \<Rightarrow>
        if digits_with_underscores ds
        then Some (sg * digits_val (filter is_digit ds)) else None)"

text \<open>
  \<open>Decimal(text)\<close>: underscores are dropped; a sign, digits with an optional point and an
  optional exponent, or a spelling of infinity or of not-a-number.
\<close>

definition parse_exponent :: "string \<Rightarrow> int option" where
  "parse_exponent s =
     (case s of
        [] \<Rightarrow> Some 0
      | c # r \<Rightarrow>
          if c \<noteq> CHR ''e'' then None
          else case split_sign r of (sg, ds) \<Rightarrow>
            if ds \<noteq> [] \<and> list_all is_digit ds then Some (sg * digits_val ds) else None)"

definition parse_decimal :: "string \<Rightarrow> pydec option" where
  "parse_decimal s =
     (case split_sign (lower (filter (\<lambda>c. c \<noteq> CHR ''_'') (strip s))) of (sg, body) \<Rightarrow>
        if body = ''inf'' \<or> body = ''infinity'' then Some (DInf (sg = 1))
        else if starts_with ''nan'' body \<and> list_all is_digit (drop 3 body) then Some DNaN
        else if starts_with ''snan'' body \<and> list_all is_digit (drop 4 body) then Some DNaN
        else
          let ip = takeWhile is_digit body; r = dropWhile is_digit body;
              fp = (case r of c # r' \<Rightarrow> if c = CHR ''.'' then takeWhile is_digit r' else [] | [] \<Rightarrow> []);
              r2 = (case r of c # r' \<Rightarrow> if c = CHR ''.'' then dropWhile is_digit r' else r | [] \<Rightarrow> [])
          in if ip @ fp = [] then None
             else map_option
               (\<lambda>e. DFin (of_int (sg * digits_val (ip @ fp)) * 10 powi (e - int (length fp))))
               (parse_exponent r2))"

section \<open>Conversions\<close>

fun py_decimal :: "pyval \<Rightarrow> pydec result" where
  "py_decimal (PStr s) =
     (case parse_decimal s of None \<Rightarrow> Inl (InvalidOp ''ConversionSyntax'') | Some d \<Rightarrow> Inr d)"
| "py_decimal (PDecStr q) = Inr (DFin q)"
| "py_decimal (PInt n) = Inr (DFin (of_int n))"
| "py_decimal (PFloat (FFin x)) = Inr (DFin (float_str x))"
| "py_decimal (PFloat (FInf b)) = Inr (DInf b)"
| "py_decimal (PFloat FNaN) = Inr DNaN"
| "py_decimal _ = Inl (InvalidOp ''ConversionSyntax'')"

definition trunc :: "rat \<Rightarrow> int" where
  "trunc x = (if 0 \<le> x then \<lfloor>x\<rfloor> else \<lceil>x\<rceil>)"

fun py_int :: "pyval \<Rightarrow> int result" where
  "py_int (PInt n) = Inr n"
| "py_int (PBool b) = Inr (if b then 1 else 0)"
| "py_int (PFloat (FFin x)) = Inr (trunc x)"
| "py_int (PFloat (FInf b)) = Inl OverflowErr"
| "py_int (PFloat FNaN) = Inl (ValueError ''cannot convert float NaN to integer'')"
| "py_int (PStr s) =
     (case parse_int s of None \<Rightarrow> Inl (ValueError ''invalid literal for int()'') | Some n \<Rightarrow> Inr n)"
| "py_int (PDecStr q) =
     (if of_int \<lfloor>q\<rfloor> = q then Inr \<lfloor>q\<rfloor> else Inl (ValueError ''invalid literal for int()''))"
| "py_int (PIso t) = Inl (ValueError ''invalid literal for int()'')"
| "py_int _ = Inl (TypeError ''int() argument'')"

definition of_f64 :: "bool \<Rightarrow> rat option \<Rightarrow> pyfloat" where
  "of_f64 pos r = (case r of Some x \<Rightarrow> FFin x | None \<Rightarrow> FInf pos)"

fun py_float :: "pyval \<Rightarrow> pyfloat result" where
  "py_float (PFloat f) = Inr f"
| "py_float (PInt n) = (case f64 (of_int n) of Some x \<Rightarrow> Inr (FFin x) | None \<Rightarrow> Inl OverflowErr)"
| "py_float (PBool b) = Inr (FFin (if b then 1 else 0))"
| "py_float (PStr s) =
     (case parse_decimal s of
        None \<Rightarrow> Inl (ValueError ''could not convert string to float'')
      | Some (DFin q) \<Rightarrow> Inr (of_f64 (0 \<le> q) (f64 q))
      | Some (DInf b) \<Rightarrow> Inr (FInf b)
      | Some DNaN \<Rightarrow> Inr FNaN)"
| "py_float (PDecStr q) = Inr (of_f64 (0 \<le> q) (f64 q))"
| "py_float (PIso t) = Inl (ValueError ''could not convert string to float'')"
| "py_float _ = Inl (TypeError ''float() argument'')"

text \<open>
  Decimal digits of an integer, and \<open>str(..)\<close>. Where the source asks for the text of a value
  the value is a text, a number of a row or \<open>None\<close>; the text of the remaining kinds is
  represented by a marker of the kind.
\<close>

function nat_text :: "int \<Rightarrow> string" where
  "nat_text n = (if n < 10 then [char_of (nat (48 + n))]
                 else nat_text (n div 10) @ [char_of (nat (48 + n mod 10))])"
  by pat_completeness auto
termination
  by (relation "measure nat") auto

declare nat_text.simps [simp del]

definition int_text :: "int \<Rightarrow> string" where
  "int_text n = (if n < 0 then CHR ''-'' # nat_text (- n) else nat_text n)"

fun py_text :: "pyval \<Rightarrow> string" where
  "py_text (PStr s) = s"
| "py_text (PInt n) = int_text n"
| "py_text (PBool b) = (if b then ''True'' else ''False'')"
| "py_text PNone = ''None''"
| "py_text (PIso t) = ''<iso>''"
| "py_text (PDecStr q) = ''<decimal>''"
| "py_text (PFloat f) = ''<float>''"
| "py_text (PList xs) = ''<list>''"
| "py_text (PDicts xs) = ''<list>''"
| "py_text (PJson j) = ''<json>''"

text \<open>\<open>parse_datetime\<close> reads an ISO text; anything else is an error.\<close>

text \<open>\<open>float(value)\<close> of a decimal, refused when it is not finite.\<close>

definition json_number :: "rat option \<Rightarrow> pyval result" where
  "json_number v =
     (case v of
        None \<Rightarrow> Inr PNone
      | Some q \<Rightarrow> (case f64 q of
          None \<Rightarrow> Inl (ValueError ''JSON numbers must be finite'')
        | Some x \<Rightarrow> Inr (PFloat (FFin x))))"

lemma json_number_None [simp]: "json_number None = Inr PNone"
  by (simp add: json_number_def)

end
