(* ===== verification/Freshness.thy ===== *)
theory Freshness
  imports Py_Numbers
begin

text \<open>
  Model of \<open>apps/api/app/pricing/freshness.py\<close>: the time windows of a quote. A source
  timestamp, the time the quote was received and a policy determine until when the quote is
  live, until when it may be shown as stale, when it expires and how long it is retained.

  A \<open>datetime\<close> is \<open>Naive w\<close> or \<open>Aware w off\<close>, with the wall clock and the offset from UTC in
  microseconds; \<open>ensure_utc\<close> gives the instant. Raising is \<open>Inl\<close>.
\<close>

section \<open>Time values\<close>

datatype py_datetime = Naive int | Aware int int

fun ensure_utc :: "py_datetime \<Rightarrow> instant" where
  "ensure_utc (Naive w) = w"
| "ensure_utc (Aware w off) = w - off"

abbreviation utc :: "instant \<Rightarrow> py_datetime" where
  "utc t \<equiv> Aware t 0"

definition default_future_clock_skew_seconds :: int where
  "default_future_clock_skew_seconds = 30"

datatype freshness_status = FLive | FStale | FExpired

section \<open>Policy and boundaries\<close>

record freshness_policy =
  maximum_source_age_seconds :: int
  provider_live_ttl_seconds :: int
  instrument_operational_ttl_seconds :: int
  instrument_stale_after_seconds :: int
  instrument_expire_after_seconds :: int
  future_clock_skew_seconds :: int
  anchor_live_window_at_receive_time :: bool

definition freshness_policy_post_init :: "freshness_policy \<Rightarrow> freshness_policy result" where
  "freshness_policy_post_init p =
     ebind (require (\<not> min_of (maximum_source_age_seconds p)
                [provider_live_ttl_seconds p, instrument_operational_ttl_seconds p,
                 instrument_stale_after_seconds p, instrument_expire_after_seconds p] \<le> 0)
              (ValueError ''Freshness durations must be positive'')) (\<lambda>_.
     ebind (require (instrument_operational_ttl_seconds p \<le> instrument_stale_after_seconds p
                \<and> instrument_stale_after_seconds p \<le> instrument_expire_after_seconds p)
              (ValueError ''Instrument freshness windows are invalid'')) (\<lambda>_.
     ebind (require (\<not> future_clock_skew_seconds p < 0)
              (ValueError ''Future clock skew allowance cannot be negative'')) (\<lambda>_.
     Inr p)))"

definition valid_policy :: "freshness_policy \<Rightarrow> bool" where
  "valid_policy p \<longleftrightarrow>
     0 < maximum_source_age_seconds p \<and> 0 < provider_live_ttl_seconds p
     \<and> 0 < instrument_operational_ttl_seconds p
     \<and> instrument_operational_ttl_seconds p \<le> instrument_stale_after_seconds p
     \<and> instrument_stale_after_seconds p \<le> instrument_expire_after_seconds p
     \<and> 0 \<le> future_clock_skew_seconds p"

record freshness_boundaries =
  fb_cache_retention_until :: instant
  fb_live_eligible_until :: instant
  fb_stale_display_until :: instant
  fb_expired_after :: instant

definition status_at :: "freshness_boundaries \<Rightarrow> py_datetime \<Rightarrow> freshness_status" where
  "status_at b now =
     (let current = ensure_utc now
      in if current \<le> fb_live_eligible_until b then FLive
         else if current \<le> fb_expired_after b then FStale
         else FExpired)"

definition is_retained_at :: "freshness_boundaries \<Rightarrow> py_datetime \<Rightarrow> bool" where
  "is_retained_at b now \<longleftrightarrow> ensure_utc now \<le> fb_cache_retention_until b"

definition is_stale_displayable_at :: "freshness_boundaries \<Rightarrow> py_datetime \<Rightarrow> bool" where
  "is_stale_displayable_at b now \<longleftrightarrow>
     (let current = ensure_utc now
      in fb_live_eligible_until b < current \<and> current \<le> fb_stale_display_until b)"

section \<open>Boundary computation\<close>

definition freshness_anchor ::
  "py_datetime \<Rightarrow> py_datetime \<Rightarrow> freshness_policy \<Rightarrow> (instant \<times> instant) result" where
  "freshness_anchor source_timestamp receive_timestamp p =
     (let source = ensure_utc source_timestamp; received = ensure_utc receive_timestamp
      in if source > received + seconds (future_clock_skew_seconds p)
         then Inl (ValueError ''Source timestamp exceeds future clock skew allowance'')
         else if anchor_live_window_at_receive_time p then
           (if total_seconds (received - source) > of_int (maximum_source_age_seconds p)
            then Inl (ValueError ''Source timestamp exceeds maximum accepted age'')
            else Inr (received, received))
         else Inr (min source received, received))"

definition live_eligible_until ::
  "py_datetime \<Rightarrow> py_datetime \<Rightarrow> freshness_policy \<Rightarrow> instant result" where
  "live_eligible_until source_timestamp receive_timestamp p =
     ebind (freshness_anchor source_timestamp receive_timestamp p) (\<lambda>(anchor, _).
       let live_seconds = min_of (maximum_source_age_seconds p)
             [provider_live_ttl_seconds p, instrument_operational_ttl_seconds p,
              instrument_expire_after_seconds p]
       in Inr (min (anchor + seconds live_seconds)
                   (ensure_utc source_timestamp + seconds (maximum_source_age_seconds p))))"

definition stale_display_until ::
  "py_datetime \<Rightarrow> py_datetime \<Rightarrow> freshness_policy \<Rightarrow> instant result" where
  "stale_display_until source_timestamp receive_timestamp p =
     ebind (freshness_anchor source_timestamp receive_timestamp p) (\<lambda>(anchor, _).
       Inr (anchor + seconds (instrument_stale_after_seconds p)))"

definition expired_after ::
  "py_datetime \<Rightarrow> py_datetime \<Rightarrow> freshness_policy \<Rightarrow> instant result" where
  "expired_after source_timestamp receive_timestamp p =
     ebind (freshness_anchor source_timestamp receive_timestamp p) (\<lambda>(anchor, _).
       Inr (anchor + seconds (instrument_expire_after_seconds p)))"

definition cache_retention_until ::
  "py_datetime \<Rightarrow> py_datetime \<Rightarrow> freshness_policy \<Rightarrow> instant result" where
  "cache_retention_until source_timestamp receive_timestamp p =
     ebind (freshness_anchor source_timestamp receive_timestamp p) (\<lambda>(_, received).
     ebind (expired_after source_timestamp receive_timestamp p) (\<lambda>logical_expiry.
       Inr (max logical_expiry (received + seconds (instrument_expire_after_seconds p)))))"

definition freshness_boundaries_of ::
  "py_datetime \<Rightarrow> py_datetime \<Rightarrow> freshness_policy \<Rightarrow> freshness_boundaries result" where
  "freshness_boundaries_of source_timestamp receive_timestamp p =
     ebind (cache_retention_until source_timestamp receive_timestamp p) (\<lambda>c.
     ebind (live_eligible_until source_timestamp receive_timestamp p) (\<lambda>l.
     ebind (stale_display_until source_timestamp receive_timestamp p) (\<lambda>s.
     ebind (expired_after source_timestamp receive_timestamp p) (\<lambda>e.
       Inr \<lparr>fb_cache_retention_until = c, fb_live_eligible_until = l,
            fb_stale_display_until = s, fb_expired_after = e\<rparr>))))"

lemmas boundary_defs [time_simps] =
  freshness_anchor_def live_eligible_until_def stale_display_until_def expired_after_def
  cache_retention_until_def freshness_boundaries_of_def

section \<open>Facts about the windows\<close>

lemma freshness_policy_post_init_iff:
  "freshness_policy_post_init p = Inr q \<longleftrightarrow> q = p \<and> valid_policy p"
  by (auto simp: freshness_policy_post_init_def valid_policy_def err_simps)

text \<open>The anchor of a quote that is accepted, and the four boundaries measured from it.\<close>

definition anchor_of :: "py_datetime \<Rightarrow> py_datetime \<Rightarrow> freshness_policy \<Rightarrow> instant" where
  "anchor_of s r p =
     (if anchor_live_window_at_receive_time p then ensure_utc r
      else min (ensure_utc s) (ensure_utc r))"

lemma freshness_boundaries_Inr:
  assumes "freshness_boundaries_of s r p = Inr b"
  shows "fb_live_eligible_until b =
      min (anchor_of s r p + seconds (min_of (maximum_source_age_seconds p)
             [provider_live_ttl_seconds p, instrument_operational_ttl_seconds p,
              instrument_expire_after_seconds p]))
          (ensure_utc s + seconds (maximum_source_age_seconds p))"
    and "fb_stale_display_until b = anchor_of s r p + seconds (instrument_stale_after_seconds p)"
    and "fb_expired_after b = anchor_of s r p + seconds (instrument_expire_after_seconds p)"
    and "fb_cache_retention_until b =
      max (anchor_of s r p + seconds (instrument_expire_after_seconds p))
          (ensure_utc r + seconds (instrument_expire_after_seconds p))"
  using assms
  by (auto simp: time_simps err_simps anchor_of_def Let_def split: if_splits)

lemma freshness_boundaries_ok_iff:
  "(\<exists>b. freshness_boundaries_of s r p = Inr b) \<longleftrightarrow>
     ensure_utc s \<le> ensure_utc r + seconds (future_clock_skew_seconds p)
     \<and> (anchor_live_window_at_receive_time p \<longrightarrow>
          total_seconds (ensure_utc r - ensure_utc s) \<le> of_int (maximum_source_age_seconds p))"
  by (auto simp: time_simps err_simps Let_def not_less)

lemma status_at_cases:
  "status_at b now = FLive \<longleftrightarrow> ensure_utc now \<le> fb_live_eligible_until b"
  "status_at b now = FExpired \<longleftrightarrow>
     fb_live_eligible_until b < ensure_utc now \<and> fb_expired_after b < ensure_utc now"
  "status_at b now = FStale \<longleftrightarrow>
     fb_live_eligible_until b < ensure_utc now \<and> ensure_utc now \<le> fb_expired_after b"
  by (auto simp: status_at_def Let_def)

instantiation freshness_status :: linorder
begin

definition freshness_rank :: "freshness_status \<Rightarrow> nat" where
  "freshness_rank s = (case s of FLive \<Rightarrow> 0 | FStale \<Rightarrow> 1 | FExpired \<Rightarrow> 2)"

definition less_eq_freshness_status :: "freshness_status \<Rightarrow> freshness_status \<Rightarrow> bool" where
  "less_eq_freshness_status s t \<longleftrightarrow> freshness_rank s \<le> freshness_rank t"

definition less_freshness_status :: "freshness_status \<Rightarrow> freshness_status \<Rightarrow> bool" where
  "less_freshness_status s t \<longleftrightarrow> freshness_rank s < freshness_rank t"

instance
  by standard
    (auto simp: less_eq_freshness_status_def less_freshness_status_def freshness_rank_def
      split: freshness_status.splits)

end

section \<open>Properties\<close>

text \<open>Claim C26. The four windows of every accepted quote are nested: the live window ends no later
  than the stale display window, that one no later than expiry, and the quote is retained in the
  cache at least until it expires; so a quote that is not expired is still retained, and a quote
  that may be displayed as stale has status stale.\<close>

theorem freshness_windows_nested:
  assumes "valid_policy p" and "freshness_boundaries_of s r p = Inr b"
  shows "fb_live_eligible_until b \<le> fb_stale_display_until b
    \<and> fb_stale_display_until b \<le> fb_expired_after b
    \<and> fb_expired_after b \<le> fb_cache_retention_until b
    \<and> (status_at b now \<noteq> FExpired \<longrightarrow> is_retained_at b now)
    \<and> (is_stale_displayable_at b now \<longrightarrow> status_at b now = FStale)"
proof -
  note b = freshness_boundaries_Inr[OF assms(2)]
  have "min_of (maximum_source_age_seconds p) [provider_live_ttl_seconds p,
      instrument_operational_ttl_seconds p, instrument_expire_after_seconds p]
      \<le> instrument_operational_ttl_seconds p"
    by (rule min_of_le) simp
  also have "\<dots> \<le> instrument_stale_after_seconds p"
    using assms(1) by (simp add: valid_policy_def)
  finally have ls: "fb_live_eligible_until b \<le> fb_stale_display_until b"
    unfolding b by (simp add: min.coboundedI1 seconds_def)
  have se: "fb_stale_display_until b \<le> fb_expired_after b"
    using assms(1) unfolding b by (simp add: valid_policy_def)
  have ec: "fb_expired_after b \<le> fb_cache_retention_until b"
    unfolding b by simp
  show ?thesis
    using ls se ec
    by (auto simp: status_at_def is_retained_at_def is_stale_displayable_at_def Let_def split: if_splits)
qed

definition example_policy :: freshness_policy where
  "example_policy = \<lparr>maximum_source_age_seconds = 600, provider_live_ttl_seconds = 360,
     instrument_operational_ttl_seconds = 300, instrument_stale_after_seconds = 900,
     instrument_expire_after_seconds = 3600, future_clock_skew_seconds = 30,
     anchor_live_window_at_receive_time = False\<rparr>"

definition example_boundaries :: freshness_boundaries where
  "example_boundaries = \<lparr>fb_cache_retention_until = 3610000000, fb_live_eligible_until = 300000000,
     fb_stale_display_until = 900000000, fb_expired_after = 3600000000\<rparr>"

lemma example_policy_valid: "valid_policy example_policy"
  by (simp add: valid_policy_def example_policy_def)

lemma example_boundaries_computed:
  "freshness_boundaries_of (utc 0) (utc 10000000) example_policy = Inr example_boundaries"
  by (simp add: time_simps example_policy_def example_boundaries_def seconds_def)

theorem freshness_windows_nested_witness:
  "fb_live_eligible_until example_boundaries \<le> fb_stale_display_until example_boundaries
    \<and> fb_stale_display_until example_boundaries \<le> fb_expired_after example_boundaries
    \<and> fb_expired_after example_boundaries \<le> fb_cache_retention_until example_boundaries
    \<and> is_retained_at example_boundaries (utc 400000000)"
  using freshness_windows_nested [OF example_policy_valid example_boundaries_computed,
      of "utc 400000000"]
  by (simp add: status_at_def example_boundaries_def)

text \<open>A live quote is never older than its source allows: while a quote counts as live,
  the source timestamp is at most the maximum source age in the past, also when the live window is
  anchored at the time of receipt, and at most the provider and instrument lifetimes have passed
  since the anchor.\<close>

theorem live_quote_age_bounded:
  assumes "freshness_boundaries_of s r p = Inr b" and "status_at b now = FLive"
  shows "ensure_utc now - ensure_utc s \<le> seconds (maximum_source_age_seconds p)
    \<and> ensure_utc now - anchor_of s r p \<le> seconds (provider_live_ttl_seconds p)
    \<and> ensure_utc now - anchor_of s r p \<le> seconds (instrument_operational_ttl_seconds p)"
proof -
  let ?m = "min_of (maximum_source_age_seconds p) [provider_live_ttl_seconds p,
      instrument_operational_ttl_seconds p, instrument_expire_after_seconds p]"
  have "?m \<le> provider_live_ttl_seconds p" "?m \<le> instrument_operational_ttl_seconds p"
    by (rule min_of_le; simp)+
  then have m: "seconds ?m \<le> seconds (provider_live_ttl_seconds p)"
      "seconds ?m \<le> seconds (instrument_operational_ttl_seconds p)"
    by simp_all
  have "ensure_utc now \<le> fb_live_eligible_until b"
    using assms(2) by (simp add: status_at_cases)
  then have "ensure_utc now \<le> anchor_of s r p + seconds ?m"
      "ensure_utc now \<le> ensure_utc s + seconds (maximum_source_age_seconds p)"
    unfolding freshness_boundaries_Inr(1)[OF assms(1)] by (auto simp del: min_of.simps)
  with m show ?thesis
    by linarith
qed

theorem live_quote_age_bounded_witness:
  "ensure_utc (utc 250000000) - ensure_utc (utc 0) \<le> seconds 600
    \<and> ensure_utc (utc 250000000) - anchor_of (utc 0) (utc 10000000) example_policy \<le> seconds 300"
proof -
  have "status_at example_boundaries (utc 250000000) = FLive"
    by (simp add: status_at_def example_boundaries_def)
  from live_quote_age_bounded [OF example_boundaries_computed this] show ?thesis
    by (simp add: example_policy_def)
qed

text \<open>The status of a quote only ever moves from live to stale to expired as time passes,
  whatever its boundaries are.\<close>

theorem status_at_mono:
  assumes "ensure_utc t \<le> ensure_utc t'"
  shows "status_at b t \<le> status_at b t'"
  using assms
  by (auto simp: status_at_def Let_def less_eq_freshness_status_def freshness_rank_def)

theorem status_at_mono_witness:
  "status_at example_boundaries (utc 1) \<le> status_at example_boundaries (Naive 4000000000)
    \<and> status_at example_boundaries (utc 1) = FLive
    \<and> status_at example_boundaries (Naive 4000000000) = FExpired"
  using status_at_mono [of "utc 1" "Naive 4000000000" example_boundaries]
  by (simp add: status_at_def example_boundaries_def)

text \<open>The boundary computation raises exactly for a source timestamp beyond the clock skew
  allowance, or, when the live window is anchored at receipt, for a source older than the maximum
  age; the age test on floating point seconds is exact to the microsecond.\<close>

theorem freshness_rejects_iff:
  assumes "0 \<le> maximum_source_age_seconds p" and "maximum_source_age_seconds p < 2 ^ 31"
  shows "(\<exists>e. freshness_boundaries_of s r p = Inl e) \<longleftrightarrow>
     ensure_utc s > ensure_utc r + seconds (future_clock_skew_seconds p)
     \<or> anchor_live_window_at_receive_time p
        \<and> ensure_utc r - ensure_utc s > seconds (maximum_source_age_seconds p)"
proof -
  have "(\<exists>e. freshness_boundaries_of s r p = Inl e) \<longleftrightarrow>
      \<not> (\<exists>b. freshness_boundaries_of s r p = Inr b)"
    by (cases "freshness_boundaries_of s r p") auto
  then show ?thesis
    unfolding freshness_boundaries_ok_iff not_less[symmetric] total_seconds_gt_iff[OF assms]
    by auto
qed

theorem freshness_rejects_iff_witness:
  "\<exists>e. freshness_boundaries_of (utc 0) (utc 600000001)
        (example_policy\<lparr>anchor_live_window_at_receive_time := True\<rparr>) = Inl e"
  using freshness_rejects_iff [of "example_policy\<lparr>anchor_live_window_at_receive_time := True\<rparr>"
      "utc 0" "utc 600000001"]
  by (simp add: example_policy_def seconds_def)

end
