(* ===== verification/Models.thy ===== *)
theory Models
  imports Py_Values Freshness
begin

text \<open>
  Model of \<open>apps/api/app/pricing/models.py\<close>: the enumerations, the instrument definition, the
  provider quote with its normalisation, the canonical quote with its status over time and its
  public view, and the runtime state of a provider.

  \<^item> An enumeration is a datatype with one constructor per member; \<open>..._value\<close> is the member's
    text.
  \<^item> \<open>quote_args\<close> are the arguments of \<open>ProviderQuote(...)\<close>; a number among them is a \<open>pyval\<close>, a
    \<open>Decimal\<close> being \<open>PDecStr\<close>. \<open>provider_quote_create\<close> is the dataclass constructor with
    \<open>__post_init__\<close>, whose result is a \<open>provider_quote\<close>.
  \<^item> A SHA-256 digest is represented by the sequence that is hashed (\<open>KeyDigest\<close>).
  \<^item> \<open>valid_quote\<close> and \<open>valid_canonical\<close> are the invariants the constructors establish.
\<close>

section \<open>Enumerations\<close>

datatype currency = TOMAN | USD

datatype weight_unit = GRAM | TROY_OUNCE | UNIT

datatype market = IRAN_PHYSICAL | GLOBAL_SPOT | IRAN_EXCHANGE | GLOBAL_EXCHANGE | REFERENCE_MARKET

datatype region = IRAN | INTERNATIONAL | GLOBAL_REGION

datatype source_type = ST_HTTP | ST_TELEGRAM | ST_DERIVED | ST_LEGACY

datatype source_semantic =
    EXCHANGE_ORDERBOOK
  | EXCHANGE_TRADE
  | AGGREGATOR
  | REFERENCE_RATE
  | PHYSICAL_MARKET_QUOTE
  | TELEGRAM_OBSERVATION
  | DERIVED
  | LEGACY

datatype price_semantic =
    SEL_BID | SEL_ASK | SEL_LAST | SEL_MIDPOINT | SEL_REFERENCE | SEL_PROVIDER_SELECTED | SEL_FORMULA

datatype provider_role = PRIMARY | VERIFIER | FALLBACK | COMPARE

datatype request_purpose = FOR_NORMAL | FOR_ANOMALY | FOR_FALLBACK | FOR_BACKFILL

datatype validation_status = ACCEPTED | REJECTED | SUSPICIOUS

datatype persistence_status = PERSISTED | QUEUED | UNPERSISTED

datatype canonical_status =
    CS_LIVE | CS_CONFIRMED | CS_FRESH_CACHE | CS_VERIFYING | CS_SUSPICIOUS
  | CS_SUSPICIOUS_UNCONFIRMED | CS_DERIVED_FALLBACK | CS_STALE | CS_EXPIRED | CS_UNPERSISTED
  | CS_UNAVAILABLE

datatype verification_status = NOT_REQUIRED | PENDING | CONFIRMED | DISAGREED | INSUFFICIENT

datatype circuit_state = CLOSED | OPEN | HALF_OPEN

fun currency_value :: "currency \<Rightarrow> string" where
  "currency_value TOMAN = ''TOMAN''"
| "currency_value USD = ''USD''"

fun source_semantic_value :: "source_semantic \<Rightarrow> string" where
  "source_semantic_value EXCHANGE_ORDERBOOK = ''exchange_orderbook''"
| "source_semantic_value EXCHANGE_TRADE = ''exchange_trade''"
| "source_semantic_value AGGREGATOR = ''aggregator''"
| "source_semantic_value REFERENCE_RATE = ''reference_rate''"
| "source_semantic_value PHYSICAL_MARKET_QUOTE = ''physical_market_quote''"
| "source_semantic_value TELEGRAM_OBSERVATION = ''telegram_observation''"
| "source_semantic_value DERIVED = ''derived''"
| "source_semantic_value LEGACY = ''legacy''"

fun price_semantic_value :: "price_semantic \<Rightarrow> string" where
  "price_semantic_value SEL_BID = ''bid''"
| "price_semantic_value SEL_ASK = ''ask''"
| "price_semantic_value SEL_LAST = ''last''"
| "price_semantic_value SEL_MIDPOINT = ''midpoint''"
| "price_semantic_value SEL_REFERENCE = ''reference''"
| "price_semantic_value SEL_PROVIDER_SELECTED = ''provider_selected''"
| "price_semantic_value SEL_FORMULA = ''formula''"

fun provider_role_value :: "provider_role \<Rightarrow> string" where
  "provider_role_value PRIMARY = ''primary''"
| "provider_role_value VERIFIER = ''verifier''"
| "provider_role_value FALLBACK = ''fallback''"
| "provider_role_value COMPARE = ''compare''"

fun request_purpose_value :: "request_purpose \<Rightarrow> string" where
  "request_purpose_value FOR_NORMAL = ''normal''"
| "request_purpose_value FOR_ANOMALY = ''anomaly''"
| "request_purpose_value FOR_FALLBACK = ''fallback''"
| "request_purpose_value FOR_BACKFILL = ''backfill''"

fun canonical_status_value :: "canonical_status \<Rightarrow> string" where
  "canonical_status_value CS_LIVE = ''live''"
| "canonical_status_value CS_CONFIRMED = ''confirmed''"
| "canonical_status_value CS_FRESH_CACHE = ''fresh_cache''"
| "canonical_status_value CS_VERIFYING = ''verifying''"
| "canonical_status_value CS_SUSPICIOUS = ''suspicious''"
| "canonical_status_value CS_SUSPICIOUS_UNCONFIRMED = ''suspicious_unconfirmed''"
| "canonical_status_value CS_DERIVED_FALLBACK = ''derived_fallback''"
| "canonical_status_value CS_STALE = ''stale''"
| "canonical_status_value CS_EXPIRED = ''expired''"
| "canonical_status_value CS_UNPERSISTED = ''unpersisted''"
| "canonical_status_value CS_UNAVAILABLE = ''unavailable''"

text \<open>\<open>SourceSemantic(text)\<close> and \<open>PriceSemantic(text)\<close>: the member with that value, or an error.\<close>

definition source_semantics :: "source_semantic list" where
  "source_semantics = [EXCHANGE_ORDERBOOK, EXCHANGE_TRADE, AGGREGATOR, REFERENCE_RATE,
     PHYSICAL_MARKET_QUOTE, TELEGRAM_OBSERVATION, DERIVED, LEGACY]"

definition price_semantics :: "price_semantic list" where
  "price_semantics = [SEL_BID, SEL_ASK, SEL_LAST, SEL_MIDPOINT, SEL_REFERENCE,
     SEL_PROVIDER_SELECTED, SEL_FORMULA]"

definition enum_of :: "('a \<Rightarrow> string) \<Rightarrow> 'a list \<Rightarrow> pyval \<Rightarrow> 'a result" where
  "enum_of val members v =
     (case List.find (\<lambda>m. v = PStr (val m)) members of
        None \<Rightarrow> Inl (ValueError ''is not a valid enum value'') | Some m \<Rightarrow> Inr m)"

lemma source_semantic_round_trip:
  "enum_of source_semantic_value source_semantics (PStr (source_semantic_value m)) = Inr m"
  by (cases m) (simp_all add: enum_of_def source_semantics_def)

lemma price_semantic_round_trip:
  "enum_of price_semantic_value price_semantics (PStr (price_semantic_value m)) = Inr m"
  by (cases m) (simp_all add: enum_of_def price_semantics_def)

section \<open>Conversions\<close>

text \<open>\<open>parse_datetime\<close> on a value that is not a \<open>datetime\<close>: ISO text, or an error.\<close>

fun parse_datetime :: "pyval \<Rightarrow> instant result" where
  "parse_datetime (PIso t) = Inr t"
| "parse_datetime (PStr s) = Inl (ValueError ''Invalid isoformat string'')"
| "parse_datetime (PDecStr q) = Inl (ValueError ''Invalid isoformat string'')"
| "parse_datetime _ = Inl (ValueError ''Expected an ISO timestamp'')"

definition decimal_value :: "bool \<Rightarrow> pyval \<Rightarrow> rat result" where
  "decimal_value allow_zero v =
     (case py_decimal v of
        Inl _ \<Rightarrow> Inl (ValueError ''Expected a decimal number'')
      | Inr d \<Rightarrow>
          (case d of
             DFin q \<Rightarrow>
               if (if allow_zero then q < 0 else q \<le> 0)
               then Inl (ValueError ''Price values must be finite and positive'') else Inr q
           | _ \<Rightarrow> Inl (ValueError ''Price values must be finite and positive'')))"

definition decimal_or_none :: "pyval \<Rightarrow> rat option result" where
  "decimal_or_none v =
     (if v = PNone then Inr None else ebind (decimal_value False v) (\<lambda>q. Inr (Some q)))"

lemma decimal_value_Inr:
  "decimal_value z v = Inr q \<Longrightarrow> py_decimal v = Inr (DFin q) \<and> (if z then 0 \<le> q else 0 < q)"
  by (auto simp: decimal_value_def split: sum.splits pydec.splits if_splits)

lemma decimal_value_dec [simp]: "0 < q \<Longrightarrow> decimal_value z (PDecStr q) = Inr q"
  by (simp add: decimal_value_def)

lemma decimal_or_none_Inr:
  "decimal_or_none v = Inr r \<Longrightarrow> (case r of None \<Rightarrow> v = PNone | Some q \<Rightarrow> 0 < q)"
  by (auto simp: decimal_or_none_def err_simps dest!: decimal_value_Inr split: if_splits)

definition text_value :: "pyval \<Rightarrow> string \<Rightarrow> string result" where
  "text_value v label =
     (let t = strip (py_text v)
      in if t = [] then Inl (ValueError (label @ '' cannot be empty'')) else Inr t)"

lemma text_value_Inr: "text_value v l = Inr t \<Longrightarrow> t \<noteq> [] \<and> strip t = t"
  by (auto simp: text_value_def Let_def err_simps split: if_splits)

definition or_val :: "pyval \<Rightarrow> pyval \<Rightarrow> pyval" where
  "or_val a b = (if py_truth a then a else b)"

section \<open>Instruments\<close>

record instrument_definition =
  i_instrument_id :: string
  i_base_asset :: string
  i_quote_currency :: currency
  i_market :: market
  i_region :: region
  i_weight_unit :: weight_unit
  i_purity :: "rat option"
  i_display_decimals :: int
  i_operational_ttl_seconds :: int
  i_stale_after_seconds :: int
  i_expire_after_seconds :: int
  i_base_anomaly_threshold_percent :: rat
  i_maximum_dynamic_threshold_percent :: rat
  i_minimum_price :: rat
  i_maximum_price :: rat
  i_importance :: int
  i_maximum_verification_depth :: int
  i_enabled :: bool
  i_allow_derived_fallback :: bool
  i_maximum_spread_bps :: rat

definition instrument_post_init :: "instrument_definition \<Rightarrow> instrument_definition result" where
  "instrument_post_init i =
     ebind (require (i_instrument_id i \<noteq> [] \<and> i_instrument_id i = upper (i_instrument_id i))
              (ValueError ''Instrument IDs must be uppercase'')) (\<lambda>_.
     ebind (require (0 \<le> i_display_decimals i \<and> i_display_decimals i \<le> 12)
              (ValueError ''Display decimals are out of range'')) (\<lambda>_.
     ebind (require (0 < i_operational_ttl_seconds i
                \<and> i_operational_ttl_seconds i \<le> i_stale_after_seconds i
                \<and> i_stale_after_seconds i \<le> i_expire_after_seconds i)
              (ValueError ''Instrument cache windows are invalid'')) (\<lambda>_.
     ebind (require (\<not> i_minimum_price i \<ge> i_maximum_price i)
              (ValueError ''Instrument sanity bounds are invalid'')) (\<lambda>_.
     ebind (require (\<not> i_base_anomaly_threshold_percent i > i_maximum_dynamic_threshold_percent i)
              (ValueError ''Instrument anomaly thresholds are invalid'')) (\<lambda>_.
     ebind (require (\<not> i_maximum_spread_bps i \<le> 0)
              (ValueError ''Instrument maximum spread must be finite and positive'')) (\<lambda>_.
     Inr i))))))"

definition valid_instrument :: "instrument_definition \<Rightarrow> bool" where
  "valid_instrument i \<longleftrightarrow>
     i_instrument_id i \<noteq> [] \<and> i_instrument_id i = upper (i_instrument_id i)
     \<and> 0 \<le> i_display_decimals i \<and> i_display_decimals i \<le> 12
     \<and> 0 < i_operational_ttl_seconds i
     \<and> i_operational_ttl_seconds i \<le> i_stale_after_seconds i
     \<and> i_stale_after_seconds i \<le> i_expire_after_seconds i
     \<and> i_minimum_price i < i_maximum_price i
     \<and> i_base_anomaly_threshold_percent i \<le> i_maximum_dynamic_threshold_percent i
     \<and> 0 < i_maximum_spread_bps i"

lemma instrument_post_init_iff:
  "instrument_post_init i = Inr j \<longleftrightarrow> j = i \<and> valid_instrument i"
  by (auto simp: instrument_post_init_def valid_instrument_def err_simps not_le not_less)

definition accepts :: "instrument_definition \<Rightarrow> rat \<Rightarrow> bool" where
  "accepts i price \<longleftrightarrow> i_minimum_price i \<le> price \<and> price \<le> i_maximum_price i"

section \<open>Provider quotes\<close>

datatype idem_key = KeyText string | KeyDigest "pyval list"

record quote_args =
  a_id :: "int option"
  a_instrument_id :: string
  a_provider_id :: string
  a_source_type :: source_type
  a_price :: pyval
  a_currency :: currency
  a_weight_unit :: weight_unit
  a_purity :: "rat option"
  a_observed_at :: py_datetime
  a_received_at :: py_datetime
  a_parser_version :: string
  a_validation_status :: validation_status
  a_bid :: pyval
  a_ask :: pyval
  a_volume :: pyval
  a_latency_ms :: "int option"
  a_http_status :: "int option"
  a_confidence_score :: pyval
  a_is_direct :: bool
  a_is_derived :: bool
  a_is_suspicious :: bool
  a_rejection_reason :: "string option"
  a_metadata :: dict
  a_raw_payload_reference :: "string option"
  a_persistence_status :: persistence_status
  a_idempotency_key :: idem_key
  a_source_semantic :: pyval
  a_source_family :: pyval
  a_venue :: pyval
  a_last :: pyval
  a_selected_price_semantic :: pyval
  a_original_currency :: pyval
  a_original_value :: pyval
  a_conversion_factor :: pyval
  a_route_id :: pyval
  a_spread_bps :: pyval
  a_derivation_depth :: int
  a_provenance :: "string list"

record provider_quote =
  q_id :: "int option"
  q_instrument_id :: string
  q_provider_id :: string
  q_source_type :: source_type
  q_price :: "rat option"
  q_currency :: currency
  q_weight_unit :: weight_unit
  q_purity :: "rat option"
  q_observed_at :: instant
  q_received_at :: instant
  q_parser_version :: string
  q_validation_status :: validation_status
  q_bid :: "rat option"
  q_ask :: "rat option"
  q_volume :: "rat option"
  q_latency_ms :: "int option"
  q_http_status :: "int option"
  q_confidence_score :: rat
  q_is_direct :: bool
  q_is_derived :: bool
  q_is_suspicious :: bool
  q_rejection_reason :: "string option"
  q_metadata :: dict
  q_raw_payload_reference :: "string option"
  q_persistence_status :: persistence_status
  q_idempotency_key :: idem_key
  q_source_semantic :: source_semantic
  q_source_family :: string
  q_venue :: string
  q_last :: "rat option"
  q_selected_price_semantic :: price_semantic
  q_original_currency :: string
  q_original_value :: "rat option"
  q_conversion_factor :: rat
  q_route_id :: string
  q_spread_bps :: "rat option"
  q_derivation_depth :: int
  q_provenance :: "string list"

text \<open>The defaults of the dataclass, for the arguments a caller leaves out.\<close>

definition default_args :: quote_args where
  "default_args = \<lparr>a_id = None, a_instrument_id = [], a_provider_id = [], a_source_type = ST_HTTP,
     a_price = PNone, a_currency = TOMAN, a_weight_unit = UNIT, a_purity = None,
     a_observed_at = utc 0, a_received_at = utc 0, a_parser_version = [],
     a_validation_status = ACCEPTED, a_bid = PNone, a_ask = PNone, a_volume = PNone,
     a_latency_ms = None, a_http_status = None, a_confidence_score = PDecStr 1,
     a_is_direct = True, a_is_derived = False, a_is_suspicious = False,
     a_rejection_reason = None, a_metadata = Map.empty, a_raw_payload_reference = None,
     a_persistence_status = UNPERSISTED, a_idempotency_key = KeyText [],
     a_source_semantic = PNone, a_source_family = PNone, a_venue = PNone, a_last = PNone,
     a_selected_price_semantic = PNone, a_original_currency = PNone, a_original_value = PNone,
     a_conversion_factor = PDecStr 1, a_route_id = PNone, a_spread_bps = PNone,
     a_derivation_depth = 0, a_provenance = []\<rparr>"

subsection \<open>Source semantics\<close>

definition infer_source_semantic :: "quote_args \<Rightarrow> rat option \<Rightarrow> rat option \<Rightarrow> source_semantic" where
  "infer_source_semantic a bid ask =
     (if a_source_type a = ST_DERIVED \<or> a_is_derived a then DERIVED
      else if a_source_type a = ST_TELEGRAM then TELEGRAM_OBSERVATION
      else if a_source_type a = ST_LEGACY then LEGACY
      else if bid \<noteq> None \<and> ask \<noteq> None then EXCHANGE_ORDERBOOK
      else if a_is_direct a then EXCHANGE_TRADE
      else AGGREGATOR)"

definition legacy_source_type :: "source_semantic \<Rightarrow> source_type" where
  "legacy_source_type s =
     (if s = DERIVED then ST_DERIVED
      else if s = TELEGRAM_OBSERVATION then ST_TELEGRAM
      else if s = LEGACY then ST_LEGACY
      else ST_HTTP)"

definition infer_price_semantic :: "source_semantic \<Rightarrow> price_semantic" where
  "infer_price_semantic s =
     (if s = DERIVED then SEL_FORMULA
      else if s = EXCHANGE_ORDERBOOK then SEL_MIDPOINT
      else if s = EXCHANGE_TRADE then SEL_LAST
      else if s = REFERENCE_RATE then SEL_REFERENCE
      else SEL_PROVIDER_SELECTED)"

definition direct_semantics :: "source_semantic list" where
  "direct_semantics = [EXCHANGE_ORDERBOOK, EXCHANGE_TRADE, PHYSICAL_MARKET_QUOTE]"

subsection \<open>Normalisation\<close>

text \<open>\<open>for value in (*values, family): item = str(value).strip(); if item and item not in \<dots>\<close>\<close>

definition normalize_provenance :: "string list \<Rightarrow> string \<Rightarrow> string list" where
  "normalize_provenance values family = append_new [] (map strip (values @ [family]))"

definition list_items :: "pyval \<Rightarrow> string list result" where
  "list_items v =
     (case v of
        PList xs \<Rightarrow> Inr xs
      | PDicts ds \<Rightarrow> Inr (map (\<lambda>_. ''<dict>'') ds)
      | _ \<Rightarrow> Inl (ValueError ''Provenance must be a list or tuple''))"

definition depth_of :: "pyval \<Rightarrow> int result" where
  "depth_of v =
     (case py_int v of
        Inl (TypeError _) \<Rightarrow> Inl (ValueError ''Derivation depth must be an integer'')
      | Inl (ValueError _) \<Rightarrow> Inl (ValueError ''Derivation depth must be an integer'')
      | Inl e \<Rightarrow> Inl e
      | Inr d \<Rightarrow> Inr d)"

definition normalized_metadata :: "provider_quote \<Rightarrow> dict" where
  "normalized_metadata q =
     (let m = (q_metadata q)(
            ''source_semantic'' \<mapsto> PStr (source_semantic_value (q_source_semantic q)),
            ''source_family'' \<mapsto> PStr (q_source_family q),
            ''venue'' \<mapsto> PStr (q_venue q),
            ''selected_price_semantic'' \<mapsto> PStr (price_semantic_value (q_selected_price_semantic q)),
            ''original_currency'' \<mapsto> PStr (q_original_currency q),
            ''conversion_factor'' \<mapsto> PDecStr (q_conversion_factor q),
            ''route_id'' \<mapsto> PStr (q_route_id q),
            ''derivation_depth'' \<mapsto> PInt (q_derivation_depth q),
            ''provenance'' \<mapsto> PList (q_provenance q),
            ''source_timestamp'' \<mapsto> PIso (q_observed_at q),
            ''receive_timestamp'' \<mapsto> PIso (q_received_at q));
          m = (case q_last q of None \<Rightarrow> m | Some x \<Rightarrow> m(''last'' \<mapsto> PDecStr x));
          m = (case q_original_value q of None \<Rightarrow> m | Some x \<Rightarrow> m(''original_value'' \<mapsto> PDecStr x))
      in (case q_spread_bps q of None \<Rightarrow> m | Some x \<Rightarrow> m(''spread_bps'' \<mapsto> PDecStr x)))"

text \<open>
  \<open>_normalize_source_provenance\<close>: the source fields of a quote whose numbers and times are already
  checked (\<open>q\<close>), from the arguments and the metadata.
\<close>

definition source_spread :: "provider_quote \<Rightarrow> pyval \<Rightarrow> rat option result" where
  "source_spread q spread_value =
     (if spread_value \<noteq> PNone then ebind (decimal_value True spread_value) (\<lambda>x. Inr (Some x))
      else case (q_bid q, q_ask q) of
        (Some bid, Some ask) \<Rightarrow>
          ebind (ddiv (dadd bid ask) 2) (\<lambda>midpoint.
          ebind (ddiv (dsub ask bid) midpoint) (\<lambda>x.
          ebind (decimal_value True (PDecStr (dmul x 10000))) (\<lambda>y. Inr (Some y))))
      | _ \<Rightarrow> Inr None)"

definition first_of :: "pyval \<Rightarrow> pyval \<Rightarrow> pyval" where
  "first_of a b = (if a = PNone then b else a)"

definition normalize_source_provenance ::
  "quote_args \<Rightarrow> provider_quote \<Rightarrow> provider_quote result" where
  "normalize_source_provenance a q =
     (let md = q_metadata q; get = (\<lambda>k. dict_get md k PNone);
          semantic_value = or_val (a_source_semantic a) (get ''source_semantic'')
      in
      ebind (if semantic_value = PNone then Inr (infer_source_semantic a (q_bid q) (q_ask q))
             else enum_of source_semantic_value source_semantics semantic_value) (\<lambda>semantic.
      ebind (text_value (or_val (or_val (a_source_family a) (get ''source_family''))
               (PStr (q_provider_id q))) ''Source family'') (\<lambda>family.
      ebind (text_value (or_val (or_val (a_venue a) (get ''venue'')) (PStr family)) ''Venue'') (\<lambda>venue.
      let last = (if q_last q = None \<and> semantic = EXCHANGE_TRADE then q_price q else q_last q);
          selected_value = or_val (a_selected_price_semantic a) (get ''selected_price_semantic'')
      in
      ebind (if selected_value = PNone then Inr (infer_price_semantic semantic)
             else enum_of price_semantic_value price_semantics selected_value)
        (\<lambda>selected.
      ebind (decimal_value False (a_conversion_factor a)) (\<lambda>factor.
      ebind (text_value (PStr (upper (py_text
               (or_val (or_val (or_val (a_original_currency a) (get ''original_currency''))
                        (get ''source_currency'')) (PStr (currency_value (q_currency q)))))))
               ''Original currency'') (\<lambda>orig_currency.
      ebind (let v = first_of (a_original_value a) (get ''original_value'')
             in if v \<noteq> PNone then decimal_or_none v
                else case q_price q of
                  None \<Rightarrow> Inr None
                | Some price \<Rightarrow> ebind (ddiv price factor) (\<lambda>x. decimal_or_none (PDecStr x)))
        (\<lambda>orig_value.
      ebind (text_value (or_val (or_val (a_route_id a) (get ''route_id''))
               (PStr (q_provider_id q))) ''Route ID'') (\<lambda>route.
      ebind (source_spread q (first_of (a_spread_bps a) (get ''spread_bps''))) (\<lambda>spread.
      ebind (depth_of (dict_get md ''derivation_depth'' (PInt (a_derivation_depth a)))) (\<lambda>depth.
      ebind (require (\<not> depth < 0) (ValueError ''Derivation depth cannot be negative'')) (\<lambda>_.
      let depth' = (if semantic = DERIVED \<and> depth = 0 then 1 else depth) in
      ebind (if a_provenance a \<noteq> [] then Inr (a_provenance a)
             else list_items (dict_get md ''provenance'' (PList []))) (\<lambda>items.
      let q' = q\<lparr>q_source_semantic := semantic,
                 q_source_type := legacy_source_type semantic,
                 q_is_direct := semantic \<in> set direct_semantics,
                 q_is_derived := (semantic = DERIVED),
                 q_source_family := family, q_venue := venue, q_last := last,
                 q_selected_price_semantic := selected, q_conversion_factor := factor,
                 q_original_currency := orig_currency, q_original_value := orig_value,
                 q_route_id := route, q_spread_bps := spread, q_derivation_depth := depth',
                 q_provenance := normalize_provenance items family\<rparr>
      in Inr (q'\<lparr>q_metadata := normalized_metadata q'\<rparr>))))))))))))))"

text \<open>The fields taken over from the arguments; the source fields are filled in afterwards.\<close>

definition raw_quote ::
  "quote_args \<Rightarrow> rat option \<Rightarrow> rat option \<Rightarrow> rat option \<Rightarrow> rat option \<Rightarrow> rat option \<Rightarrow> rat
   \<Rightarrow> provider_quote" where
  "raw_quote a price bid ask lst volume confidence = \<lparr>q_id = a_id a,
     q_instrument_id = a_instrument_id a, q_provider_id = a_provider_id a,
     q_source_type = a_source_type a, q_price = price, q_currency = a_currency a,
     q_weight_unit = a_weight_unit a, q_purity = a_purity a,
     q_observed_at = ensure_utc (a_observed_at a), q_received_at = ensure_utc (a_received_at a),
     q_parser_version = a_parser_version a, q_validation_status = a_validation_status a,
     q_bid = bid, q_ask = ask, q_volume = volume, q_latency_ms = a_latency_ms a,
     q_http_status = a_http_status a, q_confidence_score = confidence,
     q_is_direct = a_is_direct a, q_is_derived = a_is_derived a,
     q_is_suspicious = a_is_suspicious a, q_rejection_reason = a_rejection_reason a,
     q_metadata = a_metadata a, q_raw_payload_reference = a_raw_payload_reference a,
     q_persistence_status = a_persistence_status a, q_idempotency_key = a_idempotency_key a,
     q_source_semantic = LEGACY, q_source_family = [], q_venue = [], q_last = lst,
     q_selected_price_semantic = SEL_PROVIDER_SELECTED, q_original_currency = [],
     q_original_value = None, q_conversion_factor = 1, q_route_id = [], q_spread_bps = None,
     q_derivation_depth = a_derivation_depth a, q_provenance = a_provenance a\<rparr>"

definition opt_dec :: "rat option \<Rightarrow> pyval" where
  "opt_dec r = (case r of None \<Rightarrow> PNone | Some q \<Rightarrow> PDecStr q)"

definition quote_key :: "provider_quote \<Rightarrow> idem_key" where
  "quote_key q =
     (if q_idempotency_key q \<noteq> KeyText [] then q_idempotency_key q
      else KeyDigest [PStr (q_instrument_id q), PStr (q_provider_id q), PIso (q_observed_at q),
        opt_dec (q_price q), PStr (q_parser_version q)])"

definition provider_quote_create :: "quote_args \<Rightarrow> provider_quote result" where
  "provider_quote_create a =
     ebind (require (\<not> ensure_utc (a_observed_at a)
                > ensure_utc (a_received_at a) + seconds default_future_clock_skew_seconds)
              (ValueError ''Quote receive time cannot precede observation time'')) (\<lambda>_.
     ebind (decimal_or_none (a_price a)) (\<lambda>price.
     ebind (decimal_or_none (a_bid a)) (\<lambda>bid.
     ebind (decimal_or_none (a_ask a)) (\<lambda>ask.
     ebind (decimal_or_none (a_last a)) (\<lambda>lst.
     ebind (if a_volume a = PNone then Inr None
            else ebind (decimal_value True (a_volume a)) (\<lambda>v. Inr (Some v))) (\<lambda>volume.
     ebind (decimal_value True (a_confidence_score a)) (\<lambda>confidence.
     ebind (require (\<not> confidence > 1)
              (ValueError ''Confidence score must be between zero and one'')) (\<lambda>_.
     ebind (require (\<not> (case (bid, ask) of (Some b, Some k) \<Rightarrow> b > k | _ \<Rightarrow> False))
              (ValueError ''Order book bid cannot exceed ask'')) (\<lambda>_.
     ebind (require (\<not> (a_validation_status a = ACCEPTED \<and> price = None))
              (ValueError ''Accepted quotes require a price'')) (\<lambda>_.
     ebind (require (\<not> (a_validation_status a = REJECTED \<and> or_text (a_rejection_reason a) [] = []))
              (ValueError ''Rejected quotes require a reason'')) (\<lambda>_.
     ebind (normalize_source_provenance a (raw_quote a price bid ask lst volume confidence)) (\<lambda>q.
     Inr (q\<lparr>q_idempotency_key := quote_key q\<rparr>)))))))))))))"

text \<open>What the constructor guarantees of every provider quote.\<close>

definition valid_quote :: "provider_quote \<Rightarrow> bool" where
  "valid_quote q \<longleftrightarrow>
     q_observed_at q \<le> q_received_at q + seconds default_future_clock_skew_seconds
     \<and> (\<forall>p. q_price q = Some p \<longrightarrow> 0 < p)
     \<and> 0 \<le> q_confidence_score q \<and> q_confidence_score q \<le> 1
     \<and> (\<forall>b k. q_bid q = Some b \<longrightarrow> q_ask q = Some k \<longrightarrow> 0 < b \<and> b \<le> k)
     \<and> (q_validation_status q = ACCEPTED \<longrightarrow> q_price q \<noteq> None)
     \<and> q_source_type q = legacy_source_type (q_source_semantic q)
     \<and> q_is_direct q = (q_source_semantic q \<in> set direct_semantics)
     \<and> q_is_derived q = (q_source_semantic q = DERIVED)
     \<and> 0 \<le> q_derivation_depth q
     \<and> (q_source_semantic q = DERIVED \<longrightarrow> 1 \<le> q_derivation_depth q)
     \<and> 0 < q_conversion_factor q
     \<and> (\<forall>s. q_spread_bps q = Some s \<longrightarrow> 0 \<le> s)
     \<and> q_source_family q \<noteq> [] \<and> q_venue q \<noteq> [] \<and> q_route_id q \<noteq> []
     \<and> distinct (q_provenance q) \<and> q_source_family q \<in> set (q_provenance q)"

lemma source_spread_nonneg: "source_spread q v = Inr (Some s) \<Longrightarrow> 0 \<le> s"
  by (auto simp: source_spread_def err_simps dest!: decimal_value_Inr split: if_splits option.splits)

lemma normalize_provenance_facts:
  "distinct (normalize_provenance xs f)"
  "f \<noteq> [] \<Longrightarrow> strip f = f \<Longrightarrow> f \<in> set (normalize_provenance xs f)"
  by (auto simp: normalize_provenance_def distinct_append_new set_append_new)

lemma normalize_source_provenance_frame:
  assumes "normalize_source_provenance a q = Inr q'"
  shows "q_observed_at q' = q_observed_at q" "q_received_at q' = q_received_at q"
    "q_price q' = q_price q" "q_bid q' = q_bid q" "q_ask q' = q_ask q"
    "q_confidence_score q' = q_confidence_score q" "q_id q' = q_id q"
    "q_validation_status q' = q_validation_status q"
    "q_instrument_id q' = q_instrument_id q" "q_provider_id q' = q_provider_id q"
    "q_persistence_status q' = q_persistence_status q" "q_is_suspicious q' = q_is_suspicious q"
  using assms by (auto simp: normalize_source_provenance_def Let_def err_simps)

lemma normalize_source_provenance_source:
  assumes "normalize_source_provenance a q = Inr q'"
  shows "q_source_type q' = legacy_source_type (q_source_semantic q')"
    "q_is_direct q' = (q_source_semantic q' \<in> set direct_semantics)"
    "q_is_derived q' = (q_source_semantic q' = DERIVED)"
    "0 \<le> q_derivation_depth q'"
    "q_source_semantic q' = DERIVED \<longrightarrow> 1 \<le> q_derivation_depth q'"
    "0 < q_conversion_factor q'"
    "\<forall>s. q_spread_bps q' = Some s \<longrightarrow> 0 \<le> s"
    "q_source_family q' \<noteq> []" "q_venue q' \<noteq> []" "q_route_id q' \<noteq> []"
    "distinct (q_provenance q')" "q_source_family q' \<in> set (q_provenance q')"
  using assms
  by (auto simp: normalize_source_provenance_def Let_def err_simps normalize_provenance_facts
      dest!: decimal_value_Inr text_value_Inr dest: source_spread_nonneg)

lemma provider_quote_create_valid:
  assumes "provider_quote_create a = Inr q"
  shows "valid_quote q"
proof -
  from assms obtain price bid ask lst volume confidence q' where
      c: "\<not> ensure_utc (a_observed_at a)
           > ensure_utc (a_received_at a) + seconds default_future_clock_skew_seconds"
      "decimal_or_none (a_price a) = Inr price" "decimal_or_none (a_bid a) = Inr bid"
      "decimal_value True (a_confidence_score a) = Inr confidence" "\<not> confidence > 1"
      "\<not> (case (bid, ask) of (Some b, Some k) \<Rightarrow> b > k | _ \<Rightarrow> False)"
      "\<not> (a_validation_status a = ACCEPTED \<and> price = None)"
    and n: "normalize_source_provenance a (raw_quote a price bid ask lst volume confidence) = Inr q'"
    and q: "q = q'\<lparr>q_idempotency_key := quote_key q'\<rparr>"
    unfolding provider_quote_create_def by (auto simp: err_simps)
  have fr: "q_observed_at q = ensure_utc (a_observed_at a)"
      "q_received_at q = ensure_utc (a_received_at a)" "q_price q = price" "q_bid q = bid"
      "q_ask q = ask" "q_confidence_score q = confidence"
      "q_validation_status q = a_validation_status a"
    using normalize_source_provenance_frame[OF n] q by (simp_all add: raw_quote_def)
  show ?thesis
    using normalize_source_provenance_source[OF n] c(1,5,6,7)
      decimal_or_none_Inr[OF c(2)] decimal_or_none_Inr[OF c(3)] decimal_value_Inr[OF c(4)]
    unfolding valid_quote_def fr by (auto simp: q split: option.splits)
qed

section \<open>Canonical quotes\<close>

record canonical_quote =
  c_id :: "int option"
  c_instrument_id :: string
  c_price :: rat
  c_status :: canonical_status
  c_primary_quote_id :: "int option"
  c_verification_quote_ids :: "int list"
  c_source_summary :: dict
  c_observed_at :: instant
  c_canonical_at :: instant
  c_valid_until :: instant
  c_stale_at :: instant
  c_expires_at :: instant
  c_is_persisted :: bool
  c_decision_reason :: string
  c_change_1h :: "rat option"
  c_change_24h :: "rat option"
  c_change_7d :: "rat option"
  c_change_30d :: "rat option"
  c_verification_status :: verification_status
  c_candidate_price :: "rat option"
  c_candidate_provider_id :: "string option"
  c_sequence_number :: "int option"
  c_idempotency_key :: idem_key

text \<open>The statuses under which a quote counts as accepted when it is created.\<close>

definition accepted_statuses :: "canonical_status list" where
  "accepted_statuses = [CS_LIVE, CS_CONFIRMED, CS_FRESH_CACHE, CS_DERIVED_FALLBACK, CS_UNPERSISTED]"

definition canonical_key :: "canonical_quote \<Rightarrow> idem_key" where
  "canonical_key c =
     (if c_idempotency_key c \<noteq> KeyText [] then c_idempotency_key c
      else KeyDigest [PStr (c_instrument_id c), PIso (c_canonical_at c), PDecStr (c_price c),
        PStr (canonical_status_value (c_status c))])"

definition canonical_create :: "canonical_quote \<Rightarrow> canonical_quote result" where
  "canonical_create c =
     ebind (decimal_value False (PDecStr (c_price c))) (\<lambda>price.
     ebind (decimal_or_none (opt_dec (c_candidate_price c))) (\<lambda>candidate.
     ebind (require (c_observed_at c \<le> c_canonical_at c
                \<and> c_valid_until c \<le> c_stale_at c \<and> c_stale_at c \<le> c_expires_at c)
              (ValueError ''Canonical quote timestamps are invalid'')) (\<lambda>_.
     ebind (require (\<not> (c_status c \<in> set accepted_statuses \<and> c_canonical_at c > c_expires_at c))
              (ValueError ''Accepted canonical quote is already expired'')) (\<lambda>_.
     Inr (c\<lparr>c_price := price, c_candidate_price := candidate,
             c_idempotency_key := canonical_key c\<rparr>)))))"

definition valid_canonical :: "canonical_quote \<Rightarrow> bool" where
  "valid_canonical c \<longleftrightarrow>
     0 < c_price c \<and> c_observed_at c \<le> c_canonical_at c
     \<and> c_valid_until c \<le> c_stale_at c \<and> c_stale_at c \<le> c_expires_at c
     \<and> (c_status c \<in> set accepted_statuses \<longrightarrow> c_canonical_at c \<le> c_expires_at c)
     \<and> (\<forall>p. c_candidate_price c = Some p \<longrightarrow> 0 < p)"

lemma decimal_or_none_opt_dec:
  "decimal_or_none (opt_dec r) = Inr r' \<longleftrightarrow> r' = r \<and> (\<forall>q. r = Some q \<longrightarrow> 0 < q)"
  by (cases r) (auto simp: decimal_or_none_def opt_dec_def decimal_value_def err_simps)

lemma canonical_create_iff:
  "canonical_create c = Inr d \<longleftrightarrow>
     valid_canonical c \<and> d = c\<lparr>c_idempotency_key := canonical_key c\<rparr>"
  by (auto simp: canonical_create_def valid_canonical_def err_simps decimal_or_none_opt_dec
      decimal_value_def not_less not_le)

lemma canonical_create_valid: "canonical_create c = Inr d \<Longrightarrow> valid_canonical d"
  by (auto simp: canonical_create_iff valid_canonical_def)

definition effective_status :: "canonical_quote \<Rightarrow> instant \<Rightarrow> canonical_status" where
  "effective_status c now =
     (if now > c_expires_at c then CS_EXPIRED
      else if now > c_stale_at c then CS_STALE
      else if now > c_valid_until c \<and> c_status c \<in> {CS_LIVE, CS_CONFIRMED} then CS_FRESH_CACHE
      else c_status c)"

subsection \<open>The public view\<close>

definition public_summary_keys :: "string list" where
  "public_summary_keys = [''source_count'', ''direct_source_count'', ''derived'',
     ''candidate_price'', ''candidate_difference_percent'', ''verification_progress'',
     ''fallback_reason'']"

definition public_source_summary :: "dict \<Rightarrow> dict" where
  "public_source_summary summary = (\<lambda>k. if k \<in> set public_summary_keys then summary k else None)"

record canonical_payload =
  pl_id :: "int option"
  pl_instrument_id :: string
  pl_price :: pyval
  pl_status :: string
  pl_primary_quote_id :: "int option"
  pl_verification_quote_ids :: "int list"
  pl_source_summary :: dict
  pl_observed_at :: instant
  pl_canonical_at :: instant
  pl_age_seconds :: int
  pl_valid_until :: instant
  pl_stale_at :: instant
  pl_expires_at :: instant
  pl_is_persisted :: bool
  pl_persistence_status :: string
  pl_decision_reason :: "string option"
  pl_verification_status :: verification_status
  pl_candidate_price :: pyval
  pl_candidate_provider_id :: "string option"
  pl_sequence_number :: "int option"
  pl_change_1h :: pyval
  pl_change_24h :: pyval
  pl_change_7d :: pyval
  pl_change_30d :: pyval
  pl_idempotency_key :: "idem_key option"

definition public_status :: "canonical_status \<Rightarrow> canonical_status" where
  "public_status s =
     (if s = CS_CONFIRMED then CS_LIVE
      else if s = CS_SUSPICIOUS_UNCONFIRMED then CS_SUSPICIOUS else s)"

definition canonical_to_dict ::
  "canonical_quote \<Rightarrow> bool \<Rightarrow> instant \<Rightarrow> bool \<Rightarrow> canonical_payload result" where
  "canonical_to_dict c authenticated now evaluate_status =
     (let effective = (if evaluate_status then effective_status c now else c_status c);
          public = (if authenticated then effective else public_status effective)
      in
      ebind (json_number (Some (c_price c))) (\<lambda>price.
      ebind (json_number (c_candidate_price c)) (\<lambda>candidate.
      ebind (json_number (c_change_1h c)) (\<lambda>h1.
      ebind (json_number (c_change_24h c)) (\<lambda>h24.
      ebind (json_number (c_change_7d c)) (\<lambda>d7.
      ebind (json_number (c_change_30d c)) (\<lambda>d30.
      Inr \<lparr>pl_id = c_id c, pl_instrument_id = c_instrument_id c, pl_price = price,
           pl_status = canonical_status_value public,
           pl_primary_quote_id = (if authenticated then c_primary_quote_id c else None),
           pl_verification_quote_ids = (if authenticated then c_verification_quote_ids c else []),
           pl_source_summary = (if authenticated then c_source_summary c
             else public_source_summary (c_source_summary c)),
           pl_observed_at = c_observed_at c, pl_canonical_at = c_canonical_at c,
           pl_age_seconds = max 0 (trunc (total_seconds (now - c_observed_at c))),
           pl_valid_until = c_valid_until c, pl_stale_at = c_stale_at c,
           pl_expires_at = c_expires_at c, pl_is_persisted = c_is_persisted c,
           pl_persistence_status = (if c_is_persisted c then ''persisted'' else ''unpersisted''),
           pl_decision_reason = (if authenticated then Some (c_decision_reason c) else None),
           pl_verification_status = c_verification_status c, pl_candidate_price = candidate,
           pl_candidate_provider_id = (if authenticated then c_candidate_provider_id c else None),
           pl_sequence_number = c_sequence_number c, pl_change_1h = h1, pl_change_24h = h24,
           pl_change_7d = d7, pl_change_30d = d30,
           pl_idempotency_key = (if authenticated then Some (c_idempotency_key c) else None)\<rparr>)))))))"

section \<open>Decisions and runtime state\<close>

record verification_decision =
  v_status :: verification_status
  v_candidate_quote_id :: "int option"
  v_verification_quote_ids :: "int list"
  v_deviation_percent :: "rat option"
  v_threshold_percent :: rat
  v_decision_reason :: string

record provider_runtime_state =
  r_provider_id :: string
  r_instrument_id :: string
  r_circuit_state :: circuit_state
  r_consecutive_failures :: int
  r_success_count :: int
  r_failure_count :: int
  r_average_latency_ms :: "rat option"
  r_last_success_at :: "instant option"
  r_last_failure_at :: "instant option"
  r_circuit_open_until :: "instant option"
  r_cooldown_until :: "instant option"
  r_last_error_code :: "string option"
  r_operational_status :: string

definition fresh_runtime :: "string \<Rightarrow> string \<Rightarrow> provider_runtime_state" where
  "fresh_runtime pid iid = \<lparr>r_provider_id = pid, r_instrument_id = iid, r_circuit_state = CLOSED,
     r_consecutive_failures = 0, r_success_count = 0, r_failure_count = 0,
     r_average_latency_ms = None, r_last_success_at = None, r_last_failure_at = None,
     r_circuit_open_until = None, r_cooldown_until = None, r_last_error_code = None,
     r_operational_status = ''unknown''\<rparr>"

definition success_rate :: "provider_runtime_state \<Rightarrow> rat" where
  "success_rate r =
     (let total = r_success_count r + r_failure_count r
      in if total = 0 then 1/2 else dctx (of_int (r_success_count r) / of_int total))"

lemma success_rate_bounds:
  assumes "0 \<le> r_success_count r" "0 \<le> r_failure_count r"
  shows "0 \<le> success_rate r" "success_rate r \<le> 1"
proof -
  let ?x = "of_int (r_success_count r) / of_int (r_success_count r + r_failure_count r) :: rat"
  have "0 \<le> ?x" "?x \<le> 1"
    using assms by (auto simp: divide_le_eq_1)
  then have "0 \<le> dctx ?x" "dctx ?x \<le> 1"
    using dctx_nonneg[of ?x] dctx_mono[of ?x 1] dctx_int[of 1] by auto
  then show "0 \<le> success_rate r" "success_rate r \<le> 1"
    by (simp_all add: success_rate_def Let_def)
qed

section \<open>Properties\<close>

text \<open>Every provider quote that the constructor accepts satisfies the quote invariant: it is
  not observed beyond the clock skew after receipt, its prices are positive and its order book is
  not crossed, its confidence lies between zero and one, the legacy source type and the direct and
  derived flags agree with the source semantic, a derived quote has depth at least one, and the
  provenance has no repetition and contains the source family.\<close>

theorem provider_quote_invariant:
  assumes "provider_quote_create a = Inr q"
  shows "valid_quote q"
  using assms by (rule provider_quote_create_valid)

definition example_quote_args :: quote_args where
  "example_quote_args = default_args\<lparr>a_id := Some 7, a_instrument_id := ''BTC_USD'',
     a_provider_id := ''p'', a_price := PDecStr 50000, a_currency := USD,
     a_observed_at := utc 1000000, a_received_at := utc 2000000,
     a_persistence_status := PERSISTED, a_source_semantic := PStr ''aggregator''\<rparr>"

lemma example_quote_ok: "is_ok (provider_quote_create example_quote_args)"
  by (simp add: provider_quote_create_def example_quote_args_def default_args_def
      decimal_or_none_def decimal_value_def seconds_def default_future_clock_skew_seconds_def
      normalize_source_provenance_def raw_quote_def dict_get_def or_val_def first_of_def
      enum_of_def source_semantics_def text_value_def strip_def is_space_def price_semantics_def
      source_spread_def depth_of_def ddiv_def list_items_def upper_def upper_char_def
      infer_price_semantic_def Let_def)

theorem provider_quote_invariant_witness:
  "\<exists>q. provider_quote_create example_quote_args = Inr q \<and> valid_quote q"
  using example_quote_ok provider_quote_invariant [of example_quote_args]
  unfolding is_ok_iff by blast

text \<open>The public view of a canonical quote discloses no source: whatever the quote holds, the
  payload for an anonymous caller has no quote identifiers, no decision reason, no candidate provider
  and no idempotency key, only the allow-listed entries of the source summary, and never the status
  text confirmed or suspicious\_unconfirmed.\<close>

theorem public_payload_redacted:
  assumes "canonical_to_dict c False now ev = Inr p"
  shows "pl_primary_quote_id p = None \<and> pl_verification_quote_ids p = []
    \<and> pl_decision_reason p = None \<and> pl_candidate_provider_id p = None
    \<and> pl_idempotency_key p = None
    \<and> dom (pl_source_summary p) \<subseteq> set public_summary_keys
    \<and> pl_status p \<noteq> ''confirmed'' \<and> pl_status p \<noteq> ''suspicious_unconfirmed''"
proof -
  have "canonical_status_value (public_status s) \<noteq> ''confirmed''
      \<and> canonical_status_value (public_status s) \<noteq> ''suspicious_unconfirmed''" for s
    by (cases s) (simp_all add: public_status_def)
  then show ?thesis
    using assms
    by (auto simp: canonical_to_dict_def Let_def err_simps public_source_summary_def
        simp del: canonical_status_value.simps split: if_splits)
qed

definition example_canonical :: canonical_quote where
  "example_canonical = \<lparr>c_id = Some 1, c_instrument_id = ''BTC_USD'', c_price = 50000,
     c_status = CS_CONFIRMED, c_primary_quote_id = Some 7, c_verification_quote_ids = [8],
     c_source_summary = [''primary_provider_id'' \<mapsto> PStr ''p'', ''source_count'' \<mapsto> PInt 2],
     c_observed_at = 1000000, c_canonical_at = 2000000, c_valid_until = 361000000,
     c_stale_at = 901000000, c_expires_at = 1801000000, c_is_persisted = True,
     c_decision_reason = ''r'', c_change_1h = None, c_change_24h = None, c_change_7d = None,
     c_change_30d = None, c_verification_status = CONFIRMED, c_candidate_price = None,
     c_candidate_provider_id = Some ''p'', c_sequence_number = Some 3,
     c_idempotency_key = KeyText ''k''\<rparr>"

lemma example_canonical_public: "is_ok (canonical_to_dict example_canonical False 3000000 True)"
  by (simp add: canonical_to_dict_def example_canonical_def json_number_def)

theorem public_payload_redacted_witness:
  "\<exists>p. canonical_to_dict example_canonical False 3000000 True = Inr p
     \<and> pl_primary_quote_id p = None \<and> pl_candidate_provider_id p = None
     \<and> pl_status p \<noteq> ''confirmed''"
proof -
  obtain p where p: "canonical_to_dict example_canonical False 3000000 True = Inr p"
    using example_canonical_public unfolding is_ok_iff by auto
  show ?thesis
    using public_payload_redacted [OF p] p by auto
qed

text \<open>The status shown for a canonical quote is never better than its windows allow: after
  expiry it is expired, between the stale time and expiry it is stale, and past its live window a quote
  is shown neither as live nor as confirmed, unless one of the later windows applies.\<close>

theorem effective_status_windows:
  assumes "valid_canonical c"
  shows "(now > c_expires_at c \<longrightarrow> effective_status c now = CS_EXPIRED)
    \<and> (c_stale_at c < now \<and> now \<le> c_expires_at c \<longrightarrow> effective_status c now = CS_STALE)
    \<and> (now > c_valid_until c \<longrightarrow> effective_status c now \<noteq> CS_LIVE
         \<and> effective_status c now \<noteq> CS_CONFIRMED)
    \<and> (now \<le> c_valid_until c \<longrightarrow> effective_status c now = c_status c)"
  using assms by (auto simp: effective_status_def valid_canonical_def)

lemma example_canonical_valid: "valid_canonical example_canonical"
  by (simp add: valid_canonical_def example_canonical_def)

theorem effective_status_windows_witness:
  "effective_status example_canonical 1801000001 = CS_EXPIRED
    \<and> effective_status example_canonical 901000001 = CS_STALE
    \<and> effective_status example_canonical 361000001 \<noteq> CS_CONFIRMED
    \<and> effective_status example_canonical 361000000 = CS_CONFIRMED"
  using effective_status_windows [OF example_canonical_valid, of 1801000001]
    effective_status_windows [OF example_canonical_valid, of 901000001]
    effective_status_windows [OF example_canonical_valid, of 361000001]
    effective_status_windows [OF example_canonical_valid, of 361000000]
  by (simp add: example_canonical_def)

end
