(* ===== verification/Formula.thy ===== *)
theory Formula
  imports Py_Values
begin

text \<open>
  Model of the formula part of \<open>apps/api/app/services/alert_engine.py\<close>: the validation of a user's
  formula and its evaluation over market values.

  \<^item> \<open>ast.parse\<close> is an argument \<open>parse\<close> of the definitions: it gives the tree of an expression or
    nothing where Python raises a syntax error. A tree is an \<open>ast_node\<close>; node kinds the validation
    does not allow are \<open>OtherNode\<close>, and operators and contexts, which \<open>ast.walk\<close> visits as nodes, are
    \<open>Leaf\<close> nodes marked as allowed or not.
  \<^item> \<open>ast.walk\<close> is breadth first, as in the library.
  \<^item> Arithmetic is that of floats, with infinities and not-a-number.
\<close>

section \<open>Float arithmetic\<close>

abbreviation rounded :: "rat \<Rightarrow> pyfloat" where
  "rounded x \<equiv> of_f64 (0 \<le> x) (f64 x)"

fun float_neg :: "pyfloat \<Rightarrow> pyfloat" where
  "float_neg (FFin x) = FFin (- x)"
| "float_neg (FInf b) = FInf (\<not> b)"
| "float_neg FNaN = FNaN"

fun float_add :: "pyfloat \<Rightarrow> pyfloat \<Rightarrow> pyfloat" where
  "float_add (FFin x) (FFin y) = rounded (x + y)"
| "float_add (FInf b) (FFin y) = FInf b"
| "float_add (FFin x) (FInf c) = FInf c"
| "float_add (FInf b) (FInf c) = (if b = c then FInf b else FNaN)"
| "float_add _ _ = FNaN"

definition float_sub :: "pyfloat \<Rightarrow> pyfloat \<Rightarrow> pyfloat" where
  "float_sub x y = float_add x (float_neg y)"

fun float_mul :: "pyfloat \<Rightarrow> pyfloat \<Rightarrow> pyfloat" where
  "float_mul (FFin x) (FFin y) = rounded (x * y)"
| "float_mul (FInf b) (FFin y) = (if y = 0 then FNaN else FInf (b = (0 < y)))"
| "float_mul (FFin x) (FInf c) = (if x = 0 then FNaN else FInf (c = (0 < x)))"
| "float_mul (FInf b) (FInf c) = FInf (b = c)"
| "float_mul _ _ = FNaN"

text \<open>Division by a value that is not zero.\<close>

fun float_div :: "pyfloat \<Rightarrow> pyfloat \<Rightarrow> pyfloat" where
  "float_div (FFin x) (FFin y) = rounded (x / y)"
| "float_div (FInf b) (FFin y) = FInf (b = (0 < y))"
| "float_div (FFin x) (FInf c) = FFin 0"
| "float_div _ _ = FNaN"

fun float_less :: "pyfloat \<Rightarrow> pyfloat \<Rightarrow> bool" where
  "float_less (FFin x) (FFin y) = (x < y)"
| "float_less (FInf b) (FInf c) = (\<not> b \<and> c)"
| "float_less (FInf b) (FFin y) = (\<not> b)"
| "float_less (FFin x) (FInf c) = c"
| "float_less _ _ = False"

fun float_leq :: "pyfloat \<Rightarrow> pyfloat \<Rightarrow> bool" where
  "float_leq (FFin x) (FFin y) = (x \<le> y)"
| "float_leq (FInf b) (FInf c) = (\<not> b \<or> c)"
| "float_leq (FInf b) (FFin y) = (\<not> b)"
| "float_leq (FFin x) (FInf c) = c"
| "float_leq _ _ = False"

definition isfinite :: "pyfloat \<Rightarrow> bool" where
  "isfinite f = (case f of FFin _ \<Rightarrow> True | _ \<Rightarrow> False)"

section \<open>Trees\<close>

datatype cmp_op = Gt | GtE | Lt | LtE | OtherCmp

datatype bin_op = Add | Sub | Mult | Div | OtherBin

datatype unary_op = UAdd | USub | OtherUnary

datatype const_value = CInt int | CFloat pyfloat | CBool bool | COther

datatype ast_node =
    Compare ast_node "cmp_op list" "ast_node list"
  | BinOp ast_node bin_op ast_node
  | UnaryOp unary_op ast_node
  | Name string
  | Constant const_value
  | OtherNode "ast_node list"
  | Leaf bool

fun iter_child_nodes :: "ast_node \<Rightarrow> ast_node list" where
  "iter_child_nodes (Compare l ops rs) = l # map (\<lambda>op. Leaf (op \<noteq> OtherCmp)) ops @ rs"
| "iter_child_nodes (BinOp l op r) = [l, Leaf (op \<noteq> OtherBin), r]"
| "iter_child_nodes (UnaryOp op e) = [Leaf (op \<noteq> OtherUnary), e]"
| "iter_child_nodes (Name n) = [Leaf True]"
| "iter_child_nodes (Constant c) = []"
| "iter_child_nodes (OtherNode ns) = ns"
| "iter_child_nodes (Leaf b) = []"

fun node_size :: "ast_node \<Rightarrow> nat" where
  "node_size (Compare l ops rs) = 1 + node_size l + length ops + sum_list (map node_size rs)"
| "node_size (BinOp l op r) = 2 + node_size l + node_size r"
| "node_size (UnaryOp op e) = 2 + node_size e"
| "node_size (Name n) = 2"
| "node_size (Constant c) = 1"
| "node_size (OtherNode ns) = 1 + sum_list (map node_size ns)"
| "node_size (Leaf b) = 1"

lemma node_size_children: "node_size n = 1 + sum_list (map node_size (iter_child_nodes n))"
  by (cases n) (auto simp: comp_def sum_list_triv)

text \<open>\<open>ast.walk\<close>: take the first node of the queue and append its children.\<close>

function walk :: "ast_node list \<Rightarrow> ast_node list" where
  "walk [] = []"
| "walk (n # todo) = n # walk (todo @ iter_child_nodes n)"
  by pat_completeness auto
termination
  by (relation "measure (\<lambda>q. sum_list (map node_size q))") (auto simp: node_size_children)

section \<open>Validation\<close>

definition MAX_FORMULA_NODES :: nat where "MAX_FORMULA_NODES = 40"

definition formula_name :: "string \<Rightarrow> bool" where
  "formula_name s \<longleftrightarrow>
     (case s of [] \<Rightarrow> False
      | c # r \<Rightarrow> CHR ''a'' \<le> c \<and> c \<le> CHR ''z'' \<and> length r \<le> 63
          \<and> list_all (\<lambda>c. (CHR ''a'' \<le> c \<and> c \<le> CHR ''z'') \<or> is_digit c \<or> c = CHR ''_'') r)"

definition allowed_node :: "ast_node \<Rightarrow> bool" where
  "allowed_node n = (case n of OtherNode _ \<Rightarrow> False | Leaf b \<Rightarrow> b | _ \<Rightarrow> True)"

fun check_nodes :: "ast_node list \<Rightarrow> unit result" where
  "check_nodes [] = Inr ()"
| "check_nodes (Name n # ns) =
     (if formula_name (lower n) then check_nodes ns
      else Inl (FormulaError ''Formula contains an invalid market name''))"
| "check_nodes (Constant c # ns) =
     (case c of
        CInt _ \<Rightarrow> check_nodes ns
      | CFloat _ \<Rightarrow> check_nodes ns
      | _ \<Rightarrow> Inl (FormulaError ''Formula constants must be numbers''))"
| "check_nodes (_ # ns) = check_nodes ns"

definition parse_formula :: "(string \<rightharpoonup> ast_node) \<Rightarrow> string \<Rightarrow> ast_node result" where
  "parse_formula parse formula =
     ebind (require (length formula \<le> 200) (FormulaError ''Formula is too long'')) (\<lambda>_.
     ebind (case parse (strip formula) of
              None \<Rightarrow> Inl (FormulaError ''Formula syntax is invalid'') | Some t \<Rightarrow> Inr t) (\<lambda>body.
     let nodes = walk [body] in
     ebind (require (Suc (length nodes) \<le> MAX_FORMULA_NODES) (FormulaError ''Formula is too complex'')) (\<lambda>_.
     ebind (require (list_all allowed_node nodes)
              (FormulaError ''Formula contains an unsupported operation'')) (\<lambda>_.
     ebind (require (case body of Compare _ ops _ \<Rightarrow> length ops = 1 | _ \<Rightarrow> False)
              (FormulaError ''Formula must contain one comparison'')) (\<lambda>_.
     ebind (check_nodes nodes) (\<lambda>_. Inr body))))))"

definition validate_formula :: "(string \<rightharpoonup> ast_node) \<Rightarrow> string \<Rightarrow> unit result" where
  "validate_formula parse formula = ebind (parse_formula parse formula) (\<lambda>_. Inr ())"

definition formula_names :: "ast_node \<Rightarrow> string list" where
  "formula_names body = map (\<lambda>n. case n of Name s \<Rightarrow> lower s | _ \<Rightarrow> [])
     (filter (\<lambda>n. case n of Name _ \<Rightarrow> True | _ \<Rightarrow> False) (walk [body]))"

section \<open>Evaluation\<close>

datatype formula_result = VFloat pyfloat | VBool bool

fun as_float :: "formula_result \<Rightarrow> pyfloat" where
  "as_float (VFloat f) = f"
| "as_float (VBool b) = FFin (if b then 1 else 0)"

fun const_float :: "const_value \<Rightarrow> pyfloat result" where
  "const_float (CInt n) = py_float (PInt n)"
| "const_float (CFloat f) = Inr f"
| "const_float (CBool b) = py_float (PBool b)"
| "const_float COther = Inl (TypeError ''float() argument'')"

fun arithmetic :: "bin_op \<Rightarrow> pyfloat \<Rightarrow> pyfloat \<Rightarrow> pyfloat result" where
  "arithmetic Add x y = Inr (float_add x y)"
| "arithmetic Sub x y = Inr (float_sub x y)"
| "arithmetic Mult x y = Inr (float_mul x y)"
| "arithmetic _ x y =
     (if y = FFin 0 then Inl (FormulaError ''Formula divides by zero'') else Inr (float_div x y))"

fun comparison :: "cmp_op \<Rightarrow> pyfloat \<Rightarrow> pyfloat \<Rightarrow> bool" where
  "comparison Gt x y = float_less y x"
| "comparison GtE x y = float_leq y x"
| "comparison Lt x y = float_less x y"
| "comparison _ x y = float_leq x y"

fun formula_value :: "ast_node \<Rightarrow> (string \<rightharpoonup> pyfloat) \<Rightarrow> formula_result result" where
  "formula_value (Constant c) vals =
     ebind (const_float c) (\<lambda>v.
       if isfinite v then Inr (VFloat v) else Inl (FormulaError ''Formula number is not finite''))"
| "formula_value (Name n) vals =
     (case vals (lower n) of
        None \<Rightarrow> Inl (FormulaError (''Market value is unavailable: '' @ lower n))
      | Some v \<Rightarrow> Inr (VFloat v))"
| "formula_value (UnaryOp op e) vals =
     ebind (formula_value e vals) (\<lambda>v.
       Inr (VFloat (if op = UAdd then as_float v else float_neg (as_float v))))"
| "formula_value (BinOp l op r) vals =
     ebind (formula_value l vals) (\<lambda>a.
     ebind (formula_value r vals) (\<lambda>b.
     ebind (arithmetic op (as_float a) (as_float b)) (\<lambda>result.
       if isfinite result then Inr (VFloat result) else Inl (FormulaError ''Formula result is not finite''))))"
| "formula_value (Compare l (op # ops) (r # rs)) vals =
     ebind (formula_value l vals) (\<lambda>a.
     ebind (formula_value r vals) (\<lambda>b. Inr (VBool (comparison op (as_float a) (as_float b)))))"
| "formula_value (Compare l ops rs) vals = ebind (formula_value l vals) (\<lambda>_. Inl IndexErr)"
| "formula_value _ vals = Inl (FormulaError ''Formula node is not supported'')"

fun truth :: "formula_result \<Rightarrow> bool" where
  "truth (VBool b) = b"
| "truth (VFloat f) = (f \<noteq> FFin 0)"

definition evaluate_formula :: "(string \<rightharpoonup> ast_node) \<Rightarrow> string \<Rightarrow> (string \<rightharpoonup> pyfloat) \<Rightarrow> bool result" where
  "evaluate_formula parse formula vals =
     ebind (parse_formula parse formula) (\<lambda>body.
     ebind (formula_value body vals) (\<lambda>v. Inr (truth v)))"

section \<open>Facts about trees\<close>

text \<open>The trees Python builds: a comparison has as many operators as right-hand sides and at least one, and
  an integer literal of at most two hundred characters is far below the largest float.\<close>

fun wf_ast :: "ast_node \<Rightarrow> bool" where
  "wf_ast (Compare l ops rs) =
     (wf_ast l \<and> ops \<noteq> [] \<and> length rs = length ops \<and> (\<forall>r\<in>set rs. wf_ast r))"
| "wf_ast (BinOp l op r) = (wf_ast l \<and> wf_ast r)"
| "wf_ast (UnaryOp op e) = wf_ast e"
| "wf_ast (Constant (CInt n)) = (\<bar>n\<bar> < 2 ^ 1023)"
| "wf_ast (OtherNode ns) = (\<forall>n\<in>set ns. wf_ast n)"
| "wf_ast _ = True"

lemma child_size: "c \<in> set (iter_child_nodes n) \<Longrightarrow> node_size c < node_size n"
  using member_le_sum_list[of "node_size c" "map node_size (iter_child_nodes n)"]
  by (auto simp: node_size_children[of n])

function subnodes :: "ast_node \<Rightarrow> ast_node list" where
  "subnodes n = n # concat (map subnodes (iter_child_nodes n))"
  by pat_completeness auto
termination
  by (relation "measure node_size") (auto simp: child_size)

declare subnodes.simps [simp del]

lemma set_subnodes: "set (subnodes n) = insert n (\<Union>c\<in>set (iter_child_nodes n). set (subnodes c))"
  by (subst subnodes.simps) simp

lemma set_walk: "set (walk q) = (\<Union>n\<in>set q. set (subnodes n))"
proof (induction q rule: walk.induct)
  case (2 n todo)
  then show ?case
    by (auto simp: set_subnodes[of n])
qed simp

lemma length_walk: "length (walk q) = sum_list (map node_size q)"
proof (induction q rule: walk.induct)
  case (2 n todo)
  then show ?case
    by (simp add: node_size_children[of n])
qed simp

definition good_node :: "ast_node \<Rightarrow> bool" where
  "good_node n \<longleftrightarrow> allowed_node n
     \<and> (case n of Constant (CBool _) \<Rightarrow> False | Constant COther \<Rightarrow> False | Name s \<Rightarrow> formula_name (lower s) | _ \<Rightarrow> True)"

lemma check_nodes_good:
  "check_nodes ns = Inr () \<Longrightarrow> list_all allowed_node ns \<Longrightarrow> n \<in> set ns \<Longrightarrow> good_node n"
proof (induction ns rule: check_nodes.induct)
  case (3 c ns)
  then show ?case
    by (cases c) (auto simp: good_node_def)
qed (auto simp: good_node_def split: if_splits)

lemma parse_formula_good:
  assumes "parse_formula parse formula = Inr body"
  obtains l op rs where "parse (strip formula) = Some body" "body = Compare l [op] rs"
    "\<forall>n\<in>set (subnodes body). good_node n" "node_size body < 40" "length formula \<le> 200"
proof -
  have ok: "parse (strip formula) = Some body" "list_all allowed_node (walk [body])" "check_nodes (walk [body]) = Inr ()"
      "Suc (length (walk [body])) \<le> MAX_FORMULA_NODES" "length formula \<le> 200"
      "case body of Compare _ ops _ \<Rightarrow> length ops = 1 | _ \<Rightarrow> False"
    using assms by (auto simp: parse_formula_def Let_def err_simps split: option.splits)
  obtain l ops rs where b: "body = Compare l ops rs" "length ops = 1"
    using ok(6) by (cases body) auto
  then obtain op where "ops = [op]"
    by (cases ops) auto
  moreover have "\<forall>n\<in>set (subnodes body). good_node n"
    using check_nodes_good[OF ok(3,2)] set_walk[of "[body]"] by auto
  moreover have "node_size body < 40"
    using ok(4) length_walk[of "[body]"] by (simp add: MAX_FORMULA_NODES_def)
  ultimately show ?thesis
    using that b ok(1,5) by blast
qed

section \<open>Facts about evaluation\<close>

lemma f64_large_int:
  assumes "\<bar>n\<bar> < 2 ^ 1023"
  shows "\<exists>x. f64 (of_int n) = Some x"
proof (cases "n = 0")
  case False
  have one: "(1 :: rat) \<le> \<bar>of_int n\<bar>"
    using False by linarith
  then have "0 \<le> expo 2 \<bar>of_int n\<bar>"
    by (simp add: expo_def ilog_nonneg)
  then have r: "round_at 2 (max (expo 2 \<bar>of_int n\<bar> - 52) (- 1074)) (of_int n) = round_sig 2 53 (of_int n)"
    using False by (simp add: round_sig_def)
  have top: "round_sig 2 53 ((2 :: rat) ^ 1023) = 2 ^ 1023"
    using round_sig_short[of 2 53 1 1023] by simp
  have le: "\<bar>of_int n :: rat\<bar> \<le> 2 ^ 1023"
  proof -
    have "of_int \<bar>n\<bar> \<le> (of_int (2 ^ 1023) :: rat)"
      using assms by (subst of_int_le_iff) simp
    then show ?thesis
      by simp
  qed
  have "round_sig 2 53 (of_int n) \<le> 2 ^ 1023" "- (2 ^ 1023) \<le> round_sig 2 53 (of_int n :: rat)"
    using round_sig_mono[of 2 53 "of_int n" "2 ^ 1023"] round_sig_mono[of 2 53 "- (2 ^ 1023)" "of_int n"] le top
      round_sig_minus[of 2 53 "2 ^ 1023"] by auto
  then have "\<bar>round_sig 2 53 (of_int n :: rat)\<bar> \<le> 2 ^ 1023"
    by simp
  moreover have "(2 :: rat) ^ 1023 < 2 ^ 1024"
    by simp
  ultimately show ?thesis
    using False by (auto simp: f64_def r Let_def)
qed (simp add: f64_def)

definition formula_outcome :: "'a result \<Rightarrow> bool" where
  "formula_outcome r \<longleftrightarrow> (case r of Inr _ \<Rightarrow> True | Inl (FormulaError _) \<Rightarrow> True | _ \<Rightarrow> False)"

lemma formula_outcome_bind:
  "formula_outcome m \<Longrightarrow> (\<And>x . m = Inr x \<Longrightarrow> formula_outcome (f x)) \<Longrightarrow> formula_outcome (ebind m f)"
  by (cases m) (auto simp: formula_outcome_def)

lemma formula_outcome_intros [simp]:
  "formula_outcome (Inr x)" "formula_outcome (Inl (FormulaError m))"
  by (simp_all add: formula_outcome_def)

lemma formula_outcome_require [simp]: "formula_outcome (require c (FormulaError m))"
  by (simp add: require_def)

lemma check_nodes_outcome: "formula_outcome (check_nodes ns)"
  by (induction ns rule: check_nodes.induct) (auto split: const_value.split)

lemma arithmetic_outcome: "formula_outcome (arithmetic op x y)"
  by (cases op) auto

lemma formula_value_outcome:
  assumes "wf_ast n" "\<forall>m\<in>set (subnodes n). good_node m"
  shows "formula_outcome (formula_value n vals)"
  using assms
proof (induction n vals rule: formula_value.induct)
  case (1 c vals)
  then have "good_node (Constant c)"
    by (simp add: set_subnodes[of "Constant c"])
  then show ?case
  proof (cases c)
    case (CInt k)
    then obtain x where "f64 (of_int k) = Some x"
      using 1(1) f64_large_int[of k] by (simp only: wf_ast.simps) blast
    then show ?thesis
      by (simp add: CInt)
  qed (auto simp: good_node_def)
next
  case (2 n vals)
  then show ?case
    by (auto split: option.split)
next
  case (3 op e vals)
  then show ?case
    by (auto simp: set_subnodes[of "UnaryOp op e"] intro!: formula_outcome_bind)
next
  case (4 l op r vals)
  then show ?case
    by (auto simp: set_subnodes[of "BinOp l op r"] intro!: formula_outcome_bind arithmetic_outcome)
next
  case (5 l op ops r rs vals)
  then show ?case
    by (auto simp: set_subnodes[of "Compare l (op # ops) (r # rs)"] intro!: formula_outcome_bind)
qed auto

lemma evaluate_formula_outcome:
  assumes "\<forall>s t. parse s = Some t \<longrightarrow> wf_ast t"
  shows "formula_outcome (evaluate_formula parse formula vals)"
proof (cases "parse_formula parse formula")
  case (Inl e)
  have "formula_outcome (parse_formula parse formula)"
    by (auto simp: parse_formula_def Let_def intro!: formula_outcome_bind check_nodes_outcome split: option.split)
  with Inl show ?thesis
    by (auto simp: evaluate_formula_def formula_outcome_def)
next
  case (Inr body)
  then have "wf_ast body" "\<forall>n\<in>set (subnodes body). good_node n"
    using assms by (auto elim!: parse_formula_good)
  then show ?thesis
    using formula_value_outcome[of body vals] by (auto simp: evaluate_formula_def Inr intro!: formula_outcome_bind)
qed

section \<open>Properties\<close>

text \<open>Claim C29. A user's formula can never break the evaluation of alerts: for every text, every set of market
  values and every parser that builds the trees Python builds, evaluation ends with a truth value or with a
  formula error, and never with another exception; a truth value comes from a formula of at most two hundred
  characters with fewer than forty nodes that is one comparison at the top.\<close>

theorem formula_evaluation_total:
  assumes "\<forall>s t. parse s = Some t \<longrightarrow> wf_ast t"
  shows "(\<exists>m. evaluate_formula parse formula vals = Inl (FormulaError m))
    \<or> (\<exists>b l op r. evaluate_formula parse formula vals = Inr b \<and> length formula \<le> 200
        \<and> parse (strip formula) = Some (Compare l [op] [r]) \<and> node_size (Compare l [op] [r]) < 40
        \<and> (\<forall>s. Name s \<in> set (walk [Compare l [op] [r]]) \<longrightarrow> formula_name (lower s)))"
proof (cases "evaluate_formula parse formula vals")
  case (Inl e)
  with evaluate_formula_outcome[OF assms, of formula vals] show ?thesis
    by (cases e) (auto simp: formula_outcome_def)
next
  case (Inr v)
  then obtain body where p: "parse_formula parse formula = Inr body"
    by (auto simp: evaluate_formula_def err_simps)
  then obtain l op rs where b: "parse (strip formula) = Some body" "body = Compare l [op] rs"
      "\<forall>n\<in>set (subnodes body). good_node n" "node_size body < 40" "length formula \<le> 200"
    by (rule parse_formula_good)
  then obtain r where r: "rs = [r]"
    using assms by (cases rs) fastforce+
  have "\<forall>s. Name s \<in> set (walk [body]) \<longrightarrow> formula_name (lower s)"
    using b(3) set_walk[of "[body]"] by (fastforce simp: good_node_def)
  then show ?thesis
    using b r Inr by auto
qed

text \<open>A parser that knows one formula: the price of bitcoin plus one is above ten.\<close>

definition example_parse :: "string \<rightharpoonup> ast_node" where
  "example_parse = [''btc + 1 > 10'' \<mapsto> Compare (BinOp (Name ''btc'') Add (Constant (CInt 1))) [Gt] [Constant (CInt 10)]]"

theorem formula_evaluation_total_witness:
  "evaluate_formula example_parse '' btc + 1 > 10'' [''btc'' \<mapsto> FFin 12] = Inr True"
proof -
  have "\<forall>s t. example_parse s = Some t \<longrightarrow> wf_ast t"
    by (simp add: example_parse_def)
  from formula_evaluation_total [OF this, of "'' btc + 1 > 10''" "[''btc'' \<mapsto> FFin 12]"]
  show ?thesis
    by (auto simp: evaluate_formula_def parse_formula_def example_parse_def strip_def is_space_def
        MAX_FORMULA_NODES_def allowed_node_def formula_name_def lower_def lower_char_def of_f64_def isfinite_def
        f64_int[of 13, simplified] f64_int[of 1, simplified])
qed

text \<open>A chain of comparisons below the top is read as its first link only: the formula
  (1 < 5 < 2) + 0 > 0 passes the validation and is met, although Python's value of the chain is false.\<close>

theorem nested_chain_first_link_only:
  assumes "parse ''(1 < 5 < 2) + 0 > 0'' = Some (Compare (BinOp (Compare (Constant (CInt 1)) [Lt, Lt]
      [Constant (CInt 5), Constant (CInt 2)]) Add (Constant (CInt 0))) [Gt] [Constant (CInt 0)])"
  shows "evaluate_formula parse ''(1 < 5 < 2) + 0 > 0'' vals = Inr True"
  using assms
  by (simp add: evaluate_formula_def parse_formula_def strip_def is_space_def MAX_FORMULA_NODES_def
      allowed_node_def isfinite_def of_f64_def f64_int[of 0, simplified] f64_int[of 1, simplified])

theorem nested_chain_first_link_only_witness:
  "\<exists>parse. evaluate_formula parse ''(1 < 5 < 2) + 0 > 0'' Map.empty = Inr True"
  by (rule exI, rule nested_chain_first_link_only [where vals = Map.empty, OF fun_upd_same])

end
