(* ===== verification/Alerts.thy ===== *)
theory Alerts
  imports Models Formula
begin

text \<open>
  Model of the alert evaluation of \<open>apps/api/app/services/alert_engine.py\<close>: which price of a snapshot
  an alert may use, when its condition is met, when a met condition triggers, and what a trigger puts
  into the database. The rows follow \<open>apps/api/app/models.py\<close>.

  \<^item> A price snapshot is the list of its asset dictionaries. Summaries for people (titles, bodies and
    price contexts of messages) are left out of the stored snapshot.
  \<^item> The day of an instant is its day in UTC, counted from the epoch. The SHA-256 key of an event is the
    tuple it is computed from.
  \<^item> A database transaction that raises leaves the database as it was.
\<close>

section \<open>Rows\<close>

record alert_row =
  al_id :: int
  al_user_id :: int
  al_asset :: string
  al_target_price :: "pyfloat option"
  al_alert_type :: string
  al_formula :: "string option"
  al_currency_mode :: string
  al_price_source_mode :: string
  al_condition :: string
  al_notify_app :: bool
  al_notify_email :: bool
  al_notify_webhook :: bool
  al_webhook_url :: "string option"
  al_enable_dlq :: bool
  al_instrument_id :: "string option"
  al_mode :: string
  al_cooldown_seconds :: int
  al_max_notifications_per_day :: int
  al_notify_telegram :: bool
  al_last_condition_state :: bool
  al_next_eligible_trigger_at :: "instant option"
  al_notifications_today :: int
  al_notification_day :: "int option"
  al_is_active :: bool
  al_triggered_at :: "instant option"

record notification_preference =
  np_push_app :: bool
  np_aggressive_alerts :: bool
  np_email_enabled :: bool
  np_email_verified :: bool
  np_email_address :: "string option"
  np_telegram_enabled :: bool
  np_telegram_verified :: bool
  np_telegram_id :: "string option"

section \<open>Eligible prices\<close>

definition allowed_statuses :: "string \<Rightarrow> string list" where
  "allowed_statuses mode =
     (if mode = ''derived'' then [''live'', ''confirmed'', ''fresh_cache'', ''derived_fallback'']
      else [''live'', ''confirmed'', ''fresh_cache''])"

definition allowed_semantics :: "string \<Rightarrow> string list" where
  "allowed_semantics mode =
     (if mode = ''ordinary'' then [''exchange_orderbook'', ''exchange_trade'', ''aggregator'', ''physical_market_quote'']
      else if mode = ''reference'' then [''reference_rate'']
      else if mode = ''derived'' then [''derived'']
      else [])"

definition asset_status :: "dict \<Rightarrow> string \<Rightarrow> string" where
  "asset_status asset currency =
     lower (py_text (or_val (or_val
       (dict_get asset (if currency = ''usd'' then ''usd_status'' else ''toman_status'') PNone)
       (dict_get asset ''status'' PNone)) (PStr ''unavailable'')))"

definition asset_policy_value :: "dict \<Rightarrow> string \<Rightarrow> string \<Rightarrow> pyval \<Rightarrow> pyval" where
  "asset_policy_value asset currency key dflt =
     dict_get asset ((if currency = ''usd'' then ''usd_'' else ''toman_'') @ key) (dict_get asset key dflt)"

definition asset_policy_flag :: "dict \<Rightarrow> string \<Rightarrow> string \<Rightarrow> bool \<Rightarrow> bool option" where
  "asset_policy_flag asset currency key dflt =
     (case asset_policy_value asset currency key (PBool dflt) of PBool b \<Rightarrow> Some b | _ \<Rightarrow> None)"

definition caught :: "'a result \<Rightarrow> 'a option result" where
  "caught r = (case r of
      Inr x \<Rightarrow> Inr (Some x)
    | Inl (TypeError _) \<Rightarrow> Inr None
    | Inl (ValueError _) \<Rightarrow> Inr None
    | Inl e \<Rightarrow> Inl e)"

definition spread_ok :: "dict \<Rightarrow> string \<Rightarrow> bool result" where
  "spread_ok asset currency =
     (let spread = asset_policy_value asset currency ''spread_bps'' PNone;
          maximum = asset_policy_value asset currency ''maximum_spread_bps'' PNone
      in if spread = PNone \<or> maximum = PNone then Inr True
         else
           ebind (caught (py_float spread)) (\<lambda>s.
           case s of None \<Rightarrow> Inr False | Some sv \<Rightarrow>
           ebind (caught (py_float maximum)) (\<lambda>m.
           case m of None \<Rightarrow> Inr False | Some mv \<Rightarrow>
             Inr (isfinite sv \<and> isfinite mv \<and> float_leq (FFin 0) sv \<and> float_leq (FFin 0) mv \<and> float_leq sv mv))))"

definition asset_is_operational :: "dict \<Rightarrow> string \<Rightarrow> string \<Rightarrow> bool result" where
  "asset_is_operational asset currency mode =
     (if mode \<notin> {''ordinary'', ''reference'', ''derived''} then Inr False
      else if asset_status asset currency \<notin> set (allowed_statuses mode) then Inr False
      else if asset_policy_flag asset currency ''live_eligible'' False \<noteq> Some True then Inr False
      else if asset_policy_flag asset currency ''is_persisted'' False \<noteq> Some True then Inr False
      else if lower (py_text (asset_policy_value asset currency ''persistence_status'' (PStr ''unpersisted'')))
                \<noteq> ''persisted'' then Inr False
      else if asset_policy_flag asset currency ''is_suspicious'' True \<noteq> Some False then Inr False
      else if asset_policy_flag asset currency ''expired'' True \<noteq> Some False then Inr False
      else
        ebind (caught (py_int (asset_policy_value asset currency ''derivation_depth'' (PInt 0)))) (\<lambda>depth.
        case depth of None \<Rightarrow> Inr False | Some d \<Rightarrow>
          if \<not> (lower (py_text (asset_policy_value asset currency ''source_semantic'' (PStr [])))
                   \<in> set (allowed_semantics mode)
                 \<and> (if mode = ''derived'' then d \<ge> 1 else d = 0))
          then Inr False
          else spread_ok asset currency))"

section \<open>Conditions\<close>

text \<open>\<open>isinstance(v, (int, float)) and math.isfinite(v)\<close>: the exact value; a large integer raises.\<close>

fun finite_number :: "pyval \<Rightarrow> rat option result" where
  "finite_number (PInt n) = (case f64 (of_int n) of None \<Rightarrow> Inl OverflowErr | Some _ \<Rightarrow> Inr (Some (of_int n)))"
| "finite_number (PBool b) = Inr (Some (if b then 1 else 0))"
| "finite_number (PFloat (FFin x)) = Inr (Some x)"
| "finite_number _ = Inr None"

definition alert_asset_id :: "alert_row \<Rightarrow> string" where
  "alert_asset_id a =
     (case al_instrument_id a of
        Some s \<Rightarrow> if s = [] then al_asset a else upper (strip s)
      | None \<Rightarrow> al_asset a)"

fun find_asset :: "dict list \<Rightarrow> string \<Rightarrow> dict option result" where
  "find_asset [] aid = Inr None"
| "find_asset (a # as) aid =
     (case a ''asset'' of
        None \<Rightarrow> Inl (KeyErr ''asset'')
      | Some v \<Rightarrow> if v = PStr aid then Inr (Some a) else find_asset as aid)"

text \<open>Runs of other characters in a source name become one underscore; none is left at the ends.\<close>

definition name_char :: "char \<Rightarrow> bool" where
  "name_char c \<longleftrightarrow> (CHR ''a'' \<le> c \<and> c \<le> CHR ''z'') \<or> is_digit c"

fun sub_names :: "bool \<Rightarrow> string \<Rightarrow> string" where
  "sub_names in_run [] = []"
| "sub_names in_run (c # s) =
     (if name_char c then c # sub_names False s
      else if in_run then sub_names True s else CHR ''_'' # sub_names True s)"

definition strip_underscores :: "string \<Rightarrow> string" where
  "strip_underscores s = rev (dropWhile (\<lambda>c. c = CHR ''_'') (rev (dropWhile (\<lambda>c. c = CHR ''_'') s)))"

definition source_name :: "pyval \<Rightarrow> string" where
  "source_name v = strip_underscores (sub_names False (lower (py_text v)))"

primrec asset_values :: "alert_row \<Rightarrow> dict list \<Rightarrow> (string \<rightharpoonup> pyfloat) \<Rightarrow> (string \<rightharpoonup> pyfloat) result" where
  "asset_values a [] vals = Inr vals"
| "asset_values a (asset # rest) vals =
     (let usd = (al_currency_mode a = ''usd'');
          aid = lower (py_text (dict_get asset ''asset'' (PStr [])));
          v = dict_get asset (if usd then ''price_usd'' else ''price_toman'') PNone;
          src = source_name (dict_get asset (if usd then ''source_usd'' else ''source_toman'') (PStr []))
      in if aid = [] then asset_values a rest vals
         else ebind (asset_is_operational asset (al_currency_mode a) (al_price_source_mode a)) (\<lambda>ok.
           if \<not> ok then asset_values a rest vals
           else ebind (finite_number v) (\<lambda>n.
             case n of
               None \<Rightarrow> asset_values a rest vals
             | Some _ \<Rightarrow> ebind (py_float v) (\<lambda>f.
                 asset_values a rest
                   (if src = [] then vals(aid \<mapsto> f) else vals(aid \<mapsto> f, aid @ ''_'' @ src \<mapsto> f))))))"

definition formula_values :: "alert_row \<Rightarrow> dict list \<Rightarrow> (string \<rightharpoonup> pyfloat) result" where
  "formula_values a assets =
     ebind (asset_values a assets Map.empty) (\<lambda>vals.
     let vals1 = (case vals ''usd'' of
            None \<Rightarrow> vals
          | Some v \<Rightarrow> (case vals ''dollar'' of None \<Rightarrow> vals(''dollar'' \<mapsto> v) | Some _ \<Rightarrow> vals))
     in Inr (case al_target_price a of None \<Rightarrow> vals1 | Some t \<Rightarrow> vals1(''x'' \<mapsto> t)))"

definition price_reached :: "alert_row \<Rightarrow> rat option \<Rightarrow> bool" where
  "price_reached a price =
     (case (price, al_target_price a) of
        (Some x, Some t) \<Rightarrow>
          if al_condition a = ''above'' then float_leq t (FFin x)
          else if al_condition a = ''below'' then float_leq (FFin x) t
          else False
      | _ \<Rightarrow> False)"

definition should_trigger_model :: "(string \<rightharpoonup> ast_node) \<Rightarrow> alert_row \<Rightarrow> dict list \<Rightarrow> bool result" where
  "should_trigger_model parse a assets =
     (if al_alert_type a = ''formula'' then
        (if or_text (al_formula a) [] = [] then Inr False
         else (case ebind (formula_values a assets)
                      (\<lambda>vals. evaluate_formula parse (or_text (al_formula a) []) vals) of
                 Inl (FormulaError _) \<Rightarrow> Inr False
               | r \<Rightarrow> r))
      else
        ebind (find_asset assets (alert_asset_id a)) (\<lambda>found.
        case found of None \<Rightarrow> Inr False | Some asset \<Rightarrow>
        ebind (asset_is_operational asset (al_currency_mode a) (al_price_source_mode a)) (\<lambda>ok.
        if \<not> ok then Inr False
        else
          ebind (finite_number
                   (dict_get asset (if al_currency_mode a = ''usd'' then ''price_usd'' else ''price_toman'') PNone)) (\<lambda>price.
          Inr (price_reached a price)))))"

section \<open>Triggering\<close>

definition day_of :: "instant \<Rightarrow> int" where
  "day_of t = t div 86400000000"

definition recurring_enabled :: "alert_row \<Rightarrow> notification_preference option \<Rightarrow> bool" where
  "recurring_enabled a prefs \<longleftrightarrow>
     al_mode a = ''recurring'' \<or> (case prefs of None \<Rightarrow> False | Some p \<Rightarrow> np_aggressive_alerts p)"

text \<open>What the loop does to a row whose condition was evaluated: the row when it is queued, or nothing
  is queued; the row after the round.\<close>

definition new_day :: "instant \<Rightarrow> alert_row \<Rightarrow> alert_row" where
  "new_day now a =
     (if al_notification_day a \<noteq> Some (day_of now)
      then a\<lparr>al_notification_day := Some (day_of now), al_notifications_today := 0\<rparr> else a)"

definition after_trigger :: "bool \<Rightarrow> instant \<Rightarrow> alert_row \<Rightarrow> alert_row" where
  "after_trigger recurring now a =
     (let a1 = a\<lparr>al_last_condition_state := True, al_triggered_at := Some now,
               al_notifications_today := al_notifications_today a + 1\<rparr>
      in if recurring then a1\<lparr>al_next_eligible_trigger_at := Some (now + seconds (al_cooldown_seconds a))\<rparr>
         else a1\<lparr>al_is_active := False\<rparr>)"

definition not_yet_eligible :: "instant \<Rightarrow> alert_row \<Rightarrow> bool" where
  "not_yet_eligible now a = (case al_next_eligible_trigger_at a of None \<Rightarrow> False | Some t \<Rightarrow> t > now)"

definition row_step :: "bool \<Rightarrow> bool \<Rightarrow> instant \<Rightarrow> alert_row \<Rightarrow> alert_row \<times> alert_row option" where
  "row_step recurring met now a =
     (if \<not> met then (if al_last_condition_state a then a\<lparr>al_last_condition_state := False\<rparr> else a, None)
      else if \<not> recurring \<and> al_triggered_at a \<noteq> None then (a, None)
      else if recurring \<and> al_last_condition_state a then (a, None)
      else if not_yet_eligible now a then (a, None)
      else let a1 = new_day now a in
        if al_notifications_today a1 \<ge> al_max_notifications_per_day a1 then (a1, None)
        else (after_trigger recurring now a1, Some a1))"

section \<open>Queueing\<close>

datatype event_key = EventKey int instant int

datatype job_status =
  JPending | JProcessing | JSending | JDelivered | JRetrying | JFailed | JDead | JCancelled

record trigger_event =
  ev_id :: int
  ev_alert_id :: int
  ev_instrument_id :: "string option"
  ev_price :: pyval
  ev_snapshot :: "dict list"
  ev_status :: string
  ev_key :: event_key

record delivery_job =
  jb_id :: int
  jb_alert_id :: int
  jb_event_id :: int
  jb_channel :: string
  jb_destination :: string
  jb_status :: job_status
  jb_attempt_count :: int
  jb_next_retry_at :: "instant option"
  jb_last_error :: "string option"
  jb_key :: "event_key \<times> string"
  jb_created_at :: instant
  jb_updated_at :: instant
  jb_delivered_at :: "instant option"
  jb_dead_at :: "instant option"

record alert_db =
  db_alerts :: "alert_row list"
  db_prefs :: "int \<rightharpoonup> notification_preference"
  db_push_users :: "int set"
  db_events :: "trigger_event list"
  db_jobs :: "delivery_job list"
  db_notifications :: "(int \<times> int) list"
  db_next_event :: int
  db_next_job :: int

record delivery_settings =
  ds_push_configured :: bool
  ds_smtp_host :: bool
  ds_telegram_configured :: bool

definition push_is_enabled :: "notification_preference option \<Rightarrow> bool" where
  "push_is_enabled prefs = (case prefs of None \<Rightarrow> True | Some p \<Rightarrow> np_push_app p)"

definition email_destination :: "notification_preference option \<Rightarrow> string option" where
  "email_destination prefs =
     (case prefs of
        None \<Rightarrow> None
      | Some p \<Rightarrow>
          if np_email_enabled p \<and> np_email_verified p \<and> or_text (np_email_address p) [] \<noteq> []
          then (let d = lower (strip (or_text (np_email_address p) [])) in if d = [] then None else Some d)
          else None)"

definition telegram_destination :: "notification_preference option \<Rightarrow> string option" where
  "telegram_destination prefs =
     (case prefs of
        None \<Rightarrow> None
      | Some p \<Rightarrow>
          if np_telegram_enabled p \<and> np_telegram_verified p \<and> or_text (np_telegram_id p) [] \<noteq> []
          then (let d = strip (or_text (np_telegram_id p) []) in if d = [] then None else Some d)
          else None)"

text \<open>The assets of the snapshot an alert refers to, without their history.\<close>

definition wanted_names :: "(string \<rightharpoonup> ast_node) \<Rightarrow> alert_row \<Rightarrow> string list" where
  "wanted_names parse a =
     lower (case al_instrument_id a of None \<Rightarrow> al_asset a | Some s \<Rightarrow> if s = [] then al_asset a else s)
     # (if al_alert_type a = ''formula'' \<and> or_text (al_formula a) [] \<noteq> []
        then (case parse_formula parse (or_text (al_formula a) []) of Inl _ \<Rightarrow> [] | Inr body \<Rightarrow> formula_names body)
        else [])"

definition relevant_assets :: "(string \<rightharpoonup> ast_node) \<Rightarrow> alert_row \<Rightarrow> dict list \<Rightarrow> dict list" where
  "relevant_assets parse a assets =
     map (\<lambda>asset. asset(''history'' := None))
       (filter (\<lambda>asset.
          let aid = lower (py_text (dict_get asset ''asset'' (PStr [])))
          in aid \<noteq> [] \<and> list_ex (\<lambda>n. n = aid \<or> starts_with (aid @ ''_'') n) (wanted_names parse a)) assets)"

definition current_price :: "alert_row \<Rightarrow> dict list \<Rightarrow> pyval result" where
  "current_price a assets =
     ebind (find_asset assets (alert_asset_id a)) (\<lambda>found.
     Inr (case found of
        None \<Rightarrow> PNone
      | Some asset \<Rightarrow> dict_get asset (if al_currency_mode a = ''usd'' then ''price_usd'' else ''price_toman'') PNone))"

definition channels :: "delivery_settings \<Rightarrow> alert_row \<Rightarrow> notification_preference option \<Rightarrow> bool \<Rightarrow> (string \<times> string) list" where
  "channels st a prefs push_available =
     (let user = ''user:'' @ int_text (al_user_id a) in
      (if al_notify_app a \<and> push_is_enabled prefs \<and> push_available \<and> ds_push_configured st
       then [(''push'', user @ '':push'')] else [])
      @ (if al_notify_email a \<and> ds_smtp_host st \<and> email_destination prefs \<noteq> None
         then [(''email'', user @ '':email'')] else [])
      @ (if al_notify_webhook a \<and> or_text (al_webhook_url a) [] \<noteq> []
         then [(''webhook'', ''alert:'' @ int_text (al_id a) @ '':webhook'')] else [])
      @ (if al_notify_telegram a \<and> ds_telegram_configured st \<and> telegram_destination prefs \<noteq> None
         then [(''telegram'', user @ '':telegram'')] else []))"

primrec new_jobs :: "int \<Rightarrow> int \<Rightarrow> int \<Rightarrow> event_key \<Rightarrow> instant \<Rightarrow> (string \<times> string) list \<Rightarrow> delivery_job list" where
  "new_jobs jid aid eid key now [] = []"
| "new_jobs jid aid eid key now (c # cs) =
     \<lparr>jb_id = jid, jb_alert_id = aid, jb_event_id = eid, jb_channel = fst c, jb_destination = snd c,
      jb_status = JPending, jb_attempt_count = 0, jb_next_retry_at = Some now, jb_last_error = None,
      jb_key = (key, fst c), jb_created_at = now, jb_updated_at = now, jb_delivered_at = None, jb_dead_at = None\<rparr>
     # new_jobs (jid + 1) aid eid key now cs"

definition queue_trigger ::
  "(string \<rightharpoonup> ast_node) \<Rightarrow> delivery_settings \<Rightarrow> dict list \<Rightarrow> instant \<Rightarrow> alert_row \<Rightarrow> alert_db \<Rightarrow> alert_db result" where
  "queue_trigger parse st assets now a db =
     (let prefs = db_prefs db (al_user_id a);
          snapshot = relevant_assets parse a assets;
          key = EventKey (al_id a) now (al_notifications_today a);
          in_app = (al_notify_app a \<and> push_is_enabled prefs);
          chans = channels st a prefs (al_user_id a \<in> db_push_users db)
      in
      ebind (current_price a snapshot) (\<lambda>price.
      Inr (db\<lparr>
        db_events := db_events db @ [\<lparr>ev_id = db_next_event db, ev_alert_id = al_id a,
          ev_instrument_id = al_instrument_id a, ev_price = price, ev_snapshot = snapshot,
          ev_status = (if chans \<noteq> [] then ''queued'' else if in_app then ''delivered'' else ''no_delivery_channel''),
          ev_key = key\<rparr>],
        db_jobs := db_jobs db @ new_jobs (db_next_job db) (al_id a) (db_next_event db) key now chans,
        db_notifications := db_notifications db @ (if in_app then [(al_user_id a, al_id a)] else []),
        db_next_event := db_next_event db + 1,
        db_next_job := db_next_job db + int (length chans)\<rparr>)))"

section \<open>The evaluation loop\<close>

definition put_alert :: "alert_row \<Rightarrow> alert_row list \<Rightarrow> alert_row list" where
  "put_alert a rows = map (\<lambda>r. if al_id r = al_id a then a else r) rows"

definition evaluate_row ::
  "(string \<rightharpoonup> ast_node) \<Rightarrow> delivery_settings \<Rightarrow> dict list \<Rightarrow> instant \<Rightarrow> alert_row \<Rightarrow> alert_db \<Rightarrow> alert_db result" where
  "evaluate_row parse st assets now a db =
     ebind (should_trigger_model parse a assets) (\<lambda>met.
     let r = row_step (recurring_enabled a (db_prefs db (al_user_id a))) met now a in
     ebind (case snd r of None \<Rightarrow> Inr db | Some a1 \<Rightarrow> queue_trigger parse st assets now a1 db) (\<lambda>db1.
     Inr (db1\<lparr>db_alerts := put_alert (fst r) (db_alerts db1)\<rparr>)))"

primrec evaluate_rows ::
  "(string \<rightharpoonup> ast_node) \<Rightarrow> delivery_settings \<Rightarrow> dict list \<Rightarrow> instant \<Rightarrow> alert_row list \<Rightarrow> alert_db \<Rightarrow> alert_db result" where
  "evaluate_rows parse st assets now [] db = Inr db"
| "evaluate_rows parse st assets now (a # as) db =
     ebind (evaluate_row parse st assets now a db) (evaluate_rows parse st assets now as)"

text \<open>Rows another transaction has locked are skipped; an exception rolls the transaction back.\<close>

definition evaluate_and_enqueue ::
  "(string \<rightharpoonup> ast_node) \<Rightarrow> delivery_settings \<Rightarrow> dict list \<Rightarrow> instant \<Rightarrow> int set \<Rightarrow> alert_db \<Rightarrow> unit result \<times> alert_db" where
  "evaluate_and_enqueue parse st assets now locked db =
     (case evaluate_rows parse st assets now
             (filter (\<lambda>a. al_is_active a \<and> al_id a \<notin> locked) (db_alerts db)) db of
        Inl e \<Rightarrow> (Inl e, db)
      | Inr db' \<Rightarrow> (Inr (), db'))"

section \<open>Facts about eligible prices\<close>

lemma caught_Inr [err_simps]: "caught r = Inr (Some x) \<longleftrightarrow> r = Inr x"
  by (auto simp: caught_def split: sum.splits py_error.splits)

lemma spread_ok_True:
  assumes "spread_ok asset currency = Inr True"
  shows "asset_policy_value asset currency ''spread_bps'' PNone = PNone
    \<or> asset_policy_value asset currency ''maximum_spread_bps'' PNone = PNone
    \<or> (\<exists>s m. py_float (asset_policy_value asset currency ''spread_bps'' PNone) = Inr (FFin s)
         \<and> py_float (asset_policy_value asset currency ''maximum_spread_bps'' PNone) = Inr (FFin m)
         \<and> 0 \<le> s \<and> s \<le> m)"
proof -
  let ?s = "asset_policy_value asset currency ''spread_bps'' PNone"
  let ?m = "asset_policy_value asset currency ''maximum_spread_bps'' PNone"
  have "(\<exists>s m. py_float ?s = Inr (FFin s) \<and> py_float ?m = Inr (FFin m) \<and> 0 \<le> s \<and> s \<le> m)"
    if n: "\<not> (?s = PNone \<or> ?m = PNone)"
  proof -
    have "ebind (caught (py_float ?s)) (\<lambda>s. case s of None \<Rightarrow> Inr False | Some sv \<Rightarrow>
        ebind (caught (py_float ?m)) (\<lambda>m. case m of None \<Rightarrow> Inr False | Some mv \<Rightarrow>
          Inr (isfinite sv \<and> isfinite mv \<and> float_leq (FFin 0) sv \<and> float_leq (FFin 0) mv \<and> float_leq sv mv)))
        = Inr True"
      using assms n unfolding spread_ok_def Let_def by (simp only: if_False)
    then obtain sv mv where "py_float ?s = Inr sv" "py_float ?m = Inr mv"
        "isfinite sv" "isfinite mv" "float_leq (FFin 0) sv" "float_leq sv mv"
      by (auto simp: ebind_Inr caught_Inr split: option.splits)
    then show ?thesis
      by (cases sv; cases mv) (auto simp: isfinite_def)
  qed
  then show ?thesis
    by blast
qed

lemma refuse_True: "(if c then Inr False else m) = Inr True \<longleftrightarrow> \<not> c \<and> m = Inr True"
  by simp

lemma operational_True:
  assumes "asset_is_operational asset currency mode = Inr True"
  shows "asset_status asset currency \<in> set (allowed_statuses mode)"
    "asset_policy_flag asset currency ''live_eligible'' False = Some True"
    "asset_policy_flag asset currency ''is_persisted'' False = Some True"
    "asset_policy_flag asset currency ''is_suspicious'' True = Some False"
    "asset_policy_flag asset currency ''expired'' True = Some False"
    "lower (py_text (asset_policy_value asset currency ''source_semantic'' (PStr []))) \<in> set (allowed_semantics mode)"
    "spread_ok asset currency = Inr True"
    "mode \<in> {''ordinary'', ''reference'', ''derived''}"
    "\<exists>d. py_int (asset_policy_value asset currency ''derivation_depth'' (PInt 0)) = Inr d
       \<and> (if mode = ''derived'' then 1 \<le> d else d = 0)"
proof -
  note r = assms[unfolded asset_is_operational_def refuse_True]
  then show "asset_status asset currency \<in> set (allowed_statuses mode)"
    "asset_policy_flag asset currency ''live_eligible'' False = Some True"
    "asset_policy_flag asset currency ''is_persisted'' False = Some True"
    "asset_policy_flag asset currency ''is_suspicious'' True = Some False"
    "asset_policy_flag asset currency ''expired'' True = Some False"
    "mode \<in> {''ordinary'', ''reference'', ''derived''}"
    by blast+
  let ?i = "py_int (asset_policy_value asset currency ''derivation_depth'' (PInt 0))"
  let ?ok = "\<lambda>d. lower (py_text (asset_policy_value asset currency ''source_semantic'' (PStr [])))
        \<in> set (allowed_semantics mode) \<and> (if mode = ''derived'' then d \<ge> 1 else d = 0)"
  have "ebind (caught ?i) (\<lambda>depth. case depth of None \<Rightarrow> Inr False | Some d \<Rightarrow>
      if \<not> ?ok d then Inr False else spread_ok asset currency) = Inr True"
    using r by blast
  then obtain depth where c: "caught ?i = Inr depth" "(case depth of None \<Rightarrow> Inr False | Some d \<Rightarrow>
      if \<not> ?ok d then Inr False else spread_ok asset currency) = Inr True"
    unfolding ebind_Inr by blast
  then obtain d where d: "depth = Some d"
    by (cases depth) auto
  have i: "?i = Inr d"
    using c(1) unfolding d caught_Inr .
  have o: "?ok d \<and> spread_ok asset currency = Inr True"
    using c(2) unfolding d option.case refuse_True not_not .
  show "lower (py_text (asset_policy_value asset currency ''source_semantic'' (PStr []))) \<in> set (allowed_semantics mode)"
    "spread_ok asset currency = Inr True"
    "\<exists>d. ?i = Inr d \<and> (if mode = ''derived'' then 1 \<le> d else d = 0)"
    using i o by (blast, blast, blast)
qed

lemma find_asset_Some: "find_asset assets aid = Inr (Some a) \<Longrightarrow> a \<in> set assets \<and> a ''asset'' = Some (PStr aid)"
  by (induction assets aid rule: find_asset.induct) (auto split: option.splits if_splits)

section \<open>Facts about triggering\<close>

text \<open>The times at which a row triggers over a sequence of rounds: whether the alert is recurring in the
  round, whether its condition is met, and the time.\<close>

primrec run_row :: "(bool \<times> bool \<times> instant) list \<Rightarrow> alert_row \<Rightarrow> instant list" where
  "run_row [] a = []"
| "run_row (i # ins) a =
     (if \<not> al_is_active a then []
      else let r = row_step (fst i) (fst (snd i)) (snd (snd i)) a
           in (if snd r = None then [] else [snd (snd i)]) @ run_row ins (fst r))"

lemma row_step_config [simp]:
  "al_max_notifications_per_day (fst (row_step recurring met now a)) = al_max_notifications_per_day a"
  "al_cooldown_seconds (fst (row_step recurring met now a)) = al_cooldown_seconds a"
  by (simp_all add: row_step_def new_day_def after_trigger_def Let_def)

lemma row_step_triggered:
  "al_triggered_at a \<noteq> None \<Longrightarrow> snd (row_step False met now a) = None
     \<and> al_triggered_at (fst (row_step False met now a)) = al_triggered_at a"
  by (simp add: row_step_def)

lemma run_row_triggered:
  "al_triggered_at a \<noteq> None \<Longrightarrow> \<forall>i\<in>set ins. \<not> fst i \<Longrightarrow> run_row ins a = []"
proof (induction ins arbitrary: a)
  case (Cons i ins)
  then show ?case
    using row_step_triggered[of a "fst (snd i)" "snd (snd i)"] by (auto simp: Let_def)
qed simp

lemma run_row_once: "\<forall>i\<in>set ins. \<not> fst i \<Longrightarrow> length (run_row ins a) \<le> 1"
proof (induction ins arbitrary: a)
  case (Cons i ins)
  let ?r = "row_step False (fst (snd i)) (snd (snd i)) a"
  show ?case
  proof (cases "snd ?r")
    case None
    then show ?thesis
      using Cons by (auto simp: Let_def)
  next
    case (Some a1)
    then have "al_triggered_at (fst ?r) \<noteq> None"
      by (auto simp: row_step_def after_trigger_def Let_def split: if_split_asm)
    then have "run_row ins (fst ?r) = []"
      using Cons.prems by (intro run_row_triggered) auto
    then show ?thesis
      using Cons.prems by (simp add: Let_def)
  qed
qed simp

text \<open>What a triggering round needs and leaves behind.\<close>

lemma row_step_Some:
  assumes "snd (row_step recurring met now a) = Some a1"
  shows "met" "a1 = new_day now a" "fst (row_step recurring met now a) = after_trigger recurring now a1"
    "al_notifications_today a1 < al_max_notifications_per_day a"
    "\<not> not_yet_eligible now a"
    "recurring \<Longrightarrow> \<not> al_last_condition_state a" "\<not> recurring \<Longrightarrow> al_triggered_at a = None"
proof -
  let ?a = "new_day now a"
  have m: "al_max_notifications_per_day ?a = al_max_notifications_per_day a"
    by (simp add: new_day_def)
  have g: "met \<and> \<not> (\<not> recurring \<and> al_triggered_at a \<noteq> None) \<and> \<not> (recurring \<and> al_last_condition_state a)
      \<and> \<not> not_yet_eligible now a \<and> \<not> al_notifications_today ?a \<ge> al_max_notifications_per_day ?a"
    using assms by (auto simp: row_step_def Let_def split: if_split_asm)
  then have "row_step recurring met now a = (after_trigger recurring now ?a, Some ?a)"
    by (auto simp: row_step_def Let_def)
  then show "met" "a1 = new_day now a" "fst (row_step recurring met now a) = after_trigger recurring now a1"
    "al_notifications_today a1 < al_max_notifications_per_day a" "\<not> not_yet_eligible now a"
    "recurring \<Longrightarrow> \<not> al_last_condition_state a" "\<not> recurring \<Longrightarrow> al_triggered_at a = None"
    using g m assms by auto
qed

lemma row_step_day:
  assumes "\<And>d. al_notification_day a = Some d \<Longrightarrow> d \<le> day_of now"
  shows "al_notification_day (fst (row_step recurring met now a)) = Some d \<Longrightarrow> d \<le> day_of now"
  using assms
  by (auto simp: row_step_def new_day_def after_trigger_def Let_def split: if_splits)

definition used_on :: "int \<Rightarrow> alert_row \<Rightarrow> int" where
  "used_on d a = (if al_notification_day a = Some d then al_notifications_today a else 0)"

lemma used_on_step:
  assumes "al_notification_day a = Some d \<Longrightarrow> d \<le> day_of now" "0 \<le> used_on d a" "day_of now \<le> d"
  shows "snd (row_step recurring met now a) = None \<Longrightarrow> used_on d (fst (row_step recurring met now a)) = used_on d a"
    and "snd (row_step recurring met now a) \<noteq> None \<Longrightarrow> used_on d (fst (row_step recurring met now a))
       = used_on d a + (if day_of now = d then 1 else 0)
      \<and> (day_of now = d \<longrightarrow> used_on d a < al_max_notifications_per_day a)"
  using assms
  by (auto simp: used_on_def row_step_def new_day_def after_trigger_def Let_def split: if_splits)

lemma run_row_later: "\<forall>i\<in>set ins. d < day_of (snd (snd i)) \<Longrightarrow> t \<in> set (run_row ins a) \<Longrightarrow> d < day_of t"
  by (induction ins arbitrary: a) (auto simp: Let_def split: if_splits)

lemma run_row_day_count:
  assumes "sorted (map (snd \<circ> snd) ins)"
    and "\<forall>i\<in>set ins. \<forall>e. al_notification_day a = Some e \<longrightarrow> e \<le> day_of (snd (snd i))"
    and "0 \<le> used_on d a"
  shows "int (length (filter (\<lambda>t. day_of t = d) (run_row ins a)))
    \<le> max 0 (al_max_notifications_per_day a - used_on d a)"
  using assms
proof (induction ins arbitrary: a)
  case (Cons i ins)
  obtain recurring met now where i: "i = (recurring, met, now)"
    by (cases i)
  let ?r = "row_step recurring met now a"
  have day: "e \<le> day_of now" if "al_notification_day a = Some e" for e
    using Cons.prems(2) that by (simp add: i)
  have later: "now \<le> snd (snd j)" if "j \<in> set ins" for j
    using Cons.prems(1) that by (auto simp: i)
  then have later_day: "day_of now \<le> day_of (snd (snd j))" if "j \<in> set ins" for j
    using that by (simp add: day_of_def zdiv_mono1)
  have next_day: "\<forall>j\<in>set ins. \<forall>e. al_notification_day (fst ?r) = Some e \<longrightarrow> e \<le> day_of (snd (snd j))"
    using row_step_day[of a now recurring met] day later_day by fastforce
  have sorted: "sorted (map (snd \<circ> snd) ins)"
    using Cons.prems(1) by (simp add: comp_def)
  show ?case
  proof (cases "al_is_active a \<and> day_of now \<le> d")
    case True
    note u = used_on_step[of a d now recurring met, OF day[of d] Cons.prems(3)]
    have "0 \<le> used_on d (fst ?r)"
      using u True Cons.prems(3) by (cases "snd ?r") auto
    note IH = Cons.IH[OF sorted next_day this]
    show ?thesis
      using IH u True by (cases "snd ?r") (auto simp: i Let_def)
  next
    case False
    then have "\<forall>j\<in>set ins. d < day_of (snd (snd j))" if "al_is_active a"
      using later_day that by fastforce
    then have "filter (\<lambda>t. day_of t = d) (run_row ins (fst ?r)) = []" if "al_is_active a"
      using run_row_later[of ins d] that by (fastforce simp: filter_empty_conv)
    then show ?thesis
      using False by (auto simp: i Let_def)
  qed
qed simp

lemma row_step_next:
  "snd (row_step True met now a) = None \<Longrightarrow>
     al_next_eligible_trigger_at (fst (row_step True met now a)) = al_next_eligible_trigger_at a"
  by (auto simp: row_step_def new_day_def Let_def split: if_split_asm)

lemma run_row_spacing:
  assumes "\<forall>i\<in>set ins. fst i" "0 \<le> al_cooldown_seconds a"
  shows "successively (\<lambda>t u. t + seconds (al_cooldown_seconds a) \<le> u) (run_row ins a)
    \<and> (\<forall>e. al_next_eligible_trigger_at a = Some e \<longrightarrow> (\<forall>t\<in>set (run_row ins a). e \<le> t))"
  using assms
proof (induction ins arbitrary: a)
  case (Cons i ins)
  obtain met now where i: "i = (True, met, now)"
    using Cons.prems(1) by (cases i) auto
  let ?r = "row_step True met now a"
  have IH: "successively (\<lambda>t u. t + seconds (al_cooldown_seconds a) \<le> u) (run_row ins (fst ?r))"
      "\<And>e t. al_next_eligible_trigger_at (fst ?r) = Some e \<Longrightarrow> t \<in> set (run_row ins (fst ?r)) \<Longrightarrow> e \<le> t"
    using Cons.IH[of "fst ?r"] Cons.prems by auto
  show ?case
  proof (cases "snd ?r")
    case None
    then show ?thesis
      using IH row_step_next[OF None] by (auto simp: i Let_def)
  next
    case (Some a1)
    note st = row_step_Some[OF Some]
    have e: "e \<le> now" if "al_next_eligible_trigger_at a = Some e" for e
      using st(5) that by (simp add: not_yet_eligible_def)
    have n: "al_next_eligible_trigger_at (fst ?r) = Some (now + seconds (al_cooldown_seconds a))"
      unfolding st(3) st(2) by (simp add: after_trigger_def new_day_def)
    have gap: "now + seconds (al_cooldown_seconds a) \<le> t" if "t \<in> set (run_row ins (fst ?r))" for t
      using IH(2)[OF n that] .
    have ge: "0 \<le> seconds (al_cooldown_seconds a)"
      using Cons.prems(2) by (simp add: seconds_def)
    have head: "e \<le> t" if "al_next_eligible_trigger_at a = Some e" "t \<in> set (run_row ins (fst ?r))" for e t
      using e[OF that(1)] gap[OF that(2)] ge by linarith
    have "successively (\<lambda>t u. t + seconds (al_cooldown_seconds a) \<le> u) (now # run_row ins (fst ?r))"
      using IH(1) gap by (cases "run_row ins (fst ?r)") auto
    then show ?thesis
      using Some e head by (auto simp: i Let_def)
  qed
qed simp

section \<open>Facts about failures\<close>

text \<open>Snapshots as the price feed builds them: every asset is named, no integer exceeds the range of floats
  and no float is infinite or not a number.\<close>

definition small_value :: "pyval \<Rightarrow> bool" where
  "small_value v = (case v of PInt n \<Rightarrow> \<bar>n\<bar> < 2 ^ 1023 | PFloat f \<Rightarrow> isfinite f | _ \<Rightarrow> True)"

definition snapshot_ok :: "dict list \<Rightarrow> bool" where
  "snapshot_ok assets \<longleftrightarrow> (\<forall>a\<in>set assets. a ''asset'' \<noteq> None \<and> (\<forall>v\<in>ran a. small_value v))"

lemma small_None: "small_value PNone"
  by (simp add: small_value_def)

lemma small_dict_get: "\<forall>v\<in>ran a. small_value v \<Longrightarrow> small_value d \<Longrightarrow> small_value (dict_get a k d)"
  by (auto simp: dict_get_def ran_def split: option.splits)

lemma small_policy_value:
  "\<forall>v\<in>ran a. small_value v \<Longrightarrow> small_value d \<Longrightarrow> small_value (asset_policy_value a cur k d)"
  by (simp add: asset_policy_value_def small_dict_get)

lemma py_int_caught: "small_value v \<Longrightarrow> \<exists>r. caught (py_int v) = Inr r"
  by (cases v rule: py_int.cases) (auto simp: caught_def small_value_def isfinite_def split: option.split)

lemma py_float_caught: "small_value v \<Longrightarrow> \<exists>r. caught (py_float v) = Inr r"
proof (cases v rule: py_float.cases)
  case (2 n)
  assume "small_value v"
  then obtain x where "f64 (of_int n) = Some x"
    using f64_large_int[of n] by (simp only: 2 small_value_def pyval.case) blast
  then show ?thesis
    by (simp add: 2 caught_def)
qed (auto simp: caught_def split: option.split pydec.split)

lemma spread_ok_total: "\<forall>v\<in>ran a. small_value v \<Longrightarrow> \<exists>b. spread_ok a cur = Inr b"
proof -
  assume a: "\<forall>v\<in>ran a. small_value v"
  have n: "small_value PNone"
    by (simp add: small_value_def)
  obtain r1 r2 where r: "caught (py_float (asset_policy_value a cur ''spread_bps'' PNone)) = Inr r1"
      "caught (py_float (asset_policy_value a cur ''maximum_spread_bps'' PNone)) = Inr r2"
    using py_float_caught small_policy_value[OF a n] by blast
  show ?thesis
    unfolding spread_ok_def Let_def r ebind_simps is_ok_iff[symmetric] by (cases r1; cases r2) simp_all
qed

lemma operational_total:
  assumes "\<forall>v\<in>ran a. small_value v"
  shows "\<exists>b. asset_is_operational a cur mode = Inr b"
proof -
  have "small_value (PInt 0)"
    by (simp add: small_value_def)
  then obtain r where r: "caught (py_int (asset_policy_value a cur ''derivation_depth'' (PInt 0))) = Inr r"
    using py_int_caught small_policy_value[OF assms] by blast
  obtain b where b: "spread_ok a cur = Inr b"
    using spread_ok_total[OF assms] by blast
  show ?thesis
    unfolding asset_is_operational_def r ebind_simps b is_ok_iff[symmetric] by (cases r) simp_all
qed

lemma finite_number_total:
  assumes "small_value v"
  shows "\<exists>r. finite_number v = Inr r" "finite_number v = Inr (Some x) \<Longrightarrow> \<exists>f. py_float v = Inr f"
proof -
  have i: "\<exists>x. f64 (of_int n) = Some x" if "v = PInt n" for n
    using assms f64_large_int[of n] by (simp only: that small_value_def pyval.case)
  show "\<exists>r. finite_number v = Inr r"
    using i by (cases v rule: finite_number.cases) fastforce+
  show "\<exists>f. py_float v = Inr f" if "finite_number v = Inr (Some x)"
    using i that by (cases v rule: finite_number.cases) fastforce+
qed

lemma asset_values_total:
  "\<forall>a\<in>set assets. \<forall>v\<in>ran a. small_value v \<Longrightarrow> \<exists>r. asset_values al assets vals = Inr r"
proof (induction assets arbitrary: vals)
  case (Cons a assets)
  let ?v = "dict_get a (if al_currency_mode al = ''usd'' then ''price_usd'' else ''price_toman'') PNone"
  have small: "\<forall>v\<in>ran a. small_value v" "small_value ?v"
    using Cons.prems by (simp_all add: small_dict_get small_None)
  obtain ok where ok: "asset_is_operational a (al_currency_mode al) (al_price_source_mode al) = Inr ok"
    using operational_total[OF small(1)] by blast
  obtain n where n: "finite_number ?v = Inr n"
    using finite_number_total(1)[OF small(2)] by blast
  have f: "\<exists>f. py_float ?v = Inr f" if "n = Some x" for x
    using finite_number_total(2)[OF small(2)] n that by blast
  have IH: "\<exists>r. asset_values al assets w = Inr r" for w
    using Cons by simp
  show ?case
  proof (cases n)
    case None
    show ?thesis
      unfolding asset_values.simps Let_def ok n ebind_simps None option.case using IH by simp
  next
    case (Some x)
    then obtain f where "py_float ?v = Inr f"
      using f by blast
    then show ?thesis
      unfolding asset_values.simps Let_def ok n ebind_simps Some option.case using IH by simp
  qed
qed simp

lemma find_asset_total: "\<forall>a\<in>set assets. a ''asset'' \<noteq> None \<Longrightarrow> \<exists>r. find_asset assets aid = Inr r"
  by (induction assets aid rule: find_asset.induct) auto

lemma should_trigger_total:
  assumes "\<forall>s t. parse s = Some t \<longrightarrow> wf_ast t" "snapshot_ok assets"
  shows "\<exists>b. should_trigger_model parse a assets = Inr b"
proof (cases "al_alert_type a = ''formula''")
  case True
  obtain vals where "asset_values a assets Map.empty = Inr vals"
    using asset_values_total[of assets a Map.empty] assms(2) by (auto simp: snapshot_ok_def)
  then obtain fv where fv: "formula_values a assets = Inr fv"
    by (simp add: formula_values_def Let_def)
  have "formula_outcome (evaluate_formula parse (or_text (al_formula a) []) fv)"
    using assms(1) by (rule evaluate_formula_outcome)
  then show ?thesis
    unfolding is_ok_iff[symmetric]
    by (auto simp: should_trigger_model_def True fv formula_outcome_def split: sum.splits py_error.splits)
next
  case False
  let ?k = "if al_currency_mode a = ''usd'' then ''price_usd'' else ''price_toman''"
  have "\<forall>x\<in>set assets. x ''asset'' \<noteq> None"
    using assms(2) by (simp add: snapshot_ok_def)
  then obtain found where f: "find_asset assets (alert_asset_id a) = Inr found"
    using find_asset_total by blast
  show ?thesis
  proof (cases found)
    case (Some asset)
    then have small: "\<forall>v\<in>ran asset. small_value v"
      using f find_asset_Some[of assets "alert_asset_id a" asset] assms(2) unfolding snapshot_ok_def by blast
    obtain ok where ok: "asset_is_operational asset (al_currency_mode a) (al_price_source_mode a) = Inr ok"
      using operational_total[OF small] by blast
    obtain n where n: "finite_number (dict_get asset ?k PNone) = Inr n"
      using finite_number_total(1) small_dict_get[OF small small_None] by blast
    show ?thesis
      unfolding should_trigger_model_def if_not_P[OF False] f ebind_simps Some option.case ok n is_ok_iff[symmetric]
      by simp
  next
    case None
    show ?thesis
      unfolding should_trigger_model_def if_not_P[OF False] f ebind_simps None option.case by blast
  qed
qed

lemma queue_trigger_total:
  assumes "snapshot_ok assets"
  shows "\<exists>db'. queue_trigger parse st assets now a db = Inr db'"
proof -
  have "\<forall>x\<in>set (relevant_assets parse a assets). x ''asset'' \<noteq> None"
    using assms by (auto simp: relevant_assets_def snapshot_ok_def)
  then obtain r where "find_asset (relevant_assets parse a assets) (alert_asset_id a) = Inr r"
    using find_asset_total by blast
  then show ?thesis
    by (simp add: queue_trigger_def current_price_def Let_def)
qed

lemma evaluate_rows_total:
  assumes "\<forall>s t. parse s = Some t \<longrightarrow> wf_ast t" "snapshot_ok assets"
  shows "\<exists>db'. evaluate_rows parse st assets now rows db = Inr db'"
proof (induction rows arbitrary: db)
  case (Cons a rows)
  obtain met where m: "should_trigger_model parse a assets = Inr met"
    using should_trigger_total[OF assms] by blast
  let ?r = "row_step (recurring_enabled a (db_prefs db (al_user_id a))) met now a"
  have "\<exists>db1. (case snd ?r of None \<Rightarrow> Inr db | Some a1 \<Rightarrow> queue_trigger parse st assets now a1 db) = Inr db1"
    using queue_trigger_total[OF assms(2)] by (cases "snd ?r") auto
  then obtain db1 where "(case snd ?r of None \<Rightarrow> Inr db | Some a1 \<Rightarrow> queue_trigger parse st assets now a1 db) = Inr db1"
    by blast
  then show ?case
    using Cons.IH by (simp add: evaluate_row_def m Let_def)
qed simp

lemma new_jobs_facts:
  "map jb_channel (new_jobs jid aid eid key now cs) = map fst cs"
  "j \<in> set (new_jobs jid aid eid key now cs) \<Longrightarrow> jb_status j = JPending \<and> jb_attempt_count j = 0
     \<and> jb_event_id j = eid \<and> jb_alert_id j = aid \<and> jb_key j = (key, jb_channel j) \<and> (jb_channel j, jb_destination j) \<in> set cs"
  by (induction cs arbitrary: jid) auto

lemma channels_distinct: "distinct (map fst (channels st a prefs push))"
  by (auto simp: channels_def Let_def)

section \<open>Properties\<close>

text \<open>A price alert is met only by a price that may be used: the snapshot has the alert's asset, its
  status is one the alert's source mode allows, the price is live, stored, not suspicious and not expired,
  its source and derivation depth fit the mode, its spread is within its maximum, and the finite price is
  at or beyond the target in the direction of the alert.\<close>

theorem price_alert_justified:
  assumes "should_trigger_model parse a assets = Inr True" "al_alert_type a \<noteq> ''formula''"
  shows "\<exists>asset x t. asset \<in> set assets \<and> asset ''asset'' = Some (PStr (alert_asset_id a))
    \<and> asset_status asset (al_currency_mode a) \<in> set (allowed_statuses (al_price_source_mode a))
    \<and> asset_policy_flag asset (al_currency_mode a) ''live_eligible'' False = Some True
    \<and> asset_policy_flag asset (al_currency_mode a) ''is_persisted'' False = Some True
    \<and> asset_policy_flag asset (al_currency_mode a) ''is_suspicious'' True = Some False
    \<and> asset_policy_flag asset (al_currency_mode a) ''expired'' True = Some False
    \<and> (\<exists>d. py_int (asset_policy_value asset (al_currency_mode a) ''derivation_depth'' (PInt 0)) = Inr d
         \<and> (if al_price_source_mode a = ''derived'' then 1 \<le> d else d = 0))
    \<and> spread_ok asset (al_currency_mode a) = Inr True
    \<and> al_target_price a = Some t
    \<and> finite_number (dict_get asset (if al_currency_mode a = ''usd'' then ''price_usd'' else ''price_toman'') PNone)
        = Inr (Some x)
    \<and> (al_condition a = ''above'' \<and> float_leq t (FFin x) \<or> al_condition a = ''below'' \<and> float_leq (FFin x) t)"
proof -
  let ?k = "if al_currency_mode a = ''usd'' then ''price_usd'' else ''price_toman''"
  let ?hit = "\<lambda>asset. ebind (finite_number (dict_get asset ?k PNone)) (\<lambda>price. Inr (price_reached a price))"
  let ?op = "\<lambda>asset. asset_is_operational asset (al_currency_mode a) (al_price_source_mode a)"
  obtain found where fd: "find_asset assets (alert_asset_id a) = Inr found"
      "(case found of None \<Rightarrow> Inr False | Some asset \<Rightarrow>
          ebind (?op asset) (\<lambda>ok. if \<not> ok then Inr False else ?hit asset)) = Inr True"
    using assms(1) unfolding should_trigger_model_def if_not_P[OF assms(2)] ebind_Inr[of "find_asset assets (alert_asset_id a)"]
    by blast
  then obtain asset where fa: "found = Some asset"
    by (cases found) auto
  then obtain ok where ok: "?op asset = Inr ok" "(if \<not> ok then Inr False else ?hit asset) = Inr True"
    using fd(2) unfolding fa option.case ebind_Inr[of "?op asset"] by blast
  then have rest: "?hit asset = Inr True" and "ok"
    unfolding refuse_True not_not by blast+
  then have f: "find_asset assets (alert_asset_id a) = Inr (Some asset)" "?op asset = Inr True"
    using fd(1) fa ok(1) by simp_all
  obtain price where p: "finite_number (dict_get asset ?k PNone) = Inr price" "price_reached a price"
    using rest by (auto simp: ebind_Inr)
  obtain x t where x: "price = Some x" "al_target_price a = Some t" and
      c: "al_condition a = ''above'' \<and> float_leq t (FFin x) \<or> al_condition a = ''below'' \<and> float_leq (FFin x) t"
    using p(2) by (auto simp: price_reached_def split: option.splits if_splits)
  show ?thesis
    using find_asset_Some[OF f(1)] operational_True[OF f(2)] p(1)[unfolded x(1)] x(2) c by blast
qed

text \<open>An alert that is not recurring triggers at most once: over any sequence of rounds in which
  neither its mode nor its owner's preference makes it recurring, whatever its condition does.\<close>

theorem one_time_alert_triggers_once:
  assumes "\<forall>i\<in>set ins. \<not> fst i"
  shows "length (run_row ins a) \<le> 1"
  using assms by (rule run_row_once)

text \<open>A one-time and a recurring alert on the price of bitcoin.\<close>

definition example_alert :: "string \<Rightarrow> alert_row" where
  "example_alert mode = \<lparr>al_id = 1, al_user_id = 2, al_asset = ''BTC'', al_target_price = Some (FFin 100),
     al_alert_type = ''price'', al_formula = None, al_currency_mode = ''usd'', al_price_source_mode = ''ordinary'',
     al_condition = ''above'', al_notify_app = True, al_notify_email = True, al_notify_webhook = False,
     al_webhook_url = None, al_enable_dlq = True, al_instrument_id = None, al_mode = mode,
     al_cooldown_seconds = 900, al_max_notifications_per_day = 10, al_notify_telegram = False,
     al_last_condition_state = False, al_next_eligible_trigger_at = None, al_notifications_today = 0,
     al_notification_day = None, al_is_active = True, al_triggered_at = None\<rparr>"

theorem one_time_alert_triggers_once_witness:
  "length (run_row [(False, True, 0), (False, False, 5), (False, True, 9)] (example_alert ''one_time'')) \<le> 1"
  by (rule one_time_alert_triggers_once) simp

text \<open>Claim C18. A recurring alert is rate limited: over any sequence of rounds in the order of time, two
  triggers are at least the cooldown apart, and on no day are there more triggers than the alert's daily
  maximum.\<close>

theorem recurring_alert_rate_limited:
  assumes "\<forall>i\<in>set ins. fst i" "0 \<le> al_cooldown_seconds a" "sorted (map (snd \<circ> snd) ins)"
    and "\<forall>i\<in>set ins. \<forall>e. al_notification_day a = Some e \<longrightarrow> e \<le> day_of (snd (snd i))"
    and "0 \<le> al_notifications_today a"
  shows "successively (\<lambda>t u. t + seconds (al_cooldown_seconds a) \<le> u) (run_row ins a)
    \<and> (\<forall>d. int (length (filter (\<lambda>t. day_of t = d) (run_row ins a))) \<le> max 0 (al_max_notifications_per_day a))"
proof -
  have "int (length (filter (\<lambda>t. day_of t = d) (run_row ins a))) \<le> max 0 (al_max_notifications_per_day a)" for d
  proof -
    have u: "0 \<le> used_on d a"
      using assms(5) by (simp add: used_on_def)
    from run_row_day_count[OF assms(3,4) u] show ?thesis
      using u by linarith
  qed
  then show ?thesis
    using run_row_spacing[OF assms(1,2)] by blast
qed

theorem recurring_alert_rate_limited_witness:
  "int (length (filter (\<lambda>t. day_of t = 0)
      (run_row [(True, True, 0), (True, False, 1000000), (True, True, 900000000)] (example_alert ''recurring'')))) \<le> 10"
proof -
  let ?ins = "[(True, True, 0), (True, False, 1000000), (True, True, 900000000)] :: (bool \<times> bool \<times> instant) list"
  have "\<forall>i\<in>set ?ins. fst i" "sorted (map (snd \<circ> snd) ?ins)"
    by simp_all
  then have "int (length (filter (\<lambda>t. day_of t = 0) (run_row ?ins (example_alert ''recurring''))))
      \<le> max 0 (al_max_notifications_per_day (example_alert ''recurring''))"
    using recurring_alert_rate_limited [of ?ins "example_alert ''recurring''"] by (simp add: example_alert_def)
  then show ?thesis
    by (simp add: example_alert_def)
qed

text \<open>What a round makes of one alert, with the row its event is made from, and the alerts a round evaluates.\<close>

definition round_step ::
  "(string \<rightharpoonup> ast_node) \<Rightarrow> dict list \<Rightarrow> instant \<Rightarrow> alert_db \<Rightarrow> alert_row \<Rightarrow> alert_row \<times> alert_row option" where
  "round_step parse assets now db a =
     row_step (recurring_enabled a (db_prefs db (al_user_id a))) (should_trigger_model parse a assets = Inr True) now a"

definition in_round :: "int set \<Rightarrow> alert_row \<Rightarrow> bool" where
  "in_round locked a \<longleftrightarrow> al_is_active a \<and> al_id a \<notin> locked"

lemma row_step_id: "al_id (fst (row_step rec met now a)) = al_id a"
  "snd (row_step rec met now a) = Some a1 \<Longrightarrow> al_id a1 = al_id a"
  by (auto simp: row_step_def new_day_def after_trigger_def Let_def split: if_splits)

lemma evaluate_row_result:
  assumes "\<forall>s t. parse s = Some t \<longrightarrow> wf_ast t" "snapshot_ok assets"
  shows "\<exists>db1 evs. evaluate_row parse st assets now a db = Inr db1 \<and> db_prefs db1 = db_prefs db
    \<and> db_alerts db1 = put_alert (fst (round_step parse assets now db a)) (db_alerts db)
    \<and> db_events db1 = db_events db @ evs
    \<and> map ev_alert_id evs = (if snd (round_step parse assets now db a) = None then [] else [al_id a])"
proof -
  obtain met where m: "should_trigger_model parse a assets = Inr met"
    using should_trigger_total[OF assms] by blast
  let ?r = "row_step (recurring_enabled a (db_prefs db (al_user_id a))) met now a"
  have r: "round_step parse assets now db a = ?r"
    by (simp add: round_step_def m)
  show ?thesis
  proof (cases "snd ?r")
    case None
    then show ?thesis
      by (simp add: evaluate_row_def m r Let_def)
  next
    case (Some a1)
    obtain db1 where q: "queue_trigger parse st assets now a1 db = Inr db1"
      using queue_trigger_total[OF assms(2)] by blast
    then have "\<exists>ev. db_prefs db1 = db_prefs db \<and> db_alerts db1 = db_alerts db \<and> db_events db1 = db_events db @ [ev]
        \<and> ev_alert_id ev = al_id a1"
      by (auto simp: queue_trigger_def Let_def err_simps)
    then show ?thesis
      using row_step_id(2)[OF Some] by (auto simp: evaluate_row_def m r Let_def Some q)
  qed
qed

lemma evaluate_rows_result:
  assumes "\<forall>s t. parse s = Some t \<longrightarrow> wf_ast t" "snapshot_ok assets"
  shows "\<exists>db' evs. evaluate_rows parse st assets now rows db = Inr db' \<and> db_prefs db' = db_prefs db
    \<and> db_alerts db' = fold (\<lambda>a. put_alert (fst (round_step parse assets now db a))) rows (db_alerts db)
    \<and> db_events db' = db_events db @ evs
    \<and> map ev_alert_id evs = map al_id (filter (\<lambda>a. snd (round_step parse assets now db a) \<noteq> None) rows)"
proof (induction rows arbitrary: db)
  case (Cons a rows)
  obtain db1 evs where 1: "evaluate_row parse st assets now a db = Inr db1" "db_prefs db1 = db_prefs db"
      "db_alerts db1 = put_alert (fst (round_step parse assets now db a)) (db_alerts db)"
      "db_events db1 = db_events db @ evs"
      "map ev_alert_id evs = (if snd (round_step parse assets now db a) = None then [] else [al_id a])"
    using evaluate_row_result[OF assms] by blast
  have "round_step parse assets now db1 = round_step parse assets now db"
    by (simp add: round_step_def 1(2) fun_eq_iff)
  with Cons.IH[of db1] 1 show ?case
    by auto
qed simp

lemma put_alerts_other:
  "\<forall>a\<in>set rows. al_id (g a) = al_id a \<Longrightarrow> al_id r \<notin> al_id ` set rows
     \<Longrightarrow> fold (\<lambda>a r. if al_id r = al_id (g a) then g a else r) rows r = r"
  by (induction rows) auto

lemma put_alerts_one:
  "\<forall>a\<in>set rows. al_id (g a) = al_id a \<Longrightarrow> distinct (map al_id rows) \<Longrightarrow> r \<in> set rows
     \<Longrightarrow> fold (\<lambda>a r. if al_id r = al_id (g a) then g a else r) rows r = g r"
proof (induction rows)
  case (Cons a rows)
  show ?case
  proof (cases "r = a")
    case True
    then show ?thesis
      using Cons.prems put_alerts_other[of rows g "g a"] by simp
  next
    case False
    then have "al_id r \<noteq> al_id a" "r \<in> set rows"
      using Cons.prems by (auto simp: image_iff)
    then show ?thesis
      using Cons by simp
  qed
qed simp

lemma put_alerts_map:
  "fold (\<lambda>a. put_alert (g a)) rows A = map (fold (\<lambda>a r. if al_id r = al_id (g a) then g a else r) rows) A"
  by (induction rows arbitrary: A) (simp_all add: put_alert_def comp_def)

text \<open>Each row of the table is stepped once if it was chosen, and left alone if not.\<close>

lemma put_alerts_filter:
  assumes "distinct (map al_id A)" "\<And>a. al_id (g a) = al_id a"
  shows "fold (\<lambda>a. put_alert (g a)) (filter P A) A = map (\<lambda>a. if P a then g a else a) A"
  unfolding put_alerts_map
proof (rule map_cong[OF HOL.refl])
  fix r
  assume r: "r \<in> set A"
  have d: "distinct (map al_id (filter P A))"
    using assms(1) by (simp add: distinct_map_filter)
  have "al_id r \<notin> al_id ` set (filter P A)" if "\<not> P r"
    using that r assms(1) by (auto simp: distinct_map dest: inj_onD)
  then show "fold (\<lambda>a r. if al_id r = al_id (g a) then g a else r) (filter P A) r = (if P r then g r else r)"
    using put_alerts_one[OF _ d, of g r] put_alerts_other[of "filter P A" g r] r assms(2) by auto
qed

text \<open>Claim C27. One bad alert cannot stop the others: on every snapshot the price feed can build, the condition of every
  alert has a value, and a round of evaluation ends without an exception for every set of alerts, so its transaction is
  committed. Then every alert that is active and not locked by another transaction has made exactly the step
  that its condition, its mode and the clock prescribe, every other row is as it was, and there is one new event for
  each alert that triggered, in the order of the table, and no other.\<close>

theorem evaluation_round_completes:
  assumes "\<forall>s t. parse s = Some t \<longrightarrow> wf_ast t" "snapshot_ok assets" "distinct (map al_id (db_alerts db))"
  shows "(\<forall>a. is_ok (should_trigger_model parse a assets))
    \<and> (\<exists>db' evs. evaluate_and_enqueue parse st assets now locked db = (Inr (), db')
         \<and> db_alerts db' = map (\<lambda>a. if in_round locked a then fst (round_step parse assets now db a) else a) (db_alerts db)
         \<and> db_events db' = db_events db @ evs
         \<and> map ev_alert_id evs
             = map al_id (filter (\<lambda>a. in_round locked a \<and> snd (round_step parse assets now db a) \<noteq> None) (db_alerts db)))"
proof -
  have ok: "\<forall>a. is_ok (should_trigger_model parse a assets)"
    using should_trigger_total[OF assms(1,2)] is_ok_iff by blast
  obtain db' evs where r: "evaluate_rows parse st assets now (filter (in_round locked) (db_alerts db)) db = Inr db'"
      "db_alerts db' = fold (\<lambda>a. put_alert (fst (round_step parse assets now db a))) (filter (in_round locked) (db_alerts db)) (db_alerts db)"
      "db_events db' = db_events db @ evs"
      "map ev_alert_id evs
        = map al_id (filter (\<lambda>a. snd (round_step parse assets now db a) \<noteq> None) (filter (in_round locked) (db_alerts db)))"
    using evaluate_rows_result[OF assms(1,2)] by blast
  have "al_id (fst (round_step parse assets now db a)) = al_id a" for a
    by (simp add: round_step_def row_step_id(1))
  from put_alerts_filter[OF assms(3) this, of "in_round locked"]
  have "db_alerts db' = map (\<lambda>a. if in_round locked a then fst (round_step parse assets now db a) else a) (db_alerts db)"
    using r(2) by simp
  moreover have "evaluate_and_enqueue parse st assets now locked db = (Inr (), db')"
    using r(1) by (simp add: evaluate_and_enqueue_def in_round_def[abs_def])
  ultimately show ?thesis
    using ok r(3,4) by (simp add: conj_commute)
qed

definition example_asset :: dict where
  "example_asset = [''asset'' \<mapsto> PStr ''BTC'', ''price_usd'' \<mapsto> PFloat (FFin 120), ''status'' \<mapsto> PStr ''live'',
     ''live_eligible'' \<mapsto> PBool True, ''is_persisted'' \<mapsto> PBool True, ''persistence_status'' \<mapsto> PStr ''persisted'',
     ''is_suspicious'' \<mapsto> PBool False, ''expired'' \<mapsto> PBool False, ''source_semantic'' \<mapsto> PStr ''aggregator'']"

definition example_db :: alert_db where
  "example_db = \<lparr>db_alerts = [example_alert ''one_time''], db_prefs = Map.empty, db_push_users = {2},
     db_events = [], db_jobs = [], db_notifications = [], db_next_event = 1, db_next_job = 1\<rparr>"

definition example_delivery :: delivery_settings where
  "example_delivery = \<lparr>ds_push_configured = True, ds_smtp_host = True, ds_telegram_configured = False\<rparr>"

lemma example_parse_wf: "\<forall>s t. example_parse s = Some t \<longrightarrow> wf_ast t"
  by (simp add: example_parse_def)

lemma small_upd:
  assumes "\<forall>x\<in>ran m. small_value x" "small_value v"
  shows "\<forall>x\<in>ran (m(k \<mapsto> v)). small_value x"
proof
  fix x
  assume "x \<in> ran (m(k \<mapsto> v))"
  then have "x = v \<or> x \<in> ran m"
    by (auto simp: ran_def split: if_splits)
  then show "small_value x"
    using assms by blast
qed

lemma example_snapshot_ok: "snapshot_ok [example_asset]"
proof -
  have "\<forall>v\<in>ran (Map.empty :: dict). small_value v"
    by simp
  then have "\<forall>v\<in>ran example_asset. small_value v"
    unfolding example_asset_def
    by (intro small_upd) (simp_all only: small_value_def isfinite_def pyval.case pyfloat.case simp_thms)
  moreover have "example_asset ''asset'' = Some (PStr ''BTC'')"
    by (simp add: example_asset_def)
  ultimately show ?thesis
    by (simp only: snapshot_ok_def list.set ball_simps) simp
qed

lemma example_triggers: "should_trigger_model example_parse (example_alert ''one_time'') [example_asset] = Inr True"
  by (simp add: should_trigger_model_def example_alert_def alert_asset_id_def example_asset_def
      asset_is_operational_def asset_status_def dict_get_def or_val_def allowed_statuses_def asset_policy_flag_def
      asset_policy_value_def caught_def allowed_semantics_def spread_ok_def lower_def lower_char_def price_reached_def)

text \<open>Of two alerts the first does not trigger, and the second does.\<close>

definition two_alerts :: alert_db where
  "two_alerts = example_db\<lparr>db_alerts := [(example_alert ''one_time'')\<lparr>al_condition := ''below''\<rparr>,
     (example_alert ''one_time'')\<lparr>al_id := 2\<rparr>]\<rparr>"

lemma two_trigger:
  "should_trigger_model example_parse ((example_alert ''one_time'')\<lparr>al_condition := ''below''\<rparr>) [example_asset] = Inr False"
  "should_trigger_model example_parse ((example_alert ''one_time'')\<lparr>al_id := 2\<rparr>) [example_asset] = Inr True"
  by (simp_all add: should_trigger_model_def example_alert_def alert_asset_id_def example_asset_def
      asset_is_operational_def asset_status_def dict_get_def or_val_def allowed_statuses_def asset_policy_flag_def
      asset_policy_value_def caught_def allowed_semantics_def spread_ok_def lower_def lower_char_def price_reached_def)

lemma two_steps:
  "round_step example_parse [example_asset] 0 two_alerts ((example_alert ''one_time'')\<lparr>al_condition := ''below''\<rparr>)
     = ((example_alert ''one_time'')\<lparr>al_condition := ''below''\<rparr>, None)"
  "\<exists>a b. round_step example_parse [example_asset] 0 two_alerts ((example_alert ''one_time'')\<lparr>al_id := 2\<rparr>) = (a, Some b)
     \<and> \<not> al_is_active a"
  by (simp_all add: round_step_def two_trigger two_alerts_def example_db_def recurring_enabled_def row_step_def
      not_yet_eligible_def new_day_def after_trigger_def Let_def) (simp_all add: example_alert_def)

theorem evaluation_round_completes_witness:
  "\<exists>db'. evaluate_and_enqueue example_parse example_delivery [example_asset] 0 {} two_alerts = (Inr (), db')
     \<and> map al_is_active (db_alerts db') = [True, False] \<and> map ev_alert_id (db_events db') = [2]"
proof -
  let ?one = "(example_alert ''one_time'')\<lparr>al_condition := ''below''\<rparr>" and ?two = "(example_alert ''one_time'')\<lparr>al_id := 2\<rparr>"
  have "distinct (map al_id (db_alerts two_alerts))"
    by (simp add: two_alerts_def example_alert_def)
  from evaluation_round_completes [OF example_parse_wf example_snapshot_ok this, of example_delivery 0 "{}"]
  obtain db' evs where r: "evaluate_and_enqueue example_parse example_delivery [example_asset] 0 {} two_alerts = (Inr (), db')"
      "db_alerts db' = map (\<lambda>a. if in_round {} a then fst (round_step example_parse [example_asset] 0 two_alerts a) else a)
         (db_alerts two_alerts)" "db_events db' = db_events two_alerts @ evs"
      "map ev_alert_id evs = map al_id (filter (\<lambda>a. in_round {} a
         \<and> snd (round_step example_parse [example_asset] 0 two_alerts a) \<noteq> None) (db_alerts two_alerts))"
    by blast
  have two: "db_alerts two_alerts = [?one, ?two]" "db_events two_alerts = []" "in_round {} ?one" "in_round {} ?two"
      "al_is_active ?one" "al_id ?two = 2"
    by (simp_all add: two_alerts_def example_db_def in_round_def example_alert_def)
  show ?thesis
    using r two_steps unfolding two(1,2) by (auto simp del: alert_row.update_convs simp add: two(3-6))
qed

theorem price_alert_justified_witness:
  "\<exists>asset. asset \<in> set [example_asset] \<and> asset_policy_flag asset ''usd'' ''expired'' True = Some False"
proof -
  have t: "al_alert_type (example_alert ''one_time'') \<noteq> ''formula''"
    by (simp add: example_alert_def)
  from price_alert_justified [OF example_triggers t] show ?thesis
    by (auto simp: example_alert_def)
qed

definition consented :: "delivery_settings \<Rightarrow> alert_row \<Rightarrow> alert_db \<Rightarrow> string \<Rightarrow> bool" where
  "consented st a db c \<longleftrightarrow>
     (let prefs = db_prefs db (al_user_id a) in
      c = ''push'' \<and> al_notify_app a \<and> push_is_enabled prefs \<and> al_user_id a \<in> db_push_users db \<and> ds_push_configured st
      \<or> c = ''email'' \<and> al_notify_email a \<and> ds_smtp_host st \<and> email_destination prefs \<noteq> None
      \<or> c = ''webhook'' \<and> al_notify_webhook a \<and> or_text (al_webhook_url a) [] \<noteq> []
      \<or> c = ''telegram'' \<and> al_notify_telegram a \<and> ds_telegram_configured st \<and> telegram_destination prefs \<noteq> None)"

lemma channels_consented:
  "x \<in> set (channels st a (db_prefs db (al_user_id a)) (al_user_id a \<in> db_push_users db)) \<Longrightarrow> consented st a db (fst x)"
  by (auto simp: channels_def consented_def Let_def split: if_splits)

text \<open>A trigger is delivered only where its owner wants it: the jobs of a trigger are new and pending, at
  most one for each channel, and every job's channel is switched on in the alert, configured for the service and,
  for email and Telegram, has a verified destination; the event is queued exactly when it has a job, and otherwise
  delivered in the application or left without a channel.\<close>

theorem trigger_queues_consented_channels:
  assumes "queue_trigger parse st assets now a db = Inr db'"
  shows "\<exists>js ev. db_jobs db' = db_jobs db @ js \<and> db_events db' = db_events db @ [ev]
    \<and> ev_id ev = db_next_event db \<and> distinct (map jb_channel js)
    \<and> (\<forall>j\<in>set js. jb_status j = JPending \<and> jb_attempt_count j = 0 \<and> jb_event_id j = ev_id ev
         \<and> jb_key j = (ev_key ev, jb_channel j) \<and> consented st a db (jb_channel j))
    \<and> ev_status ev = (if js \<noteq> [] then ''queued''
        else if al_notify_app a \<and> push_is_enabled (db_prefs db (al_user_id a)) then ''delivered''
        else ''no_delivery_channel'')"
proof -
  let ?prefs = "db_prefs db (al_user_id a)"
  let ?chans = "channels st a ?prefs (al_user_id a \<in> db_push_users db)"
  let ?key = "EventKey (al_id a) now (al_notifications_today a)"
  let ?js = "new_jobs (db_next_job db) (al_id a) (db_next_event db) ?key now ?chans"
  obtain ev where ev: "db_jobs db' = db_jobs db @ ?js" "db_events db' = db_events db @ [ev]"
      "ev_id ev = db_next_event db" "ev_key ev = ?key"
      "ev_status ev = (if ?chans \<noteq> [] then ''queued'' else if al_notify_app a \<and> push_is_enabled ?prefs
            then ''delivered'' else ''no_delivery_channel'')"
    using assms by (auto simp: queue_trigger_def Let_def err_simps)
  have d: "distinct (map jb_channel ?js)"
    by (simp add: new_jobs_facts(1) channels_distinct)
  have e: "?js \<noteq> [] \<longleftrightarrow> ?chans \<noteq> []"
    by (cases ?chans) auto
  have j: "jb_status j = JPending \<and> jb_attempt_count j = 0 \<and> jb_event_id j = ev_id ev
      \<and> jb_key j = (ev_key ev, jb_channel j) \<and> consented st a db (jb_channel j)" if "j \<in> set ?js" for j
    using new_jobs_facts(2)[OF that] channels_consented[of "(jb_channel j, jb_destination j)" st a db] ev(3,4) by auto
  have st: "ev_status ev = (if ?js \<noteq> [] then ''queued'' else if al_notify_app a \<and> push_is_enabled ?prefs
      then ''delivered'' else ''no_delivery_channel'')"
    using ev(5) e by simp
  show ?thesis
    by (rule exI[of _ ?js], rule exI[of _ ev]) (intro conjI ballI ev(1,2,3) d j st)
qed

theorem trigger_queues_consented_channels_witness:
  "\<exists>db' js. queue_trigger example_parse example_delivery [example_asset] 0 (example_alert ''one_time'') example_db = Inr db'
     \<and> db_jobs db' = js \<and> distinct (map jb_channel js)"
proof -
  obtain db' where q: "queue_trigger example_parse example_delivery [example_asset] 0 (example_alert ''one_time'') example_db
      = Inr db'"
    using queue_trigger_total[OF example_snapshot_ok] by blast
  from trigger_queues_consented_channels [OF q] q show ?thesis
    by (auto simp: example_db_def)
qed

definition dollar_alert :: alert_row where
  "dollar_alert = (example_alert ''one_time'')\<lparr>al_alert_type := ''formula'', al_formula := Some ''dollar > 1'',
     al_asset := ''formula'', al_target_price := None\<rparr>"

text \<open>The stored snapshot of a triggered formula can lack the asset the formula read: the name dollar is an
  alias of the asset usd when a formula is evaluated, but not when the snapshot is trimmed to the assets the
  alert refers to, so an alert on dollar > 1 can trigger with no asset in its snapshot.\<close>

theorem dollar_asset_missing_from_snapshot:
  assumes "parse ''dollar > 1'' = Some (Compare (Name ''dollar'') [Gt] [Constant (CInt 1)])"
  shows "should_trigger_model parse dollar_alert [example_asset(''asset'' \<mapsto> PStr ''usd'')] = Inr True
    \<and> relevant_assets parse dollar_alert [example_asset(''asset'' \<mapsto> PStr ''usd'')] = []"
proof -
  let ?asset = "example_asset(''asset'' \<mapsto> PStr ''usd'')"
  have fields: "al_alert_type dollar_alert = ''formula''" "al_formula dollar_alert = Some ''dollar > 1''"
    by (simp_all add: dollar_alert_def)
  have parsed: "parse_formula parse ''dollar > 1'' = Inr (Compare (Name ''dollar'') [Gt] [Constant (CInt 1)])"
    using assms by (simp add: parse_formula_def strip_def is_space_def MAX_FORMULA_NODES_def allowed_node_def
        formula_name_def lower_def lower_char_def)
  have "asset_is_operational ?asset ''usd'' ''ordinary'' = Inr True"
    by (simp add: example_asset_def asset_is_operational_def asset_status_def dict_get_def or_val_def
        allowed_statuses_def asset_policy_flag_def asset_policy_value_def caught_def allowed_semantics_def
        spread_ok_def lower_def lower_char_def)
  then obtain vals where v: "formula_values dollar_alert [?asset] = Inr vals" "vals ''dollar'' = Some (FFin 120)"
    by (simp add: formula_values_def dollar_alert_def example_alert_def dict_get_def lower_def lower_char_def Let_def
        source_name_def strip_underscores_def) (simp add: example_asset_def)
  have "evaluate_formula parse ''dollar > 1'' vals = Inr True"
    using parsed v(2) by (simp add: evaluate_formula_def lower_def lower_char_def isfinite_def f64_int[of 1, simplified])
  then have "should_trigger_model parse dollar_alert [?asset] = Inr True"
    using v(1) fields by (simp add: should_trigger_model_def)
  moreover have "wanted_names parse dollar_alert = [''formula'', ''dollar'']"
    using parsed by (simp add: wanted_names_def dollar_alert_def example_alert_def formula_names_def lower_def lower_char_def)
  then have "relevant_assets parse dollar_alert [?asset] = []"
    by (simp add: relevant_assets_def dict_get_def lower_def lower_char_def starts_with_def Let_def)
  ultimately show ?thesis
    by blast
qed

theorem dollar_asset_missing_from_snapshot_witness:
  "\<exists>parse. relevant_assets parse dollar_alert [example_asset(''asset'' \<mapsto> PStr ''usd'')] = []"
  by (rule exI, rule conjunct2, rule dollar_asset_missing_from_snapshot [OF fun_upd_same])

end
