(* ===== verification/Delivery.thy ===== *)
theory Delivery
  imports Alerts
begin

text \<open>
  Model of \<open>apps/api/app/services/dlq_worker.py\<close>, of \<open>deliver_job\<close> in
  \<open>apps/api/app/services/alert_engine.py\<close> and of the administrator's retry and cancellation in
  \<open>apps/api/app/admin/routers/health_jobs.py\<close>: the life of a delivery job.

  \<^item> Every operation is one database transaction and an atomic function on the database. Sending is
    between two transactions, so workers, crashes, time-outs and administrators interleave in the step
    relation \<open>delivery_step\<close>; its log records every send.
  \<^item> Whether a channel accepts a message, and whether its refusal is permanent, is free.
  \<^item> Rows that another transaction has locked are an argument of claiming, as is the random part of a
    delay. The reflection of the table in the administrator's requests is left out.
\<close>

section \<open>Operations\<close>

record worker_settings =
  ws_max_attempts :: int
  ws_backoff_base_seconds :: int
  ws_backoff_max_seconds :: int

definition find_job :: "delivery_job list \<Rightarrow> int \<Rightarrow> delivery_job option" where
  "find_job jobs n = find (\<lambda>j. jb_id j = n) jobs"

definition update_job :: "int \<Rightarrow> (delivery_job \<Rightarrow> delivery_job) \<Rightarrow> alert_db \<Rightarrow> alert_db" where
  "update_job n f db = db\<lparr>db_jobs := map (\<lambda>j. if jb_id j = n then f j else j) (db_jobs db)\<rparr>"

definition set_event_status :: "int \<Rightarrow> string \<Rightarrow> alert_db \<Rightarrow> alert_db" where
  "set_event_status n st db = db\<lparr>db_events := map (\<lambda>e. if ev_id e = n then e\<lparr>ev_status := st\<rparr> else e) (db_events db)\<rparr>"

text \<open>\<open>_claim_jobs\<close>: jobs left behind for five minutes are taken back, then the oldest due jobs are claimed.\<close>

definition reclaim :: "instant \<Rightarrow> delivery_job \<Rightarrow> delivery_job" where
  "reclaim now j =
     (if jb_status j \<in> {JProcessing, JSending} \<and> jb_updated_at j < now - seconds 300
      then j\<lparr>jb_status := JRetrying, jb_next_retry_at := Some now, jb_updated_at := now\<rparr> else j)"

definition due :: "instant \<Rightarrow> delivery_job \<Rightarrow> bool" where
  "due now j \<longleftrightarrow> jb_status j \<in> {JPending, JRetrying}
     \<and> (case jb_next_retry_at j of None \<Rightarrow> True | Some t \<Rightarrow> t \<le> now)"

definition claim_job :: "instant \<Rightarrow> delivery_job \<Rightarrow> delivery_job" where
  "claim_job now j = j\<lparr>jb_status := JProcessing, jb_attempt_count := jb_attempt_count j + 1, jb_updated_at := now\<rparr>"

definition claim_jobs :: "nat \<Rightarrow> int set \<Rightarrow> instant \<Rightarrow> alert_db \<Rightarrow> (int \<times> int) list \<times> alert_db" where
  "claim_jobs limit locked now db =
     (let jobs = map (reclaim now) (db_jobs db);
          chosen = take limit (sort_key jb_created_at (filter (\<lambda>j. due now j \<and> jb_id j \<notin> locked) jobs));
          ids = set (map jb_id chosen)
      in (map (\<lambda>j. (jb_id j, jb_attempt_count j + 1)) chosen,
          db\<lparr>db_jobs := map (\<lambda>j. if jb_id j \<in> ids then claim_job now j else j) jobs\<rparr>))"

datatype begin_result = NoJob | Skipped | NoContext | Send string

text \<open>The first transaction of \<open>deliver_job\<close>.\<close>

definition begin_delivery :: "int \<Rightarrow> int option \<Rightarrow> instant \<Rightarrow> alert_db \<Rightarrow> begin_result \<times> alert_db" where
  "begin_delivery n expected now db =
     (case find_job (db_jobs db) n of
        None \<Rightarrow> (NoJob, db)
      | Some j \<Rightarrow>
          if jb_status j \<noteq> JProcessing \<or> (expected \<noteq> None \<and> expected \<noteq> Some (jb_attempt_count j)) then (Skipped, db)
          else if \<not> list_ex (\<lambda>e. ev_id e = jb_event_id j) (db_events db)
                  \<or> \<not> list_ex (\<lambda>a. al_id a = jb_alert_id j) (db_alerts db) then (NoContext, db)
          else (Send (jb_channel j), update_job n (\<lambda>j. j\<lparr>jb_status := JSending, jb_updated_at := now\<rparr>) db))"

definition stale_token :: "delivery_job \<Rightarrow> int option \<Rightarrow> bool" where
  "stale_token j attempt \<longleftrightarrow> attempt \<noteq> None \<and> attempt \<noteq> Some (jb_attempt_count j)"

definition mark_delivered :: "int \<Rightarrow> int option \<Rightarrow> instant \<Rightarrow> alert_db \<Rightarrow> alert_db" where
  "mark_delivered n attempt now db =
     (case find_job (db_jobs db) n of
        None \<Rightarrow> db
      | Some j \<Rightarrow>
          if jb_status j \<noteq> JSending \<or> stale_token j attempt then db
          else
            let db1 = update_job n (\<lambda>j. j\<lparr>jb_status := JDelivered, jb_last_error := None,
                        jb_delivered_at := Some now, jb_updated_at := now\<rparr>) db;
                remaining = filter (\<lambda>k. jb_event_id k = jb_event_id j \<and> jb_status k \<notin> {JDelivered, JCancelled}) (db_jobs db1)
            in if remaining = [] then set_event_status (jb_event_id j) ''delivered'' db1 else db1)"

definition retry_delay_seconds :: "worker_settings \<Rightarrow> int \<Rightarrow> int" where
  "retry_delay_seconds ws attempts =
     min (ws_backoff_max_seconds ws) (ws_backoff_base_seconds ws * 2 ^ nat (max 0 (attempts - 1)))"

definition failed_job :: "worker_settings \<Rightarrow> bool \<Rightarrow> bool \<Rightarrow> int \<Rightarrow> string \<Rightarrow> instant \<Rightarrow> delivery_job \<Rightarrow> delivery_job" where
  "failed_job ws retry_enabled permanent jitter err now j =
     (let j1 = j\<lparr>jb_last_error := Some err, jb_updated_at := now\<rparr> in
      if permanent then j1\<lparr>jb_status := JDead, jb_dead_at := Some now\<rparr>
      else if \<not> retry_enabled then j1\<lparr>jb_status := JFailed\<rparr>
      else if jb_attempt_count j \<ge> ws_max_attempts ws then j1\<lparr>jb_status := JDead, jb_dead_at := Some now\<rparr>
      else j1\<lparr>jb_status := JRetrying,
             jb_next_retry_at := Some (now + seconds (retry_delay_seconds ws (jb_attempt_count j) + jitter))\<rparr>)"

definition mark_failed ::
  "worker_settings \<Rightarrow> int \<Rightarrow> bool \<Rightarrow> string \<Rightarrow> int option \<Rightarrow> int \<Rightarrow> instant \<Rightarrow> alert_db \<Rightarrow> alert_db" where
  "mark_failed ws n permanent err attempt jitter now db =
     (case find_job (db_jobs db) n of
        None \<Rightarrow> db
      | Some j \<Rightarrow>
          if jb_status j \<notin> {JProcessing, JSending} \<or> stale_token j attempt then db
          else
            let retry_enabled = (case find (\<lambda>a. al_id a = jb_alert_id j) (db_alerts db) of
                   None \<Rightarrow> False | Some a \<Rightarrow> al_enable_dlq a)
            in set_event_status (jb_event_id j) ''delivery_failed''
                 (update_job n (failed_job ws retry_enabled permanent jitter err now) db))"

text \<open>One job of a worker's round: deliver, then record the outcome. \<open>takes\<close> says whether the channel
  took the message, or whether its refusal is permanent.\<close>

definition process_job ::
  "worker_settings \<Rightarrow> (string \<Rightarrow> bool + unit) \<Rightarrow> int \<Rightarrow> int option \<Rightarrow> int \<Rightarrow> instant \<Rightarrow> alert_db \<Rightarrow> alert_db" where
  "process_job ws takes n attempt jitter now db =
     (let r = begin_delivery n attempt now db; err = '': delivery attempt failed'' in
      case fst r of
        Skipped \<Rightarrow> snd r
      | NoJob \<Rightarrow> mark_failed ws n True (''PermanentDeliveryError'' @ err) attempt jitter now (snd r)
      | NoContext \<Rightarrow> mark_failed ws n True (''PermanentDeliveryError'' @ err) attempt jitter now (snd r)
      | Send c \<Rightarrow> (case takes c of
          Inr _ \<Rightarrow> mark_delivered n attempt now (snd r)
        | Inl permanent \<Rightarrow> mark_failed ws n permanent
            ((if permanent then ''PermanentDeliveryError'' else ''RuntimeError'') @ err) attempt jitter now (snd r)))"

text \<open>The administrator's requests: the status code of a refusal or the new database.\<close>

definition retry_delivery_job :: "int \<Rightarrow> instant \<Rightarrow> alert_db \<Rightarrow> nat + alert_db" where
  "retry_delivery_job n now db =
     (case find_job (db_jobs db) n of
        None \<Rightarrow> Inl 404
      | Some j \<Rightarrow>
          if jb_status j \<notin> {JFailed, JDead, JRetrying} then Inl 409
          else Inr (update_job n (\<lambda>j. j\<lparr>jb_status := JPending, jb_next_retry_at := Some now, jb_last_error := None\<rparr>) db))"

definition cancel_delivery_job :: "int \<Rightarrow> alert_db \<Rightarrow> nat + alert_db" where
  "cancel_delivery_job n db =
     (case find_job (db_jobs db) n of
        None \<Rightarrow> Inl 404
      | Some j \<Rightarrow>
          if jb_status j \<notin> {JPending, JRetrying, JProcessing, JFailed, JDead} then Inl 409
          else Inr (update_job n (\<lambda>j. j\<lparr>jb_status := JCancelled\<rparr>) db))"

section \<open>Interleaving\<close>

text \<open>The database, the tokens workers hold (job and attempt; true while a message is being sent) and the
  log of sends.\<close>

record delivery_state =
  dl_db :: alert_db
  dl_tokens :: "((int \<times> int) \<times> bool) set"
  dl_log :: "(int \<times> int) list"

inductive delivery_step :: "worker_settings \<Rightarrow> delivery_state \<Rightarrow> delivery_state \<Rightarrow> bool" for ws where
  claim: "claim_jobs limit locked now (dl_db s) = (claims, db')
    \<Longrightarrow> delivery_step ws s (s\<lparr>dl_db := db', dl_tokens := dl_tokens s \<union> (\<lambda>c. (c, False)) ` set claims\<rparr>)"
| begin_send: "((n, k), False) \<in> dl_tokens s \<Longrightarrow> begin_delivery n (Some k) now (dl_db s) = (Send c, db')
    \<Longrightarrow> delivery_step ws s (s\<lparr>dl_db := db', dl_tokens := dl_tokens s - {((n, k), False)} \<union> {((n, k), True)},
          dl_log := (n, k) # dl_log s\<rparr>)"
| begin_skip: "((n, k), False) \<in> dl_tokens s \<Longrightarrow> begin_delivery n (Some k) now (dl_db s) = (Skipped, db')
    \<Longrightarrow> delivery_step ws s (s\<lparr>dl_db := db', dl_tokens := dl_tokens s - {((n, k), False)}\<rparr>)"
| begin_error: "((n, k), False) \<in> dl_tokens s \<Longrightarrow> begin_delivery n (Some k) now (dl_db s) = (r, db')
    \<Longrightarrow> r \<in> {NoJob, NoContext}
    \<Longrightarrow> delivery_step ws s (s\<lparr>dl_db := mark_failed ws n True err (Some k) jitter now db',
          dl_tokens := dl_tokens s - {((n, k), False)}\<rparr>)"
| accepted: "((n, k), True) \<in> dl_tokens s
    \<Longrightarrow> delivery_step ws s (s\<lparr>dl_db := mark_delivered n (Some k) now (dl_db s), dl_tokens := dl_tokens s - {((n, k), True)}\<rparr>)"
| refused: "((n, k), True) \<in> dl_tokens s
    \<Longrightarrow> delivery_step ws s (s\<lparr>dl_db := mark_failed ws n permanent err (Some k) jitter now (dl_db s),
          dl_tokens := dl_tokens s - {((n, k), True)}\<rparr>)"
| crash: "delivery_step ws s (s\<lparr>dl_tokens := dl_tokens s - T\<rparr>)"
| retry: "retry_delivery_job n now (dl_db s) = Inr db' \<Longrightarrow> delivery_step ws s (s\<lparr>dl_db := db'\<rparr>)"
| cancel: "cancel_delivery_job n (dl_db s) = Inr db' \<Longrightarrow> delivery_step ws s (s\<lparr>dl_db := db'\<rparr>)"
| trigger: "queue_trigger parse st assets now a (dl_db s) = Inr db' \<Longrightarrow> delivery_step ws s (s\<lparr>dl_db := db'\<rparr>)"

inductive delivery_reach :: "worker_settings \<Rightarrow> delivery_state \<Rightarrow> delivery_state \<Rightarrow> bool" for ws where
  refl: "delivery_reach ws s s"
| step: "delivery_reach ws s t \<Longrightarrow> delivery_step ws t u \<Longrightarrow> delivery_reach ws s u"

section \<open>How a job moves\<close>

text \<open>Every operation moves every job in one of two ways: a claim, which starts the next attempt of a job that is
  neither delivered nor cancelled, or a change within the attempt, which cannot lead back to processing and
  leaves delivered and cancelled jobs as they are.\<close>

definition settled :: "job_status \<Rightarrow> bool" where
  "settled st \<longleftrightarrow> st \<in> {JDelivered, JCancelled}"

definition job_move :: "delivery_job \<Rightarrow> delivery_job \<Rightarrow> bool" where
  "job_move j j' \<longleftrightarrow> jb_id j' = jb_id j \<and> jb_event_id j' = jb_event_id j
     \<and> (jb_attempt_count j' = jb_attempt_count j + 1 \<and> jb_status j' = JProcessing \<and> \<not> settled (jb_status j)
        \<or> jb_attempt_count j' = jb_attempt_count j \<and> (jb_status j' = JProcessing \<longrightarrow> jb_status j = JProcessing)
           \<and> (settled (jb_status j) \<longrightarrow> jb_status j' = jb_status j))"

lemma job_move_refl [simp]: "job_move j j"
  by (simp add: job_move_def)

definition moves :: "alert_db \<Rightarrow> alert_db \<Rightarrow> bool" where
  "moves db db' \<longleftrightarrow> (\<exists>g. db_jobs db' = map g (db_jobs db) \<and> (\<forall>j\<in>set (db_jobs db). job_move j (g j)))
     \<and> db_next_job db' = db_next_job db \<and> db_next_event db' = db_next_event db
     \<and> map ev_id (db_events db') = map ev_id (db_events db)"

definition ids_inv :: "alert_db \<Rightarrow> bool" where
  "ids_inv db \<longleftrightarrow> distinct (map jb_id (db_jobs db)) \<and> (\<forall>j\<in>set (db_jobs db). jb_id j < db_next_job db)
     \<and> (\<forall>e\<in>set (db_events db). ev_id e < db_next_event db)
     \<and> (\<forall>j\<in>set (db_jobs db). jb_event_id j < db_next_event db)"

definition event_settled :: "alert_db \<Rightarrow> int \<Rightarrow> bool" where
  "event_settled db n \<longleftrightarrow> (\<forall>j\<in>set (db_jobs db). jb_event_id j = n \<longrightarrow> settled (jb_status j))"

definition events_inv :: "alert_db \<Rightarrow> bool" where
  "events_inv db \<longleftrightarrow> (\<forall>e\<in>set (db_events db). ev_status e = ''delivered'' \<longrightarrow> event_settled db (ev_id e))"

definition log_inv :: "alert_db \<Rightarrow> (int \<times> int) list \<Rightarrow> bool" where
  "log_inv db sent \<longleftrightarrow> distinct sent \<and> (\<forall>(n, k)\<in>set sent. \<exists>j\<in>set (db_jobs db). jb_id j = n
     \<and> (k < jb_attempt_count j \<or> k = jb_attempt_count j \<and> jb_status j \<noteq> JProcessing))"

lemma find_job_Some: "find_job jobs n = Some j \<Longrightarrow> j \<in> set jobs \<and> jb_id j = n"
  by (auto simp: find_job_def find_Some_iff)

lemma find_job_unique:
  assumes "find_job jobs n = Some j" "distinct (map jb_id jobs)" "k \<in> set jobs" "jb_id k = n"
  shows "k = j"
  using assms find_job_Some[OF assms(1)] by (auto simp: distinct_map inj_on_def)

lemma update_job_moves:
  assumes "find_job (db_jobs db) n = Some j" "ids_inv db" "job_move j (f j)"
  shows "moves db (update_job n f db)"
  unfolding moves_def
proof (intro conjI exI[of _ "\<lambda>j. if jb_id j = n then f j else j"] ballI)
  fix k
  assume "k \<in> set (db_jobs db)"
  then show "job_move k (if jb_id k = n then f k else k)"
    using find_job_unique[OF assms(1), of k] assms(2,3) by (auto simp: ids_inv_def)
qed (simp_all add: update_job_def)

lemma moves_refl [simp]: "moves db db"
  unfolding moves_def by (intro conjI exI[of _ id]) auto

lemma set_event_status_fields [simp]:
  "db_jobs (set_event_status n st db) = db_jobs db"
  "db_next_job (set_event_status n st db) = db_next_job db"
  "db_next_event (set_event_status n st db) = db_next_event db"
  "map ev_id (db_events (set_event_status n st db)) = map ev_id (db_events db)"
  by (simp_all add: set_event_status_def)

lemma update_job_fields [simp]:
  "db_events (update_job n f db) = db_events db"
  "db_next_job (update_job n f db) = db_next_job db"
  "db_next_event (update_job n f db) = db_next_event db"
  by (simp_all add: update_job_def)

lemma set_event_status_moves: "moves db db' \<Longrightarrow> moves db (set_event_status n st db')"
  unfolding moves_def set_event_status_fields .

lemma moves_ids:
  assumes "moves db db'" "ids_inv db"
  shows "ids_inv db'"
proof -
  obtain g where g: "db_jobs db' = map g (db_jobs db)" "\<forall>j\<in>set (db_jobs db). job_move j (g j)"
    using assms(1) by (auto simp: moves_def)
  have "map jb_id (db_jobs db') = map jb_id (db_jobs db)"
    using g by (auto simp: job_move_def)
  moreover have ev: "\<exists>e\<in>set (db_events db). ev_id e = ev_id e'" if "e' \<in> set (db_events db')" for e'
  proof -
    have "ev_id ` set (db_events db') = ev_id ` set (db_events db)"
      using assms(1) unfolding moves_def by (metis list.set_map)
    then show ?thesis
      using that by (metis imageE imageI)
  qed
  moreover have jobs: "\<exists>j\<in>set (db_jobs db). jb_id j = jb_id j' \<and> jb_event_id j = jb_event_id j'"
    if "j' \<in> set (db_jobs db')" for j'
    using g that by (auto simp: job_move_def)
  moreover have "db_next_job db' = db_next_job db" "db_next_event db' = db_next_event db"
    using assms(1) unfolding moves_def by blast+
  ultimately show ?thesis
    using assms(2) unfolding ids_inv_def by metis
qed

lemma moves_log:
  assumes "moves db db'" "log_inv db sent"
  shows "log_inv db' sent"
proof -
  obtain g where g: "db_jobs db' = map g (db_jobs db)" "\<forall>j\<in>set (db_jobs db). job_move j (g j)"
    using assms(1) by (auto simp: moves_def)
  have "\<exists>j\<in>set (db_jobs db'). jb_id j = n \<and> (k < jb_attempt_count j \<or> k = jb_attempt_count j \<and> jb_status j \<noteq> JProcessing)"
    if mem: "(n, k) \<in> set sent" for n k
  proof -
    obtain j where j: "j \<in> set (db_jobs db)" "jb_id j = n"
        "k < jb_attempt_count j \<or> k = jb_attempt_count j \<and> jb_status j \<noteq> JProcessing"
      using assms(2) mem by (fastforce simp: log_inv_def)
    then show ?thesis
      using g by (intro bexI[of _ "g j"]) (auto simp: job_move_def)
  qed
  then show ?thesis
    using assms(2) by (auto simp: log_inv_def)
qed

lemma moves_settled: "moves db db' \<Longrightarrow> event_settled db n \<Longrightarrow> event_settled db' n"
  by (fastforce simp: moves_def event_settled_def job_move_def settled_def)

lemma moves_events:
  assumes "moves db db'" "events_inv db" "db_events db' = db_events db"
  shows "events_inv db'"
  using assms moves_settled by (auto simp: events_inv_def)

text \<open>The operations move jobs and keep what the events say.\<close>

lemma reclaim_id [simp]: "jb_id (reclaim now j) = jb_id j"
  by (simp add: reclaim_def)

lemma claim_moves:
  assumes "claim_jobs limit locked now db = (claims, db')" "ids_inv db"
  shows "moves db db'" "db_events db' = db_events db"
proof -
  let ?jobs = "map (reclaim now) (db_jobs db)"
  let ?chosen = "take limit (sort_key jb_created_at (filter (\<lambda>j. due now j \<and> jb_id j \<notin> locked) ?jobs))"
  define ids where "ids = set (map jb_id ?chosen)"
  define g where "g j = (if jb_id (reclaim now j) \<in> ids then claim_job now (reclaim now j) else reclaim now j)" for j
  have db': "db' = db\<lparr>db_jobs := map g (db_jobs db)\<rparr>"
    using assms(1) by (auto simp: claim_jobs_def Let_def ids_def g_def)
  then show "db_events db' = db_events db"
    by simp
  have "job_move j (g j)" if "j \<in> set (db_jobs db)" for j
  proof (cases "jb_id (reclaim now j) \<in> ids")
    case False
    then show ?thesis
      by (auto simp: g_def reclaim_def job_move_def settled_def)
  next
    case True
    then obtain k where k: "k \<in> set ?chosen" "jb_id k = jb_id (reclaim now j)"
      by (auto simp: ids_def)
    then have "k \<in> set ?jobs" "due now k"
      using set_take_subset[of limit "sort_key jb_created_at (filter (\<lambda>j. due now j \<and> jb_id j \<notin> locked) ?jobs)"]
      by auto
    moreover have "distinct (map jb_id ?jobs)"
      using assms(2) by (simp add: ids_inv_def comp_def reclaim_id)
    ultimately have "due now (reclaim now j)"
      using that k(2) by (metis (no_types, lifting) distinct_map imageI inj_onD set_map)
    then have "\<not> settled (jb_status j)"
      by (auto simp: due_def reclaim_def settled_def split: if_splits)
    then show ?thesis
      using True by (auto simp: g_def claim_job_def reclaim_def job_move_def)
  qed
  then show "moves db db'"
    unfolding moves_def db' by (intro conjI exI[of _ g]) auto
qed

lemma begin_moves:
  assumes "begin_delivery n k now db = (r, db')" "ids_inv db"
  shows "moves db db'" "db_events db' = db_events db"
proof -
  have "moves db db' \<and> db_events db' = db_events db"
  proof (cases "find_job (db_jobs db) n")
    case (Some j)
    then show ?thesis
      using assms
      by (auto simp: begin_delivery_def job_move_def settled_def split: if_splits intro!: update_job_moves)
  qed (use assms in \<open>auto simp: begin_delivery_def\<close>)
  then show "moves db db'" "db_events db' = db_events db"
    by blast+
qed

lemma failed_job_move:
  "jb_status j \<in> {JProcessing, JSending} \<Longrightarrow> job_move j (failed_job ws re permanent jitter err now j)"
  by (auto simp: failed_job_def Let_def job_move_def settled_def)

lemma mark_failed_moves:
  assumes "ids_inv db"
  shows "moves db (mark_failed ws n permanent err k jitter now db)"
    and "events_inv db \<Longrightarrow> events_inv (mark_failed ws n permanent err k jitter now db)"
proof -
  have "moves db (mark_failed ws n permanent err k jitter now db)
      \<and> (events_inv db \<longrightarrow> events_inv (mark_failed ws n permanent err k jitter now db))"
  proof (cases "find_job (db_jobs db) n")
    case (Some j)
    show ?thesis
    proof (cases "jb_status j \<notin> {JProcessing, JSending} \<or> stale_token j k")
      case False
      let ?re = "case find (\<lambda>a. al_id a = jb_alert_id j) (db_alerts db) of None \<Rightarrow> False | Some a \<Rightarrow> al_enable_dlq a"
      let ?db = "update_job n (failed_job ws ?re permanent jitter err now) db"
      have m: "moves db ?db"
        using Some assms False by (intro update_job_moves[OF Some] failed_job_move) auto
      have eq: "mark_failed ws n permanent err k jitter now db = set_event_status (jb_event_id j) ''delivery_failed'' ?db"
        using Some False by (simp add: mark_failed_def Let_def)
      have "events_inv (set_event_status (jb_event_id j) ''delivery_failed'' ?db)" if "events_inv db"
        using moves_events[OF m that] by (auto simp: events_inv_def set_event_status_def event_settled_def split: if_splits)
      then show ?thesis
        unfolding eq using m set_event_status_moves by blast
    qed (auto simp: mark_failed_def Some)
  qed (simp add: mark_failed_def)
  then show "moves db (mark_failed ws n permanent err k jitter now db)"
    "events_inv db \<Longrightarrow> events_inv (mark_failed ws n permanent err k jitter now db)"
    by blast+
qed

lemma mark_delivered_moves:
  assumes "ids_inv db"
  shows "moves db (mark_delivered n k now db)" "events_inv db \<Longrightarrow> events_inv (mark_delivered n k now db)"
proof -
  have "moves db (mark_delivered n k now db) \<and> (events_inv db \<longrightarrow> events_inv (mark_delivered n k now db))"
  proof (cases "find_job (db_jobs db) n")
    case (Some j)
    show ?thesis
    proof (cases "jb_status j \<noteq> JSending \<or> stale_token j k")
      case False
      let ?db = "update_job n (\<lambda>j. j\<lparr>jb_status := JDelivered, jb_last_error := None,
                        jb_delivered_at := Some now, jb_updated_at := now\<rparr>) db"
      let ?rem = "filter (\<lambda>k. jb_event_id k = jb_event_id j \<and> jb_status k \<notin> {JDelivered, JCancelled}) (db_jobs ?db)"
      have m: "moves db ?db"
        using Some assms False by (intro update_job_moves[OF Some]) (auto simp: job_move_def settled_def)
      have eq: "mark_delivered n k now db = (if ?rem = [] then set_event_status (jb_event_id j) ''delivered'' ?db else ?db)"
        using Some False by (simp add: mark_delivered_def Let_def)
      have "events_inv (set_event_status (jb_event_id j) ''delivered'' ?db)" if "events_inv db" "?rem = []"
      proof -
        have "event_settled ?db (jb_event_id j)"
          using that(2) by (auto simp: event_settled_def settled_def filter_empty_conv)
        then show ?thesis
          using moves_events[OF m that(1)] by (auto simp: events_inv_def set_event_status_def event_settled_def split: if_splits)
      qed
      then show ?thesis
        unfolding eq using m set_event_status_moves moves_events[OF m] by auto
    qed (auto simp: mark_delivered_def Some)
  qed (simp add: mark_delivered_def)
  then show "moves db (mark_delivered n k now db)" "events_inv db \<Longrightarrow> events_inv (mark_delivered n k now db)"
    by blast+
qed

lemma admin_moves:
  assumes "ids_inv db"
  shows "retry_delivery_job n now db = Inr db' \<Longrightarrow> moves db db' \<and> db_events db' = db_events db"
    and "cancel_delivery_job n db = Inr db' \<Longrightarrow> moves db db' \<and> db_events db' = db_events db"
  using assms
  by (auto simp: retry_delivery_job_def cancel_delivery_job_def job_move_def settled_def
      split: option.splits if_splits intro!: update_job_moves)

lemma new_jobs_ids:
  "distinct (map jb_id (new_jobs jid aid eid key now cs))
   \<and> (\<forall>j\<in>set (new_jobs jid aid eid key now cs). jid \<le> jb_id j \<and> jb_id j < jid + int (length cs))"
  by (induction cs arbitrary: jid) force+

lemma queue_trigger_inv:
  assumes "queue_trigger parse st assets now a db = Inr db'" "ids_inv db"
  shows "ids_inv db'" "events_inv db \<Longrightarrow> events_inv db'" "log_inv db sent \<Longrightarrow> log_inv db' sent"
    "\<exists>js. db_jobs db' = db_jobs db @ js"
proof -
  let ?chans = "channels st a (db_prefs db (al_user_id a)) (al_user_id a \<in> db_push_users db)"
  let ?key = "EventKey (al_id a) now (al_notifications_today a)"
  let ?js = "new_jobs (db_next_job db) (al_id a) (db_next_event db) ?key now ?chans"
  obtain ev where q: "db_jobs db' = db_jobs db @ ?js" "db_events db' = db_events db @ [ev]" "ev_id ev = db_next_event db"
      "db_next_event db' = db_next_event db + 1" "db_next_job db' = db_next_job db + int (length ?chans)"
      "ev_status ev = (if ?chans \<noteq> [] then ''queued'' else if al_notify_app a \<and>
          push_is_enabled (db_prefs db (al_user_id a)) then ''delivered'' else ''no_delivery_channel'')"
    using assms(1) by (auto simp: queue_trigger_def Let_def err_simps)
  have none: "?js = []" if "ev_status ev = ''delivered''"
    using q(6) that by (cases ?chans) auto
  from q(1) show "\<exists>js. db_jobs db' = db_jobs db @ js"
    by blast
  have js: "distinct (map jb_id ?js)"
      "\<And>j. j \<in> set ?js \<Longrightarrow> db_next_job db \<le> jb_id j \<and> jb_id j < db_next_job db'"
      "\<And>j. j \<in> set ?js \<Longrightarrow> jb_event_id j = db_next_event db"
    using new_jobs_ids new_jobs_facts(2) by (auto simp: q(5))
  have "db_next_job db \<le> db_next_job db'"
    by (simp add: q(5))
  moreover have old: "jb_id j < db_next_job db" if "j \<in> set (db_jobs db)" for j
    using assms(2) that by (simp add: ids_inv_def)
  moreover have "jb_id j \<noteq> jb_id k" if "j \<in> set (db_jobs db)" "k \<in> set ?js" for j k
    using old[OF that(1)] js(2)[OF that(2)] by simp
  then have "distinct (map jb_id (db_jobs db'))"
    using js(1) assms(2) by (fastforce simp: q(1) ids_inv_def)
  ultimately show "ids_inv db'"
    using assms(2) js(2,3) q(1-4) unfolding ids_inv_def by fastforce
  show "log_inv db' sent" if "log_inv db sent"
    using that q(1) by (fastforce simp: log_inv_def)
  show "events_inv db'" if "events_inv db"
  proof -
    have "event_settled db' (ev_id e)" if "e \<in> set (db_events db)" "ev_status e = ''delivered''" for e
      using \<open>events_inv db\<close> that assms(2) js(3) q(1) by (fastforce simp: events_inv_def event_settled_def ids_inv_def)
    moreover have "event_settled db' (ev_id ev)" if "ev_status ev = ''delivered''"
      using q(1,3) none[OF that] assms(2) by (fastforce simp: event_settled_def ids_inv_def)
    ultimately show ?thesis
      using q(2) by (auto simp: events_inv_def)
  qed
qed

definition delivery_inv :: "delivery_state \<Rightarrow> bool" where
  "delivery_inv s \<longleftrightarrow> ids_inv (dl_db s) \<and> events_inv (dl_db s) \<and> log_inv (dl_db s) (dl_log s)"

lemma begin_send_log:
  assumes "begin_delivery n (Some k) now db = (Send c, db')" "ids_inv db" "log_inv db sent"
  shows "log_inv db' ((n, k) # sent)"
proof -
  obtain j where j: "find_job (db_jobs db) n = Some j" "jb_status j = JProcessing" "jb_attempt_count j = k"
      "db' = update_job n (\<lambda>j. j\<lparr>jb_status := JSending, jb_updated_at := now\<rparr>) db"
    using assms(1) by (auto simp: begin_delivery_def split: option.splits if_splits)
  have mem: "j \<in> set (db_jobs db)" "jb_id j = n"
    using find_job_Some[OF j(1)] by blast+
  have "(n, k) \<notin> set sent"
  proof
    assume "(n, k) \<in> set sent"
    then obtain i where "i \<in> set (db_jobs db)" "jb_id i = n"
        "k < jb_attempt_count i \<or> k = jb_attempt_count i \<and> jb_status i \<noteq> JProcessing"
      using assms(3) by (fastforce simp: log_inv_def)
    then show False
      using find_job_unique[OF j(1), of i] assms(2) j(2,3) by (auto simp: ids_inv_def)
  qed
  moreover have "j\<lparr>jb_status := JSending, jb_updated_at := now\<rparr> \<in> set (db_jobs db')"
    using mem by (force simp: j(4) update_job_def)
  then have "\<exists>i\<in>set (db_jobs db'). jb_id i = n \<and> (k < jb_attempt_count i \<or> k = jb_attempt_count i \<and> jb_status i \<noteq> JProcessing)"
    using j(3) mem(2) by (intro bexI) auto
  moreover have "log_inv db' sent"
    using begin_moves(1)[OF assms(1,2)] assms(3) by (rule moves_log)
  ultimately show ?thesis
    by (auto simp: log_inv_def)
qed

lemma delivery_step_inv:
  assumes "delivery_step ws s t" "delivery_inv s"
  shows "delivery_inv t"
  using assms(1)
proof cases
  case (claim limit locked now claims db')
  note m = claim_moves[OF claim(2)]
  then show ?thesis
    using assms(2) claim(1) moves_ids moves_log moves_events by (simp add: delivery_inv_def)
next
  case (begin_send n k now c db')
  note m = begin_moves[OF begin_send(3)]
  then show ?thesis
    using assms(2) begin_send(1) begin_send_log[OF begin_send(3)] moves_ids moves_events by (simp add: delivery_inv_def)
next
  case (begin_skip n k now db')
  note m = begin_moves[OF begin_skip(3)]
  then show ?thesis
    using assms(2) begin_skip(1) moves_ids moves_log moves_events by (simp add: delivery_inv_def)
next
  case (begin_error n k now r db' err jitter)
  note m = begin_moves[OF begin_error(3)]
  have i: "ids_inv db'" "log_inv db' (dl_log s)" "events_inv db'"
    using m assms(2) moves_ids moves_log moves_events by (auto simp: delivery_inv_def)
  then show ?thesis
    using begin_error(1) i
    by (simp add: delivery_inv_def mark_failed_moves(2) moves_ids[OF mark_failed_moves(1)] moves_log[OF mark_failed_moves(1)])
next
  case (accepted n k now)
  then show ?thesis
    using assms(2)
    by (simp add: delivery_inv_def mark_delivered_moves(2) moves_ids[OF mark_delivered_moves(1)]
        moves_log[OF mark_delivered_moves(1)])
next
  case (refused n k permanent err jitter now)
  then show ?thesis
    using assms(2)
    by (simp add: delivery_inv_def mark_failed_moves(2) moves_ids[OF mark_failed_moves(1)] moves_log[OF mark_failed_moves(1)])
next
  case (crash T)
  then show ?thesis
    using assms(2) by (simp add: delivery_inv_def)
next
  case (retry n now db')
  have "moves (dl_db s) db'" "db_events db' = db_events (dl_db s)"
    using admin_moves(1)[OF _ retry(2)] assms(2) by (auto simp: delivery_inv_def)
  then show ?thesis
    using assms(2) retry(1) moves_ids moves_log moves_events by (simp add: delivery_inv_def)
next
  case (cancel n db')
  have "moves (dl_db s) db'" "db_events db' = db_events (dl_db s)"
    using admin_moves(2)[OF _ cancel(2)] assms(2) by (auto simp: delivery_inv_def)
  then show ?thesis
    using assms(2) cancel(1) moves_ids moves_log moves_events by (simp add: delivery_inv_def)
next
  case (trigger parse st assets now a db')
  then show ?thesis
    using assms(2) queue_trigger_inv by (simp add: delivery_inv_def)
qed

lemma delivery_reach_inv: "delivery_reach ws s t \<Longrightarrow> delivery_inv s \<Longrightarrow> delivery_inv t"
  by (induction rule: delivery_reach.induct) (auto dest: delivery_step_inv)

section \<open>Settled jobs\<close>

definition settled_as :: "delivery_state \<Rightarrow> int \<Rightarrow> job_status \<Rightarrow> int \<Rightarrow> bool" where
  "settled_as s n st k \<longleftrightarrow> settled st \<and> (\<exists>j\<in>set (db_jobs (dl_db s)). jb_id j = n \<and> jb_status j = st \<and> jb_attempt_count j = k)"

lemma moves_settled_as:
  assumes "moves (dl_db s) (dl_db t)" "settled_as s n st k"
  shows "settled_as t n st k"
proof -
  obtain g where g: "db_jobs (dl_db t) = map g (db_jobs (dl_db s))" "\<forall>j\<in>set (db_jobs (dl_db s)). job_move j (g j)"
    using assms(1) by (auto simp: moves_def)
  obtain j where j: "j \<in> set (db_jobs (dl_db s))" "jb_id j = n" "jb_status j = st" "jb_attempt_count j = k"
    using assms(2) by (auto simp: settled_as_def)
  have "job_move j (g j)" "settled (jb_status j)"
    using g(2) j assms(2) by (auto simp: settled_as_def)
  then show ?thesis
    using j g(1) assms(2) unfolding settled_as_def
    by (intro conjI bexI[of _ "g j"]) (auto simp: job_move_def)
qed

lemma delivery_step_moves:
  assumes "delivery_step ws s t" "delivery_inv s"
  shows "moves (dl_db s) (dl_db t) \<or> (\<exists>js. db_jobs (dl_db t) = db_jobs (dl_db s) @ js)"
  using assms(1)
proof cases
  case (begin_error n k now r db' err jitter)
  then have "db' = dl_db s"
    by (auto simp: begin_delivery_def split: option.splits if_splits)
  then show ?thesis
    using begin_error(1) mark_failed_moves(1) assms(2) by (simp add: delivery_inv_def)
next
  case (trigger parse st assets now a db')
  then show ?thesis
    using queue_trigger_inv(4) assms(2) by (auto simp: delivery_inv_def)
qed (use assms(2) in \<open>auto simp: delivery_inv_def claim_moves(1) begin_moves(1) mark_failed_moves(1)
      mark_delivered_moves(1) admin_moves\<close>)

lemma delivery_step_log:
  assumes "delivery_step ws s t" "delivery_inv s" "settled_as s n st k"
  shows "filter (\<lambda>e. fst e = n) (dl_log t) = filter (\<lambda>e. fst e = n) (dl_log s)"
  using assms(1)
proof cases
  case (begin_send m i now c db')
  obtain j where j: "find_job (db_jobs (dl_db s)) m = Some j" "jb_status j = JProcessing"
    using begin_send(3) by (auto simp: begin_delivery_def split: option.splits if_splits)
  have "m \<noteq> n"
  proof
    assume "m = n"
    then obtain i where "i \<in> set (db_jobs (dl_db s))" "jb_id i = m" "settled (jb_status i)"
      using assms(3) by (auto simp: settled_as_def)
    then show False
      using find_job_unique[OF j(1), of i] j(2) assms(2) by (auto simp: settled_def delivery_inv_def ids_inv_def)
  qed
  then show ?thesis
    by (simp add: begin_send(1))
qed simp_all

lemma settled_reach:
  assumes "delivery_reach ws s t" "delivery_inv s" "settled_as s n st k"
  shows "settled_as t n st k \<and> filter (\<lambda>e. fst e = n) (dl_log t) = filter (\<lambda>e. fst e = n) (dl_log s)"
  using assms
proof (induction rule: delivery_reach.induct)
  case (step s t u)
  then have inv: "delivery_inv t"
    using delivery_reach_inv by blast
  have st: "settled_as t n st k"
    using step by blast
  have "settled_as u n st k"
    using delivery_step_moves[OF step(2) inv]
  proof
    assume "\<exists>js. db_jobs (dl_db u) = db_jobs (dl_db t) @ js"
    with st show ?thesis
      by (auto simp: settled_as_def)
  qed (rule moves_settled_as[OF _ st])
  then show ?case
    using step delivery_step_log[OF step(2) inv st] by auto
qed simp

section \<open>Failing jobs\<close>

text \<open>A job that fails every time it is claimed: the times of claim and failure and the random delay.\<close>

primrec fail_rounds :: "worker_settings \<Rightarrow> (instant \<times> instant \<times> int) list \<Rightarrow> delivery_job \<Rightarrow> delivery_job" where
  "fail_rounds ws [] j = j"
| "fail_rounds ws (r # rs) j =
     fail_rounds ws rs (failed_job ws True False (snd (snd r)) ''RuntimeError: delivery attempt failed'' (fst (snd r))
       (claim_job (fst r) j))"

lemma fail_round:
  "jb_attempt_count (failed_job ws True False jitter err now (claim_job t j)) = jb_attempt_count j + 1"
  "jb_status (failed_job ws True False jitter err now (claim_job t j)) =
     (if jb_attempt_count j + 1 < ws_max_attempts ws then JRetrying else JDead)"
  by (simp_all add: failed_job_def claim_job_def Let_def)

lemma fail_rounds_status:
  "rs \<noteq> [] \<Longrightarrow> jb_attempt_count (fail_rounds ws rs j) = jb_attempt_count j + int (length rs)
     \<and> jb_status (fail_rounds ws rs j) =
        (if jb_attempt_count j + int (length rs) < ws_max_attempts ws then JRetrying else JDead)"
proof (induction rs arbitrary: j)
  case (Cons r rs)
  then show ?case
    by (cases "rs = []") (auto simp: fail_round)
qed simp

lemma retry_delay_bounds:
  assumes "0 \<le> ws_backoff_base_seconds ws" "0 \<le> ws_backoff_max_seconds ws"
  shows "min (ws_backoff_max_seconds ws) (ws_backoff_base_seconds ws) \<le> retry_delay_seconds ws k"
    "retry_delay_seconds ws k \<le> ws_backoff_max_seconds ws"
proof -
  have "ws_backoff_base_seconds ws * 1 \<le> ws_backoff_base_seconds ws * 2 ^ nat (max 0 (k - 1))"
    using assms(1) by (intro mult_left_mono) auto
  then show "min (ws_backoff_max_seconds ws) (ws_backoff_base_seconds ws) \<le> retry_delay_seconds ws k"
    by (simp add: retry_delay_seconds_def min_def)
  show "retry_delay_seconds ws k \<le> ws_backoff_max_seconds ws"
    by (simp add: retry_delay_seconds_def)
qed

section \<open>Properties\<close>

text \<open>Claim C19. A message is sent at most once for each attempt: whatever the interleaving of workers, crashes,
  reclaimed jobs, late results, administrators and new triggers, no attempt of a job appears twice in the log of
  sends, and a job is never sent for an attempt that was not claimed.\<close>

theorem at_most_one_send_per_attempt:
  assumes "delivery_reach ws s t" "ids_inv (dl_db s)" "events_inv (dl_db s)" "dl_log s = []"
  shows "distinct (dl_log t)
    \<and> (\<forall>(n, k)\<in>set (dl_log t). \<exists>j\<in>set (db_jobs (dl_db t)). jb_id j = n \<and> k \<le> jb_attempt_count j)"
proof -
  have "delivery_inv s"
    using assms(2-4) by (simp add: delivery_inv_def log_inv_def)
  then have "log_inv (dl_db t) (dl_log t)"
    using delivery_reach_inv[OF assms(1)] by (simp add: delivery_inv_def)
  then show ?thesis
    by (fastforce simp: log_inv_def)
qed

text \<open>One job for one event, claimed and sent.\<close>

definition example_job :: "job_status \<Rightarrow> int \<Rightarrow> delivery_job" where
  "example_job st k = \<lparr>jb_id = 1, jb_alert_id = 1, jb_event_id = 1, jb_channel = ''email'', jb_destination = ''user:2:email'',
     jb_status = st, jb_attempt_count = k, jb_next_retry_at = None, jb_last_error = None,
     jb_key = (EventKey 1 0 0, ''email''), jb_created_at = 0, jb_updated_at = 0, jb_delivered_at = None, jb_dead_at = None\<rparr>"

definition example_event :: "string \<Rightarrow> trigger_event" where
  "example_event st = \<lparr>ev_id = 1, ev_alert_id = 1, ev_instrument_id = None, ev_price = PNone, ev_snapshot = [],
     ev_status = st, ev_key = EventKey 1 0 0\<rparr>"

definition example_state :: "job_status \<Rightarrow> int \<Rightarrow> string \<Rightarrow> delivery_state" where
  "example_state st k ev = \<lparr>dl_db = example_db\<lparr>db_jobs := [example_job st k], db_events := [example_event ev],
     db_next_job := 2, db_next_event := 2\<rparr>, dl_tokens = {((1, 1), False)}, dl_log = []\<rparr>"

definition example_worker :: worker_settings where
  "example_worker = \<lparr>ws_max_attempts = 5, ws_backoff_base_seconds = 30, ws_backoff_max_seconds = 3600\<rparr>"

lemma example_state_inv:
  "delivery_inv (example_state st k ''queued'')" "delivery_inv (example_state JDelivered k ''delivered'')"
  by (simp_all add: delivery_inv_def ids_inv_def events_inv_def log_inv_def example_state_def example_job_def
      example_event_def event_settled_def settled_def)

lemma example_sends:
  "\<exists>t. delivery_reach example_worker (example_state JProcessing 1 ''queued'') t \<and> dl_log t = [(1, 1)]"
proof -
  let ?s = "example_state JProcessing 1 ''queued''"
  obtain db' where b: "begin_delivery 1 (Some 1) 0 (dl_db ?s) = (Send ''email'', db')"
    by (simp add: begin_delivery_def find_job_def example_state_def example_job_def example_event_def example_db_def
        example_alert_def)
  have tk: "((1, 1), False) \<in> dl_tokens ?s"
    by (simp add: example_state_def)
  have "delivery_reach example_worker ?s (?s\<lparr>dl_db := db', dl_tokens := dl_tokens ?s - {((1, 1), False)} \<union> {((1, 1), True)},
      dl_log := (1, 1) # dl_log ?s\<rparr>)"
    by (rule delivery_reach.step[OF delivery_reach.refl delivery_step.begin_send[OF tk b]])
  then show ?thesis
    by (intro exI conjI) (auto simp: example_state_def)
qed

theorem at_most_one_send_per_attempt_witness:
  "\<exists>t. delivery_reach example_worker (example_state JProcessing 1 ''queued'') t \<and> dl_log t = [(1, 1)] \<and> distinct (dl_log t)"
proof -
  obtain t where t: "delivery_reach example_worker (example_state JProcessing 1 ''queued'') t" "dl_log t = [(1, 1)]"
    using example_sends by blast
  have i: "ids_inv (dl_db (example_state JProcessing 1 ''queued''))" "events_inv (dl_db (example_state JProcessing 1 ''queued''))"
    using example_state_inv(1) by (simp_all add: delivery_inv_def)
  have l: "dl_log (example_state JProcessing 1 ''queued'') = []"
    by (simp add: example_state_def)
  from at_most_one_send_per_attempt [OF t(1) i l] t show ?thesis
    by blast
qed

text \<open>Delivered and cancelled jobs are final: once a job is delivered or cancelled, no later step changes
  its status or its attempts, and no message is sent for it any more; so a cancellation that was confirmed holds.\<close>

theorem settled_job_is_final:
  assumes "delivery_reach ws s t" "delivery_inv s" "j \<in> set (db_jobs (dl_db s))" "jb_status j \<in> {JDelivered, JCancelled}"
  shows "(\<exists>j'\<in>set (db_jobs (dl_db t)). jb_id j' = jb_id j \<and> jb_status j' = jb_status j
            \<and> jb_attempt_count j' = jb_attempt_count j)
    \<and> filter (\<lambda>e. fst e = jb_id j) (dl_log t) = filter (\<lambda>e. fst e = jb_id j) (dl_log s)"
proof -
  have "settled_as s (jb_id j) (jb_status j) (jb_attempt_count j)"
    using assms(3,4) by (auto simp: settled_as_def settled_def)
  from settled_reach[OF assms(1,2) this] show ?thesis
    by (auto simp: settled_as_def)
qed

theorem settled_job_is_final_witness:
  "\<exists>j'\<in>set (db_jobs (dl_db (example_state JCancelled 1 ''queued''))). jb_status j' = JCancelled"
proof -
  let ?s = "example_state JCancelled 1 ''queued''"
  have j: "example_job JCancelled 1 \<in> set (db_jobs (dl_db ?s))" "jb_status (example_job JCancelled 1) \<in> {JDelivered, JCancelled}"
    by (simp_all add: example_state_def example_job_def)
  from settled_job_is_final [OF delivery_reach.refl[of example_worker] example_state_inv(1) j] show ?thesis
    by (auto simp: example_job_def)
qed

text \<open>An event is reported as delivered only when nothing of it is left: in every reachable state, all
  delivery jobs of a delivered event are delivered or cancelled.\<close>

theorem delivered_event_has_no_open_job:
  assumes "delivery_reach ws s t" "delivery_inv s" "e \<in> set (db_events (dl_db t))" "ev_status e = ''delivered''"
    and "j \<in> set (db_jobs (dl_db t))" "jb_event_id j = ev_id e"
  shows "jb_status j \<in> {JDelivered, JCancelled}"
  using delivery_reach_inv[OF assms(1,2)] assms(3-6)
  by (auto simp: delivery_inv_def events_inv_def event_settled_def settled_def)

theorem delivered_event_has_no_open_job_witness:
  "jb_status (example_job JDelivered 1) \<in> {JDelivered, JCancelled}"
  by (rule delivered_event_has_no_open_job [OF delivery_reach.refl[of example_worker] example_state_inv(2)[of 1],
        of "example_event ''delivered''"])
    (simp_all add: example_state_def example_job_def example_event_def)

text \<open>Claim C28. A job that keeps failing comes to an end: with retries enabled, after each failed attempt below the
  maximum it waits for another attempt, and after the attempt that reaches the maximum it is dead; every wait is
  between the base delay and the largest delay with its random part.\<close>

theorem failing_job_ends:
  assumes "rs \<noteq> []" "0 \<le> ws_backoff_base_seconds ws" "0 \<le> ws_backoff_max_seconds ws"
  shows "jb_status (fail_rounds ws rs j) =
      (if jb_attempt_count j + int (length rs) < ws_max_attempts ws then JRetrying else JDead)
    \<and> (\<forall>t jitter err now k. 0 \<le> jitter \<and> jitter \<le> max 1 (retry_delay_seconds ws (jb_attempt_count k) div 5)
         \<and> jb_attempt_count k < ws_max_attempts ws \<and> jb_next_retry_at (failed_job ws True False jitter err now k) = Some t \<longrightarrow>
        now + seconds (min (ws_backoff_max_seconds ws) (ws_backoff_base_seconds ws)) \<le> t
        \<and> t \<le> now + seconds (ws_backoff_max_seconds ws + max 1 (ws_backoff_max_seconds ws div 5)))"
proof -
  have "now + seconds (min (ws_backoff_max_seconds ws) (ws_backoff_base_seconds ws)) \<le> t
        \<and> t \<le> now + seconds (ws_backoff_max_seconds ws + max 1 (ws_backoff_max_seconds ws div 5))"
    if "0 \<le> jitter" "jitter \<le> max 1 (retry_delay_seconds ws (jb_attempt_count k) div 5)"
      "jb_attempt_count k < ws_max_attempts ws" "jb_next_retry_at (failed_job ws True False jitter err now k) = Some t"
    for t jitter err now k
  proof -
    let ?d = "retry_delay_seconds ws (jb_attempt_count k)"
    have t: "t = now + seconds (?d + jitter)"
      using that(3,4) by (simp add: failed_job_def Let_def)
    note b = retry_delay_bounds[OF assms(2,3), of "jb_attempt_count k"]
    have "?d div 5 \<le> ws_backoff_max_seconds ws div 5"
      using b(2) by (rule zdiv_mono1) simp
    then show ?thesis
      using that(1,2) b by (auto simp: t seconds_def)
  qed
  then show ?thesis
    using fail_rounds_status[OF assms(1), of ws j] by blast
qed

theorem failing_job_ends_witness:
  "jb_status (fail_rounds example_worker [(0, 1, 0), (100, 101, 0), (300, 301, 0), (600, 601, 0), (900, 901, 0)]
     (example_job JPending 0)) = JDead"
  using failing_job_ends [of "[(0, 1, 0), (100, 101, 0), (300, 301, 0), (600, 601, 0), (900, 901, 0)]" example_worker
      "example_job JPending 0"]
  by (simp add: example_worker_def example_job_def)

end
