(* ===== verification/Anomaly.thy ===== *)
theory Anomaly
  imports Models
begin

text \<open>
  Model of \<open>apps/api/app/pricing/anomaly.py\<close>: the dynamic threshold a candidate price is compared
  with, and the assessment of the candidate.

  The volatility is computed in floating point: \<open>fsub\<close>, \<open>fdiv\<close>, \<open>fmul\<close> are the float operations
  (\<open>None\<close> is a result that is not finite), and \<open>pstdev\<close> follows the standard library, which sums the
  exact fractions and takes a correctly rounded square root (\<open>float_sqrt_of_frac\<close>).
\<close>

section \<open>Population standard deviation\<close>

text \<open>\<open>math.isqrt\<close>, by pairs of bits.\<close>

function isqrt :: "int \<Rightarrow> int" where
  "isqrt n = (if n \<le> 0 then 0 else let r = 2 * isqrt (n div 4)
              in if (r + 1) * (r + 1) \<le> n then r + 1 else r)"
  by pat_completeness auto
termination
  by (relation "measure nat") auto

declare isqrt.simps [simp del]

lemma isqrt_spec: "0 \<le> n \<Longrightarrow> 0 \<le> isqrt n \<and> isqrt n * isqrt n \<le> n \<and> n < (isqrt n + 1) * (isqrt n + 1)"
proof (induction n rule: isqrt.induct)
  case (1 n)
  show ?case
  proof (cases "n \<le> 0")
    case False
    let ?q = "isqrt (n div 4)"
    have q: "0 \<le> ?q" "?q * ?q \<le> n div 4" "n div 4 < (?q + 1) * (?q + 1)"
      using 1 False by auto
    have "4 * (?q * ?q) \<le> n" "n < 4 * ((?q + 1) * (?q + 1))"
      using q(2,3) by linarith+
    then show ?thesis
      using False q(1) by (auto simp: isqrt.simps[of n] Let_def algebra_simps)
  qed (use 1 in \<open>simp add: isqrt.simps[of 0]\<close>)
qed

definition bit_length :: "int \<Rightarrow> int" where
  "bit_length n = (if n = 0 then 0 else ilog 2 \<bar>n\<bar> + 1)"

text \<open>Square root of a fraction rounded to odd, and the rounding to a float.\<close>

definition integer_sqrt_of_frac_rto :: "int \<Rightarrow> int \<Rightarrow> int" where
  "integer_sqrt_of_frac_rto n m =
     (let a = isqrt (n div m) in if a * a * m \<noteq> n \<and> even a then a + 1 else a)"

definition float_sqrt_of_frac :: "int \<Rightarrow> int \<Rightarrow> rat result" where
  "float_sqrt_of_frac n m =
     (let q = (bit_length n - bit_length m - 109) div 2;
          r = (if q \<ge> 0 then of_int (integer_sqrt_of_frac_rto n (m * 4 ^ nat q) * 2 ^ nat q)
               else of_int (integer_sqrt_of_frac_rto (n * 4 ^ nat (- q)) m) / 2 ^ nat (- q))
      in case f64 r of None \<Rightarrow> Inl OverflowErr | Some x \<Rightarrow> Inr x)"

definition pstdev :: "rat list \<Rightarrow> rat result" where
  "pstdev xs =
     (let n = of_int (int (length xs)); sx = sum_list xs; sxx = sum_list (map (\<lambda>x. x * x) xs);
          ss = (n * sxx - sx * sx) / n
      in case quotient_of (ss / n) of (a, b) \<Rightarrow> float_sqrt_of_frac a b)"

lemma float_sqrt_of_frac_nonneg:
  assumes "0 \<le> n" "0 < m" "float_sqrt_of_frac n m = Inr x"
  shows "0 \<le> x"
proof -
  have rto: "0 \<le> integer_sqrt_of_frac_rto a b" if "0 \<le> a" "0 < b" for a b
    using that isqrt_spec[of "a div b"] pos_imp_zdiv_nonneg_iff[of b a]
    by (simp add: integer_sqrt_of_frac_rto_def Let_def)
  define q where "q = (bit_length n - bit_length m - 109) div 2"
  define r :: rat where
    "r = (if q \<ge> 0 then of_int (integer_sqrt_of_frac_rto n (m * 4 ^ nat q) * 2 ^ nat q)
          else of_int (integer_sqrt_of_frac_rto (n * 4 ^ nat (- q)) m) / 2 ^ nat (- q))"
  have "0 \<le> integer_sqrt_of_frac_rto n (m * 4 ^ nat q)"
      "0 \<le> integer_sqrt_of_frac_rto (n * 4 ^ nat (- q)) m"
    using assms(1,2) by (auto intro!: rto)
  then have r: "0 \<le> r"
    by (simp add: r_def)
  have "f64 r = Some x"
    using assms(3) unfolding float_sqrt_of_frac_def Let_def q_def[symmetric] r_def[symmetric]
    by (cases "f64 r") auto
  with r show ?thesis
    by (rule f64_nonneg)
qed

section \<open>Assessment\<close>

record anomaly_assessment =
  as_is_suspicious :: bool
  as_deviation_percent :: rat
  as_dynamic_threshold_percent :: rat
  as_volatility_percent :: rat
  as_severity :: string
  as_reason :: string

text \<open>Float operations on finite arguments, with \<open>None\<close> for a result that is not finite.\<close>

definition fsub :: "rat option \<Rightarrow> rat option \<Rightarrow> rat option" where
  "fsub x y = Option.bind x (\<lambda>a. Option.bind y (\<lambda>b. f64 (a - b)))"

definition fdiv :: "rat option \<Rightarrow> rat option \<Rightarrow> rat option" where
  "fdiv x y = Option.bind x (\<lambda>a. Option.bind y (\<lambda>b. f64 (a / b)))"

definition fmul :: "rat option \<Rightarrow> rat option \<Rightarrow> rat option" where
  "fmul x y = Option.bind x (\<lambda>a. Option.bind y (\<lambda>b. f64 (a * b)))"

text \<open>
  The returns of consecutive prices; \<open>None\<close> stands for an infinite price or return. A return that is
  not finite makes \<open>pstdev\<close> fail on a missing attribute.
\<close>

definition price_returns :: "rat option list \<Rightarrow> rat option list" where
  "price_returns vs =
     map (\<lambda>(prev, cur). fmul (fdiv (fsub cur prev) prev) (Some 100))
       (filter (\<lambda>(prev, cur). prev \<noteq> Some 0 \<and> cur \<noteq> None) (zip vs (tl vs)))"

definition volatility_percent :: "rat list \<Rightarrow> rat result" where
  "volatility_percent prices =
     (let vs = map f64 (filter (\<lambda>p. p > 0) prices)
      in if length vs < 3 then Inr 0
         else let rs = price_returns vs
              in if length rs < 2 then Inr 0
                 else if None \<in> set rs then Inl (AttributeErr ''numerator'')
                 else ebind (pstdev (map the rs)) (\<lambda>x. Inr (float_str x)))"

text \<open>\<open>Decimal(str(min(4.0, age_seconds / ttl)))\<close>.\<close>

definition age_ratio :: "rat \<Rightarrow> int \<Rightarrow> rat result" where
  "age_ratio age ttl =
     (if ttl = 0 then Inl DivisionByZero
      else case f64 (of_int ttl) of
        None \<Rightarrow> Inl OverflowErr
      | Some t \<Rightarrow> (case f64 (age / t) of
          None \<Rightarrow> Inr 4
        | Some x \<Rightarrow> Inr (float_str (min 4 x))))"

definition dynamic_threshold :: "rat \<Rightarrow> rat \<Rightarrow> rat \<Rightarrow> rat \<Rightarrow> rat \<Rightarrow> rat" where
  "dynamic_threshold base maximum volatility ratio rate =
     (let reliability = min 1 (max 0 rate);
          volatility_allowance = min (dmul base 2) (dmul volatility (3/2));
          age_allowance = min base (dmul (dmul base ratio) (1/5));
          reliability_factor = dadd (13/20) (dmul (7/20) reliability);
          dynamic = dmul (dadd (dadd base volatility_allowance) age_allowance) reliability_factor
      in min maximum (max (dmul base (1/2)) dynamic))"

definition deviation_percent :: "rat \<Rightarrow> rat \<Rightarrow> rat" where
  "deviation_percent candidate previous = dmul (dctx (dabs (dsub candidate previous) / previous)) 100"

definition severity_of :: "rat \<Rightarrow> rat \<Rightarrow> string \<times> string" where
  "severity_of deviation dynamic =
     (if \<not> deviation > dynamic then (''none'', ''within_dynamic_threshold'')
      else if deviation \<ge> dmul dynamic 3
        then (''critical'', ''candidate_exceeds_dynamic_threshold_by_3x'')
      else if deviation \<ge> dmul dynamic 2
        then (''high'', ''candidate_exceeds_dynamic_threshold_by_2x'')
      else (''medium'', ''candidate_exceeds_dynamic_threshold''))"

definition assess ::
  "instrument_definition \<Rightarrow> rat \<Rightarrow> rat \<Rightarrow> instant \<Rightarrow> rat list \<Rightarrow> rat \<Rightarrow> instant
   \<Rightarrow> anomaly_assessment result" where
  "assess i candidate previous previous_observed_at recent_prices provider_success_rate now =
     (if \<not> accepts i candidate then
        Inr \<lparr>as_is_suspicious = True, as_deviation_percent = 999,
             as_dynamic_threshold_percent = i_base_anomaly_threshold_percent i,
             as_volatility_percent = 0, as_severity = ''critical'',
             as_reason = ''candidate_outside_sanity_bounds''\<rparr>
      else if previous \<le> 0 then
        Inl (ValueError ''Previous canonical price must be positive'')
      else
        let age_seconds = max 0 (total_seconds (now - previous_observed_at)) in
        ebind (volatility_percent recent_prices) (\<lambda>volatility.
        ebind (age_ratio age_seconds (i_operational_ttl_seconds i)) (\<lambda>ratio.
        let dynamic = dynamic_threshold (i_base_anomaly_threshold_percent i)
              (i_maximum_dynamic_threshold_percent i) volatility ratio provider_success_rate;
            deviation = deviation_percent candidate previous;
            sev = severity_of deviation dynamic
        in ebind (quantize6 deviation) (\<lambda>dq.
           ebind (quantize6 dynamic) (\<lambda>tq.
           ebind (quantize6 volatility) (\<lambda>vq.
           Inr \<lparr>as_is_suspicious = (deviation > dynamic), as_deviation_percent = dq,
                as_dynamic_threshold_percent = tq, as_volatility_percent = vq,
                as_severity = fst sev, as_reason = snd sev\<rparr>))))))"

section \<open>Facts about the threshold\<close>

lemma dctx_le_double:
  assumes "0 < x" shows "dctx x \<le> 2 * x"
proof -
  let ?g = "(10::rat) powi (expo 10 x - 27)"
  have "\<bar>dctx x - x\<bar> \<le> ?g / 2"
    using round_sig_error[of 10 x 28] assms by (simp add: dctx_def)
  moreover have "?g \<le> 10 powi expo 10 x"
    by (intro power_int_increasing) auto
  moreover have "10 powi expo 10 x \<le> x"
    using expo_bounds(1)[of 10 x] assms by simp
  ultimately show ?thesis
    by linarith
qed

lemma half_base_le: "0 < b \<Longrightarrow> dmul b (1/2) \<le> b"
  using dctx_le_double[of "b / 2"] by (simp add: dmul_def)

lemma dynamic_threshold_bounds:
  assumes "0 < b" "b \<le> m"
  shows "dmul b (1/2) \<le> dynamic_threshold b m v r s" "dynamic_threshold b m v r s \<le> m"
  using half_base_le[OF assms(1)] assms(2) by (auto simp: dynamic_threshold_def Let_def)

lemma dynamic_threshold_mono:
  assumes "0 \<le> b" "0 \<le> v" "v \<le> v'" "0 \<le> r" "r \<le> r'" "s \<le> s'"
  shows "dynamic_threshold b m v r s \<le> dynamic_threshold b m v' r' s'"
proof -
  let ?va = "\<lambda>v. min (dmul b 2) (dmul v (3/2))" and ?aa = "\<lambda>r. min b (dmul (dmul b r) (1/5))"
    and ?rf = "\<lambda>s. dadd (13/20) (dmul (7/20) (min 1 (max 0 s)))"
  have va: "?va v \<le> ?va v'" "0 \<le> ?va v"
    using assms(1,2,3) dmul_mono[of v v' "3/2" "3/2"] dmul_nonneg[of v "3/2"] dmul_nonneg[of b 2]
    by (auto intro: min.coboundedI2)
  have "dmul b r \<le> dmul b r'" "0 \<le> dmul b r"
    using assms(1,4,5) dmul_mono[of b b r r'] dmul_nonneg[of b r] by auto
  then have aa: "?aa r \<le> ?aa r'" "0 \<le> ?aa r"
    using assms(1) dmul_mono[of "dmul b r" "dmul b r'" "1/5" "1/5"] dmul_nonneg[of "dmul b r" "1/5"]
    by (auto intro: min.coboundedI2)
  have "min 1 (max 0 s) \<le> min 1 (max 0 s')" "0 \<le> min 1 (max 0 s)"
    using assms(6) by auto
  then have rf: "?rf s \<le> ?rf s'" "0 \<le> ?rf s"
    by (auto intro!: dadd_mono dadd_nonneg dmul_mono dmul_nonneg)
  have sm: "dadd (dadd b (?va v)) (?aa r) \<le> dadd (dadd b (?va v')) (?aa r')"
      "0 \<le> dadd (dadd b (?va v)) (?aa r)"
    by (rule dadd_mono[OF dadd_mono[OF order.refl va(1)] aa(1)],
        rule dadd_nonneg[OF dadd_nonneg[OF assms(1) va(2)] aa(2)])
  show ?thesis
    unfolding dynamic_threshold_def Let_def
    by (rule min.mono[OF order.refl max.mono[OF order.refl dmul_mono[OF sm(2,1) rf(2,1)]]])
qed

lemma assess_inside:
  assumes "assess i c p t ps s now = Inr a" "accepts i c"
  obtains v r where
    "volatility_percent ps = Inr v"
    "as_is_suspicious a \<longleftrightarrow> deviation_percent c p > dynamic_threshold (i_base_anomaly_threshold_percent i)
       (i_maximum_dynamic_threshold_percent i) v r s"
    "0 < p"
  using assms by (auto simp: assess_def Let_def err_simps split: if_splits prod.splits)

section \<open>Properties\<close>

text \<open>Whatever the price history, the age of the previous price and the provider's record, a
  candidate inside the sanity bounds that deviates by at most half the base threshold is never
  flagged, one that deviates by more than the maximum dynamic threshold always is, and a candidate
  outside the sanity bounds is always flagged as critical.\<close>

theorem assessment_within_limits:
  assumes "valid_instrument i" and "0 < i_base_anomaly_threshold_percent i"
    and "assess i c p t ps s now = Inr a"
  shows "(\<not> accepts i c \<longrightarrow> as_is_suspicious a \<and> as_severity a = ''critical'')
    \<and> (accepts i c \<and> deviation_percent c p \<le> dmul (i_base_anomaly_threshold_percent i) (1/2)
         \<longrightarrow> \<not> as_is_suspicious a)
    \<and> (accepts i c \<and> deviation_percent c p > i_maximum_dynamic_threshold_percent i
         \<longrightarrow> as_is_suspicious a)"
proof -
  have "as_is_suspicious a \<and> as_severity a = ''critical''" if "\<not> accepts i c"
    using assms(3) that by (auto simp: assess_def)
  moreover have b: "i_base_anomaly_threshold_percent i \<le> i_maximum_dynamic_threshold_percent i"
    using assms(1) by (simp add: valid_instrument_def)
  moreover have "(deviation_percent c p \<le> dmul (i_base_anomaly_threshold_percent i) (1/2)
        \<longrightarrow> \<not> as_is_suspicious a)
      \<and> (deviation_percent c p > i_maximum_dynamic_threshold_percent i \<longrightarrow> as_is_suspicious a)"
    if acc: "accepts i c"
  proof -
    obtain v r where "as_is_suspicious a \<longleftrightarrow> deviation_percent c p > dynamic_threshold
        (i_base_anomaly_threshold_percent i) (i_maximum_dynamic_threshold_percent i) v r s"
      using assess_inside[OF assms(3) acc] by metis
    then show ?thesis
      using dynamic_threshold_bounds[OF assms(2) b, of v r s] by linarith
  qed
  ultimately show ?thesis
    by blast
qed

definition example_instrument :: instrument_definition where
  "example_instrument = \<lparr>i_instrument_id = ''BTC_USD'', i_base_asset = ''BTC'',
     i_quote_currency = USD, i_market = GLOBAL_EXCHANGE, i_region = GLOBAL_REGION,
     i_weight_unit = UNIT, i_purity = None, i_display_decimals = 2,
     i_operational_ttl_seconds = 360, i_stale_after_seconds = 900, i_expire_after_seconds = 1800,
     i_base_anomaly_threshold_percent = 2, i_maximum_dynamic_threshold_percent = 8,
     i_minimum_price = 1000, i_maximum_price = 1000000, i_importance = 10,
     i_maximum_verification_depth = 3, i_enabled = True, i_allow_derived_fallback = True,
     i_maximum_spread_bps = 150\<rparr>"

lemma example_instrument_valid: "valid_instrument example_instrument"
  by (simp add: valid_instrument_def example_instrument_def upper_def upper_char_def)

definition example_assessment :: anomaly_assessment where
  "example_assessment = \<lparr>as_is_suspicious = True, as_deviation_percent = 20,
     as_dynamic_threshold_percent = 2, as_volatility_percent = 0,
     as_severity = ''critical'', as_reason = ''candidate_exceeds_dynamic_threshold_by_3x''\<rparr>"

lemma example_deviation: "deviation_percent 60000 50000 = 20"
  by code_simp

lemma example_age_ratio: "age_ratio 0 360 = Inr 0"
proof -
  have "f64 0 = Some 0" "float_str 0 = 0"
    by (simp_all add: f64_def float_str_def numeral_eq_Suc)
  then show ?thesis
    by (simp add: age_ratio_def)
qed

lemma example_threshold: "dynamic_threshold 2 8 0 0 1 = 2"
  by code_simp

lemma example_assessment_computed:
  "assess example_instrument 60000 50000 0 [50000] 1 0 = Inr example_assessment"
proof -
  have "accepts example_instrument 60000" "quantize6 20 = Inr 20" "quantize6 2 = Inr 2"
      "quantize6 0 = Inr 0" "severity_of 20 2 = (''critical'', ''candidate_exceeds_dynamic_threshold_by_3x'')"
    by code_simp+
  moreover have "volatility_percent [50000] = Inr 0"
    by (simp add: volatility_percent_def)
  ultimately show ?thesis
    using example_age_ratio example_threshold
    by (simp add: assess_def example_deviation example_instrument_def example_assessment_def
        total_seconds_def)
qed

theorem assessment_within_limits_witness:
  "deviation_percent 60000 50000 > i_maximum_dynamic_threshold_percent example_instrument
    \<and> as_is_suspicious example_assessment"
proof -
  have d: "accepts example_instrument 60000"
      "deviation_percent 60000 50000 > i_maximum_dynamic_threshold_percent example_instrument"
    by (simp_all add: accepts_def example_deviation example_instrument_def)
  have "0 < i_base_anomaly_threshold_percent example_instrument"
    by (simp add: example_instrument_def)
  from assessment_within_limits [OF example_instrument_valid this example_assessment_computed] d
  show ?thesis
    by blast
qed

text \<open>The dynamic threshold is monotone: a more volatile history, an older previous price and
  a more reliable provider only ever widen it, and it stays between half the base threshold and the
  instrument's maximum.\<close>

theorem dynamic_threshold_monotone_bounded:
  assumes "0 < b" "b \<le> m" "0 \<le> v" "v \<le> v'" "0 \<le> r" "r \<le> r'" "s \<le> s'"
  shows "dmul b (1/2) \<le> dynamic_threshold b m v r s
    \<and> dynamic_threshold b m v r s \<le> dynamic_threshold b m v' r' s'
    \<and> dynamic_threshold b m v' r' s' \<le> m"
  using dynamic_threshold_bounds[OF assms(1,2)] dynamic_threshold_mono[of b v v' r r' s s'] assms
  by simp

theorem dynamic_threshold_monotone_bounded_witness:
  "dynamic_threshold 2 8 0 0 (1/2) \<le> dynamic_threshold 2 8 1 2 1 \<and> dynamic_threshold 2 8 1 2 1 \<le> 8"
  using dynamic_threshold_monotone_bounded [of 2 8 0 1 0 2 "1/2" 1] by simp

end
