(* ===== verification/Selection.thy ===== *)
theory Selection
  imports Prelude
begin

text \<open>
  The contract of the loops that walk over a list of quotes and keep those that pass a test and
  whose keys were not seen before. A verifier list in the canonical policy (keys: source family and
  venue) and the approved message sources of the source policy (key: source identity) are built by
  such loops; both interpret this locale.
\<close>

locale greedy_selection =
  fixes ok :: "'a \<Rightarrow> 'e + bool"
    and keys :: "'a \<Rightarrow> 'k set"
    and sel :: "'k set \<Rightarrow> 'a list \<Rightarrow> 'e + 'a list"
  assumes sel_Nil: "sel S [] = Inr []"
    and sel_Cons: "sel S (x # xs) = ebind (ok x) (\<lambda>b.
          if b \<and> keys x \<inter> S = {} then ebind (sel (S \<union> keys x) xs) (\<lambda>ys. Inr (x # ys))
          else sel S xs)"
begin

lemma sel_Cons_Inr:
  assumes "sel S (x # xs) = Inr ys"
  obtains (keep) zs where "ok x = Inr True" "keys x \<inter> S = {}" "sel (S \<union> keys x) xs = Inr zs" "ys = x # zs"
    | (drop) "ok x = Inr False \<or> keys x \<inter> S \<noteq> {}" "sel S xs = Inr ys"
  using assms by (auto simp: sel_Cons err_simps split: if_splits)

text \<open>What is selected comes from the input, passes the test and has no key seen before.\<close>

lemma sel_sound:
  assumes "sel S xs = Inr ys" "y \<in> set ys"
  shows "y \<in> set xs \<and> ok y = Inr True \<and> keys y \<inter> S = {}"
  using assms
proof (induction xs arbitrary: S ys)
  case (Cons x xs)
  from Cons.prems(1) show ?case
  proof (cases rule: sel_Cons_Inr)
    case (keep zs)
    then show ?thesis
      using Cons.IH[OF keep(3)] Cons.prems(2) by auto
  next
    case drop
    then show ?thesis
      using Cons by auto
  qed
qed (simp add: sel_Nil)

text \<open>Two selected items never share a key.\<close>

lemma sel_independent: "sel S xs = Inr ys \<Longrightarrow> sorted_wrt (\<lambda>y z. keys y \<inter> keys z = {}) ys"
proof (induction xs arbitrary: S ys)
  case (Cons x xs)
  from Cons.prems show ?case
  proof (cases rule: sel_Cons_Inr)
    case (keep zs)
    then show ?thesis
      using Cons.IH[OF keep(3)] sel_sound[OF keep(3)] by auto
  qed (use Cons in auto)
qed (simp add: sel_Nil)

lemma sel_nth_independent:
  assumes "sel S xs = Inr ys" "i < length ys" "j < length ys" "i \<noteq> j"
  shows "keys (ys ! i) \<inter> keys (ys ! j) = {}"
  using sel_independent[OF assms(1)] assms(2-4) unfolding sorted_wrt_iff_nth_less
  by (metis Int_commute nat_neq_iff)

text \<open>An item that passes the test is left out only for a key that was already taken.\<close>

lemma sel_complete:
  assumes "sel S xs = Inr ys" "x \<in> set xs" "ok x = Inr True" "keys x \<noteq> {}"
  shows "keys x \<inter> (S \<union> (\<Union>y\<in>set ys. keys y)) \<noteq> {}"
  using assms
proof (induction xs arbitrary: S ys)
  case (Cons a xs)
  from Cons.prems(1) show ?case
  proof (cases rule: sel_Cons_Inr)
    case (keep zs)
    show ?thesis
    proof (cases "x = a")
      case False
      then have "keys x \<inter> ((S \<union> keys a) \<union> (\<Union>y\<in>set zs. keys y)) \<noteq> {}"
        using Cons.IH[OF keep(3)] Cons.prems by simp
      then show ?thesis
        using keep(4) by auto
    qed (use keep Cons.prems in auto)
  next
    case drop
    then show ?thesis
      using Cons by auto
  qed
qed simp

lemma sel_length: "sel S xs = Inr ys \<Longrightarrow> length ys \<le> length xs"
proof (induction xs arbitrary: S ys)
  case (Cons a xs)
  from Cons.prems show ?case
  proof (cases rule: sel_Cons_Inr)
    case (keep zs)
    then show ?thesis
      using Cons.IH[OF keep(3)] by simp
  next
    case drop
    then show ?thesis
      using Cons.IH[of S ys] by simp
  qed
qed (simp add: sel_Nil)

lemma sel_total:
  assumes "\<And>x. x \<in> set xs \<Longrightarrow> \<exists>b. ok x = Inr b"
  shows "\<exists>ys. sel S xs = Inr ys"
  using assms
proof (induction xs arbitrary: S)
  case (Cons x xs)
  obtain b where b: "ok x = Inr b"
    using Cons.prems[of x] by auto
  obtain zs zs' where "sel (S \<union> keys x) xs = Inr zs" "sel S xs = Inr zs'"
    using Cons by (metis list.set_intros(2))
  with b show ?case
    by (simp add: sel_Cons)
qed (simp add: sel_Nil)

end

end
