(* ===== verification/Source_Policy.thy ===== *)
theory Source_Policy
  imports Anomaly Selection
begin

text \<open>
  Model of \<open>apps/api/app/pricing/source_policy.py\<close>: which Telegram observations may verify a
  candidate, and when approved observations may stand in as a fallback price.

  \<open>eligible_for_role\<close> is the loop over the stored quotes with its set of identities already taken;
  it interprets the selection contract, which gives that the approved sources are independent.
\<close>

section \<open>Eligibility\<close>

definition minimum_verifier_trust :: rat where "minimum_verifier_trust = 1/2"

definition minimum_fallback_trust :: rat where "minimum_fallback_trust = 4/5"

definition source_identity :: "provider_quote \<Rightarrow> string" where
  "source_identity q =
     (let v = dict_get (q_metadata q) ''source_identity'' PNone
      in py_text (or_val v (PStr [])))"

text \<open>The four numbers read inside the \<open>try\<close> block: any conversion error skips the quote.\<close>

definition role_limits ::
  "instrument_definition \<Rightarrow> provider_quote \<Rightarrow> (pydec \<times> pydec \<times> int \<times> pydec) result" where
  "role_limits i q =
     ebind (py_decimal (dict_get (q_metadata q) ''trust_score'' (PStr ''0''))) (\<lambda>trust.
     ebind (py_decimal (dict_get (q_metadata q) ''minimum_confidence'' (PStr ''1''))) (\<lambda>conf.
     ebind (py_int (dict_get (q_metadata q) ''maximum_message_age_seconds''
              (PInt (i_operational_ttl_seconds i)))) (\<lambda>age.
     ebind (py_decimal (dict_get (q_metadata q) ''maximum_deviation_percent'' (PStr ''0''))) (\<lambda>dev.
     Inr (trust, conf, age, dev)))))"

definition fits_role ::
  "instrument_definition \<Rightarrow> string \<Rightarrow> rat \<Rightarrow> instant \<Rightarrow> provider_quote \<Rightarrow> bool" where
  "fits_role i role minimum_trust current q =
     (case role_limits i q of
        Inr (DFin trust, DFin conf, age, DFin dev) \<Rightarrow>
          (let age_seconds = total_seconds (current - q_observed_at q) in
           q_source_type q = ST_TELEGRAM
           \<and> q_source_semantic q = TELEGRAM_OBSERVATION
           \<and> q_instrument_id q = i_instrument_id i
           \<and> q_validation_status q = ACCEPTED
           \<and> q_price q \<noteq> None
           \<and> \<not> q_is_derived q
           \<and> \<not> q_is_suspicious q
           \<and> py_truth (dict_get (q_metadata q) ''whitelisted'' (PBool False))
           \<and> dict_get (q_metadata q) ''source_role'' PNone = PStr role
           \<and> py_truth (dict_get (q_metadata q) (''approved_'' @ role) (PBool False))
           \<and> q_id q \<noteq> None
           \<and> source_identity q \<noteq> []
           \<and> \<not> trust < minimum_trust \<and> \<not> trust > 1
           \<and> 0 \<le> conf \<and> conf \<le> 1
           \<and> \<not> q_confidence_score q < conf
           \<and> \<not> dev \<le> 0
           \<and> \<not> age \<le> 0
           \<and> \<not> age_seconds < 0
           \<and> \<not> age_seconds > of_int (min age (i_operational_ttl_seconds i)))
      | _ \<Rightarrow> False)"

fun eligible_for_role ::
  "instrument_definition \<Rightarrow> string \<Rightarrow> rat \<Rightarrow> instant \<Rightarrow> string set \<Rightarrow> provider_quote list
   \<Rightarrow> provider_quote list" where
  "eligible_for_role i role minimum_trust current source_ids [] = []"
| "eligible_for_role i role minimum_trust current source_ids (q # quotes) =
     (if fits_role i role minimum_trust current q \<and> source_identity q \<notin> source_ids
      then q # eligible_for_role i role minimum_trust current
                 (insert (source_identity q) source_ids) quotes
      else eligible_for_role i role minimum_trust current source_ids quotes)"

definition difference_percent :: "rat \<Rightarrow> rat \<Rightarrow> rat" where
  "difference_percent left right =
     (if right \<le> 0 then 999 else dmul (dctx (dabs (dsub left right) / right)) 100)"

text \<open>\<open>metadata[key]\<close> as a positive decimal. Infinities and text that is no number give \<open>None\<close>.\<close>

definition metadata_decimal :: "provider_quote \<Rightarrow> string \<Rightarrow> rat option" where
  "metadata_decimal q key =
     (case q_metadata q key of
        None \<Rightarrow> None
      | Some v \<Rightarrow> (case py_decimal v of
          Inr (DFin x) \<Rightarrow> if x > 0 then Some x else None
        | _ \<Rightarrow> None))"

section \<open>Verifiers\<close>

definition confirms :: "provider_quote \<Rightarrow> rat \<Rightarrow> provider_quote \<Rightarrow> bool" where
  "confirms candidate maximum_difference q =
     (case (metadata_decimal q ''maximum_deviation_percent'', q_price q, q_price candidate) of
        (Some dev, Some price, Some cand) \<Rightarrow> difference_percent cand price \<le> min maximum_difference dev
      | _ \<Rightarrow> False)"

definition trust_of :: "provider_quote \<Rightarrow> rat" where
  "trust_of q = (case py_decimal (dict_get (q_metadata q) ''trust_score'' PNone) of
      Inr (DFin x) \<Rightarrow> x | _ \<Rightarrow> 0)"

definition telegram_verifiers ::
  "instrument_definition \<Rightarrow> provider_quote \<Rightarrow> provider_quote list \<Rightarrow> rat \<Rightarrow> int \<Rightarrow> instant
   \<Rightarrow> provider_quote list" where
  "telegram_verifiers i candidate quotes maximum_difference maximum_count now =
     (let eligible = eligible_for_role i ''verifier'' minimum_verifier_trust now {} quotes;
          confirming = filter (confirms candidate maximum_difference) eligible
      in take (nat (max 0 maximum_count))
           (sort_desc (\<lambda>q. (trust_of q, q_confidence_score q, q_observed_at q)) confirming))"

section \<open>Fallback\<close>

record telegram_fallback_decision =
  tf_eligible :: bool
  tf_price :: "rat option"
  tf_quote_ids :: "int list"
  tf_source_ids :: "string list"
  tf_reason :: string

definition within_reference :: "rat option \<Rightarrow> provider_quote list \<Rightarrow> provider_quote list" where
  "within_reference reference eligible =
     (case reference of
        Some ref \<Rightarrow>
          if ref > 0 then
            filter (\<lambda>q. case (metadata_decimal q ''maximum_deviation_percent'', q_price q) of
                (Some dev, Some price) \<Rightarrow> difference_percent ref price \<le> dev | _ \<Rightarrow> False) eligible
          else eligible
      | None \<Rightarrow> eligible)"

definition telegram_refused :: "string list \<Rightarrow> string \<Rightarrow> telegram_fallback_decision" where
  "telegram_refused sources reason =
     \<lparr>tf_eligible = False, tf_price = None, tf_quote_ids = [], tf_source_ids = sources,
      tf_reason = reason\<rparr>"

definition quote_prices :: "provider_quote list \<Rightarrow> rat list" where
  "quote_prices qs = List.map_filter q_price qs"

definition telegram_fallback_decide ::
  "provider_quote list \<Rightarrow> rat \<Rightarrow> telegram_fallback_decision result" where
  "telegram_fallback_decide eligible maximum_difference =
     (let source_ids = sort (remdups (map (\<lambda>q. py_text (dict_get (q_metadata q) ''source_identity'' PNone))
            eligible));
          requires_two = list_ex (\<lambda>q. py_truth (dict_get (q_metadata q)
            ''requires_multiple_sources'' (PBool False))) eligible;
          required_count = (if requires_two then 2 else 1);
          prices = quote_prices eligible;
          approved = (\<lambda>chosen. \<lparr>tf_eligible = True, tf_price = Some chosen,
            tf_quote_ids = List.map_filter q_id eligible, tf_source_ids = source_ids,
            tf_reason = ''approved_telegram_fallback_sources_agree''\<rparr>)
      in if length eligible < required_count
         then Inr (telegram_refused source_ids ''insufficient_independent_telegram_sources'')
         else ebind (dmedian prices) (\<lambda>chosen.
           if length prices \<ge> 2 then
             ebind (ddiv (dsub (max_of (hd prices) (tl prices)) (min_of (hd prices) (tl prices))) chosen)
               (\<lambda>ratio.
               let spread = dmul ratio 100;
                   source_limits = List.map_filter (\<lambda>q. metadata_decimal q ''maximum_deviation_percent'')
                     eligible
               in case source_limits of
                    [] \<Rightarrow> Inr (telegram_refused source_ids ''invalid_telegram_source_deviation'')
                  | l # ls \<Rightarrow>
                      if spread > min maximum_difference (min_of l ls)
                      then Inr (telegram_refused source_ids ''telegram_sources_disagree'')
                      else Inr (approved chosen))
           else Inr (approved chosen)))"

definition telegram_fallback ::
  "instrument_definition \<Rightarrow> provider_quote list \<Rightarrow> rat \<Rightarrow> rat option \<Rightarrow> instant
   \<Rightarrow> telegram_fallback_decision result" where
  "telegram_fallback i quotes maximum_difference reference_price now =
     telegram_fallback_decide
       (within_reference reference_price
          (eligible_for_role i ''fallback'' minimum_fallback_trust now {} quotes))
       maximum_difference"

section \<open>The selection contract\<close>

interpretation role: greedy_selection "\<lambda>q. Inr (fits_role i role mt now q)" "\<lambda>q. {source_identity q}"
    "\<lambda>S qs. Inr (eligible_for_role i role mt now S qs)" for i role mt now
  by unfold_locales (auto simp: insert_commute Un_commute)

lemma fits_role_facts:
  assumes "fits_role i role mt now q"
  shows "q_source_semantic q = TELEGRAM_OBSERVATION" "q_instrument_id q = i_instrument_id i"
    "q_validation_status q = ACCEPTED" "q_price q \<noteq> None" "\<not> q_is_derived q" "\<not> q_is_suspicious q"
    "q_id q \<noteq> None" "source_identity q \<noteq> []"
    "\<exists>t. py_decimal (dict_get (q_metadata q) ''trust_score'' (PStr ''0'')) = Inr (DFin t) \<and> mt \<le> t \<and> t \<le> 1"
    "q_observed_at q \<le> now"
    "total_seconds (now - q_observed_at q) \<le> of_int (i_operational_ttl_seconds i)"
  using assms
  by (auto simp: fits_role_def role_limits_def err_simps Let_def not_less
      split: sum.splits prod.splits pydec.splits)

lemma map_filter_all:
  "(\<And>x. x \<in> set xs \<Longrightarrow> f x \<noteq> None) \<Longrightarrow> List.map_filter f xs = map (\<lambda>x. the (f x)) xs"
  by (induction xs) (auto simp: map_filter_simps split: option.splits)

lemma within_reference_subset: "set (within_reference r qs) \<subseteq> set qs"
  by (auto simp: within_reference_def split: option.splits)

lemma within_reference_sublist:
  "distinct (map f qs) \<Longrightarrow> distinct (map f (within_reference r qs))"
  by (auto simp: within_reference_def distinct_map_filter split: option.splits)

lemma eligible_distinct: "distinct (map source_identity (eligible_for_role i role mt now S qs))"
  using role.sel_nth_independent[of i role mt now S qs]
  by (auto simp: distinct_conv_nth)

lemma eligible_sound:
  "q \<in> set (eligible_for_role i role mt now S qs) \<Longrightarrow>
     q \<in> set qs \<and> fits_role i role mt now q \<and> source_identity q \<notin> S"
  using role.sel_sound[of i role mt now S qs] by auto

lemma telegram_fallback_decide_approved:
  assumes "telegram_fallback_decide el md = Inr d" "tf_eligible d"
  shows "\<exists>p. tf_price d = Some p \<and> dmedian (quote_prices el) = Inr p"
    "tf_quote_ids d = List.map_filter q_id el" "el \<noteq> []"
    "list_ex (\<lambda>q. py_truth (dict_get (q_metadata q) ''requires_multiple_sources'' (PBool False))) el
       \<Longrightarrow> 2 \<le> length el"
  using assms
  by (auto simp: telegram_fallback_decide_def Let_def err_simps telegram_refused_def not_less
      split: if_splits list.splits)

section \<open>Properties\<close>

text \<open>A Telegram fallback is approved only on approved, independent sources: the quotes it
  names were passed in, each satisfies every fallback condition for this instrument (Telegram
  observation, accepted, neither derived nor suspicious, trusted, recent, stored), no two share a
  source identity, at least two are used when one of them asks for it, and the price is the median of
  their prices, so it lies between their lowest and highest price.\<close>

theorem telegram_fallback_approved:
  assumes "telegram_fallback i quotes md ref now = Inr d" and "tf_eligible d"
  shows "\<exists>used p. set used \<subseteq> set quotes \<and> used \<noteq> []
    \<and> (\<forall>q\<in>set used. fits_role i ''fallback'' (4/5) now q)
    \<and> distinct (map source_identity used)
    \<and> ((\<exists>q\<in>set used. py_truth (dict_get (q_metadata q) ''requires_multiple_sources'' (PBool False)))
         \<longrightarrow> 2 \<le> length used)
    \<and> map Some (tf_quote_ids d) = map q_id used
    \<and> tf_price d = Some p \<and> dmedian (quote_prices used) = Inr p
    \<and> ((\<forall>x\<in>set (quote_prices used). price_grid x) \<longrightarrow>
         Min (set (quote_prices used)) \<le> p \<and> p \<le> Max (set (quote_prices used)))"
proof -
  let ?all = "eligible_for_role i ''fallback'' minimum_fallback_trust now {} quotes"
  define used where "used = within_reference ref ?all"
  have dec: "telegram_fallback_decide used md = Inr d"
    using assms(1) by (simp add: telegram_fallback_def used_def)
  note ok = telegram_fallback_decide_approved[OF dec assms(2)]
  have fits: "q \<in> set quotes \<and> fits_role i ''fallback'' (4/5) now q" if "q \<in> set used" for q
    using that within_reference_subset[of ref ?all] eligible_sound
    by (fastforce simp: used_def minimum_fallback_trust_def)
  obtain p where p: "tf_price d = Some p" "dmedian (quote_prices used) = Inr p"
    using ok(1) by blast
  have "q_id q \<noteq> None" if "q \<in> set used" for q
    using fits[OF that] fits_role_facts(7) by blast
  then have "map Some (tf_quote_ids d) = map q_id used"
    unfolding ok(2) by (subst map_filter_all) auto
  moreover have "distinct (map source_identity used)"
    unfolding used_def by (rule within_reference_sublist[OF eligible_distinct])
  moreover have "Min (set (quote_prices used)) \<le> p \<and> p \<le> Max (set (quote_prices used))"
    if "\<forall>x\<in>set (quote_prices used). price_grid x"
    by (rule dmedian_between[OF p(2) that]) auto
  ultimately show ?thesis
    using fits ok(3,4) p by (intro exI[of _ used] exI[of _ p]) (auto simp: list_ex_iff)
qed

definition example_telegram_quote :: "string \<Rightarrow> provider_quote" where
  "example_telegram_quote role = (raw_quote example_quote_args (Some 50000) None None None None 1)
     \<lparr>q_source_type := ST_TELEGRAM, q_source_semantic := TELEGRAM_OBSERVATION, q_observed_at := 0,
      q_source_family := ''channel'', q_venue := ''channel'',
      q_metadata := [''source_identity'' \<mapsto> PStr ''channel'', ''trust_score'' \<mapsto> PDecStr (9/10),
        ''minimum_confidence'' \<mapsto> PDecStr (1/2), ''maximum_message_age_seconds'' \<mapsto> PInt 120,
        ''maximum_deviation_percent'' \<mapsto> PInt 3, ''whitelisted'' \<mapsto> PBool True,
        ''source_role'' \<mapsto> PStr role, ''approved_'' @ role \<mapsto> PBool True]\<rparr>"

lemma example_identity [simp]: "source_identity (example_telegram_quote role) = ''channel''"
  by (simp add: source_identity_def example_telegram_quote_def dict_get_def or_val_def)

lemma example_fits:
  "fits_role example_instrument ''fallback'' (4/5) 1000000 (example_telegram_quote ''fallback'')"
  "fits_role example_instrument ''verifier'' (1/2) 1000000 (example_telegram_quote ''verifier'')"
  by (simp_all add: fits_role_def role_limits_def dict_get_def example_telegram_quote_def
      raw_quote_def example_quote_args_def default_args_def example_instrument_def
      total_seconds_def source_identity_def or_val_def round_sig_short[of 2 53 1 0, simplified])

lemma example_fallback:
  "\<exists>d. telegram_fallback example_instrument [example_telegram_quote ''fallback''] 2 None 1000000 = Inr d
     \<and> tf_eligible d"
  using example_fits(1)
  by (simp add: telegram_fallback_def minimum_fallback_trust_def within_reference_def
      telegram_fallback_decide_def Let_def quote_prices_def map_filter_simps)
    (simp add: example_telegram_quote_def raw_quote_def dict_get_def map_filter_simps)

theorem telegram_fallback_approved_witness:
  "\<exists>d used p. telegram_fallback example_instrument [example_telegram_quote ''fallback''] 2 None 1000000 = Inr d
     \<and> used \<noteq> [] \<and> tf_price d = Some p \<and> dmedian (quote_prices used) = Inr p"
  using example_fallback telegram_fallback_approved
    [of example_instrument "[example_telegram_quote ''fallback'']" 2 None 1000000]
  by blast

text \<open>Telegram verifiers are never more than asked for, each satisfies every verifier
  condition and lies within the tolerated difference of the candidate, no source is counted twice,
  and the most trusted come first.\<close>

theorem telegram_verifiers_sound:
  "let vs = telegram_verifiers i cand quotes md n now in
    int (length vs) \<le> max 0 n
    \<and> (\<forall>q\<in>set vs. q \<in> set quotes \<and> fits_role i ''verifier'' (1/2) now q \<and> confirms cand md q)
    \<and> sorted_wrt (\<lambda>q r. trust_of r \<le> trust_of q) vs
    \<and> distinct (map source_identity vs)"
proof -
  define vs where "vs = telegram_verifiers i cand quotes md n now"
  let ?el = "eligible_for_role i ''verifier'' minimum_verifier_trust now {} quotes"
  let ?key = "\<lambda>q. (trust_of q, q_confidence_score q, q_observed_at q)"
  let ?s = "sort_desc ?key (filter (confirms cand md) ?el)"
  have vs: "vs = take (nat (max 0 n)) ?s"
    by (simp add: vs_def telegram_verifiers_def Let_def)
  have sub: "set vs \<subseteq> set (filter (confirms cand md) ?el)"
    unfolding vs using set_take_subset[of _ ?s] by simp
  have "sorted_wrt (\<lambda>q r. ?key r \<le> ?key q) vs"
    unfolding vs by (rule sorted_wrt_take[OF sort_desc_sorted])
  then have "sorted_wrt (\<lambda>q r. trust_of r \<le> trust_of q) vs"
    by (rule sorted_wrt_mono_rel[rotated]) auto
  moreover have "distinct (map source_identity vs)"
    unfolding vs take_map[symmetric]
    by (rule distinct_take)
      (simp add: distinct_map_sort_desc distinct_map_filter eligible_distinct)
  ultimately show ?thesis
    using sub eligible_sound[of _ i "''verifier''" minimum_verifier_trust now "{}" quotes]
    unfolding vs_def[symmetric] Let_def by (fastforce simp: vs minimum_verifier_trust_def)
qed

theorem telegram_verifiers_sound_witness:
  "let vs = telegram_verifiers example_instrument (example_telegram_quote ''verifier'')
      [example_telegram_quote ''verifier'', example_telegram_quote ''verifier''] 2 5 1000000
   in length vs = 1 \<and> fits_role example_instrument ''verifier'' (1/2) 1000000 (hd vs)"
proof -
  let ?q = "example_telegram_quote ''verifier''"
  let ?vs = "telegram_verifiers example_instrument ?q [?q, ?q] 2 5 1000000"
  have "confirms ?q 2 ?q"
    by (simp add: confirms_def metadata_decimal_def difference_percent_def example_telegram_quote_def
        raw_quote_def)
  then have "?vs = [?q]"
    using example_fits(2)
    by (simp add: telegram_verifiers_def minimum_verifier_trust_def sort_desc_def)
  then show ?thesis
    using telegram_verifiers_sound [of example_instrument ?q "[?q, ?q]" 2 5 1000000]
    by (simp add: Let_def)
qed

end
