(* ===== verification/Canonical.thy ===== *)
theory Canonical
  imports Source_Policy
begin

text \<open>
  Model of \<open>apps/api/app/pricing/canonical.py\<close>: the policy that turns a primary quote, its verifiers
  and an anomaly assessment into the canonical price of an instrument, the fallback decisions, and the
  construction of a canonical quote with its windows.

  \<^item> A summary dictionary is a map; the fields of a source are an association list (\<open>source_fields\<close>)
    in the order of the code, because they are also stored as a list of dictionaries.
  \<^item> \<open>quote is primary\<close> compares object identity: the comparable quotes carry their position
    (\<open>enumerate\<close>), the primary being at position 0.
  \<^item> \<open>select_verifiers\<close> is the loop with its two sets of families and venues already seen; it
    interprets the selection contract.
\<close>

section \<open>Freshness of a quote\<close>

definition caught_int :: "pyval \<Rightarrow> int \<Rightarrow> int result" where
  "caught_int v dflt =
     (case py_int v of
        Inr n \<Rightarrow> Inr n
      | Inl (TypeError _) \<Rightarrow> Inr dflt
      | Inl (ValueError _) \<Rightarrow> Inr dflt
      | Inl e \<Rightarrow> Inl e)"

definition quote_freshness_boundaries ::
  "provider_quote \<Rightarrow> instrument_definition \<Rightarrow> freshness_boundaries result" where
  "quote_freshness_boundaries q i =
     (let ttl = i_operational_ttl_seconds i in
      ebind (caught_int (dict_get (q_metadata q) ''provider_live_ttl_seconds'' (PInt ttl)) ttl)
        (\<lambda>provider_ttl.
      ebind (require (\<not> provider_ttl \<le> 0) (ValueError ''Provider live TTL must be positive'')) (\<lambda>_.
      ebind (caught_int (dict_get (q_metadata q) ''maximum_source_age_seconds''
               (PInt (min provider_ttl ttl))) (min provider_ttl ttl)) (\<lambda>maximum_source_age.
      ebind (require (\<not> maximum_source_age \<le> 0) (ValueError ''Maximum source age must be positive''))
        (\<lambda>_.
      ebind (freshness_policy_post_init
          \<lparr>maximum_source_age_seconds = min maximum_source_age (i_expire_after_seconds i),
           provider_live_ttl_seconds = provider_ttl,
           instrument_operational_ttl_seconds = ttl,
           instrument_stale_after_seconds = i_stale_after_seconds i,
           instrument_expire_after_seconds = i_expire_after_seconds i,
           future_clock_skew_seconds = default_future_clock_skew_seconds,
           anchor_live_window_at_receive_time =
             py_truth (dict_get (q_metadata q) ''anchor_live_window_at_receive_time'' (PBool False))\<rparr>)
        (\<lambda>policy.
      freshness_boundaries_of (utc (q_observed_at q)) (utc (q_received_at q)) policy))))))"

definition is_fresh_quote ::
  "provider_quote \<Rightarrow> instrument_definition \<Rightarrow> instant \<Rightarrow> bool result" where
  "is_fresh_quote q i current =
     (case quote_freshness_boundaries q i of
        Inr b \<Rightarrow> Inr (status_at b (utc current) = FLive)
      | Inl (ValueError _) \<Rightarrow> Inr False
      | Inl e \<Rightarrow> Inl e)"

definition quote_live_eligible_until ::
  "provider_quote \<Rightarrow> instrument_definition \<Rightarrow> instant result" where
  "quote_live_eligible_until q i =
     (let input_live = dict_get (q_metadata q) ''input_live_eligible_until'' PNone
      in if q_is_derived q \<and> input_live \<noteq> PNone then parse_datetime input_live
         else ebind (quote_freshness_boundaries q i) (\<lambda>b.
           let raw_value = dict_get (q_metadata q) ''effective_live_eligible_until'' PNone
           in if raw_value \<noteq> PNone
              then ebind (parse_datetime raw_value) (\<lambda>t. Inr (min (fb_live_eligible_until b) t))
              else Inr (fb_live_eligible_until b)))"

section \<open>Verifiers\<close>

definition is_market_quote :: "provider_quote \<Rightarrow> bool" where
  "is_market_quote q \<longleftrightarrow> q_source_semantic q \<in>
     {EXCHANGE_ORDERBOOK, EXCHANGE_TRADE, AGGREGATOR, REFERENCE_RATE, PHYSICAL_MARKET_QUOTE}"

definition is_eligible_verifier ::
  "provider_quote \<Rightarrow> instrument_definition \<Rightarrow> instant \<Rightarrow> bool" where
  "is_eligible_verifier q i current =
     (if is_market_quote q then True
      else if q_source_semantic q \<noteq> TELEGRAM_OBSERVATION then False
      else eligible_for_role i ''verifier'' minimum_verifier_trust current {} [q] \<noteq> [])"

definition independence_values :: "provider_quote \<Rightarrow> string \<times> string" where
  "independence_values q =
     (let family = (if q_source_family q = [] then q_provider_id q else q_source_family q);
          venue = (if q_venue q = [] then family else q_venue q)
      in (lower (strip family), lower (strip venue)))"

definition verifier_ok ::
  "instrument_definition \<Rightarrow> instant \<Rightarrow> provider_quote \<Rightarrow> provider_quote \<Rightarrow> bool result" where
  "verifier_ok i current primary q =
     (if q_price q \<noteq> None \<and> is_eligible_verifier q i current
         \<and> q_validation_status q = ACCEPTED \<and> q_persistence_status q = PERSISTED
         \<and> q_instrument_id q = q_instrument_id primary
      then is_fresh_quote q i current else Inr False)"

primrec select_verifiers ::
  "instrument_definition \<Rightarrow> instant \<Rightarrow> provider_quote \<Rightarrow> string set \<Rightarrow> string set
   \<Rightarrow> provider_quote list \<Rightarrow> provider_quote list result" where
  "select_verifiers i current primary seen_families seen_venues [] = Inr []"
| "select_verifiers i current primary seen_families seen_venues (q # quotes) =
     ebind (verifier_ok i current primary q) (\<lambda>fresh.
       let family = fst (independence_values q); venue = snd (independence_values q)
       in if fresh \<and> family \<notin> seen_families \<and> venue \<notin> seen_venues
          then ebind (select_verifiers i current primary (insert family seen_families)
                 (insert venue seen_venues) quotes) (\<lambda>rest. Inr (q # rest))
          else select_verifiers i current primary seen_families seen_venues quotes)"

text \<open>\<open>_difference_percent\<close> with an optional right side.\<close>

definition opt_difference_percent :: "rat \<Rightarrow> rat option \<Rightarrow> rat" where
  "opt_difference_percent left right =
     (case right of None \<Rightarrow> 999 | Some r \<Rightarrow> difference_percent left r)"

section \<open>Consensus\<close>

type_synonym item = "nat \<times> provider_quote"

definition item_price :: "item \<Rightarrow> rat" where
  "item_price x = (case q_price (snd x) of None \<Rightarrow> 0 | Some p \<Rightarrow> p)"

definition cluster_deviation :: "item list \<Rightarrow> rat result" where
  "cluster_deviation cluster =
     ebind (dmedian (map item_price cluster)) (\<lambda>center.
     ebind (emap (\<lambda>x. ebind (ddiv (dabs (dsub (item_price x) center)) center)
                      (\<lambda>y. Inr (dmul y 100))) cluster) (\<lambda>ds.
     Inr (max_of (hd ds) (tl ds))))"

text \<open>The contiguous runs \<open>ordered[start:end]\<close> in the order of the two loops.\<close>

definition runs :: "'a list \<Rightarrow> 'a list list" where
  "runs xs = concat (map (\<lambda>start. map (\<lambda>stop. take (stop - start) (drop start xs))
                            [start + 1..<length xs + 1]) [0..<length xs])"

fun best_cluster :: "rat \<Rightarrow> item list \<Rightarrow> item list list \<Rightarrow> item list result" where
  "best_cluster tolerance best [] = Inr best"
| "best_cluster tolerance best (cluster # clusters) =
     ebind (cluster_deviation cluster) (\<lambda>d.
       best_cluster tolerance
         (if d \<le> tolerance \<and> length cluster > length best then cluster else best) clusters)"

definition consensus_cluster :: "item list \<Rightarrow> rat \<Rightarrow> item list result" where
  "consensus_cluster quotes tolerance =
     best_cluster tolerance []
       (runs (sort_key item_price (filter (\<lambda>x. q_price (snd x) \<noteq> None) quotes)))"

section \<open>Summaries\<close>

definition source_fields :: "provider_quote \<Rightarrow> (string \<times> pyval) list result" where
  "source_fields q =
     ebind (json_number (q_bid q)) (\<lambda>bid.
     ebind (json_number (q_ask q)) (\<lambda>ask.
     ebind (json_number (q_last q)) (\<lambda>lst.
     ebind (json_number (q_original_value q)) (\<lambda>orig.
     ebind (json_number (Some (q_conversion_factor q))) (\<lambda>factor.
     ebind (json_number (q_spread_bps q)) (\<lambda>spread.
     Inr [(''source_semantic'', PStr (source_semantic_value (q_source_semantic q))),
          (''source_family'', PStr (q_source_family q)),
          (''venue'', PStr (q_venue q)),
          (''bid'', bid), (''ask'', ask), (''last'', lst),
          (''selected_price_semantic'', PStr (price_semantic_value (q_selected_price_semantic q))),
          (''original_currency'', PStr (q_original_currency q)),
          (''original_value'', orig),
          (''conversion_factor'', factor),
          (''source_timestamp'', PIso (q_observed_at q)),
          (''receive_timestamp'', PIso (q_received_at q)),
          (''route_id'', PStr (q_route_id q)),
          (''spread_bps'', spread),
          (''derivation_depth'', PInt (q_derivation_depth q)),
          (''provenance'', PList (q_provenance q))]))))))"

definition verification_summary ::
  "provider_quote \<Rightarrow> provider_quote list \<Rightarrow> anomaly_assessment \<Rightarrow> dict result" where
  "verification_summary primary verifiers assessment =
     ebind (json_number (q_price primary)) (\<lambda>price.
     ebind (json_number (Some (as_deviation_percent assessment))) (\<lambda>difference.
     ebind (source_fields primary) (\<lambda>fields.
     ebind (emap source_fields (primary # verifiers)) (\<lambda>sources.
     Inr (([''primary_provider_id'' \<mapsto> PStr (q_provider_id primary),
            ''provider_ids'' \<mapsto> PList (map q_provider_id (primary # verifiers)),
            ''source_count'' \<mapsto> PInt (1 + int (length verifiers)),
            ''direct_source_count'' \<mapsto> PInt (int (length (filter q_is_direct (primary # verifiers)))),
            ''derived'' \<mapsto> PBool False,
            ''candidate_price'' \<mapsto> price,
            ''candidate_difference_percent'' \<mapsto> difference,
            ''verification_progress'' \<mapsto> PStr ''complete'']
           ++ map_of fields)(''sources'' \<mapsto> PDicts sources))))))"

section \<open>Building a canonical quote\<close>

definition canonical_of ::
  "string \<Rightarrow> rat \<Rightarrow> canonical_status \<Rightarrow> int option \<Rightarrow> int list \<Rightarrow> dict \<Rightarrow> instant \<Rightarrow> instant
   \<Rightarrow> instant \<Rightarrow> instant \<Rightarrow> instant \<Rightarrow> string \<Rightarrow> verification_status \<Rightarrow> rat option \<Rightarrow> string option
   \<Rightarrow> canonical_quote" where
  "canonical_of iid price status primary_id verifier_ids summary observed_at canonical_at valid_until
     stale_at expires_at reason verification candidate candidate_provider =
   \<lparr>c_id = None, c_instrument_id = iid, c_price = price, c_status = status,
    c_primary_quote_id = primary_id, c_verification_quote_ids = verifier_ids,
    c_source_summary = summary, c_observed_at = observed_at, c_canonical_at = canonical_at,
    c_valid_until = valid_until, c_stale_at = stale_at, c_expires_at = expires_at,
    c_is_persisted = False, c_decision_reason = reason, c_change_1h = None, c_change_24h = None,
    c_change_7d = None, c_change_30d = None, c_verification_status = verification,
    c_candidate_price = candidate, c_candidate_provider_id = candidate_provider,
    c_sequence_number = None, c_idempotency_key = KeyText []\<rparr>"

definition set_default :: "dict \<Rightarrow> string \<Rightarrow> pyval \<Rightarrow> dict" where
  "set_default d k v = (case d k of None \<Rightarrow> d(k \<mapsto> v) | Some _ \<Rightarrow> d)"

definition from_price ::
  "instrument_definition \<Rightarrow> rat \<Rightarrow> instant \<Rightarrow> instant \<Rightarrow> canonical_status \<Rightarrow> int option \<Rightarrow> int list
   \<Rightarrow> verification_status \<Rightarrow> string \<Rightarrow> dict \<Rightarrow> rat option \<Rightarrow> string option \<Rightarrow> instant option
   \<Rightarrow> canonical_quote result" where
  "from_price i price observed_at current status primary_id verifier_ids verification reason
     source_summary candidate candidate_provider live_until =
   (let anchor = (case live_until of None \<Rightarrow> observed_at
          | Some t \<Rightarrow> max observed_at (t - seconds (i_operational_ttl_seconds i)));
        valid_until = (case live_until of None \<Rightarrow> anchor + seconds (i_operational_ttl_seconds i)
          | Some t \<Rightarrow> min (anchor + seconds (i_operational_ttl_seconds i)) t);
        summary = source_summary(''freshness_anchor'' \<mapsto> PIso anchor);
        summary = (case live_until of None \<Rightarrow> summary
          | Some t \<Rightarrow> summary(''source_live_eligible_until'' \<mapsto> PIso t))
    in ebind (json_number (Some (i_maximum_spread_bps i))) (\<lambda>bps.
       canonical_create (canonical_of (i_instrument_id i) price status primary_id verifier_ids
         (set_default summary ''maximum_spread_bps'' bps) observed_at current valid_until
         (anchor + seconds (i_stale_after_seconds i)) (anchor + seconds (i_expire_after_seconds i))
         reason verification candidate candidate_provider)))"

definition keep_previous ::
  "canonical_quote \<Rightarrow> provider_quote \<Rightarrow> anomaly_assessment \<Rightarrow> canonical_status \<Rightarrow> instant
   \<Rightarrow> canonical_quote result" where
  "keep_previous previous candidate assessment status now =
     (case q_price candidate of
        None \<Rightarrow> Inl (ValueError ''Suspicious candidate requires a price'')
      | Some price \<Rightarrow>
          ebind (json_number (Some price)) (\<lambda>candidate_price.
          ebind (json_number (Some (as_deviation_percent assessment))) (\<lambda>difference.
          canonical_create ((canonical_of (c_instrument_id previous) (c_price previous) status
             (c_primary_quote_id previous) []
             ((c_source_summary previous)(
               ''candidate_price'' \<mapsto> candidate_price,
               ''candidate_provider_id'' \<mapsto> PStr (q_provider_id candidate),
               ''candidate_difference_percent'' \<mapsto> difference,
               ''verification_progress'' \<mapsto>
                 PStr (if status = CS_VERIFYING then ''pending'' else ''insufficient''),
               ''fallback_reason'' \<mapsto> PStr ''previous_canonical_kept_during_anomaly''))
             (c_observed_at previous) now (c_valid_until previous) (c_stale_at previous)
             (c_expires_at previous) ''suspicious_candidate_not_activated''
             (if status = CS_VERIFYING then PENDING else INSUFFICIENT)
             (Some price) (Some (q_provider_id candidate)))
             \<lparr>c_change_1h := c_change_1h previous, c_change_24h := c_change_24h previous,
              c_change_7d := c_change_7d previous, c_change_30d := c_change_30d previous\<rparr>))))"

section \<open>Selection\<close>

record canonical_decision =
  d_canonical :: canonical_quote
  d_verification :: verification_decision

definition quote_ids :: "provider_quote list \<Rightarrow> int list" where
  "quote_ids qs = List.map_filter q_id qs"

definition min_live_until ::
  "instrument_definition \<Rightarrow> provider_quote list \<Rightarrow> instant result" where
  "min_live_until i qs =
     ebind (emap (\<lambda>q. quote_live_eligible_until q i) qs) (\<lambda>ts. Inr (min_of (hd ts) (tl ts)))"

definition accept_primary ::
  "instrument_definition \<Rightarrow> provider_quote \<Rightarrow> rat \<Rightarrow> anomaly_assessment option \<Rightarrow> bool \<Rightarrow> instant
   \<Rightarrow> canonical_decision result" where
  "accept_primary i primary price assessment from_fresh_cache current =
     ebind (source_fields primary) (\<lambda>fields.
     ebind (quote_live_eligible_until primary i) (\<lambda>live_until.
     ebind (from_price i price (q_observed_at primary) current
         (if from_fresh_cache then CS_FRESH_CACHE else CS_LIVE) (q_id primary) [] NOT_REQUIRED
         ''valid_primary_provider_quote''
         ([''primary_provider_id'' \<mapsto> PStr (q_provider_id primary),
           ''provider_ids'' \<mapsto> PList [q_provider_id primary],
           ''source_count'' \<mapsto> PInt 1,
           ''direct_source_count'' \<mapsto> PInt (if q_is_direct primary then 1 else 0),
           ''derived'' \<mapsto> PBool False] ++ map_of fields)
         None None (Some live_until)) (\<lambda>canonical.
     Inr \<lparr>d_canonical = canonical, d_verification =
       \<lparr>v_status = NOT_REQUIRED, v_candidate_quote_id = q_id primary, v_verification_quote_ids = [],
        v_deviation_percent = map_option as_deviation_percent assessment,
        v_threshold_percent = (case assessment of None \<Rightarrow> i_base_anomaly_threshold_percent i
          | Some a \<Rightarrow> as_dynamic_threshold_percent a),
        v_decision_reason = ''primary_quote_accepted''\<rparr>\<rparr>)))"

definition confirm_primary ::
  "instrument_definition \<Rightarrow> provider_quote \<Rightarrow> rat \<Rightarrow> anomaly_assessment \<Rightarrow> provider_quote list \<Rightarrow> instant
   \<Rightarrow> canonical_decision result" where
  "confirm_primary i primary price assessment confirming current =
     ebind (verification_summary primary confirming assessment) (\<lambda>summary.
     ebind (min_live_until i (primary # confirming)) (\<lambda>live_until.
     ebind (from_price i price (q_observed_at primary) current CS_CONFIRMED (q_id primary)
         (quote_ids confirming) CONFIRMED ''anomalous_primary_confirmed_by_independent_source''
         summary (Some price) (Some (q_provider_id primary)) (Some live_until)) (\<lambda>canonical.
     Inr \<lparr>d_canonical = canonical, d_verification =
       \<lparr>v_status = CONFIRMED, v_candidate_quote_id = q_id primary,
        v_verification_quote_ids = quote_ids confirming,
        v_deviation_percent = Some (as_deviation_percent assessment),
        v_threshold_percent = as_dynamic_threshold_percent assessment,
        v_decision_reason = ''independent_quote_within_tolerance''\<rparr>\<rparr>)))"

text \<open>
  The consensus branch: the cluster is a list of quotes with their positions, position 0 being the
  primary. \<open>consensus_primary\<close> is the primary when it is in the cluster, else the cluster's first.
\<close>

definition consensus_primary :: "item list \<Rightarrow> item" where
  "consensus_primary cluster =
     (case List.find (\<lambda>x. fst x = 0) cluster of Some x \<Rightarrow> x | None \<Rightarrow> hd cluster)"

definition confirm_consensus ::
  "instrument_definition \<Rightarrow> provider_quote \<Rightarrow> rat \<Rightarrow> anomaly_assessment \<Rightarrow> item list \<Rightarrow> instant
   \<Rightarrow> canonical_decision result" where
  "confirm_consensus i primary price assessment cluster current =
     (let cp = consensus_primary cluster;
          verifiers = map snd (filter (\<lambda>x. fst x \<noteq> fst cp) cluster);
          observed_ats = map (\<lambda>x. q_observed_at (snd x)) cluster
      in
      ebind (dmedian (map item_price cluster)) (\<lambda>chosen_price.
      ebind (verification_summary (snd cp) verifiers assessment) (\<lambda>summary.
      ebind (json_number (Some price)) (\<lambda>candidate_price.
      ebind (min_live_until i (map snd cluster)) (\<lambda>live_until.
      ebind (from_price i chosen_price (min_of (hd observed_ats) (tl observed_ats)) current CS_CONFIRMED
         (q_id (snd cp)) (quote_ids verifiers) CONFIRMED
         ''robust_median_of_independent_fresh_inlier_cluster''
         (summary(''candidate_price'' \<mapsto> candidate_price,
            ''candidate_provider_id'' \<mapsto> PStr (q_provider_id primary),
            ''consensus_method'' \<mapsto> PStr ''median_inlier_cluster'',
            ''consensus_source_count'' \<mapsto> PInt (int (length cluster))))
         (Some price) (Some (q_provider_id primary)) (Some live_until)) (\<lambda>canonical.
      Inr \<lparr>d_canonical = canonical, d_verification =
        \<lparr>v_status = CONFIRMED, v_candidate_quote_id = q_id primary,
         v_verification_quote_ids = quote_ids verifiers,
         v_deviation_percent = Some (as_deviation_percent assessment),
         v_threshold_percent = as_dynamic_threshold_percent assessment,
         v_decision_reason = ''independent_inlier_cluster_reached_robust_consensus''\<rparr>\<rparr>))))))"

definition previous_kept ::
  "provider_quote \<Rightarrow> canonical_quote option \<Rightarrow> anomaly_assessment \<Rightarrow> provider_quote list \<Rightarrow> instant
   \<Rightarrow> canonical_decision result" where
  "previous_kept primary previous assessment verifiers current =
     (let decision = (\<lambda>status reason. \<lparr>v_status = status, v_candidate_quote_id = q_id primary,
            v_verification_quote_ids = quote_ids verifiers,
            v_deviation_percent = Some (as_deviation_percent assessment),
            v_threshold_percent = as_dynamic_threshold_percent assessment,
            v_decision_reason = reason\<rparr>)
      in if verifiers \<noteq> [] then
           (case previous of
              None \<Rightarrow> Inl (ValueError ''Disagreeing quotes cannot bootstrap a canonical price'')
            | Some prev \<Rightarrow>
                ebind (keep_previous prev primary assessment CS_SUSPICIOUS_UNCONFIRMED current) (\<lambda>c.
                Inr \<lparr>d_canonical = c\<lparr>c_verification_status := DISAGREED,
                       c_decision_reason := ''disagreeing_sources_previous_canonical_kept'',
                       c_source_summary := (c_source_summary c)
                         (''verification_progress'' \<mapsto> PStr ''disagreed'')\<rparr>,
                     d_verification = decision DISAGREED
                       ''independent_quotes_disagreed_previous_canonical_kept''\<rparr>))
         else
           (case previous of
              None \<Rightarrow> Inl (ValueError ''Suspicious quote cannot bootstrap a canonical price'')
            | Some prev \<Rightarrow>
                ebind (keep_previous prev primary assessment CS_SUSPICIOUS_UNCONFIRMED current) (\<lambda>c.
                Inr \<lparr>d_canonical = c, d_verification = decision INSUFFICIENT
                       ''insufficient_independent_quotes_previous_canonical_kept''\<rparr>)))"

definition resolve_suspicious ::
  "instrument_definition \<Rightarrow> provider_quote \<Rightarrow> rat \<Rightarrow> canonical_quote option \<Rightarrow> anomaly_assessment
   \<Rightarrow> provider_quote list \<Rightarrow> instant \<Rightarrow> canonical_decision result" where
  "resolve_suspicious i primary price previous assessment verifiers current =
     (let tolerance = as_dynamic_threshold_percent assessment;
          confirming = filter (\<lambda>q. opt_difference_percent price (q_price q) \<le> tolerance) verifiers
      in if confirming \<noteq> [] then confirm_primary i primary price assessment confirming current
         else let comparable = enumerate 0 (primary # verifiers) in
           ebind (consensus_cluster comparable tolerance) (\<lambda>cluster.
           let quorum = length comparable div 2 + 1
           in if length comparable \<ge> 3 \<and> length cluster \<ge> quorum
              then confirm_consensus i primary price assessment cluster current
              else previous_kept primary previous assessment verifiers current))"

definition select ::
  "instrument_definition \<Rightarrow> provider_quote \<Rightarrow> canonical_quote option \<Rightarrow> anomaly_assessment option
   \<Rightarrow> provider_quote list \<Rightarrow> bool \<Rightarrow> instant \<Rightarrow> canonical_decision result" where
  "select i primary previous assessment verifier_quotes from_fresh_cache current =
     (case q_price primary of
        None \<Rightarrow> Inl (ValueError ''Rejected provider quotes cannot become canonical'')
      | Some price \<Rightarrow>
     ebind (require (\<not> q_validation_status primary = REJECTED)
        (ValueError ''Rejected provider quotes cannot become canonical'')) (\<lambda>_.
     ebind (require (q_persistence_status primary = PERSISTED)
        (ValueError ''Unstored provider quotes cannot become canonical'')) (\<lambda>_.
     ebind (require (\<not> q_source_semantic primary \<in> {TELEGRAM_OBSERVATION, DERIVED})
        (ValueError ''Non-market quotes cannot be primary canonical sources'')) (\<lambda>_.
     ebind (is_fresh_quote primary i current) (\<lambda>fresh.
     ebind (require fresh (ValueError ''Primary quote is not live-eligible'')) (\<lambda>_.
     ebind (select_verifiers i current primary {fst (independence_values primary)}
              {snd (independence_values primary)} verifier_quotes) (\<lambda>verifiers.
     case assessment of
        None \<Rightarrow> accept_primary i primary price assessment from_fresh_cache current
      | Some a \<Rightarrow>
          if \<not> as_is_suspicious a then accept_primary i primary price assessment from_fresh_cache current
          else resolve_suspicious i primary price previous a verifiers current)))))))"

section \<open>Fallbacks\<close>

definition py_len :: "pyval \<Rightarrow> int result" where
  "py_len v = (case v of PList xs \<Rightarrow> Inr (int (length xs)) | PDicts xs \<Rightarrow> Inr (int (length xs))
      | PStr s \<Rightarrow> Inr (int (length s)) | _ \<Rightarrow> Inl (TypeError ''object has no len()''))"

definition derived_fallback ::
  "instrument_definition \<Rightarrow> provider_quote \<Rightarrow> instant \<Rightarrow> canonical_quote result" where
  "derived_fallback i derived now =
     (case q_price derived of
        None \<Rightarrow> Inl (ValueError ''Instrument does not allow this derived fallback'')
      | Some price \<Rightarrow>
     ebind (require (i_allow_derived_fallback i \<and> q_is_derived derived
                \<and> q_persistence_status derived = PERSISTED)
        (ValueError ''Instrument does not allow this derived fallback'')) (\<lambda>_.
     ebind (quote_live_eligible_until derived i) (\<lambda>live_until.
     ebind (require (\<not> now > live_until)
        (ValueError ''Derived fallback inputs are no longer live-eligible'')) (\<lambda>_.
     let md = q_metadata derived in
     ebind (py_len (dict_get md ''inputs'' (PList []))) (\<lambda>n.
     ebind (source_fields derived) (\<lambda>fields.
     from_price i price (q_observed_at derived) now CS_DERIVED_FALLBACK (q_id derived) [] NOT_REQUIRED
       ''no_fresh_direct_quote_derived_fallback_allowed''
       ([''primary_provider_id'' \<mapsto> PStr (q_provider_id derived),
         ''provider_ids'' \<mapsto> PList [q_provider_id derived],
         ''source_count'' \<mapsto> PInt n,
         ''direct_source_count'' \<mapsto> PInt 0,
         ''derived'' \<mapsto> PBool True,
         ''formula'' \<mapsto> dict_get md ''formula'' PNone,
         ''inputs'' \<mapsto> dict_get md ''inputs'' (PList []),
         ''derivation_depth'' \<mapsto> dict_get md ''derivation_depth'' (PInt 1),
         ''provenance'' \<mapsto> dict_get md ''provenance'' (PList []),
         ''confidence_score'' \<mapsto> PDecStr (q_confidence_score derived),
         ''fallback_reason'' \<mapsto> PStr ''no_valid_direct_quote''] ++ map_of fields)
       None None (Some live_until)))))))"

definition approved_telegram :: "instrument_definition \<Rightarrow> provider_quote \<Rightarrow> bool" where
  "approved_telegram i q \<longleftrightarrow>
     q_source_type q = ST_TELEGRAM \<and> q_source_semantic q = TELEGRAM_OBSERVATION
     \<and> q_validation_status q = ACCEPTED \<and> q_instrument_id q = i_instrument_id i
     \<and> q_price q \<noteq> None \<and> \<not> q_is_derived q \<and> q_persistence_status q = PERSISTED
     \<and> py_truth (dict_get (q_metadata q) ''whitelisted'' (PBool False))
     \<and> dict_get (q_metadata q) ''source_role'' PNone = PStr ''fallback''
     \<and> py_truth (dict_get (q_metadata q) ''approved_fallback'' (PBool False))"

definition telegram_fallback_canonical ::
  "instrument_definition \<Rightarrow> provider_quote list \<Rightarrow> rat \<Rightarrow> string \<Rightarrow> instant \<Rightarrow> canonical_quote result" where
  "telegram_fallback_canonical i quotes price reason now =
     ebind (require (quotes \<noteq> [] \<and> list_all (approved_telegram i) quotes)
        (ValueError ''Telegram fallback requires approved direct quotes'')) (\<lambda>_.
     ebind (require (length (quote_ids quotes) = length quotes)
        (ValueError ''Telegram fallback quotes must already be stored'')) (\<lambda>_.
     let confirmed = (length quotes \<ge> 2); observed_ats = map q_observed_at quotes in
     ebind (min_live_until i quotes) (\<lambda>live_until.
     from_price i price (min_of (hd observed_ats) (tl observed_ats)) now
       (if confirmed then CS_CONFIRMED else CS_LIVE) None (quote_ids quotes)
       (if confirmed then CONFIRMED else NOT_REQUIRED) reason
       [''primary_provider_id'' \<mapsto> PNone,
        ''provider_ids'' \<mapsto> PList (map q_provider_id quotes),
        ''source_count'' \<mapsto> PInt (int (length quotes)),
        ''direct_source_count'' \<mapsto> PInt 0,
        ''derived'' \<mapsto> PBool False,
        ''source_semantic'' \<mapsto> PStr ''telegram_observation'',
        ''source_families'' \<mapsto> PList (map q_source_family quotes),
        ''venues'' \<mapsto> PList (map q_venue quotes),
        ''derivation_depth'' \<mapsto> PInt 0,
        ''provenance'' \<mapsto> PList (concat (map q_provenance quotes)),
        ''verification_progress'' \<mapsto> PStr ''complete'',
        ''fallback_reason'' \<mapsto> PStr ''approved_telegram_fallback'']
       None None (Some live_until))))"

section \<open>The selection contract\<close>

abbreviation independence_keys :: "provider_quote \<Rightarrow> (string + string) set" where
  "independence_keys q \<equiv> {Inl (fst (independence_values q)), Inr (snd (independence_values q))}"

interpretation ver: greedy_selection "verifier_ok i now primary" independence_keys
    "\<lambda>S. select_verifiers i now primary {f. Inl f \<in> S} {v. Inr v \<in> S}" for i now primary
proof unfold_locales
  fix S x xs
  have "{f. Inl f \<in> S \<union> independence_keys x} = insert (fst (independence_values x)) {f. Inl f \<in> S}"
      "{v. Inr v \<in> S \<union> independence_keys x} = insert (snd (independence_values x)) {v. Inr v \<in> S}"
    by auto
  then show "select_verifiers i now primary {f. Inl f \<in> S} {v. Inr v \<in> S} (x # xs) =
      ebind (verifier_ok i now primary x) (\<lambda>b. if b \<and> independence_keys x \<inter> S = {}
        then ebind (select_verifiers i now primary {f. Inl f \<in> S \<union> independence_keys x}
               {v. Inr v \<in> S \<union> independence_keys x} xs) (\<lambda>ys. Inr (x # ys))
        else select_verifiers i now primary {f. Inl f \<in> S} {v. Inr v \<in> S} xs)"
    by (cases "verifier_ok i now primary x") (simp_all add: Let_def)
qed simp

lemma select_verifiers_start:
  "select_verifiers i now primary {fst (independence_values primary)} {snd (independence_values primary)} qs
   = select_verifiers i now primary {f. Inl f \<in> independence_keys primary}
       {v. Inr v \<in> independence_keys primary} qs"
  by simp

lemma is_fresh_quote_iff:
  "is_fresh_quote q i now = Inr True \<longleftrightarrow>
     (\<exists>b. quote_freshness_boundaries q i = Inr b \<and> now \<le> fb_live_eligible_until b)"
  by (auto simp: is_fresh_quote_def status_at_cases split: sum.splits py_error.splits)

lemma verifier_ok_facts:
  assumes "verifier_ok i now primary q = Inr True"
  shows "q_price q \<noteq> None" "is_fresh_quote q i now = Inr True" "q_validation_status q = ACCEPTED"
    "q_persistence_status q = PERSISTED" "q_instrument_id q = q_instrument_id primary"
    "q_source_semantic q \<noteq> DERIVED"
  using assms
  by (auto simp: verifier_ok_def is_eligible_verifier_def is_market_quote_def split: if_splits)

text \<open>An independent verifier of a primary quote: usable, and of another family and venue.\<close>

definition independent_verifier ::
  "instrument_definition \<Rightarrow> instant \<Rightarrow> provider_quote \<Rightarrow> provider_quote \<Rightarrow> bool" where
  "independent_verifier i now primary q \<longleftrightarrow>
     verifier_ok i now primary q = Inr True
     \<and> fst (independence_values q) \<noteq> fst (independence_values primary)
     \<and> snd (independence_values q) \<noteq> snd (independence_values primary)"

lemma select_verifiers_facts:
  assumes "select_verifiers i now primary {fst (independence_values primary)}
      {snd (independence_values primary)} qs = Inr vs"
  shows "set vs \<subseteq> set qs" "\<forall>q\<in>set vs. independent_verifier i now primary q"
    "distinct (map (fst \<circ> independence_values) vs)" "distinct (map (snd \<circ> independence_values) vs)"
proof -
  note s = assms[unfolded select_verifiers_start]
  show "set vs \<subseteq> set qs" "\<forall>q\<in>set vs. independent_verifier i now primary q"
    using ver.sel_sound[OF s] by (fastforce simp: independent_verifier_def)+
  show "distinct (map (fst \<circ> independence_values) vs)" "distinct (map (snd \<circ> independence_values) vs)"
    using ver.sel_nth_independent[OF s] by (auto simp: distinct_conv_nth)
qed

section \<open>Facts about the construction\<close>

lemma from_price_Inr:
  assumes "from_price i price obs cur st pid vids vst reason sm cand cp (Some t) = Inr c"
  shows "valid_canonical c" "c_price c = price" "c_status c = st" "c_instrument_id c = i_instrument_id i"
    "c_observed_at c = obs" "c_canonical_at c = cur" "c_valid_until c \<le> t"
    "c_valid_until c \<le> max obs (t - seconds (i_operational_ttl_seconds i))
        + seconds (i_operational_ttl_seconds i)"
    "c_primary_quote_id c = pid" "c_verification_quote_ids c = vids" "c_is_persisted c = False"
    "c_verification_status c = vst"
  using assms
  by (auto simp: from_price_def Let_def err_simps canonical_create_iff valid_canonical_def
      canonical_of_def)

lemma keep_previous_Inr:
  assumes "keep_previous prev cand a st now = Inr c"
  shows "valid_canonical c" "c_price c = c_price prev" "c_status c = st"
    "c_observed_at c = c_observed_at prev" "c_valid_until c = c_valid_until prev"
    "c_stale_at c = c_stale_at prev" "c_expires_at c = c_expires_at prev"
    "c_primary_quote_id c = c_primary_quote_id prev" "c_instrument_id c = c_instrument_id prev"
    "c_candidate_price c = q_price cand" "c_canonical_at c = now"
  using assms
  by (auto simp: keep_previous_def err_simps canonical_create_iff valid_canonical_def
      canonical_of_def split: option.splits)

lemma min_live_until_le:
  assumes "min_live_until i qs = Inr t" "q \<in> set qs" "quote_live_eligible_until q i = Inr u"
  shows "t \<le> u"
proof -
  obtain ts where ts: "emap (\<lambda>q. quote_live_eligible_until q i) qs = Inr ts" "t = min_of (hd ts) (tl ts)"
    using assms(1) by (auto simp: min_live_until_def err_simps)
  then obtain y where "y \<in> set ts" "quote_live_eligible_until q i = Inr y"
    using emap_Inr_ex[OF ts(1) assms(2)] by blast
  then show ?thesis
    using ts(2) assms(3) min_of_le[of u "hd ts" "tl ts"] by (cases ts) auto
qed

lemma min_live_until_ex:
  assumes "min_live_until i qs = Inr t" "q \<in> set qs"
  obtains u where "quote_live_eligible_until q i = Inr u" "t \<le> u"
proof -
  obtain ts where "emap (\<lambda>q. quote_live_eligible_until q i) qs = Inr ts"
    using assms(1) by (auto simp: min_live_until_def err_simps)
  from emap_Inr_ex[OF this assms(2)] obtain u where "quote_live_eligible_until q i = Inr u"
    by blast
  then show ?thesis
    using min_live_until_le[OF assms] that by blast
qed

section \<open>Facts about the consensus\<close>

lemma runs_iff: "r \<in> set (runs xs) \<longleftrightarrow> r \<noteq> [] \<and> (\<exists>a b. xs = a @ r @ b)"
proof
  assume "r \<in> set (runs xs)"
  then obtain s e where se: "s < e" "e \<le> length xs" "r = take (e - s) (drop s xs)"
    unfolding runs_def by (fastforce simp: less_Suc_eq_le Suc_le_eq)
  then have "xs = take s xs @ r @ drop (e - s) (drop s xs)"
    by (metis append_take_drop_id)
  then show "r \<noteq> [] \<and> (\<exists>a b. xs = a @ r @ b)"
    using se by auto
next
  assume "r \<noteq> [] \<and> (\<exists>a b. xs = a @ r @ b)"
  then obtain a b where r: "r \<noteq> []" "xs = a @ r @ b"
    by blast
  have "r \<in> set (map (\<lambda>stop. take (stop - length a) (drop (length a) xs)) [length a + 1..<length xs + 1])"
    unfolding set_map
    by (rule image_eqI[of _ _ "length a + length r"]) (use r in \<open>auto simp: Suc_le_eq simp del: upt_Suc\<close>)
  moreover have "length a \<in> set [0..<length xs]"
    using r by simp
  ultimately show "r \<in> set (runs xs)"
    unfolding runs_def set_concat set_map image_image by blast
qed

lemma best_cluster_invariant:
  assumes "best_cluster tol best cs = Inr c" "\<And>x. x \<in> set cs \<Longrightarrow> x \<noteq> []"
  shows "(c = best \<or> c \<in> set cs \<and> (\<exists>d. cluster_deviation c = Inr d \<and> d \<le> tol))
    \<and> length best \<le> length c
    \<and> (\<forall>x\<in>set cs. \<forall>d. cluster_deviation x = Inr d \<longrightarrow> d \<le> tol \<longrightarrow> length x \<le> length c)"
  using assms
proof (induction cs arbitrary: best)
  case (Cons x cs)
  obtain d where d: "cluster_deviation x = Inr d"
    and r: "best_cluster tol (if d \<le> tol \<and> length x > length best then x else best) cs = Inr c"
    using Cons.prems(1) by (auto simp: err_simps)
  have "(c = (if d \<le> tol \<and> length x > length best then x else best)
        \<or> c \<in> set cs \<and> (\<exists>d. cluster_deviation c = Inr d \<and> d \<le> tol))
      \<and> length (if d \<le> tol \<and> length x > length best then x else best) \<le> length c
      \<and> (\<forall>y\<in>set cs. \<forall>d. cluster_deviation y = Inr d \<longrightarrow> d \<le> tol \<longrightarrow> length y \<le> length c)"
    using Cons.IH[OF r] Cons.prems(2) by simp
  with d show ?case
    by (auto split: if_splits)
qed simp

text \<open>The cluster is a longest run of the sorted prices that stays within the tolerance.\<close>

definition sorted_priced :: "item list \<Rightarrow> item list" where
  "sorted_priced qs = sort_key item_price (filter (\<lambda>x. q_price (snd x) \<noteq> None) qs)"

lemma consensus_cluster_facts:
  assumes "consensus_cluster qs tol = Inr c"
  shows "c \<noteq> [] \<Longrightarrow> (\<exists>a b. sorted_priced qs = a @ c @ b) \<and> (\<exists>d. cluster_deviation c = Inr d \<and> d \<le> tol)"
    and "sorted_priced qs = a @ r @ b \<Longrightarrow> r \<noteq> [] \<Longrightarrow> cluster_deviation r = Inr d \<Longrightarrow> d \<le> tol
      \<Longrightarrow> length r \<le> length c"
    and "set c \<subseteq> set qs"
proof -
  have b: "best_cluster tol [] (runs (sorted_priced qs)) = Inr c"
    using assms by (simp add: consensus_cluster_def sorted_priced_def)
  have inv: "(c = [] \<or> c \<in> set (runs (sorted_priced qs)) \<and> (\<exists>d. cluster_deviation c = Inr d \<and> d \<le> tol))
      \<and> (\<forall>x\<in>set (runs (sorted_priced qs)). \<forall>d. cluster_deviation x = Inr d \<longrightarrow> d \<le> tol
           \<longrightarrow> length x \<le> length c)"
    using best_cluster_invariant[OF b] by (auto simp: runs_iff)
  then show "c \<noteq> [] \<Longrightarrow> (\<exists>a b. sorted_priced qs = a @ c @ b) \<and> (\<exists>d. cluster_deviation c = Inr d \<and> d \<le> tol)"
    by (auto simp: runs_iff)
  show "sorted_priced qs = a @ r @ b \<Longrightarrow> r \<noteq> [] \<Longrightarrow> cluster_deviation r = Inr d \<Longrightarrow> d \<le> tol
      \<Longrightarrow> length r \<le> length c"
    using inv runs_iff by blast
  have "set (sorted_priced qs) \<subseteq> set qs"
    by (auto simp: sorted_priced_def)
  with inv show "set c \<subseteq> set qs"
    by (auto simp: runs_iff)
qed

section \<open>Facts about the branches\<close>

lemma confirm_primary_Inr:
  assumes "confirm_primary i primary price a vs now = Inr d"
  shows "valid_canonical (d_canonical d)" "c_canonical_at (d_canonical d) = now"
    "c_price (d_canonical d) = price" "c_status (d_canonical d) = CS_CONFIRMED"
    "v_status (d_verification d) = CONFIRMED"
    "\<And>q. q \<in> set (primary # vs) \<Longrightarrow>
       \<exists>u. quote_live_eligible_until q i = Inr u \<and> c_valid_until (d_canonical d) \<le> u"
proof -
  obtain summary t c where t: "min_live_until i (primary # vs) = Inr t"
    and c: "from_price i price (q_observed_at primary) now CS_CONFIRMED (q_id primary)
         (quote_ids vs) CONFIRMED ''anomalous_primary_confirmed_by_independent_source''
         summary (Some price) (Some (q_provider_id primary)) (Some t) = Inr c"
    and d: "d_canonical d = c" "v_status (d_verification d) = CONFIRMED"
    using assms by (auto simp: confirm_primary_def err_simps)
  show "valid_canonical (d_canonical d)" "c_canonical_at (d_canonical d) = now"
    "c_price (d_canonical d) = price" "c_status (d_canonical d) = CS_CONFIRMED"
    "v_status (d_verification d) = CONFIRMED"
    using from_price_Inr[OF c] d by simp_all
  show "\<exists>u. quote_live_eligible_until q i = Inr u \<and> c_valid_until (d_canonical d) \<le> u"
    if "q \<in> set (primary # vs)" for q
    using min_live_until_ex[OF t that] from_price_Inr(7)[OF c] d(1) by (metis order.trans)
qed

lemma confirm_consensus_Inr:
  assumes "confirm_consensus i primary price a cluster now = Inr d"
  shows "valid_canonical (d_canonical d)" "c_canonical_at (d_canonical d) = now"
    "dmedian (map item_price cluster) = Inr (c_price (d_canonical d))"
    "c_status (d_canonical d) = CS_CONFIRMED" "v_status (d_verification d) = CONFIRMED"
    "\<And>x. x \<in> set cluster \<Longrightarrow>
       \<exists>u. quote_live_eligible_until (snd x) i = Inr u \<and> c_valid_until (d_canonical d) \<le> u"
proof -
  obtain chosen summary t c obs pid vids where m: "dmedian (map item_price cluster) = Inr chosen"
    and t: "min_live_until i (map snd cluster) = Inr t"
    and c: "from_price i chosen obs now CS_CONFIRMED pid vids CONFIRMED
         ''robust_median_of_independent_fresh_inlier_cluster''
         summary (Some price) (Some (q_provider_id primary)) (Some t) = Inr c"
    and d: "d_canonical d = c" "v_status (d_verification d) = CONFIRMED"
    using assms by (auto simp: confirm_consensus_def Let_def err_simps)
  show "valid_canonical (d_canonical d)" "c_canonical_at (d_canonical d) = now"
    "dmedian (map item_price cluster) = Inr (c_price (d_canonical d))"
    "c_status (d_canonical d) = CS_CONFIRMED" "v_status (d_verification d) = CONFIRMED"
    using from_price_Inr[OF c] d m by simp_all
  show "\<exists>u. quote_live_eligible_until (snd x) i = Inr u \<and> c_valid_until (d_canonical d) \<le> u"
    if "x \<in> set cluster" for x
    using min_live_until_ex[OF t, of "snd x"] that from_price_Inr(7)[OF c] d(1)
    by (metis image_eqI image_set order.trans)
qed

lemma accept_primary_Inr:
  assumes "accept_primary i primary price a cached now = Inr d"
  shows "valid_canonical (d_canonical d)" "c_canonical_at (d_canonical d) = now"
    "c_price (d_canonical d) = price"
    "c_status (d_canonical d) = (if cached then CS_FRESH_CACHE else CS_LIVE)"
    "v_status (d_verification d) = NOT_REQUIRED"
    "\<exists>u. quote_live_eligible_until primary i = Inr u \<and> c_valid_until (d_canonical d) \<le> u"
proof -
  obtain summary t c where t: "quote_live_eligible_until primary i = Inr t"
    and c: "from_price i price (q_observed_at primary) now
         (if cached then CS_FRESH_CACHE else CS_LIVE) (q_id primary) [] NOT_REQUIRED
         ''valid_primary_provider_quote'' summary None None (Some t) = Inr c"
    and d: "d_canonical d = c" "v_status (d_verification d) = NOT_REQUIRED"
    using assms by (auto simp: accept_primary_def err_simps)
  show "valid_canonical (d_canonical d)" "c_canonical_at (d_canonical d) = now"
    "c_price (d_canonical d) = price"
    "c_status (d_canonical d) = (if cached then CS_FRESH_CACHE else CS_LIVE)"
    "v_status (d_verification d) = NOT_REQUIRED"
    "\<exists>u. quote_live_eligible_until primary i = Inr u \<and> c_valid_until (d_canonical d) \<le> u"
    using from_price_Inr[OF c] d t by simp_all
qed

lemma previous_kept_Inr:
  assumes "previous_kept primary previous a vs now = Inr d"
  obtains prev where "previous = Some prev" "valid_canonical (d_canonical d)"
    "c_canonical_at (d_canonical d) = now" "c_price (d_canonical d) = c_price prev"
    "c_status (d_canonical d) = CS_SUSPICIOUS_UNCONFIRMED"
    "c_valid_until (d_canonical d) = c_valid_until prev"
    "c_stale_at (d_canonical d) = c_stale_at prev" "c_expires_at (d_canonical d) = c_expires_at prev"
    "v_status (d_verification d) = (if vs \<noteq> [] then DISAGREED else INSUFFICIENT)"
proof -
  obtain prev c where p: "previous = Some prev"
    and c: "keep_previous prev primary a CS_SUSPICIOUS_UNCONFIRMED now = Inr c"
    and v: "v_status (d_verification d) = (if vs \<noteq> [] then DISAGREED else INSUFFICIENT)"
    and d: "d_canonical d = c \<or> d_canonical d = c\<lparr>c_verification_status := DISAGREED,
        c_decision_reason := ''disagreeing_sources_previous_canonical_kept'',
        c_source_summary := (c_source_summary c)(''verification_progress'' \<mapsto> PStr ''disagreed'')\<rparr>"
    using assms
    by (cases previous) (auto simp: previous_kept_def Let_def err_simps split: if_splits)
  note k = keep_previous_Inr[OF c]
  have "valid_canonical (d_canonical d)"
    using d k(1) by (auto simp: valid_canonical_def)
  with d k p v show ?thesis
    by (intro that[of prev]) auto
qed

lemma resolve_suspicious_cases:
  assumes "resolve_suspicious i primary price previous a vs now = Inr d"
  obtains (confirmed) conf where "conf = filter (\<lambda>q. opt_difference_percent price (q_price q)
        \<le> as_dynamic_threshold_percent a) vs" "conf \<noteq> []"
      "confirm_primary i primary price a conf now = Inr d"
    | (consensus) cluster where
      "consensus_cluster (enumerate 0 (primary # vs)) (as_dynamic_threshold_percent a) = Inr cluster"
      "2 \<le> length vs" "length (primary # vs) < 2 * length cluster"
      "confirm_consensus i primary price a cluster now = Inr d"
    | (kept) "previous_kept primary previous a vs now = Inr d"
proof -
  let ?conf = "filter (\<lambda>q. opt_difference_percent price (q_price q) \<le> as_dynamic_threshold_percent a) vs"
  show ?thesis
  proof (cases "?conf = []")
    case False
    then show ?thesis
      using assms confirmed[of ?conf] by (simp add: resolve_suspicious_def Let_def)
  next
    case True
    then obtain cluster where c:
        "consensus_cluster (enumerate 0 (primary # vs)) (as_dynamic_threshold_percent a) = Inr cluster"
      and r: "(if length (enumerate 0 (primary # vs)) \<ge> 3
               \<and> length cluster \<ge> length (enumerate 0 (primary # vs)) div 2 + 1
             then confirm_consensus i primary price a cluster now
             else previous_kept primary previous a vs now) = Inr d"
      using assms by (auto simp: resolve_suspicious_def Let_def err_simps simp del: enumerate_simps)
    show ?thesis
    proof (cases "length (enumerate 0 (primary # vs)) \<ge> 3
        \<and> length cluster \<ge> length (enumerate 0 (primary # vs)) div 2 + 1")
      case True
      then show ?thesis
        using r c by (intro consensus[of cluster]) (auto simp del: enumerate_simps)
    qed (use r kept in auto)
  qed
qed

lemma resolve_suspicious_valid:
  assumes "resolve_suspicious i primary price previous a vs now = Inr d"
  shows "valid_canonical (d_canonical d) \<and> c_canonical_at (d_canonical d) = now"
  using assms
  by (cases rule: resolve_suspicious_cases)
    (auto intro: confirm_primary_Inr(1,2) confirm_consensus_Inr(1,2) elim: previous_kept_Inr)

section \<open>Properties\<close>

text \<open>Every canonical quote the policy selects is well formed and belongs to a usable primary:
  the primary quote has a price, is not rejected, is stored, is neither a Telegram observation nor a
  derived quote and is live at that moment; the canonical quote has a positive price, ordered windows
  and is not yet expired unless it is a kept previous price.\<close>

theorem select_sound:
  assumes "select i primary previous assessment quotes cached now = Inr d"
  shows "q_price primary \<noteq> None \<and> q_validation_status primary \<noteq> REJECTED
    \<and> q_persistence_status primary = PERSISTED
    \<and> q_source_semantic primary \<notin> {TELEGRAM_OBSERVATION, DERIVED}
    \<and> is_fresh_quote primary i now = Inr True
    \<and> valid_canonical (d_canonical d) \<and> c_canonical_at (d_canonical d) = now"
proof -
  have acc: "accept_primary i primary price assessment cached now = Inr d \<Longrightarrow>
      valid_canonical (d_canonical d) \<and> c_canonical_at (d_canonical d) = now" for price
    using accept_primary_Inr(1,2) by blast
  have res: "resolve_suspicious i primary price previous a vs now = Inr d \<Longrightarrow>
      valid_canonical (d_canonical d) \<and> c_canonical_at (d_canonical d) = now" for price a vs
    by (rule resolve_suspicious_valid)
  show ?thesis
    using assms acc res
    by (auto simp: select_def err_simps split: option.splits if_splits)
qed

lemma select_cases:
  assumes "select i primary previous assessment quotes cached now = Inr d"
  obtains price vs where "q_price primary = Some price"
    "select_verifiers i now primary {fst (independence_values primary)}
       {snd (independence_values primary)} quotes = Inr vs"
    "(\<forall>a. assessment = Some a \<longrightarrow> \<not> as_is_suspicious a)
        \<and> accept_primary i primary price assessment cached now = Inr d
     \<or> (\<exists>a. assessment = Some a \<and> as_is_suspicious a
        \<and> resolve_suspicious i primary price previous a vs now = Inr d)"
  using assms by (auto simp: select_def err_simps split: option.splits if_splits)

definition example_quote :: "rat \<Rightarrow> provider_quote" where
  "example_quote price = (raw_quote example_quote_args (Some price) None None None None 1)
     \<lparr>q_source_semantic := AGGREGATOR, q_source_family := ''f'', q_venue := ''v'',
      q_original_currency := ''USD'', q_route_id := ''r'', q_provenance := [''f'']\<rparr>"

lemma example_quote_boundaries:
  "quote_freshness_boundaries (example_quote p) example_instrument = Inr
     \<lparr>fb_cache_retention_until = 1802000000, fb_live_eligible_until = 361000000,
      fb_stale_display_until = 901000000, fb_expired_after = 1801000000\<rparr>"
  by (simp add: quote_freshness_boundaries_def example_quote_def raw_quote_def example_quote_args_def
      default_args_def example_instrument_def caught_int_def dict_get_def freshness_policy_post_init_def
      default_future_clock_skew_seconds_def time_simps seconds_def)

lemma example_quote_fresh: "is_fresh_quote (example_quote p) example_instrument 3000000 = Inr True"
  by (simp add: is_fresh_quote_iff example_quote_boundaries)

lemma example_quote_fields [simp]:
  "q_price (example_quote p) = Some p" "q_validation_status (example_quote p) = ACCEPTED"
  "q_persistence_status (example_quote p) = PERSISTED" "q_id (example_quote p) = Some 7"
  "q_source_semantic (example_quote p) = AGGREGATOR" "q_provider_id (example_quote p) = ''p''"
  "q_metadata (example_quote p) = Map.empty" "q_observed_at (example_quote p) = 1000000"
  "q_is_derived (example_quote p) = False" "q_instrument_id (example_quote p) = ''BTC_USD''"
  by (simp_all add: example_quote_def raw_quote_def example_quote_args_def default_args_def)

lemma example_suspicious_kept:
  "is_ok (select example_instrument (example_quote 60000) (Some example_canonical)
      (Some example_assessment) [] False 3000000)"
proof -
  have "is_ok (keep_previous example_canonical (example_quote 60000) example_assessment
      CS_SUSPICIOUS_UNCONFIRMED 3000000)"
    by (simp add: keep_previous_def json_number_def example_assessment_def canonical_create_def
        canonical_of_def example_canonical_def decimal_value_def decimal_or_none_def opt_dec_def
        accepted_statuses_def)
  then have "is_ok (previous_kept (example_quote 60000) (Some example_canonical) example_assessment
      [] 3000000)"
    by (auto simp: previous_kept_def is_ok_iff)
  moreover have "\<exists>c. consensus_cluster [(0, example_quote 60000)] 2 = Inr c"
    by (simp add: consensus_cluster_def runs_def cluster_deviation_def item_price_def ddiv_def)
  ultimately have "is_ok (resolve_suspicious example_instrument (example_quote 60000) 60000
      (Some example_canonical) example_assessment [] 3000000)"
    by (auto simp: resolve_suspicious_def example_assessment_def)
  then show ?thesis
    using example_quote_fresh[of 60000] by (simp add: select_def example_assessment_def)
qed

theorem select_sound_witness:
  "\<exists>d. select example_instrument (example_quote 60000) (Some example_canonical)
        (Some example_assessment) [] False 3000000 = Inr d
     \<and> valid_canonical (d_canonical d)"
  using example_suspicious_kept select_sound [of example_instrument "example_quote 60000"
      "Some example_canonical" "Some example_assessment" "[]" False 3000000]
  unfolding is_ok_iff by blast

text \<open>Claim C12. A suspicious price never becomes canonical on its own. When the assessment flags the
  primary quote, either at least one independent verifier (stored, accepted, live, of another source
  family and another venue) lies within the tolerance and the primary price is taken; or a strict
  majority of at least three mutually independent quotes forms a cluster within the tolerance and its
  median is taken; or the previous canonical price is kept with its windows unchanged and the status
  suspicious\_unconfirmed.\<close>

theorem suspicious_price_needs_support:
  assumes "select i primary previous (Some a) quotes cached now = Inr d" and "as_is_suspicious a"
  shows "(\<exists>conf. conf \<noteq> [] \<and> set conf \<subseteq> set quotes
        \<and> (\<forall>q\<in>set conf. independent_verifier i now primary q
             \<and> opt_difference_percent (the (q_price primary)) (q_price q) \<le> as_dynamic_threshold_percent a)
        \<and> Some (c_price (d_canonical d)) = q_price primary)
    \<or> (\<exists>vs cluster. set vs \<subseteq> set quotes \<and> 2 \<le> length vs
        \<and> (\<forall>q\<in>set vs. independent_verifier i now primary q)
        \<and> distinct (map (fst \<circ> independence_values) vs) \<and> distinct (map (snd \<circ> independence_values) vs)
        \<and> set cluster \<subseteq> set (enumerate 0 (primary # vs)) \<and> length (primary # vs) < 2 * length cluster
        \<and> (\<exists>dev. cluster_deviation cluster = Inr dev \<and> dev \<le> as_dynamic_threshold_percent a)
        \<and> dmedian (map item_price cluster) = Inr (c_price (d_canonical d)))
    \<or> (\<exists>prev. previous = Some prev \<and> c_price (d_canonical d) = c_price prev
        \<and> c_valid_until (d_canonical d) = c_valid_until prev \<and> c_stale_at (d_canonical d) = c_stale_at prev
        \<and> c_expires_at (d_canonical d) = c_expires_at prev
        \<and> c_status (d_canonical d) = CS_SUSPICIOUS_UNCONFIRMED)"
proof -
  obtain price vs where price: "q_price primary = Some price"
    and vs: "select_verifiers i now primary {fst (independence_values primary)}
       {snd (independence_values primary)} quotes = Inr vs"
    and r: "resolve_suspicious i primary price previous a vs now = Inr d"
    using select_cases[OF assms(1)] assms(2) by blast
  note f = select_verifiers_facts[OF vs]
  from r show ?thesis
  proof (cases rule: resolve_suspicious_cases)
    case (confirmed conf)
    then show ?thesis
      using f price confirm_primary_Inr(3)[OF confirmed(3)] by (intro disjI1 exI[of _ conf]) auto
  next
    case (consensus cluster)
    have "cluster \<noteq> []"
      using consensus(3) by auto
    then show ?thesis
      using f consensus confirm_consensus_Inr(3)[OF consensus(4)]
        consensus_cluster_facts(1,3)[OF consensus(1)]
      by (intro disjI2 disjI1 exI[of _ vs] exI[of _ cluster]) blast
  next
    case kept
    then show ?thesis
      by (rule previous_kept_Inr) blast
  qed
qed

theorem suspicious_price_needs_support_witness:
  "\<exists>d. select example_instrument (example_quote 60000) (Some example_canonical)
        (Some example_assessment) [] False 3000000 = Inr d
     \<and> c_price (d_canonical d) = c_price example_canonical"
proof -
  obtain d where d: "select example_instrument (example_quote 60000) (Some example_canonical)
        (Some example_assessment) [] False 3000000 = Inr d"
    using example_suspicious_kept unfolding is_ok_iff by blast
  have "as_is_suspicious example_assessment"
    by (simp add: example_assessment_def)
  from suspicious_price_needs_support [OF d this] d show ?thesis
    by auto
qed

text \<open>
  The quotes a canonical quote rests on, as it records them itself: the first is the one whose number it carries as
  primary, the numbers of the others are its verifying quotes, and the summary counts and names the providers of all
  of them in this order.
\<close>

definition rests_on :: "canonical_quote \<Rightarrow> provider_quote list \<Rightarrow> bool" where
  "rests_on c used \<longleftrightarrow> used \<noteq> [] \<and> c_primary_quote_id c = q_id (hd used) \<and> c_verification_quote_ids c = quote_ids (tl used)
     \<and> c_source_summary c ''provider_ids'' = Some (PList (map q_provider_id used))
     \<and> c_source_summary c ''source_count'' = Some (PInt (int (length used)))"

lemma source_fields_keys:
  assumes "source_fields q = Inr fs"
  shows "map_of fs ''provider_ids'' = None" "map_of fs ''source_count'' = None"
  using assms by (auto simp: source_fields_def err_simps)

lemma from_price_sources:
  assumes "from_price i price seen now st pid vids v reason summary cand candp lu = Inr c"
  shows "c_primary_quote_id c = pid" "c_verification_quote_ids c = vids"
    "c_source_summary c ''provider_ids'' = summary ''provider_ids''"
    "c_source_summary c ''source_count'' = summary ''source_count''"
  using assms
  by (auto simp: from_price_def Let_def err_simps canonical_create_iff canonical_of_def set_default_def split: option.splits)

lemma verification_summary_sources:
  assumes "verification_summary p vs a = Inr summary"
  shows "summary ''provider_ids'' = Some (PList (map q_provider_id (p # vs)))"
    "summary ''source_count'' = Some (PInt (int (length (p # vs))))"
proof -
  obtain fs price difference sources where f: "source_fields p = Inr fs"
    and s: "summary = ([''primary_provider_id'' \<mapsto> PStr (q_provider_id p),
            ''provider_ids'' \<mapsto> PList (map q_provider_id (p # vs)),
            ''source_count'' \<mapsto> PInt (1 + int (length vs)),
            ''direct_source_count'' \<mapsto> PInt (int (length (filter q_is_direct (p # vs)))),
            ''derived'' \<mapsto> PBool False,
            ''candidate_price'' \<mapsto> price,
            ''candidate_difference_percent'' \<mapsto> difference,
            ''verification_progress'' \<mapsto> PStr ''complete'']
           ++ map_of fs)(''sources'' \<mapsto> PDicts sources)"
    using assms by (auto simp: verification_summary_def err_simps)
  show "summary ''provider_ids'' = Some (PList (map q_provider_id (p # vs)))"
    "summary ''source_count'' = Some (PInt (int (length (p # vs))))"
    unfolding s using source_fields_keys[OF f] by (simp_all add: map_add_def)
qed

lemma accept_primary_rests:
  assumes "accept_primary i primary price a cached now = Inr d"
  shows "rests_on (d_canonical d) [primary]"
proof -
  obtain fs live where f: "source_fields primary = Inr fs"
    and c: "from_price i price (q_observed_at primary) now (if cached then CS_FRESH_CACHE else CS_LIVE) (q_id primary) []
         NOT_REQUIRED ''valid_primary_provider_quote''
         ([''primary_provider_id'' \<mapsto> PStr (q_provider_id primary),
           ''provider_ids'' \<mapsto> PList [q_provider_id primary],
           ''source_count'' \<mapsto> PInt 1,
           ''direct_source_count'' \<mapsto> PInt (if q_is_direct primary then 1 else 0),
           ''derived'' \<mapsto> PBool False] ++ map_of fs) None None (Some live) = Inr (d_canonical d)"
    using assms unfolding accept_primary_def by (fastforce simp: err_simps)
  show ?thesis
    using from_price_sources[OF c] source_fields_keys[OF f] by (simp add: rests_on_def quote_ids_def map_add_def)
qed

lemma confirm_primary_rests:
  assumes "confirm_primary i primary price a vs now = Inr d"
  shows "rests_on (d_canonical d) (primary # vs)"
proof -
  obtain summary t where v: "verification_summary primary vs a = Inr summary"
    and c: "from_price i price (q_observed_at primary) now CS_CONFIRMED (q_id primary) (quote_ids vs) CONFIRMED
         ''anomalous_primary_confirmed_by_independent_source''
         summary (Some price) (Some (q_provider_id primary)) (Some t) = Inr (d_canonical d)"
    using assms by (auto simp: confirm_primary_def err_simps)
  show ?thesis
    using from_price_sources[OF c] verification_summary_sources[OF v] by (simp add: rests_on_def)
qed

lemma consensus_primary_in: "cluster \<noteq> [] \<Longrightarrow> consensus_primary cluster \<in> set cluster"
  by (auto simp: consensus_primary_def find_Some_iff split: option.split)

text \<open>In a consensus the quotes are those of the whole cluster.\<close>

lemma confirm_consensus_rests:
  assumes "confirm_consensus i primary price a cluster now = Inr d" "cluster \<noteq> []"
  shows "rests_on (d_canonical d)
      (snd (consensus_primary cluster) # map snd (filter (\<lambda>x. fst x \<noteq> fst (consensus_primary cluster)) cluster))"
proof -
  let ?cp = "consensus_primary cluster" and ?vs = "map snd (filter (\<lambda>x. fst x \<noteq> fst (consensus_primary cluster)) cluster)"
  obtain chosen obs summary cand t where v: "verification_summary (snd ?cp) ?vs a = Inr summary"
    and c: "from_price i chosen obs now CS_CONFIRMED (q_id (snd ?cp)) (quote_ids ?vs) CONFIRMED
         ''robust_median_of_independent_fresh_inlier_cluster''
         (summary(''candidate_price'' \<mapsto> cand, ''candidate_provider_id'' \<mapsto> PStr (q_provider_id primary),
            ''consensus_method'' \<mapsto> PStr ''median_inlier_cluster'',
            ''consensus_source_count'' \<mapsto> PInt (int (length cluster))))
         (Some price) (Some (q_provider_id primary)) (Some t) = Inr (d_canonical d)"
    using assms(1) by (auto simp: confirm_consensus_def Let_def err_simps)
  show ?thesis
    using from_price_sources[OF c] verification_summary_sources[OF v] by (simp add: rests_on_def)
qed

text \<open>Claim C24. A selected price is never shown as live or confirmed beyond its sources: an accepted or confirmed decision
  rests on quotes that were passed in, which it records itself (the primary and verifying numbers, and the providers and
  their count in the summary), and its live window ends no later than the live boundary of every one of them. So as
  long as its status evaluates to live or confirmed, each source that it names is still live-eligible.\<close>

theorem canonical_within_source_windows:
  assumes "select i primary previous assessment quotes cached now = Inr d"
    and "v_status (d_verification d) \<in> {NOT_REQUIRED, CONFIRMED}"
  shows "\<exists>used. rests_on (d_canonical d) used \<and> set used \<subseteq> insert primary (set quotes)
    \<and> (\<forall>q\<in>set used. \<exists>u. quote_live_eligible_until q i = Inr u \<and> c_valid_until (d_canonical d) \<le> u
         \<and> (\<forall>t. effective_status (d_canonical d) t \<in> {CS_LIVE, CS_CONFIRMED} \<longrightarrow> t \<le> u))"
proof -
  obtain price vs where
    vs: "select_verifiers i now primary {fst (independence_values primary)}
       {snd (independence_values primary)} quotes = Inr vs"
    and r: "accept_primary i primary price assessment cached now = Inr d
      \<or> (\<exists>a. resolve_suspicious i primary price previous a vs now = Inr d)"
    using select_cases[OF assms(1)] by blast
  have "\<exists>used. rests_on (d_canonical d) used \<and> set used \<subseteq> insert primary (set vs)
      \<and> (\<forall>q\<in>set used. \<exists>u. quote_live_eligible_until q i = Inr u \<and> c_valid_until (d_canonical d) \<le> u)"
  proof (cases "accept_primary i primary price assessment cached now = Inr d")
    case True
    then show ?thesis
      using accept_primary_Inr(6) accept_primary_rests by (intro exI[of _ "[primary]"]) auto
  next
    case False
    with r obtain a where a: "resolve_suspicious i primary price previous a vs now = Inr d"
      by blast
    then show ?thesis
    proof (cases rule: resolve_suspicious_cases)
      case (confirmed conf)
      then show ?thesis
        using confirm_primary_Inr(6)[OF confirmed(3)] confirm_primary_rests[OF confirmed(3)]
        by (intro exI[of _ "primary # conf"]) auto
    next
      case (consensus cluster)
      let ?used = "consensus_primary cluster # filter (\<lambda>x. fst x \<noteq> fst (consensus_primary cluster)) cluster"
      have ne: "cluster \<noteq> []"
        using consensus(3) by auto
      then have sub: "set ?used \<subseteq> set cluster"
        using consensus_primary_in by auto
      have "snd ` set cluster \<subseteq> insert primary (set vs)"
        using image_mono[OF consensus_cluster_facts(3)[OF consensus(1)], of snd]
        by (metis list.set(2) list.set_map map_snd_enumerate)
      then have "set (map snd ?used) \<subseteq> insert primary (set vs)"
        using sub by (fastforce simp del: list.map)
      moreover have "rests_on (d_canonical d) (map snd ?used)"
        using confirm_consensus_rests[OF consensus(4) ne] by simp
      moreover have "\<forall>q\<in>set (map snd ?used). \<exists>u. quote_live_eligible_until q i = Inr u \<and> c_valid_until (d_canonical d) \<le> u"
        unfolding set_map by (rule ballI, erule imageE, hypsubst)
          (rule confirm_consensus_Inr(6)[OF consensus(4)], rule subsetD[OF sub])
      ultimately show ?thesis
        by blast
    next
      case kept
      then show ?thesis
        using assms(2) by (auto elim!: previous_kept_Inr split: if_splits)
    qed
  qed
  moreover have "t \<le> c_valid_until (d_canonical d)"
    if "effective_status (d_canonical d) t \<in> {CS_LIVE, CS_CONFIRMED}" for t
    using that by (auto simp: effective_status_def split: if_splits)
  ultimately show ?thesis
    using select_verifiers_facts(1)[OF vs] by (meson insert_mono order.trans)
qed

lemma example_accepted:
  "\<exists>d. select example_instrument (example_quote 60000) None None [] False 3000000 = Inr d
     \<and> v_status (d_verification d) = NOT_REQUIRED"
proof -
  have "f64 1 = Some 1"
    using f64_int[of 1] by simp
  then have "is_ok (source_fields (example_quote 60000))"
    by (simp add: source_fields_def json_number_def example_quote_def raw_quote_def)
  moreover have "quote_live_eligible_until (example_quote 60000) example_instrument = Inr 361000000"
    by (simp add: quote_live_eligible_until_def example_quote_boundaries dict_get_def)
  ultimately have "is_ok (accept_primary example_instrument (example_quote 60000) 60000 None False 3000000)"
    by (auto simp: is_ok_iff accept_primary_def from_price_def example_instrument_def json_number_def
        err_simps canonical_create_iff canonical_of_def valid_canonical_def accepted_statuses_def seconds_def Let_def)
  then show ?thesis
    using example_quote_fresh[of 60000] accept_primary_Inr(5) by (auto simp: is_ok_iff select_def)
qed

theorem canonical_within_source_windows_witness:
  "\<exists>d used. select example_instrument (example_quote 60000) None None [] False 3000000 = Inr d
     \<and> rests_on (d_canonical d) used \<and> set used \<subseteq> {example_quote 60000}"
proof -
  obtain d where d: "select example_instrument (example_quote 60000) None None [] False 3000000 = Inr d"
      "v_status (d_verification d) \<in> {NOT_REQUIRED, CONFIRMED}"
    using example_accepted by auto
  from canonical_within_source_windows [OF this] d(1) show ?thesis
    by auto
qed

text \<open>The consensus search is exhaustive: the cluster it returns is a contiguous run of the
  quotes ordered by price whose members all lie within the tolerance of the cluster's own median, and
  no longer run of the ordered quotes does.\<close>

theorem consensus_cluster_longest:
  assumes "consensus_cluster quotes tol = Inr cluster"
  shows "(cluster \<noteq> [] \<longrightarrow> (\<exists>before after. sorted_priced quotes = before @ cluster @ after)
           \<and> (\<exists>dev. cluster_deviation cluster = Inr dev \<and> dev \<le> tol))
    \<and> (\<forall>before run after dev. sorted_priced quotes = before @ run @ after \<and> run \<noteq> []
           \<and> cluster_deviation run = Inr dev \<and> dev \<le> tol \<longrightarrow> length run \<le> length cluster)"
  using consensus_cluster_facts(1,2)[OF assms] by blast

theorem consensus_cluster_longest_witness:
  "\<exists>cluster. consensus_cluster [(0, example_quote 60000)] 2 = Inr cluster \<and> length cluster = 1"
  using consensus_cluster_longest [of "[(0, example_quote 60000)]" 2 "[(0, example_quote 60000)]"]
  by (simp add: consensus_cluster_def runs_def cluster_deviation_def item_price_def ddiv_def)

end
