(* ===== verification/Instruments.thy ===== *)
theory Instruments
  imports Models
begin

text \<open>
  Model of \<open>apps/api/app/pricing/instruments.py\<close>: the catalogue of instruments, the overrides
  taken from environment variables, the lookup by identifier and the mapping to the legacy asset
  names. The environment is a partial map from variable names to texts.
\<close>

definition instrument_of ::
  "string \<Rightarrow> string \<Rightarrow> currency \<Rightarrow> market \<Rightarrow> region \<Rightarrow> weight_unit \<Rightarrow> rat option \<Rightarrow> int
   \<Rightarrow> int \<Rightarrow> int \<Rightarrow> int \<Rightarrow> rat \<Rightarrow> rat \<Rightarrow> rat \<Rightarrow> rat \<Rightarrow> int \<Rightarrow> int \<Rightarrow> bool \<Rightarrow> instrument_definition" where
  "instrument_of iid base cur mkt reg unit purity decimals ttl stale expire anomaly max_anomaly
     minimum maximum importance depth derived_fallback =
   \<lparr>i_instrument_id = iid, i_base_asset = base, i_quote_currency = cur, i_market = mkt,
    i_region = reg, i_weight_unit = unit, i_purity = purity, i_display_decimals = decimals,
    i_operational_ttl_seconds = ttl, i_stale_after_seconds = stale,
    i_expire_after_seconds = expire, i_base_anomaly_threshold_percent = anomaly,
    i_maximum_dynamic_threshold_percent = max_anomaly, i_minimum_price = minimum,
    i_maximum_price = maximum, i_importance = importance, i_maximum_verification_depth = depth,
    i_enabled = True, i_allow_derived_fallback = derived_fallback, i_maximum_spread_bps = 150\<rparr>"

definition default_instruments :: "instrument_definition list" where
  "default_instruments =
   [instrument_of ''GOLD_18K_TOMAN_GRAM'' ''XAU_18K'' TOMAN IRAN_PHYSICAL IRAN GRAM (Some (750/1000)) 0
      300 600 1800 (3/2) 5 100000 100000000 10 3 False,
    instrument_of ''GOLD_24K_TOMAN_GRAM'' ''XAU_24K'' TOMAN IRAN_PHYSICAL IRAN GRAM (Some (9999/10000)) 0
      300 600 1800 (3/2) 5 100000 150000000 9 3 False,
    instrument_of ''XAU_USD_OZ'' ''XAU'' USD GLOBAL_SPOT GLOBAL_REGION TROY_OUNCE (Some (9999/10000)) 2
      300 900 3600 (5/4) 5 500 10000 9 3 False,
    instrument_of ''SILVER_999_TOMAN_GRAM'' ''XAG'' TOMAN IRAN_PHYSICAL IRAN GRAM (Some (999/1000)) 0
      120 360 1200 2 7 1000 10000000 7 2 True,
    instrument_of ''SILVER_925_TOMAN_GRAM'' ''XAG'' TOMAN IRAN_PHYSICAL IRAN GRAM (Some (925/1000)) 0
      120 360 1200 2 7 1000 10000000 6 2 True,
    instrument_of ''XAG_USD_OZ'' ''XAG'' USD GLOBAL_SPOT GLOBAL_REGION TROY_OUNCE (Some (9999/10000)) 3
      300 900 3600 2 7 5 500 7 2 False,
    instrument_of ''USD_TOMAN'' ''USD'' TOMAN IRAN_EXCHANGE IRAN UNIT None 0
      60 180 900 1 4 1000 1000000 9 2 True,
    instrument_of ''USDT_TOMAN'' ''USDT'' TOMAN IRAN_EXCHANGE IRAN UNIT None 0
      20 60 300 1 4 1000 1000000 10 3 False,
    instrument_of ''USDT_USD'' ''USDT'' USD GLOBAL_EXCHANGE GLOBAL_REGION UNIT None 4
      360 900 1800 (1/2) 2 (4/5) (6/5) 8 2 False,
    instrument_of ''BTC_TOMAN'' ''BTC'' TOMAN IRAN_EXCHANGE IRAN UNIT None 0
      20 60 300 2 8 10000000 1000000000000 10 3 True,
    instrument_of ''BTC_USD'' ''BTC'' USD GLOBAL_EXCHANGE GLOBAL_REGION UNIT None 2
      360 900 1800 2 8 1000 1000000 10 3 False]"

section \<open>Environment overrides\<close>

type_synonym environ = "string \<rightharpoonup> string"

definition positive_int_override :: "environ \<Rightarrow> string \<Rightarrow> int \<Rightarrow> int" where
  "positive_int_override env name dflt =
     (case env name of
        None \<Rightarrow> dflt
      | Some raw \<Rightarrow> (case parse_int raw of
          None \<Rightarrow> dflt
        | Some v \<Rightarrow> if v > 0 then v else dflt))"

definition decimal_override :: "environ \<Rightarrow> string \<Rightarrow> rat \<Rightarrow> rat" where
  "decimal_override env name dflt =
     (case env name of
        None \<Rightarrow> dflt
      | Some raw \<Rightarrow> (case parse_decimal raw of
          Some (DFin v) \<Rightarrow> if v > 0 then v else dflt
        | _ \<Rightarrow> dflt))"

definition apply_environment :: "environ \<Rightarrow> instrument_definition \<Rightarrow> instrument_definition result" where
  "apply_environment env d =
     (let prefix = i_instrument_id d;
          ttl = positive_int_override env (''PRICING_TTL_'' @ prefix) (i_operational_ttl_seconds d);
          stale = max ttl (positive_int_override env (''PRICING_STALE_AFTER_'' @ prefix)
                    (i_stale_after_seconds d));
          expire = max stale (positive_int_override env (''PRICING_EXPIRE_AFTER_'' @ prefix)
                    (i_expire_after_seconds d));
          base = decimal_override env (''PRICING_ANOMALY_THRESHOLD_'' @ prefix)
                    (i_base_anomaly_threshold_percent d);
          maximum = max base (decimal_override env (''PRICING_MAX_ANOMALY_THRESHOLD_'' @ prefix)
                    (i_maximum_dynamic_threshold_percent d));
          spread = decimal_override env (''PRICING_MAX_SPREAD_BPS_'' @ prefix)
                    (i_maximum_spread_bps d)
      in instrument_post_init (d\<lparr>i_operational_ttl_seconds := ttl, i_stale_after_seconds := stale,
           i_expire_after_seconds := expire, i_base_anomaly_threshold_percent := base,
           i_maximum_dynamic_threshold_percent := maximum, i_maximum_spread_bps := spread\<rparr>))"

text \<open>The module constant \<open>INSTRUMENTS\<close>: importing the module fails if one definition is refused.\<close>

definition instruments :: "environ \<Rightarrow> instrument_definition list result" where
  "instruments env = emap (apply_environment env) default_instruments"

definition find_instrument :: "instrument_definition list \<Rightarrow> string \<Rightarrow> instrument_definition option" where
  "find_instrument defs iid = List.find (\<lambda>d. i_instrument_id d = iid) defs"

definition get_instrument :: "instrument_definition list \<Rightarrow> string \<Rightarrow> instrument_definition result" where
  "get_instrument defs iid =
     (let normalized = upper (strip iid)
      in case find_instrument defs normalized of
           None \<Rightarrow> Inl (UnknownInstrument normalized)
         | Some d \<Rightarrow> Inr d)"

section \<open>Legacy asset names\<close>

definition legacy_asset_mapping :: "((string \<times> string) \<times> string) list" where
  "legacy_asset_mapping =
   [((''gold'', ''toman''), ''GOLD_18K_TOMAN_GRAM''), ((''gold'', ''usd''), ''XAU_USD_OZ''),
    ((''silver'', ''toman''), ''SILVER_999_TOMAN_GRAM''), ((''silver'', ''usd''), ''XAG_USD_OZ''),
    ((''usdt'', ''toman''), ''USDT_TOMAN''), ((''usdt'', ''usd''), ''USDT_USD''),
    ((''btc'', ''toman''), ''BTC_TOMAN''), ((''btc'', ''usd''), ''BTC_USD'')]"

definition instrument_to_legacy :: "(string \<times> string) list" where
  "instrument_to_legacy = map (\<lambda>((asset, _), iid). (iid, asset)) legacy_asset_mapping"

definition instrument_for_legacy_asset ::
  "instrument_definition list \<Rightarrow> string \<Rightarrow> string \<Rightarrow> instrument_definition result" where
  "instrument_for_legacy_asset defs asset cur =
     (let key = (lower (strip asset), lower (strip cur))
      in case map_of legacy_asset_mapping key of
           None \<Rightarrow> Inl (UnknownInstrument (fst key @ '':'' @ snd key))
         | Some iid \<Rightarrow> (case find_instrument defs iid of
             None \<Rightarrow> Inl (UnknownInstrument (fst key @ '':'' @ snd key))
           | Some d \<Rightarrow> Inr d))"

definition legacy_asset_for_instrument :: "string \<Rightarrow> string option" where
  "legacy_asset_for_instrument iid = map_of instrument_to_legacy (upper iid)"

section \<open>Lemmas\<close>

lemma positive_int_override_pos: "0 < d \<Longrightarrow> 0 < positive_int_override env n d"
  by (auto simp: positive_int_override_def split: option.splits)

lemma decimal_override_pos: "0 < d \<Longrightarrow> 0 < decimal_override env n d"
  by (auto simp: decimal_override_def split: option.splits pydec.splits)

lemma apply_environment_valid:
  assumes "valid_instrument d"
  obtains d' where "apply_environment env d = Inr d'" "valid_instrument d'"
    "i_instrument_id d' = i_instrument_id d" "i_minimum_price d' = i_minimum_price d"
    "i_maximum_price d' = i_maximum_price d"
proof -
  have "0 < positive_int_override env n (i_operational_ttl_seconds d)" for n
    using assms by (intro positive_int_override_pos) (simp add: valid_instrument_def)
  moreover have "0 < decimal_override env n (i_maximum_spread_bps d)" for n
    using assms by (intro decimal_override_pos) (simp add: valid_instrument_def)
  ultimately show ?thesis
    using assms that
    by (auto simp: apply_environment_def instrument_post_init_iff valid_instrument_def Let_def)
qed

lemma upper_id_check:
  "upper ''GOLD_18K_TOMAN_GRAM'' = ''GOLD_18K_TOMAN_GRAM''"
  "upper ''GOLD_24K_TOMAN_GRAM'' = ''GOLD_24K_TOMAN_GRAM''"
  "upper ''XAU_USD_OZ'' = ''XAU_USD_OZ''"
  "upper ''SILVER_999_TOMAN_GRAM'' = ''SILVER_999_TOMAN_GRAM''"
  "upper ''SILVER_925_TOMAN_GRAM'' = ''SILVER_925_TOMAN_GRAM''"
  "upper ''XAG_USD_OZ'' = ''XAG_USD_OZ''"
  "upper ''USD_TOMAN'' = ''USD_TOMAN''"
  "upper ''USDT_TOMAN'' = ''USDT_TOMAN''"
  "upper ''USDT_USD'' = ''USDT_USD''"
  "upper ''BTC_TOMAN'' = ''BTC_TOMAN''"
  "upper ''BTC_USD'' = ''BTC_USD''"
  by (simp_all add: upper_def upper_char_def)

lemma default_instruments_valid: "d \<in> set default_instruments \<Longrightarrow> valid_instrument d"
proof -
  have "list_all valid_instrument default_instruments"
    by (simp add: default_instruments_def valid_instrument_def instrument_of_def upper_id_check)
  then show "d \<in> set default_instruments \<Longrightarrow> valid_instrument d"
    by (simp add: list_all_iff)
qed

lemma emap_total:
  assumes "\<And>x. x \<in> set xs \<Longrightarrow> \<exists>y. f x = Inr y"
  shows "\<exists>ys. emap f xs = Inr ys"
  using assms
proof (induction xs)
  case (Cons x xs)
  then obtain y ys where "f x = Inr y" "emap f xs = Inr ys"
    by (metis list.set_intros)
  then show ?case
    by simp
qed simp

section \<open>Properties\<close>

text \<open>No environment can break the instrument catalogue: with any overrides whatsoever the
  catalogue is built without an error, has the eleven instruments in their order, and every
  instrument in it satisfies the instrument invariant (positive, ordered windows, ordered bounds
  and thresholds), with the built-in sanity bounds unchanged.\<close>

theorem instruments_total_and_valid:
  "\<exists>defs. instruments env = Inr defs
     \<and> map i_instrument_id defs = map i_instrument_id default_instruments
     \<and> map i_minimum_price defs = map i_minimum_price default_instruments
     \<and> map i_maximum_price defs = map i_maximum_price default_instruments
     \<and> (\<forall>d\<in>set defs. valid_instrument d)"
proof -
  have ok: "\<exists>d'. apply_environment env d = Inr d' \<and> valid_instrument d'
      \<and> i_instrument_id d' = i_instrument_id d \<and> i_minimum_price d' = i_minimum_price d
      \<and> i_maximum_price d' = i_maximum_price d" if "d \<in> set default_instruments" for d
    using apply_environment_valid[OF default_instruments_valid[OF that], of env] by metis
  obtain defs where defs: "emap (apply_environment env) default_instruments = Inr defs"
    using emap_total[of default_instruments "apply_environment env"] ok by blast
  have len: "length defs = length default_instruments"
    using emap_Inr_length[OF defs] .
  have nth: "valid_instrument (defs ! i)
      \<and> i_instrument_id (defs ! i) = i_instrument_id (default_instruments ! i)
      \<and> i_minimum_price (defs ! i) = i_minimum_price (default_instruments ! i)
      \<and> i_maximum_price (defs ! i) = i_maximum_price (default_instruments ! i)"
    if "i < length default_instruments" for i
    using emap_Inr_nth[OF defs that] ok[OF nth_mem[OF that]] by auto
  show ?thesis
    using defs nth len
    by (auto simp: instruments_def in_set_conv_nth intro!: nth_equalityI)
qed

theorem instruments_total_and_valid_witness:
  "\<exists>defs. instruments [''PRICING_TTL_BTC_USD'' \<mapsto> ''-5''] = Inr defs \<and> length defs = 11"
proof -
  obtain defs where d: "instruments [''PRICING_TTL_BTC_USD'' \<mapsto> ''-5''] = Inr defs"
      "map i_instrument_id defs = map i_instrument_id default_instruments"
    using instruments_total_and_valid by blast
  from arg_cong[OF d(2), of length] have "length defs = 11"
    by (simp add: default_instruments_def)
  with d show ?thesis
    by blast
qed

end
