(* ===== verification/Derived.thy ===== *)
theory Derived
  imports Canonical Instruments
begin

text \<open>
  Model of \<open>apps/api/app/pricing/derived.py\<close> and \<open>quote_visibility.py\<close>: the formula fallback for
  instruments without a live direct source, and the filter that keeps derived gold prices from being
  shown as current.

  The catalogue of instruments and the settings (grams per troy ounce, safe range of USDT/USD) are
  arguments. The formulas of the engine are the constructors of \<open>formula\<close>; \<open>calculate\<close> evaluates one.
  \<open>collect_inputs\<close> is the loop over the formula's inputs.
\<close>

section \<open>Settings and formulas\<close>

record derived_settings =
  ds_instruments :: "instrument_definition list"
  ds_troy_ounce_grams :: rat
  ds_usdt_usd_safe_min :: rat
  ds_usdt_usd_safe_max :: rat

type_synonym quote_table = "string \<rightharpoonup> canonical_quote"

definition purity_or_one :: "instrument_definition \<Rightarrow> rat" where
  "purity_or_one d = (case i_purity d of None \<Rightarrow> 1 | Some p \<Rightarrow> if p = 0 then 1 else p)"

definition purity_ratio :: "derived_settings \<Rightarrow> string \<Rightarrow> string \<Rightarrow> rat result" where
  "purity_ratio s target_id source_id =
     ebind (get_instrument (ds_instruments s) target_id) (\<lambda>target.
     ebind (get_instrument (ds_instruments s) source_id) (\<lambda>source.
     ddiv (purity_or_one target) (purity_or_one source)))"

datatype fx_bridge = UsdToman | UsdtProxy

fun bridge_name :: "fx_bridge \<Rightarrow> string" where
  "bridge_name UsdToman = ''usd_toman''"
| "bridge_name UsdtProxy = ''usdt_proxy''"

fun bridge_inputs :: "fx_bridge \<Rightarrow> string list" where
  "bridge_inputs UsdToman = [''USD_TOMAN'']"
| "bridge_inputs UsdtProxy = [''USDT_TOMAN'', ''USDT_USD'']"

datatype formula =
    Silver925
  | UsdTomanFormula
  | FxFormula string rat fx_bridge

text \<open>The dictionary \<open>_formulas\<close>: the inputs and text of a direct formula.\<close>

definition direct_formula :: "string \<Rightarrow> (string list \<times> string \<times> formula) option" where
  "direct_formula iid =
     (if iid = ''SILVER_925_TOMAN_GRAM'' then
        Some ([''SILVER_999_TOMAN_GRAM''], ''SILVER_999_TOMAN_GRAM * purity(925)/purity(999)'', Silver925)
      else if iid = ''USD_TOMAN'' then
        Some ([''USDT_TOMAN'', ''USDT_USD''], ''USDT_TOMAN / USDT_USD'', UsdTomanFormula)
      else None)"

text \<open>The dictionary \<open>_fx_formulas\<close>: the reference instrument and the factor.\<close>

definition fx_formula :: "derived_settings \<Rightarrow> string \<Rightarrow> (string \<times> rat) option result" where
  "fx_formula s iid =
     (if iid = ''SILVER_999_TOMAN_GRAM'' then
        ebind (purity_ratio s ''SILVER_999_TOMAN_GRAM'' ''XAG_USD_OZ'') (\<lambda>ratio.
        ebind (ddiv ratio (ds_troy_ounce_grams s)) (\<lambda>factor. Inr (Some (''XAG_USD_OZ'', factor))))
      else if iid = ''BTC_TOMAN'' then Inr (Some (''BTC_USD'', 1))
      else Inr None)"

section \<open>Inputs\<close>

definition is_operationally_fresh :: "canonical_quote \<Rightarrow> instant \<Rightarrow> bool" where
  "is_operationally_fresh c now \<longleftrightarrow>
     c_status c \<in> {CS_LIVE, CS_CONFIRMED, CS_FRESH_CACHE, CS_DERIVED_FALLBACK}
     \<and> c_is_persisted c \<and> now \<le> c_valid_until c \<and> now \<le> c_expires_at c"

definition fx_plan :: "quote_table \<Rightarrow> instant \<Rightarrow> fx_bridge option" where
  "fx_plan quotes current =
     List.find (\<lambda>b. list_all (\<lambda>item. case quotes item of None \<Rightarrow> True
                    | Some q \<Rightarrow> is_operationally_fresh q current) (bridge_inputs b)
                  \<and> list_all (\<lambda>item. quotes item \<noteq> None) (bridge_inputs b))
       [UsdToman, UsdtProxy]"

definition resolve_formula ::
  "derived_settings \<Rightarrow> string \<Rightarrow> quote_table \<Rightarrow> instant
   \<Rightarrow> (string list \<times> string \<times> formula \<times> fx_bridge option) option result" where
  "resolve_formula s normalized quotes current =
     (case (case direct_formula normalized of
              None \<Rightarrow> None
            | Some (ids, text, f) \<Rightarrow>
                if list_all (\<lambda>item. case quotes item of None \<Rightarrow> False
                     | Some q \<Rightarrow> is_operationally_fresh q current) ids
                then Some (ids, text, f, None) else None) of
        Some plan \<Rightarrow> Inr (Some plan)
      | None \<Rightarrow>
          ebind (fx_formula s normalized) (\<lambda>fx.
          case fx of
            None \<Rightarrow> Inr None
          | Some (reference, factor) \<Rightarrow>
              (case fx_plan quotes current of
                 None \<Rightarrow> Inr None
               | Some b \<Rightarrow> Inr (Some (reference # bridge_inputs b,
                   reference @ '' * fx['' @ bridge_name b @ ''] * '' @ py_text (PDecStr factor),
                   FxFormula reference factor b, Some b)))))"

definition derivation_depth_of :: "canonical_quote \<Rightarrow> int result" where
  "derivation_depth_of c =
     (let raw = dict_get (c_source_summary c) ''derivation_depth'' PNone
      in if raw = PNone
         then Inr (if py_truth (dict_get (c_source_summary c) ''derived'' (PBool False)) then 1 else 0)
         else case py_int raw of
           Inr depth \<Rightarrow> if depth < 0 then Inl (DerivedPriceUnavailable ''Input derivation depth is invalid'')
                        else Inr depth
         | Inl (TypeError _) \<Rightarrow> Inl (DerivedPriceUnavailable ''Input derivation depth is invalid'')
         | Inl (ValueError _) \<Rightarrow> Inl (DerivedPriceUnavailable ''Input derivation depth is invalid'')
         | Inl e \<Rightarrow> Inl e)"

definition confidence_of :: "canonical_quote \<Rightarrow> rat result" where
  "confidence_of c =
     (case py_decimal (dict_get (c_source_summary c) ''confidence_score'' (PInt 1)) of
        Inr (DFin x) \<Rightarrow> if 0 \<le> x \<and> x \<le> 1 then Inr x
                        else Inl (DerivedPriceUnavailable ''Input confidence is invalid'')
      | _ \<Rightarrow> Inl (DerivedPriceUnavailable ''Input confidence is invalid''))"

definition provenance_of :: "string \<Rightarrow> canonical_quote \<Rightarrow> string list result" where
  "provenance_of input_id c =
     (case list_items (dict_get (c_source_summary c) ''provenance'' (PList [])) of
        Inl _ \<Rightarrow> Inl (DerivedPriceUnavailable ''Input provenance is invalid'')
      | Inr raw \<Rightarrow> Inr (append_new [] (map (\<lambda>v. upper (strip v)) (raw @ [input_id]))))"

record derived_input =
  di_id :: string
  di_quote :: canonical_quote
  di_depth :: int
  di_confidence :: rat
  di_provenance :: "string list"

primrec collect_inputs ::
  "string \<Rightarrow> quote_table \<Rightarrow> instant \<Rightarrow> string list \<Rightarrow> string list
   \<Rightarrow> (derived_input list \<times> string list) result" where
  "collect_inputs normalized quotes current provenance [] = Inr ([], provenance)"
| "collect_inputs normalized quotes current provenance (input_id # ids) =
     (case quotes input_id of
        None \<Rightarrow> Inl (DerivedPriceUnavailable (''Formula input is not fresh: '' @ input_id))
      | Some q \<Rightarrow>
          if \<not> is_operationally_fresh q current
          then Inl (DerivedPriceUnavailable (''Formula input is not fresh: '' @ input_id))
          else
            ebind (derivation_depth_of q) (\<lambda>depth.
            ebind (provenance_of input_id q) (\<lambda>source_provenance.
            if normalized \<in> set source_provenance
            then Inl (DerivedPriceUnavailable ''Derived formula contains a cycle'')
            else
              ebind (confidence_of q) (\<lambda>confidence.
              ebind (collect_inputs normalized quotes current
                       (append_new provenance source_provenance) ids) (\<lambda>(rest, prov).
              Inr (\<lparr>di_id = input_id, di_quote = q, di_depth = depth, di_confidence = confidence,
                    di_provenance = source_provenance\<rparr> # rest, prov))))))"

section \<open>The derived quote\<close>

definition input_quote :: "derived_input list \<Rightarrow> string \<Rightarrow> canonical_quote option" where
  "input_quote ins iid = map_option di_quote (List.find (\<lambda>d. di_id d = iid) ins)"

definition input_price :: "derived_input list \<Rightarrow> string \<Rightarrow> rat result" where
  "input_price ins iid =
     (case input_quote ins iid of None \<Rightarrow> Inl (KeyErr iid) | Some q \<Rightarrow> Inr (c_price q))"

definition fx_rate :: "fx_bridge \<Rightarrow> derived_input list \<Rightarrow> rat result" where
  "fx_rate b ins =
     (case b of
        UsdToman \<Rightarrow> input_price ins ''USD_TOMAN''
      | UsdtProxy \<Rightarrow> ebind (input_price ins ''USDT_TOMAN'') (\<lambda>x.
                     ebind (input_price ins ''USDT_USD'') (\<lambda>y. ddiv x y)))"

definition calculate :: "derived_settings \<Rightarrow> formula \<Rightarrow> derived_input list \<Rightarrow> rat result" where
  "calculate s f ins =
     (case f of
        Silver925 \<Rightarrow>
          ebind (input_price ins ''SILVER_999_TOMAN_GRAM'') (\<lambda>x.
          ebind (purity_ratio s ''SILVER_925_TOMAN_GRAM'' ''SILVER_999_TOMAN_GRAM'') (\<lambda>r.
          Inr (dmul x r)))
      | UsdTomanFormula \<Rightarrow>
          ebind (input_price ins ''USDT_TOMAN'') (\<lambda>x.
          ebind (input_price ins ''USDT_USD'') (\<lambda>y. ddiv x y))
      | FxFormula reference factor b \<Rightarrow>
          ebind (input_price ins reference) (\<lambda>x.
          ebind (fx_rate b ins) (\<lambda>r. Inr (dmul (dmul x r) factor))))"

definition bridge_is_proxy :: "fx_bridge option \<Rightarrow> derived_input list \<Rightarrow> bool" where
  "bridge_is_proxy b ins =
     (case b of
        None \<Rightarrow> False
      | Some UsdtProxy \<Rightarrow> True
      | Some UsdToman \<Rightarrow> (case input_quote ins ''USD_TOMAN'' of
          None \<Rightarrow> True
        | Some q \<Rightarrow> py_truth (dict_get (c_source_summary q) ''derived'' (PBool False))))"

definition key_text :: "idem_key \<Rightarrow> string" where
  "key_text k = (case k of KeyText s \<Rightarrow> s | KeyDigest _ \<Rightarrow> ''<sha256>'')"

definition input_record :: "derived_input \<Rightarrow> (string \<times> pyval) list" where
  "input_record d =
     [(''instrument_id'', PStr (di_id d)),
      (''canonical_id'', case c_id (di_quote d) of None \<Rightarrow> PNone | Some n \<Rightarrow> PInt n),
      (''idempotency_key'', PStr (key_text (c_idempotency_key (di_quote d)))),
      (''price'', PDecStr (c_price (di_quote d))),
      (''observed_at'', PIso (c_observed_at (di_quote d))),
      (''valid_until'', PIso (c_valid_until (di_quote d))),
      (''derivation_depth'', PInt (di_depth d)),
      (''confidence_score'', PDecStr (di_confidence d)),
      (''provenance'', PList (di_provenance d))]"

definition derived_args ::
  "instrument_definition \<Rightarrow> string \<Rightarrow> rat \<Rightarrow> derived_input list \<Rightarrow> string list \<Rightarrow> int \<Rightarrow> rat
   \<Rightarrow> string \<Rightarrow> fx_bridge option \<Rightarrow> instant \<Rightarrow> quote_args" where
  "derived_args d normalized price ins provenance depth confidence text b current =
     (let observed = map (\<lambda>x. c_observed_at (di_quote x)) ins;
          valid = map (\<lambda>x. c_valid_until (di_quote x)) ins
      in default_args\<lparr>a_instrument_id := normalized,
        a_provider_id := ''derived:'' @ lower normalized, a_source_type := ST_DERIVED,
        a_price := PDecStr price, a_currency := i_quote_currency d, a_weight_unit := i_weight_unit d,
        a_purity := i_purity d, a_observed_at := utc (min_of (hd observed) (tl observed)),
        a_received_at := utc current, a_parser_version := ''derived-formula/1.0.0'',
        a_validation_status := ACCEPTED, a_confidence_score := PDecStr confidence,
        a_is_direct := False, a_is_derived := True, a_is_suspicious := False,
        a_source_semantic := PStr ''derived'', a_source_family := PStr ''internal_formula'',
        a_venue := PStr ''nerkhbaan'', a_selected_price_semantic := PStr ''formula'',
        a_original_currency := PStr (currency_value (i_quote_currency d)),
        a_original_value := PDecStr price, a_conversion_factor := PDecStr 1,
        a_route_id := PStr (''formula:'' @ lower normalized), a_derivation_depth := depth,
        a_provenance := provenance,
        a_metadata := [''formula'' \<mapsto> PStr text, ''inputs'' \<mapsto> PDicts (map input_record ins),
          ''derivation_depth'' \<mapsto> PInt depth, ''provenance'' \<mapsto> PList provenance,
          ''fx_bridge'' \<mapsto> (case b of None \<Rightarrow> PNone | Some x \<Rightarrow> PStr (bridge_name x)),
          ''fx_bridge_is_proxy'' \<mapsto> PBool (bridge_is_proxy b ins),
          ''input_live_eligible_until'' \<mapsto> PIso (min_of (hd valid) (tl valid)),
          ''theoretical_value'' \<mapsto> PBool (normalized \<in> {''GOLD_18K_TOMAN_GRAM'',
             ''GOLD_24K_TOMAN_GRAM'', ''SILVER_999_TOMAN_GRAM'', ''SILVER_925_TOMAN_GRAM''})],
        a_persistence_status := UNPERSISTED\<rparr>)"

definition derive ::
  "derived_settings \<Rightarrow> string \<Rightarrow> quote_table \<Rightarrow> instant \<Rightarrow> provider_quote result" where
  "derive s instrument_id quotes current =
     (let normalized = upper instrument_id in
      ebind (resolve_formula s normalized quotes current) (\<lambda>plan.
      case plan of
        None \<Rightarrow> Inl (DerivedPriceUnavailable ''No derived formula is available'')
      | Some (input_ids, text, f, b) \<Rightarrow>
          ebind (collect_inputs normalized quotes current [] input_ids) (\<lambda>(ins, provenance).
          let depth = max_of 0 (map di_depth ins) + 1;
              confidence = dmul (case map di_confidence ins of [] \<Rightarrow> 1 | x # xs \<Rightarrow> min_of x xs) (9/10)
          in
          ebind (require (\<not> depth > 3)
             (DerivedPriceUnavailable ''Derived formula exceeds maximum depth'')) (\<lambda>_.
          ebind (require (case input_quote ins ''USDT_USD'' of None \<Rightarrow> True
                | Some q \<Rightarrow> ds_usdt_usd_safe_min s \<le> c_price q \<and> c_price q \<le> ds_usdt_usd_safe_max s)
             (DerivedPriceUnavailable ''USDT/USD input is outside the safe range'')) (\<lambda>_.
          ebind (calculate s f ins) (\<lambda>price.
          ebind (get_instrument (ds_instruments s) normalized) (\<lambda>d.
          ebind (require (accepts d price)
             (DerivedPriceUnavailable ''Derived value is outside instrument bounds'')) (\<lambda>_.
          provider_quote_create
            (derived_args d normalized price ins provenance depth confidence text b current)))))))))"

section \<open>Visibility of current quotes\<close>

fun has_substring :: "string \<Rightarrow> string \<Rightarrow> bool" where
  "has_substring p [] = (p = [])"
| "has_substring p (c # s) = (starts_with p (c # s) \<or> has_substring p s)"

text \<open>\<open>text in value\<close>\<close>

definition py_contains :: "pyval \<Rightarrow> string \<Rightarrow> bool result" where
  "py_contains v s =
     (case v of PList xs \<Rightarrow> Inr (s \<in> set xs) | PDicts _ \<Rightarrow> Inr False
      | PStr t \<Rightarrow> Inr (has_substring s t) | PIso _ \<Rightarrow> Inr False | PDecStr _ \<Rightarrow> Inr False
      | _ \<Rightarrow> Inl (TypeError ''argument is not iterable''))"

definition allowed_current_quote :: "canonical_quote \<Rightarrow> bool result" where
  "allowed_current_quote c =
     (let summary = c_source_summary c; get = (\<lambda>k. dict_get summary k PNone) in
      if py_truth (get ''historical_backfill'') then Inr False
      else if c_instrument_id c \<notin> {''GOLD_18K_TOMAN_GRAM'', ''GOLD_24K_TOMAN_GRAM''} then Inr True
      else if py_truth (get ''derived'') \<or> c_status c = CS_DERIVED_FALLBACK
        \<or> starts_with ''derived:'' (py_text (dict_get summary ''primary_provider_id'' (PStr [])))
        \<or> get ''primary_provider_id'' = PStr ''persian_toolbox_gold24'' then Inr False
      else ebind (py_contains (or_val (get ''provider_ids'') (PList [])) ''persian_toolbox_gold24'')
             (\<lambda>x. Inr (\<not> x)))"

section \<open>Facts\<close>

lemma derivation_depth_of_nonneg: "derivation_depth_of c = Inr n \<Longrightarrow> 0 \<le> n"
  by (auto simp: derivation_depth_of_def Let_def split: if_splits sum.splits py_error.splits)

lemma confidence_of_bounds: "confidence_of c = Inr x \<Longrightarrow> 0 \<le> x \<and> x \<le> 1"
  by (auto simp: confidence_of_def split: if_splits sum.splits pydec.splits)

lemma collect_inputs_facts:
  assumes "collect_inputs n quotes now prov ids = Inr (ins, prov')"
  shows "map di_id ins = ids"
    and "x \<in> set ins \<Longrightarrow> quotes (di_id x) = Some (di_quote x) \<and> is_operationally_fresh (di_quote x) now
           \<and> derivation_depth_of (di_quote x) = Inr (di_depth x)
           \<and> confidence_of (di_quote x) = Inr (di_confidence x)
           \<and> provenance_of (di_id x) (di_quote x) = Inr (di_provenance x)
           \<and> n \<notin> set (di_provenance x)"
    and "set prov' = set prov \<union> (\<Union>x\<in>set ins. set (di_provenance x))"
proof -
  have "map di_id ins = ids \<and> (\<forall>x\<in>set ins. quotes (di_id x) = Some (di_quote x)
           \<and> is_operationally_fresh (di_quote x) now
           \<and> derivation_depth_of (di_quote x) = Inr (di_depth x)
           \<and> confidence_of (di_quote x) = Inr (di_confidence x)
           \<and> provenance_of (di_id x) (di_quote x) = Inr (di_provenance x)
           \<and> n \<notin> set (di_provenance x))
      \<and> set prov' = set prov \<union> (\<Union>x\<in>set ins. set (di_provenance x))"
    using assms
  proof (induction ids arbitrary: prov ins prov')
    case (Cons i ids)
    obtain q depth sp conf rest where q: "quotes i = Some q" "is_operationally_fresh q now"
        "derivation_depth_of q = Inr depth" "provenance_of i q = Inr sp" "n \<notin> set sp"
        "confidence_of q = Inr conf"
      and rest: "collect_inputs n quotes now (append_new prov sp) ids = Inr (rest, prov')"
      and ins: "ins = \<lparr>di_id = i, di_quote = q, di_depth = depth, di_confidence = conf,
          di_provenance = sp\<rparr> # rest"
      using Cons.prems by (auto simp: err_simps split: option.splits if_splits)
    have "[] \<notin> set sp"
      using q(4) by (auto simp: provenance_of_def set_append_new split: sum.splits)
    then show ?case
      using Cons.IH[OF rest] q ins by (auto simp: set_append_new)
  qed simp
  then show "map di_id ins = ids"
    and "x \<in> set ins \<Longrightarrow> quotes (di_id x) = Some (di_quote x) \<and> is_operationally_fresh (di_quote x) now
           \<and> derivation_depth_of (di_quote x) = Inr (di_depth x)
           \<and> confidence_of (di_quote x) = Inr (di_confidence x)
           \<and> provenance_of (di_id x) (di_quote x) = Inr (di_provenance x)
           \<and> n \<notin> set (di_provenance x)"
    and "set prov' = set prov \<union> (\<Union>x\<in>set ins. set (di_provenance x))"
    by auto
qed

lemma provenance_of_own_id: "provenance_of i q = Inr p \<Longrightarrow> upper (strip i) \<noteq> [] \<Longrightarrow> upper (strip i) \<in> set p"
  by (auto simp: provenance_of_def set_append_new split: sum.splits)

lemma resolve_formula_inputs:
  "resolve_formula s n quotes now = Inr (Some (ids, text, f, b)) \<Longrightarrow> ids \<noteq> []"
  by (auto simp: resolve_formula_def direct_formula_def err_simps
      split: option.splits if_splits prod.splits)

text \<open>Gold has no formula.\<close>

lemma no_gold_formula:
  "n \<in> {''GOLD_18K_TOMAN_GRAM'', ''GOLD_24K_TOMAN_GRAM''} \<Longrightarrow> resolve_formula s n quotes now = Inr None"
  by (auto simp: resolve_formula_def direct_formula_def fx_formula_def)

lemma derive_cases:
  assumes "derive s iid quotes now = Inr q"
  obtains ids tx f b ins prov price d where
    "resolve_formula s (upper iid) quotes now = Inr (Some (ids, tx, f, b))"
    "collect_inputs (upper iid) quotes now [] ids = Inr (ins, prov)"
    "max_of 0 (map di_depth ins) + 1 \<le> 3" "calculate s f ins = Inr price"
    "get_instrument (ds_instruments s) (upper iid) = Inr d" "accepts d price"
    "provider_quote_create (derived_args d (upper iid) price ins prov
       (max_of 0 (map di_depth ins) + 1)
       (dmul (case map di_confidence ins of [] \<Rightarrow> 1 | x # xs \<Rightarrow> min_of x xs) (9/10)) tx b now) = Inr q"
  using assms
  by (auto simp: derive_def Let_def err_simps not_less split: option.splits prod.splits)

lemma raw_quote_metadata: "q_metadata (raw_quote a p b k l v c) = a_metadata a"
  by (simp add: raw_quote_def)

definition source_keys :: "string list" where
  "source_keys = [''source_semantic'', ''source_family'', ''venue'', ''selected_price_semantic'',
     ''original_currency'', ''conversion_factor'', ''route_id'', ''derivation_depth'', ''provenance'',
     ''source_timestamp'', ''receive_timestamp'', ''last'', ''original_value'', ''spread_bps'']"

lemma normalized_metadata_other: "k \<notin> set source_keys \<Longrightarrow> normalized_metadata q k = q_metadata q k"
  unfolding normalized_metadata_def Let_def source_keys_def
  by (cases "q_last q"; cases "q_original_value q"; cases "q_spread_bps q") simp_all

lemma normalize_source_provenance_metadata:
  "normalize_source_provenance a q = Inr q' \<Longrightarrow> k \<notin> set source_keys \<Longrightarrow> q_metadata q' k = q_metadata q k"
  by (auto simp: normalize_source_provenance_def Let_def err_simps normalized_metadata_other)

text \<open>The fields of a created quote that come straight from the arguments.\<close>

lemma provider_quote_create_fields:
  assumes "provider_quote_create a = Inr q"
  shows "decimal_or_none (a_price a) = Inr (q_price q)"
    "decimal_value True (a_confidence_score a) = Inr (q_confidence_score q)"
    "q_observed_at q = ensure_utc (a_observed_at a)" "q_instrument_id q = a_instrument_id a"
    "q_persistence_status q = a_persistence_status a"
    "k \<notin> set source_keys \<Longrightarrow> q_metadata q k = a_metadata a k"
    "a_source_semantic a = PStr ''derived'' \<Longrightarrow> q_source_semantic q = DERIVED"
    "\<lbrakk>a_metadata a ''derivation_depth'' = Some (PInt n); 1 \<le> n\<rbrakk> \<Longrightarrow> q_derivation_depth q = n"
    "\<lbrakk>a_provenance a = ps; ps \<noteq> []\<rbrakk> \<Longrightarrow> set (map strip ps) - {[]} \<subseteq> set (q_provenance q)"
proof -
  obtain price bid ask lst volume confidence q' where
      c: "decimal_or_none (a_price a) = Inr price"
         "decimal_value True (a_confidence_score a) = Inr confidence"
    and n: "normalize_source_provenance a (raw_quote a price bid ask lst volume confidence) = Inr q'"
    and q: "q = q'\<lparr>q_idempotency_key := quote_key q'\<rparr>"
    using assms unfolding provider_quote_create_def by (auto simp: err_simps)
  note f = normalize_source_provenance_frame[OF n]
  show "decimal_or_none (a_price a) = Inr (q_price q)"
    "decimal_value True (a_confidence_score a) = Inr (q_confidence_score q)"
    "q_observed_at q = ensure_utc (a_observed_at a)" "q_instrument_id q = a_instrument_id a"
    "q_persistence_status q = a_persistence_status a"
    using c f q by (simp_all add: raw_quote_def)
  show "k \<notin> set source_keys \<Longrightarrow> q_metadata q k = a_metadata a k"
    using normalize_source_provenance_metadata[OF n, of k] by (simp add: q raw_quote_metadata)
  show "a_source_semantic a = PStr ''derived'' \<Longrightarrow> q_source_semantic q = DERIVED"
    using n unfolding q normalize_source_provenance_def
    by (auto simp: Let_def err_simps or_val_def enum_of_def source_semantics_def)
  show "\<lbrakk>a_metadata a ''derivation_depth'' = Some (PInt n); 1 \<le> n\<rbrakk> \<Longrightarrow> q_derivation_depth q = n"
    using n unfolding q normalize_source_provenance_def
    by (auto simp: Let_def err_simps dict_get_def raw_quote_def depth_of_def)
  show "\<lbrakk>a_provenance a = ps; ps \<noteq> []\<rbrakk> \<Longrightarrow> set (map strip ps) - {[]} \<subseteq> set (q_provenance q)"
    using n unfolding q normalize_source_provenance_def
    by (auto simp: Let_def err_simps normalize_provenance_def set_append_new)
qed

lemma derived_args_fields:
  "a_price (derived_args d n price ins prov depth conf tx b now) = PDecStr price"
  "a_confidence_score (derived_args d n price ins prov depth conf tx b now) = PDecStr conf"
  "a_instrument_id (derived_args d n price ins prov depth conf tx b now) = n"
  "a_source_semantic (derived_args d n price ins prov depth conf tx b now) = PStr ''derived''"
  "a_persistence_status (derived_args d n price ins prov depth conf tx b now) = UNPERSISTED"
  "a_provenance (derived_args d n price ins prov depth conf tx b now) = prov"
  "a_metadata (derived_args d n price ins prov depth conf tx b now) ''derivation_depth'' = Some (PInt depth)"
  "a_metadata (derived_args d n price ins prov depth conf tx b now) ''input_live_eligible_until''
     = Some (PIso (let vs = map (\<lambda>x. c_valid_until (di_quote x)) ins in min_of (hd vs) (tl vs)))"
  by (simp_all add: derived_args_def Let_def)

text \<open>What a derived quote tells of the inputs it was computed from.\<close>

lemma derive_facts:
  assumes "derive s iid quotes now = Inr q"
  obtains ins :: "derived_input list" and d price where "ins \<noteq> []"
    "\<forall>x\<in>set ins. quotes (di_id x) = Some (di_quote x) \<and> is_operationally_fresh (di_quote x) now
       \<and> derivation_depth_of (di_quote x) = Inr (di_depth x) \<and> 0 \<le> di_depth x
       \<and> confidence_of (di_quote x) = Inr (di_confidence x)
       \<and> upper iid \<notin> set (di_provenance x) \<and> provenance_of (di_id x) (di_quote x) = Inr (di_provenance x)"
    "get_instrument (ds_instruments s) (upper iid) = Inr d" "q_price q = Some price" "accepts d price"
    "q_derivation_depth q = Max (di_depth ` set ins) + 1" "q_derivation_depth q \<le> 3"
    "q_confidence_score q = dmul (Min (di_confidence ` set ins)) (9/10)"
    "q_source_semantic q = DERIVED" "q_instrument_id q = upper iid"
    "q_metadata q ''input_live_eligible_until'' = Some (PIso (Min ((\<lambda>x. c_valid_until (di_quote x)) ` set ins)))"
    "\<forall>x\<in>set ins. strip ` set (di_provenance x) - {[]} \<subseteq> set (q_provenance q)"
proof -
  obtain ids tx f b ins prov price d where
    r: "resolve_formula s (upper iid) quotes now = Inr (Some (ids, tx, f, b))"
    and c: "collect_inputs (upper iid) quotes now [] ids = Inr (ins, prov)"
    and dep: "max_of 0 (map di_depth ins) + 1 \<le> 3"
    and "calculate s f ins = Inr price"
    and d: "get_instrument (ds_instruments s) (upper iid) = Inr d" "accepts d price"
    and q: "provider_quote_create (derived_args d (upper iid) price ins prov
       (max_of 0 (map di_depth ins) + 1)
       (dmul (case map di_confidence ins of [] \<Rightarrow> 1 | x # xs \<Rightarrow> min_of x xs) (9/10)) tx b now) = Inr q"
    by (rule derive_cases[OF assms])
  note cf = collect_inputs_facts[OF c] and qf = provider_quote_create_fields[OF q, unfolded derived_args_fields]
  have ne: "ins \<noteq> []"
    using cf(1) resolve_formula_inputs[OF r] by auto
  have nonneg: "0 \<le> di_depth x" if "x \<in> set ins" for x
    using cf(2)[OF that] derivation_depth_of_nonneg by blast
  have mx: "max_of 0 (map di_depth ins) = Max (di_depth ` set ins)"
    using ne nonneg by (cases ins) (auto simp: max_of_eq_Max max_def Max_ge_iff)
  have mn: "(case map di_confidence ins of [] \<Rightarrow> 1 | x # xs \<Rightarrow> min_of x xs) = Min (di_confidence ` set ins)"
    using ne by (cases ins) (auto simp: min_of_eq_Min)
  have mv: "(let vs = map (\<lambda>x. c_valid_until (di_quote x)) ins in min_of (hd vs) (tl vs))
      = Min ((\<lambda>x. c_valid_until (di_quote x)) ` set ins)"
    using ne by (cases ins) (auto simp: min_of_eq_Min)
  have m1: "1 \<le> max_of 0 (map di_depth ins) + 1"
    using max_of_ge[of 0 0] by simp
  have depth: "q_derivation_depth q = Max (di_depth ` set ins) + 1"
    using qf(8) m1 mx by simp
  have price: "q_price q = Some price"
    using qf(1) by (auto simp: decimal_or_none_def err_simps decimal_value_def split: if_splits)
  have conf: "q_confidence_score q = dmul (Min (di_confidence ` set ins)) (9/10)"
    using qf(2) mn by (auto simp: decimal_value_def split: if_splits)
  have live: "q_metadata q ''input_live_eligible_until''
      = Some (PIso (Min ((\<lambda>x. c_valid_until (di_quote x)) ` set ins)))"
    using qf(6)[of "''input_live_eligible_until''"] mv by (simp add: source_keys_def derived_args_fields)
  have prov: "\<forall>x\<in>set ins. strip ` set (di_provenance x) - {[]} \<subseteq> set (q_provenance q)"
    using qf(9)[OF refl] cf(3) by (cases "prov = []") (auto simp: subset_iff)
  show ?thesis
    by (rule that[OF ne _ d(1) price d(2) depth _ conf qf(7)[OF refl] qf(4) live prov])
      (use cf(2) nonneg dep mx depth in auto)
qed

section \<open>Properties\<close>

text \<open>A derived price is built on sound inputs only: each input is a stored, operationally
  fresh canonical quote of the table; the result is inside the instrument's sanity bounds; its depth is
  one more than the deepest input and at most three; its confidence is nine tenths of the weakest
  input's, so it never exceeds 0.9; and the instrument itself occurs in the provenance of no input, so
  a derivation never feeds on itself.\<close>

theorem derived_price_sound:
  assumes "derive s iid quotes now = Inr q"
  shows "\<exists>(ins :: derived_input list) d price. ins \<noteq> [] \<and> get_instrument (ds_instruments s) (upper iid) = Inr d
    \<and> q_price q = Some price \<and> accepts d price
    \<and> (\<forall>x\<in>set ins. quotes (di_id x) = Some (di_quote x) \<and> is_operationally_fresh (di_quote x) now
         \<and> derivation_depth_of (di_quote x) = Inr (di_depth x)
         \<and> provenance_of (di_id x) (di_quote x) = Inr (di_provenance x)
         \<and> upper iid \<notin> set (di_provenance x))
    \<and> q_derivation_depth q = Max (di_depth ` set ins) + 1
    \<and> 1 \<le> q_derivation_depth q \<and> q_derivation_depth q \<le> 3
    \<and> 0 \<le> q_confidence_score q \<and> q_confidence_score q \<le> 9/10"
proof -
  from assms show ?thesis
  proof (rule derive_facts)
    fix ins :: "derived_input list" and d price
    assume ne: "ins \<noteq> []"
      and x: "\<forall>x\<in>set ins. quotes (di_id x) = Some (di_quote x) \<and> is_operationally_fresh (di_quote x) now
       \<and> derivation_depth_of (di_quote x) = Inr (di_depth x) \<and> 0 \<le> di_depth x
       \<and> confidence_of (di_quote x) = Inr (di_confidence x)
       \<and> upper iid \<notin> set (di_provenance x) \<and> provenance_of (di_id x) (di_quote x) = Inr (di_provenance x)"
      and d: "get_instrument (ds_instruments s) (upper iid) = Inr d" "q_price q = Some price" "accepts d price"
      and dep: "q_derivation_depth q = Max (di_depth ` set ins) + 1" "q_derivation_depth q \<le> 3"
      and conf: "q_confidence_score q = dmul (Min (di_confidence ` set ins)) (9/10)"
    have "Max (di_depth ` set ins) \<in> di_depth ` set ins"
        "Min (di_confidence ` set ins) \<in> di_confidence ` set ins"
      using ne by (auto intro!: Max_in Min_in)
    then have "0 \<le> Max (di_depth ` set ins)" "0 \<le> Min (di_confidence ` set ins)"
        "Min (di_confidence ` set ins) \<le> 1"
      using x confidence_of_bounds by fastforce+
    then have "0 \<le> q_confidence_score q" "q_confidence_score q \<le> dmul 1 (9/10)"
      unfolding conf by (auto intro!: dmul_nonneg dmul_mono)
    moreover have "dmul 1 (9/10) = 9/10"
      using dctx_short[of 9 "- 1"] by (simp add: dmul_def power_int_minus)
    ultimately have "0 \<le> q_confidence_score q" "q_confidence_score q \<le> 9/10"
      by simp_all
    with ne x d dep \<open>0 \<le> Max (di_depth ` set ins)\<close> show ?thesis
      by (intro exI[of _ ins] exI[of _ d] exI[of _ price]) auto
  qed
qed

definition example_settings :: derived_settings where
  "example_settings = \<lparr>ds_instruments = [example_instrument\<lparr>i_instrument_id := ''USD_TOMAN''\<rparr>],
     ds_troy_ounce_grams = 31, ds_usdt_usd_safe_min = 9/10, ds_usdt_usd_safe_max = 11/10\<rparr>"

definition example_table :: quote_table where
  "example_table = [
     ''USDT_TOMAN'' \<mapsto> example_canonical\<lparr>c_instrument_id := ''USDT_TOMAN'', c_price := 100000,
        c_source_summary := Map.empty\<rparr>,
     ''USDT_USD'' \<mapsto> example_canonical\<lparr>c_instrument_id := ''USDT_USD'', c_price := 1,
        c_source_summary := Map.empty\<rparr>]"

lemma example_strip: "strip ''USDT_TOMAN'' = ''USDT_TOMAN''" "strip ''USDT_USD'' = ''USDT_USD''"
    "strip ''USD_TOMAN'' = ''USD_TOMAN''" "strip ''internal_formula'' = ''internal_formula''"
    "strip ''nerkhbaan'' = ''nerkhbaan''" "strip ''USD'' = ''USD''" "upper ''USD'' = ''USD''"
    "strip ''formula:usd_toman'' = ''formula:usd_toman''" "lower ''USD_TOMAN'' = ''usd_toman''"
  by code_simp+

lemma example_derived_inputs:
  "resolve_formula example_settings ''USD_TOMAN'' example_table 3000000
     = Inr (Some ([''USDT_TOMAN'', ''USDT_USD''], ''USDT_TOMAN / USDT_USD'', UsdTomanFormula, None))"
  "\<exists>ins. collect_inputs ''USD_TOMAN'' example_table 3000000 [] [''USDT_TOMAN'', ''USDT_USD'']
     = Inr (ins, [''USDT_TOMAN'', ''USDT_USD''])
     \<and> calculate example_settings UsdTomanFormula ins = Inr 100000
     \<and> map di_depth ins = [0, 0] \<and> map di_confidence ins = [1, 1]
     \<and> map (\<lambda>x. c_observed_at (di_quote x)) ins = [1000000, 1000000]
     \<and> map (\<lambda>x. c_valid_until (di_quote x)) ins = [361000000, 361000000]
     \<and> map_option c_price (input_quote ins ''USDT_USD'') = Some 1"
  by (simp_all add: resolve_formula_def direct_formula_def example_table_def is_operationally_fresh_def
      example_canonical_def derivation_depth_of_def dict_get_def provenance_of_def list_items_def
      confidence_of_def calculate_def input_price_def input_quote_def ddiv_def
      example_strip upper_id_check)

definition example_derived_fields :: "provider_quote \<Rightarrow> bool" where
  "example_derived_fields q \<longleftrightarrow> q_price q = Some 100000 \<and> q_bid q = None \<and> q_ask q = None
     \<and> q_last q = None \<and> q_original_value q = Some 100000 \<and> q_conversion_factor q = 1
     \<and> q_spread_bps q = None \<and> q_is_derived q \<and> q_observed_at q = 1000000
     \<and> (\<exists>xs. q_metadata q ''inputs'' = Some (PDicts xs))
     \<and> q_metadata q ''input_live_eligible_until'' = Some (PIso 361000000)"

lemma example_create:
  assumes "map (\<lambda>x. c_observed_at (di_quote x)) ins = [1000000, 1000000]"
    "map (\<lambda>x. c_valid_until (di_quote x)) ins = [361000000, 361000000]"
  shows "\<exists>q. provider_quote_create (derived_args (example_instrument\<lparr>i_instrument_id := ''USD_TOMAN''\<rparr>)
      ''USD_TOMAN'' 100000 ins [''USDT_TOMAN'', ''USDT_USD''] 1 (9/10) ''USDT_TOMAN / USDT_USD'' None 3000000)
      = Inr q \<and> example_derived_fields q"
  using assms
  by (simp add: provider_quote_create_def derived_args_def default_args_def Let_def
      decimal_or_none_def decimal_value_def seconds_def default_future_clock_skew_seconds_def
      normalize_source_provenance_def raw_quote_def dict_get_def or_val_def first_of_def
      enum_of_def source_semantics_def text_value_def price_semantics_def
      source_spread_def depth_of_def ddiv_def list_items_def example_instrument_def example_strip
      example_derived_fields_def normalized_metadata_def)

lemma example_derive:
  "\<exists>q. derive example_settings ''USD_TOMAN'' example_table 3000000 = Inr q \<and> example_derived_fields q"
proof -
  obtain ins where c: "collect_inputs ''USD_TOMAN'' example_table 3000000 [] [''USDT_TOMAN'', ''USDT_USD'']
     = Inr (ins, [''USDT_TOMAN'', ''USDT_USD''])"
     and i: "calculate example_settings UsdTomanFormula ins = Inr 100000"
     "map di_depth ins = [0, 0]" "map di_confidence ins = [1, 1]"
     "map (\<lambda>x. c_observed_at (di_quote x)) ins = [1000000, 1000000]"
     "map (\<lambda>x. c_valid_until (di_quote x)) ins = [361000000, 361000000]"
     "map_option c_price (input_quote ins ''USDT_USD'') = Some 1"
    using example_derived_inputs(2) by (elim exE conjE) (rule that)
  have 9: "dmul 1 (9/10) = 9/10"
    using dctx_short[of 9 "- 1"] by (simp add: dmul_def power_int_minus)
  obtain uq where uq: "input_quote ins ''USDT_USD'' = Some uq" "c_price uq = 1"
    using i(6) by auto
  have g: "get_instrument (ds_instruments example_settings) ''USD_TOMAN''
      = Inr (example_instrument\<lparr>i_instrument_id := ''USD_TOMAN''\<rparr>)"
    by (simp add: example_settings_def get_instrument_def find_instrument_def example_strip upper_id_check)
  have s: "accepts (example_instrument\<lparr>i_instrument_id := ''USD_TOMAN''\<rparr>) 100000"
      "ds_usdt_usd_safe_min example_settings \<le> 1" "1 \<le> ds_usdt_usd_safe_max example_settings"
    by (simp_all add: accepts_def example_instrument_def example_settings_def)
  show ?thesis
    using example_create[OF i(4,5)] example_derived_inputs(1) c i(1-3) uq g s
    by (simp add: derive_def Let_def upper_id_check 9 del: collect_inputs.simps)
qed

theorem derived_price_sound_witness:
  "\<exists>q. derive example_settings ''USD_TOMAN'' example_table 3000000 = Inr q
     \<and> q_derivation_depth q \<le> 3 \<and> q_confidence_score q \<le> 9/10"
  using example_derive derived_price_sound [of example_settings "''USD_TOMAN''" example_table 3000000]
  by blast

text \<open>Gold is never derived: for both gold instruments every request for a derived price
  fails, whatever quotes exist.\<close>

theorem gold_never_derived:
  assumes "upper iid \<in> {''GOLD_18K_TOMAN_GRAM'', ''GOLD_24K_TOMAN_GRAM''}"
  shows "derive s iid quotes now = Inl (DerivedPriceUnavailable ''No derived formula is available'')"
  by (simp add: derive_def no_gold_formula[OF assms])

theorem gold_never_derived_witness:
  "derive \<lparr>ds_instruments = [], ds_troy_ounce_grams = 31, ds_usdt_usd_safe_min = 0,
      ds_usdt_usd_safe_max = 2\<rparr> ''GOLD_18K_TOMAN_GRAM'' Map.empty 0
   = Inl (DerivedPriceUnavailable ''No derived formula is available'')"
  by (rule gold_never_derived) (simp add: upper_id_check)

text \<open>A derived fallback price never outlives its inputs: when a derived quote, once stored,
  becomes the canonical fallback price, that price was computed from live inputs, the canonical live
  window ends no later than the live window of every input, it carries the status derived\_fallback
  and the same price, and creation is refused after the first input has gone stale.\<close>

theorem derived_fallback_within_inputs:
  assumes "derive s iid quotes t0 = Inr q"
    and "q' = q\<lparr>q_id := Some n, q_persistence_status := PERSISTED\<rparr>"
    and "derived_fallback i q' now = Inr c"
  shows "\<exists>ins :: derived_input list. ins \<noteq> [] \<and> (\<forall>x\<in>set ins. quotes (di_id x) = Some (di_quote x)
        \<and> is_operationally_fresh (di_quote x) t0 \<and> now \<le> c_valid_until (di_quote x)
        \<and> c_valid_until c \<le> c_valid_until (di_quote x))
    \<and> Some (c_price c) = q_price q \<and> c_status c = CS_DERIVED_FALLBACK \<and> valid_canonical c
    \<and> i_allow_derived_fallback i"
proof -
  from assms(1) show ?thesis
  proof (rule derive_facts)
    fix ins :: "derived_input list" and d price
    assume ne: "ins \<noteq> []"
      and x: "\<forall>x\<in>set ins. quotes (di_id x) = Some (di_quote x) \<and> is_operationally_fresh (di_quote x) t0
       \<and> derivation_depth_of (di_quote x) = Inr (di_depth x) \<and> 0 \<le> di_depth x
       \<and> confidence_of (di_quote x) = Inr (di_confidence x)
       \<and> upper iid \<notin> set (di_provenance x) \<and> provenance_of (di_id x) (di_quote x) = Inr (di_provenance x)"
      and live: "q_metadata q ''input_live_eligible_until''
         = Some (PIso (Min ((\<lambda>x. c_valid_until (di_quote x)) ` set ins)))"
    let ?t = "Min ((\<lambda>x. c_valid_until (di_quote x)) ` set ins)"
    obtain lv fields sm where al: "i_allow_derived_fallback i" "q_is_derived q'"
      and lv: "quote_live_eligible_until q' i = Inr lv" "\<not> now > lv"
      and c: "from_price i (the (q_price q)) (q_observed_at q') now CS_DERIVED_FALLBACK (q_id q') []
          NOT_REQUIRED ''no_fresh_direct_quote_derived_fallback_allowed'' sm None None (Some lv) = Inr c"
      and p: "q_price q \<noteq> None"
      using assms(2,3) by (auto simp: derived_fallback_def Let_def err_simps split: option.splits)
    have "lv = ?t"
      using lv(1) al(2) live assms(2) by (simp add: quote_live_eligible_until_def dict_get_def)
    then have "lv \<le> c_valid_until (di_quote x)" if "x \<in> set ins" for x
      using that by simp
    then have "\<forall>x\<in>set ins. now \<le> c_valid_until (di_quote x) \<and> c_valid_until c \<le> c_valid_until (di_quote x)"
      using lv(2) from_price_Inr(7)[OF c] by (meson linorder_not_less order.trans)
    then show ?thesis
      using ne x al p from_price_Inr(1,2,3)[OF c] by (intro exI[of _ ins]) auto
  qed
qed

theorem derived_fallback_within_inputs_witness:
  "\<exists>q c. derive example_settings ''USD_TOMAN'' example_table 3000000 = Inr q
     \<and> derived_fallback example_instrument (q\<lparr>q_id := Some 5, q_persistence_status := PERSISTED\<rparr>) 3000000 = Inr c
     \<and> Some (c_price c) = q_price q \<and> c_status c = CS_DERIVED_FALLBACK"
proof -
  obtain q where q: "derive example_settings ''USD_TOMAN'' example_table 3000000 = Inr q"
    and e: "example_derived_fields q"
    using example_derive by blast
  let ?q = "q\<lparr>q_id := Some 5, q_persistence_status := PERSISTED\<rparr>"
  have "f64 1 = Some 1"
    using f64_int[of 1] by simp
  with e have "\<exists>fs. source_fields ?q = Inr fs"
    by (simp add: source_fields_def json_number_def example_derived_fields_def)
  then have "\<exists>c. derived_fallback example_instrument ?q 3000000 = Inr c"
    using e
    by (auto simp: derived_fallback_def example_derived_fields_def quote_live_eligible_until_def
        dict_get_def py_len_def from_price_def json_number_def canonical_create_iff canonical_of_def
        valid_canonical_def accepted_statuses_def seconds_def Let_def example_instrument_def)
  with q show ?thesis
    using derived_fallback_within_inputs [OF q, of ?q 5 example_instrument 3000000] by blast
qed

text \<open>A gold price that was produced by a formula is never shown as current: a derived
  fallback for a gold instrument, or a gold quote whose summary says it is derived, is refused by the
  visibility filter, and so is every historical backfill, for any instrument.\<close>

theorem derived_gold_not_visible:
  "(py_truth (dict_get (c_source_summary c) ''historical_backfill'' PNone) \<longrightarrow>
      allowed_current_quote c = Inr False)
   \<and> (c_instrument_id c \<in> {''GOLD_18K_TOMAN_GRAM'', ''GOLD_24K_TOMAN_GRAM''}
      \<and> (c_status c = CS_DERIVED_FALLBACK \<or> py_truth (dict_get (c_source_summary c) ''derived'' PNone))
      \<longrightarrow> allowed_current_quote c = Inr False)"
  by (simp add: allowed_current_quote_def Let_def)

theorem derived_gold_not_visible_witness:
  "allowed_current_quote (example_canonical\<lparr>c_instrument_id := ''GOLD_18K_TOMAN_GRAM'',
      c_status := CS_DERIVED_FALLBACK\<rparr>) = Inr False"
  using derived_gold_not_visible [of "example_canonical\<lparr>c_instrument_id := ''GOLD_18K_TOMAN_GRAM'',
      c_status := CS_DERIVED_FALLBACK\<rparr>"]
  by (simp add: example_canonical_def)

end
