(* ===== verification/Registry.thy ===== *)
theory Registry
  imports Instruments
begin

text \<open>
  Model of \<open>apps/api/app/pricing/registry.py\<close>: the definition of a provider with its request budget,
  the reading of budgets from the environment, which providers serve an instrument for a role, and
  the coverage report. The list of providers itself is data and an argument; the application settings
  a provider asks for are a map from names to optional texts.
\<close>

section \<open>Definitions\<close>

record provider_budget_policy =
  b_requests_per_minute :: int
  b_requests_per_hour :: int
  b_requests_per_day :: int
  b_reserved_anomaly_requests :: int
  b_reserved_fallback_requests :: int
  b_minimum_interval_seconds :: int
  b_cooldown_after_429_seconds :: int
  b_estimated_request_cost :: rat

record instrument_budget_policy =
  ib_requests_per_minute :: int
  ib_requests_per_hour :: int
  ib_importance :: int
  ib_maximum_verification_depth :: int

record provider_definition =
  p_provider_id :: string
  p_display_name :: string
  p_instrument_id :: string
  p_role :: provider_role
  p_priority :: int
  p_trust_score :: rat
  p_url :: string
  p_parser_id :: string
  p_parser_version :: string
  p_operational_ttl_seconds :: int
  p_budget :: provider_budget_policy
  p_method :: string
  p_enabled :: bool
  p_api_key_setting :: "string option"
  p_api_key_header :: "string option"
  p_api_key_query_parameter :: "string option"
  p_static_headers :: "(string \<times> string) list"
  p_maximum_payload_bytes :: int
  p_history_url :: "string option"
  p_history_parser_id :: "string option"
  p_history_requires_live_quote :: bool
  p_maximum_source_age_seconds :: "int option"
  p_anchor_live_window_at_receive_time :: bool
  p_source_semantic :: source_semantic
  p_source_family :: string
  p_venue :: string
  p_selected_price_semantic :: price_semantic
  p_route_id :: string
  p_requires_https :: bool
  p_credential_placement :: string
  p_unit_source :: "string option"
  p_symbol_or_pair :: "string option"
  p_selected_price_semantic_contract :: "string option"
  p_independence_group :: "string option"
  p_required_settings :: "string list"

type_synonym app_settings = "string \<rightharpoonup> string"

text \<open>\<open>bool(getattr(settings, name, None))\<close>\<close>

definition setting_present :: "app_settings \<Rightarrow> string \<Rightarrow> bool" where
  "setting_present st name \<longleftrightarrow> or_text (st name) [] \<noteq> []"

definition configured :: "provider_definition \<Rightarrow> app_settings \<Rightarrow> bool" where
  "configured p st =
     (if p_provider_id p = ''persian_toolbox_gold24'' then False
      else if \<not> list_all (setting_present st) (p_required_settings p) then False
      else if starts_with ''navasan_'' (p_provider_id p)
              \<and> \<not> setting_present st ''navasan_https_proxy_base_url'' then False
      else if starts_with ''nerkh_io_'' (p_provider_id p)
              \<and> or_text (p_unit_source p) [] \<noteq> []
              \<and> \<not> setting_present st (or_text (p_unit_source p) []) then False
      else if starts_with ''nerkh_io_'' (p_provider_id p)
              \<and> (setting_present st ''nerkh_io_bearer_token'' \<or> setting_present st ''nerkh_io_api_key'')
        then True
      else (case p_api_key_setting p of None \<Rightarrow> True | Some name \<Rightarrow> setting_present st name))"

section \<open>Environment\<close>

definition int_env :: "environ \<Rightarrow> string \<Rightarrow> int \<Rightarrow> int \<Rightarrow> int" where
  "int_env env name dflt minimum =
     (let value = (case env name of None \<Rightarrow> Some dflt | Some raw \<Rightarrow> parse_int raw)
      in case value of None \<Rightarrow> dflt | Some v \<Rightarrow> if v \<ge> minimum then v else dflt)"

definition decimal_env :: "environ \<Rightarrow> string \<Rightarrow> rat \<Rightarrow> rat" where
  "decimal_env env name dflt =
     (case env name of
        None \<Rightarrow> dflt
      | Some raw \<Rightarrow> (case parse_decimal raw of
          Some (DFin v) \<Rightarrow> if v \<ge> 0 then v else dflt | _ \<Rightarrow> dflt))"

definition bool_env :: "environ \<Rightarrow> string \<Rightarrow> bool \<Rightarrow> bool" where
  "bool_env env name dflt =
     (case env name of None \<Rightarrow> dflt
      | Some raw \<Rightarrow> lower (strip raw) \<in> {''1'', ''true'', ''yes'', ''on''})"

definition budget_of ::
  "environ \<Rightarrow> string \<Rightarrow> int \<Rightarrow> int \<Rightarrow> int \<Rightarrow> int \<Rightarrow> provider_budget_policy" where
  "budget_of env provider_id rpm rph rpd interval =
     (let prefix = ''PRICING_PROVIDER_'' @ upper provider_id;
          day_limit = int_env env (prefix @ ''_REQUESTS_PER_DAY'') rpd 1;
          anomaly = int_env env (prefix @ ''_RESERVED_ANOMALY_REQUESTS'') (max 1 (min 20 (day_limit div 10))) 0;
          fallback = int_env env (prefix @ ''_RESERVED_FALLBACK_REQUESTS'') (max 1 (min 20 (day_limit div 10))) 0;
          over = anomaly + fallback \<ge> day_limit
      in \<lparr>b_requests_per_minute = int_env env (prefix @ ''_REQUESTS_PER_MINUTE'') rpm 1,
          b_requests_per_hour = int_env env (prefix @ ''_REQUESTS_PER_HOUR'') rph 1,
          b_requests_per_day = day_limit,
          b_reserved_anomaly_requests = (if over then max 0 (day_limit div 10) else anomaly),
          b_reserved_fallback_requests = (if over then max 0 (day_limit div 10) else fallback),
          b_minimum_interval_seconds = int_env env (prefix @ ''_MINIMUM_INTERVAL_SECONDS'') interval 1,
          b_cooldown_after_429_seconds = int_env env (prefix @ ''_COOLDOWN_AFTER_429_SECONDS'') 300 1,
          b_estimated_request_cost = decimal_env env (prefix @ ''_ESTIMATED_REQUEST_COST'') 1\<rparr>)"

definition instrument_budget :: "environ \<Rightarrow> instrument_definition \<Rightarrow> instrument_budget_policy" where
  "instrument_budget env i =
     \<lparr>ib_requests_per_minute = int_env env
        (''PRICING_INSTRUMENT_'' @ i_instrument_id i @ ''_REQUESTS_PER_MINUTE'')
        (if i_importance i \<ge> 9 then 20 else 8) 1,
      ib_requests_per_hour = int_env env
        (''PRICING_INSTRUMENT_'' @ i_instrument_id i @ ''_REQUESTS_PER_HOUR'')
        (if i_importance i \<ge> 9 then 500 else 120) 1,
      ib_importance = i_importance i,
      ib_maximum_verification_depth = i_maximum_verification_depth i\<rparr>"

section \<open>Lookup\<close>

definition providers_by_instrument :: "provider_definition list \<Rightarrow> string \<Rightarrow> provider_definition list" where
  "providers_by_instrument ps iid =
     sort_key (\<lambda>p. (p_priority p, p_provider_id p)) (filter (\<lambda>p. p_instrument_id p = iid) ps)"

definition providers_for ::
  "provider_definition list \<Rightarrow> string \<Rightarrow> provider_role list \<Rightarrow> provider_definition list" where
  "providers_for ps iid roles =
     (let providers = providers_by_instrument ps (upper iid)
      in if roles = [] then providers else filter (\<lambda>p. p_role p \<in> set roles) providers)"

definition purpose_role :: "request_purpose \<Rightarrow> provider_role list" where
  "purpose_role purpose =
     (if purpose = FOR_NORMAL then [PRIMARY]
      else if purpose = FOR_ANOMALY then [VERIFIER, COMPARE]
      else if purpose = FOR_FALLBACK then [FALLBACK, VERIFIER]
      else [FALLBACK])"

record coverage_row =
  cov_registered :: "string list"
  cov_configured :: "string list"
  cov_has_direct_source :: bool
  cov_derived_fallback_allowed :: bool
  cov_unservable :: bool

definition instrument_source_coverage ::
  "provider_definition list \<Rightarrow> instrument_definition list \<Rightarrow> app_settings \<Rightarrow> (string \<times> coverage_row) list" where
  "instrument_source_coverage ps defs st =
     map (\<lambda>i. let providers = providers_by_instrument ps (i_instrument_id i);
                  conf = map p_provider_id (filter (\<lambda>p. p_enabled p \<and> configured p st) providers)
              in (i_instrument_id i,
                  \<lparr>cov_registered = map p_provider_id providers, cov_configured = conf,
                   cov_has_direct_source = (conf \<noteq> []),
                   cov_derived_fallback_allowed = i_allow_derived_fallback i,
                   cov_unservable = (conf = [] \<and> \<not> i_allow_derived_fallback i)\<rparr>)) defs"

definition missing_source_instruments ::
  "provider_definition list \<Rightarrow> instrument_definition list \<Rightarrow> app_settings \<Rightarrow> string list" where
  "missing_source_instruments ps defs st =
     sort (map fst (filter (\<lambda>(_, row). \<not> cov_has_direct_source row) (instrument_source_coverage ps defs st)))"

section \<open>Facts\<close>

lemma int_env_ge: "m \<le> d \<Longrightarrow> m \<le> int_env env n d m"
  by (auto simp: int_env_def Let_def split: option.splits)

section \<open>Properties\<close>

text \<open>No environment can leave a provider without requests of its own: whatever the
  variables say, the limits per minute, hour and day and the pauses are at least one, and the requests
  reserved for anomaly checks and for fallbacks together stay below the daily limit.\<close>

theorem budget_reserves_bounded:
  assumes "1 \<le> rpm" "1 \<le> rph" "1 \<le> rpd" "1 \<le> interval"
  shows "let b = budget_of env pid rpm rph rpd interval in
      1 \<le> b_requests_per_minute b \<and> 1 \<le> b_requests_per_hour b \<and> 1 \<le> b_requests_per_day b
      \<and> 1 \<le> b_minimum_interval_seconds b \<and> 1 \<le> b_cooldown_after_429_seconds b
      \<and> 0 \<le> b_reserved_anomaly_requests b \<and> 0 \<le> b_reserved_fallback_requests b
      \<and> b_reserved_anomaly_requests b + b_reserved_fallback_requests b < b_requests_per_day b"
proof -
  let ?pre = "''PRICING_PROVIDER_'' @ upper pid"
  define day where "day = int_env env (?pre @ ''_REQUESTS_PER_DAY'') rpd 1"
  define r where "r = max 1 (min 20 (day div 10))"
  have day: "1 \<le> day"
    unfolding day_def by (rule int_env_ge[OF assms(3)])
  have "0 \<le> int_env env n r 0" for n
    by (rule int_env_ge) (simp add: r_def)
  moreover have "2 * (day div 10) < day" "0 \<le> day div 10"
    using day by linarith+
  moreover have "1 \<le> int_env env n rpm 1" "1 \<le> int_env env n rph 1" "1 \<le> int_env env n interval 1"
      "1 \<le> int_env env n 300 1" for n
    using assms by (auto intro!: int_env_ge)
  ultimately show ?thesis
    using day unfolding budget_of_def Let_def day_def[symmetric] r_def[symmetric] by auto
qed

theorem budget_reserves_bounded_witness:
  "b_reserved_anomaly_requests (budget_of [''PRICING_PROVIDER_X_RESERVED_ANOMALY_REQUESTS'' \<mapsto> ''999'']
       ''x'' 2 20 200 60)
   + b_reserved_fallback_requests (budget_of [''PRICING_PROVIDER_X_RESERVED_ANOMALY_REQUESTS'' \<mapsto> ''999'']
       ''x'' 2 20 200 60)
   < b_requests_per_day (budget_of [''PRICING_PROVIDER_X_RESERVED_ANOMALY_REQUESTS'' \<mapsto> ''999'']
       ''x'' 2 20 200 60)"
  using budget_reserves_bounded [of 2 20 200 60 "[''PRICING_PROVIDER_X_RESERVED_ANOMALY_REQUESTS'' \<mapsto> ''999'']"
      "''x''"]
  by (simp add: Let_def)

text \<open>The providers asked for a purpose are exactly the registered providers of that instrument
  with a role the purpose allows, in order of priority.\<close>

theorem providers_for_purpose:
  "set (providers_for ps iid (purpose_role purpose))
     = {p \<in> set ps. p_instrument_id p = upper iid \<and> p_role p \<in> set (purpose_role purpose)}
   \<and> sorted (map p_priority (providers_for ps iid (purpose_role purpose)))"
proof -
  have ne: "purpose_role purpose \<noteq> []"
    by (simp add: purpose_role_def)
  have "sorted (map (\<lambda>p. (p_priority p, p_provider_id p)) (providers_by_instrument ps (upper iid)))"
    by (simp add: providers_by_instrument_def)
  then have "sorted_wrt (\<lambda>p q. p_priority p \<le> p_priority q) (providers_by_instrument ps (upper iid))"
    unfolding sorted_map by (rule sorted_wrt_mono_rel[rotated]) auto
  then show ?thesis
    using ne
    by (auto simp: providers_for_def Let_def providers_by_instrument_def sorted_map intro: sorted_wrt_filter)
qed

end
