(* ===== verification/Redis.thy ===== *)
theory Redis
  imports Prelude
begin

text \<open>
  The Redis service the pricing code calls. The service is not part of the repository: its commands
  are the fields of a record, an argument of every definition that uses them, and the locale
  \<open>redis_service\<close> states the documented behaviour the code relies on. \<open>rd_get\<close> is what \<open>GET\<close>
  returns, \<open>rd_pttl\<close> the remaining time to live in milliseconds of a key that has one, and
  \<open>rd_tick\<close> the passing of time.

  \<open>ttl_store\<close> is a store with deadlines that satisfies every law; it shows that the laws can hold
  and is what concrete runs are evaluated on.
\<close>

section \<open>Commands\<close>

text \<open>A stored text is either a number, as written by \<open>INCR\<close>, or any other text.\<close>

datatype redis_value = RText string | RNum int

record 's redis_ops =
  rd_get :: "'s \<Rightarrow> string \<Rightarrow> redis_value option"
  rd_pttl :: "'s \<Rightarrow> string \<Rightarrow> int option"
  rd_ttl :: "'s \<Rightarrow> string \<Rightarrow> int"
  rd_incr :: "'s \<Rightarrow> string \<Rightarrow> (int \<times> 's) result"
  rd_expire :: "'s \<Rightarrow> string \<Rightarrow> int \<Rightarrow> 's"
  rd_set_nx_px :: "'s \<Rightarrow> string \<Rightarrow> redis_value \<Rightarrow> int \<Rightarrow> bool \<times> 's"
  rd_setex :: "'s \<Rightarrow> string \<Rightarrow> int \<Rightarrow> redis_value \<Rightarrow> 's"
  rd_del :: "'s \<Rightarrow> string \<Rightarrow> int \<times> 's"
  rd_pexpire :: "'s \<Rightarrow> string \<Rightarrow> int \<Rightarrow> int \<times> 's"
  rd_tick :: "'s \<Rightarrow> int \<Rightarrow> 's"

locale redis_service =
  fixes ops :: "'s redis_ops"
  assumes pttl_none: "rd_get ops s k = None \<Longrightarrow> rd_pttl ops s k = None"
    and incr_new: "rd_get ops s k = None \<Longrightarrow>
      \<exists>s'. rd_incr ops s k = Inr (1, s') \<and> rd_get ops s' = (rd_get ops s)(k \<mapsto> RNum 1)
         \<and> rd_pttl ops s' = rd_pttl ops s"
    and incr_old: "rd_get ops s k = Some (RNum n) \<Longrightarrow>
      \<exists>s'. rd_incr ops s k = Inr (n + 1, s') \<and> rd_get ops s' = (rd_get ops s)(k \<mapsto> RNum (n + 1))
         \<and> rd_pttl ops s' = rd_pttl ops s"
    and expire_frame: "k' \<noteq> k \<Longrightarrow> rd_get ops (rd_expire ops s k t) k' = rd_get ops s k'
         \<and> rd_pttl ops (rd_expire ops s k t) k' = rd_pttl ops s k'"
    and expire_key: "0 < t \<Longrightarrow> rd_get ops s k = Some v \<Longrightarrow>
      rd_get ops (rd_expire ops s k t) k = Some v \<and> rd_pttl ops (rd_expire ops s k t) k = Some (1000 * t)"
    and set_nx_taken: "rd_get ops s k = Some w \<Longrightarrow> rd_set_nx_px ops s k v t = (False, s)"
    and set_nx_free: "rd_get ops s k = None \<Longrightarrow> 0 < t \<Longrightarrow>
      \<exists>s'. rd_set_nx_px ops s k v t = (True, s') \<and> rd_get ops s' = (rd_get ops s)(k \<mapsto> v)
         \<and> rd_pttl ops s' = (rd_pttl ops s)(k \<mapsto> t)"
    and setex: "0 < t \<Longrightarrow> rd_get ops (rd_setex ops s k t v) = (rd_get ops s)(k \<mapsto> v)
         \<and> rd_pttl ops (rd_setex ops s k t v) = (rd_pttl ops s)(k \<mapsto> 1000 * t)"
    and del: "\<exists>s'. rd_del ops s k = (if rd_get ops s k = None then 0 else 1, s')
         \<and> rd_get ops s' = (rd_get ops s)(k := None) \<and> rd_pttl ops s' = (rd_pttl ops s)(k := None)"
    and pexpire: "rd_get ops s k = Some v \<Longrightarrow> 0 < t \<Longrightarrow>
      \<exists>s'. rd_pexpire ops s k t = (1, s') \<and> rd_get ops s' = rd_get ops s
         \<and> rd_pttl ops s' = (rd_pttl ops s)(k \<mapsto> t)"
    and ttl_absent: "rd_pttl ops s k = None \<Longrightarrow> rd_ttl ops s k < 0"
    and ttl_present: "rd_pttl ops s k = Some r \<Longrightarrow> 0 \<le> rd_ttl ops s k \<and> \<bar>1000 * rd_ttl ops s k - r\<bar> < 1000"
    and tick: "0 \<le> d \<Longrightarrow>
      rd_get ops (rd_tick ops s d) k = (case rd_pttl ops s k of
         Some r \<Rightarrow> if r \<le> d then None else rd_get ops s k | None \<Rightarrow> rd_get ops s k)"
    and tick_pttl: "0 \<le> d \<Longrightarrow>
      rd_pttl ops (rd_tick ops s d) k = (case rd_pttl ops s k of
         Some r \<Rightarrow> if r \<le> d then None else Some (r - d) | None \<Rightarrow> None)"
begin

lemma tick_get: "0 \<le> d \<Longrightarrow> rd_get ops (rd_tick ops s d) k \<in> {rd_get ops s k, None}"
  by (simp add: tick split: option.splits)

lemma tick_alive: "0 \<le> d \<Longrightarrow> rd_pttl ops s k = Some r \<Longrightarrow> d < r \<Longrightarrow>
    rd_get ops (rd_tick ops s d) k = rd_get ops s k \<and> rd_pttl ops (rd_tick ops s d) k = Some (r - d)"
  by (simp add: tick tick_pttl)

lemma ttl_positive_iff: "rd_ttl ops s k > 0 \<Longrightarrow> rd_pttl ops s k \<noteq> None \<and> rd_get ops s k \<noteq> None"
  using ttl_absent[of s k] pttl_none[of s k] by fastforce

end

section \<open>A store with deadlines\<close>

record ttl_store =
  st_now :: int
  st_data :: "string \<Rightarrow> (redis_value \<times> int option) option"

definition st_entry :: "ttl_store \<Rightarrow> string \<Rightarrow> (redis_value \<times> int option) option" where
  "st_entry s k =
     (case st_data s k of
        None \<Rightarrow> None
      | Some (v, None) \<Rightarrow> Some (v, None)
      | Some (v, Some deadline) \<Rightarrow> if st_now s < deadline then Some (v, Some deadline) else None)"

definition st_put :: "ttl_store \<Rightarrow> string \<Rightarrow> (redis_value \<times> int option) option \<Rightarrow> ttl_store" where
  "st_put s k e = s\<lparr>st_data := (st_data s)(k := e)\<rparr>"

definition st_pttl :: "ttl_store \<Rightarrow> string \<Rightarrow> int option" where
  "st_pttl s k = (case st_entry s k of Some (_, Some deadline) \<Rightarrow> Some (deadline - st_now s) | _ \<Rightarrow> None)"

definition st_incr :: "ttl_store \<Rightarrow> string \<Rightarrow> (int \<times> ttl_store) result" where
  "st_incr s k =
     (case st_entry s k of
        None \<Rightarrow> Inr (1, st_put s k (Some (RNum 1, None)))
      | Some (RNum n, e) \<Rightarrow> Inr (n + 1, st_put s k (Some (RNum (n + 1), e)))
      | Some (RText _, _) \<Rightarrow> Inl (RedisUnavailable ''value is not an integer''))"

definition st_expire_ms :: "ttl_store \<Rightarrow> string \<Rightarrow> int \<Rightarrow> int \<times> ttl_store" where
  "st_expire_ms s k ms =
     (case st_entry s k of
        None \<Rightarrow> (0, s)
      | Some (v, _) \<Rightarrow> (1, st_put s k (Some (v, Some (st_now s + ms)))))"

definition ttl_ops :: "ttl_store redis_ops" where
  "ttl_ops = \<lparr>
     rd_get = (\<lambda>s k. map_option fst (st_entry s k)),
     rd_pttl = st_pttl,
     rd_ttl = (\<lambda>s k. case st_entry s k of None \<Rightarrow> -2 | Some (_, None) \<Rightarrow> -1
                | Some (_, Some deadline) \<Rightarrow> (deadline - st_now s) div 1000),
     rd_incr = st_incr,
     rd_expire = (\<lambda>s k t. snd (st_expire_ms s k (1000 * t))),
     rd_set_nx_px = (\<lambda>s k v t. case st_entry s k of
        None \<Rightarrow> (True, st_put s k (Some (v, Some (st_now s + t)))) | Some _ \<Rightarrow> (False, s)),
     rd_setex = (\<lambda>s k t v. st_put s k (Some (v, Some (st_now s + 1000 * t)))),
     rd_del = (\<lambda>s k. (if st_entry s k = None then 0 else 1, st_put s k None)),
     rd_pexpire = st_expire_ms,
     rd_tick = (\<lambda>s d. s\<lparr>st_now := st_now s + d\<rparr>)\<rparr>"

lemma st_entry_put:
  "st_entry (st_put s k e) k' =
     (if k' = k then (case e of None \<Rightarrow> None | Some (v, None) \<Rightarrow> Some (v, None)
        | Some (v, Some d) \<Rightarrow> if st_now s < d then Some (v, Some d) else None)
      else st_entry s k')"
  by (auto simp: st_entry_def st_put_def split: option.splits prod.splits)

lemma st_now_put [simp]: "st_now (st_put s k e) = st_now s"
  by (simp add: st_put_def)

lemma st_entry_deadline: "st_entry s k = Some (v, Some d) \<Longrightarrow> st_now s < d"
  by (auto simp: st_entry_def split: option.splits prod.splits if_splits)

lemma st_entry_tick:
  "0 \<le> d \<Longrightarrow> st_entry (s\<lparr>st_now := st_now s + d\<rparr>) k =
     (case st_entry s k of Some (v, Some deadline) \<Rightarrow>
        if deadline - st_now s \<le> d then None else Some (v, Some deadline) | e \<Rightarrow> e)"
  by (auto simp: st_entry_def split: option.splits prod.splits)

lemmas st_simps = ttl_ops_def st_entry_put st_pttl_def st_incr_def st_expire_ms_def

interpretation ttl: redis_service ttl_ops
proof unfold_locales
  fix s k and r :: int
  assume "rd_pttl ttl_ops s k = Some r"
  then obtain v d where "st_entry s k = Some (v, Some d)" "r = d - st_now s"
    by (auto simp: st_simps split: option.splits prod.splits)
  then show "0 \<le> rd_ttl ttl_ops s k \<and> \<bar>1000 * rd_ttl ttl_ops s k - r\<bar> < 1000"
    using st_entry_deadline[of s k v d] by (auto simp: st_simps)
qed (auto simp: st_simps st_entry_tick fun_eq_iff dest: st_entry_deadline
      split: option.splits prod.splits redis_value.splits)

end
