(* ===== verification/Budgets.thy ===== *)
theory Budgets
  imports Registry Redis
begin

text \<open>
  Model of \<open>apps/api/app/pricing/budgets.py\<close>: the request budget of a provider, kept as counters in
  Redis. \<open>consume_script\<close> is the Lua script \<open>_CONSUME_SCRIPT\<close>, run atomically by Redis on a list of
  (key, limit, time to live); \<open>consume\<close> builds that list and runs the script. \<open>now\<close> is the integer
  Unix time of the caller. Redis is the argument \<open>ops\<close>, with the laws of \<open>redis_service\<close>.
\<close>

section \<open>The script\<close>

type_synonym limit_item = "string \<times> int \<times> int"

text \<open>\<open>tonumber(redis.call('get', key) or '0')\<close>; comparing a text that is no number fails.\<close>

definition counter_value :: "redis_value option \<Rightarrow> int result" where
  "counter_value v =
     (case v of
        None \<Rightarrow> Inr 0
      | Some (RNum n) \<Rightarrow> Inr n
      | Some (RText t) \<Rightarrow> (case parse_int t of
          None \<Rightarrow> Inl (RedisUnavailable ''attempt to compare nil with number'') | Some n \<Rightarrow> Inr n))"

primrec first_exhausted :: "'s redis_ops \<Rightarrow> 's \<Rightarrow> int \<Rightarrow> limit_item list \<Rightarrow> int option result" where
  "first_exhausted ops s index [] = Inr None"
| "first_exhausted ops s index (item # items) =
     ebind (counter_value (rd_get ops s (fst item))) (\<lambda>current.
       if current \<ge> fst (snd item) then Inr (Some index)
       else first_exhausted ops s (index + 1) items)"

primrec increment_all :: "'s redis_ops \<Rightarrow> 's \<Rightarrow> int \<Rightarrow> limit_item list \<Rightarrow> (int \<times> 's) result" where
  "increment_all ops s minimum_remaining [] = Inr (minimum_remaining, s)"
| "increment_all ops s minimum_remaining (item # items) =
     ebind (rd_incr ops s (fst item)) (\<lambda>r.
       let current = fst r; s1 = snd r;
           s2 = (if current = 1 then rd_expire ops s1 (fst item) (snd (snd item)) else s1);
           remaining = fst (snd item) - current
       in increment_all ops s2 (if remaining < minimum_remaining then remaining else minimum_remaining)
            items)"

text \<open>The result is (allowed, index of the exhausted limit or minimum remaining) and the new state.\<close>

definition consume_script ::
  "'s redis_ops \<Rightarrow> 's \<Rightarrow> limit_item list \<Rightarrow> (bool \<times> int \<times> 's) result" where
  "consume_script ops s items =
     ebind (first_exhausted ops s 1 items) (\<lambda>e.
     case e of
       Some index \<Rightarrow> Inr (False, index, s)
     | None \<Rightarrow> ebind (increment_all ops s 2147483647 items) (\<lambda>r. Inr (True, fst r, snd r)))"

section \<open>The budget of a provider\<close>

record budget_decision =
  bd_allowed :: bool
  bd_reason :: string
  bd_minimum_remaining :: int

text \<open>\<open>math.floor(limit * 0.8)\<close> in floating point.\<close>

definition four_fifths :: "int \<Rightarrow> int result" where
  "four_fifths n =
     (case (f64 (of_int n), f64 (4/5)) of
        (Some x, Some y) \<Rightarrow> (case f64 (x * y) of Some z \<Rightarrow> Inr \<lfloor>z\<rfloor> | None \<Rightarrow> Inl OverflowErr)
      | _ \<Rightarrow> Inl OverflowErr)"

definition cooldown_key :: "string \<Rightarrow> string" where
  "cooldown_key provider_id = ''pricing:budget:'' @ provider_id @ '':cooldown''"

definition cooldown_remaining :: "'s redis_ops \<Rightarrow> 's \<Rightarrow> string \<Rightarrow> int" where
  "cooldown_remaining ops s provider_id = max 0 (rd_ttl ops s (cooldown_key provider_id))"

definition record_rate_limit :: "'s redis_ops \<Rightarrow> 's \<Rightarrow> provider_definition \<Rightarrow> 's" where
  "record_rate_limit ops s p =
     rd_setex ops s (cooldown_key (p_provider_id p)) (b_cooldown_after_429_seconds (p_budget p)) (RText ''1'')"

definition provider_limits ::
  "provider_definition \<Rightarrow> request_purpose \<Rightarrow> (int \<times> int \<times> int) result" where
  "provider_limits p purpose =
     (let b = p_budget p in
      if purpose \<in> {FOR_NORMAL, FOR_BACKFILL, FOR_FALLBACK} then
        ebind (four_fifths (b_requests_per_minute b)) (\<lambda>m.
        ebind (four_fifths (b_requests_per_hour b)) (\<lambda>h.
        Inr (max 1 m, max 1 h,
             max 1 (b_requests_per_day b - b_reserved_anomaly_requests b - b_reserved_fallback_requests b))))
      else Inr (b_requests_per_minute b, b_requests_per_hour b, b_requests_per_day b))"

definition provider_key :: "provider_definition \<Rightarrow> string \<Rightarrow> string" where
  "provider_key p suffix = ''pricing:budget:'' @ p_provider_id p @ suffix"

definition instrument_key :: "provider_definition \<Rightarrow> string \<Rightarrow> string" where
  "instrument_key p suffix = ''pricing:budget:instrument:'' @ p_instrument_id p @ suffix"

definition key_limits ::
  "provider_definition \<Rightarrow> instrument_budget_policy \<Rightarrow> request_purpose \<Rightarrow> int \<Rightarrow> int \<times> int \<times> int
   \<Rightarrow> limit_item list" where
  "key_limits p ib purpose now limits =
     (let b = p_budget p; minute = int_text (now div 60); hour = int_text (now div 3600);
          day = int_text (now div 86400)
      in [(provider_key p '':minimum_interval'', 1, max 1 (b_minimum_interval_seconds b)),
          (provider_key p ('':all:minute:'' @ minute), fst limits, 120),
          (provider_key p ('':all:hour:'' @ hour), fst (snd limits), 7200),
          (provider_key p ('':all:day:'' @ day), snd (snd limits), 172800),
          (instrument_key p ('':minute:'' @ minute), ib_requests_per_minute ib, 120),
          (instrument_key p ('':hour:'' @ hour), ib_requests_per_hour ib, 7200)]
         @ (if purpose = FOR_ANOMALY
            then [(provider_key p ('':anomaly:day:'' @ day), b_reserved_anomaly_requests b, 172800)]
            else []))"

definition consume ::
  "'s redis_ops \<Rightarrow> 's \<Rightarrow> (string \<rightharpoonup> instrument_budget_policy) \<Rightarrow> provider_definition \<Rightarrow> request_purpose
   \<Rightarrow> int \<Rightarrow> (budget_decision \<times> 's) result" where
  "consume ops s instrument_budgets p purpose now =
     (let b = p_budget p;
          refuse = (\<lambda>reason. Inr (\<lparr>bd_allowed = False, bd_reason = reason, bd_minimum_remaining = 0\<rparr>, s))
      in if min_of (b_requests_per_minute b) [b_requests_per_hour b, b_requests_per_day b] \<le> 0
         then refuse ''provider_budget_disabled''
         else if cooldown_remaining ops s (p_provider_id p) > 0 then refuse ''provider_cooldown''
         else case instrument_budgets (p_instrument_id p) of
           None \<Rightarrow> Inl (KeyErr (p_instrument_id p))
         | Some ib \<Rightarrow>
             ebind (provider_limits p purpose) (\<lambda>limits.
             if purpose = FOR_ANOMALY \<and> b_reserved_anomaly_requests b \<le> 0
             then refuse ''no_reserved_anomaly_budget''
             else ebind (consume_script ops s (key_limits p ib purpose now limits)) (\<lambda>r.
               if \<not> fst r
               then Inr (\<lparr>bd_allowed = False, bd_reason = ''budget_limit_'' @ int_text (fst (snd r)),
                          bd_minimum_remaining = 0\<rparr>, snd (snd r))
               else Inr (\<lparr>bd_allowed = True, bd_reason = ''allowed'',
                          bd_minimum_remaining = max 0 (fst (snd r))\<rparr>, snd (snd r)))))"

definition pressure :: "'s redis_ops \<Rightarrow> 's \<Rightarrow> provider_definition \<Rightarrow> int \<Rightarrow> rat result" where
  "pressure ops s p now =
     ebind (counter_value (rd_get ops s (provider_key p ('':all:day:'' @ int_text (now div 86400)))))
       (\<lambda>used. case f64 (of_int used / of_int (max 1 (b_requests_per_day (p_budget p)))) of
          None \<Rightarrow> Inl OverflowErr | Some x \<Rightarrow> Inr (min 1 x))"

section \<open>Facts about the script\<close>

lemma first_exhausted_None:
  "first_exhausted ops s i items = Inr None \<Longrightarrow> (k, l, t) \<in> set items \<Longrightarrow>
     \<exists>c. counter_value (rd_get ops s k) = Inr c \<and> c < l"
  by (induction items arbitrary: i) (auto simp: err_simps split: if_splits)

lemma first_exhausted_Some:
  "first_exhausted ops s i items = Inr (Some j) \<Longrightarrow>
     \<exists>k l t c. (k, l, t) \<in> set items \<and> counter_value (rd_get ops s k) = Inr c \<and> l \<le> c"
proof (induction items arbitrary: i)
  case (Cons x xs)
  then show ?case
    by (cases x) (fastforce simp: err_simps split: if_splits)
qed simp

text \<open>A key is numeric when it is absent or holds a number, which is all the script ever writes.\<close>

definition numeric :: "redis_value option \<Rightarrow> bool" where
  "numeric v \<longleftrightarrow> (case v of Some (RText _) \<Rightarrow> False | _ \<Rightarrow> True)"

definition count_of :: "redis_value option \<Rightarrow> int" where
  "count_of v = (case v of Some (RNum n) \<Rightarrow> n | _ \<Rightarrow> 0)"

lemma numeric_counter: "numeric v \<Longrightarrow> counter_value v = Inr (count_of v)"
  by (auto simp: numeric_def counter_value_def count_of_def split: option.splits redis_value.splits)

context redis_service
begin

text \<open>One round of the second loop.\<close>

lemma incr_numeric:
  assumes "numeric (rd_get ops s k)"
  obtains s' where "rd_incr ops s k = Inr (count_of (rd_get ops s k) + 1, s')"
    "rd_get ops s' = (rd_get ops s)(k \<mapsto> RNum (count_of (rd_get ops s k) + 1))"
    "rd_pttl ops s' = rd_pttl ops s"
  using assms incr_new[of s k] incr_old[of s k]
  by (auto simp: numeric_def count_of_def split: option.splits redis_value.splits)

lemma increment_step:
  assumes "numeric (rd_get ops s k)" "0 < t"
  obtains s' where
    "increment_all ops s m ((k, l, t) # items) = increment_all ops s'
        (min m (l - (count_of (rd_get ops s k) + 1))) items"
    "rd_get ops s' = (rd_get ops s)(k \<mapsto> RNum (count_of (rd_get ops s k) + 1))"
    "\<And>k'. k' \<noteq> k \<Longrightarrow> rd_pttl ops s' k' = rd_pttl ops s k'"
    "count_of (rd_get ops s k) = 0 \<Longrightarrow> rd_pttl ops s' k = Some (1000 * t)"
    "count_of (rd_get ops s k) \<noteq> 0 \<Longrightarrow> rd_pttl ops s' k = rd_pttl ops s k"
proof -
  let ?n = "count_of (rd_get ops s k)"
  obtain s1 where s1: "rd_incr ops s k = Inr (?n + 1, s1)"
      "rd_get ops s1 = (rd_get ops s)(k \<mapsto> RNum (?n + 1))" "rd_pttl ops s1 = rd_pttl ops s"
    using incr_numeric[OF assms(1)] .
  let ?s2 = "if ?n + 1 = 1 then rd_expire ops s1 k t else s1"
  have "increment_all ops s m ((k, l, t) # items) = increment_all ops ?s2 (min m (l - (?n + 1))) items"
    by (auto simp: s1(1) Let_def min_def)
  moreover have "rd_get ops ?s2 = (rd_get ops s)(k \<mapsto> RNum (?n + 1))"
    using expire_key[OF assms(2), of s1 k "RNum (?n + 1)"] expire_frame[of _ k s1 t] s1(2)
    by (auto simp: fun_eq_iff)
  moreover have "rd_pttl ops ?s2 k' = rd_pttl ops s k'" if "k' \<noteq> k" for k'
    using expire_frame[OF that, of s1 t] s1(3) by auto
  moreover have "?n = 0 \<Longrightarrow> rd_pttl ops ?s2 k = Some (1000 * t)"
    using expire_key[OF assms(2), of s1 k "RNum (?n + 1)"] s1(2) by simp
  ultimately show ?thesis
    using that[of ?s2] s1(3) by simp
qed

text \<open>The whole second loop on distinct numeric keys.\<close>

lemma increment_all_total:
  assumes "distinct (map fst items)" "\<forall>(k, l, t)\<in>set items. numeric (rd_get ops s k) \<and> 0 < t"
  obtains m' s' where "increment_all ops s m items = Inr (m', s')"
    "\<And>k. rd_get ops s' k = (if k \<in> fst ` set items then Some (RNum (count_of (rd_get ops s k) + 1))
        else rd_get ops s k)"
    "\<And>k l t. (k, l, t) \<in> set items \<Longrightarrow> rd_pttl ops s' k =
        (if count_of (rd_get ops s k) = 0 then Some (1000 * t) else rd_pttl ops s k)"
proof -
  have "\<exists>m' s'. increment_all ops s m items = Inr (m', s')
      \<and> (\<forall>k. rd_get ops s' k = (if k \<in> fst ` set items then Some (RNum (count_of (rd_get ops s k) + 1))
          else rd_get ops s k))
      \<and> (\<forall>k. k \<notin> fst ` set items \<longrightarrow> rd_pttl ops s' k = rd_pttl ops s k)
      \<and> (\<forall>(k, l, t)\<in>set items. rd_pttl ops s' k =
          (if count_of (rd_get ops s k) = 0 then Some (1000 * t) else rd_pttl ops s k))"
    using assms
  proof (induction items arbitrary: s m)
    case (Cons x items)
    obtain k l t where x: "x = (k, l, t)"
      by (cases x)
    have nk: "numeric (rd_get ops s k)" "0 < t"
      using Cons.prems x by auto
    obtain s' where s': "increment_all ops s m ((k, l, t) # items)
          = increment_all ops s' (min m (l - (count_of (rd_get ops s k) + 1))) items"
        "rd_get ops s' = (rd_get ops s)(k \<mapsto> RNum (count_of (rd_get ops s k) + 1))"
        "\<And>k'. k' \<noteq> k \<Longrightarrow> rd_pttl ops s' k' = rd_pttl ops s k'"
        "count_of (rd_get ops s k) = 0 \<Longrightarrow> rd_pttl ops s' k = Some (1000 * t)"
        "count_of (rd_get ops s k) \<noteq> 0 \<Longrightarrow> rd_pttl ops s' k = rd_pttl ops s k"
      using increment_step[OF nk, of m l items] by metis
    have fresh: "k \<notin> fst ` set items"
      using Cons.prems x by auto
    have "\<forall>(k', l', t')\<in>set items. numeric (rd_get ops s' k') \<and> 0 < t'"
      using Cons.prems(2) fresh s'(2) x by (fastforce simp: image_iff)
    then obtain m' s'' where r: "increment_all ops s' (min m (l - (count_of (rd_get ops s k) + 1))) items
          = Inr (m', s'')"
      and g: "\<forall>k. rd_get ops s'' k = (if k \<in> fst ` set items then Some (RNum (count_of (rd_get ops s' k) + 1))
          else rd_get ops s' k)"
      and fr: "\<forall>k. k \<notin> fst ` set items \<longrightarrow> rd_pttl ops s'' k = rd_pttl ops s' k"
      and tt: "\<forall>(k, l, t)\<in>set items. rd_pttl ops s'' k =
          (if count_of (rd_get ops s' k) = 0 then Some (1000 * t) else rd_pttl ops s' k)"
      using Cons.IH[of s' "min m (l - (count_of (rd_get ops s k) + 1))"] Cons.prems(1) x
      by (auto simp del: increment_all.simps)
    have "rd_pttl ops s'' a = (if count_of (rd_get ops s a) = 0 then Some (1000 * c) else rd_pttl ops s a)"
      if "(a, b, c) \<in> set items" for a b c
    proof -
      have "a \<noteq> k"
        using fresh that by (force simp: image_iff)
      then show ?thesis
        using bspec[OF tt that] s'(2,3) by simp
    qed
    moreover have "rd_pttl ops s'' k = (if count_of (rd_get ops s k) = 0 then Some (1000 * t) else rd_pttl ops s k)"
      using fr fresh s'(4,5) by simp
    ultimately show ?case
      unfolding x s'(1) using r g fr s'(2,3) fresh
      by (intro exI[of _ m'] exI[of _ s'']) auto
  qed simp
  then show ?thesis
    using that by fastforce
qed

text \<open>The script is all or nothing: refused, it changes nothing; allowed, it counts once on every key.\<close>

lemma consume_script_outcome:
  assumes "distinct (map fst items)" "\<forall>(k, l, t)\<in>set items. numeric (rd_get ops s k) \<and> 0 < t"
    "consume_script ops s items = Inr (ok, x, s')"
  shows "\<not> ok \<Longrightarrow> s' = s \<and> (\<exists>(k, l, t)\<in>set items. l \<le> count_of (rd_get ops s k))"
    and "ok \<Longrightarrow> (k, l, t) \<in> set items \<Longrightarrow> rd_get ops s' k = Some (RNum (count_of (rd_get ops s k) + 1))
        \<and> count_of (rd_get ops s k) + 1 \<le> l
        \<and> rd_pttl ops s' k = (if count_of (rd_get ops s k) = 0 then Some (1000 * t) else rd_pttl ops s k)"
    and "k \<notin> fst ` set items \<Longrightarrow> rd_get ops s' k = rd_get ops s k"
proof -
  obtain m' s1 where inc: "increment_all ops s 2147483647 items = Inr (m', s1)"
    and g: "\<And>k. rd_get ops s1 k = (if k \<in> fst ` set items then Some (RNum (count_of (rd_get ops s k) + 1))
        else rd_get ops s k)"
    and p: "\<And>k l t. (k, l, t) \<in> set items \<Longrightarrow> rd_pttl ops s1 k =
        (if count_of (rd_get ops s k) = 0 then Some (1000 * t) else rd_pttl ops s k)"
    using increment_all_total[OF assms(1,2), of 2147483647] by metis
  obtain e where e: "first_exhausted ops s 1 items = Inr e"
    and out: "e = None \<Longrightarrow> ok \<and> s' = s1" "e \<noteq> None \<Longrightarrow> \<not> ok \<and> s' = s"
    using assms(3) inc by (auto simp: consume_script_def err_simps split: option.splits)
  show "s' = s \<and> (\<exists>(k, l, t)\<in>set items. l \<le> count_of (rd_get ops s k))" if nok: "\<not> ok"
  proof -
    obtain j where j: "e = Some j"
      using out(1) nok by (cases e) auto
    obtain k l t c where "(k, l, t) \<in> set items" "counter_value (rd_get ops s k) = Inr c" "l \<le> c"
      using first_exhausted_Some[OF e[unfolded j]] by blast
    then show ?thesis
      using out(2) j assms(2) numeric_counter by fastforce
  qed
  show "rd_get ops s' k = Some (RNum (count_of (rd_get ops s k) + 1))
        \<and> count_of (rd_get ops s k) + 1 \<le> l
        \<and> rd_pttl ops s' k = (if count_of (rd_get ops s k) = 0 then Some (1000 * t) else rd_pttl ops s k)"
    if "ok" and mem: "(k, l, t) \<in> set items"
  proof -
    have n: "e = None" "s' = s1"
      using out that by (cases e; auto)+
    have "numeric (rd_get ops s k)"
      using assms(2) mem by auto
    moreover obtain c where "counter_value (rd_get ops s k) = Inr c" "c < l"
      using first_exhausted_None[OF e[unfolded n(1)] mem] by blast
    ultimately have "count_of (rd_get ops s k) < l"
      using numeric_counter by force
    moreover have "k \<in> fst ` set items"
      using mem by (force simp: image_iff)
    ultimately show ?thesis
      using n(2) g[of k] p[OF mem] by simp
  qed
  show "rd_get ops s' k = rd_get ops s k" if "k \<notin> fst ` set items"
    using g[of k] out that by (cases e) auto
qed

lemma consume_script_total:
  assumes "distinct (map fst items)" "\<forall>(k, l, t)\<in>set items. numeric (rd_get ops s k) \<and> 0 < t"
  shows "\<exists>ok x s'. consume_script ops s items = Inr (ok, x, s')"
proof -
  obtain m' s1 where "increment_all ops s 2147483647 items = Inr (m', s1)"
    using increment_all_total[OF assms, of 2147483647] by metis
  moreover have "\<exists>e. first_exhausted ops s i items = Inr e" for i
    using assms(2) by (induction items arbitrary: i) (auto simp: numeric_counter)
  then obtain e where "first_exhausted ops s 1 items = Inr e"
    by blast
  ultimately show ?thesis
    by (cases e) (auto simp: consume_script_def)
qed

end

section \<open>A window of calls\<close>

text \<open>
  A sequence of script calls, each after some milliseconds have passed; the result lists which calls
  were allowed.
\<close>

primrec run_calls :: "'s redis_ops \<Rightarrow> 's \<Rightarrow> (int \<times> limit_item list) list \<Rightarrow> bool list result" where
  "run_calls ops s [] = Inr []"
| "run_calls ops s (c # calls) =
     ebind (consume_script ops (rd_tick ops s (fst c)) (snd c)) (\<lambda>r.
     ebind (run_calls ops (snd (snd r)) calls) (\<lambda>rest. Inr (fst r # rest)))"

definition granted :: "bool list \<Rightarrow> int" where
  "granted bs = int (length (filter id bs))"

text \<open>Calls that all count on the key \<open>k\<close> with a limit of at most \<open>limit\<close> and a lifetime of \<open>ttl\<close>.\<close>

definition counts_on :: "string \<Rightarrow> int \<Rightarrow> int \<Rightarrow> (int \<times> limit_item list) list \<Rightarrow> bool" where
  "counts_on k limit ttl calls \<longleftrightarrow>
     (\<forall>(d, items)\<in>set calls. 0 \<le> d \<and> distinct (map fst items) \<and> (\<forall>(k', l, t)\<in>set items. 0 < t)
        \<and> (\<exists>l. l \<le> limit \<and> (k, l, ttl) \<in> set items))"

definition all_numeric :: "'s redis_ops \<Rightarrow> 's \<Rightarrow> (int \<times> limit_item list) list \<Rightarrow> bool" where
  "all_numeric ops s calls \<longleftrightarrow> (\<forall>(d, items)\<in>set calls. \<forall>(k, l, t)\<in>set items. numeric (rd_get ops s k))"

context redis_service
begin

lemma all_numeric_step:
  assumes "all_numeric ops s ((d, items) # calls)" "0 \<le> d" "distinct (map fst items)"
    "\<forall>(k, l, t)\<in>set items. 0 < t" "consume_script ops (rd_tick ops s d) items = Inr (ok, x, s')"
  shows "all_numeric ops s' calls" "\<forall>(k, l, t)\<in>set items. numeric (rd_get ops (rd_tick ops s d) k) \<and> 0 < t"
proof -
  have tk: "numeric (rd_get ops s k) \<Longrightarrow> numeric (rd_get ops (rd_tick ops s d) k)" for k
    using tick_get[OF assms(2), of s k] by (auto simp: numeric_def)
  show it: "\<forall>(k, l, t)\<in>set items. numeric (rd_get ops (rd_tick ops s d) k) \<and> 0 < t"
    using assms(1,4) tk by (fastforce simp: all_numeric_def)
  note o = consume_script_outcome[OF assms(3) it assms(5)]
  have "numeric (rd_get ops s' k)" if "numeric (rd_get ops (rd_tick ops s d) k)" for k
  proof (cases "ok \<and> k \<in> fst ` set items")
    case True
    then show ?thesis
      using o(2) by (force simp: numeric_def)
  next
    case False
    then show ?thesis
      using o(1,3) that by (cases ok) auto
  qed
  with tk assms(1) show "all_numeric ops s' calls"
    by (fastforce simp: all_numeric_def)
qed

text \<open>
  While the key lives, the number of grants is what the limit leaves. \<open>alive\<close> says that the key is
  absent, or that it expires only after the remaining calls.
\<close>

definition alive :: "'s \<Rightarrow> string \<Rightarrow> int \<Rightarrow> bool" where
  "alive s k rest \<longleftrightarrow>
     rd_get ops s k = None
     \<or> (\<exists>n r. rd_get ops s k = Some (RNum n) \<and> 0 < n \<and> rd_pttl ops s k = Some r \<and> rest < r)"

lemma granted_bound:
  assumes "counts_on k limit ttl calls" "all_numeric ops s calls" "run_calls ops s calls = Inr bs"
    "sum_list (map fst calls) < 1000 * ttl" "alive s k (sum_list (map fst calls))"
  shows "granted bs \<le> max 0 (limit - count_of (rd_get ops s k))"
  using assms
proof (induction calls arbitrary: s bs)
  case Nil
  then show ?case
    by (simp add: granted_def)
next
  case (Cons c calls)
  obtain d items where c: "c = (d, items)"
    by (cases c)
  let ?t = "rd_tick ops s d" and ?rest = "sum_list (map fst calls)"
  have d: "0 \<le> d" "distinct (map fst items)" "\<forall>(k, l, t)\<in>set items. 0 < t"
    using Cons.prems(1) c by (auto simp: counts_on_def)
  obtain l where l: "l \<le> limit" "(k, l, ttl) \<in> set items"
    using Cons.prems(1) c by (auto simp: counts_on_def)
  have co: "counts_on k limit ttl calls" and rest: "0 \<le> ?rest"
    using Cons.prems(1) by (fastforce simp: counts_on_def intro!: sum_list_nonneg)+
  obtain ok x s' bs' where run: "consume_script ops ?t items = Inr (ok, x, s')"
      "run_calls ops s' calls = Inr bs'" "bs = ok # bs'"
    using Cons.prems(3) c by (auto simp: err_simps)
  note num = all_numeric_step[OF Cons.prems(2)[unfolded c] d run(1)]
  note o = consume_script_outcome[OF d(2) num(2) run(1)]
  let ?n = "count_of (rd_get ops s k)"
  have tk: "count_of (rd_get ops ?t k) = ?n" "alive ?t k ?rest"
  proof -
    from Cons.prems(5) have "rd_get ops s k = None \<or> (\<exists>n r. rd_get ops s k = Some (RNum n) \<and> 0 < n
        \<and> rd_pttl ops s k = Some r \<and> d + ?rest < r)"
      by (simp add: alive_def c)
    then show "count_of (rd_get ops ?t k) = ?n" "alive ?t k ?rest"
      using tick_alive[OF d(1)] tick_get[OF d(1), of s k] rest by (fastforce simp: alive_def)+
  qed
  have small: "?rest < 1000 * ttl"
    using Cons.prems(4) d(1) c by simp
  show ?case
  proof (cases ok)
    case False
    then have "s' = ?t"
      using o(1) by simp
    then show ?thesis
      using Cons.IH[OF co num(1) run(2) small] tk False run(3) by (simp add: granted_def)
  next
    case True
    have upd: "rd_get ops s' k = Some (RNum (?n + 1))" "?n + 1 \<le> l"
        "rd_pttl ops s' k = (if ?n = 0 then Some (1000 * ttl) else rd_pttl ops ?t k)"
      using o(2)[OF True l(2)] tk(1) by auto
    have nn: "0 \<le> ?n"
      using tk(2) tk(1) by (auto simp: alive_def count_of_def)
    have "alive s' k ?rest"
      using upd nn tk small by (auto simp: alive_def count_of_def)
    from Cons.IH[OF co num(1) run(2) small this] show ?thesis
      using upd(1,2) l(1) True run(3) by (simp add: granted_def count_of_def)
  qed
qed

end

section \<open>Limits of a purpose\<close>

lemma f64_normal:
  assumes "1/2 \<le> x" "f64 x = Some z" shows "z = round_sig 2 53 x"
proof -
  have "(2::rat) powi - 1 \<le> x"
    using assms(1) by (simp add: power_int_minus)
  moreover have "x < 2 powi (expo 2 x + 1)"
    using expo_bounds(2)[of 2 x] assms(1) by simp
  ultimately have "(2::rat) powi - 1 < 2 powi (expo 2 x + 1)"
    by linarith
  then have "- 1 < expo 2 x + 1"
    using power_int_increasing[of "expo 2 x + 1" "- 1" "2::rat"] by (meson linorder_not_less one_le_numeral)
  then have "max (expo 2 \<bar>x\<bar> - 52) (- 1074) = expo 2 \<bar>x\<bar> - 53 + 1"
    using assms(1) by simp
  then show ?thesis
    using assms by (auto simp: f64_def round_sig_def Let_def split: if_splits)
qed

lemma four_fifths_le:
  assumes "1 \<le> n" "n < 2 ^ 53" "four_fifths n = Inr m"
  shows "m \<le> n"
proof -
  have x: "f64 (of_int n) = Some (of_int n)"
    using assms(1,2) by (intro f64_int) simp
  obtain y z where yz: "f64 (4/5) = Some y" "f64 (of_int n * y) = Some z" "m = \<lfloor>z\<rfloor>"
    using assms(3) x by (auto simp: four_fifths_def split: option.splits)
  have y: "y = round_sig 2 53 (4/5)"
    using yz(1) by (intro f64_normal) auto
  have "round_sig 2 53 (of_int 1 * of_int 2 powi (- 1)) \<le> y" "y \<le> round_sig 2 53 (of_int 1 * of_int 2 powi 0)"
    unfolding y by (rule round_sig_mono; simp add: power_int_minus)+
  then have yb: "1/2 \<le> y" "y \<le> 1"
    using round_sig_short[of 2 53 1 "- 1"] round_sig_short[of 2 53 1 0] by (simp_all add: power_int_minus)
  have "1/2 * 1 \<le> y * of_int n"
    using yb(1) assms(1) by (intro mult_mono) auto
  then have "z = round_sig 2 53 (of_int n * y)"
    using yz(2) by (intro f64_normal) (simp_all add: mult.commute)
  also have "\<dots> \<le> round_sig 2 53 (of_int n * of_int 2 powi 0)"
    using yb assms(1) by (intro round_sig_mono) (auto simp: mult_left_le)
  also have "\<dots> = of_int n"
    using round_sig_short[of 2 53 n 0] assms(1,2) by simp
  finally show ?thesis
    unfolding yz(3) by (simp add: floor_le_iff)
qed

lemma provider_limits_le:
  assumes "provider_limits p purpose = Inr lims"
    "1 \<le> b_requests_per_minute (p_budget p)" "b_requests_per_minute (p_budget p) < 2 ^ 53"
  shows "fst lims \<le> b_requests_per_minute (p_budget p)"
  using assms four_fifths_le[OF assms(2,3)]
  by (auto simp: provider_limits_def Let_def err_simps split: if_splits)

lemma key_limits_minute:
  "(provider_key p ('':all:minute:'' @ int_text (now div 60)), fst lims, 120) \<in> set (key_limits p ib purpose now lims)"
  by (simp add: key_limits_def Let_def)

lemma key_limits_ttl: "(k, l, t) \<in> set (key_limits p ib purpose now lims) \<Longrightarrow> 0 < t"
  by (auto simp: key_limits_def Let_def split: if_splits)

section \<open>Properties\<close>

text \<open>The budget script is all or nothing, for every Redis that behaves as documented: on
  distinct counter keys it always returns; a refused request leaves the store as it was, because one
  limit is used up; an allowed request raises every counter by exactly one, none beyond its limit, and
  touches no other key.\<close>

theorem consume_script_all_or_nothing:
  assumes "redis_service ops" and "distinct (map fst items)"
    and "\<forall>(k, l, t)\<in>set items. numeric (rd_get ops s k) \<and> 0 < t"
  shows "\<exists>ok x s'. consume_script ops s items = Inr (ok, x, s')
    \<and> (\<not> ok \<longrightarrow> s' = s \<and> (\<exists>(k, l, t)\<in>set items. l \<le> count_of (rd_get ops s k)))
    \<and> (ok \<longrightarrow> (\<forall>(k, l, t)\<in>set items.
          rd_get ops s' k = Some (RNum (count_of (rd_get ops s k) + 1)) \<and> count_of (rd_get ops s k) + 1 \<le> l))
    \<and> (\<forall>k. k \<notin> fst ` set items \<longrightarrow> rd_get ops s' k = rd_get ops s k)"
proof -
  obtain ok x s' where r: "consume_script ops s items = Inr (ok, x, s')"
    using redis_service.consume_script_total[OF assms] by blast
  note o = redis_service.consume_script_outcome[OF assms r]
  show ?thesis
    using r o by (intro exI[of _ ok] exI[of _ x] exI[of _ s']) auto
qed

definition example_store :: ttl_store where
  "example_store = \<lparr>st_now = 0, st_data = [''a'' \<mapsto> (RNum 1, Some 5000)]\<rparr>"

theorem consume_script_all_or_nothing_witness:
  "\<exists>ok x s'. consume_script ttl_ops example_store [(''a'', 3, 10), (''b'', 2, 10)] = Inr (ok, x, s')
     \<and> ok \<and> rd_get ttl_ops s' ''a'' = Some (RNum 2)"
proof -
  have "\<forall>(k, l, t)\<in>set [(''a'', 3 :: int, 10), (''b'', 2, 10)].
      numeric (rd_get ttl_ops example_store k) \<and> (0::int) < t"
    by (simp add: numeric_def ttl_ops_def st_entry_def example_store_def)
  moreover have "count_of (rd_get ttl_ops example_store ''a'') = 1"
      "count_of (rd_get ttl_ops example_store ''b'') = 0"
    by (simp_all add: count_of_def ttl_ops_def st_entry_def example_store_def)
  ultimately show ?thesis
    using consume_script_all_or_nothing [OF ttl.redis_service_axioms,
        of "[(''a'', 3, 10), (''b'', 2, 10)]" example_store]
    by auto
qed

text \<open>Claim C21. No provider is called more often than its limit in a minute: over any sequence of
  requests for a provider, whatever their purposes, that fall into one minute bucket and less than two
  minutes apart, at most \<open>requests_per_minute\<close> are granted, however they interleave with the passing
  of time; the counter cannot expire inside its own bucket.\<close>

theorem minute_limit_respected:
  assumes "redis_service ops"
    and "1 \<le> b_requests_per_minute (p_budget p)" "b_requests_per_minute (p_budget p) < 2 ^ 53"
    and "\<forall>(d, items)\<in>set calls. 0 \<le> d \<and> distinct (map fst items)
          \<and> (\<exists>ib purpose now lims. provider_limits p purpose = Inr lims \<and> now div 60 = bucket
               \<and> items = key_limits p ib purpose now lims)"
    and "sum_list (map fst calls) < 120000"
    and "rd_get ops s (provider_key p ('':all:minute:'' @ int_text bucket)) = None"
    and "all_numeric ops s calls"
    and "run_calls ops s calls = Inr bs"
  shows "granted bs \<le> b_requests_per_minute (p_budget p)"
proof -
  let ?k = "provider_key p ('':all:minute:'' @ int_text bucket)"
  have "counts_on ?k (b_requests_per_minute (p_budget p)) 120 calls"
    unfolding counts_on_def
  proof (clarify, intro conjI)
    fix d items
    assume mem: "(d, items) \<in> set calls"
    then obtain ib purpose now lims where it: "provider_limits p purpose = Inr lims" "now div 60 = bucket"
        "items = key_limits p ib purpose now lims" "0 \<le> d" "distinct (map fst items)"
      using assms(4) by fastforce
    show "0 \<le> d" "distinct (map fst items)" "\<forall>(k', l, t)\<in>set items. 0 < t"
      using it key_limits_ttl[of _ _ _ p ib purpose now lims] by fastforce+
    show "\<exists>l\<le>b_requests_per_minute (p_budget p). (?k, l, 120) \<in> set items"
      using provider_limits_le[OF it(1) assms(2,3)] key_limits_minute[of p now lims ib purpose] it(2,3)
      by blast
  qed
  from redis_service.granted_bound[OF assms(1) this assms(7,8)]
  have "granted bs \<le> max 0 (b_requests_per_minute (p_budget p) - count_of (rd_get ops s ?k))"
    using assms(5,6) by (simp add: redis_service.alive_def[OF assms(1)])
  then show ?thesis
    using assms(2,6) by (simp add: count_of_def)
qed

definition example_budget :: provider_budget_policy where
  "example_budget = \<lparr>b_requests_per_minute = 2, b_requests_per_hour = 20, b_requests_per_day = 200,
     b_reserved_anomaly_requests = 5, b_reserved_fallback_requests = 5, b_minimum_interval_seconds = 1,
     b_cooldown_after_429_seconds = 300, b_estimated_request_cost = 1\<rparr>"

definition example_provider :: provider_definition where
  "example_provider = \<lparr>p_provider_id = ''p'', p_display_name = ''P'', p_instrument_id = ''BTC_USD'',
     p_role = PRIMARY, p_priority = 1, p_trust_score = 9/10, p_url = ''https://h/x'', p_parser_id = ''v1'',
     p_parser_version = ''1'', p_operational_ttl_seconds = 360, p_budget = example_budget,
     p_method = ''GET'', p_enabled = True, p_api_key_setting = None, p_api_key_header = None,
     p_api_key_query_parameter = None, p_static_headers = [], p_maximum_payload_bytes = 262144,
     p_history_url = None, p_history_parser_id = None, p_history_requires_live_quote = True,
     p_maximum_source_age_seconds = None, p_anchor_live_window_at_receive_time = False,
     p_source_semantic = AGGREGATOR, p_source_family = ''f'', p_venue = ''v'',
     p_selected_price_semantic = SEL_REFERENCE, p_route_id = ''r'', p_requires_https = True,
     p_credential_placement = ''none'', p_unit_source = None, p_symbol_or_pair = None,
     p_selected_price_semantic_contract = None, p_independence_group = None, p_required_settings = []\<rparr>"

definition example_items :: "limit_item list" where
  "example_items = key_limits example_provider \<lparr>ib_requests_per_minute = 20, ib_requests_per_hour = 500,
     ib_importance = 9, ib_maximum_verification_depth = 3\<rparr> FOR_ANOMALY 0 (2, 20, 200)"

lemma int_text_0: "int_text 0 = ''0''"
  by (simp add: int_text_def nat_text.simps[of 0]) code_simp

lemma example_items_eq:
  "example_items = [(''pricing:budget:p:minimum_interval'', 1, 1),
     (''pricing:budget:p:all:minute:0'', 2, 120), (''pricing:budget:p:all:hour:0'', 20, 7200),
     (''pricing:budget:p:all:day:0'', 200, 172800),
     (''pricing:budget:instrument:BTC_USD:minute:0'', 20, 120),
     (''pricing:budget:instrument:BTC_USD:hour:0'', 500, 7200),
     (''pricing:budget:p:anomaly:day:0'', 5, 172800)]"
  by (simp add: example_items_def key_limits_def provider_key_def instrument_key_def
      example_provider_def example_budget_def int_text_0 Let_def)

theorem minute_limit_respected_witness:
  "\<exists>bs. run_calls ttl_ops \<lparr>st_now = 0, st_data = Map.empty\<rparr> [(0, example_items), (500, example_items)] = Inr bs
     \<and> granted bs \<le> 2"
proof -
  let ?s = "\<lparr>st_now = 0, st_data = Map.empty\<rparr>"
  let ?calls = "[(0, example_items), (500, example_items)]"
  have g0: "rd_get ttl_ops ?s k = None" for k
    by (simp add: ttl_ops_def st_entry_def)
  have num: "all_numeric ttl_ops ?s ?calls"
    by (auto simp: all_numeric_def g0 numeric_def)
  have di: "distinct (map fst example_items)" and pos: "\<forall>(k, l, t)\<in>set example_items. 0 < t"
    by (simp_all add: example_items_eq)
  obtain a x s1 where r1: "consume_script ttl_ops (rd_tick ttl_ops ?s 0) example_items = Inr (a, x, s1)"
    using ttl.consume_script_total[OF di, of "rd_tick ttl_ops ?s 0"] pos
    by (auto simp: numeric_def ttl_ops_def st_entry_def)
  have n2: "all_numeric ttl_ops s1 [(500, example_items)]"
    by (rule ttl.all_numeric_step(1)[OF num _ di pos r1]) simp
  have "numeric (rd_get ttl_ops (rd_tick ttl_ops s1 500) k)" if "(k, l, t) \<in> set example_items" for k l t
    using n2 that ttl.tick_get[of 500 s1 k] by (force simp: all_numeric_def numeric_def)
  then obtain b y s2 where "consume_script ttl_ops (rd_tick ttl_ops s1 500) example_items = Inr (b, y, s2)"
    using ttl.consume_script_total[OF di, of "rd_tick ttl_ops s1 500"] pos by fastforce
  with r1 have run: "run_calls ttl_ops ?s ?calls = Inr [a, b]"
    by simp
  have lims: "provider_limits example_provider FOR_ANOMALY = Inr (2, 20, 200)"
    by (simp add: provider_limits_def example_provider_def example_budget_def)
  have "\<exists>ib purpose now lims. provider_limits example_provider purpose = Inr lims \<and> now div 60 = 0
      \<and> example_items = key_limits example_provider ib purpose now lims"
    unfolding example_items_def
    by (rule exI, rule exI[of _ FOR_ANOMALY], rule exI[of _ 0], rule exI[of _ "(2, 20, 200)"])
      (use lims in auto)
  then have ok: "\<forall>(d :: int, items)\<in>set ?calls. 0 \<le> d \<and> distinct (map fst items)
      \<and> (\<exists>ib purpose now lims. provider_limits example_provider purpose = Inr lims \<and> now div 60 = 0
           \<and> items = key_limits example_provider ib purpose now lims)"
    using di by simp
  have "granted [a, b] \<le> b_requests_per_minute (p_budget example_provider)"
    by (rule minute_limit_respected [OF ttl.redis_service_axioms _ _ ok _ g0 num run])
      (simp_all add: example_provider_def example_budget_def)
  with run show ?thesis
    by (simp add: example_provider_def example_budget_def)
qed

text \<open>After a 429 answer the provider is left alone: from the moment the rate limit is recorded
  until at most one second before the cooldown ends, every request is refused for the reason
  provider\_cooldown, and refusing changes nothing in the store.\<close>

theorem rate_limit_cooldown:
  assumes "redis_service ops"
    and "0 < min_of (b_requests_per_minute (p_budget p))
           [b_requests_per_hour (p_budget p), b_requests_per_day (p_budget p)]"
    and "1 \<le> b_cooldown_after_429_seconds (p_budget p)"
    and "0 \<le> d" "d + 1000 \<le> 1000 * b_cooldown_after_429_seconds (p_budget p)"
    and "s' = rd_tick ops (record_rate_limit ops s p) d"
  shows "consume ops s' ibs p purpose now
    = Inr (\<lparr>bd_allowed = False, bd_reason = ''provider_cooldown'', bd_minimum_remaining = 0\<rparr>, s')"
proof -
  let ?k = "cooldown_key (p_provider_id p)" and ?c = "b_cooldown_after_429_seconds (p_budget p)"
  have "rd_pttl ops (record_rate_limit ops s p) ?k = Some (1000 * ?c)"
    using redis_service.setex[OF assms(1), of ?c s ?k "RText ''1''"] assms(3)
    by (simp add: record_rate_limit_def)
  then have "rd_pttl ops s' ?k = Some (1000 * ?c - d)"
    using redis_service.tick_pttl[OF assms(1,4), of "record_rate_limit ops s p" ?k] assms(5,6) by simp
  then have "0 < rd_ttl ops s' ?k"
    using redis_service.ttl_present[OF assms(1), of s' ?k "1000 * ?c - d"] assms(5) by linarith
  then show ?thesis
    using assms(2) by (simp add: consume_def Let_def cooldown_remaining_def not_le[symmetric])
qed

theorem rate_limit_cooldown_witness:
  "\<exists>s. consume ttl_ops s Map.empty example_provider FOR_NORMAL 0
    = Inr (\<lparr>bd_allowed = False, bd_reason = ''provider_cooldown'', bd_minimum_remaining = 0\<rparr>, s)"
  using rate_limit_cooldown [OF ttl.redis_service_axioms, of example_provider 299000
      "rd_tick ttl_ops (record_rate_limit ttl_ops example_store example_provider) 299000" example_store
      Map.empty FOR_NORMAL 0]
  by (auto simp: example_provider_def example_budget_def)

end
