(* ===== verification/Locks.thy ===== *)
theory Locks
  imports Redis Py_Values
begin

text \<open>
  Model of \<open>apps/api/app/pricing/locks.py\<close>: leases kept in Redis. \<open>acquire\<close>, \<open>release\<close> and
  \<open>extend\<close> are the three operations, the latter two with their Lua scripts, which compare the owner
  token and act in one atomic step. The random owner token of \<open>acquire\<close> is an argument; in a run of
  the system (\<open>lock_run\<close>) it is one that was not used before. Redis is the argument \<open>ops\<close>.
\<close>

section \<open>Operations\<close>

record lock_lease =
  l_key :: string
  l_owner_token :: string
  l_ttl_ms :: int

definition acquire ::
  "'s redis_ops \<Rightarrow> 's \<Rightarrow> string \<Rightarrow> int \<Rightarrow> string \<Rightarrow> (lock_lease option \<times> 's) result" where
  "acquire ops s key ttl_ms owner =
     (if ttl_ms < 1000 then Inl (ValueError ''Lock TTL must be at least one second'')
      else let r = rd_set_nx_px ops s key (RText owner) ttl_ms
           in if fst r
              then Inr (Some \<lparr>l_key = key, l_owner_token = owner, l_ttl_ms = ttl_ms\<rparr>, snd r)
              else Inr (None, snd r))"

definition release_script :: "'s redis_ops \<Rightarrow> 's \<Rightarrow> string \<Rightarrow> string \<Rightarrow> int \<times> 's" where
  "release_script ops s key owner =
     (if rd_get ops s key = Some (RText owner) then rd_del ops s key else (0, s))"

definition extend_script :: "'s redis_ops \<Rightarrow> 's \<Rightarrow> string \<Rightarrow> string \<Rightarrow> int \<Rightarrow> int \<times> 's" where
  "extend_script ops s key owner ttl_ms =
     (if rd_get ops s key = Some (RText owner) then rd_pexpire ops s key ttl_ms else (0, s))"

definition release :: "'s redis_ops \<Rightarrow> 's \<Rightarrow> lock_lease \<Rightarrow> bool \<times> 's" where
  "release ops s l = (let r = release_script ops s (l_key l) (l_owner_token l) in (fst r \<noteq> 0, snd r))"

text \<open>\<open>ttl_ms or lease.ttl_ms\<close>: an absent or zero argument means the lease's own time.\<close>

definition extend :: "'s redis_ops \<Rightarrow> 's \<Rightarrow> lock_lease \<Rightarrow> int option \<Rightarrow> bool \<times> 's" where
  "extend ops s l ttl_ms =
     (let extension = (case ttl_ms of None \<Rightarrow> l_ttl_ms l | Some t \<Rightarrow> if t = 0 then l_ttl_ms l else t);
          r = extend_script ops s (l_key l) (l_owner_token l) extension
      in (fst r \<noteq> 0, snd r))"

text \<open>
  \<open>_renewing\<close>: the pause between renewals, in milliseconds, and the loop over the pauses that pass
  while the body runs. Each pause is followed by an extension; the first one that fails is the loss of
  the lease, which cancels the body.
\<close>

definition renew_interval_ms :: "int \<Rightarrow> rat" where
  "renew_interval_ms ttl_ms = max 1000 (of_int ttl_ms / 3)"

primrec renewing :: "'s redis_ops \<Rightarrow> 's \<Rightarrow> lock_lease \<Rightarrow> int list \<Rightarrow> 's result" where
  "renewing ops s l [] = Inr s"
| "renewing ops s l (pause # pauses) =
     (let r = extend ops (rd_tick ops s pause) l None
      in if fst r then renewing ops (snd r) l pauses else Inl LeaseLost)"

definition refresh_key :: "string \<Rightarrow> string" where
  "refresh_key iid = ''pricing:lock:refresh:'' @ iid"

definition provider_lock_key :: "string \<Rightarrow> string \<Rightarrow> string" where
  "provider_lock_key pid iid = ''pricing:lock:provider:'' @ pid @ '':'' @ iid"

definition backfill_key :: "string \<Rightarrow> string" where
  "backfill_key iid = ''pricing:lock:backfill:'' @ iid"

text \<open>
  \<open>refresh_lock\<close>, \<open>backfill_lock\<close> and \<open>provider_lock\<close> as context managers around a body: the body
  sees the lease or \<open>None\<close>, and the lease is released afterwards whether the body fails or not. The
  body is a function of the store that also returns its outcome.
\<close>

definition with_lock ::
  "'s redis_ops \<Rightarrow> 's \<Rightarrow> string \<Rightarrow> int \<Rightarrow> string \<Rightarrow> (lock_lease option \<Rightarrow> 's \<Rightarrow> 'a result \<times> 's)
   \<Rightarrow> 'a result \<times> 's" where
  "with_lock ops s key ttl_ms owner body =
     (case acquire ops s key ttl_ms owner of
        Inl e \<Rightarrow> (Inl e, s)
      | Inr (None, s1) \<Rightarrow> body None s1
      | Inr (Some l, s1) \<Rightarrow>
          (let r = body (Some l) s1 in (fst r, snd (release ops (snd r) l))))"

definition refresh_lock ::
  "'s redis_ops \<Rightarrow> 's \<Rightarrow> int \<Rightarrow> string \<Rightarrow> int option \<Rightarrow> string
   \<Rightarrow> (lock_lease option \<Rightarrow> 's \<Rightarrow> 'a result \<times> 's) \<Rightarrow> 'a result \<times> 's" where
  "refresh_lock ops s lock_ttl_seconds iid ttl_ms owner body =
     with_lock ops s (refresh_key iid)
       (case ttl_ms of None \<Rightarrow> lock_ttl_seconds * 1000
         | Some t \<Rightarrow> if t = 0 then lock_ttl_seconds * 1000 else t) owner body"

definition provider_lock ::
  "'s redis_ops \<Rightarrow> 's \<Rightarrow> string \<Rightarrow> string \<Rightarrow> string
   \<Rightarrow> (lock_lease option \<Rightarrow> 's \<Rightarrow> 'a result \<times> 's) \<Rightarrow> 'a result \<times> 's" where
  "provider_lock ops s pid iid owner body = with_lock ops s (provider_lock_key pid iid) 15000 owner body"

definition backfill_lock ::
  "'s redis_ops \<Rightarrow> 's \<Rightarrow> string \<Rightarrow> string
   \<Rightarrow> (lock_lease option \<Rightarrow> 's \<Rightarrow> 'a result \<times> 's) \<Rightarrow> 'a result \<times> 's" where
  "backfill_lock ops s iid owner body = with_lock ops s (backfill_key iid) 120000 owner body"

section \<open>Runs of the system\<close>

definition holds :: "'s redis_ops \<Rightarrow> 's \<Rightarrow> lock_lease \<Rightarrow> bool" where
  "holds ops s l \<longleftrightarrow> rd_get ops s (l_key l) = Some (RText (l_owner_token l))"

text \<open>
  What workers do with leases, and the passing of time, newest first. A worker may release or extend a lease it was
  handed at any time, also long after the lease has lapsed. The answers of the two scripts are part of the event, for
  they are all that the worker learns.
\<close>

datatype lock_event =
    Acquired lock_lease
  | Refused string
  | Released lock_lease bool
  | Extended lock_lease bool
  | Passed int

definition leases :: "lock_event list \<Rightarrow> lock_lease set" where
  "leases es = {l. Acquired l \<in> set es}"

inductive lock_run :: "'s redis_ops \<Rightarrow> 's \<Rightarrow> 's \<Rightarrow> lock_event list \<Rightarrow> bool" for ops s0 where
  start: "lock_run ops s0 s0 []"
| acquired: "lock_run ops s0 s es \<Longrightarrow> acquire ops s key ttl owner = Inr (Some l, s') \<Longrightarrow> owner \<notin> l_owner_token ` leases es
     \<Longrightarrow> lock_run ops s0 s' (Acquired l # es)"
| refused: "lock_run ops s0 s es \<Longrightarrow> acquire ops s key ttl owner = Inr (None, s') \<Longrightarrow> lock_run ops s0 s' (Refused key # es)"
| released: "lock_run ops s0 s es \<Longrightarrow> l \<in> leases es \<Longrightarrow> release ops s l = (b, s') \<Longrightarrow> lock_run ops s0 s' (Released l b # es)"
| extended: "lock_run ops s0 s es \<Longrightarrow> l \<in> leases es \<Longrightarrow> extend ops s l None = (b, s') \<Longrightarrow> lock_run ops s0 s' (Extended l b # es)"
| passed: "lock_run ops s0 s es \<Longrightarrow> 0 \<le> d \<Longrightarrow> lock_run ops s0 (rd_tick ops s d) (Passed d # es)"

text \<open>
  What the owner of a lease counts on, knowing only its own calls, their answers and the clock: the milliseconds left
  of the time to live since it acquired the lease or last extended it with success, and nothing once it released
  the lease, failed to extend it or let the time run out.
\<close>

fun counted :: "lock_event list \<Rightarrow> lock_lease \<Rightarrow> int option" where
  "counted [] l = None"
| "counted (Acquired k # es) l = (if k = l then Some (l_ttl_ms l) else counted es l)"
| "counted (Refused key # es) l = counted es l"
| "counted (Released k b # es) l = (if k = l then None else counted es l)"
| "counted (Extended k b # es) l = (if k = l then (if b then Some (l_ttl_ms l) else None) else counted es l)"
| "counted (Passed d # es) l =
     (case counted es l of None \<Rightarrow> None | Some r \<Rightarrow> if r \<le> d then None else Some (r - d))"

section \<open>Facts\<close>

lemma leases_simps [simp]:
  "leases [] = {}" "leases (Acquired l # es) = insert l (leases es)" "leases (Refused key # es) = leases es"
  "leases (Released l b # es) = leases es" "leases (Extended l b # es) = leases es" "leases (Passed d # es) = leases es"
  by (auto simp: leases_def)

lemma acquire_lease:
  assumes "acquire ops s key ttl owner = Inr (Some l, s')"
  shows "l = \<lparr>l_key = key, l_owner_token = owner, l_ttl_ms = ttl\<rparr>" "1000 \<le> ttl"
  using assms by (auto simp: acquire_def Let_def split: if_splits)

lemma lock_run_leases:
  assumes "lock_run ops s0 s es"
  shows "inj_on l_owner_token (leases es) \<and> (\<forall>l\<in>leases es. 1000 \<le> l_ttl_ms l)"
  using assms
proof induction
  case (acquired s es key ttl owner l s')
  then show ?case
    using acquire_lease[OF acquired.hyps(2)] by (auto simp: inj_on_def)
qed simp_all

lemma counted_lease:
  assumes "lock_run ops s0 s es" "counted es l = Some r"
  shows "l \<in> leases es"
  using assms by (induction arbitrary: r) (auto split: if_splits option.splits)

lemma same_owner:
  assumes "lock_run ops s0 s es" "l \<in> leases es" "k \<in> leases es" "l_owner_token l = l_owner_token k"
  shows "l = k"
  using lock_run_leases[OF assms(1)] assms(2-4) by (auto dest: inj_onD)

context redis_service
begin

lemma acquire_busy: "rd_get ops s key = Some v \<Longrightarrow> 1000 \<le> ttl \<Longrightarrow> acquire ops s key ttl owner = Inr (None, s)"
  by (simp add: acquire_def set_nx_taken)

lemma acquire_free:
  assumes "rd_get ops s key = None" "1000 \<le> ttl"
  obtains s' where "acquire ops s key ttl owner = Inr (Some \<lparr>l_key = key, l_owner_token = owner, l_ttl_ms = ttl\<rparr>, s')"
    "rd_get ops s' = (rd_get ops s)(key \<mapsto> RText owner)" "rd_pttl ops s' = (rd_pttl ops s)(key \<mapsto> ttl)"
  using set_nx_free[of s key ttl "RText owner"] assms by (auto simp: acquire_def)

lemma acquire_get:
  assumes "acquire ops s key ttl owner = Inr (lo, s')"
  shows "(case lo of None \<Rightarrow> s' = s | Some l \<Rightarrow> rd_get ops s key = None
      \<and> rd_get ops s' = (rd_get ops s)(key \<mapsto> RText owner) \<and> rd_pttl ops s' = (rd_pttl ops s)(key \<mapsto> ttl))"
proof (cases "rd_get ops s key")
  case None
  have "1000 \<le> ttl"
    using assms by (auto simp: acquire_def split: if_splits)
  then show ?thesis
    using acquire_free[OF None, of ttl owner] assms None by (auto split: option.splits)
next
  case (Some v)
  have "1000 \<le> ttl"
    using assms by (auto simp: acquire_def split: if_splits)
  then show ?thesis
    using acquire_busy[OF Some] assms by auto
qed

lemma release_get:
  assumes "release ops s l = (b, s')"
  shows "if holds ops s l then b \<and> rd_get ops s' = (rd_get ops s)(l_key l := None)
      \<and> rd_pttl ops s' = (rd_pttl ops s)(l_key l := None) else \<not> b \<and> s' = s"
  using assms del[of s "l_key l"]
  by (auto simp: release_def release_script_def holds_def Let_def)

lemma extend_get:
  assumes "extend ops s l None = (b, s')" "0 < l_ttl_ms l"
  shows "if holds ops s l then b \<and> rd_get ops s' = rd_get ops s
      \<and> rd_pttl ops s' = (rd_pttl ops s)(l_key l \<mapsto> l_ttl_ms l) else \<not> b \<and> s' = s"
  using assms pexpire[of s "l_key l" "RText (l_owner_token l)" "l_ttl_ms l"]
  by (auto simp: extend_def extend_script_def holds_def Let_def)

text \<open>The claim of an owner is true, and every other lease of the key has been lost.\<close>

lemma counted_held:
  assumes "lock_run ops s0 s es" "counted es l = Some r"
  shows "holds ops s l \<and> rd_pttl ops s (l_key l) = Some r \<and> 0 < r"
  using assms
proof (induction arbitrary: l r)
  case (acquired s es key ttl owner k s')
  then show ?case
    using acquire_get[OF acquired.hyps(2)] acquire_lease[OF acquired.hyps(2)]
    by (fastforce simp: holds_def split: if_splits)
next
  case (refused s es key ttl owner s')
  then show ?case
    using acquire_get[OF refused.hyps(2)] by simp
next
  case (released s es k b s')
  then have l: "k \<noteq> l" "counted es l = Some r"
    by (auto split: if_splits)
  then have "l_owner_token l \<noteq> l_owner_token k"
    using same_owner[OF released.hyps(1)] counted_lease[OF released.hyps(1)] released.hyps(2) by metis
  then show ?case
    using released.IH[OF l(2)] release_get[OF released.hyps(3)] by (auto simp: holds_def split: if_splits)
next
  case (extended s es k b s')
  then have ttl: "0 < l_ttl_ms k"
    using lock_run_leases by fastforce
  note e = extend_get[OF extended.hyps(3) ttl]
  show ?case
  proof (cases "k = l")
    case True
    then show ?thesis
      using extended.prems e ttl by (auto simp: holds_def split: if_splits)
  next
    case False
    then have l: "counted es l = Some r"
      using extended.prems by simp
    then have "l_owner_token l \<noteq> l_owner_token k"
      using False same_owner[OF extended.hyps(1)] counted_lease[OF extended.hyps(1)] extended.hyps(2) by metis
    then show ?thesis
      using extended.IH[OF l] e by (auto simp: holds_def split: if_splits)
  qed
next
  case (passed s es d)
  then obtain q where "counted es l = Some q" "\<not> q \<le> d" "r = q - d"
    by (auto split: option.splits if_splits)
  then show ?case
    using passed.IH passed.hyps(2) tick_alive[of d s "l_key l" q] by (auto simp: holds_def)
qed simp

text \<open>Renewing within the time to live keeps the lease.\<close>

lemma renewing_keeps:
  assumes "\<forall>p\<in>set pauses. 0 \<le> p \<and> p < l_ttl_ms l" "0 < l_ttl_ms l" "holds ops s l"
    "rd_pttl ops s (l_key l) = Some r" "l_ttl_ms l \<le> r"
  shows "\<exists>s'. renewing ops s l pauses = Inr s' \<and> holds ops s' l"
  using assms
proof (induction pauses arbitrary: s r)
  case (Cons p pauses)
  let ?t = "rd_tick ops s p"
  have "holds ops ?t l"
    using tick_alive[of p s "l_key l" r] Cons.prems by (auto simp: holds_def)
  moreover obtain b s' where e: "extend ops ?t l None = (b, s')"
    by fastforce
  ultimately have b: "b" "rd_get ops s' = rd_get ops ?t" "rd_pttl ops s' (l_key l) = Some (l_ttl_ms l)"
    using extend_get[OF e Cons.prems(2)] by auto
  have "holds ops s' l"
    using b(2) \<open>holds ops ?t l\<close> by (simp add: holds_def)
  then show ?case
    using Cons.IH[of s' "l_ttl_ms l"] Cons.prems(1,2) b e by simp
qed auto

end

section \<open>Properties\<close>

text \<open>Claim C20. Mutual exclusion: in every run of the system in which no owner token is drawn twice, over any interleaving of
  workers that acquire, release and extend leases, in time or long after they lapsed, while time passes, a worker that acquired a lease or last
  extended it with success less than its time to live ago, and did not release it since, still holds the key, with
  exactly the time left that it counts on. No other worker counts on a lease of that key, no acquisition of the key
  succeeds, and a release or an extension of any other lease of the key fails and changes nothing.\<close>

theorem lock_mutual_exclusion:
  assumes "redis_service ops" and "lock_run ops s0 s es" and "counted es l = Some r"
  shows "holds ops s l \<and> rd_pttl ops s (l_key l) = Some r
    \<and> (\<forall>l'\<in>leases es. l_key l' = l_key l \<and> l' \<noteq> l \<longrightarrow>
         counted es l' = None \<and> release ops s l' = (False, s) \<and> extend ops s l' None = (False, s))
    \<and> (\<forall>ttl owner. 1000 \<le> ttl \<longrightarrow> acquire ops s (l_key l) ttl owner = Inr (None, s))"
proof -
  have h: "holds ops s l" "rd_pttl ops s (l_key l) = Some r"
    using redis_service.counted_held[OF assms] by blast+
  have "counted es l' = None \<and> release ops s l' = (False, s) \<and> extend ops s l' None = (False, s)"
    if k: "l' \<in> leases es" "l_key l' = l_key l" "l' \<noteq> l" for l'
  proof -
    have "l_owner_token l' \<noteq> l_owner_token l"
      using same_owner[OF assms(2) k(1) counted_lease[OF assms(2,3)]] k(3) by blast
    then have n: "\<not> holds ops s l'"
      using h(1) k(2) by (simp add: holds_def)
    then have "counted es l' = None"
      using redis_service.counted_held[OF assms(1,2), of l'] by (cases "counted es l'") auto
    with n show ?thesis
      by (simp add: release_def release_script_def extend_def extend_script_def holds_def)
  qed
  then show ?thesis
    using h redis_service.acquire_busy[OF assms(1)] by (auto simp: holds_def)
qed

definition example_lease :: lock_lease where
  "example_lease = \<lparr>l_key = ''k'', l_owner_token = ''t'', l_ttl_ms = 5000\<rparr>"

definition later_lease :: lock_lease where
  "later_lease = \<lparr>l_key = ''k'', l_owner_token = ''u'', l_ttl_ms = 5000\<rparr>"

definition locked_store :: ttl_store where
  "locked_store = \<lparr>st_now = 0, st_data = [''k'' \<mapsto> (RText ''t'', Some 5000)]\<rparr>"

lemma example_acquire:
  "acquire ttl_ops \<lparr>st_now = 0, st_data = Map.empty\<rparr> ''k'' 5000 ''t'' = Inr (Some example_lease, locked_store)"
  by (simp add: acquire_def ttl_ops_def st_entry_def st_put_def example_lease_def locked_store_def)

text \<open>A run in which a lease lapses, another worker takes the key, and the first worker comes back to release its own.\<close>

definition relocked_store :: ttl_store where
  "relocked_store = \<lparr>st_now = 6000, st_data = [''k'' \<mapsto> (RText ''u'', Some 11000)]\<rparr>"

lemma example_run:
  "lock_run ttl_ops \<lparr>st_now = 0, st_data = Map.empty\<rparr> relocked_store
     [Released example_lease False, Acquired later_lease, Passed 6000, Acquired example_lease]"
proof -
  have 1: "lock_run ttl_ops \<lparr>st_now = 0, st_data = Map.empty\<rparr> locked_store [Acquired example_lease]"
    using lock_run.acquired[OF lock_run.start example_acquire] by simp
  have 2: "lock_run ttl_ops \<lparr>st_now = 0, st_data = Map.empty\<rparr> (locked_store\<lparr>st_now := 6000\<rparr>) [Passed 6000, Acquired example_lease]"
    using lock_run.passed[OF 1, of 6000] by (simp add: ttl_ops_def locked_store_def)
  have a: "acquire ttl_ops (locked_store\<lparr>st_now := 6000\<rparr>) ''k'' 5000 ''u'' = Inr (Some later_lease, relocked_store)"
    by (simp add: acquire_def ttl_ops_def st_entry_def st_put_def later_lease_def locked_store_def relocked_store_def)
  have 3: "lock_run ttl_ops \<lparr>st_now = 0, st_data = Map.empty\<rparr> relocked_store
      [Acquired later_lease, Passed 6000, Acquired example_lease]"
    by (rule lock_run.acquired[OF 2 a]) (simp add: example_lease_def)
  have r: "release ttl_ops relocked_store example_lease = (False, relocked_store)"
    by (simp add: release_def release_script_def ttl_ops_def st_entry_def example_lease_def relocked_store_def)
  show ?thesis
    by (rule lock_run.released[OF 3 _ r]) simp
qed

theorem lock_mutual_exclusion_witness:
  "holds ttl_ops relocked_store later_lease \<and> acquire ttl_ops relocked_store ''k'' 2000 ''other'' = Inr (None, relocked_store)
   \<and> release ttl_ops relocked_store example_lease = (False, relocked_store)"
proof -
  have "counted [Released example_lease False, Acquired later_lease, Passed 6000, Acquired example_lease] later_lease = Some 5000"
    by (simp add: example_lease_def later_lease_def)
  from lock_mutual_exclusion [OF ttl.redis_service_axioms example_run this]
  show ?thesis
    by (simp add: example_lease_def later_lease_def)
qed

text \<open>Renewal works: a freshly acquired lease that is extended again and again, with pauses no
  longer than the renewal interval, is held through the whole body and never reported lost, provided
  its time to live is more than one second.\<close>

theorem renewed_lease_is_kept:
  assumes "redis_service ops" and "1000 < ttl"
    and "acquire ops s key ttl owner = Inr (Some l, s')"
    and "\<forall>p\<in>set pauses. 0 \<le> p \<and> of_int p \<le> renew_interval_ms ttl"
  shows "\<exists>s''. renewing ops s' l pauses = Inr s'' \<and> holds ops s'' l"
proof -
  have l: "l = \<lparr>l_key = key, l_owner_token = owner, l_ttl_ms = ttl\<rparr>" "1000 \<le> ttl"
    using acquire_lease[OF assms(3)] .
  have "rd_get ops s key = None"
    using redis_service.acquire_get[OF assms(1,3)] by simp
  then obtain s1 where "acquire ops s key ttl owner = Inr (Some l, s1)"
      "rd_get ops s1 = (rd_get ops s)(key \<mapsto> RText owner)" "rd_pttl ops s1 = (rd_pttl ops s)(key \<mapsto> ttl)"
    using redis_service.acquire_free[OF assms(1) _ l(2), of s key owner] l(1) by metis
  then have s': "rd_get ops s' key = Some (RText owner)" "rd_pttl ops s' key = Some ttl"
    using assms(3) by auto
  have "p < ttl" if "of_int p \<le> renew_interval_ms ttl" for p
  proof -
    have "renew_interval_ms ttl < of_int ttl"
      using assms(2) by (simp add: renew_interval_ms_def field_simps)
    with that show ?thesis
      by (metis of_int_less_iff order.strict_trans1)
  qed
  then show ?thesis
    using redis_service.renewing_keeps[OF assms(1), of pauses l s' ttl] assms(2,4) s' l(1)
    by (auto simp: holds_def)
qed

theorem renewed_lease_is_kept_witness:
  "\<exists>s''. renewing ttl_ops locked_store example_lease [1600, 1600, 1600] = Inr s'' \<and> holds ttl_ops s'' example_lease"
  by (rule renewed_lease_is_kept [OF ttl.redis_service_axioms _ example_acquire])
    (simp_all add: renew_interval_ms_def)

text \<open>The shortest lease that is accepted cannot be renewed in time: with a time to live of one
  second the pause before the first renewal is a second too, so the lease has lapsed by then and the
  body is cancelled.\<close>

theorem one_second_lease_lapses:
  assumes "redis_service ops" and "acquire ops s key 1000 owner = Inr (Some l, s')"
    and "of_int p = renew_interval_ms 1000"
  shows "renewing ops s' l (p # pauses) = Inl LeaseLost"
proof -
  have l: "l = \<lparr>l_key = key, l_owner_token = owner, l_ttl_ms = 1000\<rparr>" and p: "p = 1000"
    using acquire_lease[OF assms(2)] assms(3) by (simp_all add: renew_interval_ms_def)
  have "rd_get ops s key = None"
    using redis_service.acquire_get[OF assms(1,2)] by simp
  then obtain s1 where "acquire ops s key 1000 owner = Inr (Some l, s1)"
      "rd_pttl ops s1 = (rd_pttl ops s)(key \<mapsto> 1000)"
    using redis_service.acquire_free[OF assms(1), of s key 1000 owner] l by (metis order.refl)
  then have "rd_pttl ops s' key = Some 1000"
    using assms(2) by auto
  then have "rd_get ops (rd_tick ops s' p) key = None"
    using redis_service.tick[OF assms(1), of p s' key] p by simp
  then show ?thesis
    by (simp add: extend_def extend_script_def l Let_def)
qed

theorem one_second_lease_lapses_witness:
  "\<exists>l s'. acquire ttl_ops \<lparr>st_now = 0, st_data = Map.empty\<rparr> ''k'' 1000 ''t'' = Inr (Some l, s')
     \<and> renewing ttl_ops s' l [1000] = Inl LeaseLost"
proof -
  obtain l s' where a: "acquire ttl_ops \<lparr>st_now = 0, st_data = Map.empty\<rparr> ''k'' 1000 ''t'' = Inr (Some l, s')"
    by (simp add: acquire_def ttl_ops_def st_entry_def)
  then show ?thesis
    using one_second_lease_lapses [OF ttl.redis_service_axioms a, of 1000 "[]"]
    by (auto simp: renew_interval_ms_def)
qed

end
