(* ===== verification/Json.thy ===== *)
theory Json
  imports Models "HOL-Library.AList"
begin

text \<open>
  Model of \<open>apps/api/app/pricing/parsers/base.py\<close>: what every parser of a provider's answer shares. A payload is the
  value \<open>json.loads\<close> gives. Its texts are lists of code points; what Python's Unicode tables and formats say of the
  characters beyond ASCII, of numbers and of dates is the record \<open>text_rt\<close>:

  \<^item> \<open>tr_upper\<close>, \<open>tr_lower\<close>: the case of a character; \<open>tr_decimal\<close>: its value as a decimal digit, if it is one;
    \<open>tr_isdigit\<close>: whether \<open>str.isdigit\<close> holds of it.
  \<^item> \<open>tr_repr\<close>: \<open>str(..)\<close> of a float, a list or an object; \<open>tr_dumps\<close>: \<open>json.dumps(..)\<close>.
  \<^item> \<open>tr_iso\<close>: the instant of \<open>datetime.fromisoformat\<close>, in UTC, or the exception it raises.

  A parser fails with a \<open>ParserError\<close> and its code (\<open>ParserErr\<close>) or with any other exception (\<open>ParseOther\<close>).
\<close>

datatype parse_error = ParserErr string | ParseOther py_error

record text_rt =
  tr_upper :: "nat \<Rightarrow> utext"
  tr_lower :: "nat \<Rightarrow> utext"
  tr_decimal :: "nat \<Rightarrow> int option"
  tr_isdigit :: "nat \<Rightarrow> bool"
  tr_repr :: "json \<Rightarrow> utext"
  tr_dumps :: "json \<Rightarrow> utext"
  tr_iso :: "utext \<Rightarrow> instant result"

section \<open>Texts\<close>

definition uni :: "string \<Rightarrow> utext" where
  "uni s = map of_char s"

lemma uni_inj [simp]: "uni s = uni t \<longleftrightarrow> s = t"
proof -
  have "inj (of_char :: char \<Rightarrow> nat)"
    by (simp add: inj_on_def)
  then show ?thesis
    by (simp add: uni_def inj_map_eq_map)
qed

definition u_space :: "nat \<Rightarrow> bool" where
  "u_space c \<longleftrightarrow> 9 \<le> c \<and> c \<le> 13 \<or> 28 \<le> c \<and> c \<le> 32 \<or> 8192 \<le> c \<and> c \<le> 8202
     \<or> c \<in> {133, 160, 5760, 8232, 8233, 8239, 8287, 12288}"

definition u_strip :: "utext \<Rightarrow> utext" where
  "u_strip s = rev (dropWhile u_space (rev (dropWhile u_space s)))"

definition u_upper :: "text_rt \<Rightarrow> utext \<Rightarrow> utext" where
  "u_upper rt s = concat (map (\<lambda>c. if 128 \<le> c then tr_upper rt c else [if 97 \<le> c \<and> c \<le> 122 then c - 32 else c]) s)"

definition u_lower :: "text_rt \<Rightarrow> utext \<Rightarrow> utext" where
  "u_lower rt s = concat (map (\<lambda>c. if 128 \<le> c then tr_lower rt c else [if 65 \<le> c \<and> c \<le> 90 then c + 32 else c]) s)"

definition u_decimal :: "text_rt \<Rightarrow> nat \<Rightarrow> int option" where
  "u_decimal rt c = (if 48 \<le> c \<and> c \<le> 57 then Some (int c - 48) else if c < 128 then None else tr_decimal rt c)"

definition u_isdigit :: "text_rt \<Rightarrow> nat \<Rightarrow> bool" where
  "u_isdigit rt c \<longleftrightarrow> (if c < 128 then 48 \<le> c \<and> c \<le> 57 else tr_isdigit rt c)"

definition u_digits_val :: "text_rt \<Rightarrow> utext \<Rightarrow> int" where
  "u_digits_val rt s = foldl (\<lambda>a c. 10 * a + (case u_decimal rt c of None \<Rightarrow> 0 | Some d \<Rightarrow> d)) 0 s"

text \<open>\<open>str(value)\<close> of a value of a payload.\<close>

definition j_str :: "text_rt \<Rightarrow> json \<Rightarrow> utext" where
  "j_str rt v = (case v of
     JStr s \<Rightarrow> s | JNull \<Rightarrow> uni ''None'' | JBool b \<Rightarrow> uni (if b then ''True'' else ''False'')
   | JInt n \<Rightarrow> uni (int_text n) | _ \<Rightarrow> tr_repr rt v)"

text \<open>A value of a payload in the dictionaries of the source.\<close>

definition latin :: "utext \<Rightarrow> bool" where
  "latin s = list_all (\<lambda>c. c < 256) s"

definition utext_string :: "utext \<Rightarrow> string" where
  "utext_string s = map char_of s"

fun latin_text :: "json \<Rightarrow> bool" where
  "latin_text (JStr s) = latin s"
| "latin_text _ = False"

fun text_of_json :: "json \<Rightarrow> string" where
  "text_of_json (JStr s) = utext_string s"
| "text_of_json _ = []"

fun of_json :: "json \<Rightarrow> pyval" where
  "of_json JNull = PNone"
| "of_json (JBool b) = PBool b"
| "of_json (JInt n) = PInt n"
| "of_json (JFloat f) = PFloat f"
| "of_json (JStr s) = (if latin s then PStr (utext_string s) else PJson (JStr s))"
| "of_json (JList xs) = (if list_all latin_text xs then PList (map text_of_json xs) else PJson (JList xs))"
| "of_json (JObj ms) = PJson (JObj ms)"

lemma of_json_uni [simp]: "of_json (JStr (uni s)) = PStr s"
proof -
  have "latin (uni s)"
    by (simp add: latin_def uni_def list_all_iff)
  moreover have "utext_string (uni s) = s"
    by (simp add: utext_string_def uni_def)
  ultimately show ?thesis
    by simp
qed

section \<open>Access\<close>

definition require_object :: "json \<Rightarrow> parse_error + (utext \<times> json) list" where
  "require_object v = (case v of JObj ms \<Rightarrow> Inr ms | _ \<Rightarrow> Inl (ParserErr ''invalid_shape''))"

definition require_list :: "json \<Rightarrow> parse_error + json list" where
  "require_list v = (case v of JList xs \<Rightarrow> Inr xs | _ \<Rightarrow> Inl (ParserErr ''invalid_shape''))"

text \<open>\<open>d.get(k)\<close>; an absent member gives \<open>None\<close>.\<close>

definition j_get :: "(utext \<times> json) list \<Rightarrow> string \<Rightarrow> json" where
  "j_get ms k = (case map_of ms (uni k) of None \<Rightarrow> JNull | Some v \<Rightarrow> v)"

fun j_or :: "json \<Rightarrow> json \<Rightarrow> json" where
  "j_or a b = (if j_truth a then a else b)"

primrec exact_path :: "json \<Rightarrow> string list \<Rightarrow> parse_error + json" where
  "exact_path v [] = Inr v"
| "exact_path v (k # ks) =
     ebind (require_object v) (\<lambda>ms.
     case map_of ms (uni k) of None \<Rightarrow> Inl (ParserErr ''missing_field'') | Some x \<Rightarrow> exact_path x ks)"

section \<open>Numbers\<close>

definition translate_digit :: "nat \<Rightarrow> nat" where
  "translate_digit c = (if 1776 \<le> c \<and> c \<le> 1785 then c - 1728 else if 1632 \<le> c \<and> c \<le> 1641 then c - 1584 else c)"

text \<open>The pattern of a number and its value.\<close>

definition number_body :: "utext \<Rightarrow> utext" where
  "number_body s = (case s of [] \<Rightarrow> [] | c # r \<Rightarrow> if c = 43 \<or> c = 45 then r else s)"

definition is_decimal_char :: "text_rt \<Rightarrow> nat \<Rightarrow> bool" where
  "is_decimal_char rt c \<longleftrightarrow> u_decimal rt c \<noteq> None"

definition number_text :: "text_rt \<Rightarrow> utext \<Rightarrow> bool" where
  "number_text rt s \<longleftrightarrow>
     (let body = number_body s; whole = takeWhile (is_decimal_char rt) body; rest = dropWhile (is_decimal_char rt) body in
      case rest of
        [] \<Rightarrow> whole \<noteq> []
      | c # f \<Rightarrow> c = 46 \<and> list_all (is_decimal_char rt) f \<and> (whole \<noteq> [] \<or> f \<noteq> []))"

definition number_value :: "text_rt \<Rightarrow> utext \<Rightarrow> rat" where
  "number_value rt s =
     (let body = number_body s; whole = takeWhile (is_decimal_char rt) body;
          f = drop 1 (dropWhile (is_decimal_char rt) body);
          sg = (case s of [] \<Rightarrow> 1 | c # _ \<Rightarrow> if c = 45 then - 1 else 1)
      in of_int (sg * u_digits_val rt (whole @ f)) * 10 powi (- int (length f)))"

text \<open>The sign is compared before the number is known to be finite: a value that is not a number raises there.\<close>

definition checked_decimal :: "bool \<Rightarrow> pydec \<Rightarrow> parse_error + rat" where
  "checked_decimal allow_zero d =
     (case d of
        DNaN \<Rightarrow> Inl (ParseOther (InvalidOp ''comparison''))
      | DInf _ \<Rightarrow> Inl (ParserErr ''invalid_number'')
      | DFin q \<Rightarrow> if (if allow_zero then q < 0 else q \<le> 0) then Inl (ParserErr ''invalid_number'') else Inr q)"

definition normalized_number :: "utext \<Rightarrow> utext" where
  "normalized_number s = filter (\<lambda>c. c \<noteq> 44 \<and> c \<noteq> 95) (u_strip (map translate_digit s))"

definition strict_decimal :: "text_rt \<Rightarrow> json \<Rightarrow> bool \<Rightarrow> parse_error + rat" where
  "strict_decimal rt v allow_zero =
     (case v of
        JStr s \<Rightarrow>
          if number_text rt (normalized_number s) then checked_decimal allow_zero (DFin (number_value rt (normalized_number s)))
          else Inl (ParserErr ''invalid_number'')
      | JInt n \<Rightarrow> checked_decimal allow_zero (DFin (of_int n))
      | JFloat (FFin x) \<Rightarrow> checked_decimal allow_zero (DFin (float_str x))
      | JFloat (FInf b) \<Rightarrow> checked_decimal allow_zero (DInf b)
      | JFloat FNaN \<Rightarrow> checked_decimal allow_zero DNaN
      | _ \<Rightarrow> Inl (ParserErr ''invalid_number''))"

section \<open>Times\<close>

record parser_context =
  pc_instrument :: instrument_definition
  pc_received_at :: instant
  pc_maximum_age :: int
  pc_maximum_skew :: int

text \<open>\<open>datetime.fromtimestamp(x, UTC)\<close>: microseconds, ties to even, of the years 1 to 9999.\<close>

definition instant_in_range :: "int \<Rightarrow> bool" where
  "instant_in_range us \<longleftrightarrow> seconds (- 62135596800) \<le> us \<and> us < seconds 253402300800"

definition from_timestamp :: "rat \<Rightarrow> instant option" where
  "from_timestamp x =
     (case f64 ((x - of_int (trunc x)) * 1000000) of
        None \<Rightarrow> None
      | Some part \<Rightarrow>
          let us = trunc x * 1000000 + round_half_even part
          in if instant_in_range us then Some us else None)"

text \<open>Numbers beyond ten billion are milliseconds.\<close>

definition from_number :: "pyfloat \<Rightarrow> instant option" where
  "from_number f =
     (case f of
        FFin x \<Rightarrow> if x > 10000000000 then (case f64 (x / 1000) of None \<Rightarrow> None | Some y \<Rightarrow> from_timestamp y) else from_timestamp x
      | _ \<Rightarrow> None)"

definition replace_z :: "utext \<Rightarrow> utext" where
  "replace_z s = concat (map (\<lambda>c. if c = 90 then uni ''+00:00'' else [c]) s)"

text \<open>The body of the \<open>try\<close>; any error of it is an invalid timestamp.\<close>

definition read_time :: "text_rt \<Rightarrow> json \<Rightarrow> instant option" where
  "read_time rt v =
     (case v of
        JInt n \<Rightarrow> (case f64 (of_int n) of None \<Rightarrow> None | Some x \<Rightarrow> from_number (FFin x))
      | JFloat f \<Rightarrow> from_number f
      | JStr s \<Rightarrow>
          let t = u_strip s in
          if t \<noteq> [] \<and> list_all (u_isdigit rt) t then
            (if list_all (is_decimal_char rt) t then from_number (of_f64 True (f64 (of_int (u_digits_val rt t)))) else None)
          else (case tr_iso rt (replace_z t) of Inl _ \<Rightarrow> None | Inr x \<Rightarrow> Some x)
      | _ \<Rightarrow> None)"

definition optional_timestamp :: "text_rt \<Rightarrow> json \<Rightarrow> parser_context \<Rightarrow> parse_error + instant" where
  "optional_timestamp rt v ctx =
     (if v = JNull then Inr (pc_received_at ctx)
      else
        case read_time rt v of
          None \<Rightarrow> Inl (ParserErr ''invalid_timestamp'')
        | Some t \<Rightarrow>
            let age = total_seconds (pc_received_at ctx - t) in
            if age < - of_int (pc_maximum_skew ctx) \<or> age > of_int (pc_maximum_age ctx)
            then Inl (ParserErr ''stale_timestamp'') else Inr t)"

section \<open>Parsed values\<close>

record parsed_value =
  pv_price :: rat
  pv_currency :: currency
  pv_weight_unit :: weight_unit
  pv_purity :: "rat option"
  pv_observed_at :: instant
  pv_bid :: "rat option"
  pv_ask :: "rat option"
  pv_volume :: "rat option"
  pv_metadata :: dict

definition validate_parsed_value :: "parsed_value \<Rightarrow> parser_context \<Rightarrow> parse_error + parsed_value" where
  "validate_parsed_value v ctx =
     (let i = pc_instrument ctx in
      ebind (require (pv_currency v = i_quote_currency i) (ParserErr ''currency_mismatch'')) (\<lambda>_.
      ebind (require (pv_weight_unit v = i_weight_unit i) (ParserErr ''unit_mismatch'')) (\<lambda>_.
      ebind (require (pv_purity v = i_purity i) (ParserErr ''purity_mismatch'')) (\<lambda>_.
      ebind (require (accepts i (pv_price v)) (ParserErr ''outside_sanity_bounds'')) (\<lambda>_.
      ebind (require (\<not> (case (pv_bid v, pv_ask v) of (Some b, Some a) \<Rightarrow> b > a | _ \<Rightarrow> False)) (ParserErr ''crossed_orderbook'')) (\<lambda>_.
      Inr v))))))"

end
