(* ===== verification/Providers.thy ===== *)
theory Providers
  imports Canonical Budgets Locks Json
begin

text \<open>
  Model of \<open>apps/api/app/pricing/providers.py\<close> with the parts of \<open>persistence.py\<close> and \<open>cache.py\<close> it
  calls: the request to a provider, its circuit breaker and runtime record, the freshness of a cached
  quote and the whole \<open>quote\<close> operation.

  \<^item> The HTTP client, the JSON parsers of the providers, URL and date parsing and the database
    connection are fields of the environment \<open>penv\<close> (the parsers are modelled in \<open>Parsers\<close>): an HTTP attempt gives a response or a transport
    error, a parser gives a value or an error code. The environment also fixes the clock readings of
    one call: \<open>e_now\<close> before the request and \<open>e_received\<close> after it.
  \<^item> \<open>pworld\<close> is the state the operation changes: Redis (leases and budget counters), the cached quotes
    and runtime records, and the table of stored provider quotes.
  \<^item> Metrics, runtime events and the archive of rejected payloads are left out; they are written and
    never read by this code. Payloads are those that can be archived: \<open>Sanitize\<close> shows when archiving raises.
\<close>

section \<open>Circuit breaker\<close>

definition failure_threshold :: int where "failure_threshold = 3"

definition circuit_open_seconds :: int where "circuit_open_seconds = 60"

text \<open>\<open>_circuit_open\<close> also moves an open circuit whose time is up to half-open.\<close>

definition circuit_open :: "provider_runtime_state \<Rightarrow> instant \<Rightarrow> bool \<times> provider_runtime_state" where
  "circuit_open r now =
     (if (case r_cooldown_until r of None \<Rightarrow> False | Some t \<Rightarrow> now < t) then (True, r)
      else if r_circuit_state r \<noteq> OPEN then (False, r)
      else if (case r_circuit_open_until r of None \<Rightarrow> True | Some t \<Rightarrow> now \<ge> t)
        then (False, r\<lparr>r_circuit_state := HALF_OPEN\<rparr>)
      else (True, r))"

definition record_success :: "provider_runtime_state \<Rightarrow> int \<Rightarrow> instant \<Rightarrow> provider_runtime_state" where
  "record_success r latency_ms now =
     (let previous_total = r_success_count r; n = previous_total + 1;
          average = (case r_average_latency_ms r of
             None \<Rightarrow> of_int latency_ms
           | Some a \<Rightarrow> dctx (dadd (dmul a (of_int previous_total)) (of_int latency_ms) / of_int (max 1 n)))
      in r\<lparr>r_success_count := n, r_consecutive_failures := 0, r_last_success_at := Some now,
           r_last_error_code := None, r_circuit_state := CLOSED, r_circuit_open_until := None,
           r_operational_status := ''connected'', r_average_latency_ms := Some average\<rparr>)"

definition record_failure ::
  "provider_definition \<Rightarrow> provider_runtime_state \<Rightarrow> string \<Rightarrow> int option \<Rightarrow> instant \<Rightarrow> provider_runtime_state" where
  "record_failure p r error_code retry_after_seconds now =
     (let r1 = r\<lparr>r_failure_count := r_failure_count r + 1,
               r_consecutive_failures := r_consecutive_failures r + 1, r_last_failure_at := Some now,
               r_last_error_code := Some error_code, r_operational_status := ''failed''\<rparr>;
          r2 = (if error_code = ''rate_limited'' then
                  r1\<lparr>r_cooldown_until := Some (now + seconds (max (b_cooldown_after_429_seconds (p_budget p))
                        (case retry_after_seconds of None \<Rightarrow> 0 | Some n \<Rightarrow> n))),
                     r_operational_status := ''cooldown''\<rparr>
                else r1)
      in if r_consecutive_failures r2 \<ge> failure_threshold then
           r2\<lparr>r_circuit_state := OPEN, r_circuit_open_until := Some (now + seconds circuit_open_seconds),
              r_operational_status := ''circuit_open''\<rparr>
         else r2)"

section \<open>Retry-After\<close>

definition py_isdigit :: "char \<Rightarrow> bool" where
  "py_isdigit c \<longleftrightarrow> is_digit c \<or> (of_char c :: nat) \<in> {178, 179, 185}"

definition parse_retry_after ::
  "(string \<rightharpoonup> instant) \<Rightarrow> string option \<Rightarrow> instant \<Rightarrow> int \<Rightarrow> int option result" where
  "parse_retry_after parse_date value now maximum =
     (case value of
        None \<Rightarrow> Inr None
      | Some v \<Rightarrow>
          let normalized = strip v in
          if normalized = [] then Inr None
          else if list_all py_isdigit normalized then
            (let stripped = dropWhile (\<lambda>c. c = CHR ''0'') normalized;
                 digits = (if stripped = [] then ''0'' else stripped)
             in if length digits > length (int_text maximum) then Inr (Some maximum)
                else ebind (py_int (PStr digits)) (\<lambda>n. Inr (Some (min maximum n))))
          else (case parse_date normalized of
              None \<Rightarrow> Inr None
            | Some retry_at \<Rightarrow>
                Inr (Some (min maximum (max 0 \<lceil>total_seconds (retry_at - now)\<rceil>)))))"

section \<open>Freshness of a cached quote\<close>

definition or_int :: "int option \<Rightarrow> int \<Rightarrow> int" where
  "or_int v d = (case v of None \<Rightarrow> d | Some n \<Rightarrow> if n = 0 then d else n)"

definition provider_freshness_boundaries ::
  "provider_quote \<Rightarrow> provider_definition \<Rightarrow> instrument_definition \<Rightarrow> freshness_boundaries result" where
  "provider_freshness_boundaries q p i =
     ebind (freshness_policy_post_init
       \<lparr>maximum_source_age_seconds =
          min (or_int (p_maximum_source_age_seconds p) (p_operational_ttl_seconds p)) (i_expire_after_seconds i),
        provider_live_ttl_seconds = p_operational_ttl_seconds p,
        instrument_operational_ttl_seconds = i_operational_ttl_seconds i,
        instrument_stale_after_seconds = i_stale_after_seconds i,
        instrument_expire_after_seconds = i_expire_after_seconds i,
        future_clock_skew_seconds = default_future_clock_skew_seconds,
        anchor_live_window_at_receive_time = p_anchor_live_window_at_receive_time p\<rparr>) (\<lambda>policy.
     freshness_boundaries_of (utc (q_observed_at q)) (utc (q_received_at q)) policy)"

definition cache_status ::
  "provider_quote option \<Rightarrow> provider_definition \<Rightarrow> instrument_definition \<Rightarrow> instant \<Rightarrow> freshness_status option" where
  "cache_status quote p i now =
     (case quote of
        None \<Rightarrow> None
      | Some q \<Rightarrow>
          if q_validation_status q \<noteq> ACCEPTED \<or> q_price q = None then Some FExpired
          else case provider_freshness_boundaries q p i of
            Inl _ \<Rightarrow> Some FExpired
          | Inr b \<Rightarrow> Some (status_at b (utc now)))"

definition provider_is_fresh ::
  "provider_quote \<Rightarrow> provider_definition \<Rightarrow> instrument_definition \<Rightarrow> instant \<Rightarrow> bool" where
  "provider_is_fresh q p i now \<longleftrightarrow>
     q_validation_status q = ACCEPTED \<and> q_price q \<noteq> None \<and> q_persistence_status q = PERSISTED
     \<and> cache_status (Some q) p i now = Some FLive"

definition apply_current_live_boundary ::
  "provider_quote \<Rightarrow> provider_definition \<Rightarrow> instrument_definition \<Rightarrow> provider_quote result" where
  "apply_current_live_boundary q p i =
     ebind (provider_freshness_boundaries q p i) (\<lambda>b.
     Inr (q\<lparr>q_metadata := (q_metadata q)(''effective_live_eligible_until'' \<mapsto> PIso (fb_live_eligible_until b))\<rparr>))"

section \<open>Persistence of provider quotes\<close>

record quote_db =
  qd_rows :: "((idem_key \<times> instant) \<times> int) list"
  qd_next :: int

text \<open>\<open>_persist_provider_quote\<close>: a row with the same key and time is reused.\<close>

definition store_quote_row :: "quote_db \<Rightarrow> provider_quote \<Rightarrow> int \<times> quote_db" where
  "store_quote_row db q =
     (case map_of (qd_rows db) (q_idempotency_key q, q_observed_at q) of
        Some n \<Rightarrow> (n, db)
      | None \<Rightarrow> (qd_next db, \<lparr>qd_rows = ((q_idempotency_key q, q_observed_at q), qd_next db) # qd_rows db,
                              qd_next = qd_next db + 1\<rparr>))"

record persistence_result =
  pr_persisted :: bool
  pr_queued :: bool

definition persist_provider_quote ::
  "bool \<Rightarrow> bool \<Rightarrow> quote_db \<Rightarrow> provider_quote \<Rightarrow> persistence_result \<times> provider_quote \<times> quote_db" where
  "persist_provider_quote db_up queue_up db q =
     (if db_up then
        (let r = store_quote_row db q
         in (\<lparr>pr_persisted = True, pr_queued = False\<rparr>,
             q\<lparr>q_id := Some (fst r), q_persistence_status := PERSISTED\<rparr>, snd r))
      else (\<lparr>pr_persisted = False, pr_queued = queue_up\<rparr>, q\<lparr>q_persistence_status := QUEUED\<rparr>, db))"

section \<open>The request\<close>

record url_parts =
  url_scheme :: string
  url_hostname :: string
  url_username :: string
  url_password :: string
  url_query :: string

datatype call_error =
    CallFailure string "int option" "int option"
  | ParserFailure string int
  | OtherError py_error "int option"

text \<open>The body of a response: nothing (or the JSON value null), text that is no JSON, or a value.\<close>

datatype 'p http_body = EmptyBody | BadJson | JsonBody 'p

record 'p http_response =
  rs_status :: int
  rs_retry_after :: "string option"
  rs_chunks :: "int list"
  rs_body :: "'p http_body"

fun split_on :: "char \<Rightarrow> string \<Rightarrow> string list" where
  "split_on c [] = [[]]"
| "split_on c (x # xs) =
     (if x = c then [] # split_on c xs
      else (case split_on c xs of [] \<Rightarrow> [[x]] | y # ys \<Rightarrow> (x # y) # ys))"

fun contains_text :: "string \<Rightarrow> string \<Rightarrow> bool" where
  "contains_text p [] = (p = [])"
| "contains_text p (c # s) = (starts_with p (c # s) \<or> contains_text p s)"

definition validate_destination :: "(string \<Rightarrow> url_parts) \<Rightarrow> string \<Rightarrow> provider_definition \<Rightarrow> call_error + unit" where
  "validate_destination urlparse allowed_hosts p =
     (let parsed = urlparse (p_url p); query = lower (url_query parsed);
          allowed = filter (\<lambda>h. h \<noteq> []) (map (\<lambda>h. lower (strip h)) (split_on (CHR '','') allowed_hosts))
      in
      ebind (require (url_scheme parsed \<noteq> [] \<and> url_hostname parsed \<noteq> [])
         (CallFailure ''invalid_provider_url'' None None)) (\<lambda>_.
      ebind (require (url_username parsed = [] \<and> url_password parsed = [])
         (CallFailure ''url_credentials_blocked'' None None)) (\<lambda>_.
      ebind (require (\<not> list_ex (\<lambda>m. contains_text m query)
               [''api_key='', ''apikey='', ''token='', ''secret='', ''password=''])
         (CallFailure ''url_secret_blocked'' None None)) (\<lambda>_.
      require (allowed = [] \<or> lower (url_hostname parsed) \<in> set allowed)
         (CallFailure ''provider_host_not_allowed'' None None)))))"

text \<open>The body is read chunk by chunk and refused as soon as it exceeds the bound.\<close>

fun exceeds_bound :: "int \<Rightarrow> int \<Rightarrow> int list \<Rightarrow> bool" where
  "exceeds_bound bound n [] = False"
| "exceeds_bound bound n (c # cs) = (n + c > bound \<or> exceeds_bound bound (n + c) cs)"

definition request_once ::
  "(string \<rightharpoonup> instant) \<Rightarrow> instant \<Rightarrow> int \<Rightarrow> provider_definition \<Rightarrow> unit + 'p http_response
   \<Rightarrow> call_error + ('p \<times> int)" where
  "request_once parse_date now max_response_bytes p response =
     (case response of
        Inl _ \<Rightarrow> Inl (CallFailure ''transport_error'' None None)
      | Inr rs \<Rightarrow>
          if exceeds_bound (min (p_maximum_payload_bytes p) max_response_bytes) 0 (rs_chunks rs)
          then Inl (CallFailure ''payload_too_large'' (Some (rs_status rs)) None)
          else (case rs_body rs of
              BadJson \<Rightarrow> Inl (CallFailure ''invalid_json'' (Some (rs_status rs)) None)
            | body \<Rightarrow>
                if rs_status rs = 429 then
                  (case parse_retry_after parse_date (rs_retry_after rs) now 86400 of
                     Inl e \<Rightarrow> Inl (OtherError e None)
                   | Inr retry \<Rightarrow> Inl (CallFailure ''rate_limited'' (Some 429) retry))
                else if rs_status rs < 200 \<or> rs_status rs \<ge> 300
                  then Inl (CallFailure ''http_error'' (Some (rs_status rs)) None)
                else (case body of
                    JsonBody payload \<Rightarrow> Inr (payload, rs_status rs)
                  | _ \<Rightarrow> Inl (CallFailure ''empty_payload'' (Some (rs_status rs)) None))))"

definition retryable :: "call_error \<Rightarrow> bool" where
  "retryable e =
     (case e of
        CallFailure code status _ \<Rightarrow>
          code = ''transport_error'' \<or> status = Some 408
          \<or> (case status of None \<Rightarrow> False | Some s \<Rightarrow> s \<ge> 500)
      | _ \<Rightarrow> False)"

text \<open>The pause before the next attempt, in seconds.\<close>

definition retry_delay :: "rat \<Rightarrow> nat \<Rightarrow> call_error \<Rightarrow> rat" where
  "retry_delay base attempt e =
     (let delay = base * 2 ^ attempt;
          delay = (case e of CallFailure _ _ (Some n) \<Rightarrow> max delay (of_int n) | _ \<Rightarrow> delay)
      in min delay 10)"

text \<open>The retry loop from an attempt on; the result has the pauses that were made.\<close>

fun attempts ::
  "(nat \<Rightarrow> call_error + 'r) \<Rightarrow> rat \<Rightarrow> nat \<Rightarrow> nat \<Rightarrow> (call_error + 'r) \<times> rat list" where
  "attempts try base maximum 0 = (Inl (CallFailure ''transport_error'' None None), [])"
| "attempts try base maximum (Suc left) =
     (let attempt = maximum - Suc left in
      case try attempt of
        Inr r \<Rightarrow> (Inr r, [])
      | Inl e \<Rightarrow>
          if \<not> retryable e \<or> left = 0 then (Inl e, [])
          else (let rest = attempts try base maximum left
                in (fst rest, retry_delay base attempt e # snd rest)))"

section \<open>One call\<close>

record 's pworld =
  w_redis :: 's
  w_cache :: "string \<times> string \<rightharpoonup> provider_quote"
  w_runtime :: "string \<times> string \<rightharpoonup> provider_runtime_state"
  w_db :: quote_db

record ('s, 'p) penv =
  e_ops :: "'s redis_ops"
  e_settings :: app_settings
  e_instruments :: "instrument_definition list"
  e_instrument_budgets :: "string \<rightharpoonup> instrument_budget_policy"
  e_urlparse :: "string \<Rightarrow> url_parts"
  e_parse_date :: "string \<rightharpoonup> instant"
  e_http :: "string \<Rightarrow> string \<Rightarrow> (string \<times> string) list \<Rightarrow> (string \<times> string) list \<Rightarrow> nat
             \<Rightarrow> unit + 'p http_response"
  e_parser_version :: "string \<Rightarrow> string"
  e_parse :: "string \<Rightarrow> 'p \<Rightarrow> instrument_definition \<Rightarrow> instant \<Rightarrow> int \<Rightarrow> parse_error + parsed_value"
  e_db_up :: bool
  e_queue_up :: bool
  e_owner :: string
  e_interleave :: "'s pworld \<Rightarrow> 's pworld"
  e_now :: instant
  e_received :: instant
  e_unix_time :: int
  e_latency_ms :: int
  e_max_retries :: nat
  e_backoff_base :: rat
  e_max_response_bytes :: int

definition setting :: "app_settings \<Rightarrow> string \<Rightarrow> string" where
  "setting st name = or_text (st name) []"

text \<open>Headers are a dictionary in the order of their first assignment.\<close>

definition put_header :: "string \<Rightarrow> string \<Rightarrow> (string \<times> string) list \<Rightarrow> (string \<times> string) list" where
  "put_header k v hs = AList.update k v hs"

text \<open>The checks and credentials before the first attempt: headers and query parameters.\<close>

definition request_credentials ::
  "('s, 'p) penv \<Rightarrow> provider_definition \<Rightarrow> call_error + ((string \<times> string) list \<times> (string \<times> string) list)" where
  "request_credentials env p =
     (let st = e_settings env; host = (\<lambda>u. url_hostname (e_urlparse env u));
          relay = setting st ''pricing_relay_base_url'';
          needs_relay = (relay \<noteq> [] \<and> host relay \<noteq> [] \<and> host (p_url p) = host relay);
          token = setting st ''pricing_relay_shared_token'';
          key_setting = or_text (p_api_key_setting p) [];
          static = fold (\<lambda>(k, v). put_header k v) (p_static_headers p) []
      in
      ebind (validate_destination (e_urlparse env) (setting st ''pricing_provider_allowed_hosts'') p) (\<lambda>_.
      ebind (require (\<not> (needs_relay \<and> token = [])) (CallFailure ''missing_relay_token'' None None)) (\<lambda>_.
      ebind (require (\<not> (p_requires_https p \<and> key_setting \<noteq> []
                \<and> url_scheme (e_urlparse env (p_url p)) \<noteq> ''https''))
         (CallFailure ''insecure_http_blocked'' None None)) (\<lambda>_.
      let headers = (if needs_relay then put_header ''X-Relay-Token'' token static else static) in
      if key_setting = [] then Inr (headers, [])
      else
        let first_key = setting st key_setting;
            alternative = (starts_with ''nerkh_io_'' (p_provider_id p) \<and> first_key = []);
            key = (if alternative then setting st ''nerkh_io_api_key'' else first_key);
            query_key = (if alternative then ''x-api-key'' else or_text (p_api_key_query_parameter p) []);
            header = or_text (p_api_key_header p) [];
            use_header = (\<not> alternative \<and> header \<noteq> [])
        in ebind (require (key \<noteq> []) (CallFailure ''missing_key'' None None)) (\<lambda>_.
           if use_header then
             Inr (put_header header
                    (if lower header = ''authorization'' \<and> \<not> starts_with ''bearer '' (lower key)
                     then ''Bearer '' @ key else key) headers, [])
           else if query_key \<noteq> [] then Inr (headers, [(query_key, key)])
           else Inr (headers, []))))))"

definition request_payload :: "('s, 'p) penv \<Rightarrow> provider_definition \<Rightarrow> call_error + ('p \<times> int)" where
  "request_payload env p =
     ebind (request_credentials env p) (\<lambda>(headers, params).
     fst (attempts (\<lambda>n. request_once (e_parse_date env) (e_received env) (e_max_response_bytes env) p
              (e_http env (p_method p) (p_url p) headers params n))
            (e_backoff_base env) (e_max_retries env + 1) (e_max_retries env + 1)))"

text \<open>An exception raised after the response with this status was read.\<close>

definition lift_py :: "int \<Rightarrow> 'a result \<Rightarrow> call_error + 'a" where
  "lift_py status r = (case r of Inl e \<Rightarrow> Inl (OtherError e (Some status)) | Inr x \<Rightarrow> Inr x)"

definition conversion_factor_arg :: "dict \<Rightarrow> pyval result" where
  "conversion_factor_arg md =
     (if dict_get md ''normalization'' PNone = PStr ''rial_to_toman'' then Inr (PDecStr (1/10))
      else ebind (py_decimal (dict_get md ''conversion_factor'' (PInt 1))) (\<lambda>d.
        case d of DFin q \<Rightarrow> Inr (PDecStr q) | _ \<Rightarrow> Inr (PStr ''NaN'')))"

definition accepted_args ::
  "('s, 'p) penv \<Rightarrow> provider_definition \<Rightarrow> request_purpose \<Rightarrow> instrument_definition \<Rightarrow> parsed_value \<Rightarrow> int
   \<Rightarrow> pyval \<Rightarrow> quote_args" where
  "accepted_args env p purpose i v status factor =
     default_args\<lparr>a_instrument_id := p_instrument_id p, a_provider_id := p_provider_id p,
       a_source_type := ST_HTTP, a_price := PDecStr (pv_price v), a_currency := pv_currency v,
       a_weight_unit := pv_weight_unit v, a_purity := pv_purity v, a_bid := opt_dec (pv_bid v),
       a_ask := opt_dec (pv_ask v), a_volume := opt_dec (pv_volume v),
       a_observed_at := utc (pv_observed_at v), a_received_at := utc (e_received env),
       a_latency_ms := Some (e_latency_ms env), a_http_status := Some status,
       a_parser_version := e_parser_version env (p_parser_id p), a_validation_status := ACCEPTED,
       a_confidence_score := PDecStr (p_trust_score p), a_is_direct := True, a_is_derived := False,
       a_is_suspicious := False, a_source_semantic := PStr (source_semantic_value (p_source_semantic p)),
       a_source_family := PStr (p_source_family p), a_venue := PStr (p_venue p),
       a_last := (if p_selected_price_semantic p = SEL_LAST then PDecStr (pv_price v) else PNone),
       a_selected_price_semantic := PStr (price_semantic_value (p_selected_price_semantic p)),
       a_original_currency := dict_get (pv_metadata v) ''source_currency'' PNone,
       a_original_value := dict_get (pv_metadata v) ''original_value'' PNone,
       a_conversion_factor := factor, a_route_id := PStr (p_route_id p),
       a_metadata := (pv_metadata v)(
         ''quote_role'' \<mapsto> PStr (request_purpose_value purpose),
         ''provider_role'' \<mapsto> PStr (provider_role_value (p_role p)),
         ''provider_live_ttl_seconds'' \<mapsto> PInt (p_operational_ttl_seconds p),
         ''maximum_source_age_seconds'' \<mapsto> PInt (or_int (p_maximum_source_age_seconds p)
            (min_of (p_operational_ttl_seconds p) [i_operational_ttl_seconds i, i_expire_after_seconds i])),
         ''anchor_live_window_at_receive_time'' \<mapsto> PBool (p_anchor_live_window_at_receive_time p)),
       a_persistence_status := UNPERSISTED\<rparr>"

definition rejected_args ::
  "('s, 'p) penv \<Rightarrow> provider_definition \<Rightarrow> request_purpose \<Rightarrow> instrument_definition \<Rightarrow> string \<Rightarrow> int option
   \<Rightarrow> quote_args" where
  "rejected_args env p purpose i reason status =
     default_args\<lparr>a_instrument_id := p_instrument_id p, a_provider_id := p_provider_id p,
       a_source_type := ST_HTTP, a_price := PNone, a_currency := i_quote_currency i,
       a_weight_unit := i_weight_unit i, a_purity := i_purity i,
       a_observed_at := utc (e_received env), a_received_at := utc (e_received env),
       a_latency_ms := Some (e_latency_ms env), a_http_status := status,
       a_parser_version := p_parser_version p, a_validation_status := REJECTED,
       a_confidence_score := PDecStr 0, a_is_direct := True, a_is_derived := False,
       a_source_semantic := PStr (source_semantic_value (p_source_semantic p)),
       a_source_family := PStr (p_source_family p), a_venue := PStr (p_venue p),
       a_selected_price_semantic := PStr (price_semantic_value (p_selected_price_semantic p)),
       a_route_id := PStr (p_route_id p), a_rejection_reason := Some reason,
       a_metadata := [''quote_role'' \<mapsto> PStr (request_purpose_value purpose),
         ''provider_role'' \<mapsto> PStr (provider_role_value (p_role p))],
       a_persistence_status := UNPERSISTED\<rparr>"

text \<open>\<open>set_provider_quote\<close>: how long the cached quote is retained, in seconds; it fails where the
  freshness policy does.\<close>

definition cache_retention ::
  "instrument_definition list \<Rightarrow> provider_quote \<Rightarrow> int \<Rightarrow> instant \<Rightarrow> int result" where
  "cache_retention defs q ttl now =
     ebind (get_instrument defs (q_instrument_id q)) (\<lambda>i.
     ebind (freshness_policy_post_init
       \<lparr>maximum_source_age_seconds =
          min_of ttl [i_operational_ttl_seconds i, i_expire_after_seconds i],
        provider_live_ttl_seconds = ttl,
        instrument_operational_ttl_seconds = i_operational_ttl_seconds i,
        instrument_stale_after_seconds = i_stale_after_seconds i,
        instrument_expire_after_seconds = i_expire_after_seconds i,
        future_clock_skew_seconds = default_future_clock_skew_seconds,
        anchor_live_window_at_receive_time = False\<rparr>) (\<lambda>policy.
     ebind (cache_retention_until (utc (q_observed_at q)) (utc (q_received_at q)) policy) (\<lambda>until.
     Inr (max 1 \<lceil>total_seconds (until - now)\<rceil>))))"

record quote_fetch_outcome =
  oc_quote :: "provider_quote option"
  oc_usable :: bool
  oc_from_fresh_cache :: bool
  oc_external_called :: bool
  oc_failure_reason :: "string option"
  oc_cache_status :: "freshness_status option"
  oc_retry_after_seconds :: "int option"

definition runtime_key :: "provider_definition \<Rightarrow> string \<times> string" where
  "runtime_key p = (p_provider_id p, p_instrument_id p)"

definition put_runtime :: "provider_definition \<Rightarrow> provider_runtime_state \<Rightarrow> 's pworld \<Rightarrow> 's pworld" where
  "put_runtime p r w = w\<lparr>w_runtime := (w_runtime w)(runtime_key p \<mapsto> r)\<rparr>"

text \<open>The body of the \<open>try\<close> up to the accepted quote.\<close>

definition build_quote ::
  "('s, 'p) penv \<Rightarrow> provider_definition \<Rightarrow> request_purpose \<Rightarrow> instrument_definition
   \<Rightarrow> call_error + provider_quote" where
  "build_quote env p purpose i =
     ebind (request_payload env p) (\<lambda>(payload, status).
     let maximum_age = min (or_int (p_maximum_source_age_seconds p) (p_operational_ttl_seconds p))
           (i_expire_after_seconds i) in
     ebind (require (\<not> maximum_age \<le> 0) (OtherError (ValueError ''Maximum timestamp age must be positive'') (Some status))) (\<lambda>_.
     ebind (case e_parse env (p_parser_id p) payload i (e_received env) maximum_age of
              Inl (ParserErr code) \<Rightarrow> Inl (ParserFailure code status)
            | Inl (ParseOther e) \<Rightarrow> Inl (OtherError e (Some status))
            | Inr v \<Rightarrow> Inr v) (\<lambda>v.
     ebind (lift_py status (conversion_factor_arg (pv_metadata v))) (\<lambda>factor.
     ebind (lift_py status (provider_quote_create (accepted_args env p purpose i v status factor))) (\<lambda>q.
     lift_py status (apply_current_live_boundary q p i))))))"

text \<open>The handlers: a rejected quote is stored, the failure recorded.\<close>

definition fail_call ::
  "('s, 'p) penv \<Rightarrow> provider_definition \<Rightarrow> request_purpose \<Rightarrow> instrument_definition \<Rightarrow> provider_runtime_state
   \<Rightarrow> string \<Rightarrow> int option \<Rightarrow> int option \<Rightarrow> 's pworld \<Rightarrow> (quote_fetch_outcome \<times> 's pworld) result" where
  "fail_call env p purpose i runtime code status retry_after w =
     ebind (provider_quote_create (rejected_args env p purpose i code status)) (\<lambda>q.
     let stored = persist_provider_quote (e_db_up env) (e_queue_up env) (w_db w) q;
         w1 = w\<lparr>w_db := snd (snd stored)\<rparr>;
         w2 = put_runtime p (record_failure p runtime code retry_after (e_received env)) w1
     in Inr (\<lparr>oc_quote = Some (fst (snd stored)), oc_usable = False, oc_from_fresh_cache = False,
              oc_external_called = True, oc_failure_reason = Some code, oc_cache_status = None,
              oc_retry_after_seconds = retry_after\<rparr>, w2))"

definition accept_call ::
  "('s, 'p) penv \<Rightarrow> provider_definition \<Rightarrow> request_purpose \<Rightarrow> instrument_definition \<Rightarrow> provider_runtime_state
   \<Rightarrow> provider_quote \<Rightarrow> 's pworld \<Rightarrow> (quote_fetch_outcome \<times> 's pworld) result" where
  "accept_call env p purpose i runtime q w =
     (let freshness = cache_status (Some q) p i (e_received env);
          stored = persist_provider_quote (e_db_up env) (e_queue_up env) (w_db w) q;
          result = fst stored; q1 = fst (snd stored);
          w1 = w\<lparr>w_db := snd (snd stored)\<rparr>
      in case cache_retention (e_instruments env) q1 (p_operational_ttl_seconds p) (e_received env) of
           Inl (ValueError _) \<Rightarrow> fail_call env p purpose i runtime ''invalid_response'' (q_http_status q) None w1
         | Inl e \<Rightarrow> Inl e
         | Inr _ \<Rightarrow>
             let w2 = w1\<lparr>w_cache := (w_cache w1)(runtime_key p \<mapsto> q1)\<rparr>;
                 w3 = put_runtime p (record_success runtime (e_latency_ms env) (e_received env)) w2
             in Inr (\<lparr>oc_quote = Some q1,
                  oc_usable = (pr_persisted result \<and> freshness = Some FLive),
                  oc_from_fresh_cache = False, oc_external_called = True,
                  oc_failure_reason = (if freshness \<noteq> Some FLive then Some ''source_not_live''
                    else if \<not> pr_persisted result then
                      Some (if pr_queued result then ''source_persistence_queued''
                            else ''source_persistence_failed'')
                    else None),
                  oc_cache_status = freshness, oc_retry_after_seconds = None\<rparr>, w3))"

definition call_and_parse ::
  "('s, 'p) penv \<Rightarrow> provider_definition \<Rightarrow> request_purpose \<Rightarrow> provider_runtime_state \<Rightarrow> instrument_definition
   \<Rightarrow> 's pworld \<Rightarrow> (quote_fetch_outcome \<times> 's pworld) result" where
  "call_and_parse env p purpose runtime i w =
     (case build_quote env p purpose i of
        Inr q \<Rightarrow> accept_call env p purpose i runtime q w
      | Inl (CallFailure code status retry_after) \<Rightarrow>
          fail_call env p purpose i runtime code status retry_after
            (if status = Some 429 then w\<lparr>w_redis := record_rate_limit (e_ops env) (w_redis w) p\<rparr> else w)
      | Inl (ParserFailure code status) \<Rightarrow> fail_call env p purpose i runtime code (Some status) None w
      | Inl (OtherError (ValueError _) status) \<Rightarrow>
          fail_call env p purpose i runtime ''invalid_response'' status None w
      | Inl (OtherError e _) \<Rightarrow> Inl e)"

section \<open>The quote operation\<close>

definition idle_outcome ::
  "provider_quote option \<Rightarrow> string \<Rightarrow> freshness_status option \<Rightarrow> quote_fetch_outcome" where
  "idle_outcome q reason status =
     \<lparr>oc_quote = q, oc_usable = False, oc_from_fresh_cache = False, oc_external_called = False,
      oc_failure_reason = Some reason, oc_cache_status = status, oc_retry_after_seconds = None\<rparr>"

definition cached_outcome :: "provider_quote \<Rightarrow> quote_fetch_outcome" where
  "cached_outcome q =
     \<lparr>oc_quote = Some q, oc_usable = True, oc_from_fresh_cache = True, oc_external_called = False,
      oc_failure_reason = None, oc_cache_status = Some FLive, oc_retry_after_seconds = None\<rparr>"

definition live_stored :: "provider_quote option \<Rightarrow> freshness_status option \<Rightarrow> bool" where
  "live_stored q status \<longleftrightarrow>
     (case q of None \<Rightarrow> False | Some x \<Rightarrow> status = Some FLive \<and> q_persistence_status x = PERSISTED)"

text \<open>What is done while the provider lease is held.\<close>

definition locked_quote ::
  "('s, 'p) penv \<Rightarrow> provider_definition \<Rightarrow> request_purpose \<Rightarrow> instrument_definition \<Rightarrow> provider_runtime_state
   \<Rightarrow> provider_quote option \<Rightarrow> freshness_status option \<Rightarrow> 's pworld
   \<Rightarrow> (quote_fetch_outcome \<times> 's pworld) result" where
  "locked_quote env p purpose i runtime cached cached_status w =
     (let again = w_cache w (runtime_key p); again_status = cache_status again p i (e_now env) in
      if live_stored again again_status then
        ebind (apply_current_live_boundary (the again) p i) (\<lambda>q. Inr (cached_outcome q, w))
      else
        ebind (consume (e_ops env) (w_redis w) (e_instrument_budgets env) p purpose (e_unix_time env))
          (\<lambda>(decision, s').
          let w1 = w\<lparr>w_redis := s'\<rparr> in
          if \<not> bd_allowed decision then
            Inr (idle_outcome (case again of None \<Rightarrow> cached | Some q \<Rightarrow> Some q) (bd_reason decision)
                   (case again_status of None \<Rightarrow> cached_status | Some x \<Rightarrow> Some x),
                 put_runtime p (runtime\<lparr>r_operational_status := bd_reason decision\<rparr>) w1)
          else call_and_parse env p purpose runtime i w1))"

definition quote ::
  "('s, 'p) penv \<Rightarrow> provider_definition \<Rightarrow> request_purpose \<Rightarrow> instrument_definition \<Rightarrow> 's pworld
   \<Rightarrow> (quote_fetch_outcome \<times> 's pworld) result" where
  "quote env p purpose i w =
     (let cached = w_cache w (runtime_key p); cached_status = cache_status cached p i (e_now env);
          runtime = (case w_runtime w (runtime_key p) of
             None \<Rightarrow> fresh_runtime (p_provider_id p) (p_instrument_id p) | Some r \<Rightarrow> r)
      in
      if \<not> p_enabled p then
        Inr (idle_outcome cached ''provider_disabled'' cached_status,
             put_runtime p (runtime\<lparr>r_operational_status := ''disabled''\<rparr>) w)
      else if \<not> configured p (e_settings env) then
        Inr (idle_outcome cached ''disabled_missing_key'' cached_status,
             put_runtime p (runtime\<lparr>r_operational_status := ''disabled_missing_key'',
               r_last_error_code := Some ''missing_key''\<rparr>) w)
      else if live_stored cached cached_status then
        ebind (apply_current_live_boundary (the cached) p i) (\<lambda>q.
        Inr (cached_outcome q, put_runtime p (runtime\<lparr>r_operational_status := ''fresh_cache''\<rparr>) w))
      else
        let circuit = circuit_open runtime (e_now env) in
        if fst circuit then
          Inr (idle_outcome cached ''circuit_open'' cached_status,
               put_runtime p ((snd circuit)\<lparr>r_operational_status := ''circuit_open''\<rparr>) w)
        else
          let w1 = e_interleave env w in
          case acquire (e_ops env) (w_redis w1) (provider_lock_key (p_provider_id p) (p_instrument_id p))
                 15000 (e_owner env) of
            Inl e \<Rightarrow> Inl e
          | Inr (None, s') \<Rightarrow>
              Inr (idle_outcome cached ''provider_refresh_locked'' cached_status, w1\<lparr>w_redis := s'\<rparr>)
          | Inr (Some l, s') \<Rightarrow>
              ebind (locked_quote env p purpose i (snd circuit) cached cached_status (w1\<lparr>w_redis := s'\<rparr>))
                (\<lambda>(outcome, w2).
                Inr (outcome, w2\<lparr>w_redis := snd (release (e_ops env) (w_redis w2) l)\<rparr>)))"

section \<open>Facts about the circuit breaker\<close>

text \<open>The runtime records a provider can get to from a fresh one.\<close>

inductive runtime_reach :: "provider_definition \<Rightarrow> provider_runtime_state \<Rightarrow> bool" for p where
  fresh: "runtime_reach p (fresh_runtime pid iid)"
| success: "runtime_reach p r \<Longrightarrow> 0 \<le> latency \<Longrightarrow> runtime_reach p (record_success r latency now)"
| failure: "runtime_reach p r \<Longrightarrow> runtime_reach p (record_failure p r code retry now)"
| check: "runtime_reach p r \<Longrightarrow> runtime_reach p (snd (circuit_open r now))"
| status: "runtime_reach p r \<Longrightarrow> runtime_reach p (r\<lparr>r_operational_status := st\<rparr>)"

definition runtime_inv :: "provider_runtime_state \<Rightarrow> bool" where
  "runtime_inv r \<longleftrightarrow>
     0 \<le> r_consecutive_failures r \<and> r_consecutive_failures r \<le> r_failure_count r \<and> 0 \<le> r_success_count r
     \<and> (r_circuit_state r \<noteq> CLOSED \<longrightarrow> failure_threshold \<le> r_consecutive_failures r)
     \<and> (r_circuit_state r = OPEN \<longrightarrow> r_circuit_open_until r \<noteq> None)
     \<and> (failure_threshold \<le> r_consecutive_failures r \<longrightarrow> r_circuit_state r \<noteq> CLOSED)
     \<and> (\<forall>a. r_average_latency_ms r = Some a \<longrightarrow> 0 \<le> a)"

lemma record_success_inv: "runtime_inv r \<Longrightarrow> 0 \<le> latency \<Longrightarrow> runtime_inv (record_success r latency now)"
  by (auto simp: runtime_inv_def record_success_def Let_def failure_threshold_def dadd_def dmul_def
      split: option.splits)

lemma record_failure_inv: "runtime_inv r \<Longrightarrow> runtime_inv (record_failure p r code retry now)"
  by (auto simp: runtime_inv_def record_failure_def Let_def failure_threshold_def)

lemma circuit_open_inv: "runtime_inv r \<Longrightarrow> runtime_inv (snd (circuit_open r now))"
  by (auto simp: runtime_inv_def circuit_open_def split: option.splits)

lemma runtime_reach_inv: "runtime_reach p r \<Longrightarrow> runtime_inv r"
proof (induction rule: runtime_reach.induct)
  case (fresh pid iid)
  then show ?case
    by (simp add: runtime_inv_def fresh_runtime_def failure_threshold_def)
next
  case (status r st)
  then show ?case
    by (simp add: runtime_inv_def)
qed (auto intro: record_success_inv record_failure_inv circuit_open_inv)

lemma third_failure_opens:
  assumes "2 \<le> r_consecutive_failures r" "t < now + 60 * 1000000"
  shows "fst (circuit_open (record_failure p r code retry now) t)"
  using assms
  by (auto simp: circuit_open_def record_failure_def Let_def failure_threshold_def circuit_open_seconds_def
      seconds_def split: option.splits)

lemma half_open_after:
  assumes "runtime_inv r" "3 \<le> r_consecutive_failures r"
    and "\<forall>c. r_cooldown_until r = Some c \<longrightarrow> c \<le> t" "\<forall>u. r_circuit_open_until r = Some u \<longrightarrow> u \<le> t"
  shows "\<not> fst (circuit_open r t) \<and> snd (circuit_open r t) = r\<lparr>r_circuit_state := HALF_OPEN\<rparr>"
proof (cases "r_circuit_state r")
  case HALF_OPEN
  then have "r = r\<lparr>r_circuit_state := HALF_OPEN\<rparr>"
    by simp
  then show ?thesis
    using HALF_OPEN assms by (auto simp: circuit_open_def split: option.splits)
qed (use assms in \<open>auto simp: circuit_open_def runtime_inv_def failure_threshold_def split: option.splits\<close>)

section \<open>Facts about the request\<close>

lemma attempts_bound: "length (snd (attempts f base m n)) \<le> n - 1"
proof (induction n)
  case (Suc n)
  then show ?case
    by (cases "f (m - Suc n)"; cases n) (auto simp: Let_def)
qed simp

lemma attempts_delays: "d \<in> set (snd (attempts f base m n)) \<Longrightarrow> d \<le> 10"
  by (induction f base m n rule: attempts.induct)
    (auto simp: Let_def retry_delay_def split: sum.splits if_splits)

lemma attempts_trace:
  assumes "0 < n" "n \<le> m"
  shows "\<exists>k. m - n \<le> k \<and> k < m \<and> f k = fst (attempts f base m n)
     \<and> length (snd (attempts f base m n)) = k - (m - n)
     \<and> (\<forall>e. f k = Inl e \<longrightarrow> \<not> retryable e \<or> k + 1 = m)
     \<and> (\<forall>j. m - n \<le> j \<and> j < k \<longrightarrow> (\<exists>e. f j = Inl e \<and> retryable e))"
  using assms
proof (induction n)
  case (Suc n)
  show ?case
  proof (cases "\<exists>e. f (m - Suc n) = Inl e \<and> retryable e \<and> n \<noteq> 0")
    case False
    then show ?thesis
      using Suc.prems by (intro exI[of _ "m - Suc n"]) (auto simp: Let_def split: sum.splits)
  next
    case True
    then obtain e where e: "f (m - Suc n) = Inl e" "retryable e" "n \<noteq> 0"
      by blast
    then obtain k where k: "m - n \<le> k" "k < m" "f k = fst (attempts f base m n)"
        "length (snd (attempts f base m n)) = k - (m - n)"
        "\<forall>e. f k = Inl e \<longrightarrow> \<not> retryable e \<or> k + 1 = m"
        "\<forall>j. m - n \<le> j \<and> j < k \<longrightarrow> (\<exists>e. f j = Inl e \<and> retryable e)"
      using Suc.IH Suc.prems by auto
    have "\<exists>e. f j = Inl e \<and> retryable e" if "m - Suc n \<le> j" "j < k" for j
      using that e k(6) Suc.prems by (cases "j = m - Suc n") auto
    then show ?thesis
      using k(1-5) e Suc.prems by (intro exI[of _ k]) (auto simp: Let_def)
  qed
qed simp

lemma attempts_success:
  "fst (attempts f base m n) = Inr r \<Longrightarrow> n \<le> m \<Longrightarrow> \<exists>k. m - n \<le> k \<and> k < m \<and> f k = Inr r
      \<and> (\<forall>j. m - n \<le> j \<and> j < k \<longrightarrow> (\<exists>e. f j = Inl e \<and> retryable e))"
proof (induction f base m n rule: attempts.induct)
  case (2 f base m n)
  show ?case
  proof (cases "f (m - Suc n)")
    case (Inr x)
    then show ?thesis
      using 2(2,3) by (intro exI[of _ "m - Suc n"]) auto
  next
    case (Inl e)
    then have ne: "retryable e" "n \<noteq> 0" "fst (attempts f base m n) = Inr r"
      using 2(2) by (auto simp: Let_def split: if_splits)
    then obtain k where k: "m - n \<le> k" "k < m" "f k = Inr r"
        "\<forall>j. m - n \<le> j \<and> j < k \<longrightarrow> (\<exists>e. f j = Inl e \<and> retryable e)"
      using 2(1)[OF refl Inl] 2(3) by auto
    have "\<exists>e. f j = Inl e \<and> retryable e" if "m - Suc n \<le> j" "j < k" for j
    proof (cases "j = m - Suc n")
      case False
      then have "m - n \<le> j"
        using that(1) 2(3) by linarith
      with that(2) k(4) show ?thesis
        by blast
    qed (use Inl ne in auto)
    then show ?thesis
      using k(1-3) 2(3) by (intro exI[of _ k]) auto
  qed
qed simp

lemma digits_val_nonneg: "list_all is_digit ds \<Longrightarrow> 0 \<le> digits_val ds"
proof -
  have "list_all is_digit ds \<Longrightarrow> 0 \<le> a \<Longrightarrow> 0 \<le> foldl (\<lambda>a c. 10 * a + digit_val c) a ds" for a
    by (induction ds arbitrary: a) (auto simp: is_digit_def digit_val_def Let_def)
  then show "list_all is_digit ds \<Longrightarrow> 0 \<le> digits_val ds"
    by (simp add: digits_val_def)
qed

lemma isdigit_cases: "py_isdigit c \<Longrightarrow> \<not> is_space c \<and> c \<noteq> CHR ''-'' \<and> c \<noteq> CHR ''+'' \<and> c \<noteq> CHR ''_''"
  by (auto simp: py_isdigit_def is_digit_def is_space_def Let_def)

lemma strip_isdigit: "list_all py_isdigit s \<Longrightarrow> strip s = s"
proof -
  assume a: "list_all py_isdigit s"
  then have n: "\<not> is_space c" if "c \<in> set s" for c
    using that isdigit_cases by (auto simp: list_all_iff)
  have "dropWhile is_space s = s" "dropWhile is_space (rev s) = rev s"
    using n[OF hd_in_set] n[of "last s"] by (auto simp: dropWhile_eq_self_iff hd_rev)
  then show ?thesis
    by (simp add: strip_def)
qed

lemma split_sign_isdigit: "list_all py_isdigit s \<Longrightarrow> split_sign s = (1, s)"
  using isdigit_cases by (cases s) auto

lemma digits_plain: "list_all is_digit s \<Longrightarrow> s \<noteq> [] \<Longrightarrow> digits_with_underscores s"
  by (induction s rule: digits_with_underscores.induct) (auto simp: is_digit_def Let_def)

lemma parse_int_digits: "list_all is_digit s \<Longrightarrow> s \<noteq> [] \<Longrightarrow> parse_int s = Some (digits_val s)"
proof -
  assume a: "list_all is_digit s" "s \<noteq> []"
  then have "list_all py_isdigit s" "filter is_digit s = s"
    by (auto simp: py_isdigit_def list_all_iff)
  then show ?thesis
    using a by (simp add: parse_int_def strip_isdigit split_sign_isdigit digits_plain)
qed

lemma parse_int_isdigit: "list_all py_isdigit s \<Longrightarrow> parse_int s = Some n \<Longrightarrow> 0 \<le> n"
proof -
  assume a: "list_all py_isdigit s" "parse_int s = Some n"
  then have "n = digits_val (filter is_digit s)"
    by (auto simp: parse_int_def strip_isdigit split_sign_isdigit split: if_splits)
  then show ?thesis
    using digits_val_nonneg[of "filter is_digit s"] by (simp add: list_all_iff)
qed

lemma digits_val_Cons: "digits_val (c # s) = digit_val c * 10 ^ length s + digits_val s"
proof -
  have "foldl (\<lambda>a c. 10 * a + digit_val c) a s = a * 10 ^ length s + foldl (\<lambda>a c. 10 * a + digit_val c) 0 s" for a
  proof (induction s arbitrary: a)
    case (Cons x s)
    show ?case
      using Cons[of "10 * a + digit_val x"] Cons[of "digit_val x"] by (simp add: algebra_simps)
  qed simp
  from this[of "digit_val c"] show ?thesis
    by (simp add: digits_val_def)
qed

lemma zero_digit_val: "digit_val (CHR ''0'') = 0"
  by (simp add: digit_val_def)

lemma digits_val_lstrip: "digits_val (dropWhile (\<lambda>c. c = CHR ''0'') s) = digits_val s"
  by (induction s) (simp_all add: digits_val_Cons zero_digit_val)

lemma digits_val_lower:
  assumes "list_all is_digit (c # s)" "c \<noteq> CHR ''0''"
  shows "10 ^ length s \<le> digits_val (c # s)"
proof -
  have "of_char c \<noteq> (48 :: nat)"
    using assms(2) of_char_eq_iff[of c "CHR ''0''", where ?'a = nat] by simp
  then have "1 \<le> digit_val c"
    using assms(1) by (simp add: is_digit_def digit_val_def Let_def)
  moreover have "0 \<le> digits_val s"
    using assms(1) by (simp add: digits_val_nonneg)
  ultimately show ?thesis
    by (simp add: digits_val_Cons) (smt (verit) mult_le_cancel_right1 zero_le_power)
qed

lemma int_text_upper: "0 \<le> n \<Longrightarrow> n < 10 ^ length (int_text n)"
proof -
  have "0 \<le> n \<Longrightarrow> n < 10 ^ length (nat_text n)"
  proof (induction n rule: nat_text.induct)
    case (1 n)
    show ?case
    proof (cases "n < 10")
      case False
      then have "n div 10 < 10 ^ length (nat_text (n div 10))"
        using 1 by simp
      then have "n div 10 + 1 \<le> 10 ^ length (nat_text (n div 10))"
        by simp
      moreover have "n < 10 * (n div 10 + 1)"
        by simp
      ultimately show ?thesis
        using False nat_text.simps[of n] by (simp add: mult.commute)
    qed (use nat_text.simps[of n] in simp)
  qed
  then show "0 \<le> n \<Longrightarrow> n < 10 ^ length (int_text n)"
    by (simp add: int_text_def)
qed

lemma zero_is_digit: "is_digit (CHR ''0'')"
  by (simp add: is_digit_def)

lemma zero_digits_val: "digits_val ''0'' = 0" "digits_val [] = 0"
  by (simp_all add: digits_val_def zero_digit_val)

lemma list_all_lstrip: "list_all P s \<Longrightarrow> list_all P (dropWhile Q s)"
  by (induction s) auto

lemma int_text_nonempty: "int_text n \<noteq> []"
proof -
  have "nat_text k \<noteq> []" for k
    by (subst nat_text.simps) simp
  then show ?thesis
    by (simp add: int_text_def)
qed

lemma parse_retry_after_digits:
  assumes "ds \<noteq> []" "list_all is_digit ds" "0 \<le> maximum"
  shows "parse_retry_after parse_date (Some ds) now maximum = Inr (Some (min maximum (digits_val ds)))"
proof -
  let ?st = "dropWhile (\<lambda>c. c = CHR ''0'') ds"
  let ?d = "if ?st = [] then ''0'' else ?st"
  have isd: "list_all py_isdigit ds"
    using assms(2) by (auto simp: py_isdigit_def list_all_iff)
  have "list_all is_digit ?st"
    using assms(2) by (rule list_all_lstrip)
  then have ds: "list_all is_digit ?d" "?d \<noteq> []" "digits_val ?d = digits_val ds"
    using digits_val_lstrip[of ds] zero_is_digit zero_digits_val by (cases "?st = []"; simp del: dropWhile_eq_Nil_conv)+
  have big: "maximum \<le> digits_val ds" if long: "length (int_text maximum) < length ?d"
  proof -
    have "length (int_text maximum) \<noteq> 0"
      by (simp add: int_text_nonempty)
    with long have "?st \<noteq> []"
      by (auto simp del: dropWhile_eq_Nil_conv split: if_splits)
    then obtain c s where st: "?st = c # s"
      by (cases ?st) auto
    with long have len: "length (int_text maximum) \<le> length s"
      by simp
    have "c \<noteq> CHR ''0''"
      using hd_dropWhile[of "\<lambda>c. c = CHR ''0''" ds] st by simp
    then have "10 ^ length s \<le> digits_val ds"
      using digits_val_lower[of c s] ds(1,3) st by simp
    moreover have "maximum < 10 ^ length (int_text maximum)"
      using assms(3) by (rule int_text_upper)
    moreover have "(10 :: int) ^ length (int_text maximum) \<le> 10 ^ length s"
      using len by (simp add: power_increasing)
    ultimately show ?thesis
      by linarith
  qed
  have "parse_int ?d = Some (digits_val ds)"
    using parse_int_digits[OF ds(1,2)] ds(3) by simp
  then have val: "py_int (PStr ?d) = Inr (digits_val ds)"
    by (simp del: dropWhile_eq_Nil_conv)
  have "parse_retry_after parse_date (Some ds) now maximum =
      (if length ?d > length (int_text maximum) then Inr (Some maximum)
       else ebind (py_int (PStr ?d)) (\<lambda>n. Inr (Some (min maximum n))))"
    unfolding parse_retry_after_def Let_def using assms(1) isd strip_isdigit[OF isd]
    by (simp only: option.case if_True if_False simp_thms)
  also have "\<dots> = Inr (Some (min maximum (digits_val ds)))"
  proof (cases "length ?d > length (int_text maximum)")
    case True
    then show ?thesis
      using big by (simp only: if_True min.absorb1)
  next
    case False
    then show ?thesis
      by (simp only: if_False val ebind_simps)
  qed
  finally show ?thesis .
qed

lemma parse_retry_after_range:
  assumes "parse_retry_after parse_date v now maximum = Inr (Some n)" "0 \<le> maximum"
  shows "0 \<le> n \<and> n \<le> maximum"
proof -
  have ge: "0 \<le> k" if "list_all py_isdigit s" "parse_int (let st = dropWhile (\<lambda>c. c = CHR ''0'') s in
      if st = [] then ''0'' else st) = Some k" for s k
  proof (rule parse_int_isdigit[OF _ that(2)])
    show "list_all py_isdigit (let st = dropWhile (\<lambda>c. c = CHR ''0'') s in if st = [] then ''0'' else st)"
      using list_all_lstrip[OF that(1)] zero_is_digit by (simp add: Let_def py_isdigit_def)
  qed
  obtain s where s: "v = Some s" "strip s \<noteq> []"
    using assms(1) by (auto simp: parse_retry_after_def Let_def split: option.splits if_splits)
  show ?thesis
  proof (cases "list_all py_isdigit (strip s)")
    case True
    show ?thesis
      using assms s True ge[OF True]
      by (auto simp: parse_retry_after_def Let_def err_simps simp del: dropWhile_eq_Nil_conv
          split: option.splits if_split_asm)
  next
    case False
    then show ?thesis
      using assms s by (auto simp: parse_retry_after_def Let_def split: option.splits)
  qed
qed

section \<open>Facts about the collector\<close>

lemma boundaries_metadata:
  "provider_freshness_boundaries (q\<lparr>q_metadata := m\<rparr>) p i = provider_freshness_boundaries q p i"
  "provider_freshness_boundaries (q\<lparr>q_id := n, q_persistence_status := st\<rparr>) p i = provider_freshness_boundaries q p i"
  by (simp_all add: provider_freshness_boundaries_def)

lemma cache_status_live:
  "cache_status (Some q) p i now = Some FLive \<longleftrightarrow>
     q_validation_status q = ACCEPTED \<and> q_price q \<noteq> None
     \<and> (\<exists>b. provider_freshness_boundaries q p i = Inr b \<and> now \<le> fb_live_eligible_until b)"
  by (auto simp: cache_status_def status_at_cases split: sum.splits)

text \<open>A usable provider quote: stored, accepted, priced and live at that time.\<close>

definition usable_quote :: "provider_definition \<Rightarrow> instrument_definition \<Rightarrow> instant \<Rightarrow> provider_quote \<Rightarrow> bool" where
  "usable_quote p i now q \<longleftrightarrow> q_persistence_status q = PERSISTED \<and> cache_status (Some q) p i now = Some FLive"

lemma cached_usable:
  assumes "live_stored c (cache_status c p i now)" "apply_current_live_boundary (the c) p i = Inr q"
  shows "usable_quote p i now q"
  using assms
  by (auto simp: live_stored_def usable_quote_def cache_status_live apply_current_live_boundary_def
      err_simps boundaries_metadata split: option.splits)

lemma fail_call_outcome:
  assumes "fail_call env p purpose i rt code st retry w = Inr (oc, w')"
  shows "\<not> oc_usable oc" "oc_external_called oc" "\<not> oc_from_fresh_cache oc"
  using assms by (auto simp: fail_call_def Let_def err_simps)

lemma accept_call_usable:
  assumes "accept_call env p purpose i rt q w = Inr (oc, w')" "oc_usable oc"
  shows "\<exists>x. oc_quote oc = Some x \<and> usable_quote p i (e_received env) x"
proof (cases "cache_retention (e_instruments env)
    (fst (snd (persist_provider_quote (e_db_up env) (e_queue_up env) (w_db w) q)))
    (p_operational_ttl_seconds p) (e_received env)")
  case (Inl e)
  have False
    using assms Inl by (cases e) (auto simp: accept_call_def Let_def dest: fail_call_outcome(1))
  then show ?thesis ..
next
  case (Inr n)
  then show ?thesis
    using assms
    by (auto simp: accept_call_def Let_def persist_provider_quote_def usable_quote_def cache_status_live
        boundaries_metadata split: if_splits)
qed

lemma accept_call_fresh:
  assumes "accept_call env p purpose i rt q w = Inr (oc, w')"
  shows "\<not> oc_from_fresh_cache oc"
  using assms
  by (auto simp: accept_call_def Let_def dest: fail_call_outcome(3) split: sum.splits py_error.splits)

lemma call_and_parse_usable:
  assumes "call_and_parse env p purpose rt i w = Inr (oc, w')" "oc_usable oc"
  shows "\<exists>x. oc_quote oc = Some x \<and> usable_quote p i (e_received env) x"
  using assms accept_call_usable fail_call_outcome(1)
  by (fastforce simp: call_and_parse_def split: sum.splits call_error.splits py_error.splits)

lemma call_and_parse_fresh:
  assumes "call_and_parse env p purpose rt i w = Inr (oc, w')"
  shows "\<not> oc_from_fresh_cache oc"
  using assms fail_call_outcome(3) accept_call_fresh
  by (fastforce simp: call_and_parse_def split: sum.splits call_error.splits py_error.splits)

lemma locked_quote_cases:
  assumes "locked_quote env p purpose i rt cached cs w = Inr (oc, w')"
  obtains (cached) c q where "live_stored c (cache_status c p i (e_now env))"
      "apply_current_live_boundary (the c) p i = Inr q" "oc = cached_outcome q"
    | (refused) "\<not> oc_usable oc" "\<not> oc_external_called oc"
    | (called) decision s' where
      "consume (e_ops env) (w_redis w) (e_instrument_budgets env) p purpose (e_unix_time env) = Inr (decision, s')"
      "bd_allowed decision" "call_and_parse env p purpose rt i (w\<lparr>w_redis := s'\<rparr>) = Inr (oc, w')"
proof (cases "live_stored (w_cache w (runtime_key p)) (cache_status (w_cache w (runtime_key p)) p i (e_now env))")
  case True
  then show ?thesis
    using assms cached by (auto simp: locked_quote_def Let_def err_simps)
next
  case False
  then obtain decision s' where c: "consume (e_ops env) (w_redis w) (e_instrument_budgets env) p purpose
        (e_unix_time env) = Inr (decision, s')"
    using assms by (auto simp: locked_quote_def Let_def err_simps)
  show ?thesis
  proof (cases "bd_allowed decision")
    case True
    then show ?thesis
      using assms False c called by (auto simp: locked_quote_def Let_def)
  next
    case nb: False
    then show ?thesis
      using assms False c refused by (auto simp: locked_quote_def Let_def idle_outcome_def)
  qed
qed

text \<open>The runtime record a call starts from, and the four ways a call can end.\<close>

definition runtime_of :: "provider_definition \<Rightarrow> 's pworld \<Rightarrow> provider_runtime_state" where
  "runtime_of p w = (case w_runtime w (runtime_key p) of
     None \<Rightarrow> fresh_runtime (p_provider_id p) (p_instrument_id p) | Some r \<Rightarrow> r)"

lemma quote_cases:
  assumes "quote env p purpose i w = Inr (oc, w')"
  obtains (cached) c q where "p_enabled p" "configured p (e_settings env)"
      "live_stored c (cache_status c p i (e_now env))"
      "apply_current_live_boundary (the c) p i = Inr q" "oc = cached_outcome q"
      "w' = put_runtime p ((runtime_of p w)\<lparr>r_operational_status := ''fresh_cache''\<rparr>) w"
    | (idle) rt where "\<not> oc_usable oc" "\<not> oc_external_called oc" "w' = put_runtime p rt w"
        "rt = (runtime_of p w)\<lparr>r_operational_status := ''disabled''\<rparr>
         \<or> rt = (runtime_of p w)\<lparr>r_operational_status := ''disabled_missing_key'',
                 r_last_error_code := Some ''missing_key''\<rparr>
         \<or> rt = (snd (circuit_open (runtime_of p w) (e_now env)))\<lparr>r_operational_status := ''circuit_open''\<rparr>"
    | (busy) s' where "\<not> oc_usable oc" "\<not> oc_external_called oc" "w' = (e_interleave env w)\<lparr>w_redis := s'\<rparr>"
    | (locked) l s' w2 where "p_enabled p" "configured p (e_settings env)"
        "\<not> live_stored (w_cache w (runtime_key p)) (cache_status (w_cache w (runtime_key p)) p i (e_now env))"
        "\<not> fst (circuit_open (runtime_of p w) (e_now env))"
        "acquire (e_ops env) (w_redis (e_interleave env w))
           (provider_lock_key (p_provider_id p) (p_instrument_id p)) 15000 (e_owner env) = Inr (Some l, s')"
        "locked_quote env p purpose i (snd (circuit_open (runtime_of p w) (e_now env)))
           (w_cache w (runtime_key p)) (cache_status (w_cache w (runtime_key p)) p i (e_now env))
           ((e_interleave env w)\<lparr>w_redis := s'\<rparr>) = Inr (oc, w2)"
        "w' = w2\<lparr>w_redis := snd (release (e_ops env) (w_redis w2) l)\<rparr>"
proof -
  let ?c = "w_cache w (runtime_key p)" and ?rt = "runtime_of p w"
  let ?cs = "cache_status ?c p i (e_now env)"
  note q = assms[unfolded quote_def runtime_of_def[symmetric] Let_def]
  consider "\<not> p_enabled p" | "p_enabled p" "\<not> configured p (e_settings env)"
    | "p_enabled p" "configured p (e_settings env)" "live_stored ?c ?cs"
    | "p_enabled p" "configured p (e_settings env)" "\<not> live_stored ?c ?cs" "fst (circuit_open ?rt (e_now env))"
    | "p_enabled p" "configured p (e_settings env)" "\<not> live_stored ?c ?cs" "\<not> fst (circuit_open ?rt (e_now env))"
    by blast
  then show ?thesis
  proof cases
    case 1
    then show ?thesis
      using q by (intro idle) (auto simp: idle_outcome_def)
  next
    case 2
    then show ?thesis
      using q by (intro idle) (auto simp: idle_outcome_def)
  next
    case 3
    then show ?thesis
      using q cached by (auto simp: err_simps)
  next
    case 4
    then show ?thesis
      using q by (intro idle) (auto simp: idle_outcome_def)
  next
    case 5
    let ?a = "acquire (e_ops env) (w_redis (e_interleave env w))
           (provider_lock_key (p_provider_id p) (p_instrument_id p)) 15000 (e_owner env)"
    from 5 q obtain o1 s' where a: "?a = Inr (o1, s')"
      by (auto split: sum.splits)
    show ?thesis
    proof (cases o1)
      case None
      then show ?thesis
        using 5 q a by (intro busy) (auto simp: idle_outcome_def)
    next
      case (Some l)
      then show ?thesis
        using 5 q a by (auto simp: err_simps intro: locked)
    qed
  qed
qed

definition stamped :: "provider_definition \<Rightarrow> instrument_definition \<Rightarrow> provider_quote \<Rightarrow> bool" where
  "stamped p i q \<longleftrightarrow> (\<exists>b. provider_freshness_boundaries q p i = Inr b
     \<and> q_metadata q ''effective_live_eligible_until'' = Some (PIso (fb_live_eligible_until b)))"

lemma apply_boundary_stamped: "apply_current_live_boundary q p i = Inr q' \<Longrightarrow> stamped p i q'"
  by (auto simp: stamped_def apply_current_live_boundary_def err_simps boundaries_metadata)

lemma lift_py_Inr [err_simps]: "lift_py status r = Inr x \<longleftrightarrow> r = Inr x"
  by (simp add: lift_py_def split: sum.splits)

lemma build_quote_stamped: "build_quote env p purpose i = Inr q \<Longrightarrow> stamped p i q"
  by (auto simp: build_quote_def Let_def err_simps intro: apply_boundary_stamped)

lemma accept_call_stamped:
  assumes "accept_call env p purpose i rt q w = Inr (oc, w')" "oc_usable oc" "stamped p i q"
  shows "\<exists>x. oc_quote oc = Some x \<and> stamped p i x"
proof (cases "cache_retention (e_instruments env)
    (fst (snd (persist_provider_quote (e_db_up env) (e_queue_up env) (w_db w) q)))
    (p_operational_ttl_seconds p) (e_received env)")
  case (Inl e)
  then have False
    using assms by (cases e) (auto simp: accept_call_def Let_def dest: fail_call_outcome(1))
  then show ?thesis ..
next
  case (Inr n)
  then show ?thesis
    using assms
    by (auto simp: accept_call_def Let_def persist_provider_quote_def stamped_def boundaries_metadata
        split: if_splits)
qed

lemma call_and_parse_stamped:
  assumes "call_and_parse env p purpose rt i w = Inr (oc, w')" "oc_usable oc"
  shows "\<exists>x. oc_quote oc = Some x \<and> stamped p i x"
proof (cases "build_quote env p purpose i")
  case (Inr q)
  then show ?thesis
    using assms accept_call_stamped build_quote_stamped by (fastforce simp: call_and_parse_def)
next
  case (Inl e)
  then have False
    using assms fail_call_outcome(1)
    by (fastforce simp: call_and_parse_def split: call_error.splits py_error.splits)
  then show ?thesis ..
qed

section \<open>Facts about the stored state\<close>

definition db_inv :: "quote_db \<Rightarrow> bool" where
  "db_inv db \<longleftrightarrow> distinct (map fst (qd_rows db)) \<and> distinct (map snd (qd_rows db))
     \<and> (\<forall>n\<in>snd ` set (qd_rows db). n < qd_next db)"

definition world_inv :: "'s pworld \<Rightarrow> bool" where
  "world_inv w \<longleftrightarrow> (\<forall>k r. w_runtime w k = Some r \<longrightarrow> runtime_inv r) \<and> db_inv (w_db w)"

lemma runtime_inv_status [simp]:
  "runtime_inv (r\<lparr>r_operational_status := st\<rparr>) = runtime_inv r"
  "runtime_inv (r\<lparr>r_operational_status := st, r_last_error_code := c\<rparr>) = runtime_inv r"
  by (simp_all add: runtime_inv_def)

lemma fresh_runtime_inv: "runtime_inv (fresh_runtime pid iid)"
  by (simp add: runtime_inv_def fresh_runtime_def failure_threshold_def)

lemma runtime_of_inv: "world_inv w \<Longrightarrow> runtime_inv (runtime_of p w)"
  by (simp add: world_inv_def runtime_of_def runtime_key_def fresh_runtime_inv split: option.split)

lemma world_inv_redis [simp]: "world_inv (w\<lparr>w_redis := s\<rparr>) = world_inv w"
  by (simp add: world_inv_def)

lemma world_inv_cache [simp]: "world_inv (w\<lparr>w_cache := c\<rparr>) = world_inv w"
  by (simp add: world_inv_def)

lemma put_runtime_inv: "world_inv w \<Longrightarrow> runtime_inv r \<Longrightarrow> world_inv (put_runtime p r w)"
  by (simp add: world_inv_def put_runtime_def)

lemma store_quote_row_inv: "db_inv db \<Longrightarrow> db_inv (snd (store_quote_row db q))"
  by (auto simp: db_inv_def store_quote_row_def map_of_eq_None_iff split: option.splits)

lemma persist_inv: "world_inv w \<Longrightarrow> world_inv (w\<lparr>w_db := snd (snd (persist_provider_quote up qu (w_db w) q))\<rparr>)"
  by (simp add: world_inv_def persist_provider_quote_def Let_def store_quote_row_inv)

lemma fail_call_inv:
  assumes "fail_call env p purpose i rt code st retry w = Inr (oc, w')" "world_inv w" "runtime_inv rt"
  shows "world_inv w'"
  using assms by (auto simp: fail_call_def Let_def err_simps intro!: put_runtime_inv persist_inv record_failure_inv)

lemma accept_call_inv:
  assumes "accept_call env p purpose i rt q w = Inr (oc, w')" "world_inv w" "runtime_inv rt" "0 \<le> e_latency_ms env"
  shows "world_inv w'"
proof (cases "cache_retention (e_instruments env)
    (fst (snd (persist_provider_quote (e_db_up env) (e_queue_up env) (w_db w) q)))
    (p_operational_ttl_seconds p) (e_received env)")
  case (Inl e)
  then show ?thesis
    using assms by (cases e) (auto simp: accept_call_def Let_def intro: fail_call_inv persist_inv)
next
  case (Inr n)
  then show ?thesis
    using assms by (auto simp: accept_call_def Let_def intro!: put_runtime_inv persist_inv record_success_inv)
qed

lemma call_and_parse_inv:
  assumes "call_and_parse env p purpose rt i w = Inr (oc, w')" "world_inv w" "runtime_inv rt" "0 \<le> e_latency_ms env"
  shows "world_inv w'"
  using assms
  by (auto simp: call_and_parse_def split: sum.splits call_error.splits py_error.splits if_splits
      elim!: fail_call_inv accept_call_inv)

lemma locked_quote_inv:
  assumes "locked_quote env p purpose i rt cached cs w = Inr (oc, w')" "world_inv w" "runtime_inv rt"
    "0 \<le> e_latency_ms env"
  shows "world_inv w'"
  using assms
  by (auto simp: locked_quote_def Let_def err_simps split: if_splits
      intro!: put_runtime_inv elim!: call_and_parse_inv)

section \<open>An example environment\<close>

text \<open>A provider whose address is refused, an empty Redis and a cache with or without a live quote.\<close>

definition example_url :: url_parts where
  "example_url = \<lparr>url_scheme = [], url_hostname = [], url_username = [], url_password = [], url_query = []\<rparr>"

definition example_env :: "(ttl_store, unit) penv" where
  "example_env = \<lparr>e_ops = ttl_ops, e_settings = Map.empty, e_instruments = [example_instrument],
     e_instrument_budgets = [''BTC_USD'' \<mapsto> \<lparr>ib_requests_per_minute = 20, ib_requests_per_hour = 500,
       ib_importance = 9, ib_maximum_verification_depth = 3\<rparr>],
     e_urlparse = (\<lambda>_. example_url), e_parse_date = Map.empty, e_http = (\<lambda>_ _ _ _ _. Inl ()),
     e_parser_version = (\<lambda>_. ''1''), e_parse = (\<lambda>_ _ _ _ _. Inl (ParserErr ''invalid_payload'')),
     e_db_up = True, e_queue_up = True, e_owner = ''o'', e_interleave = (\<lambda>w. w), e_now = 3000000,
     e_received = 4000000, e_unix_time = 0, e_latency_ms = 10, e_max_retries = 2, e_backoff_base = 1/2,
     e_max_response_bytes = 262144\<rparr>"

definition example_world :: "provider_quote option \<Rightarrow> ttl_store pworld" where
  "example_world cached = \<lparr>w_redis = \<lparr>st_now = 0, st_data = Map.empty\<rparr>, w_cache = (\<lambda>_. cached),
     w_runtime = Map.empty, w_db = \<lparr>qd_rows = [], qd_next = 1\<rparr>\<rparr>"

lemma example_boundaries:
  "provider_freshness_boundaries (example_quote x) example_provider example_instrument = Inr
     \<lparr>fb_cache_retention_until = 1802000000, fb_live_eligible_until = 361000000,
      fb_stale_display_until = 901000000, fb_expired_after = 1801000000\<rparr>"
  by (simp add: provider_freshness_boundaries_def example_quote_def raw_quote_def example_quote_args_def
      default_args_def example_instrument_def example_provider_def or_int_def freshness_policy_post_init_def
      default_future_clock_skew_seconds_def time_simps seconds_def)

lemma example_allowed:
  "configured example_provider (e_settings example_env)" "p_enabled example_provider"
  by (simp_all add: configured_def example_provider_def example_env_def starts_with_def)

lemma example_rejected_ok:
  "is_ok (provider_quote_create (rejected_args example_env example_provider FOR_ANOMALY example_instrument
     ''invalid_provider_url'' None))"
  by (simp add: provider_quote_create_def rejected_args_def default_args_def example_env_def
      example_provider_def example_instrument_def
      decimal_or_none_def decimal_value_def seconds_def default_future_clock_skew_seconds_def
      normalize_source_provenance_def raw_quote_def dict_get_def or_val_def first_of_def
      enum_of_def source_semantics_def text_value_def strip_def is_space_def price_semantics_def
      source_spread_def depth_of_def ddiv_def list_items_def upper_def upper_char_def
      infer_price_semantic_def Let_def)

lemma example_cached_quote:
  "\<exists>oc w'. quote example_env example_provider FOR_NORMAL example_instrument
      (example_world (Some (example_quote 60000))) = Inr (oc, w') \<and> oc_usable oc \<and> oc_from_fresh_cache oc"
proof -
  have "cache_status (Some (example_quote 60000)) example_provider example_instrument (e_now example_env) = Some FLive"
    by (simp add: cache_status_live example_boundaries example_env_def)
  then show ?thesis
    by (simp add: quote_def Let_def example_allowed example_world_def live_stored_def
        apply_current_live_boundary_def example_boundaries cached_outcome_def)
qed

lemma example_consume:
  assumes "acquire ttl_ops \<lparr>st_now = 0, st_data = Map.empty\<rparr> key 15000 owner = Inr (Some l, s')"
    and "\<not> starts_with ''pricing:budget'' key" "key \<noteq> cooldown_key ''p''"
  shows "\<exists>d s''. consume ttl_ops s' (e_instrument_budgets example_env) example_provider FOR_ANOMALY 0 = Inr (d, s'')
    \<and> bd_allowed d"
proof -
  have g: "rd_get ttl_ops s' k = (if k = key then Some (RText owner) else None)" for k
    using assms(1) by (auto simp: acquire_def st_simps st_entry_def st_put_def split: if_splits)
  have cd: "cooldown_remaining ttl_ops s' ''p'' \<le> 0"
    using g[of "cooldown_key ''p''"] assms(3) ttl.ttl_positive_iff[of s' "cooldown_key ''p''"]
    by (fastforce simp: cooldown_remaining_def)
  have free: "rd_get ttl_ops s' k = None" if "(k, x, t) \<in> set example_items" for k x t
    using that assms(2) g by (auto simp: example_items_eq starts_with_def)
  have di: "distinct (map fst example_items)"
    and nu: "\<forall>(k, x, t)\<in>set example_items. numeric (rd_get ttl_ops s' k) \<and> 0 < t"
    using free by (fastforce simp: example_items_eq numeric_def)+
  obtain ok n s'' where r: "consume_script ttl_ops s' example_items = Inr (ok, n, s'')"
    using ttl.consume_script_total[OF di nu] by blast
  moreover have ok
  proof (rule ccontr)
    assume "\<not> ok"
    then obtain k x t where "(k, x, t) \<in> set example_items" "x \<le> count_of (rd_get ttl_ops s' k)"
      using ttl.consume_script_outcome[OF di nu r] by fastforce
    then show False
      using free[of k x t] by (auto simp: count_of_def example_items_eq)
  qed
  ultimately show ?thesis
    using cd by (simp add: consume_def Let_def example_provider_def example_budget_def example_env_def
        provider_limits_def example_items_def)
qed

section \<open>Properties\<close>

lemma quote_usable:
  assumes "quote env p purpose i w = Inr (oc, w')" "oc_usable oc"
  shows "p_enabled p \<and> configured p (e_settings env)
    \<and> (\<exists>q b. oc_quote oc = Some q \<and> q_validation_status q = ACCEPTED \<and> q_price q \<noteq> None
        \<and> q_persistence_status q = PERSISTED \<and> provider_freshness_boundaries q p i = Inr b
        \<and> q_metadata q ''effective_live_eligible_until'' = Some (PIso (fb_live_eligible_until b))
        \<and> (if oc_from_fresh_cache oc then e_now env else e_received env) \<le> fb_live_eligible_until b)"
proof -
  have conclude: ?thesis
    if "p_enabled p" "configured p (e_settings env)" "oc_quote oc = Some q" "stamped p i q"
      "usable_quote p i (if oc_from_fresh_cache oc then e_now env else e_received env) q" for q
    using that by (auto simp: stamped_def usable_quote_def cache_status_live)
  have from_cache: ?thesis
    if "p_enabled p" "configured p (e_settings env)" "live_stored c (cache_status c p i (e_now env))"
      "apply_current_live_boundary (the c) p i = Inr q" "oc = cached_outcome q" for c q
    using that cached_usable[OF that(3,4)] apply_boundary_stamped[OF that(4)]
    by (intro conclude[of q]) (auto simp: cached_outcome_def)
  from assms(1) show ?thesis
  proof (cases rule: quote_cases)
    case (cached c q)
    then show ?thesis
      by (intro from_cache)
  next
    case (locked l s' w2)
    from locked(6) show ?thesis
    proof (cases rule: locked_quote_cases)
      case (cached c q)
      then show ?thesis
        using locked by (intro from_cache)
    next
      case (called decision s'')
      obtain x where x: "oc_quote oc = Some x" "usable_quote p i (e_received env) x"
        using call_and_parse_usable[OF called(3) assms(2)] by blast
      moreover have "stamped p i x"
        using call_and_parse_stamped[OF called(3) assms(2)] x(1) by simp
      moreover have "\<not> oc_from_fresh_cache oc"
        using call_and_parse_fresh[OF called(3)] .
      ultimately show ?thesis
        using locked by (intro conclude[of x]) auto
    qed (use assms in simp)
  qed (use assms in auto)
qed

text \<open>Claim C25. A provider quote the collector reports as usable comes from an enabled and configured provider,
  is accepted, priced and stored, carries its own live boundary, and had not passed that boundary at the
  time it was read from the cache or received from the provider.\<close>

theorem quote_usable_sound:
  assumes "quote env p purpose i w = Inr (oc, w')" "oc_usable oc"
  shows "p_enabled p \<and> configured p (e_settings env)
    \<and> (\<exists>q b. oc_quote oc = Some q \<and> q_validation_status q = ACCEPTED \<and> q_price q \<noteq> None
        \<and> q_persistence_status q = PERSISTED \<and> provider_freshness_boundaries q p i = Inr b
        \<and> q_metadata q ''effective_live_eligible_until'' = Some (PIso (fb_live_eligible_until b))
        \<and> (if oc_from_fresh_cache oc then e_now env else e_received env) \<le> fb_live_eligible_until b)"
  by (rule quote_usable[OF assms])

theorem quote_usable_sound_witness:
  "\<exists>(oc :: quote_fetch_outcome) w' q b. quote example_env example_provider FOR_NORMAL example_instrument
       (example_world (Some (example_quote 60000))) = Inr (oc, w')
     \<and> oc_quote oc = Some q \<and> oc_usable oc
     \<and> provider_freshness_boundaries q example_provider example_instrument = Inr b
     \<and> e_now example_env \<le> fb_live_eligible_until b"
proof -
  obtain oc w' where q: "quote example_env example_provider FOR_NORMAL example_instrument
      (example_world (Some (example_quote 60000))) = Inr (oc, w')" "oc_usable oc" "oc_from_fresh_cache oc"
    using example_cached_quote by blast
  then show ?thesis
    using quote_usable_sound [OF q(1,2)] by auto
qed

text \<open>Claim C17. The outside world is asked only when every guard allows it: the provider is enabled and configured,
  no stored live quote is in the cache, the circuit is not open, this process holds the provider's lease
  and the request budget granted the call.\<close>

theorem external_call_guarded:
  assumes "quote env p purpose i w = Inr (oc, w')" "oc_external_called oc"
  shows "p_enabled p \<and> configured p (e_settings env)
    \<and> \<not> live_stored (w_cache w (runtime_key p)) (cache_status (w_cache w (runtime_key p)) p i (e_now env))
    \<and> \<not> fst (circuit_open (runtime_of p w) (e_now env))
    \<and> (\<exists>l s' decision s''.
        acquire (e_ops env) (w_redis (e_interleave env w))
          (provider_lock_key (p_provider_id p) (p_instrument_id p)) 15000 (e_owner env) = Inr (Some l, s')
        \<and> consume (e_ops env) s' (e_instrument_budgets env) p purpose (e_unix_time env) = Inr (decision, s'')
        \<and> bd_allowed decision)"
  using assms(1)
proof (cases rule: quote_cases)
  case (locked l s' w2)
  from locked(6) show ?thesis
  proof (cases rule: locked_quote_cases)
    case (called decision s'')
    then show ?thesis
      using locked by auto
  qed (use assms in \<open>auto simp: cached_outcome_def\<close>)
qed (use assms in \<open>auto simp: cached_outcome_def\<close>)

lemma example_called:
  "\<exists>oc w'. quote example_env example_provider FOR_ANOMALY example_instrument (example_world None) = Inr (oc, w')
     \<and> oc_external_called oc"
proof -
  let ?key = "provider_lock_key ''p'' ''BTC_USD''" and ?s = "\<lparr>st_now = 0, st_data = Map.empty\<rparr>"
  obtain l s' where a: "acquire ttl_ops ?s ?key 15000 ''o'' = Inr (Some l, s')"
    by (simp add: acquire_def st_simps st_entry_def Let_def)
  have k: "\<not> starts_with ''pricing:budget'' ?key" "?key \<noteq> cooldown_key ''p''"
    by (simp_all add: provider_lock_key_def cooldown_key_def starts_with_def)
  obtain d s'' where c: "consume ttl_ops s' (e_instrument_budgets example_env) example_provider FOR_ANOMALY 0
      = Inr (d, s'')" "bd_allowed d"
    using example_consume[OF a k] by blast
  have b: "build_quote example_env example_provider FOR_ANOMALY example_instrument
      = Inl (CallFailure ''invalid_provider_url'' None None)"
    by (simp add: build_quote_def request_payload_def request_credentials_def validate_destination_def
        example_env_def example_url_def Let_def)
  have f: "\<exists>oc w2. fail_call example_env example_provider FOR_ANOMALY example_instrument rt
      ''invalid_provider_url'' None None w = Inr (oc, w2) \<and> oc_external_called oc" for rt w
    using example_rejected_ok unfolding is_ok_iff by (auto simp: fail_call_def Let_def)
  then obtain oc w2 where fc: "locked_quote example_env example_provider FOR_ANOMALY example_instrument
      (fresh_runtime ''p'' ''BTC_USD'') None None ((example_world None)\<lparr>w_redis := s'\<rparr>) = Inr (oc, w2)"
      "oc_external_called oc"
    using c b
    by (fastforce simp: locked_quote_def Let_def example_world_def live_stored_def call_and_parse_def
        example_env_def)
  have "circuit_open (fresh_runtime ''p'' ''BTC_USD'') 3000000 = (False, fresh_runtime ''p'' ''BTC_USD'')"
    by (simp add: circuit_open_def fresh_runtime_def)
  then show ?thesis
    using a fc
    by (simp add: quote_def Let_def example_allowed live_stored_def cache_status_def)
      (simp add: example_world_def example_env_def example_provider_def)
qed

theorem external_call_guarded_witness:
  "\<exists>oc w'. quote example_env example_provider FOR_ANOMALY example_instrument (example_world None) = Inr (oc, w')
     \<and> oc_external_called oc \<and> \<not> fst (circuit_open (runtime_of example_provider (example_world None)) 3000000)"
proof -
  obtain oc w' where q: "quote example_env example_provider FOR_ANOMALY example_instrument (example_world None)
      = Inr (oc, w')" "oc_external_called oc"
    using example_called by blast
  then show ?thesis
    using external_call_guarded [OF q] by (auto simp: example_env_def)
qed

text \<open>Claim C30. The circuit breaker works as a breaker over every history of a provider's runtime record.
  While fewer than three calls in a row have failed and no rate limit is pending the provider may be called;
  the third failure in a row refuses every call for sixty seconds; after that, once any cooldown is over,
  one call is let through on a half-open circuit, whose failure opens the circuit for another sixty seconds
  and whose success closes it.\<close>

theorem circuit_breaker_cycle:
  assumes "runtime_reach p r"
  shows "(r_consecutive_failures r < 3 \<and> r_cooldown_until r = None \<longrightarrow> \<not> fst (circuit_open r t))
    \<and> (2 \<le> r_consecutive_failures r \<and> t < now + 60 * 1000000 \<longrightarrow>
        fst (circuit_open (record_failure p r code retry now) t))
    \<and> (3 \<le> r_consecutive_failures r \<and> (\<forall>c. r_cooldown_until r = Some c \<longrightarrow> c \<le> t)
         \<and> (\<forall>u. r_circuit_open_until r = Some u \<longrightarrow> u \<le> t) \<longrightarrow>
        \<not> fst (circuit_open r t) \<and> r_circuit_state (snd (circuit_open r t)) = HALF_OPEN
        \<and> (t' < now + 60 * 1000000 \<longrightarrow>
            fst (circuit_open (record_failure p (snd (circuit_open r t)) code retry now) t'))
        \<and> r_circuit_state (record_success (snd (circuit_open r t)) latency now) = CLOSED
        \<and> (t \<le> t' \<longrightarrow> \<not> fst (circuit_open (record_success (snd (circuit_open r t)) latency now) t')))"
proof -
  have inv: "runtime_inv r"
    using assms by (rule runtime_reach_inv)
  have closed: "\<not> fst (circuit_open r t)" if "r_consecutive_failures r < 3" "r_cooldown_until r = None"
    using inv that by (auto simp: runtime_inv_def failure_threshold_def circuit_open_def)
  have probe: "\<not> fst (circuit_open r t) \<and> r_circuit_state (snd (circuit_open r t)) = HALF_OPEN
      \<and> (t' < now + 60 * 1000000 \<longrightarrow>
          fst (circuit_open (record_failure p (snd (circuit_open r t)) code retry now) t'))
      \<and> r_circuit_state (record_success (snd (circuit_open r t)) latency now) = CLOSED
      \<and> (t \<le> t' \<longrightarrow> \<not> fst (circuit_open (record_success (snd (circuit_open r t)) latency now) t'))"
    if "3 \<le> r_consecutive_failures r" and cd: "\<forall>c. r_cooldown_until r = Some c \<longrightarrow> c \<le> t"
      and "\<forall>u. r_circuit_open_until r = Some u \<longrightarrow> u \<le> t"
  proof -
    have half: "\<not> fst (circuit_open r t)" "snd (circuit_open r t) = r\<lparr>r_circuit_state := HALF_OPEN\<rparr>"
      using half_open_after[OF inv that] by blast+
    have "fst (circuit_open (record_failure p (snd (circuit_open r t)) code retry now) t')"
      if "t' < now + 60 * 1000000"
      using \<open>3 \<le> r_consecutive_failures r\<close> that by (intro third_failure_opens) (simp_all add: half)
    moreover have "\<not> fst (circuit_open (record_success (snd (circuit_open r t)) latency now) t')" if "t \<le> t'"
      using cd that by (auto simp: half circuit_open_def record_success_def Let_def split: option.splits)
    ultimately show ?thesis
      using half by (auto simp: record_success_def Let_def)
  qed
  show ?thesis
    using closed third_failure_opens[of r t now p code retry] probe by blast
qed

text \<open>A provider that failed three times in a row at second zero.\<close>

definition tripped :: "provider_runtime_state" where
  "tripped = record_failure example_provider (record_failure example_provider (record_failure example_provider
     (fresh_runtime ''p'' ''BTC_USD'') ''http_error'' None 0) ''http_error'' None 0) ''http_error'' None 0"

lemma tripped_fields: "r_consecutive_failures tripped = 3" "r_cooldown_until tripped = None"
  "r_circuit_open_until tripped = Some 60000000"
  by (simp_all add: tripped_def record_failure_def fresh_runtime_def failure_threshold_def
      circuit_open_seconds_def seconds_def)

theorem circuit_breaker_cycle_witness:
  "\<not> fst (circuit_open tripped 60000000)
   \<and> fst (circuit_open (record_failure example_provider (snd (circuit_open tripped 60000000))
        ''http_error'' None 61000000) 120000000)"
proof -
  have "runtime_reach example_provider tripped"
    unfolding tripped_def by (intro runtime_reach.intros)
  from circuit_breaker_cycle [OF this, of 60000000 61000000 "''http_error''" None 120000000 0]
  show ?thesis
    by (simp add: tripped_fields)
qed

text \<open>The provider runtime records stay consistent under every call of the collector: failure and
  success counts are not negative, a circuit is open or half-open exactly when three or more calls in a row
  have failed, an open circuit has an end, the average latency is not negative and the success rate lies
  between zero and one. The table of provider quotes keeps one row for each key and observation time, with
  identifiers in use only once.\<close>

theorem quote_keeps_state_consistent:
  assumes "quote env p purpose i w = Inr (oc, w')" "world_inv w" "world_inv (e_interleave env w)"
    and "0 \<le> e_latency_ms env"
  shows "world_inv w' \<and> (\<forall>k r. w_runtime w' k = Some r \<longrightarrow> 0 \<le> success_rate r \<and> success_rate r \<le> 1)"
proof -
  have rt: "runtime_inv (runtime_of p w)" "runtime_inv (snd (circuit_open (runtime_of p w) (e_now env)))"
    using runtime_of_inv[OF assms(2)] circuit_open_inv by blast+
  from assms(1) have "world_inv w'"
  proof (cases rule: quote_cases)
    case (locked l s' w2)
    have "world_inv w2"
      by (rule locked_quote_inv[OF locked(6) _ rt(2) assms(4)]) (simp add: assms(3))
    then show ?thesis
      by (simp add: locked(7))
  qed (use assms rt in \<open>auto intro: put_runtime_inv\<close>)
  then show ?thesis
    using success_rate_bounds by (fastforce simp: world_inv_def runtime_inv_def)
qed

theorem quote_keeps_state_consistent_witness:
  "\<exists>oc w'. quote example_env example_provider FOR_ANOMALY example_instrument (example_world None) = Inr (oc, w')
     \<and> oc_external_called oc \<and> world_inv w'"
proof -
  obtain oc w' where q: "quote example_env example_provider FOR_ANOMALY example_instrument (example_world None)
      = Inr (oc, w')" "oc_external_called oc"
    using example_called by blast
  have "world_inv (example_world None)"
    by (simp add: world_inv_def example_world_def db_inv_def)
  then show ?thesis
    using q quote_keeps_state_consistent [OF q(1)] by (auto simp: example_env_def)
qed

text \<open>Claim C31. The request loop is bounded and keeps to its errors: it makes at most one attempt more than the
  configured retries, every pause is at most ten seconds, a payload is the first response that succeeds after
  failures that may all be retried, and without a payload the caller gets an error of one of the attempts.\<close>

theorem retries_bounded:
  assumes "0 < n"
  shows "length (snd (attempts f base n n)) < n \<and> (\<forall>d\<in>set (snd (attempts f base n n)). d \<le> 10)
    \<and> (case fst (attempts f base n n) of
         Inr r \<Rightarrow> \<exists>k<n. f k = Inr r \<and> length (snd (attempts f base n n)) = k
           \<and> (\<forall>j<k. \<exists>e. f j = Inl e \<and> retryable e)
       | Inl e \<Rightarrow> \<exists>k<n. f k = Inl e \<and> length (snd (attempts f base n n)) = k
           \<and> (\<not> retryable e \<or> k + 1 = n) \<and> (\<forall>j<k. \<exists>e. f j = Inl e \<and> retryable e))"
  using attempts_trace[OF assms, of n f base] attempts_delays[of _ f base n n]
  by (auto split: sum.splits)

definition flaky :: "nat \<Rightarrow> call_error + int" where
  "flaky n = (if n = 0 then Inl (CallFailure ''http_error'' (Some 503) None) else Inr 7)"

theorem retries_bounded_witness:
  "fst (attempts flaky (1/2) 3 3) = Inr 7 \<and> length (snd (attempts flaky (1/2) 3 3)) < 3"
  using retries_bounded [of 3 flaky "1/2"]
  by (simp add: numeral_3_eq_3 flaky_def retryable_def)

text \<open>The delay a provider asks for is bounded: whenever the header Retry-After gives a delay, the delay
  is between zero and the maximum, a header with a date in the past or now means no delay, a number of
  ASCII digits is never refused, and digits beyond the length of the maximum give the maximum.\<close>

theorem retry_after_bounded:
  assumes "0 \<le> maximum"
  shows "(\<forall>n. parse_retry_after parse_date v now maximum = Inr (Some n) \<longrightarrow> 0 \<le> n \<and> n \<le> maximum)
    \<and> (\<forall>ds. v = Some ds \<and> ds \<noteq> [] \<and> list_all is_digit ds \<longrightarrow>
         parse_retry_after parse_date v now maximum = Inr (Some (min maximum (digits_val ds))))
    \<and> (\<forall>s t. v = Some s \<and> strip s \<noteq> [] \<and> \<not> list_all py_isdigit (strip s) \<and> parse_date (strip s) = Some t
         \<and> t \<le> now \<longrightarrow> parse_retry_after parse_date v now maximum = Inr (Some 0))"
proof -
  let ?r = "parse_retry_after parse_date v now maximum"
  have "0 \<le> n \<and> n \<le> maximum" if "?r = Inr (Some n)" for n
    using that assms parse_retry_after_range by blast
  moreover have "?r = Inr (Some (min maximum (digits_val ds)))"
    if "v = Some ds" "ds \<noteq> []" "list_all is_digit ds" for ds
    unfolding that(1) using that(2,3) assms by (rule parse_retry_after_digits)
  moreover have "?r = Inr (Some 0)"
    if "v = Some s" "strip s \<noteq> []" "\<not> list_all py_isdigit (strip s)" "parse_date (strip s) = Some t" "t \<le> now" for s t
  proof -
    have "total_seconds (t - now) \<le> 0"
      using that(5) total_seconds_mono[of "t - now" 0] by (simp add: total_seconds_def)
    then show ?thesis
      using that assms by (simp add: parse_retry_after_def Let_def)
  qed
  ultimately show ?thesis
    by blast
qed

theorem retry_after_bounded_witness:
  "parse_retry_after Map.empty (Some ''0120'') 0 86400 = Inr (Some 120)"
  using retry_after_bounded [of 86400 Map.empty "Some ''0120''" 0]
  by (simp add: is_digit_def digits_val_def digit_val_def)

text \<open>A number in the header Retry-After is refused when it is written with digits that
  \<open>str.isdigit\<close> accepts and \<open>int\<close> does not, as a superscript two: a 429 response with such a header is
  reported as a response that cannot be read, not as a rate limit, so no cooldown begins.\<close>

theorem retry_after_superscript:
  "request_once parse_date now bound p
     (Inr \<lparr>rs_status = 429, rs_retry_after = Some [CHR 0xB2], rs_chunks = [], rs_body = EmptyBody\<rparr>)
   = Inl (OtherError (ValueError ''invalid literal for int()'') None)"
  by (simp add: request_once_def parse_retry_after_def strip_def is_space_def py_isdigit_def is_digit_def
      parse_int_def int_text_def nat_text.simps[of 86400] Let_def)

end
