(* ===== verification/Float_Text.thy ===== *)
theory Float_Text
  imports Py_Numbers
begin

text \<open>
  The round trip of decimals through floats: a decimal of at most fifteen significant digits is read back
  unchanged after \<open>float(..)\<close> and \<open>str(..)\<close>. The service stores prices this way, since its JSON payloads
  carry floats.
\<close>

definition digits15 :: "rat \<Rightarrow> bool" where
  "digits15 q \<longleftrightarrow> round_sig 10 15 q = q"

text \<open>Decimals far from the ends of the float range.\<close>

definition mid_range :: "rat \<Rightarrow> bool" where
  "mid_range q \<longleftrightarrow> q = 0 \<or> (2 powi (- 1000) \<le> \<bar>q\<bar> \<and> \<bar>q\<bar> \<le> 2 powi 1000)"

lemma digits15_short:
  assumes "\<bar>k\<bar> < 10 ^ 15" shows "digits15 (of_int k * 10 powi e)"
  using round_sig_short[of 10 15 k e] assms by (simp add: digits15_def)

lemma digits15_int: "\<bar>k\<bar> < 10 ^ 15 \<Longrightarrow> digits15 (of_int k)"
  using digits15_short[of k 0] by simp

lemma digits15_minus [simp]: "digits15 (- q) \<longleftrightarrow> digits15 q"
  by (simp add: digits15_def round_sig_minus)

lemma digits15_round_sig:
  assumes "0 < p" "p < 15" "0 < x" shows "digits15 (round_sig 10 p x)"
proof -
  define e where "e = expo 10 x - p + 1"
  define k where "k = round_half_even (x / 10 powi e)"
  have d: "round_sig 10 p x = of_int k * 10 powi e"
    using assms by (simp add: round_sig_def round_at_def e_def k_def)
  have pw: "0 < (10 :: rat) powi e"
    by simp
  have "of_int k * 10 powi e \<le> (10 :: rat) powi (expo 10 x + 1)"
    using round_sig_pos_bounds(2)[of 10 p x] assms d by simp
  also have "(10 :: rat) powi (expo 10 x + 1) = 10 powi p * 10 powi e"
    by (simp add: e_def flip: power_int_add)
  finally have "of_int k \<le> (10 :: rat) powi p"
    using pw by (simp only: mult_le_cancel_right_pos)
  also have "\<dots> < 10 powi 15"
    using assms by (intro power_int_strict_increasing) auto
  finally have up: "k < 10 ^ 15"
    by (simp add: power_int_def)
  have "0 < of_int k * (10 :: rat) powi e"
    using round_sig_pos[of 10 p x] assms d by simp
  then have "0 < k"
    using pw by (simp only: zero_less_mult_iff of_int_0_less_iff) auto
  then show ?thesis
    unfolding d using up by (intro digits15_short) simp
qed

section \<open>Rounding to a float\<close>

lemma f64_rounding_error:
  assumes q: "2 powi (- 1020) \<le> q" and x: "x = round_at 2 (max (expo 2 \<bar>q\<bar> - 52) (- 1074)) q"
  shows "\<bar>x - q\<bar> \<le> q / 2 ^ 53"
proof -
  have pos: "0 < q"
    using q zero_less_power_int[of "2 :: rat" "- 1020"] by linarith
  let ?E = "expo 2 q"
  have b: "2 powi ?E \<le> q" "q < 2 powi (?E + 1)"
    using expo_bounds[of 2 q] pos by simp_all
  have "- 1020 < ?E + 1"
  proof (rule ccontr)
    assume "\<not> - 1020 < ?E + 1"
    then have "(2 :: rat) powi (?E + 1) \<le> 2 powi (- 1020)"
      by (intro power_int_increasing) auto
    then show False
      using b q by linarith
  qed
  then have "max (?E - 52) (- 1074) = ?E - 52"
    by simp
  then have x': "x = round_at 2 (?E - 52) q"
    using x pos by simp
  let ?u = "(2 :: rat) powi (?E - 52)"
  have u: "0 < ?u" "?u = 2 powi ?E / 2 ^ 52"
    by (simp_all add: power_int_diff)
  have "\<bar>of_int (round_half_even (q / ?u)) - q / ?u\<bar> \<le> 1 / 2"
    by (rule round_half_even_error)
  then have "\<bar>of_int (round_half_even (q / ?u)) - q / ?u\<bar> * ?u \<le> 1 / 2 * ?u"
    using u(1) by (intro mult_right_mono) auto
  moreover have "\<bar>of_int (round_half_even (q / ?u)) - q / ?u\<bar> * ?u = \<bar>x - q\<bar>"
  proof -
    have "(of_int (round_half_even (q / ?u)) - q / ?u) * ?u = x - q"
      unfolding x' round_at_def using u(1) by (simp add: left_diff_distrib)
    then show ?thesis
      using u(1) by (metis abs_mult abs_of_pos)
  qed
  ultimately have "\<bar>x - q\<bar> \<le> ?u / 2"
    by simp
  also have "\<dots> \<le> q / 2 ^ 53"
    unfolding u(2) using b(1) by simp
  finally show ?thesis .
qed

lemma f64_error:
  assumes q: "2 powi (- 1020) \<le> q" and x: "f64 q = Some x"
  shows "\<bar>x - q\<bar> \<le> q / 2 ^ 53"
proof -
  have "q \<noteq> 0"
    using q zero_less_power_int[of "2 :: rat" "- 1020"] by linarith
  then show ?thesis
    using x by (intro f64_rounding_error[OF q]) (simp add: f64_def Let_def split: if_splits)
qed

lemma round_at_nearest:
  assumes "0 < (10 :: rat) powi e" "\<bar>x - of_int j * 10 powi e\<bar> < 10 powi e / 2"
  shows "round_at 10 e x = of_int j * 10 powi e"
proof -
  let ?g = "(10 :: rat) powi e"
  have "\<bar>x / ?g - of_int j\<bar> < 1 / 2"
  proof -
    have "x / ?g - of_int j = (x - of_int j * ?g) / ?g"
      using assms(1) by (simp add: field_simps)
    then show ?thesis
      using assms by (simp add: abs_divide divide_less_eq)
  qed
  then have "\<bar>of_int (round_half_even (x / ?g)) - of_int j\<bar> < (1 :: rat)"
    using round_half_even_error[of "x / ?g"] by linarith
  then have "round_half_even (x / ?g) = j"
    by linarith
  then show ?thesis
    by (simp add: round_at_def)
qed

section \<open>Reading back\<close>

lemma round_sig_of_f64:
  assumes d: "digits15 q" and q: "2 powi (- 1020) \<le> q" and x: "f64 q = Some x"
  shows "round_sig 10 15 x = q"
proof -
  have pos: "0 < q"
    using q zero_less_power_int[of "2 :: rat" "- 1020"] by linarith
  define F where "F = expo 10 q"
  define G where "G = (10 :: rat) powi (F - 14)"
  have G: "0 < G"
    by (simp add: G_def)
  have pw: "10 powi F = 10 ^ 14 * G" "10 powi (F + 1) = 10 ^ 15 * G"
    using power_int_add[of "10 :: rat" 14 "F - 14"] power_int_add[of "10 :: rat" 15 "F - 14"]
    by (simp_all add: G_def algebra_simps)
  have b: "10 ^ 14 * G \<le> q" "q < 10 ^ 15 * G"
    using expo_bounds[of 10 q] pos pw by (simp_all add: F_def)
  have "round_sig 10 15 q = of_int (round_half_even (q / G)) * G"
    using pos by (simp add: round_sig_def round_at_def G_def F_def)
  then obtain j where j: "q = of_int j * G"
    using d by (metis digits15_def)
  have err: "\<bar>x - q\<bar> \<le> q / 2 ^ 53"
    by (rule f64_error[OF q x])
  have jb: "10 ^ 14 \<le> j" "j < 10 ^ 15"
  proof -
    have "(of_int (10 ^ 14) :: rat) \<le> of_int j" "(of_int j :: rat) < of_int (10 ^ 15)"
      using b G unfolding j by simp_all
    then show "10 ^ 14 \<le> j" "j < 10 ^ 15"
      by (simp_all only: of_int_le_iff of_int_less_iff)
  qed
  have nums: "\<bar>x - q\<bar> \<le> q / 9007199254740992" "100000000000000 * G \<le> q" "q < 1000000000000000 * G"
    using err b by simp_all
  have close: "\<bar>x - q\<bar> < G / 2"
    using nums G by linarith
  have xpos: "0 < x"
    using close nums G by linarith
  have sig: "round_sig 10 15 x = round_at 10 (expo 10 x - 14) x"
    using xpos by (simp add: round_sig_def)
  have xb: "10 powi expo 10 x \<le> x" "x < 10 powi (expo 10 x + 1)"
    using expo_bounds[of 10 x] xpos by simp_all
  consider "expo 10 x = F" | "F < expo 10 x" | "expo 10 x < F"
    by linarith
  then show ?thesis
  proof cases
    case 1
    then show ?thesis
      using round_at_nearest[of "F - 14" x j] close G sig j by (simp add: G_def)
  next
    case 2
    then have "(10 :: rat) powi (F + 1) \<le> 10 powi expo 10 x"
      by (intro power_int_increasing) auto
    then have "10 ^ 15 * G \<le> x"
      using xb pw by linarith
    moreover have "q \<le> (10 ^ 15 - 1) * G"
    proof -
      have "(of_int j :: rat) \<le> of_int (10 ^ 15 - 1)"
        using jb by (subst of_int_le_iff) linarith
      then show ?thesis
        unfolding j using G by (intro mult_right_mono) auto
    qed
    ultimately show ?thesis
      using close G by (simp add: left_diff_distrib)
  next
    case 3
    then have "(10 :: rat) powi (expo 10 x + 1) \<le> 10 powi F"
      by (intro power_int_increasing) auto
    then have lt: "x < 10 ^ 14 * G"
      using xb pw by linarith
    have "j \<le> 10 ^ 14"
    proof -
      have "of_int j * G < (10 ^ 14 + 1) * G"
        using lt close G unfolding j[symmetric] by (simp add: abs_if split: if_splits)
      then have "(of_int j :: rat) < of_int (10 ^ 14 + 1)"
        using G by (simp add: mult_less_cancel_right)
      then show ?thesis
        by (simp only: of_int_less_iff)
    qed
    then have qv: "q = 10 ^ 14 * G"
      using jb j by simp
    have G': "(10 :: rat) powi (F - 15) = G / 10"
      by (simp add: G_def power_int_diff)
    have "10 powi (F - 1) < x"
    proof -
      have "(10 :: rat) powi (F - 1) = 10 ^ 13 * G"
        using power_int_add[of "10 :: rat" 13 "F - 14"] by (simp add: G_def)
      then show ?thesis
        using close qv G by (simp add: abs_if split: if_splits)
    qed
    then have "\<not> expo 10 x + 1 \<le> F - 1"
      using xb(2) power_int_increasing[of "expo 10 x + 1" "F - 1" "10 :: rat"] by auto
    then have e: "expo 10 x = F - 1"
      using 3 by linarith
    have "\<bar>x - q\<bar> < G / 10 / 2"
      using nums(1) G unfolding qv by simp
    then show ?thesis
      using round_at_nearest[of "F - 15" x "10 ^ 15"] G sig e qv by (simp add: G')
  qed
qed

text \<open>The shortest decimal is found at a precision of at most fifteen digits, where it can only be the decimal that
  was stored: any shorter candidate that reads as the same float is rounded to fifteen digits as well.\<close>

lemma shortest_from_eq:
  assumes d: "digits15 q" and q: "2 powi (- 1000) \<le> q" and x: "f64 q = Some x"
    and "0 < p" "p \<le> 15" "int n = 17 - p"
  shows "shortest_from n p x = q"
  using assms(4-)
proof (induction n arbitrary: p)
  case 0
  then show ?case
    by simp
next
  case (Suc n)
  have small: "(2 :: rat) powi (- 1020) \<le> 2 powi (- 1000)"
    by (intro power_int_increasing) auto
  have q': "2 powi (- 1020) \<le> q"
    using q small by linarith
  have r: "round_sig 10 15 x = q"
    by (rule round_sig_of_f64[OF d q' x])
  have pos: "0 < q"
    using q zero_less_power_int[of "2 :: rat" "- 1000"] by linarith
  have half: "q / 2 \<le> x"
    using f64_error[OF q' x] pos by (simp add: abs_if split: if_splits)
  have xpos: "0 < x"
    using half pos by linarith
  show ?case
  proof (cases "f64 (round_sig 10 p x) = Some x")
    case True
    have "round_sig 10 p x = q"
    proof (cases "p = 15")
      case False
      have dig: "digits15 (round_sig 10 p x)"
        using Suc.prems False xpos by (intro digits15_round_sig) auto
      have "x / 10 < 10 powi expo 10 x"
        using expo_bounds(2)[of 10 x] xpos by (simp add: power_int_add)
      then have "x / 10 \<le> round_sig 10 p x"
        using round_sig_pos_bounds(1)[of 10 p x] Suc.prems xpos by simp
      moreover have "(2 :: rat) powi (- 1020) \<le> 2 powi (- 1000) / 20"
        by (simp add: power_int_minus divide_simps)
      ultimately have "2 powi (- 1020) \<le> round_sig 10 p x"
        using half q by linarith
      then have "round_sig 10 15 x = round_sig 10 p x"
        using True dig by (rule round_sig_of_f64[rotated])
      then show ?thesis
        using r by simp
    qed (use r in simp)
    then show ?thesis
      using True by simp
  next
    case False
    then have "p < 15"
      using Suc.prems r x by (cases "p = 15") auto
    then have "shortest_from n (p + 1) x = q"
      using Suc.prems by (intro Suc.IH) auto
    then show ?thesis
      using False by simp
  qed
qed

lemma f64_minus: "f64 (- x) = map_option uminus (f64 x)"
  by (auto simp: f64_def Let_def round_at_def round_half_even_minus)

lemma shortest_from_minus: "shortest_from n p (- x) = - shortest_from n p x"
proof (induction n p x rule: shortest_from.induct)
  case (2 n p x)
  have "f64 (- y) = Some (- x) \<longleftrightarrow> f64 y = Some x" for y
    by (simp add: f64_minus)
  then show ?case
    using 2 by (simp add: round_sig_minus)
qed (simp add: round_sig_minus)

lemma f64_defined:
  assumes "2 powi (- 1000) \<le> q" "q \<le> 2 powi 1000" shows "\<exists>x. f64 q = Some x"
proof -
  let ?x = "round_at 2 (max (expo 2 \<bar>q\<bar> - 52) (- 1074)) q"
  have "(2 :: rat) powi (- 1020) \<le> 2 powi (- 1000)"
    by (intro power_int_increasing) auto
  then have "\<bar>?x - q\<bar> \<le> q / 2 ^ 53"
    using assms by (intro f64_rounding_error) auto
  moreover have pos: "0 < q"
    using assms zero_less_power_int[of "2 :: rat" "- 1000"] by linarith
  ultimately have "\<bar>?x\<bar> \<le> 2 * q"
    by (simp add: abs_if split: if_splits)
  also have "2 * q \<le> 2 * 2 powi 1000"
    using assms by simp
  also have "\<dots> < 2 ^ 1024"
    by simp
  finally show ?thesis
    using pos by (auto simp: f64_def Let_def)
qed

lemma f64_total:
  assumes "mid_range q" shows "\<exists>x. f64 q = Some x"
proof -
  consider "q = 0" | "0 < q" | "0 < - q"
    by linarith
  then show ?thesis
  proof cases
    case 3
    then show ?thesis
      using assms f64_defined[of "- q"] by (auto simp: mid_range_def f64_minus)
  qed (use assms f64_defined[of q] in \<open>auto simp: mid_range_def f64_def\<close>)
qed

theorem float_round_trip:
  assumes "digits15 q" "mid_range q"
  obtains x where "f64 q = Some x" "float_str x = q"
proof -
  obtain x where x: "f64 q = Some x"
    using f64_total[OF assms(2)] by blast
  consider "q = 0" | "2 powi (- 1000) \<le> q" | "2 powi (- 1000) \<le> - q"
    using assms(2) unfolding mid_range_def by linarith
  then have "float_str x = q"
  proof cases
    case 1
    then show ?thesis
      using x by (simp add: f64_def float_str_def numeral_eq_Suc)
  next
    case 2
    then show ?thesis
      using shortest_from_eq[OF assms(1) 2 x, of 1 16] by (simp add: float_str_def)
  next
    case 3
    then show ?thesis
      using shortest_from_eq[of "- q" "- x" 1 16] assms(1) x
      by (simp add: float_str_def f64_minus shortest_from_minus)
  qed
  then show ?thesis
    using that x by blast
qed

end
