(* ===== verification/Canonical_Store.thy ===== *)
theory Canonical_Store
  imports Derived Providers Float_Text "HOL-Library.Product_Lexorder" "HOL-Library.Multiset"
begin

text \<open>
  Model of the places a canonical quote is kept: the Redis store of \<open>apps/api/app/pricing/cache.py\<close> (the
  current quote of an instrument, the hash of all quotes, the short history, the sequence and the published
  events), the table of canonical quotes written by \<open>persistence.py\<close> and read by \<open>history.py\<close>, and the
  queue of quotes the database did not take, with its replay.

  \<^item> A stored quote is its payload, the dictionary \<open>to_dict\<close> builds, which \<open>from_dict\<close> reads back; prices
    are floats in it. JSON text itself is not modelled: it keeps such a payload.
  \<^item> A Redis key with a time to live is kept with the instant it lapses at.
  \<^item> Columns of type \<open>Numeric(24, 8)\<close> and \<open>Numeric(12, 6)\<close> round to their scale, half away from zero, and
    refuse values that do not fit.
  \<^item> \<open>cs_published\<close> is what was announced on the channel of events, in order. The copy of it that Redis keeps in a
    stream cut at about its maximum length is left out: the program reads nothing of it but its length (\<open>health.py\<close>).
\<close>

section \<open>Payloads\<close>

definition all_canonical_statuses :: "canonical_status list" where
  "all_canonical_statuses = [CS_LIVE, CS_CONFIRMED, CS_FRESH_CACHE, CS_VERIFYING, CS_SUSPICIOUS,
     CS_SUSPICIOUS_UNCONFIRMED, CS_DERIVED_FALLBACK, CS_STALE, CS_EXPIRED, CS_UNPERSISTED, CS_UNAVAILABLE]"

definition canonical_status_of :: "string \<Rightarrow> canonical_status result" where
  "canonical_status_of v =
     (case find (\<lambda>s. canonical_status_value s = v) all_canonical_statuses of
        None \<Rightarrow> Inl (ValueError ''not a valid CanonicalStatus'') | Some s \<Rightarrow> Inr s)"

definition change_or_none :: "pyval \<Rightarrow> rat option result" where
  "change_or_none v =
     (if v = PNone then Inr None
      else ebind (py_decimal v) (\<lambda>d.
        case d of DFin q \<Rightarrow> Inr (Some q) | _ \<Rightarrow> Inl (ValueError ''Expected a finite decimal'')))"

definition canonical_from_dict :: "canonical_payload \<Rightarrow> canonical_quote result" where
  "canonical_from_dict p =
     ebind (decimal_value False (pl_price p)) (\<lambda>price.
     ebind (canonical_status_of (pl_status p)) (\<lambda>status.
     ebind (change_or_none (pl_change_1h p)) (\<lambda>h1.
     ebind (change_or_none (pl_change_24h p)) (\<lambda>h24.
     ebind (change_or_none (pl_change_7d p)) (\<lambda>d7.
     ebind (change_or_none (pl_change_30d p)) (\<lambda>d30.
     ebind (decimal_or_none (pl_candidate_price p)) (\<lambda>candidate.
     canonical_create
       \<lparr>c_id = pl_id p, c_instrument_id = pl_instrument_id p, c_price = price, c_status = status,
        c_primary_quote_id = pl_primary_quote_id p, c_verification_quote_ids = pl_verification_quote_ids p,
        c_source_summary = pl_source_summary p, c_observed_at = pl_observed_at p,
        c_canonical_at = pl_canonical_at p, c_valid_until = pl_valid_until p, c_stale_at = pl_stale_at p,
        c_expires_at = pl_expires_at p, c_is_persisted = pl_is_persisted p,
        c_decision_reason = or_text (pl_decision_reason p) ''not recorded'',
        c_change_1h = h1, c_change_24h = h24, c_change_7d = d7, c_change_30d = d30,
        c_verification_status = pl_verification_status p, c_candidate_price = candidate,
        c_candidate_provider_id = pl_candidate_provider_id p, c_sequence_number = pl_sequence_number p,
        c_idempotency_key = (case pl_idempotency_key p of None \<Rightarrow> KeyText [] | Some k \<Rightarrow> k)\<rparr>)))))))"

section \<open>The Redis store\<close>

record canonical_store =
  cs_current :: "string \<rightharpoonup> canonical_payload \<times> instant"
  cs_all :: "string \<rightharpoonup> canonical_payload"
  cs_all_until :: instant
  cs_short :: "string \<Rightarrow> (instant \<times> canonical_payload) list"
  cs_short_until :: "string \<Rightarrow> instant"
  cs_sequence :: int
  cs_published :: "canonical_payload list"
  cs_rows :: "canonical_quote list"
  cs_next_row :: int
  cs_queue :: "(idem_key \<times> canonical_payload) list"
  cs_replayed :: "(idem_key \<times> int) list"

definition safe_component :: "string \<Rightarrow> bool" where
  "safe_component s \<longleftrightarrow> s \<noteq> [] \<and>
     list_all (\<lambda>c. (CHR ''A'' \<le> c \<and> c \<le> CHR ''Z'') \<or> (CHR ''a'' \<le> c \<and> c \<le> CHR ''z'') \<or> is_digit c
       \<or> c \<in> {CHR ''_'', CHR ''.'', CHR '':'', CHR ''-''}) s"

definition component :: "string \<Rightarrow> string result" where
  "component s = (if safe_component s then Inr s
     else Inl (ValueError ''Redis key component contains unsupported characters''))"

definition live_all :: "instant \<Rightarrow> canonical_store \<Rightarrow> string \<rightharpoonup> canonical_payload" where
  "live_all now st = (if now < cs_all_until st then cs_all st else Map.empty)"

definition set_canonical ::
  "instrument_definition list \<Rightarrow> instant \<Rightarrow> canonical_quote \<Rightarrow> canonical_store \<Rightarrow> canonical_store result" where
  "set_canonical defs now q st =
     ebind (get_instrument defs (c_instrument_id q)) (\<lambda>i.
     ebind (canonical_to_dict q True now False) (\<lambda>payload.
     ebind (component (c_instrument_id q)) (\<lambda>key.
     let retention = max (i_expire_after_seconds i * 4) (i_stale_after_seconds i) in
     Inr (st\<lparr>cs_current := (cs_current st)(key \<mapsto> (payload, now + seconds retention)),
             cs_all := (live_all now st)(c_instrument_id q \<mapsto> payload),
             cs_all_until := now + seconds (max_of 0 (map i_expire_after_seconds defs) * 4)\<rparr>))))"

definition store_get_canonical :: "instant \<Rightarrow> string \<Rightarrow> canonical_store \<Rightarrow> canonical_quote option result" where
  "store_get_canonical now iid st =
     ebind (component iid) (\<lambda>key.
     case cs_current st key of
       None \<Rightarrow> Inr None
     | Some (payload, until) \<Rightarrow>
         if now < until then ebind (canonical_from_dict payload) (\<lambda>q. Inr (Some q)) else Inr None)"

definition store_get_all_canonical :: "instant \<Rightarrow> canonical_store \<Rightarrow> string \<rightharpoonup> canonical_quote" where
  "store_get_all_canonical now st =
     (\<lambda>k. case live_all now st k of
        None \<Rightarrow> None
      | Some payload \<Rightarrow> (case canonical_from_dict payload of Inl _ \<Rightarrow> None | Inr q \<Rightarrow> Some q))"

text \<open>A sorted set is a list of members in ascending order of their scores. \<open>zadd\<close> moves a member that is
  already there.\<close>

definition zadd :: "instant \<Rightarrow> 'a \<Rightarrow> (instant \<times> 'a) list \<Rightarrow> (instant \<times> 'a) list" where
  "zadd score member z = insort_key fst (score, member) (filter (\<lambda>e. snd e \<noteq> member) z)"

definition zremrangebyscore :: "instant \<Rightarrow> (instant \<times> 'a) list \<Rightarrow> (instant \<times> 'a) list" where
  "zremrangebyscore cutoff z = filter (\<lambda>e. cutoff < fst e) z"

text \<open>\<open>zremrangebyrank key 0 -(n + 1)\<close>: what stays are the \<open>n\<close> members of the highest rank.\<close>

definition zkeep :: "nat \<Rightarrow> (instant \<times> 'a) list \<Rightarrow> (instant \<times> 'a) list" where
  "zkeep n z = drop (length z - n) z"

definition zrevrange :: "nat \<Rightarrow> (instant \<times> 'a) list \<Rightarrow> 'a list" where
  "zrevrange limit z = map snd (take limit (rev z))"

definition live_short :: "instant \<Rightarrow> string \<Rightarrow> canonical_store \<Rightarrow> (instant \<times> canonical_payload) list" where
  "live_short now key st = (if now < cs_short_until st key then cs_short st key else [])"

definition append_short_history ::
  "int \<Rightarrow> nat \<Rightarrow> instant \<Rightarrow> canonical_quote \<Rightarrow> canonical_store \<Rightarrow> canonical_store result" where
  "append_short_history retention_hours maximum_entries now q st =
     ebind (component (c_instrument_id q)) (\<lambda>key.
     ebind (canonical_to_dict q True now False) (\<lambda>payload.
     let retention_seconds = retention_hours * 3600; cutoff = now - seconds retention_seconds;
         z = zkeep maximum_entries (zremrangebyscore cutoff (zadd (c_canonical_at q) payload (live_short now key st)))
     in Inr (st\<lparr>cs_short := (cs_short st)(key := z),
                cs_short_until := (cs_short_until st)(key := now + seconds (retention_seconds + 3600))\<rparr>)))"

definition recent_canonical :: "instant \<Rightarrow> nat \<Rightarrow> string \<Rightarrow> canonical_store \<Rightarrow> canonical_quote list result" where
  "recent_canonical now limit iid st =
     ebind (component iid) (\<lambda>key.
     Inr (concat (map (\<lambda>p. case canonical_from_dict p of Inl _ \<Rightarrow> [] | Inr q \<Rightarrow> [q])
       (zrevrange (max 1 limit) (live_short now key st)))))"

definition next_sequence :: "canonical_store \<Rightarrow> int \<times> canonical_store" where
  "next_sequence st = (cs_sequence st + 1, st\<lparr>cs_sequence := cs_sequence st + 1\<rparr>)"

definition publish_canonical :: "instant \<Rightarrow> canonical_quote \<Rightarrow> canonical_store \<Rightarrow> canonical_store result" where
  "publish_canonical now q st =
     ebind (canonical_to_dict q True now True) (\<lambda>payload.
     Inr (st\<lparr>cs_published := cs_published st @ [payload]\<rparr>))"

section \<open>The table of canonical quotes\<close>

text \<open>A value of a numeric column with so many digits after the point.\<close>

definition numeric_scale :: "nat \<Rightarrow> rat \<Rightarrow> rat" where
  "numeric_scale n x =
     (let r = of_int \<lfloor>\<bar>x\<bar> * 10 ^ n + 1 / 2\<rfloor> / 10 ^ n in if x < 0 then - r else r)"

definition row_of :: "canonical_quote \<Rightarrow> canonical_quote" where
  "row_of q = q\<lparr>c_price := numeric_scale 8 (c_price q),
     c_candidate_price := map_option (numeric_scale 8) (c_candidate_price q),
     c_is_persisted := True, c_decision_reason := take 240 (c_decision_reason q),
     c_change_1h := map_option (numeric_scale 6) (c_change_1h q),
     c_change_24h := map_option (numeric_scale 6) (c_change_24h q),
     c_change_7d := map_option (numeric_scale 6) (c_change_7d q),
     c_change_30d := map_option (numeric_scale 6) (c_change_30d q)\<rparr>"

definition opt_below :: "rat \<Rightarrow> rat option \<Rightarrow> bool" where
  "opt_below b v = (case v of None \<Rightarrow> True | Some x \<Rightarrow> \<bar>x\<bar> < b)"

definition row_fits :: "canonical_quote \<Rightarrow> bool" where
  "row_fits q \<longleftrightarrow> c_price (row_of q) < 10 ^ 16 \<and> opt_below (10 ^ 16) (c_candidate_price (row_of q))
     \<and> list_all (opt_below (10 ^ 6)) [c_change_1h (row_of q), c_change_24h (row_of q),
          c_change_7d (row_of q), c_change_30d (row_of q)]"

definition same_row :: "canonical_quote \<Rightarrow> canonical_quote \<Rightarrow> bool" where
  "same_row q r \<longleftrightarrow> c_idempotency_key r = c_idempotency_key q \<and> c_canonical_at r = c_canonical_at q"

text \<open>\<open>_persist_canonical\<close>: a row with the same key and time is reused.\<close>

definition store_canonical_row :: "canonical_quote \<Rightarrow> canonical_store \<Rightarrow> canonical_quote \<times> canonical_store" where
  "store_canonical_row q st =
     (case find (same_row q) (cs_rows st) of
        Some r \<Rightarrow> (q\<lparr>c_id := c_id r, c_is_persisted := True\<rparr>, st)
      | None \<Rightarrow> (q\<lparr>c_id := Some (cs_next_row st)\<rparr>,
          st\<lparr>cs_rows := cs_rows st @ [(row_of q)\<lparr>c_id := Some (cs_next_row st)\<rparr>],
             cs_next_row := cs_next_row st + 1\<rparr>))"

definition status_failed :: "canonical_quote \<Rightarrow> canonical_quote" where
  "status_failed q =
     (if c_status q \<in> {CS_LIVE, CS_CONFIRMED, CS_FRESH_CACHE}
      then q\<lparr>c_is_persisted := False, c_status := CS_UNPERSISTED,
             c_source_summary := (c_source_summary q)
               (''status_before_persistence_failure'' \<mapsto> PStr (canonical_status_value (c_status q)))\<rparr>
      else q\<lparr>c_is_persisted := False\<rparr>)"

definition persist_canonical ::
  "bool \<Rightarrow> bool \<Rightarrow> instant \<Rightarrow> canonical_quote \<Rightarrow> canonical_store
   \<Rightarrow> (persistence_result \<times> canonical_quote \<times> canonical_store) result" where
  "persist_canonical db_up queue_up now q st =
     (if db_up \<and> row_fits q then
        (let r = store_canonical_row q st
         in Inr (\<lparr>pr_persisted = True, pr_queued = False\<rparr>, (fst r)\<lparr>c_is_persisted := True\<rparr>, snd r))
      else
        let q1 = status_failed q in
        ebind (canonical_to_dict q1 True now False) (\<lambda>payload.
        Inr (\<lparr>pr_persisted = False, pr_queued = queue_up\<rparr>, q1,
             if queue_up then st\<lparr>cs_queue := cs_queue st @ [(c_idempotency_key q1, payload)]\<rparr> else st)))"

section \<open>Reading the table\<close>

text \<open>The value of a key as JSON text (\<open>->>\<close>), where the source compares it with a constant.\<close>

definition json_text :: "dict \<Rightarrow> string \<Rightarrow> string option" where
  "json_text d k = (case d k of None \<Rightarrow> None | Some PNone \<Rightarrow> None
     | Some (PBool b) \<Rightarrow> Some (if b then ''true'' else ''false'') | Some v \<Rightarrow> Some (py_text v))"

definition coalesce :: "'a option \<Rightarrow> 'a \<Rightarrow> 'a" where
  "coalesce v d = (case v of None \<Rightarrow> d | Some x \<Rightarrow> x)"

definition direct_gold :: "canonical_quote \<Rightarrow> bool" where
  "direct_gold r \<longleftrightarrow>
     c_instrument_id r \<notin> {''GOLD_18K_TOMAN_GRAM'', ''GOLD_24K_TOMAN_GRAM''}
     \<or> (c_status r \<noteq> CS_DERIVED_FALLBACK
        \<and> coalesce (json_text (c_source_summary r) ''derived'') ''false'' = ''false''
        \<and> \<not> starts_with ''derived:'' (coalesce (json_text (c_source_summary r) ''primary_provider_id'') [])
        \<and> coalesce (json_text (c_source_summary r) ''primary_provider_id'') [] \<noteq> ''persian_toolbox_gold24''
        \<and> \<not> (case c_source_summary r ''provider_ids'' of
               Some (PList xs) \<Rightarrow> ''persian_toolbox_gold24'' \<in> set xs
             | Some v \<Rightarrow> py_text v = ''persian_toolbox_gold24'' | None \<Rightarrow> False))"

definition current_row :: "canonical_quote \<Rightarrow> bool" where
  "current_row r \<longleftrightarrow> direct_gold r \<and> coalesce (json_text (c_source_summary r) ''historical_backfill'') ''false'' \<noteq> ''true''"

definition recency :: "canonical_quote \<Rightarrow> instant \<times> instant" where
  "recency q = (c_observed_at q, c_canonical_at q)"

definition row_order :: "canonical_quote \<Rightarrow> instant \<times> instant \<times> int" where
  "row_order r = (c_observed_at r, c_canonical_at r, case c_id r of None \<Rightarrow> 0 | Some n \<Rightarrow> n)"

definition latest_row :: "string \<Rightarrow> canonical_store \<Rightarrow> canonical_quote option" where
  "latest_row iid st = max_by row_order (filter (\<lambda>r. c_instrument_id r = iid \<and> current_row r) (cs_rows st))"

definition latest_canonical :: "string \<Rightarrow> canonical_store \<Rightarrow> canonical_quote option result" where
  "latest_canonical iid st =
     (case latest_row iid st of None \<Rightarrow> Inr None | Some r \<Rightarrow> ebind (canonical_create r) (\<lambda>q. Inr (Some q)))"

definition latest_all :: "canonical_store \<Rightarrow> string \<rightharpoonup> canonical_quote" where
  "latest_all st = (\<lambda>k. case latest_canonical k st of Inr (Some q) \<Rightarrow> Some q | _ \<Rightarrow> None)"

text \<open>The prices that back anomaly detection and the changes shown with a quote.\<close>

definition price_rows :: "string \<Rightarrow> canonical_store \<Rightarrow> canonical_quote list" where
  "price_rows iid st =
     filter (\<lambda>r. c_instrument_id r = iid \<and> c_status r \<in> set accepted_statuses \<and> direct_gold r) (cs_rows st)"

definition recent_prices :: "string \<Rightarrow> nat \<Rightarrow> canonical_store \<Rightarrow> rat list" where
  "recent_prices iid limit st =
     (let rows = sort_key c_canonical_at (price_rows iid st); n = max 3 (min limit 1000)
      in map c_price (drop (length rows - n) rows))"

definition query_baseline :: "string \<Rightarrow> instant \<Rightarrow> instant \<Rightarrow> canonical_store \<Rightarrow> rat option" where
  "query_baseline iid target earliest st =
     map_option c_price (max_by c_canonical_at
       (filter (\<lambda>r. c_canonical_at r \<le> target \<and> earliest \<le> c_canonical_at r) (price_rows iid st)))"

text \<open>\<open>changes\<close>: length of the window and tolerance of its baseline, in seconds.\<close>

definition change_over ::
  "int \<Rightarrow> int \<Rightarrow> string \<Rightarrow> rat \<Rightarrow> instant \<Rightarrow> canonical_store \<Rightarrow> rat option result" where
  "change_over duration tolerance iid price end st =
     (let target = end - seconds duration in
      case query_baseline iid target (target - seconds tolerance) st of
        None \<Rightarrow> Inr None
      | Some b \<Rightarrow>
          if b \<le> 0 then Inr None
          else ebind (ddiv (dsub price b) b) (\<lambda>r. ebind (quantize6 (dmul r 100)) (\<lambda>c. Inr (Some c))))"

text \<open>\<open>_attach_changes\<close>: an error leaves the quote as it is.\<close>

definition attach_changes :: "bool \<Rightarrow> canonical_store \<Rightarrow> canonical_quote \<Rightarrow> canonical_quote" where
  "attach_changes db_up st q =
     (let change = (\<lambda>d t. if db_up then change_over d t (c_instrument_id q) (c_price q) (c_canonical_at q) st
            else Inl DatabaseErr)
      in case
        ebind (change 3600 900) (\<lambda>h1.
        ebind (change 86400 10800) (\<lambda>h24.
        ebind (change 604800 43200) (\<lambda>d7.
        ebind (change 2592000 172800) (\<lambda>d30.
        Inr (q\<lparr>c_change_1h := h1, c_change_24h := h24, c_change_7d := d7, c_change_30d := d30\<rparr>))))) of
          Inl _ \<Rightarrow> q | Inr q1 \<Rightarrow> q1)"

section \<open>Replay of the queue\<close>

definition prior_status :: "canonical_quote \<Rightarrow> canonical_status result" where
  "prior_status q =
     (case c_source_summary q ''status_before_persistence_failure'' of
        Some (PStr s) \<Rightarrow> if c_status q = CS_UNPERSISTED then canonical_status_of s else Inr (c_status q)
      | _ \<Rightarrow> Inr (c_status q))"

definition replay_canonical_quote :: "canonical_payload \<Rightarrow> canonical_store \<Rightarrow> canonical_store result" where
  "replay_canonical_quote payload st =
     ebind (canonical_from_dict payload) (\<lambda>q.
     ebind (prior_status (q\<lparr>c_is_persisted := True\<rparr>)) (\<lambda>status.
     let q1 = q\<lparr>c_is_persisted := True, c_status := status\<rparr> in
     if row_fits q1 then Inr (snd (store_canonical_row q1 st)) else Inl DatabaseErr))"

definition replay_event :: "idem_key \<Rightarrow> canonical_payload \<Rightarrow> canonical_store \<Rightarrow> canonical_store result" where
  "replay_event key payload st =
     ebind (replay_canonical_quote payload st) (\<lambda>st1.
     Inr (st1\<lparr>cs_replayed := (case map_of (cs_replayed st1) key of
        None \<Rightarrow> (key, 1) # cs_replayed st1
      | Some n \<Rightarrow> AList.update key (n + 1) (cs_replayed st1))\<rparr>))"

text \<open>\<open>flush_stream\<close> works on the entries Redis delivers, those of a stopped consumer first, and stops at the
  first that fails; \<open>up\<close> says whether the database takes an entry. A processed entry is acknowledged and
  deleted. The result counts the entries processed and failed.\<close>

fun flush_stream ::
  "(idem_key \<times> canonical_payload) list \<Rightarrow> bool list \<Rightarrow> canonical_store \<Rightarrow> nat \<times> nat \<times> canonical_store" where
  "flush_stream [] up st = (0, 0, st)"
| "flush_stream (e # es) up st =
     (case (if up \<noteq> [] \<and> hd up then replay_event (fst e) (snd e) st else Inl DatabaseErr) of
        Inl _ \<Rightarrow> (0, 1, st)
      | Inr st1 \<Rightarrow>
          (case flush_stream es (tl up) (st1\<lparr>cs_queue := remove1 e (cs_queue st1)\<rparr>) of
             (processed, failed, st2) \<Rightarrow> (Suc processed, failed, st2)))"

section \<open>Facts about payloads\<close>

lemma canonical_status_round_trip [simp]: "canonical_status_of (canonical_status_value s) = Inr s"
  by (cases s) (simp_all add: canonical_status_of_def all_canonical_statuses_def)

definition short_decimal :: "rat \<Rightarrow> bool" where
  "short_decimal q \<longleftrightarrow> digits15 q \<and> mid_range q"

definition opt_short :: "rat option \<Rightarrow> bool" where
  "opt_short v = (case v of None \<Rightarrow> True | Some q \<Rightarrow> short_decimal q)"

lemma json_number_short:
  assumes "short_decimal q"
  obtains x where "json_number (Some q) = Inr (PFloat (FFin x))" "py_decimal (PFloat (FFin x)) = Inr (DFin q)"
proof -
  obtain x where "f64 q = Some x" "float_str x = q"
    using float_round_trip assms unfolding short_decimal_def by blast
  then show ?thesis
    using that by (simp add: json_number_def)
qed

lemma change_codec:
  assumes "opt_short v"
  obtains j where "json_number v = Inr j" "change_or_none j = Inr v"
proof (cases v)
  case None
  then show ?thesis
    using that[of PNone] by (simp add: json_number_def change_or_none_def)
next
  case (Some q)
  then obtain x where "json_number v = Inr (PFloat (FFin x))" "py_decimal (PFloat (FFin x)) = Inr (DFin q)"
    using assms json_number_short[of q] by (auto simp: opt_short_def)
  then show ?thesis
    using that Some by (simp add: change_or_none_def del: py_decimal.simps)
qed

lemma price_codec:
  assumes "short_decimal q" "0 < q"
  obtains j where "json_number (Some q) = Inr j" "decimal_value False j = Inr q"
proof -
  obtain x where x: "json_number (Some q) = Inr (PFloat (FFin x))" "py_decimal (PFloat (FFin x)) = Inr (DFin q)"
    using json_number_short[OF assms(1)] by blast
  moreover have "decimal_value False (PFloat (FFin x)) = Inr q"
    using x assms(2) by (simp add: decimal_value_def del: py_decimal.simps)
  ultimately show ?thesis
    using that by blast
qed

lemma candidate_codec:
  assumes "opt_short v" "\<forall>p. v = Some p \<longrightarrow> 0 < p"
  obtains j where "json_number v = Inr j" "decimal_or_none j = Inr v"
proof (cases v)
  case None
  then show ?thesis
    using that[of PNone] by (simp add: json_number_def decimal_or_none_def)
next
  case (Some q)
  then obtain x where x: "json_number v = Inr (PFloat (FFin x))" "py_decimal (PFloat (FFin x)) = Inr (DFin q)"
    using assms json_number_short[of q] by (auto simp: opt_short_def)
  then have "decimal_value False (PFloat (FFin x)) = Inr q"
    using assms Some by (simp add: decimal_value_def del: py_decimal.simps)
  then show ?thesis
    using that x Some by (simp add: decimal_or_none_def)
qed

definition encodable :: "canonical_quote \<Rightarrow> bool" where
  "encodable c \<longleftrightarrow> valid_canonical c \<and> c_idempotency_key c \<noteq> KeyText [] \<and> c_decision_reason c \<noteq> []
     \<and> short_decimal (c_price c) \<and> opt_short (c_candidate_price c)
     \<and> list_all opt_short [c_change_1h c, c_change_24h c, c_change_7d c, c_change_30d c]"

lemma canonical_codec_round_trip_aux:
  assumes "encodable c"
  shows "\<exists>p. canonical_to_dict c True now False = Inr p \<and> canonical_from_dict p = Inr c"
proof -
  note e = assms[unfolded encodable_def list.pred_inject]
  have v: "0 < c_price c" "\<forall>p. c_candidate_price c = Some p \<longrightarrow> 0 < p"
    using e by (simp_all add: valid_canonical_def)
  obtain j where j: "json_number (Some (c_price c)) = Inr j" "decimal_value False j = Inr (c_price c)"
    using price_codec v e by blast
  obtain k where k: "json_number (c_candidate_price c) = Inr k" "decimal_or_none k = Inr (c_candidate_price c)"
    using candidate_codec v e by blast
  obtain h1 where h1: "json_number (c_change_1h c) = Inr h1" "change_or_none h1 = Inr (c_change_1h c)"
    using change_codec e by blast
  obtain h24 where h24: "json_number (c_change_24h c) = Inr h24" "change_or_none h24 = Inr (c_change_24h c)"
    using change_codec e by blast
  obtain d7 where d7: "json_number (c_change_7d c) = Inr d7" "change_or_none d7 = Inr (c_change_7d c)"
    using change_codec e by blast
  obtain d30 where d30: "json_number (c_change_30d c) = Inr d30" "change_or_none d30 = Inr (c_change_30d c)"
    using change_codec e by blast
  obtain p where p: "canonical_to_dict c True now False = Inr p"
    by (simp add: canonical_to_dict_def j k h1 h24 d7 d30)
  have "canonical_from_dict p = canonical_create c"
    using p e by (auto simp: canonical_to_dict_def canonical_from_dict_def j k h1 h24 d7 d30
        intro!: arg_cong[of _ c canonical_create])
  moreover have "canonical_create c = Inr c"
    using e by (simp add: canonical_create_iff canonical_key_def)
  ultimately show ?thesis
    using p by auto
qed

text \<open>Claim C35. A canonical quote that is \<open>encodable\<close> survives the stores: a valid quote whose prices and changes have at
  most fifteen significant digits is encoded into a payload, with its own and not its current status, from which exactly
  the same quote is read back. A longer decimal, such as a price derived by division, is stored as the nearest float
  and need not come back the same.\<close>

theorem canonical_codec_round_trip:
  assumes "encodable c"
  shows "\<exists>p. canonical_to_dict c True now False = Inr p \<and> canonical_from_dict p = Inr c"
  by (rule canonical_codec_round_trip_aux[OF assms])

lemma short_decimal_int: "\<bar>k\<bar> < 10 ^ 15 \<Longrightarrow> short_decimal (of_int k)"
proof -
  assume k: "\<bar>k\<bar> < 10 ^ 15"
  have "mid_range (of_int k)"
  proof (cases "k = 0")
    case False
    then have "(1 :: rat) \<le> of_int \<bar>k\<bar>"
      by linarith
    moreover have "of_int \<bar>k\<bar> < (of_int (10 ^ 15) :: rat)"
      using k by (simp only: of_int_less_iff)
    moreover have "(2 :: rat) powi (- 1000) \<le> 1" "(10 ^ 15 :: rat) \<le> 2 powi 1000"
      by (simp_all add: power_int_minus)
    ultimately show ?thesis
      by (simp add: mid_range_def)
  qed (simp add: mid_range_def)
  then show ?thesis
    using digits15_int[OF k] by (simp add: short_decimal_def)
qed

lemma example_encodable: "encodable example_canonical"
  using example_canonical_valid short_decimal_int[of 50000]
  by (simp add: encodable_def opt_short_def example_canonical_def)

theorem canonical_codec_round_trip_witness:
  "\<exists>p. canonical_to_dict example_canonical True 3000000 False = Inr p \<and> canonical_from_dict p = Inr example_canonical"
  using canonical_codec_round_trip [OF example_encodable] .

section \<open>Facts about the short history\<close>

lemma zadd_sorted: "sorted (map fst z) \<Longrightarrow> sorted (map fst (zadd s m z))"
  by (simp add: zadd_def sorted_insort_key sorted_filter)

lemma zadd_member: "(s, m) \<in> set (zadd s m z)"
  by (simp add: zadd_def set_insort_key)

lemma zkeep_split:
  assumes "sorted (map fst z)"
  obtains old where "z = old @ zkeep n z" "length (zkeep n z) = min n (length z)"
    "\<forall>d\<in>set old. \<forall>e\<in>set (zkeep n z). fst d \<le> fst e"
proof -
  have z: "z = take (length z - n) z @ zkeep n z"
    by (simp add: zkeep_def)
  then have "sorted (map fst (take (length z - n) z) @ map fst (zkeep n z))"
    using assms by (metis map_append)
  then show ?thesis
    using that[OF z] by (auto simp: sorted_append zkeep_def)
qed

lemma zkeep_sorted: "sorted (map fst z) \<Longrightarrow> sorted (map fst (zkeep n z))"
  by (simp add: zkeep_def drop_map[symmetric] sorted_wrt_drop)

definition short_sorted :: "canonical_store \<Rightarrow> bool" where
  "short_sorted st \<longleftrightarrow> (\<forall>k. sorted (map fst (cs_short st k)))"

text \<open>The short history is a bounded window of the newest quotes: whatever it held, after a quote is
  appended it holds at most the configured number of entries, none older than the retention, in order of time; an
  entry inside the retention is missing only when all that are kept are at least as new; and the appended quote
  is among them when it is newer than the rest.\<close>

theorem short_history_bounded:
  assumes "short_sorted st" and "append_short_history hours n now q st = Inr st'"
  shows "length (cs_short st' (c_instrument_id q)) \<le> n
    \<and> (\<forall>e\<in>set (cs_short st' (c_instrument_id q)). now - seconds (hours * 3600) < fst e)
    \<and> short_sorted st'
    \<and> (\<forall>d\<in>set (live_short now (c_instrument_id q) st).
         now - seconds (hours * 3600) < fst d \<and> d \<notin> set (cs_short st' (c_instrument_id q))
         \<longrightarrow> (\<forall>e\<in>set (cs_short st' (c_instrument_id q)). fst d \<le> fst e)
             \<or> canonical_to_dict q True now False = Inr (snd d))
    \<and> (0 < n \<and> now - seconds (hours * 3600) < c_canonical_at q
         \<and> (\<forall>d\<in>set (live_short now (c_instrument_id q) st). fst d < c_canonical_at q)
       \<longrightarrow> (\<exists>p. canonical_to_dict q True now False = Inr p \<and> (c_canonical_at q, p) \<in> set (cs_short st' (c_instrument_id q))))"
proof -
  let ?k = "c_instrument_id q" and ?cut = "now - seconds (hours * 3600)"
  obtain p where p: "canonical_to_dict q True now False = Inr p" and
    st': "st' = st\<lparr>cs_short := (cs_short st)(?k := zkeep n (zremrangebyscore ?cut (zadd (c_canonical_at q) p (live_short now ?k st)))),
       cs_short_until := (cs_short_until st)(?k := now + seconds (hours * 3600 + 3600))\<rparr>"
    using assms(2) by (auto simp: append_short_history_def component_def err_simps Let_def split: if_splits)
  define z where "z = zremrangebyscore ?cut (zadd (c_canonical_at q) p (live_short now ?k st))"
  have new: "cs_short st' ?k = zkeep n z"
    by (simp add: st' z_def)
  have live: "sorted (map fst (live_short now ?k st))"
    using assms(1) by (simp add: live_short_def short_sorted_def)
  have sz: "sorted (map fst z)"
    unfolding z_def zremrangebyscore_def using zadd_sorted[OF live] by (simp add: sorted_filter)
  obtain old where old: "z = old @ zkeep n z" "length (zkeep n z) = min n (length z)"
      "\<forall>d\<in>set old. \<forall>e\<in>set (zkeep n z). fst d \<le> fst e"
    using zkeep_split[OF sz] by blast
  have sub: "set (zkeep n z) \<subseteq> set z"
    by (simp add: zkeep_def set_drop_subset)
  have "length (cs_short st' ?k) \<le> n"
    using old(2) new by simp
  moreover have "\<forall>e\<in>set (cs_short st' ?k). ?cut < fst e"
    using sub unfolding new by (auto simp: z_def zremrangebyscore_def)
  moreover have "short_sorted st'"
    using assms(1) zkeep_sorted[OF sz] by (simp add: short_sorted_def st' z_def)
  moreover have "\<forall>d\<in>set (live_short now ?k st). ?cut < fst d \<and> d \<notin> set (cs_short st' ?k)
      \<longrightarrow> (\<forall>e\<in>set (cs_short st' ?k). fst d \<le> fst e) \<or> canonical_to_dict q True now False = Inr (snd d)"
  proof (intro ballI impI)
    fix d assume d: "d \<in> set (live_short now ?k st)" "?cut < fst d \<and> d \<notin> set (cs_short st' ?k)"
    show "(\<forall>e\<in>set (cs_short st' ?k). fst d \<le> fst e) \<or> canonical_to_dict q True now False = Inr (snd d)"
    proof (cases "snd d = p")
      case False
      then have "d \<in> set z"
        using d by (simp add: z_def zremrangebyscore_def zadd_def set_insort_key)
      then have "d \<in> set old"
        using d(2) new old(1) by (metis Un_iff set_append)
      then show ?thesis
        using old(3) new by simp
    qed (use p in simp)
  qed
  moreover have "(c_canonical_at q, p) \<in> set (cs_short st' ?k)"
    if c: "0 < n \<and> ?cut < c_canonical_at q \<and> (\<forall>d\<in>set (live_short now ?k st). fst d < c_canonical_at q)"
  proof (rule ccontr)
    assume a: "(c_canonical_at q, p) \<notin> set (cs_short st' ?k)"
    have m: "(c_canonical_at q, p) \<in> set z"
      using c zadd_member by (fastforce simp: z_def zremrangebyscore_def)
    then have "(c_canonical_at q, p) \<in> set old"
      using a new old(1) by (metis Un_iff set_append)
    moreover have "zkeep n z \<noteq> []"
      using old(2) c m by (cases "zkeep n z") (auto simp: min_def split: if_splits)
    then obtain e where e: "e \<in> set (zkeep n z)"
      by (cases "zkeep n z") auto
    ultimately have "c_canonical_at q \<le> fst e"
      using old(3) by fastforce
    then have "e = (c_canonical_at q, p)"
      using e sub c by (fastforce simp: z_def zremrangebyscore_def zadd_def set_insort_key)
    then show False
      using a e new by simp
  qed
  ultimately show ?thesis
    using p by blast
qed

definition empty_store :: canonical_store where
  "empty_store = \<lparr>cs_current = Map.empty, cs_all = Map.empty, cs_all_until = 0, cs_short = (\<lambda>_. []),
     cs_short_until = (\<lambda>_. 0), cs_sequence = 0, cs_published = [], cs_rows = [], cs_next_row = 1,
     cs_queue = [], cs_replayed = []\<rparr>"

theorem short_history_bounded_witness:
  "\<exists>st'. append_short_history 6 240 3000000 example_canonical empty_store = Inr st'
     \<and> length (cs_short st' ''BTC_USD'') \<le> 240 \<and> cs_short st' ''BTC_USD'' \<noteq> []"
proof -
  obtain p where p: "canonical_to_dict example_canonical True 3000000 False = Inr p"
    using canonical_codec_round_trip_aux[OF example_encodable] by blast
  have i: "c_instrument_id example_canonical = ''BTC_USD''" "c_canonical_at example_canonical = 2000000"
    by (simp_all add: example_canonical_def)
  have "safe_component ''BTC_USD''"
    by (simp add: safe_component_def)
  then obtain st' where st': "append_short_history 6 240 3000000 example_canonical empty_store = Inr st'"
    using p by (simp add: append_short_history_def component_def i Let_def)
  show ?thesis
    using short_history_bounded [OF _ st'] st' i
    by (auto simp: short_sorted_def empty_store_def live_short_def seconds_def)
qed

section \<open>Facts about the table and the queue\<close>

lemma find_same_row_None: "find (same_row q) rows = None \<longleftrightarrow> (\<forall>r\<in>set rows. \<not> same_row q r)"
  by (auto simp: find_None_iff)

lemma store_canonical_row_new:
  assumes "\<forall>r\<in>set (cs_rows st). \<not> same_row q r"
  shows "cs_rows (snd (store_canonical_row q st)) = cs_rows st @ [(row_of q)\<lparr>c_id := Some (cs_next_row st)\<rparr>]"
proof -
  have "find (same_row q) (cs_rows st) = None"
    using assms by (simp add: find_same_row_None)
  then show ?thesis
    by (simp add: store_canonical_row_def)
qed

lemma store_canonical_row_old:
  assumes "r \<in> set (cs_rows st)" "same_row q r"
  shows "snd (store_canonical_row q st) = st"
proof -
  obtain r' where "find (same_row q) (cs_rows st) = Some r'"
    using assms find_same_row_None by (metis not_Some_eq)
  then show ?thesis
    by (simp add: store_canonical_row_def)
qed

lemma row_of_fields [simp]:
  "c_idempotency_key (row_of q) = c_idempotency_key q" "c_canonical_at (row_of q) = c_canonical_at q"
  "c_status (row_of q) = c_status q" "c_observed_at (row_of q) = c_observed_at q"
  "c_instrument_id (row_of q) = c_instrument_id q" "c_source_summary (row_of q) = c_source_summary q"
  by (simp_all add: row_of_def)

lemma store_canonical_row_stored:
  "\<exists>r\<in>set (cs_rows (snd (store_canonical_row q st))). same_row q r"
proof (cases "\<exists>r\<in>set (cs_rows st). same_row q r")
  case True
  then show ?thesis
    using store_canonical_row_old by metis
next
  case False
  then show ?thesis
    using store_canonical_row_new[of st q] by (simp add: same_row_def)
qed

lemma store_canonical_row_frame [simp]:
  "cs_queue (snd (store_canonical_row q st)) = cs_queue st"
  "cs_current (snd (store_canonical_row q st)) = cs_current st"
  "cs_all (snd (store_canonical_row q st)) = cs_all st"
  "cs_sequence (snd (store_canonical_row q st)) = cs_sequence st"
  "cs_published (snd (store_canonical_row q st)) = cs_published st"
  by (simp_all add: store_canonical_row_def split: option.splits)

lemma store_canonical_row_grows: "set (cs_rows st) \<subseteq> set (cs_rows (snd (store_canonical_row q st)))"
  by (auto simp: store_canonical_row_def split: option.splits)

text \<open>What a queued quote becomes when it is replayed: the quote that could not be stored, with a note of its
  status in its summary.\<close>

definition noted :: "canonical_quote \<Rightarrow> canonical_quote" where
  "noted q = q\<lparr>c_is_persisted := True, c_source_summary := c_source_summary (status_failed q)\<rparr>"

lemma encodable_status_failed:
  assumes "encodable q" shows "encodable (status_failed q)"
  using assms by (auto simp: encodable_def status_failed_def valid_canonical_def accepted_statuses_def)

lemma replay_of_failed:
  assumes q: "encodable q" "c_status q \<noteq> CS_UNPERSISTED" "row_fits (noted q)"
    and p: "canonical_to_dict (status_failed q) True now False = Inr p"
  shows "replay_canonical_quote p s = Inr (snd (store_canonical_row (noted q) s))"
proof -
  have d: "canonical_from_dict p = Inr (status_failed q)"
    using canonical_codec_round_trip_aux[OF encodable_status_failed[OF q(1)], of now] p by auto
  have "prior_status ((status_failed q)\<lparr>c_is_persisted := True\<rparr>) = Inr (c_status q)"
    using q(2) by (cases "c_status q")
      (simp_all add: prior_status_def status_failed_def split: option.split pyval.split del: canonical_status_value.simps)
  moreover have "(status_failed q)\<lparr>c_is_persisted := True, c_status := c_status q\<rparr> = noted q"
    by (simp add: noted_def status_failed_def)
  ultimately show ?thesis
    using d q(3) by (simp add: replay_canonical_quote_def Let_def)
qed

text \<open>A quote the database did not take is stored later as it was: when it was queued, replaying
  the queue entry on any table without it adds exactly one row, which has the status of the quote and not the
  status it was shown with meanwhile, and replaying the entry again adds nothing.\<close>

theorem queued_quote_replayed_once:
  assumes "encodable q" "c_status q \<noteq> CS_UNPERSISTED" "row_fits (noted q)"
    and "persist_canonical False True now q st = Inr (res, q1, st1)"
    and "\<forall>r\<in>set (cs_rows s). \<not> same_row q r"
  shows "\<exists>key payload s1 s2. cs_queue st1 = cs_queue st @ [(key, payload)]
    \<and> c_is_persisted q1 = False \<and> c_status q1 \<notin> {CS_LIVE, CS_CONFIRMED, CS_FRESH_CACHE}
    \<and> replay_event key payload s = Inr s1
    \<and> cs_rows s1 = cs_rows s @ [(row_of (noted q))\<lparr>c_id := Some (cs_next_row s)\<rparr>]
    \<and> c_status (last (cs_rows s1)) = c_status q
    \<and> replay_event key payload s1 = Inr s2 \<and> cs_rows s2 = cs_rows s1"
proof -
  obtain p where p: "canonical_to_dict (status_failed q) True now False = Inr p" "q1 = status_failed q"
      "cs_queue st1 = cs_queue st @ [(c_idempotency_key q, p)]"
    using assms(4) by (auto simp: persist_canonical_def Let_def err_simps status_failed_def split: if_splits)
  note replay = replay_of_failed[OF assms(1-3) p(1)]
  let ?r = "(row_of (noted q))\<lparr>c_id := Some (cs_next_row s)\<rparr>"
  obtain s1 where s1: "replay_event (c_idempotency_key q) p s = Inr s1" "cs_rows s1 = cs_rows (snd (store_canonical_row (noted q) s))"
    by (simp add: replay_event_def replay)
  have new: "cs_rows s1 = cs_rows s @ [?r]"
    unfolding s1(2) using assms(5) by (intro store_canonical_row_new) (simp add: same_row_def noted_def)
  have "same_row (noted q) ?r"
    by (simp add: same_row_def)
  then have "snd (store_canonical_row (noted q) s1) = s1"
    using new by (intro store_canonical_row_old[of ?r]) auto
  then obtain s2 where s2: "replay_event (c_idempotency_key q) p s1 = Inr s2" "cs_rows s2 = cs_rows s1"
    by (simp add: replay_event_def replay)
  have "c_is_persisted q1 = False \<and> c_status q1 \<notin> {CS_LIVE, CS_CONFIRMED, CS_FRESH_CACHE}"
    by (simp add: p(2) status_failed_def)
  moreover have "c_status (last (cs_rows s1)) = c_status q"
    unfolding new by (simp add: noted_def)
  ultimately show ?thesis
    using p(3) s1(1) new s2 by blast
qed

lemma example_row_fits: "row_fits (noted example_canonical)"
  by (simp add: row_fits_def row_of_def noted_def status_failed_def example_canonical_def opt_below_def numeric_scale_def Let_def)

theorem queued_quote_replayed_once_witness:
  "\<exists>key payload s1. replay_event key payload empty_store = Inr s1
     \<and> length (cs_rows s1) = 1 \<and> c_status (last (cs_rows s1)) = CS_CONFIRMED"
proof -
  have "\<exists>x. persist_canonical False True 3000000 example_canonical empty_store = Inr x"
    using canonical_codec_round_trip_aux[OF encodable_status_failed[OF example_encodable], of 3000000]
    by (auto simp: persist_canonical_def Let_def)
  then obtain res q1 st1 where x: "persist_canonical False True 3000000 example_canonical empty_store = Inr (res, q1, st1)"
    by auto
  have c: "c_status example_canonical = CS_CONFIRMED" "cs_rows empty_store = []"
    by (simp_all add: example_canonical_def empty_store_def)
  obtain key payload s1 where "replay_event key payload empty_store = Inr s1"
      "cs_rows s1 = cs_rows empty_store @ [(row_of (noted example_canonical))\<lparr>c_id := Some (cs_next_row empty_store)\<rparr>]"
      "c_status (last (cs_rows s1)) = c_status example_canonical"
    using queued_quote_replayed_once [OF example_encodable _ example_row_fits x, of empty_store] c by auto
  then show ?thesis
    using c by (metis append_Nil length_Cons list.size(3) One_nat_def)
qed

lemma replay_event_stored:
  assumes "replay_event key payload st = Inr st1"
  obtains q where "canonical_from_dict payload = Inr q" "\<exists>r\<in>set (cs_rows st1). same_row q r"
    "cs_queue st1 = cs_queue st" "set (cs_rows st) \<subseteq> set (cs_rows st1)"
proof -
  obtain q status where q: "canonical_from_dict payload = Inr q"
      "cs_rows st1 = cs_rows (snd (store_canonical_row (q\<lparr>c_is_persisted := True, c_status := status\<rparr>) st))"
      "cs_queue st1 = cs_queue st"
    using assms by (auto simp: replay_event_def replay_canonical_quote_def Let_def err_simps split: if_splits)
  obtain r where "r \<in> set (cs_rows st1)" "same_row (q\<lparr>c_is_persisted := True, c_status := status\<rparr>) r"
    using store_canonical_row_stored q(2) by metis
  then have "\<exists>r\<in>set (cs_rows st1). same_row q r"
    by (auto simp: same_row_def)
  then show ?thesis
    using that q store_canonical_row_grows by metis
qed

text \<open>Flushing the queue loses nothing: of the entries Redis delivers it processes a first part, all of
  it unless an entry fails; exactly the processed entries leave the queue; and every processed entry has its row in
  the table, from which no row is removed.\<close>

theorem flush_loses_nothing:
  assumes "flush_stream batch up st = (n, f, st')" and "mset batch \<subseteq># mset (cs_queue st)"
  shows "n \<le> length batch \<and> f \<le> 1 \<and> (f = 0 \<longleftrightarrow> n = length batch)
    \<and> mset (cs_queue st') = mset (cs_queue st) - mset (take n batch)
    \<and> set (cs_rows st) \<subseteq> set (cs_rows st')
    \<and> (\<forall>e\<in>set (take n batch). \<exists>q. canonical_from_dict (snd e) = Inr q \<and> (\<exists>r\<in>set (cs_rows st'). same_row q r))"
  using assms
proof (induction batch up st arbitrary: n f st' rule: flush_stream.induct)
  case (1 up st)
  then show ?case
    by simp
next
  case (2 e es up st)
  let ?m = "if up \<noteq> [] \<and> hd up then replay_event (fst e) (snd e) st else Inl DatabaseErr"
  show ?case
  proof (cases ?m)
    case (Inl x)
    then show ?thesis
      using 2(2) by simp
  next
    case (Inr st1)
    then have r: "replay_event (fst e) (snd e) st = Inr st1"
      by (simp split: if_splits)
    obtain q where q: "canonical_from_dict (snd e) = Inr q" "\<exists>r\<in>set (cs_rows st1). same_row q r"
        "cs_queue st1 = cs_queue st" "set (cs_rows st) \<subseteq> set (cs_rows st1)"
      using replay_event_stored[OF r] by blast
    let ?st = "st1\<lparr>cs_queue := remove1 e (cs_queue st1)\<rparr>"
    obtain k f' st2 where rest: "flush_stream es (tl up) ?st = (k, f', st2)"
      by (metis prod_cases3)
    then have eq: "n = Suc k" "f = f'" "st' = st2"
      using 2(2) Inr by simp_all
    have sub: "mset es \<subseteq># mset (cs_queue ?st)"
      using 2(3) q(3) by (simp add: insert_subset_eq_iff)
    note IH = 2(1)[OF Inr rest sub]
    have "mset (cs_queue st') = mset (cs_queue st) - mset (take n (e # es))"
      using IH q(3) unfolding eq by simp
    moreover have "\<exists>r\<in>set (cs_rows st'). same_row q r"
      using IH q(2) eq by auto
    ultimately show ?thesis
      using IH q eq by auto
  qed
qed

theorem flush_loses_nothing_witness:
  "\<exists>e s1. flush_stream [e] [True] (empty_store\<lparr>cs_queue := [e]\<rparr>) = (1, 0, s1) \<and> cs_queue s1 = []"
proof -
  let ?q = "status_failed example_canonical" and ?k = "KeyText ''k''"
  obtain p where p: "canonical_to_dict ?q True 3000000 False = Inr p"
    using canonical_codec_round_trip_aux[OF encodable_status_failed[OF example_encodable]] by blast
  have r: "\<exists>s1. replay_event ?k p s = Inr s1" for s
    using replay_of_failed[OF example_encodable _ example_row_fits p]
    by (simp add: replay_event_def example_canonical_def)
  obtain n f s1 where fl: "flush_stream [(?k, p)] [True] (empty_store\<lparr>cs_queue := [(?k, p)]\<rparr>) = (n, f, s1)"
    by (metis prod_cases3)
  then have "n = 1" "f = 0"
    using r[of "empty_store\<lparr>cs_queue := [(?k, p)]\<rparr>"] by auto
  moreover have "mset (cs_queue s1) = {#}"
    using flush_loses_nothing [OF fl] \<open>n = 1\<close> by simp
  ultimately show ?thesis
    using fl by auto
qed

end
