(* ===== verification/Operational.thy ===== *)
theory Operational
  imports Registry Anomaly "HOL-Library.Multiset"
begin

text \<open>
  Model of \<open>apps/api/app/pricing/operational.py\<close>: the definitions of instruments and providers that are in
  force, which are those of the code with the rows of the database and the operational settings of the
  administrators applied to them.

  \<^item> \<open>op_db\<close> is what the database holds; a table that is \<open>None\<close> is one whose query fails. Column values and
    JSON values are Python values, so that every conversion of the source can fail as it does there.
  \<^item> \<open>json.loads\<close>, applied to a setting stored as text, is an argument \<open>loads\<close>.
  \<^item> A decimal that is not finite is refused. The source refuses one that is not a number, in its comparisons;
    an infinite one has no place in the columns and is not accepted by the administration interface.
\<close>

section \<open>Settings\<close>

datatype setting_value = SVal pyval | SDict dict

record instrument_row =
  ir_operational_ttl_seconds :: pyval
  ir_stale_after_seconds :: pyval
  ir_expire_after_seconds :: pyval
  ir_base_anomaly_threshold_percent :: pyval
  ir_maximum_dynamic_threshold_percent :: pyval
  ir_minimum_sanity_price :: pyval
  ir_maximum_sanity_price :: pyval
  ir_importance :: pyval
  ir_enabled :: pyval
  ir_allow_derived_fallback :: pyval

record provider_row =
  pw_provider_id :: string
  pw_role :: string
  pw_priority :: pyval
  pw_trust_score :: pyval
  pw_provider_enabled :: pyval
  pw_config_enabled :: pyval
  pw_operational_ttl_seconds :: pyval
  pw_requests_per_minute :: pyval
  pw_requests_per_hour :: pyval
  pw_requests_per_day :: pyval
  pw_reserved_anomaly_requests :: pyval
  pw_reserved_fallback_requests :: pyval
  pw_minimum_interval_seconds :: pyval
  pw_cooldown_after_429_seconds :: pyval
  pw_estimated_request_cost :: pyval

record op_db =
  od_instruments :: "(string \<rightharpoonup> instrument_row) option"
  od_settings :: "(string \<times> string \<rightharpoonup> setting_value) option"
  od_providers :: "(string \<Rightarrow> provider_row list) option"
  od_flags :: "(string \<rightharpoonup> bool) option"

type_synonym json_loads = "string \<rightharpoonup> setting_value"

text \<open>\<open>_setting_row\<close>: the row of the scope, or else the global one.\<close>

definition setting_row :: "op_db \<Rightarrow> string \<Rightarrow> string \<Rightarrow> setting_value option option" where
  "setting_row db key scope =
     (case od_settings db of
        None \<Rightarrow> None
      | Some rows \<Rightarrow> Some (case rows (key, scope) of
            Some v \<Rightarrow> Some v
          | None \<Rightarrow> if scope \<noteq> ''global'' then rows (key, ''global'') else None))"

definition setting_value_of :: "json_loads \<Rightarrow> setting_value option \<Rightarrow> setting_value \<Rightarrow> setting_value" where
  "setting_value_of loads row dflt =
     (case row of
        None \<Rightarrow> dflt
      | Some (SVal (PStr s)) \<Rightarrow> (case loads s of None \<Rightarrow> dflt | Some v \<Rightarrow> v)
      | Some v \<Rightarrow> v)"

definition value_of :: "json_loads \<Rightarrow> op_db \<Rightarrow> string \<Rightarrow> string \<Rightarrow> setting_value" where
  "value_of loads db key scope =
     (case setting_row db key scope of
        None \<Rightarrow> SVal PNone
      | Some row \<Rightarrow> setting_value_of loads row (SVal PNone))"

text \<open>The defaults of the features are settings of the application.\<close>

definition feature_default :: "(string \<Rightarrow> bool) \<Rightarrow> string \<Rightarrow> bool" where
  "feature_default st key =
     (if key = ''backfill_enabled'' then st ''pricing_backfill_enabled''
      else if key = ''derived_fallback_enabled'' then st ''pricing_derived_fallback_enabled''
      else if key = ''comparison_visible'' then st ''pricing_comparison_visible''
      else key = ''telegram_source_enabled'')"

definition feature_enabled :: "json_loads \<Rightarrow> (string \<Rightarrow> bool) \<Rightarrow> op_db \<Rightarrow> string \<Rightarrow> string \<Rightarrow> bool" where
  "feature_enabled loads st db key scope =
     (case value_of loads db key scope of
        SVal (PBool b) \<Rightarrow> b
      | _ \<Rightarrow> (case od_flags db of
          None \<Rightarrow> feature_default st key
        | Some flags \<Rightarrow> (case flags key of None \<Rightarrow> feature_default st key | Some b \<Rightarrow> b)))"

section \<open>Instruments\<close>

definition finite_decimal :: "pyval \<Rightarrow> rat result" where
  "finite_decimal v = ebind (py_decimal v) (\<lambda>d.
     case d of DFin q \<Rightarrow> Inr q | _ \<Rightarrow> Inl (InvalidOp ''comparison''))"

text \<open>\<open>_instrument_from_row\<close>: the errors it catches are all that can occur here.\<close>

definition instrument_from_row ::
  "instrument_definition \<Rightarrow> instrument_row option \<Rightarrow> instrument_definition option" where
  "instrument_from_row fallback row =
     (case row of
        None \<Rightarrow> Some fallback
      | Some r \<Rightarrow>
          (case ebind (py_int (ir_operational_ttl_seconds r)) (\<lambda>ttl.
                ebind (py_int (ir_stale_after_seconds r)) (\<lambda>stale.
                ebind (py_int (ir_expire_after_seconds r)) (\<lambda>expire.
                ebind (finite_decimal (ir_base_anomaly_threshold_percent r)) (\<lambda>base.
                ebind (finite_decimal (ir_maximum_dynamic_threshold_percent r)) (\<lambda>maximum.
                ebind (finite_decimal (ir_minimum_sanity_price r)) (\<lambda>low.
                ebind (finite_decimal (ir_maximum_sanity_price r)) (\<lambda>high.
                ebind (py_int (ir_importance r)) (\<lambda>importance.
                instrument_post_init (fallback\<lparr>i_operational_ttl_seconds := ttl, i_stale_after_seconds := stale,
                  i_expire_after_seconds := expire, i_base_anomaly_threshold_percent := base,
                  i_maximum_dynamic_threshold_percent := maximum, i_minimum_price := low, i_maximum_price := high,
                  i_importance := importance, i_enabled := py_truth (ir_enabled r),
                  i_allow_derived_fallback := (i_allow_derived_fallback fallback
                    \<and> py_truth (ir_allow_derived_fallback r))\<rparr>))))))))) of
             Inl _ \<Rightarrow> None | Inr i \<Rightarrow> Some i))"

text \<open>A setting that is a dictionary is no number.\<close>

definition set_int :: "setting_value \<Rightarrow> int result" where
  "set_int v = (case v of SVal x \<Rightarrow> py_int x | SDict _ \<Rightarrow> Inl (TypeError ''int() argument''))"

definition set_decimal :: "setting_value \<Rightarrow> rat result" where
  "set_decimal v = (case v of SVal x \<Rightarrow> finite_decimal x | SDict _ \<Rightarrow> Inl (InvalidOp ''ConversionSyntax''))"

definition instrument_overrides ::
  "instrument_definition \<Rightarrow> setting_value \<Rightarrow> setting_value \<Rightarrow> instrument_definition" where
  "instrument_overrides resolved expiry threshold =
     (case ebind (if expiry = SVal PNone then Inr resolved
             else ebind (set_int expiry) (\<lambda>expire.
               Inr (resolved\<lparr>i_expire_after_seconds := expire,
                 i_stale_after_seconds := min (i_stale_after_seconds resolved) expire,
                 i_operational_ttl_seconds := min (i_operational_ttl_seconds resolved) expire\<rparr>))) (\<lambda>i.
           ebind (if threshold = SVal PNone then Inr i
             else ebind (set_decimal threshold) (\<lambda>base.
               Inr (i\<lparr>i_base_anomaly_threshold_percent := base,
                 i_maximum_dynamic_threshold_percent := max base (i_maximum_dynamic_threshold_percent resolved)\<rparr>)))
             instrument_post_init) of
        Inl _ \<Rightarrow> resolved | Inr i \<Rightarrow> i)"

definition operational_instrument ::
  "json_loads \<Rightarrow> instrument_definition list \<Rightarrow> op_db \<Rightarrow> string \<Rightarrow> instrument_definition result" where
  "operational_instrument loads defs db iid =
     ebind (get_instrument defs iid) (\<lambda>fallback.
     let key = i_instrument_id fallback in
     Inr (case od_instruments db of
            None \<Rightarrow> fallback
          | Some rows \<Rightarrow>
              (case instrument_from_row fallback (rows key) of
                 None \<Rightarrow> fallback
               | Some resolved \<Rightarrow> instrument_overrides resolved (value_of loads db ''canonical_expiry_seconds'' key)
                   (value_of loads db ''anomaly_threshold_percent'' key))))"

text \<open>\<open>instruments\<close>: the rows and the settings of all instruments are read with one query each.\<close>

primrec instrument_fallbacks ::
  "instrument_definition list \<Rightarrow> string list \<Rightarrow> (string \<rightharpoonup> instrument_definition) result" where
  "instrument_fallbacks defs [] = Inr Map.empty"
| "instrument_fallbacks defs (iid # ids) =
     ebind (get_instrument defs iid) (\<lambda>fallback.
     ebind (instrument_fallbacks defs ids) (\<lambda>rest.
     Inr (\<lambda>k. if k = i_instrument_id fallback \<and> rest k = None then Some fallback else rest k)))"

definition override_rows ::
  "op_db \<Rightarrow> string set \<Rightarrow> (string \<times> string \<rightharpoonup> setting_value) option" where
  "override_rows db ids =
     map_option (\<lambda>rows. \<lambda>(key, scope).
       if key \<in> {''canonical_expiry_seconds'', ''anomaly_threshold_percent''} \<and> scope \<in> insert ''global'' ids
       then rows (key, scope) else None) (od_settings db)"

definition bulk_value ::
  "json_loads \<Rightarrow> (string \<times> string \<rightharpoonup> setting_value) \<Rightarrow> string \<Rightarrow> string \<Rightarrow> setting_value" where
  "bulk_value loads overrides key iid =
     setting_value_of loads (case overrides (key, iid) of Some v \<Rightarrow> Some v | None \<Rightarrow> overrides (key, ''global''))
       (SVal PNone)"

definition operational_instruments ::
  "json_loads \<Rightarrow> instrument_definition list \<Rightarrow> op_db \<Rightarrow> string list
   \<Rightarrow> (string \<rightharpoonup> instrument_definition) result" where
  "operational_instruments loads defs db ids =
     ebind (instrument_fallbacks defs ids) (\<lambda>fallbacks.
     case od_instruments db of
       None \<Rightarrow> Inr fallbacks
     | Some rows \<Rightarrow>
         let overrides = (case override_rows db (dom fallbacks) of None \<Rightarrow> Map.empty | Some m \<Rightarrow> m) in
         Inr (\<lambda>iid. case fallbacks iid of
           None \<Rightarrow> None
         | Some fallback \<Rightarrow> Some (case instrument_from_row fallback (rows iid) of
             None \<Rightarrow> fallback
           | Some definition' \<Rightarrow> instrument_overrides definition' (bulk_value loads overrides ''canonical_expiry_seconds'' iid)
               (bulk_value loads overrides ''anomaly_threshold_percent'' iid))))"

section \<open>Providers\<close>

definition provider_role_of :: "string \<Rightarrow> provider_role result" where
  "provider_role_of v =
     (case find (\<lambda>r. provider_role_value r = v) [PRIMARY, VERIFIER, FALLBACK, COMPARE] of
        None \<Rightarrow> Inl (ValueError ''not a valid ProviderRole'') | Some r \<Rightarrow> Inr r)"

definition row_budget :: "provider_budget_policy \<Rightarrow> provider_row \<Rightarrow> provider_budget_policy result" where
  "row_budget b r =
     ebind (py_int (pw_requests_per_minute r)) (\<lambda>rpm.
     ebind (py_int (pw_requests_per_hour r)) (\<lambda>rph.
     ebind (py_int (pw_requests_per_day r)) (\<lambda>rpd.
     ebind (py_int (pw_reserved_anomaly_requests r)) (\<lambda>ra.
     ebind (py_int (pw_reserved_fallback_requests r)) (\<lambda>rf.
     ebind (py_int (pw_minimum_interval_seconds r)) (\<lambda>interval.
     ebind (py_int (pw_cooldown_after_429_seconds r)) (\<lambda>cooldown.
     ebind (finite_decimal (pw_estimated_request_cost r)) (\<lambda>cost.
     Inr (b\<lparr>b_requests_per_minute := rpm, b_requests_per_hour := rph, b_requests_per_day := rpd,
            b_reserved_anomaly_requests := ra, b_reserved_fallback_requests := rf,
            b_minimum_interval_seconds := interval, b_cooldown_after_429_seconds := cooldown,
            b_estimated_request_cost := cost\<rparr>)))))))))"

definition disabled :: "provider_definition \<Rightarrow> provider_definition" where
  "disabled p = p\<lparr>p_enabled := False\<rparr>"

definition provider_from_row :: "provider_definition \<Rightarrow> provider_row option \<Rightarrow> provider_definition" where
  "provider_from_row p row =
     (case row of
        None \<Rightarrow> p
      | Some r \<Rightarrow>
          (case ebind (row_budget (p_budget p) r) (\<lambda>budget.
                ebind (provider_role_of (pw_role r)) (\<lambda>role.
                ebind (py_int (pw_priority r)) (\<lambda>priority.
                ebind (finite_decimal (pw_trust_score r)) (\<lambda>trust.
                ebind (if py_truth (pw_operational_ttl_seconds r) then py_int (pw_operational_ttl_seconds r)
                       else Inr (p_operational_ttl_seconds p)) (\<lambda>ttl.
                Inr (p\<lparr>p_role := role, p_priority := priority, p_trust_score := trust,
                  p_enabled := (p_enabled p \<and> py_truth (pw_provider_enabled r) \<and> py_truth (pw_config_enabled r)),
                  p_operational_ttl_seconds := ttl, p_budget := budget\<rparr>)))))) of
             Inl _ \<Rightarrow> disabled p | Inr q \<Rightarrow> q))"

definition priority_order :: "provider_definition \<Rightarrow> int \<times> string" where
  "priority_order p = (p_priority p, p_provider_id p)"

definition providers_from_rows ::
  "provider_definition list \<Rightarrow> provider_row list \<Rightarrow> provider_definition list" where
  "providers_from_rows fallback rows =
     (if rows = [] then fallback
      else let by_id = map_of (rev (map (\<lambda>r. (pw_provider_id r, r)) rows))
           in sort_key priority_order (map (\<lambda>p. provider_from_row p (by_id (p_provider_id p))) fallback))"

definition int_field :: "dict \<Rightarrow> string \<Rightarrow> int \<Rightarrow> int result" where
  "int_field d name current = (case d name of None \<Rightarrow> Inr current | Some v \<Rightarrow> py_int v)"

definition override_budget :: "dict \<Rightarrow> setting_value \<Rightarrow> provider_budget_policy \<Rightarrow> provider_budget_policy result" where
  "override_budget d hourly b =
     ebind (int_field d ''requests_per_minute'' (b_requests_per_minute b)) (\<lambda>rpm.
     ebind (int_field d ''requests_per_hour'' (b_requests_per_hour b)) (\<lambda>rph.
     ebind (int_field d ''requests_per_day'' (b_requests_per_day b)) (\<lambda>rpd.
     ebind (int_field d ''reserved_anomaly_requests'' (b_reserved_anomaly_requests b)) (\<lambda>ra.
     ebind (int_field d ''reserved_fallback_requests'' (b_reserved_fallback_requests b)) (\<lambda>rf.
     ebind (int_field d ''minimum_interval_seconds'' (b_minimum_interval_seconds b)) (\<lambda>interval.
     ebind (if hourly = SVal PNone then Inr rph else set_int hourly) (\<lambda>rph'.
     Inr (b\<lparr>b_requests_per_minute := rpm, b_requests_per_hour := rph', b_requests_per_day := rpd,
            b_reserved_anomaly_requests := ra, b_reserved_fallback_requests := rf,
            b_minimum_interval_seconds := interval\<rparr>))))))))"

definition sane_provider :: "provider_definition \<Rightarrow> bool" where
  "sane_provider p \<longleftrightarrow>
     0 \<le> p_priority p \<and> 0 < p_operational_ttl_seconds p \<and> 0 \<le> p_trust_score p \<and> p_trust_score p \<le> 1
     \<and> list_all (\<lambda>f. 0 \<le> f (p_budget p)) [b_requests_per_minute, b_requests_per_hour, b_requests_per_day,
          b_reserved_anomaly_requests, b_reserved_fallback_requests, b_minimum_interval_seconds]"

definition override_enabled :: "dict \<Rightarrow> bool result" where
  "override_enabled d =
     (case d ''enabled'' of
        None \<Rightarrow> Inr True
      | Some (PBool b) \<Rightarrow> Inr b
      | Some _ \<Rightarrow> Inl (ValueError ''Provider enabled setting must be boolean''))"

definition override_role :: "dict \<Rightarrow> provider_role \<Rightarrow> provider_role result" where
  "override_role d current =
     (case d ''role'' of
        None \<Rightarrow> Inr current
      | Some (PStr s) \<Rightarrow> provider_role_of s
      | Some _ \<Rightarrow> Inl (ValueError ''not a valid ProviderRole''))"

definition effective_provider ::
  "json_loads \<Rightarrow> (string \<times> string \<rightharpoonup> setting_value) \<Rightarrow> provider_definition \<Rightarrow> provider_definition" where
  "effective_provider loads overrides p =
     (let setting = (\<lambda>key dflt. setting_value_of loads
             (case overrides (key, p_provider_id p) of Some v \<Rightarrow> Some v | None \<Rightarrow> overrides (key, ''global'')) dflt);
          d = (case setting ''provider.config'' (SDict Map.empty) of SDict d \<Rightarrow> d | SVal _ \<Rightarrow> Map.empty)
      in case
        ebind (override_budget d (setting ''provider_budget_requests_per_hour'' (SVal PNone)) (p_budget p)) (\<lambda>budget.
        ebind (override_enabled d) (\<lambda>enabled.
        ebind (override_role d (p_role p)) (\<lambda>role.
        ebind (int_field d ''priority'' (p_priority p)) (\<lambda>priority.
        ebind (case d ''trust_score'' of None \<Rightarrow> Inr (p_trust_score p) | Some v \<Rightarrow> finite_decimal v) (\<lambda>trust.
        ebind (int_field d ''operational_ttl_seconds'' (p_operational_ttl_seconds p)) (\<lambda>ttl.
        let candidate = p\<lparr>p_enabled := (p_enabled p \<and> enabled), p_role := role, p_priority := priority,
              p_trust_score := trust, p_operational_ttl_seconds := ttl, p_budget := budget\<rparr> in
        if sane_provider candidate then Inr candidate
        else Inl (ValueError ''Provider runtime settings are invalid''))))))) of
          Inl _ \<Rightarrow> disabled p | Inr q \<Rightarrow> q)"

definition provider_override_rows ::
  "op_db \<Rightarrow> string list \<Rightarrow> string \<times> string \<rightharpoonup> setting_value" where
  "provider_override_rows db ids =
     (if ids = [] then Map.empty
      else case od_settings db of
        None \<Rightarrow> Map.empty
      | Some rows \<Rightarrow> (\<lambda>(key, scope).
          if key \<in> {''provider.config'', ''provider_budget_requests_per_hour''} \<and> scope \<in> insert ''global'' (set ids)
          then rows (key, scope) else None))"

definition operational_providers_for ::
  "json_loads \<Rightarrow> instrument_definition list \<Rightarrow> provider_definition list \<Rightarrow> op_db \<Rightarrow> string \<Rightarrow> provider_role list
   \<Rightarrow> provider_definition list result" where
  "operational_providers_for loads defs ps db iid roles =
     ebind (get_instrument defs iid) (\<lambda>i.
     let fallback = providers_by_instrument ps (i_instrument_id i);
         rows = (case od_providers db of None \<Rightarrow> [] | Some f \<Rightarrow> f (i_instrument_id i));
         providers = providers_from_rows fallback rows;
         overrides = provider_override_rows db (map p_provider_id providers);
         effective = sort_key priority_order (map (effective_provider loads overrides) providers)
     in Inr (if roles = [] then effective else filter (\<lambda>p. p_role p \<in> set roles) effective))"

section \<open>Facts about instruments\<close>

lemma caught_Some: "(case m of Inl _ \<Rightarrow> None | Inr x \<Rightarrow> Some x) = Some y \<longleftrightarrow> m = Inr y"
  by (cases m) auto

lemma post_init_keeps:
  assumes "instrument_post_init k = Inr j" "i_instrument_id k = i_instrument_id i"
    "i_allow_derived_fallback k \<longrightarrow> i_allow_derived_fallback i"
  shows "valid_instrument j \<and> i_instrument_id j = i_instrument_id i
    \<and> (i_allow_derived_fallback j \<longrightarrow> i_allow_derived_fallback i)"
  using assms unfolding instrument_post_init_iff by blast

lemma instrument_from_row_valid:
  assumes "valid_instrument i" "instrument_from_row i row = Some j"
  shows "valid_instrument j \<and> i_instrument_id j = i_instrument_id i
    \<and> (i_allow_derived_fallback j \<longrightarrow> i_allow_derived_fallback i)"
proof (cases row)
  case None
  then show ?thesis
    using assms by (simp add: instrument_from_row_def)
next
  case (Some r)
  show ?thesis
    using assms(2) unfolding Some instrument_from_row_def option.case caught_Some
    by (elim ebind_InrE) (erule post_init_keeps; simp (no_asm))
qed

lemma instrument_overrides_valid:
  assumes "valid_instrument i"
  shows "valid_instrument (instrument_overrides i e t) \<and> i_instrument_id (instrument_overrides i e t) = i_instrument_id i
    \<and> (i_allow_derived_fallback (instrument_overrides i e t) \<longrightarrow> i_allow_derived_fallback i)"
proof -
  define first where "first = (if e = SVal PNone then Inr i
     else ebind (set_int e) (\<lambda>expire.
       Inr (i\<lparr>i_expire_after_seconds := expire,
         i_stale_after_seconds := min (i_stale_after_seconds i) expire,
         i_operational_ttl_seconds := min (i_operational_ttl_seconds i) expire\<rparr>)))"
  define second where "second x = (if t = SVal PNone then Inr x
     else ebind (set_decimal t) (\<lambda>base.
       Inr (x\<lparr>i_base_anomaly_threshold_percent := base,
         i_maximum_dynamic_threshold_percent := max base (i_maximum_dynamic_threshold_percent i)\<rparr>)))" for x :: instrument_definition
  have first: "first = Inr x \<Longrightarrow> i_instrument_id x = i_instrument_id i
      \<and> i_allow_derived_fallback x = i_allow_derived_fallback i" for x
    by (auto simp: first_def err_simps split: if_splits)
  have second: "second x = Inr y \<Longrightarrow> i_instrument_id y = i_instrument_id x
      \<and> i_allow_derived_fallback y = i_allow_derived_fallback x" for x y
    by (auto simp: second_def err_simps split: if_splits)
  have eq: "instrument_overrides i e t
      = (case ebind first (\<lambda>x. ebind (second x) instrument_post_init) of Inl _ \<Rightarrow> i | Inr k \<Rightarrow> k)"
    unfolding instrument_overrides_def first_def second_def by (rule refl)
  show ?thesis
  proof (cases "ebind first (\<lambda>x. ebind (second x) instrument_post_init)")
    case (Inl err)
    then show ?thesis
      using assms eq by simp
  next
    case (Inr k)
    then obtain x y where "first = Inr x" "second x = Inr y" "instrument_post_init y = Inr k"
      by (elim ebind_InrE)
    then have "valid_instrument k \<and> i_instrument_id k = i_instrument_id i
        \<and> (i_allow_derived_fallback k \<longrightarrow> i_allow_derived_fallback i)"
      using first second by (intro post_init_keeps[of y]) auto
    moreover have "instrument_overrides i e t = k"
      unfolding eq Inr by (simp only: sum.case)
    ultimately show ?thesis
      by blast
  qed
qed

text \<open>Operational settings cannot break an instrument: whatever the tables hold, the definition in force
  is well formed, with nested windows, ordered price bounds and ordered thresholds, it is the one of the same
  instrument, it allows a derived price only where the code does, and it is the one of the code when the tables
  cannot be read.\<close>

theorem operational_instrument_sound:
  assumes "\<forall>i\<in>set defs. valid_instrument i" and "operational_instrument loads defs db iid = Inr j"
  shows "valid_instrument j \<and> (\<exists>i\<in>set defs. i_instrument_id j = i_instrument_id i
      \<and> (i_allow_derived_fallback j \<longrightarrow> i_allow_derived_fallback i)
      \<and> (od_instruments db = None \<longrightarrow> j = i))"
proof -
  define expiry where "expiry = value_of loads db ''canonical_expiry_seconds''"
  define threshold where "threshold = value_of loads db ''anomaly_threshold_percent''"
  obtain i where i: "get_instrument defs iid = Inr i"
      "j = (case od_instruments db of
            None \<Rightarrow> i
          | Some rows \<Rightarrow>
              (case instrument_from_row i (rows (i_instrument_id i)) of
                 None \<Rightarrow> i
               | Some resolved \<Rightarrow> instrument_overrides resolved (expiry (i_instrument_id i)) (threshold (i_instrument_id i))))"
    using assms(2) unfolding operational_instrument_def expiry_def[symmetric] threshold_def[symmetric]
    by (auto simp: err_simps Let_def)
  have mem: "i \<in> set defs"
    using i(1) by (auto simp: get_instrument_def find_instrument_def Let_def find_Some_iff split: option.splits)
  have v: "valid_instrument i"
    using assms(1) mem by blast
  consider "j = i" | row r a b where "instrument_from_row i row = Some r" "j = instrument_overrides r a b"
    using i(2) by (auto split: option.splits)
  then have "valid_instrument j \<and> i_instrument_id j = i_instrument_id i
      \<and> (i_allow_derived_fallback j \<longrightarrow> i_allow_derived_fallback i)"
  proof cases
    case (2 row r a b)
    have r: "valid_instrument r \<and> i_instrument_id r = i_instrument_id i
        \<and> (i_allow_derived_fallback r \<longrightarrow> i_allow_derived_fallback i)"
      by (rule instrument_from_row_valid[OF v 2(1)])
    show ?thesis
      using instrument_overrides_valid[of r a b] r unfolding 2(2) by argo
  qed (use v in simp)
  moreover have "od_instruments db = None \<longrightarrow> j = i"
    using i(2) by simp
  ultimately show ?thesis
    by (intro conjI bexI[of _ i] mem) simp_all
qed

lemma find_instrument_id: "find_instrument defs k = Some i \<Longrightarrow> i_instrument_id i = k \<and> i \<in> set defs"
  by (auto simp: find_instrument_def find_Some_iff)

lemma get_instrument_Inr: "get_instrument defs iid = Inr i \<longleftrightarrow> find_instrument defs (upper (strip iid)) = Some i"
  by (auto simp: get_instrument_def Let_def split: option.splits)

lemma instrument_fallbacks_find:
  assumes "instrument_fallbacks defs ids = Inr fb"
  shows "fb = (\<lambda>k. if k \<in> (\<lambda>s. upper (strip s)) ` set ids then find_instrument defs k else None)
    \<and> (\<forall>s\<in>set ids. find_instrument defs (upper (strip s)) \<noteq> None)"
  using assms
proof (induction ids arbitrary: fb)
  case (Cons s ids)
  then obtain i rest where i: "find_instrument defs (upper (strip s)) = Some i" "instrument_fallbacks defs ids = Inr rest"
      "fb = (\<lambda>k. if k = i_instrument_id i \<and> rest k = None then Some i else rest k)"
    by (auto simp: err_simps get_instrument_Inr)
  have "i_instrument_id i = upper (strip s)"
    using find_instrument_id[OF i(1)] by simp
  then show ?case
    using Cons.IH[OF i(2)] i by (auto simp: fun_eq_iff)
qed simp

lemma bulk_value_of:
  assumes "key \<in> {''canonical_expiry_seconds'', ''anomaly_threshold_percent''}" "iid \<in> ids"
  shows "bulk_value loads (case override_rows db ids of None \<Rightarrow> Map.empty | Some m \<Rightarrow> m) key iid = value_of loads db key iid"
proof (cases "od_settings db")
  case None
  then show ?thesis
    by (simp add: bulk_value_def override_rows_def value_of_def setting_row_def setting_value_of_def)
next
  case (Some rows)
  have "(case override_rows db ids of None \<Rightarrow> Map.empty | Some m \<Rightarrow> m) (key, scope) = rows (key, scope)"
    if "scope \<in> insert ''global'' ids" for scope
    using assms(1) that Some by (simp add: override_rows_def)
  then show ?thesis
    using assms(2) Some by (simp add: bulk_value_def value_of_def setting_row_def split: option.split)
qed

text \<open>Reading all instruments at once gives what reading them one by one gives: where the bulk read succeeds,
  it has exactly the requested instruments, under their normalised names, each with the definition the single read
  gives, with the same overrides and the same fallback when a table cannot be read.\<close>

theorem bulk_read_equivalent:
  assumes "operational_instruments loads defs db ids = Inr m"
  shows "dom m = (\<lambda>s. upper (strip s)) ` set ids
    \<and> (\<forall>s\<in>set ids. \<exists>j. operational_instrument loads defs db s = Inr j \<and> m (upper (strip s)) = Some j)"
proof -
  obtain fb where fb: "instrument_fallbacks defs ids = Inr fb"
    using assms by (auto simp: operational_instruments_def err_simps)
  note f = instrument_fallbacks_find[OF fb]
  have dom: "dom fb = (\<lambda>s. upper (strip s)) ` set ids"
    using f by (auto split: if_splits)
  define overrides where "overrides = (case override_rows db (dom fb) of None \<Rightarrow> Map.empty | Some m \<Rightarrow> m)"
  define expiry where "expiry = value_of loads db ''canonical_expiry_seconds''"
  define threshold where "threshold = value_of loads db ''anomaly_threshold_percent''"
  have values': "bulk_value loads overrides ''canonical_expiry_seconds'' k = expiry k"
      "bulk_value loads overrides ''anomaly_threshold_percent'' k = threshold k" if "k \<in> dom fb" for k
    using bulk_value_of[of _ k "dom fb"] that unfolding overrides_def expiry_def threshold_def by blast+
  define resolve where "resolve i rows = (case instrument_from_row i (rows (i_instrument_id i)) of None \<Rightarrow> i
      | Some r \<Rightarrow> instrument_overrides r (expiry (i_instrument_id i)) (threshold (i_instrument_id i)))" for i :: instrument_definition and rows
  have m: "m k = map_option (\<lambda>i. case od_instruments db of None \<Rightarrow> i | Some rows \<Rightarrow> resolve i rows) (fb k)" for k
  proof (cases "fb k")
    case (Some i)
    have "i_instrument_id i = k"
      using f Some find_instrument_id by (auto split: if_splits)
    moreover have "k \<in> dom fb"
      using Some by blast
    ultimately show ?thesis
      using assms fb Some values'[of k]
      by (auto simp: operational_instruments_def Let_def resolve_def overrides_def[symmetric] split: option.splits)
  qed (use assms fb in \<open>auto simp: operational_instruments_def Let_def split: option.splits\<close>)
  have "\<exists>j. operational_instrument loads defs db s = Inr j \<and> m (upper (strip s)) = Some j" if "s \<in> set ids" for s
  proof -
    obtain i where i: "find_instrument defs (upper (strip s)) = Some i" "fb (upper (strip s)) = Some i"
      using f \<open>s \<in> set ids\<close> by auto
    have "operational_instrument loads defs db s = Inr (case od_instruments db of None \<Rightarrow> i | Some rows \<Rightarrow> resolve i rows)"
      using i(1) unfolding operational_instrument_def expiry_def[symmetric] threshold_def[symmetric] resolve_def
      by (simp add: get_instrument_Inr[symmetric] Let_def)
    then show ?thesis
      using m i(2) by simp
  qed
  moreover have "dom m = dom fb"
    using m by (auto simp: dom_def)
  ultimately show ?thesis
    using dom by simp
qed

section \<open>Facts about providers\<close>

definition same_source :: "provider_definition \<Rightarrow> provider_definition \<Rightarrow> bool" where
  "same_source q p \<longleftrightarrow>
     (\<exists>role priority trust enabled ttl budget.
        q = p\<lparr>p_role := role, p_priority := priority, p_trust_score := trust, p_enabled := enabled,
              p_operational_ttl_seconds := ttl, p_budget := budget\<rparr> \<and> (enabled \<longrightarrow> p_enabled p))"

lemma same_source_refl: "same_source p p"
  unfolding same_source_def
  by (intro exI[of _ "p_role p"] exI[of _ "p_priority p"] exI[of _ "p_trust_score p"] exI[of _ "p_enabled p"]
      exI[of _ "p_operational_ttl_seconds p"] exI[of _ "p_budget p"]) simp

lemma same_source_trans:
  assumes "same_source r q" "same_source q p" shows "same_source r p"
proof -
  obtain ro pr t e tt b where r: "r = q\<lparr>p_role := ro, p_priority := pr, p_trust_score := t, p_enabled := e,
      p_operational_ttl_seconds := tt, p_budget := b\<rparr>" "e \<longrightarrow> p_enabled q"
    using assms(1) unfolding same_source_def by blast
  obtain ro' pr' t' e' tt' b' where q: "q = p\<lparr>p_role := ro', p_priority := pr', p_trust_score := t', p_enabled := e',
      p_operational_ttl_seconds := tt', p_budget := b'\<rparr>" "e' \<longrightarrow> p_enabled p"
    using assms(2) unfolding same_source_def by blast
  have "r = p\<lparr>p_role := ro, p_priority := pr, p_trust_score := t, p_enabled := e,
      p_operational_ttl_seconds := tt, p_budget := b\<rparr>"
    unfolding r(1) q(1) by simp
  moreover have "e \<longrightarrow> p_enabled p"
    using r(2) q by simp
  ultimately show ?thesis
    unfolding same_source_def by blast
qed

lemma same_source_ids:
  "same_source q p \<Longrightarrow> p_provider_id q = p_provider_id p \<and> p_instrument_id q = p_instrument_id p \<and> p_url q = p_url p
    \<and> p_api_key_setting q = p_api_key_setting p \<and> p_parser_id q = p_parser_id p
    \<and> p_source_family q = p_source_family p \<and> p_venue q = p_venue p \<and> (p_enabled q \<longrightarrow> p_enabled p)"
  unfolding same_source_def by auto

lemma same_source_disabled: "same_source (disabled p) p"
  unfolding same_source_def disabled_def
  by (intro exI[of _ "p_role p"] exI[of _ "p_priority p"] exI[of _ "p_trust_score p"] exI[of _ False]
      exI[of _ "p_operational_ttl_seconds p"] exI[of _ "p_budget p"]) simp

lemma same_source_intro:
  "same_source (p\<lparr>p_role := ro, p_priority := pr, p_trust_score := t, p_enabled := (p_enabled p \<and> e),
      p_operational_ttl_seconds := tt, p_budget := b\<rparr>) p"
  unfolding same_source_def by blast

lemma caught_cases:
  assumes "\<And>x. m = Inr x \<Longrightarrow> P x" "P d"
  shows "P (case m of Inl _ \<Rightarrow> d | Inr x \<Rightarrow> x)"
  using assms by (cases m) auto

lemma provider_from_row_same: "same_source (provider_from_row p row) p"
proof (cases row)
  case (Some r)
  show ?thesis
    unfolding Some provider_from_row_def option.case
  proof (rule caught_cases[where P = "\<lambda>q. same_source q p"], elim ebind_InrE, goal_cases)
    case (1 x budget role priority trust ttl)
    show ?case
      using 1(6) same_source_intro[where p = p] by (simp only: sum.inject) blast
  qed (rule same_source_disabled)
qed (simp add: provider_from_row_def same_source_refl)

lemma effective_provider_sound:
  "same_source (effective_provider loads ov p) p
   \<and> (p_enabled (effective_provider loads ov p) \<longrightarrow> sane_provider (effective_provider loads ov p))"
  unfolding effective_provider_def Let_def
proof (rule caught_cases[where P = "\<lambda>q. same_source q p \<and> (p_enabled q \<longrightarrow> sane_provider q)"], elim ebind_InrE, goal_cases)
  case (1 x budget enabled role priority trust ttl)
  let ?c = "p\<lparr>p_enabled := (p_enabled p \<and> enabled), p_role := role, p_priority := priority,
              p_trust_score := trust, p_operational_ttl_seconds := ttl, p_budget := budget\<rparr>"
  have "?c = p\<lparr>p_role := role, p_priority := priority, p_trust_score := trust, p_enabled := (p_enabled p \<and> enabled),
              p_operational_ttl_seconds := ttl, p_budget := budget\<rparr>"
    by (simp (no_asm))
  then have "same_source ?c p"
    using same_source_intro by metis
  moreover have "sane_provider ?c \<and> x = ?c"
    using 1(7) by (metis sum.distinct(1) sum.inject(2))
  ultimately show ?case
    by metis
next
  case 2
  show ?case
    using same_source_disabled by (simp add: disabled_def)
qed

text \<open>The tables and settings cannot widen what the code allows a price source to do: every provider in force
  is one of the code with at most its role, priority, trust, lifetime, budget and switch changed, so its address,
  credentials, parser and origin are those of the code; it is enabled only where the code enables it and its numbers
  are sane; no source is invented or lost; and the sources come in the order of their priority, restricted to the
  roles asked for.\<close>

theorem providers_in_force_sound:
  assumes "operational_providers_for loads defs ps db iid roles = Inr qs"
  shows "(\<forall>q\<in>set qs. \<exists>p\<in>set ps. same_source q p \<and> p_instrument_id q = upper (strip iid)
      \<and> (p_enabled q \<longrightarrow> p_enabled p \<and> sane_provider q) \<and> (roles \<noteq> [] \<longrightarrow> p_role q \<in> set roles))
    \<and> sorted (map priority_order qs)
    \<and> (roles = [] \<longrightarrow> mset (map p_provider_id qs) = mset (map p_provider_id (providers_by_instrument ps (upper (strip iid)))))"
proof -
  let ?fallback = "providers_by_instrument ps (upper (strip iid))"
  obtain i where i: "find_instrument defs (upper (strip iid)) = Some i" "get_instrument defs iid = Inr i"
    using assms by (auto simp: operational_providers_for_def err_simps get_instrument_Inr)
  then have key: "i_instrument_id i = upper (strip iid)"
    using find_instrument_id by blast
  obtain rows ov where q: "qs = (let effective = sort_key priority_order (map (effective_provider loads ov) (providers_from_rows ?fallback rows))
      in if roles = [] then effective else filter (\<lambda>p. p_role p \<in> set roles) effective)"
    using assms unfolding operational_providers_for_def i(2) ebind_simps Let_def key sum.inject by (metis (no_types))
  define es where "es = map (effective_provider loads ov) (providers_from_rows ?fallback rows)"
  have qs: "qs = (if roles = [] then sort_key priority_order es else filter (\<lambda>p. p_role p \<in> set roles) (sort_key priority_order es))"
    unfolding q es_def Let_def by (rule refl)
  have base: "\<exists>p\<in>set ?fallback. same_source r p" if "r \<in> set (providers_from_rows ?fallback rows)" for r
    using that provider_from_row_same same_source_refl by (auto simp: providers_from_rows_def Let_def split: if_splits)
  have "\<exists>p\<in>set ps. same_source q p \<and> p_instrument_id q = upper (strip iid) \<and> (p_enabled q \<longrightarrow> p_enabled p \<and> sane_provider q)"
    if "q \<in> set es" for q
  proof -
    obtain r where r: "q = effective_provider loads ov r" "r \<in> set (providers_from_rows ?fallback rows)"
      using \<open>q \<in> set es\<close> unfolding es_def by auto
    obtain p where p: "p \<in> set ?fallback" "same_source r p"
      using base[OF r(2)] by blast
    have s: "same_source q p"
      unfolding r(1) by (rule same_source_trans[OF conjunct1[OF effective_provider_sound] p(2)])
    have sane: "p_enabled q \<longrightarrow> sane_provider q"
      unfolding r(1) by (rule conjunct2[OF effective_provider_sound])
    have mem: "p \<in> set ps" "p_instrument_id p = upper (strip iid)"
      using p(1) by (auto simp: providers_by_instrument_def)
    have "p_instrument_id q = upper (strip iid)" "p_enabled q \<longrightarrow> p_enabled p"
      using same_source_ids[OF s] mem by simp_all
    then show ?thesis
      using s sane mem by (intro bexI[of _ p]) simp_all
  qed
  moreover have "sorted (map priority_order qs)"
    unfolding qs using sorted_sort_key[of priority_order es] by (auto simp: sorted_filter)
  moreover have "mset (map p_provider_id qs) = mset (map p_provider_id ?fallback)" if "roles = []"
  proof -
    have id: "p_provider_id (effective_provider loads ov r) = p_provider_id r"
        "p_provider_id (provider_from_row r row) = p_provider_id r" for r row
      using same_source_ids effective_provider_sound provider_from_row_same by blast+
    have "mset (map p_provider_id es) = mset (map p_provider_id (providers_from_rows ?fallback rows))"
      by (simp add: es_def id comp_def)
    also have "\<dots> = mset (map p_provider_id ?fallback)"
      by (simp add: providers_from_rows_def Let_def id multiset.map_comp comp_def)
    finally show ?thesis
      using that by (simp add: qs)
  qed
  ultimately show ?thesis
    using qs by (auto split: if_splits)
qed

section \<open>Examples\<close>

definition example_op_db :: op_db where
  "example_op_db = \<lparr>od_instruments = Some Map.empty,
     od_settings = Some [(''canonical_expiry_seconds'', ''global'') \<mapsto> SVal (PInt 600)],
     od_providers = Some (\<lambda>_. []), od_flags = Some Map.empty\<rparr>"

lemma example_key: "upper (strip ''BTC_USD'') = ''BTC_USD''"
  by (simp add: upper_def upper_char_def strip_def is_space_def)

lemma example_lookup: "get_instrument [example_instrument] ''BTC_USD'' = Inr example_instrument"
  unfolding get_instrument_def Let_def example_key
  by (simp add: find_instrument_def) (simp add: example_instrument_def)

lemma example_operational:
  "operational_instrument (\<lambda>_. None) [example_instrument] example_op_db ''BTC_USD''
     = Inr (example_instrument\<lparr>i_expire_after_seconds := 600, i_stale_after_seconds := 600\<rparr>)"
proof -
  have "value_of (\<lambda>_. None) example_op_db ''canonical_expiry_seconds'' k = SVal (PInt 600)"
      "value_of (\<lambda>_. None) example_op_db ''anomaly_threshold_percent'' k = SVal PNone" for k
    by (simp_all add: value_of_def setting_row_def setting_value_of_def example_op_db_def)
  moreover have "instrument_overrides example_instrument (SVal (PInt 600)) (SVal PNone)
      = example_instrument\<lparr>i_expire_after_seconds := 600, i_stale_after_seconds := 600\<rparr>"
    by (simp add: instrument_overrides_def set_int_def instrument_post_init_def example_instrument_def upper_def upper_char_def)
  moreover have "od_instruments example_op_db = Some Map.empty"
    by (simp add: example_op_db_def)
  ultimately show ?thesis
    unfolding operational_instrument_def example_lookup by (simp add: Let_def instrument_from_row_def)
qed

theorem operational_instrument_sound_witness:
  "valid_instrument (example_instrument\<lparr>i_expire_after_seconds := 600, i_stale_after_seconds := 600\<rparr>)"
  using operational_instrument_sound [OF _ example_operational] example_instrument_valid by simp

theorem bulk_read_equivalent_witness:
  "\<exists>m. operational_instruments (\<lambda>_. None) [example_instrument] example_op_db [''BTC_USD''] = Inr m
     \<and> m ''BTC_USD'' = Some (example_instrument\<lparr>i_expire_after_seconds := 600, i_stale_after_seconds := 600\<rparr>)"
proof -
  obtain m where m: "operational_instruments (\<lambda>_. None) [example_instrument] example_op_db [''BTC_USD''] = Inr m"
    by (simp add: operational_instruments_def example_lookup) (simp add: example_op_db_def Let_def)
  show ?thesis
    using bulk_read_equivalent [OF m] m example_operational example_key by auto
qed

definition example_source :: provider_definition where
  "example_source = \<lparr>p_provider_id = ''p'', p_display_name = ''P'', p_instrument_id = ''BTC_USD'', p_role = PRIMARY,
     p_priority = 1, p_trust_score = 1/2, p_url = ''https://h/p'', p_parser_id = ''x'', p_parser_version = ''1'',
     p_operational_ttl_seconds = 60,
     p_budget = \<lparr>b_requests_per_minute = 5, b_requests_per_hour = 50, b_requests_per_day = 500,
       b_reserved_anomaly_requests = 1, b_reserved_fallback_requests = 1, b_minimum_interval_seconds = 1,
       b_cooldown_after_429_seconds = 60, b_estimated_request_cost = 0\<rparr>,
     p_method = ''GET'', p_enabled = True, p_api_key_setting = None, p_api_key_header = None,
     p_api_key_query_parameter = None, p_static_headers = [], p_maximum_payload_bytes = 1000, p_history_url = None,
     p_history_parser_id = None, p_history_requires_live_quote = False, p_maximum_source_age_seconds = None,
     p_anchor_live_window_at_receive_time = False, p_source_semantic = EXCHANGE_TRADE, p_source_family = ''p'',
     p_venue = ''p'', p_selected_price_semantic = SEL_LAST, p_route_id = ''r'', p_requires_https = True,
     p_credential_placement = ''none'', p_unit_source = None, p_symbol_or_pair = None,
     p_selected_price_semantic_contract = None, p_independence_group = None, p_required_settings = []\<rparr>"

theorem providers_in_force_sound_witness:
  "\<exists>qs. operational_providers_for (\<lambda>_. None) [example_instrument] [example_source] example_op_db ''BTC_USD'' [] = Inr qs
     \<and> mset (map p_provider_id qs) = {#''p''#}"
proof -
  obtain qs where qs: "operational_providers_for (\<lambda>_. None) [example_instrument] [example_source] example_op_db ''BTC_USD'' [] = Inr qs"
    by (simp add: operational_providers_for_def example_lookup Let_def)
  show ?thesis
    using providers_in_force_sound [OF qs] qs example_key
    by (auto simp: providers_by_instrument_def) (simp_all add: example_source_def)
qed

end
