(* ===== verification/Telegram_Quotes.thy ===== *)
theory Telegram_Quotes
  imports Operational Providers
begin

text \<open>
  Model of \<open>apps/api/app/pricing/telegram.py\<close>: the stored Telegram observations that may verify or replace a
  price. A row is one of the join of quotes, parse results, messages and sources the statement reads; the
  statement keeps, for each source, the newest accepted observation of the window. Prices and purities of the
  table are finite numbers; trust, confidence and deviation are numeric columns, which may hold not-a-number.
\<close>

record telegram_row =
  tr_id :: int
  tr_instrument_id :: string
  tr_provider_id :: string
  tr_source_type :: string
  tr_price :: "rat option"
  tr_currency :: string
  tr_weight_unit :: "string option"
  tr_purity :: "string option"
  tr_observed_at :: instant
  tr_received_at :: instant
  tr_parser_version :: string
  tr_validation_status :: string
  tr_confidence_score :: rat
  tr_is_direct :: bool
  tr_is_derived :: bool
  tr_is_suspicious :: bool
  tr_idempotency_key :: string
  tr_parse_validation_status :: string
  tr_message_date :: instant
  tr_source_id :: int
  tr_source_enabled :: bool
  tr_allowed_instruments :: pyval
  tr_role :: string
  tr_trust_score :: pydec
  tr_minimum_confidence :: pydec
  tr_maximum_message_age_seconds :: "int option"
  tr_maximum_deviation_percent :: pydec
  tr_requires_multiple_sources :: bool

section \<open>The statement\<close>

definition row_selected :: "string \<Rightarrow> instant \<Rightarrow> instant \<Rightarrow> telegram_row \<Rightarrow> bool" where
  "row_selected iid earliest current r \<longleftrightarrow>
     tr_instrument_id r = iid \<and> tr_source_type r = ''telegram'' \<and> tr_validation_status r = ''accepted''
     \<and> tr_parse_validation_status r = ''accepted'' \<and> tr_source_enabled r
     \<and> tr_role r \<in> {''verifier'', ''fallback''} \<and> earliest \<le> tr_observed_at r \<and> tr_observed_at r \<le> current"

text \<open>\<open>DISTINCT ON (source.id) .. ORDER BY source.id, observed_at DESC\<close>.\<close>

definition newest_of_source :: "telegram_row list \<Rightarrow> int \<Rightarrow> telegram_row list" where
  "newest_of_source rows s =
     (case max_by tr_observed_at (filter (\<lambda>r. tr_source_id r = s) rows) of None \<Rightarrow> [] | Some r \<Rightarrow> [r])"

definition telegram_rows :: "string \<Rightarrow> instant \<Rightarrow> instant \<Rightarrow> telegram_row list \<Rightarrow> telegram_row list" where
  "telegram_rows iid earliest current rows =
     (let selected = filter (row_selected iid earliest current) rows
      in concat (map (newest_of_source selected) (sort (remdups (map tr_source_id selected)))))"

section \<open>One quote\<close>

definition currency_of :: "string \<Rightarrow> currency option" where
  "currency_of s = find (\<lambda>c. currency_value c = s) [TOMAN, USD]"

fun weight_unit_value :: "weight_unit \<Rightarrow> string" where
  "weight_unit_value GRAM = ''gram''"
| "weight_unit_value TROY_OUNCE = ''troy_ounce''"
| "weight_unit_value UNIT = ''unit''"

definition weight_unit_of :: "string \<Rightarrow> weight_unit option" where
  "weight_unit_of s = find (\<lambda>u. weight_unit_value u = s) [GRAM, TROY_OUNCE, UNIT]"

definition telegram_source :: "telegram_row \<Rightarrow> string" where
  "telegram_source r = ''telegram:'' @ int_text (tr_source_id r)"

text \<open>The first checks: of role, instrument, source and status.\<close>

definition row_approved :: "string list \<Rightarrow> instrument_definition \<Rightarrow> telegram_row \<Rightarrow> bool" where
  "row_approved roles i r \<longleftrightarrow>
     tr_role r \<in> set roles
     \<and> (case tr_allowed_instruments r of PList xs \<Rightarrow> i_instrument_id i \<in> set xs | _ \<Rightarrow> False)
     \<and> tr_provider_id r = telegram_source r \<and> tr_validation_status r = ''accepted''
     \<and> tr_parse_validation_status r = ''accepted'' \<and> tr_is_direct r \<and> \<not> tr_is_derived r \<and> \<not> tr_is_suspicious r"

definition row_recent :: "instrument_definition \<Rightarrow> instant \<Rightarrow> telegram_row \<Rightarrow> bool" where
  "row_recent i current r \<longleftrightarrow>
     (let maximum_age = (case tr_maximum_message_age_seconds r of None \<Rightarrow> 0 | Some n \<Rightarrow> n) in
      0 < maximum_age \<and> \<bar>total_seconds (tr_observed_at r - tr_message_date r)\<bar> \<le> 1
      \<and> total_seconds (current - tr_observed_at r) \<le> of_int (min maximum_age (i_operational_ttl_seconds i)))"

definition unit_interval :: "pydec \<Rightarrow> bool" where
  "unit_interval d = (case d of DFin x \<Rightarrow> 0 \<le> x \<and> x \<le> 1 | _ \<Rightarrow> False)"

definition positive_decimal :: "pydec \<Rightarrow> bool" where
  "positive_decimal d = (case d of DFin x \<Rightarrow> 0 < x | _ \<Rightarrow> False)"

text \<open>The purity in parts of one, also where the row has it in parts of a thousand; \<open>None\<close> for text that is no
  number, \<open>Some None\<close> for a row without.\<close>

definition row_purity :: "telegram_row \<Rightarrow> pydec option option" where
  "row_purity r =
     (case tr_purity r of
        None \<Rightarrow> Some None
      | Some s \<Rightarrow> (case py_decimal (PStr s) of
          Inl _ \<Rightarrow> None
        | Inr DNaN \<Rightarrow> None
        | Inr (DInf b) \<Rightarrow> Some (Some (DInf b))
        | Inr (DFin x) \<Rightarrow> Some (Some (DFin (if x > 1 then dctx (x / 1000) else x)))))"

definition row_unit :: "telegram_row \<Rightarrow> weight_unit option" where
  "row_unit r = (case tr_weight_unit r of None \<Rightarrow> Some UNIT | Some s \<Rightarrow> weight_unit_of s)"

definition row_in_policy :: "instrument_definition \<Rightarrow> telegram_row \<Rightarrow> rat \<Rightarrow> bool" where
  "row_in_policy i r price \<longleftrightarrow>
     accepts i price \<and> currency_of (tr_currency r) = Some (i_quote_currency i)
     \<and> row_unit r = Some (i_weight_unit i) \<and> row_purity r = Some (map_option DFin (i_purity i))
     \<and> unit_interval (tr_trust_score r) \<and> unit_interval (tr_minimum_confidence r)
     \<and> positive_decimal (tr_maximum_deviation_percent r)"

definition dec_text :: "pydec \<Rightarrow> pyval" where
  "dec_text d = (case d of DFin x \<Rightarrow> PDecStr x | DInf b \<Rightarrow> PFloat (FInf b) | DNaN \<Rightarrow> PFloat FNaN)"

definition telegram_args :: "instrument_definition \<Rightarrow> telegram_row \<Rightarrow> rat \<Rightarrow> int \<Rightarrow> quote_args" where
  "telegram_args i r price maximum_age = default_args
     \<lparr>a_id := Some (tr_id r), a_instrument_id := i_instrument_id i, a_provider_id := tr_provider_id r,
      a_source_type := ST_TELEGRAM, a_price := PDecStr price, a_currency := i_quote_currency i,
      a_weight_unit := i_weight_unit i, a_purity := i_purity i,
      a_observed_at := utc (tr_observed_at r), a_received_at := utc (tr_received_at r),
      a_parser_version := tr_parser_version r, a_validation_status := ACCEPTED,
      a_confidence_score := PDecStr (tr_confidence_score r), a_is_direct := True, a_is_derived := False,
      a_is_suspicious := False, a_source_semantic := PStr (source_semantic_value TELEGRAM_OBSERVATION),
      a_source_family := PStr (telegram_source r), a_venue := PStr ''telegram'',
      a_selected_price_semantic := PStr (price_semantic_value SEL_PROVIDER_SELECTED),
      a_original_currency := PStr (currency_value (i_quote_currency i)), a_original_value := PDecStr price,
      a_conversion_factor := PDecStr 1, a_route_id := PStr ''telegram_ingestion'', a_derivation_depth := 0,
      a_provenance := [telegram_source r],
      a_metadata := [''whitelisted'' \<mapsto> PBool True,
         ''source_identity'' \<mapsto> PStr (int_text (tr_source_id r)),
         ''source_role'' \<mapsto> PStr (tr_role r),
         ''approved_verifier'' \<mapsto> PBool (tr_role r = ''verifier''),
         ''approved_fallback'' \<mapsto> PBool (tr_role r = ''fallback''),
         ''trust_score'' \<mapsto> dec_text (tr_trust_score r),
         ''minimum_confidence'' \<mapsto> dec_text (tr_minimum_confidence r),
         ''maximum_message_age_seconds'' \<mapsto> PInt maximum_age,
         ''maximum_deviation_percent'' \<mapsto> dec_text (tr_maximum_deviation_percent r),
         ''requires_multiple_sources'' \<mapsto> PBool (tr_requires_multiple_sources r)],
      a_persistence_status := PERSISTED, a_idempotency_key := KeyText (tr_idempotency_key r)\<rparr>"

text \<open>\<open>_quote_from_row\<close>: a row that does not fit gives no quote.\<close>

definition quote_from_row ::
  "string list \<Rightarrow> instrument_definition \<Rightarrow> instant \<Rightarrow> telegram_row \<Rightarrow> provider_quote option" where
  "quote_from_row roles i current r =
     (if \<not> row_approved roles i r \<or> \<not> row_recent i current r then None
      else case tr_price r of
        None \<Rightarrow> None
      | Some price \<Rightarrow>
          if \<not> row_in_policy i r price then None
          else (case provider_quote_create
                  (telegram_args i r price (case tr_maximum_message_age_seconds r of None \<Rightarrow> 0 | Some n \<Rightarrow> n)) of
              Inl _ \<Rightarrow> None | Inr q \<Rightarrow> Some q))"

section \<open>The repository\<close>

text \<open>\<open>latest\<close>: \<open>None\<close> stands for an exception of the database.\<close>

definition telegram_latest ::
  "bool \<Rightarrow> instrument_definition \<Rightarrow> string list \<Rightarrow> instant \<Rightarrow> telegram_row list option \<Rightarrow> provider_quote list option" where
  "telegram_latest enabled i roles current table =
     (let allowed = filter (\<lambda>role. role \<in> {''verifier'', ''fallback''}) roles in
      if \<not> enabled \<or> allowed = [] then Some []
      else map_option (\<lambda>rows. List.map_filter (quote_from_row allowed i current)
             (telegram_rows (i_instrument_id i) (current - seconds (i_operational_ttl_seconds i)) current rows)) table)"

section \<open>Facts\<close>

lemma newest_of_source_cases:
  obtains "newest_of_source rows s = []"
  | r where "newest_of_source rows s = [r]" "r \<in> set rows" "tr_source_id r = s"
proof (cases "max_by tr_observed_at (filter (\<lambda>r. tr_source_id r = s) rows)")
  case None
  then show ?thesis
    using that(1) by (simp only: newest_of_source_def) simp
next
  case (Some r)
  then show ?thesis
    using that(2)[of r] max_by_in[OF Some] by (simp add: newest_of_source_def)
qed

lemma telegram_rows_sub:
  assumes "r \<in> set (telegram_rows iid earliest current rows)"
  shows "row_selected iid earliest current r"
proof -
  let ?sel = "filter (row_selected iid earliest current) rows"
  obtain s where s: "r \<in> set (newest_of_source ?sel s)"
    using assms by (auto simp: telegram_rows_def Let_def)
  show ?thesis
    by (cases rule: newest_of_source_cases[of ?sel s]) (use s in auto)
qed

lemma newest_of_source_ids: "map tr_source_id (newest_of_source rows s) \<in> {[], [s]}"
  by (cases rule: newest_of_source_cases[of rows s]) auto

lemma distinct_concat_short:
  assumes "distinct xs" "\<And>x. map f (g x) \<in> {[], [x]}"
  shows "distinct (map f (concat (map g xs)))"
  using assms(1)
proof (induction xs)
  case (Cons x xs)
  have "set (map f (concat (map g xs))) \<subseteq> set xs"
  proof
    fix y
    assume "y \<in> set (map f (concat (map g xs)))"
    then obtain z where z: "z \<in> set xs" "y \<in> set (map f (g z))"
      by auto
    then show "y \<in> set xs"
      using assms(2)[of z] by auto
  qed
  then have "x \<notin> set (map f (concat (map g xs)))"
    using Cons.prems by auto
  moreover have "distinct (map f (concat (map g xs)))"
    using Cons by simp
  moreover have "map f (concat (map g (x # xs))) \<in> {map f (concat (map g xs)), x # map f (concat (map g xs))}"
    using assms(2)[of x] by (simp only: list.map concat.simps map_append insert_iff empty_iff) (metis append_Cons append_Nil)
  ultimately show ?case
    by (metis distinct.simps(2) empty_iff insert_iff)
qed simp

lemma telegram_rows_distinct: "distinct (map tr_source_id (telegram_rows iid earliest current rows))"
  unfolding telegram_rows_def Let_def
  by (intro distinct_concat_short) (use newest_of_source_ids in auto)

text \<open>The keys of the metadata the constructor of a quote writes.\<close>

definition provenance_keys :: "string list" where
  "provenance_keys = [''source_semantic'', ''source_family'', ''venue'', ''selected_price_semantic'',
     ''original_currency'', ''conversion_factor'', ''route_id'', ''derivation_depth'', ''provenance'',
     ''source_timestamp'', ''receive_timestamp'', ''last'', ''original_value'', ''spread_bps'']"

lemma normalized_metadata_keeps:
  assumes "k \<notin> set provenance_keys"
  shows "normalized_metadata q k = q_metadata q k"
proof -
  have k: "k \<noteq> ''source_semantic'' \<and> k \<noteq> ''source_family'' \<and> k \<noteq> ''venue'' \<and> k \<noteq> ''selected_price_semantic''
    \<and> k \<noteq> ''original_currency'' \<and> k \<noteq> ''conversion_factor'' \<and> k \<noteq> ''route_id'' \<and> k \<noteq> ''derivation_depth''
    \<and> k \<noteq> ''provenance'' \<and> k \<noteq> ''source_timestamp'' \<and> k \<noteq> ''receive_timestamp'' \<and> k \<noteq> ''last''
    \<and> k \<noteq> ''original_value'' \<and> k \<noteq> ''spread_bps''"
    using assms by (simp add: provenance_keys_def)
  then show ?thesis
    unfolding normalized_metadata_def Let_def by (simp split: option.split)
qed

lemma normalize_metadata_other:
  assumes "normalize_source_provenance a q = Inr q'" "k \<notin> set provenance_keys"
  shows "q_metadata q' k = q_metadata q k"
  using assms(1) unfolding normalize_source_provenance_def Let_def
  by (elim ebind_InrE) (auto simp: normalized_metadata_keeps[OF assms(2)])

lemma normalize_semantic:
  assumes "normalize_source_provenance a q = Inr q'" "a_source_semantic a = PStr (source_semantic_value s)"
  shows "q_source_semantic q' = s"
proof -
  have "source_semantic_value s \<noteq> []"
    by (cases s) simp_all
  then have "or_val (a_source_semantic a) v = PStr (source_semantic_value s)" for v
    by (simp add: assms(2) or_val_def)
  then show ?thesis
    using assms(1) unfolding normalize_source_provenance_def Let_def
    by (elim ebind_InrE) (auto simp: source_semantic_round_trip)
qed

lemma create_fields:
  assumes "provider_quote_create a = Inr q"
  shows "q_id q = a_id a" "q_instrument_id q = a_instrument_id a" "q_validation_status q = a_validation_status a"
    "q_persistence_status q = a_persistence_status a" "q_is_suspicious q = a_is_suspicious a"
    "q_observed_at q = ensure_utc (a_observed_at a)" "decimal_or_none (a_price a) = Inr (q_price q)"
    "decimal_value True (a_confidence_score a) = Inr (q_confidence_score q)"
    "k \<notin> set provenance_keys \<Longrightarrow> q_metadata q k = a_metadata a k"
    "a_source_semantic a = PStr (source_semantic_value s) \<Longrightarrow> q_source_semantic q = s"
proof -
  from assms obtain price bid ask lst volume confidence q' where
      c: "decimal_or_none (a_price a) = Inr price" "decimal_value True (a_confidence_score a) = Inr confidence"
    and n: "normalize_source_provenance a (raw_quote a price bid ask lst volume confidence) = Inr q'"
    and q: "q = q'\<lparr>q_idempotency_key := quote_key q'\<rparr>"
    unfolding provider_quote_create_def by (auto simp: err_simps)
  note fr = normalize_source_provenance_frame[OF n]
  show "q_id q = a_id a" "q_instrument_id q = a_instrument_id a" "q_validation_status q = a_validation_status a"
    "q_persistence_status q = a_persistence_status a" "q_is_suspicious q = a_is_suspicious a"
    "q_observed_at q = ensure_utc (a_observed_at a)" "decimal_or_none (a_price a) = Inr (q_price q)"
    "decimal_value True (a_confidence_score a) = Inr (q_confidence_score q)"
    using fr c by (simp_all add: q raw_quote_def)
  show "k \<notin> set provenance_keys \<Longrightarrow> q_metadata q k = a_metadata a k"
    using normalize_metadata_other[OF n] by (simp add: q raw_quote_def)
  show "a_source_semantic a = PStr (source_semantic_value s) \<Longrightarrow> q_source_semantic q = s"
    using normalize_semantic[OF n] by (simp add: q)
qed

definition row_quote :: "instrument_definition \<Rightarrow> telegram_row \<Rightarrow> provider_quote \<Rightarrow> bool" where
  "row_quote i r q \<longleftrightarrow>
     (\<exists>price age trust conf dev. tr_price r = Some price \<and> tr_maximum_message_age_seconds r = Some age \<and> 0 < age
        \<and> row_in_policy i r price \<and> tr_trust_score r = DFin trust \<and> tr_minimum_confidence r = DFin conf
        \<and> tr_maximum_deviation_percent r = DFin dev \<and> provider_quote_create (telegram_args i r price age) = Inr q)"

lemma quote_from_row_Some:
  assumes "quote_from_row roles i current r = Some q"
  shows "row_approved roles i r" "row_recent i current r" "row_quote i r q"
proof -
  show a: "row_approved roles i r" "row_recent i current r"
    using assms by (simp_all add: quote_from_row_def split: if_splits)
  obtain age where age: "tr_maximum_message_age_seconds r = Some age" "0 < age"
    using a(2) by (auto simp: row_recent_def split: option.splits)
  obtain price where price: "tr_price r = Some price" "row_in_policy i r price"
      "provider_quote_create (telegram_args i r price age) = Inr q"
    using assms a age by (auto simp: quote_from_row_def split: option.splits if_splits sum.splits)
  then show "row_quote i r q"
    using age by (auto simp: row_quote_def row_in_policy_def unit_interval_def positive_decimal_def split: pydec.splits)
qed

lemma telegram_metadata:
  assumes "provider_quote_create (telegram_args i r price age) = Inr q"
  shows "q_metadata q ''whitelisted'' = Some (PBool True)" "q_metadata q ''source_role'' = Some (PStr (tr_role r))"
    "q_metadata q ''source_identity'' = Some (PStr (int_text (tr_source_id r)))"
    "q_metadata q ''approved_verifier'' = Some (PBool (tr_role r = ''verifier''))"
    "q_metadata q ''approved_fallback'' = Some (PBool (tr_role r = ''fallback''))"
    "q_metadata q ''trust_score'' = Some (dec_text (tr_trust_score r))"
    "q_metadata q ''minimum_confidence'' = Some (dec_text (tr_minimum_confidence r))"
    "q_metadata q ''maximum_message_age_seconds'' = Some (PInt age)"
    "q_metadata q ''maximum_deviation_percent'' = Some (dec_text (tr_maximum_deviation_percent r))"
  by (simp_all add: create_fields(9)[OF assms] provenance_keys_def telegram_args_def)

lemma telegram_fields:
  assumes "provider_quote_create (telegram_args i r price age) = Inr q"
  shows "q_source_semantic q = TELEGRAM_OBSERVATION" "q_source_type q = ST_TELEGRAM" "q_instrument_id q = i_instrument_id i"
    "q_validation_status q = ACCEPTED" "q_persistence_status q = PERSISTED" "\<not> q_is_derived q" "\<not> q_is_suspicious q"
    "q_id q = Some (tr_id r)" "q_observed_at q = tr_observed_at r" "q_price q = Some price"
proof -
  show sem: "q_source_semantic q = TELEGRAM_OBSERVATION"
    by (rule create_fields(10)[OF assms]) (simp add: telegram_args_def)
  have v: "valid_quote q"
    by (rule provider_quote_create_valid[OF assms])
  show "q_source_type q = ST_TELEGRAM" "\<not> q_is_derived q"
    using v sem by (simp_all add: valid_quote_def legacy_source_type_def)
  show "q_instrument_id q = i_instrument_id i" "q_validation_status q = ACCEPTED" "q_persistence_status q = PERSISTED"
    "\<not> q_is_suspicious q" "q_id q = Some (tr_id r)" "q_observed_at q = tr_observed_at r"
    using create_fields(1-6)[OF assms] by (simp_all add: telegram_args_def)
  show "q_price q = Some price"
    using create_fields(7)[OF assms]
    by (auto simp: telegram_args_def decimal_or_none_def decimal_value_def err_simps split: if_splits)
qed

text \<open>The policy asks of a stored observation only what the repository does not know: its own minimum of trust, and
  the confidence the source requires.\<close>

lemma row_quote_fits:
  assumes "row_quote i r q" "row_recent i current r" "tr_role r \<in> {''verifier'', ''fallback''}" "tr_observed_at r \<le> current"
  obtains trust conf where "0 \<le> trust" "trust \<le> 1"
    "\<And>m. fits_role i (tr_role r) m current q \<longleftrightarrow> m \<le> trust \<and> conf \<le> q_confidence_score q"
proof -
  obtain price age trust conf dev where r: "tr_price r = Some price" "tr_maximum_message_age_seconds r = Some age" "0 < age"
      "row_in_policy i r price" "tr_trust_score r = DFin trust" "tr_minimum_confidence r = DFin conf"
      "tr_maximum_deviation_percent r = DFin dev" "provider_quote_create (telegram_args i r price age) = Inr q"
    using assms(1) unfolding row_quote_def by blast
  note f = telegram_fields[OF r(8)] and m = telegram_metadata[OF r(8)]
  have u: "0 \<le> trust" "trust \<le> 1" "0 \<le> conf" "conf \<le> 1" "0 < dev"
    using r(4-7) by (simp_all add: row_in_policy_def unit_interval_def positive_decimal_def)
  have lim: "role_limits i q = Inr (DFin trust, DFin conf, age, DFin dev)"
    by (simp add: role_limits_def m dict_get_def r(5-7) dec_text_def)
  have ident: "source_identity q = int_text (tr_source_id r)" "int_text (tr_source_id r) \<noteq> []"
    by (simp_all add: source_identity_def m dict_get_def or_val_def int_text_nonempty)
  have flag: "py_truth (dict_get (q_metadata q) (''approved_'' @ tr_role r) (PBool False))"
    using assms(3) m(4,5) by (auto simp: dict_get_def)
  have age: "\<not> total_seconds (current - tr_observed_at r) < 0"
      "\<not> total_seconds (current - tr_observed_at r) > of_int (min age (i_operational_ttl_seconds i))"
    using assms(2,4) r(2) by (simp_all add: row_recent_def Let_def)
  have "fits_role i (tr_role r) t current q \<longleftrightarrow> t \<le> trust \<and> conf \<le> q_confidence_score q" for t
    using f u age ident flag r(3) m(1,2)
    by (auto simp: fits_role_def lim Let_def dict_get_def)
  then show ?thesis
    using that u(1,2) by blast
qed

lemma digits_val_snoc: "digits_val (s @ [c]) = 10 * digits_val s + digit_val c"
  by (simp add: digits_val_def)

lemma digits_val_nat_text: "0 \<le> n \<Longrightarrow> digits_val (nat_text n) = n"
proof (induction n rule: nat_text.induct)
  case (1 n)
  have d: "digit_val (char_of (nat (48 + m))) = m" if "0 \<le> m" "m < 10" for m
    using that by (simp add: digit_val_def of_char_of)
  show ?case
  proof (cases "n < 10")
    case True
    then show ?thesis
      using 1 d[of n] by (subst nat_text.simps) (simp add: digits_val_def)
  next
    case False
    then show ?thesis
      using 1 d[of "n mod 10"] by (subst nat_text.simps) (simp add: digits_val_snoc)
  qed
qed

lemma nat_text_digit: "c \<in> set (nat_text n) \<Longrightarrow> 0 \<le> n \<Longrightarrow> c \<noteq> CHR ''-''"
proof (induction n rule: nat_text.induct)
  case (1 n)
  have d: "char_of (nat (48 + m)) \<noteq> CHR ''-''" if "0 \<le> m" "m < 10" for m
  proof
    assume "char_of (nat (48 + m)) = CHR ''-''"
    then have "of_char (char_of (nat (48 + m)) :: char) = (45 :: nat)"
      by simp
    then show False
      using that by (simp add: of_char_of)
  qed
  show ?case
  proof (cases "n < 10")
    case True
    then show ?thesis
      using 1 d[of n] nat_text.simps[of n] by auto
  next
    case False
    then have "0 \<le> n div 10"
      by simp
    then show ?thesis
      using 1 False d[of "n mod 10"] nat_text.simps[of n] by auto
  qed
qed

lemma int_text_inj: "int_text m = int_text n \<longleftrightarrow> m = n"
proof
  assume e: "int_text m = int_text n"
  have minus: "hd (nat_text k) \<noteq> CHR ''-''" if "0 \<le> k" for k
    using nat_text_digit[of "hd (nat_text k)" k] int_text_nonempty[of k] that
    by (simp add: int_text_def split: if_splits)
  show "m = n"
  proof (cases "m < 0"; cases "n < 0")
    assume n: "m < 0" "n < 0"
    then have "nat_text (- m) = nat_text (- n)"
      using e by (simp only: int_text_def if_True list.inject)
    then have "digits_val (nat_text (- m)) = digits_val (nat_text (- n))"
      by (rule arg_cong)
    then show ?thesis
      using n by (simp only: digits_val_nat_text neg_0_le_iff_le less_imp_le)
  next
    assume n: "\<not> m < 0" "\<not> n < 0"
    then have "nat_text m = nat_text n"
      using e by (simp only: int_text_def if_False)
    then have "digits_val (nat_text m) = digits_val (nat_text n)"
      by (rule arg_cong)
    then show ?thesis
      using n by (simp only: digits_val_nat_text not_less)
  next
    assume "m < 0" "\<not> n < 0"
    then show ?thesis
      using e minus[of n] by (metis int_text_def list.sel(1) linorder_not_less)
  next
    assume "\<not> m < 0" "n < 0"
    then show ?thesis
      using e minus[of m] by (metis int_text_def list.sel(1) linorder_not_less)
  qed
qed simp

lemma map_filter_identities:
  assumes "\<And>r q. r \<in> set rows \<Longrightarrow> f r = Some q \<Longrightarrow> source_identity q = int_text (tr_source_id r)"
    and "distinct (map tr_source_id rows)"
  shows "distinct (map source_identity (List.map_filter f rows))"
proof -
  let ?ids = "\<lambda>rs. set (map source_identity (List.map_filter f rs))"
  have sub: "?ids rs \<subseteq> int_text ` set (map tr_source_id rs)" if "set rs \<subseteq> set rows" for rs
    using that
  proof (induction rs)
    case (Cons r rs)
    then show ?case
      using assms(1)[of r] by (auto simp: map_filter_simps split: option.split)
  qed (simp add: map_filter_simps)
  have "distinct (map source_identity (List.map_filter f rs))" if "set rs \<subseteq> set rows" "distinct (map tr_source_id rs)" for rs
    using that
  proof (induction rs)
    case (Cons r rs)
    have "int_text (tr_source_id r) \<notin> ?ids rs"
      using sub[of rs] Cons.prems by (auto simp: int_text_inj)
    then show ?case
      using Cons assms(1)[of r] by (auto simp: map_filter_simps split: option.split)
  qed (simp add: map_filter_simps)
  then show ?thesis
    using assms(2) by simp
qed

text \<open>The stored Telegram observations given to the price policy are of approved sources: each is a valid,
  accepted and stored observation of the instrument, priced within its bounds, of a role asked for, not in the future
  and not older than the time to live of the instrument; the policy asks nothing more of it than its own minimum of trust
  and the confidence its source requires; and no source gives two of them.\<close>

theorem telegram_quotes_approved:
  assumes "telegram_latest enabled i roles current table = Some qs"
  shows "(\<forall>q\<in>set qs. valid_quote q \<and> q_instrument_id q = i_instrument_id i \<and> q_validation_status q = ACCEPTED
        \<and> q_persistence_status q = PERSISTED \<and> (\<exists>p. q_price q = Some p \<and> accepts i p)
        \<and> current - seconds (i_operational_ttl_seconds i) \<le> q_observed_at q \<and> q_observed_at q \<le> current
        \<and> (\<exists>role\<in>set roles. \<exists>trust conf. 0 \<le> trust \<and> trust \<le> 1
             \<and> (\<forall>m. fits_role i role m current q \<longleftrightarrow> m \<le> trust \<and> conf \<le> q_confidence_score q)))
    \<and> distinct (map source_identity qs)"
proof -
  let ?allowed = "filter (\<lambda>role. role \<in> {''verifier'', ''fallback''}) roles"
  let ?rows = "\<lambda>rows. telegram_rows (i_instrument_id i) (current - seconds (i_operational_ttl_seconds i)) current rows"
  show ?thesis
  proof (cases "\<not> enabled \<or> ?allowed = []")
    case True
    then have "qs = []"
      using assms unfolding telegram_latest_def Let_def if_P[OF True] by simp
    then show ?thesis
      by simp
  next
    case False
    then obtain rows where qs: "qs = List.map_filter (quote_from_row ?allowed i current) (?rows rows)"
      using assms unfolding telegram_latest_def Let_def if_not_P[OF False] by auto
    have one: "row_selected (i_instrument_id i) (current - seconds (i_operational_ttl_seconds i)) current r \<and>
        row_approved ?allowed i r \<and> row_recent i current r \<and> row_quote i r q"
      if "r \<in> set (?rows rows)" "quote_from_row ?allowed i current r = Some q" for r q
      using telegram_rows_sub[OF that(1)] quote_from_row_Some[OF that(2)] by simp
    have ident: "source_identity q = int_text (tr_source_id r)"
      if r: "r \<in> set (?rows rows)" "quote_from_row ?allowed i current r = Some q" for r q
    proof -
      have "row_quote i r q"
        using one[OF r] by simp
      then obtain price age where "provider_quote_create (telegram_args i r price age) = Inr q"
        unfolding row_quote_def by blast
      then show ?thesis
        by (simp add: source_identity_def telegram_metadata dict_get_def or_val_def int_text_nonempty)
    qed
    have dist: "distinct (map source_identity qs)"
      unfolding qs by (rule map_filter_identities[OF ident telegram_rows_distinct])
    have "valid_quote q \<and> q_instrument_id q = i_instrument_id i \<and> q_validation_status q = ACCEPTED
        \<and> q_persistence_status q = PERSISTED \<and> (\<exists>p. q_price q = Some p \<and> accepts i p)
        \<and> current - seconds (i_operational_ttl_seconds i) \<le> q_observed_at q \<and> q_observed_at q \<le> current
        \<and> (\<exists>role\<in>set roles. \<exists>trust conf. 0 \<le> trust \<and> trust \<le> 1
             \<and> (\<forall>m. fits_role i role m current q \<longleftrightarrow> m \<le> trust \<and> conf \<le> q_confidence_score q))"
      if q: "q \<in> set qs" for q
    proof -
      obtain r where r: "r \<in> set (?rows rows)" "quote_from_row ?allowed i current r = Some q"
        using q unfolding qs by (auto simp: List.map_filter_def)
      note o = one[OF r]
      then obtain price age where c: "row_in_policy i r price" "provider_quote_create (telegram_args i r price age) = Inr q"
        unfolding row_quote_def by blast
      note f = telegram_fields[OF c(2)]
      have role: "tr_role r \<in> {''verifier'', ''fallback''}" "tr_role r \<in> set roles"
        using o by (auto simp: row_approved_def)
      have win: "current - seconds (i_operational_ttl_seconds i) \<le> tr_observed_at r" "tr_observed_at r \<le> current"
        using o by (simp_all add: row_selected_def)
      obtain trust conf where t: "0 \<le> trust" "trust \<le> 1"
          "\<And>m. fits_role i (tr_role r) m current q \<longleftrightarrow> m \<le> trust \<and> conf \<le> q_confidence_score q"
        using row_quote_fits[of i r q current] o role(1) win(2) by blast
      show ?thesis
        using provider_quote_create_valid[OF c(2)] f c(1) win role(2) t by (auto simp: row_in_policy_def)
    qed
    then show ?thesis
      using dist by blast
  qed
qed

definition example_telegram_row :: telegram_row where
  "example_telegram_row = \<lparr>tr_id = 9, tr_instrument_id = ''BTC_USD'', tr_provider_id = ''telegram:4'',
     tr_source_type = ''telegram'', tr_price = Some 60000, tr_currency = ''USD'', tr_weight_unit = Some ''unit'',
     tr_purity = None, tr_observed_at = 1000000, tr_received_at = 2000000, tr_parser_version = ''1'',
     tr_validation_status = ''accepted'', tr_confidence_score = 9/10, tr_is_direct = True, tr_is_derived = False,
     tr_is_suspicious = False, tr_idempotency_key = ''k'', tr_parse_validation_status = ''accepted'',
     tr_message_date = 1000000, tr_source_id = 4, tr_source_enabled = True,
     tr_allowed_instruments = PList [''BTC_USD''], tr_role = ''fallback'', tr_trust_score = DFin (9/10),
     tr_minimum_confidence = DFin (8/10), tr_maximum_message_age_seconds = Some 300,
     tr_maximum_deviation_percent = DFin 3, tr_requires_multiple_sources = False\<rparr>"

lemma int_text_4: "int_text 4 = ''4''"
  by (simp add: int_text_def nat_text.simps[of 4]) code_simp

lemma example_telegram_created:
  "\<exists>q. provider_quote_create (telegram_args example_instrument example_telegram_row 60000 300) = Inr q"
  by (simp add: provider_quote_create_def telegram_args_def default_args_def example_telegram_row_def
      example_instrument_def decimal_or_none_def decimal_value_def seconds_def
      default_future_clock_skew_seconds_def normalize_source_provenance_def raw_quote_def dict_get_def or_val_def
      first_of_def enum_of_def source_semantics_def text_value_def strip_def is_space_def price_semantics_def
      source_spread_def depth_of_def list_items_def upper_def upper_char_def telegram_source_def int_text_4
      Let_def)

theorem telegram_quotes_approved_witness:
  "\<exists>q. telegram_latest True example_instrument [''fallback''] 3000000 (Some [example_telegram_row]) = Some [q]
     \<and> (\<exists>p. q_price q = Some p \<and> accepts example_instrument p)"
proof -
  obtain q where q: "provider_quote_create (telegram_args example_instrument example_telegram_row 60000 300) = Inr q"
    using example_telegram_created by blast
  have sel: "row_selected ''BTC_USD'' (3000000 - seconds 360) 3000000 example_telegram_row"
    by (simp add: row_selected_def example_telegram_row_def seconds_def)
  have "telegram_rows ''BTC_USD'' (3000000 - seconds 360) 3000000 [example_telegram_row] = [example_telegram_row]"
    using sel by (simp add: telegram_rows_def newest_of_source_def)
  moreover have "total_seconds 0 = 0" "total_seconds 2000000 = 2"
    using total_seconds_whole[of 0] total_seconds_whole[of 2] by (simp_all add: seconds_def)
  then have "row_approved [''fallback''] example_instrument example_telegram_row"
      "row_recent example_instrument 3000000 example_telegram_row" "row_in_policy example_instrument example_telegram_row 60000"
    by (simp_all add: row_approved_def row_recent_def row_in_policy_def example_telegram_row_def example_instrument_def
        telegram_source_def int_text_4 accepts_def currency_of_def row_unit_def weight_unit_of_def row_purity_def
        unit_interval_def positive_decimal_def Let_def)
  moreover have "i_instrument_id example_instrument = ''BTC_USD''" "i_operational_ttl_seconds example_instrument = 360"
      "tr_price example_telegram_row = Some 60000" "tr_maximum_message_age_seconds example_telegram_row = Some 300"
    by (simp_all add: example_instrument_def example_telegram_row_def)
  ultimately have "telegram_latest True example_instrument [''fallback''] 3000000 (Some [example_telegram_row]) = Some [q]"
    using q by (simp add: telegram_latest_def quote_from_row_def map_filter_simps)
  then show ?thesis
    using telegram_quotes_approved [of True example_instrument "[''fallback'']" 3000000] by fastforce
qed

end
