(* ===== verification/Service.thy ===== *)
theory Service
  imports Canonical_Store Telegram_Quotes
begin

text \<open>
  Model of the first part of \<open>apps/api/app/pricing/service.py\<close>: reading the current canonical quotes with the
  policy in force applied to them, committing a new one, ranking the providers and getting a usable quote
  from them.

  \<^item> \<open>senv\<close> has what the service is built from: the settings, the catalogue, the registry and the
    operational tables, and what the outside does during one operation: which store calls succeed,
    the environment of every provider call, and the clock.
  \<^item> Every clock reading of one operation is \<open>sv_now\<close>, but for those after the calls to providers: \<open>sv_checked\<close>
    after one call and \<open>sv_after\<close> after the calls for a purpose. \<open>sv_archive\<close> is the reference to the archived payload
    of a suspicious quote, if there was a payload to archive.
  \<^item> \<open>sworld\<close> is the state: that of the provider collector and the canonical store.
  \<^item> Selection traces, metrics and log messages are left out.
\<close>

section \<open>The service\<close>

datatype store_call =
    ReadQuote | ReadRuntime | ReadCanonical | ReadAll | ReadRecent | ReadDatabase
  | AllocateSequence | WriteCanonical | WriteHistory | Publish | WriteQuote

record ('s, 'p) senv =
  sv_call :: "request_purpose \<Rightarrow> provider_definition \<Rightarrow> ('s, 'p) penv"
  sv_checked :: "request_purpose \<Rightarrow> provider_definition \<Rightarrow> instant"
  sv_now :: instant
  sv_unix_time :: int
  sv_ops :: "'s redis_ops"
  sv_settings :: app_settings
  sv_features :: "string \<Rightarrow> bool"
  sv_defs :: "instrument_definition list"
  sv_registry :: "provider_definition list"
  sv_op_db :: op_db
  sv_loads :: json_loads
  sv_ping :: bool
  sv_ok :: "store_call \<Rightarrow> bool"
  sv_db_up :: bool
  sv_queue_up :: bool
  sv_owner :: string
  sv_lock_ttl_seconds :: int
  sv_history_hours :: int
  sv_history_entries :: nat
  sv_telegram_rows :: "telegram_row list option"
  sv_after :: "request_purpose \<Rightarrow> instant"
  sv_archive :: "provider_quote \<Rightarrow> string option option"
  sv_derived :: derived_settings

record 's sworld =
  sw_providers :: "'s pworld"
  sw_store :: canonical_store

definition service_instrument :: "('s, 'p) senv \<Rightarrow> string \<Rightarrow> instrument_definition result" where
  "service_instrument env iid = operational_instrument (sv_loads env) (sv_defs env) (sv_op_db env) iid"

definition service_providers_for ::
  "('s, 'p) senv \<Rightarrow> string \<Rightarrow> provider_role list \<Rightarrow> provider_definition list result" where
  "service_providers_for env iid roles =
     operational_providers_for (sv_loads env) (sv_defs env) (sv_registry env) (sv_op_db env) iid roles"

section \<open>Reading\<close>

text \<open>\<open>_current_policy\<close>: the anchor of the windows and the bound of the source, from the summary where it is well
  formed.\<close>

definition summary_time :: "string \<Rightarrow> canonical_quote \<Rightarrow> instant result" where
  "summary_time k q = (case c_source_summary q k of None \<Rightarrow> Inl (KeyErr k) | Some v \<Rightarrow> parse_datetime v)"

definition stored_anchor :: "canonical_quote \<Rightarrow> instant result" where
  "stored_anchor = summary_time ''freshness_anchor''"

definition stored_bound :: "canonical_quote \<Rightarrow> instant result" where
  "stored_bound = summary_time ''source_live_eligible_until''"

definition current_anchor :: "canonical_quote \<Rightarrow> instant \<times> instant" where
  "current_anchor q =
     (case (stored_anchor q, stored_bound q) of
        (Inr anchor, Inr bound) \<Rightarrow>
          if c_observed_at q \<le> anchor \<and> anchor \<le> c_canonical_at q \<and> anchor \<le> bound
          then (anchor, min (c_valid_until q) bound)
          else (c_observed_at q, c_valid_until q)
      | _ \<Rightarrow> (c_observed_at q, c_valid_until q))"

definition current_policy :: "instrument_definition \<Rightarrow> canonical_quote \<Rightarrow> canonical_quote option" where
  "current_policy i q =
     (if \<not> i_enabled i \<or> \<not> accepts i (c_price q) then None
      else
        let anchor = fst (current_anchor q); source_bound = snd (current_anchor q);
            expires = min (c_expires_at q) (anchor + seconds (i_expire_after_seconds i));
            stale = min (min (c_stale_at q) (anchor + seconds (i_stale_after_seconds i))) expires;
            valid = min (min (min (c_valid_until q) source_bound) (anchor + seconds (i_operational_ttl_seconds i))) stale
        in Some (q\<lparr>c_expires_at := expires, c_stale_at := stale, c_valid_until := valid\<rparr>))"

primrec eligible_quotes :: "instrument_definition \<Rightarrow> canonical_quote list \<Rightarrow> canonical_quote list result" where
  "eligible_quotes i [] = Inr []"
| "eligible_quotes i (q # qs) =
     ebind (allowed_current_quote q) (\<lambda>allowed.
     ebind (eligible_quotes i qs) (\<lambda>rest.
     Inr (if allowed then (case current_policy i q of None \<Rightarrow> rest | Some c \<Rightarrow> c # rest) else rest)))"

definition present :: "'a option result \<Rightarrow> 'a list" where
  "present r = (case r of Inr (Some x) \<Rightarrow> [x] | _ \<Rightarrow> [])"

text \<open>What the two stores answer; a failing read counts as no answer.\<close>

definition stored_quotes :: "('s, 'p) senv \<Rightarrow> string \<Rightarrow> canonical_store \<Rightarrow> canonical_quote list" where
  "stored_quotes env iid st =
     present (if sv_ok env ReadCanonical then store_get_canonical (sv_now env) iid st
              else Inl (RedisUnavailable ''Pricing cache read failed''))
     @ present (if sv_ok env ReadDatabase then latest_canonical iid st else Inl DatabaseErr)"

definition get_canonical :: "('s, 'p) senv \<Rightarrow> string \<Rightarrow> canonical_store \<Rightarrow> canonical_quote option result" where
  "get_canonical env iid st =
     ebind (get_instrument (sv_defs env) iid) (\<lambda>d.
     ebind (service_instrument env (i_instrument_id d)) (\<lambda>i.
     if \<not> i_enabled i then Inr None
     else ebind (eligible_quotes i (stored_quotes env (i_instrument_id d) st)) (\<lambda>qs. Inr (max_by recency qs))))"

text \<open>\<open>_read_canonical_snapshot\<close>, over the instruments of the catalogue: of the quotes of an instrument that may be
  shown, the one in Redis wins when it is at least as recent.\<close>

definition newer_of :: "canonical_quote option \<Rightarrow> canonical_quote option \<Rightarrow> canonical_quote option" where
  "newer_of database cached =
     (case database of
        None \<Rightarrow> cached
      | Some d \<Rightarrow> (case cached of None \<Rightarrow> database | Some c \<Rightarrow> if recency d \<le> recency c then cached else database))"

definition allowed_only :: "canonical_quote option \<Rightarrow> canonical_quote option result" where
  "allowed_only q = (case q of None \<Rightarrow> Inr None
     | Some c \<Rightarrow> ebind (allowed_current_quote c) (\<lambda>ok. Inr (if ok then Some c else None)))"

primrec read_snapshot ::
  "(string \<rightharpoonup> canonical_quote) \<Rightarrow> (string \<rightharpoonup> canonical_quote) \<Rightarrow> (string \<rightharpoonup> instrument_definition) \<Rightarrow> string list
   \<Rightarrow> quote_table result" where
  "read_snapshot database cached definitions [] = Inr Map.empty"
| "read_snapshot database cached definitions (key # keys) =
     ebind (allowed_only (database key)) (\<lambda>d.
     ebind (allowed_only (cached key)) (\<lambda>c.
     ebind (read_snapshot database cached definitions keys) (\<lambda>rest.
     Inr (case newer_of d c of
            None \<Rightarrow> rest
          | Some q \<Rightarrow> (case definitions key of
              None \<Rightarrow> rest
            | Some i \<Rightarrow> (case current_policy i q of None \<Rightarrow> rest | Some a \<Rightarrow> rest(key \<mapsto> a)))))))"

definition get_all_canonical :: "('s, 'p) senv \<Rightarrow> canonical_store \<Rightarrow> quote_table result" where
  "get_all_canonical env st =
     (let keys = map i_instrument_id (sv_defs env);
          cached = (if sv_ok env ReadAll then store_get_all_canonical (sv_now env) st else Map.empty);
          database = (if sv_ok env ReadDatabase then latest_all st else Map.empty)
      in ebind (operational_instruments (sv_loads env) (sv_defs env) (sv_op_db env) keys) (\<lambda>definitions.
         read_snapshot database cached definitions keys))"

section \<open>Committing\<close>

definition publication_changed :: "instant \<Rightarrow> canonical_quote option \<Rightarrow> canonical_quote \<Rightarrow> bool" where
  "publication_changed now previous current =
     (case previous of
        None \<Rightarrow> True
      | Some p \<Rightarrow>
          c_price p \<noteq> c_price current \<or> effective_status p now \<noteq> effective_status current now
          \<or> c_candidate_price p \<noteq> c_candidate_price current
          \<or> c_verification_status p \<noteq> c_verification_status current
          \<or> c_is_persisted p \<noteq> c_is_persisted current \<or> c_observed_at p \<noteq> c_observed_at current
          \<or> c_valid_until p \<noteq> c_valid_until current \<or> c_source_summary p \<noteq> c_source_summary current)"

definition guarded :: "('s, 'p) senv \<Rightarrow> store_call \<Rightarrow> 'a result \<Rightarrow> 'a result" where
  "guarded env c r = (if sv_ok env c then r else Inl (RedisUnavailable ''Redis call failed''))"

text \<open>\<open>_commit\<close>: the steps in their order; what an earlier step wrote stays when a later one raises.\<close>

definition commit ::
  "('s, 'p) senv \<Rightarrow> canonical_quote \<Rightarrow> canonical_quote option \<Rightarrow> canonical_store
   \<Rightarrow> canonical_quote result \<times> canonical_store" where
  "commit env q previous st =
     (if (case previous of None \<Rightarrow> False | Some p \<Rightarrow> c_observed_at q < c_observed_at p) then (Inr (the previous), st)
      else if \<not> sv_ok env AllocateSequence then (Inl (RedisUnavailable ''Price sequence allocation failed''), st)
      else
        let (n, st1) = next_sequence st; q1 = q\<lparr>c_sequence_number := Some n\<rparr> in
        case persist_canonical (sv_db_up env) (sv_queue_up env) (sv_now env) q1 st1 of
          Inl e \<Rightarrow> (Inl e, st1)
        | Inr (_, q2, st2) \<Rightarrow>
            (case guarded env WriteCanonical (set_canonical (sv_defs env) (sv_now env) q2 st2) of
               Inl e \<Rightarrow> (Inl e, st2)
             | Inr st3 \<Rightarrow>
                 (case guarded env WriteHistory
                    (append_short_history (sv_history_hours env) (sv_history_entries env) (sv_now env) q2 st3) of
                    Inl e \<Rightarrow> (Inl e, st3)
                  | Inr st4 \<Rightarrow>
                      if publication_changed (sv_now env) previous q2 then
                        (case guarded env Publish (publish_canonical (sv_now env) q2 st4) of
                           Inl e \<Rightarrow> (Inl e, st4) | Inr st5 \<Rightarrow> (Inr q2, st5))
                      else (Inr q2, st4))))"

section \<open>Ranking providers\<close>

definition service_difference_percent :: "rat option \<Rightarrow> rat option \<Rightarrow> rat" where
  "service_difference_percent left right =
     (case (left, right) of
        (Some l, Some r) \<Rightarrow> if r \<le> 0 then 999 else dmul (dctx (dabs (dsub l r) / r)) 100
      | _ \<Rightarrow> 999)"

definition first_text :: "string list \<Rightarrow> string" where
  "first_text xs = (case filter (\<lambda>s. s \<noteq> []) xs of [] \<Rightarrow> [] | s # _ \<Rightarrow> s)"

definition provider_is_independent :: "provider_quote \<Rightarrow> provider_definition \<Rightarrow> bool" where
  "provider_is_independent q p \<longleftrightarrow>
     (let norm = (\<lambda>s. lower (strip s)) in
      norm (first_text [q_source_family q, q_provider_id q])
        \<noteq> norm (first_text [p_source_family p, p_provider_id p])
      \<and> norm (first_text [q_venue q, q_source_family q, q_provider_id q])
        \<noteq> norm (first_text [p_venue p, p_source_family p, p_provider_id p]))"

definition stored_runtime :: "provider_definition \<Rightarrow> 's pworld \<Rightarrow> provider_runtime_state" where
  "stored_runtime p w = (case w_runtime w (runtime_key p) of
     None \<Rightarrow> fresh_runtime (p_provider_id p) (p_instrument_id p) | Some r \<Rightarrow> r)"

definition verifier_score :: "('s, 'p) senv \<Rightarrow> 's pworld \<Rightarrow> provider_definition \<Rightarrow> rat result" where
  "verifier_score env w p =
     (if \<not> sv_ok env ReadRuntime then Inl (RedisUnavailable ''Pricing cache read failed'')
      else
        let r = stored_runtime p w in
        ebind (pressure (sv_ops env) (w_redis w) p (sv_unix_time env)) (\<lambda>raw.
        let penalty = (if r_circuit_state r = OPEN then 1000 else 0) in
        Inr (dsub (dsub (dsub (dadd (dmul (p_trust_score p) 100) (dmul (success_rate r) 20))
          (dmul (float_str raw) 30)) (dmul (b_estimated_request_cost (p_budget p)) 2)) penalty)))"

primrec scored_verifiers ::
  "('s, 'p) senv \<Rightarrow> 's pworld \<Rightarrow> provider_definition list \<Rightarrow> (rat \<times> provider_definition) list result" where
  "scored_verifiers env w [] = Inr []"
| "scored_verifiers env w (p # ps) =
     (if \<not> p_enabled p \<or> \<not> configured p (sv_settings env) then scored_verifiers env w ps
      else ebind (verifier_score env w p) (\<lambda>score.
        ebind (scored_verifiers env w ps) (\<lambda>rest. Inr ((score, p) # rest))))"

definition rank_verifiers ::
  "('s, 'p) senv \<Rightarrow> 's pworld \<Rightarrow> provider_definition list \<Rightarrow> provider_definition list result" where
  "rank_verifiers env w ps =
     ebind (scored_verifiers env w ps) (\<lambda>scored.
     Inr (map snd (sort_desc (\<lambda>(score, p). (score, - p_priority p)) scored)))"

text \<open>A number as the float it is turned into; one beyond the range of floats stays above them all.\<close>

definition rank_float :: "rat \<Rightarrow> rat" where
  "rank_float x = (case f64 x of Some y \<Rightarrow> y | None \<Rightarrow> if 0 < x then 2 ^ 1024 else - (2 ^ 1024))"

definition cached_quote :: "('s, 'p) senv \<Rightarrow> 's pworld \<Rightarrow> provider_definition \<Rightarrow> provider_quote option" where
  "cached_quote env w p = (if sv_ok env ReadQuote then w_cache w (runtime_key p) else None)"

definition flag :: "bool \<Rightarrow> rat" where
  "flag b = (if b then 1 else 0)"

definition candidate_score ::
  "('s, 'p) senv \<Rightarrow> instrument_definition \<Rightarrow> 's pworld \<Rightarrow> provider_definition
   \<Rightarrow> rat \<times> rat \<times> rat \<times> rat \<times> rat \<times> rat \<times> rat \<times> rat \<times> rat" where
  "candidate_score env i w p =
     (let cached = cached_quote env w p; status = cache_status cached p i (sv_now env);
          ready = (if sv_ok env ReadRuntime then (rank_float (success_rate (stored_runtime p w)),
              flag (r_circuit_state (stored_runtime p w) \<noteq> OPEN)) else (0, 1));
          load = (case pressure (sv_ops env) (w_redis w) p (sv_unix_time env) of Inl _ \<Rightarrow> 1 | Inr x \<Rightarrow> x);
          freshness = (case cached of None \<Rightarrow> 0 | Some q \<Rightarrow> rank_float (total_seconds (q_observed_at q)));
          usable = (p_enabled p \<and> configured p (sv_settings env));
          saved = (case cached of None \<Rightarrow> False | Some q \<Rightarrow> q_persistence_status q = PERSISTED)
      in (flag (status = Some FLive \<and> usable \<and> saved), flag usable, snd ready, fst ready,
          rank_float (p_trust_score p), - load, freshness, - rank_float (of_int (p_priority p)),
          - rank_float (b_estimated_request_cost (p_budget p))))"

definition rank_candidates ::
  "('s, 'p) senv \<Rightarrow> instrument_definition \<Rightarrow> 's pworld \<Rightarrow> provider_definition list \<Rightarrow> provider_definition list" where
  "rank_candidates env i w ps = sort_desc (\<lambda>p. (candidate_score env i w p, p_provider_id p)) ps"

section \<open>A usable quote\<close>

text \<open>\<open>_first_usable\<close>: first the caches of all candidates, then calls, until the limit of external calls. The
  second pass also gives the number of external calls made.\<close>

primrec cache_pass ::
  "('s, 'p) senv \<Rightarrow> instrument_definition \<Rightarrow> 's pworld \<Rightarrow> provider_definition list \<Rightarrow> provider_quote option result" where
  "cache_pass env i w [] = Inr None"
| "cache_pass env i w (p # ps) =
     (let cached = cached_quote env w p; status = cache_status cached p i (sv_now env) in
      if p_enabled p \<and> configured p (sv_settings env) \<and> live_stored cached status
      then ebind (apply_current_live_boundary (the cached) p i) (\<lambda>q. Inr (Some q))
      else cache_pass env i w ps)"

text \<open>The environment of a call has the settings and the Redis of the service.\<close>

definition call_env :: "('s, 'p) senv \<Rightarrow> request_purpose \<Rightarrow> provider_definition \<Rightarrow> ('s, 'p) penv" where
  "call_env env purpose p = (sv_call env purpose p)\<lparr>e_settings := sv_settings env, e_ops := sv_ops env\<rparr>"

definition check_fresh ::
  "instrument_definition \<Rightarrow> instant \<Rightarrow> quote_fetch_outcome \<Rightarrow> quote_fetch_outcome result" where
  "check_fresh i now oc =
     (let stale = oc\<lparr>oc_usable := False, oc_failure_reason := Some ''source_not_live''\<rparr> in
      if \<not> oc_usable oc then Inr oc
      else case oc_quote oc of
        None \<Rightarrow> Inr stale
      | Some q \<Rightarrow> ebind (is_fresh_quote q i now) (\<lambda>fresh. Inr (if fresh then oc else stale)))"

primrec external_pass ::
  "('s, 'p) senv \<Rightarrow> request_purpose \<Rightarrow> instrument_definition \<Rightarrow> int \<Rightarrow> int \<Rightarrow> quote_fetch_outcome option
   \<Rightarrow> provider_definition list \<Rightarrow> 's pworld \<Rightarrow> (quote_fetch_outcome option \<times> int \<times> 's pworld) result" where
  "external_pass env purpose i maximum calls latest [] w = Inr (latest, calls, w)"
| "external_pass env purpose i maximum calls latest (p # ps) w =
     (if calls \<ge> maximum then Inr (latest, calls, w)
      else
        ebind (quote (call_env env purpose p) p purpose i w) (\<lambda>(oc, w1).
        ebind (check_fresh i (sv_checked env purpose p) oc) (\<lambda>oc1.
        let calls1 = calls + (if oc_external_called oc1 then 1 else 0) in
        if oc_usable oc1 then Inr (Some oc1, calls1, w1)
        else external_pass env purpose i maximum calls1 (Some oc1) ps w1)))"

definition first_usable ::
  "('s, 'p) senv \<Rightarrow> request_purpose \<Rightarrow> instrument_definition \<Rightarrow> int \<Rightarrow> provider_definition list \<Rightarrow> 's pworld
   \<Rightarrow> (quote_fetch_outcome option \<times> int \<times> 's pworld) result" where
  "first_usable env purpose i maximum ps w =
     ebind (cache_pass env i w ps) (\<lambda>cached.
     case cached of
       Some q \<Rightarrow> Inr (Some (cached_outcome q), 0, w)
     | None \<Rightarrow> external_pass env purpose i maximum 0 None ps w)"

definition normal_quote ::
  "('s, 'p) senv \<Rightarrow> instrument_definition \<Rightarrow> 's pworld \<Rightarrow> (quote_fetch_outcome option \<times> int \<times> 's pworld) result" where
  "normal_quote env i w =
     ebind (service_providers_for env (i_instrument_id i) [PRIMARY]) (\<lambda>primaries.
     if primaries = [] then Inr (None, 0, w)
     else
       let ranked = rank_candidates env i w primaries;
           maximum = min (int (length ranked)) (if i_importance i \<ge> 8 then 2 else 1)
       in first_usable env FOR_NORMAL i maximum ranked w)"

definition fallback_quote ::
  "('s, 'p) senv \<Rightarrow> instrument_definition \<Rightarrow> int option \<Rightarrow> 's pworld
   \<Rightarrow> (quote_fetch_outcome option \<times> int \<times> 's pworld) result" where
  "fallback_quote env i maximum_external_calls w =
     ebind (service_providers_for env (i_instrument_id i) [FALLBACK, VERIFIER]) (\<lambda>candidates.
     let ranked = rank_candidates env i w candidates;
         maximum = (case maximum_external_calls of
            None \<Rightarrow> min (int (length ranked)) 2 | Some n \<Rightarrow> min (int (length ranked)) (max 0 n))
     in first_usable env FOR_FALLBACK i maximum ranked w)"

section \<open>Facts about reading\<close>

lemma current_anchor_bounds:
  assumes "c_observed_at q \<le> c_canonical_at q"
  shows "c_observed_at q \<le> fst (current_anchor q)" "fst (current_anchor q) \<le> c_canonical_at q"
    "snd (current_anchor q) \<le> c_valid_until q"
  using assms unfolding current_anchor_def by (simp_all split: sum.split)

lemma current_policy_Some:
  assumes "current_policy i q = Some c"
  obtains expires stale valid where
    "i_enabled i" "accepts i (c_price q)"
    "c = q\<lparr>c_expires_at := expires, c_stale_at := stale, c_valid_until := valid\<rparr>"
    "expires = min (c_expires_at q) (fst (current_anchor q) + seconds (i_expire_after_seconds i))"
    "stale = min (min (c_stale_at q) (fst (current_anchor q) + seconds (i_stale_after_seconds i))) expires"
    "valid = min (min (min (c_valid_until q) (snd (current_anchor q)))
        (fst (current_anchor q) + seconds (i_operational_ttl_seconds i))) stale"
proof -
  have e: "i_enabled i" "accepts i (c_price q)"
    using assms unfolding current_policy_def by (simp_all split: if_splits)
  have "\<not> (\<not> i_enabled i \<or> \<not> accepts i (c_price q))"
    using e by simp
  note c = assms[unfolded current_policy_def Let_def if_not_P[OF this] option.inject, symmetric]
  show ?thesis
    by (rule that[OF e c refl refl refl])
qed

lemma current_policy_frame:
  assumes "current_policy i q = Some c"
  shows "recency c = recency q \<and> c_price c = c_price q \<and> c_instrument_id c = c_instrument_id q
    \<and> c_source_summary c = c_source_summary q \<and> c_status c = c_status q"
proof -
  obtain expires stale valid where "c = q\<lparr>c_expires_at := expires, c_stale_at := stale, c_valid_until := valid\<rparr>"
    using assms by (rule current_policy_Some)
  then show ?thesis
    by (simp add: recency_def)
qed

text \<open>The policy in force only shortens the windows of a stored quote: they stay nested, none ends later than
  it was stored with, a quote can be live at most for the operational time to live, and be shown at all at most for the
  expiry time, after its decision, and applying the policy again changes nothing.\<close>

theorem current_policy_shrinks_windows:
  assumes "current_policy i q = Some c" and "c_observed_at q \<le> c_canonical_at q"
  shows "c_valid_until c \<le> c_stale_at c \<and> c_stale_at c \<le> c_expires_at c
    \<and> c_valid_until c \<le> c_valid_until q \<and> c_stale_at c \<le> c_stale_at q \<and> c_expires_at c \<le> c_expires_at q
    \<and> (\<forall>t. effective_status c t \<in> {CS_LIVE, CS_CONFIRMED} \<longrightarrow> t \<le> c_canonical_at q + seconds (i_operational_ttl_seconds i))
    \<and> (\<forall>t. effective_status c t \<noteq> CS_EXPIRED \<and> c_status q \<noteq> CS_EXPIRED
         \<longrightarrow> t \<le> c_canonical_at q + seconds (i_expire_after_seconds i))
    \<and> current_policy i c = Some c"
proof -
  define anchor where "anchor = fst (current_anchor q)"
  define bound where "bound = snd (current_anchor q)"
  obtain expires stale valid where c: "i_enabled i" "accepts i (c_price q)"
    "c = q\<lparr>c_expires_at := expires, c_stale_at := stale, c_valid_until := valid\<rparr>"
    "expires = min (c_expires_at q) (anchor + seconds (i_expire_after_seconds i))"
    "stale = min (min (c_stale_at q) (anchor + seconds (i_stale_after_seconds i))) expires"
    "valid = min (min (min (c_valid_until q) bound) (anchor + seconds (i_operational_ttl_seconds i))) stale"
    using assms(1) unfolding anchor_def bound_def by (rule current_policy_Some)
  have b: "c_observed_at q \<le> anchor" "anchor \<le> c_canonical_at q" "bound \<le> c_valid_until q"
    using current_anchor_bounds[OF assms(2)] by (simp_all add: anchor_def bound_def)
  have w: "c_valid_until c = valid" "c_stale_at c = stale" "c_expires_at c = expires" "c_status c = c_status q"
    using c(3) by simp_all
  have nested: "valid \<le> stale" "stale \<le> expires" "valid \<le> c_valid_until q" "stale \<le> c_stale_at q" "expires \<le> c_expires_at q"
      "valid \<le> bound" "valid \<le> anchor + seconds (i_operational_ttl_seconds i)"
      "stale \<le> anchor + seconds (i_stale_after_seconds i)" "expires \<le> anchor + seconds (i_expire_after_seconds i)"
    using c(4-6) by linarith+
  have same: "stored_anchor c = stored_anchor q" "stored_bound c = stored_bound q" "c_observed_at c = c_observed_at q"
      "c_canonical_at c = c_canonical_at q" "c_price c = c_price q"
    using c(3) by (simp_all add: stored_anchor_def stored_bound_def summary_time_def)
  have anchor: "fst (current_anchor c) = anchor" "valid \<le> snd (current_anchor c)"
    using nested(6) unfolding current_anchor_def same w anchor_def bound_def
    by (simp_all split: sum.splits if_splits) blast
  have "min expires (anchor + seconds (i_expire_after_seconds i)) = expires"
      "min (min stale (anchor + seconds (i_stale_after_seconds i))) expires = stale"
      "min (min (min valid (snd (current_anchor c))) (anchor + seconds (i_operational_ttl_seconds i))) stale = valid"
    using nested anchor(2) by linarith+
  then have "current_policy i c = Some (c\<lparr>c_expires_at := expires, c_stale_at := stale, c_valid_until := valid\<rparr>)"
    using c(1,2) unfolding current_policy_def Let_def same w anchor(1) by simp
  then have "current_policy i c = Some c"
    unfolding c(3) by simp
  moreover have "\<forall>t. effective_status c t \<in> {CS_LIVE, CS_CONFIRMED} \<longrightarrow> t \<le> c_canonical_at q + seconds (i_operational_ttl_seconds i)"
    using nested b(2) unfolding effective_status_def w by auto
  moreover have "\<forall>t. effective_status c t \<noteq> CS_EXPIRED \<and> c_status q \<noteq> CS_EXPIRED
         \<longrightarrow> t \<le> c_canonical_at q + seconds (i_expire_after_seconds i)"
    using nested b(2) unfolding effective_status_def w by auto
  ultimately show ?thesis
    using nested w by simp
qed

lemma eligible_quotes_iff:
  "eligible_quotes i qs = Inr cs \<Longrightarrow>
     set cs = {c. \<exists>q\<in>set qs. allowed_current_quote q = Inr True \<and> current_policy i q = Some c}"
  by (induction qs arbitrary: cs) (fastforce simp: err_simps split: option.splits if_splits)+

lemma get_canonical_cases:
  assumes "get_canonical env iid st = Inr r"
  obtains d i where "get_instrument (sv_defs env) iid = Inr d" "service_instrument env (i_instrument_id d) = Inr i"
    "i_enabled i \<Longrightarrow> \<exists>cs. eligible_quotes i (stored_quotes env (i_instrument_id d) st) = Inr cs \<and> r = max_by recency cs"
    "\<not> i_enabled i \<Longrightarrow> r = None"
  using assms by (auto simp: get_canonical_def err_simps split: if_splits)

lemma newest_eligible:
  assumes "get_canonical env iid st = Inr r"
    and "get_instrument (sv_defs env) iid = Inr d" "service_instrument env (i_instrument_id d) = Inr i"
  shows "(\<forall>c. r = Some c \<longrightarrow> i_enabled i \<and>
        (\<exists>q\<in>set (stored_quotes env (i_instrument_id d) st). allowed_current_quote q = Inr True \<and> current_policy i q = Some c))
    \<and> (\<forall>q\<in>set (stored_quotes env (i_instrument_id d) st). allowed_current_quote q = Inr True \<and> current_policy i q \<noteq> None
         \<longrightarrow> (\<exists>c. r = Some c \<and> recency q \<le> recency c))"
proof (cases "i_enabled i")
  case False
  then have "r = None"
    using assms by (simp add: get_canonical_def)
  moreover have "current_policy i q = None" for q
    using False by (simp add: current_policy_def)
  ultimately show ?thesis
    by simp
next
  case True
  then obtain cs where cs: "eligible_quotes i (stored_quotes env (i_instrument_id d) st) = Inr cs" "r = max_by recency cs"
    using assms by (auto simp: get_canonical_def err_simps)
  note e = eligible_quotes_iff[OF cs(1)]
  have one: "\<exists>c. r = Some c \<and> recency q \<le> recency c"
    if q: "q \<in> set (stored_quotes env (i_instrument_id d) st)" "allowed_current_quote q = Inr True" "current_policy i q \<noteq> None" for q
  proof -
    obtain c where c: "current_policy i q = Some c"
      using q(3) by blast
    then have "c \<in> set cs" "recency c = recency q"
      using e q current_policy_frame by auto
    then show ?thesis
      using cs(2) max_by_None[of recency cs] max_by_ge[of recency cs] by (metis empty_iff list.set(1) not_None_eq)
  qed
  moreover have "\<exists>q\<in>set (stored_quotes env (i_instrument_id d) st). allowed_current_quote q = Inr True \<and> current_policy i q = Some c"
    if "r = Some c" for c
  proof -
    have "c \<in> set cs"
      using max_by_in[of recency cs] that cs(2) by simp
    then show ?thesis
      using e by blast
  qed
  ultimately show ?thesis
    using True by blast
qed

text \<open>Readers get the newest price that may be shown: the quote of an instrument is one of those in the two
  stores that may be shown and fits the policy in force, it is at least as recent as every other such quote, there is
  one whenever one is stored, and none for a disabled instrument.\<close>

theorem reads_newest_eligible:
  assumes "get_canonical env iid st = Inr r"
    and "get_instrument (sv_defs env) iid = Inr d" "service_instrument env (i_instrument_id d) = Inr i"
  shows "(\<forall>c. r = Some c \<longrightarrow> i_enabled i \<and>
        (\<exists>q\<in>set (stored_quotes env (i_instrument_id d) st). allowed_current_quote q = Inr True \<and> current_policy i q = Some c))
    \<and> (\<forall>q\<in>set (stored_quotes env (i_instrument_id d) st). allowed_current_quote q = Inr True \<and> current_policy i q \<noteq> None
         \<longrightarrow> (\<exists>c. r = Some c \<and> recency q \<le> recency c))"
  by (rule newest_eligible[OF assms])

section \<open>Facts about commits\<close>

definition refused :: "canonical_quote \<Rightarrow> canonical_quote option \<Rightarrow> bool" where
  "refused q previous \<longleftrightarrow> (case previous of None \<Rightarrow> False | Some p \<Rightarrow> c_observed_at q < c_observed_at p)"

definition same_quote :: "canonical_quote \<Rightarrow> canonical_quote \<Rightarrow> bool" where
  "same_quote c q \<longleftrightarrow> recency c = recency q \<and> c_price c = c_price q \<and> c_instrument_id c = c_instrument_id q
     \<and> c_sequence_number c = c_sequence_number q \<and> c_idempotency_key c = c_idempotency_key q
     \<and> c_valid_until c = c_valid_until q \<and> c_stale_at c = c_stale_at q \<and> c_expires_at c = c_expires_at q
     \<and> (encodable q \<longrightarrow> encodable c)
     \<and> (c_is_persisted c \<longrightarrow> c_status c = c_status q \<and> c_source_summary c = c_source_summary q)"

lemma same_quote_refl: "same_quote q q"
  by (simp add: same_quote_def)

lemma encodable_marks:
  "encodable q \<Longrightarrow> encodable (q\<lparr>c_id := n, c_is_persisted := b\<rparr>)"
  "encodable q \<Longrightarrow> encodable (q\<lparr>c_sequence_number := m\<rparr>)"
  by (simp_all add: encodable_def valid_canonical_def)

lemma store_canonical_row_quote:
  "\<exists>n b. (fst (store_canonical_row q st))\<lparr>c_is_persisted := True\<rparr> = q\<lparr>c_id := n, c_is_persisted := b\<rparr> \<and> b"
  by (cases "find (same_row q) (cs_rows st)") (auto simp: store_canonical_row_def)

lemma persist_canonical_facts:
  assumes "persist_canonical up queue now q st = Inr (r, c, st')"
  shows "same_quote c q" "c_is_persisted c = pr_persisted r"
    "cs_sequence st' = cs_sequence st" "cs_current st' = cs_current st" "cs_published st' = cs_published st"
    "set (cs_rows st) \<subseteq> set (cs_rows st')"
    "pr_persisted r \<Longrightarrow> \<exists>x\<in>set (cs_rows st'). same_row q x"
    "\<not> pr_persisted r \<Longrightarrow> cs_rows st' = cs_rows st"
proof -
  have *: "same_quote c q \<and> c_is_persisted c = pr_persisted r \<and>
    cs_sequence st' = cs_sequence st \<and> cs_current st' = cs_current st \<and> cs_published st' = cs_published st \<and>
    set (cs_rows st) \<subseteq> set (cs_rows st') \<and> (pr_persisted r \<longrightarrow> (\<exists>x\<in>set (cs_rows st'). same_row q x))
    \<and> (\<not> pr_persisted r \<longrightarrow> cs_rows st' = cs_rows st)"
  proof (cases "up \<and> row_fits q")
    case True
    obtain n where n: "(fst (store_canonical_row q st))\<lparr>c_is_persisted := True\<rparr> = q\<lparr>c_id := n, c_is_persisted := True\<rparr>"
      using store_canonical_row_quote by metis
    have "same_quote (q\<lparr>c_id := n, c_is_persisted := True\<rparr>) q"
      using encodable_marks(1)[where q = q and n = n and b = True] by (simp add: same_quote_def recency_def)
    then show ?thesis
      using assms True n store_canonical_row_grows[of st q] store_canonical_row_stored[of q st]
      by (auto simp: persist_canonical_def Let_def)
  next
    case False
    have "same_quote (status_failed q) q" "\<not> c_is_persisted (status_failed q)"
      using encodable_status_failed[of q] by (simp_all add: same_quote_def recency_def status_failed_def)
    then show ?thesis
      using assms unfolding persist_canonical_def if_not_P[OF False] Let_def by (auto simp: err_simps)
  qed
  show "same_quote c q" "c_is_persisted c = pr_persisted r"
    "cs_sequence st' = cs_sequence st" "cs_current st' = cs_current st" "cs_published st' = cs_published st"
    "set (cs_rows st) \<subseteq> set (cs_rows st')"
    "pr_persisted r \<Longrightarrow> \<exists>x\<in>set (cs_rows st'). same_row q x"
    "\<not> pr_persisted r \<Longrightarrow> cs_rows st' = cs_rows st"
    using * by auto
qed

lemma persist_canonical_persisted:
  assumes "persist_canonical up queue now q st = Inr (r, c, st')"
  shows "pr_persisted r \<longleftrightarrow> up \<and> row_fits q"
proof (cases "up \<and> row_fits q")
  case True
  then have "r = \<lparr>pr_persisted = True, pr_queued = False\<rparr>"
    using assms unfolding persist_canonical_def if_P[OF True] Let_def by simp
  then show ?thesis
    using True by simp
next
  case False
  then have "\<not> pr_persisted r"
    using assms unfolding persist_canonical_def if_not_P[OF False] Let_def by (auto simp: err_simps)
  then show ?thesis
    using False by simp
qed

lemma set_canonical_facts:
  assumes "set_canonical defs now c st = Inr st'"
  shows "cs_sequence st' = cs_sequence st \<and> cs_rows st' = cs_rows st \<and> cs_published st' = cs_published st
    \<and> (\<exists>i payload. get_instrument defs (c_instrument_id c) = Inr i \<and> canonical_to_dict c True now False = Inr payload
        \<and> safe_component (c_instrument_id c)
        \<and> cs_current st' (c_instrument_id c)
            = Some (payload, now + seconds (max (i_expire_after_seconds i * 4) (i_stale_after_seconds i))))"
  using assms by (auto simp: set_canonical_def component_def err_simps Let_def split: if_splits)

lemma append_short_history_facts:
  assumes "append_short_history h n now c st = Inr st'"
  shows "cs_sequence st' = cs_sequence st \<and> cs_rows st' = cs_rows st \<and> cs_published st' = cs_published st
    \<and> cs_current st' = cs_current st"
  using assms by (auto simp: append_short_history_def err_simps Let_def)

lemma publish_canonical_facts:
  assumes "publish_canonical now c st = Inr st'"
  shows "cs_sequence st' = cs_sequence st \<and> cs_rows st' = cs_rows st \<and> cs_current st' = cs_current st
    \<and> (\<exists>payload. canonical_to_dict c True now True = Inr payload \<and> cs_published st' = cs_published st @ [payload])"
  using assms by (auto simp: publish_canonical_def err_simps)

lemma guarded_Inr [err_simps]: "guarded env k r = Inr x \<longleftrightarrow> sv_ok env k \<and> r = Inr x"
  by (simp add: guarded_def)

definition numbered :: "canonical_quote \<Rightarrow> canonical_store \<Rightarrow> canonical_quote" where
  "numbered q st = q\<lparr>c_sequence_number := Some (cs_sequence st + 1)\<rparr>"

lemma commit_accepted:
  assumes "commit env q previous st = (Inr c, st')" and "\<not> refused q previous"
  obtains res st2 st3 st4 where
    "persist_canonical (sv_db_up env) (sv_queue_up env) (sv_now env) (numbered q st) (st\<lparr>cs_sequence := cs_sequence st + 1\<rparr>)
       = Inr (res, c, st2)"
    "set_canonical (sv_defs env) (sv_now env) c st2 = Inr st3"
    "append_short_history (sv_history_hours env) (sv_history_entries env) (sv_now env) c st3 = Inr st4"
    "if publication_changed (sv_now env) previous c then publish_canonical (sv_now env) c st4 = Inr st' else st' = st4"
proof -
  have nr: "\<not> (case previous of None \<Rightarrow> False | Some p \<Rightarrow> c_observed_at q < c_observed_at p)"
    using assms(2) by (simp add: refused_def)
  have ok: "sv_ok env AllocateSequence"
    using assms(1) nr by (cases "sv_ok env AllocateSequence") (simp_all add: commit_def)
  let ?p = "persist_canonical (sv_db_up env) (sv_queue_up env) (sv_now env) (numbered q st) (st\<lparr>cs_sequence := cs_sequence st + 1\<rparr>)"
  obtain res c2 st2 where p: "?p = Inr (res, c2, st2)"
    using assms(1) nr ok by (cases ?p) (auto simp: commit_def next_sequence_def numbered_def)
  let ?s = "guarded env WriteCanonical (set_canonical (sv_defs env) (sv_now env) c2 st2)"
  have run: "commit env q previous st = (case ?s of Inl e \<Rightarrow> (Inl e, st2) | Inr st3 \<Rightarrow>
      (case guarded env WriteHistory (append_short_history (sv_history_hours env) (sv_history_entries env) (sv_now env) c2 st3) of
         Inl e \<Rightarrow> (Inl e, st3)
       | Inr st4 \<Rightarrow>
           if publication_changed (sv_now env) previous c2 then
             (case guarded env Publish (publish_canonical (sv_now env) c2 st4) of
                Inl e \<Rightarrow> (Inl e, st4) | Inr st5 \<Rightarrow> (Inr c2, st5))
           else (Inr c2, st4)))"
    using nr ok p by (simp add: commit_def next_sequence_def numbered_def)
  obtain st3 where s: "?s = Inr st3"
    using assms(1) unfolding run by (cases ?s) auto
  let ?h = "guarded env WriteHistory (append_short_history (sv_history_hours env) (sv_history_entries env) (sv_now env) c2 st3)"
  obtain st4 where h: "?h = Inr st4"
    using assms(1) s unfolding run by (cases ?h) auto
  let ?w = "guarded env Publish (publish_canonical (sv_now env) c2 st4)"
  have "c2 = c \<and> (if publication_changed (sv_now env) previous c2 then ?w = Inr st' else st' = st4)"
    using assms(1) unfolding run s h sum.case by (cases ?w) (simp_all split: if_splits)
  then have fin: "c2 = c" "if publication_changed (sv_now env) previous c then publish_canonical (sv_now env) c st4 = Inr st' else st' = st4"
    by (auto simp: guarded_Inr split: if_splits)
  show ?thesis
    using that[of res st2 st3 st4] p s h fin by (simp add: guarded_Inr)
qed

lemma commit_forward:
  assumes "commit env q previous st = (Inr c, st')"
  shows "(\<forall>p. previous = Some p \<longrightarrow> c_observed_at p \<le> c_observed_at c)
    \<and> (refused q previous \<longrightarrow> st' = st \<and> previous = Some c)
    \<and> (\<not> refused q previous \<longrightarrow> same_quote c (numbered q st) \<and> cs_sequence st' = cs_sequence st + 1
        \<and> (c_is_persisted c \<longleftrightarrow> sv_db_up env \<and> row_fits (numbered q st))
        \<and> (c_is_persisted c \<longrightarrow> (\<exists>r\<in>set (cs_rows st'). same_row q r))
        \<and> set (cs_rows st) \<subseteq> set (cs_rows st')
        \<and> (\<exists>p until. cs_current st' (c_instrument_id c) = Some (p, until) \<and> canonical_to_dict c True (sv_now env) False = Inr p)
        \<and> (cs_published st' \<noteq> cs_published st \<longleftrightarrow> publication_changed (sv_now env) previous c))"
proof (cases "refused q previous")
  case True
  then show ?thesis
    using assms by (auto simp: refused_def commit_def split: option.splits)
next
  case False
  obtain res st2 st3 st4 where s:
    "persist_canonical (sv_db_up env) (sv_queue_up env) (sv_now env) (numbered q st) (st\<lparr>cs_sequence := cs_sequence st + 1\<rparr>)
       = Inr (res, c, st2)"
    "set_canonical (sv_defs env) (sv_now env) c st2 = Inr st3"
    "append_short_history (sv_history_hours env) (sv_history_entries env) (sv_now env) c st3 = Inr st4"
    "if publication_changed (sv_now env) previous c then publish_canonical (sv_now env) c st4 = Inr st' else st' = st4"
    using commit_accepted[OF assms False] by blast
  note p = persist_canonical_facts[OF s(1)] and w = set_canonical_facts[OF s(2)] and h = append_short_history_facts[OF s(3)]
  have e: "cs_sequence st' = cs_sequence st4 \<and> cs_rows st' = cs_rows st4 \<and> cs_current st' = cs_current st4
      \<and> (cs_published st' \<noteq> cs_published st4 \<longleftrightarrow> publication_changed (sv_now env) previous c)"
    using s(4) publish_canonical_facts[of "sv_now env" c st4 st'] by (auto split: if_splits)
  have obs: "c_observed_at c = c_observed_at q"
    using p(1) by (simp add: same_quote_def recency_def numbered_def)
  have fwd: "c_observed_at x \<le> c_observed_at c" if "previous = Some x" for x
    using False that obs by (simp add: refused_def)
  have per: "pr_persisted res \<longleftrightarrow> sv_db_up env \<and> row_fits (numbered q st)"
    by (rule persist_canonical_persisted[OF s(1)])
  have row: "same_row (numbered q st) r \<longleftrightarrow> same_row q r" for r
    by (simp add: same_row_def numbered_def)
  have seq: "cs_sequence st' = cs_sequence st + 1"
    using p(3) w h e by simp
  have rows: "cs_rows st' = cs_rows st2"
    using w h e by simp
  have cur: "\<exists>x until. cs_current st' (c_instrument_id c) = Some (x, until) \<and> canonical_to_dict c True (sv_now env) False = Inr x"
    using w h e by auto
  have pub: "cs_published st' \<noteq> cs_published st \<longleftrightarrow> publication_changed (sv_now env) previous c"
    using p(5) w h e by simp
  have stored: "c_is_persisted c \<longrightarrow> (\<exists>r\<in>set (cs_rows st'). same_row q r)" "set (cs_rows st) \<subseteq> set (cs_rows st')"
    using p(2,6,7) unfolding rows row by simp_all
  show ?thesis
    using False fwd by (intro conjI impI allI) (rule cur | simp add: seq p(1) per[symmetric] p(2) stored[unfolded p(2)] pub)+
qed

text \<open>A commit moves an instrument forward or not at all: it never returns a quote observed before the previous
  one, and refuses an older quote without touching the stores; a quote it takes is the given one with the next
  sequence number, kept in the table exactly when it is marked as persisted, written to Redis as it is returned, and
  published exactly when something a reader sees has changed.\<close>

theorem commit_moves_forward:
  assumes "commit env q previous st = (Inr c, st')"
  shows "(\<forall>p. previous = Some p \<longrightarrow> c_observed_at p \<le> c_observed_at c)
    \<and> (refused q previous \<longrightarrow> st' = st \<and> previous = Some c)
    \<and> (\<not> refused q previous \<longrightarrow> same_quote c (numbered q st) \<and> cs_sequence st' = cs_sequence st + 1
        \<and> (c_is_persisted c \<longleftrightarrow> sv_db_up env \<and> row_fits (numbered q st))
        \<and> (c_is_persisted c \<longrightarrow> (\<exists>r\<in>set (cs_rows st'). same_row q r))
        \<and> set (cs_rows st) \<subseteq> set (cs_rows st')
        \<and> (\<exists>p until. cs_current st' (c_instrument_id c) = Some (p, until) \<and> canonical_to_dict c True (sv_now env) False = Inr p)
        \<and> (cs_published st' \<noteq> cs_published st \<longleftrightarrow> publication_changed (sv_now env) previous c))"
  by (rule commit_forward[OF assms])

lemma canonical_public_total:
  "canonical_to_dict c a now ev = Inr p \<Longrightarrow> \<exists>p'. canonical_to_dict c a' now' ev' = Inr p'"
  unfolding canonical_to_dict_def Let_def by (elim ebind_InrE) simp

lemma commit_takes:
  assumes "\<not> refused q previous" "sv_db_up env" "row_fits (numbered q st)" "encodable q" "\<And>k. sv_ok env k"
    and "safe_component (c_instrument_id q)" "get_instrument (sv_defs env) (c_instrument_id q) = Inr d"
  obtains c st' where "commit env q previous st = (Inr c, st')"
proof -
  have nr: "\<not> (case previous of None \<Rightarrow> False | Some p \<Rightarrow> c_observed_at q < c_observed_at p)"
    using assms(1) by (simp add: refused_def)
  obtain r c st2 where p: "persist_canonical (sv_db_up env) (sv_queue_up env) (sv_now env) (numbered q st)
      (st\<lparr>cs_sequence := cs_sequence st + 1\<rparr>) = Inr (r, c, st2)"
    using assms(2,3) by (simp add: persist_canonical_def Let_def)
  have c: "c_instrument_id c = c_instrument_id q" "encodable c"
    using persist_canonical_facts(1)[OF p] assms(4) encodable_marks(2)[of q] by (simp_all add: same_quote_def numbered_def)
  obtain payload where e: "canonical_to_dict c True (sv_now env) False = Inr payload"
    using canonical_codec_round_trip_aux[OF c(2)] by blast
  obtain public where u: "canonical_to_dict c True (sv_now env) True = Inr public"
    using canonical_public_total[OF e] by blast
  have k: "component (c_instrument_id q) = Inr (c_instrument_id q)"
    using assms(6) by (simp add: component_def)
  have "\<exists>st'. commit env q previous st = (Inr c, st')"
    using nr assms(5,7) p
    by (simp add: commit_def next_sequence_def numbered_def guarded_def set_canonical_def append_short_history_def
        publish_canonical_def c(1) e u k Let_def)
  then show ?thesis
    using that by blast
qed

lemma commit_cached:
  assumes "commit env q previous st = (Inr c, st')" and "\<not> refused q previous" and "encodable q"
    and "i_instrument_id d = c_instrument_id q" "0 < i_expire_after_seconds d"
    and "get_instrument (sv_defs env) (c_instrument_id q) = Inr d"
  shows "store_get_canonical (sv_now env) (i_instrument_id d) st' = Inr (Some c)"
proof -
  obtain res st2 st3 st4 where s:
    "persist_canonical (sv_db_up env) (sv_queue_up env) (sv_now env) (numbered q st) (st\<lparr>cs_sequence := cs_sequence st + 1\<rparr>)
       = Inr (res, c, st2)"
    "set_canonical (sv_defs env) (sv_now env) c st2 = Inr st3"
    "append_short_history (sv_history_hours env) (sv_history_entries env) (sv_now env) c st3 = Inr st4"
    "if publication_changed (sv_now env) previous c then publish_canonical (sv_now env) c st4 = Inr st' else st' = st4"
    using commit_accepted[OF assms(1,2)] by blast
  have c: "c_instrument_id c = c_instrument_id q" "encodable c"
    using persist_canonical_facts(1)[OF s(1)] encodable_marks(2)[OF assms(3)]
    by (simp_all add: same_quote_def numbered_def)
  obtain payload where e: "canonical_to_dict c True (sv_now env) False = Inr payload" "canonical_from_dict payload = Inr c"
    using canonical_codec_round_trip_aux[OF c(2)] by blast
  have cur: "cs_current st' = cs_current st3"
    using s(4) append_short_history_facts[OF s(3)] publish_canonical_facts[of "sv_now env" c st4 st'] by (auto split: if_splits)
  have "safe_component (c_instrument_id q) \<and> cs_current st' (c_instrument_id q)
      = Some (payload, sv_now env + seconds (max (i_expire_after_seconds d * 4) (i_stale_after_seconds d)))"
    using set_canonical_facts[OF s(2)] e(1) assms(6) unfolding cur c(1) by auto
  then show ?thesis
    using assms(4,5) e(2) by (simp add: store_get_canonical_def component_def seconds_def)
qed

text \<open>Claim C3. A committed price is there for readers, where it can be: take a commit that returns and does not refuse its
  quote as older, a registered instrument with a positive time to expiry, and a quote that can be encoded exactly
  (\<open>encodable\<close>: valid, its prices and changes of at most fifteen significant digits, which a derived price need not have).
  If at that moment the read from Redis succeeds, the quote committed is of a status that may be shown as current and the
  policy in force still shows it, then a reader of the instrument's current price that returns gets a quote, and
  one at least as recent as the committed one.\<close>

theorem committed_price_is_visible:
  assumes "commit env q previous st = (Inr c, st')" and "\<not> refused q previous" and "encodable q"
    and "get_instrument (sv_defs env) iid = Inr d" "i_instrument_id d = c_instrument_id q" "0 < i_expire_after_seconds d"
    and "get_instrument (sv_defs env) (c_instrument_id q) = Inr d"
    and "service_instrument env (i_instrument_id d) = Inr i"
    and "sv_ok env ReadCanonical" "allowed_current_quote c = Inr True" "current_policy i c \<noteq> None"
    and "get_canonical env iid st' = Inr r"
  shows "\<exists>x. r = Some x \<and> recency q \<le> recency x"
proof -
  have "recency c = recency q"
    using commit_forward[OF assms(1)] assms(2) by (simp add: same_quote_def numbered_def recency_def)
  moreover have "c \<in> set (stored_quotes env (i_instrument_id d) st')"
    using commit_cached[OF assms(1-3,5-7)] assms(9) by (simp add: stored_quotes_def present_def)
  ultimately show ?thesis
    using newest_eligible[OF assms(12,4,8)] assms(10,11) by metis
qed

section \<open>Facts about usable quotes\<close>

lemma external_pass_sound:
  assumes "external_pass env purpose i maximum calls latest ps w = Inr (r, n, w')"
    and "\<forall>oc. latest = Some oc \<longrightarrow> \<not> oc_usable oc"
  shows "calls \<le> n \<and> n \<le> max calls maximum
    \<and> (\<forall>oc. r = Some oc \<and> oc_usable oc \<longrightarrow> (\<exists>p\<in>set ps. \<exists>w1 w2. quote (call_env env purpose p) p purpose i w1 = Inr (oc, w2)
          \<and> (\<exists>q. oc_quote oc = Some q \<and> is_fresh_quote q i (sv_checked env purpose p) = Inr True)))"
  using assms
proof (induction ps arbitrary: calls latest w)
  case Nil
  then show ?case
    by auto
next
  case (Cons p ps)
  show ?case
  proof (cases "calls \<ge> maximum")
    case True
    then show ?thesis
      using Cons.prems by auto
  next
    case False
    obtain oc w1 where q: "quote (call_env env purpose p) p purpose i w = Inr (oc, w1)"
      using Cons.prems(1) False by (auto simp: err_simps)
    obtain oc1 where f: "check_fresh i (sv_checked env purpose p) oc = Inr oc1"
      using Cons.prems(1) False q by (auto simp: err_simps)
    define calls1 where "calls1 = calls + (if oc_external_called oc1 then 1 else 0)"
    have calls1: "calls \<le> calls1" "calls1 \<le> maximum"
      using False by (auto simp: calls1_def)
    show ?thesis
    proof (cases "oc_usable oc1")
      case True
      then have "oc_usable oc \<and> oc1 = oc \<and> (\<exists>x. oc_quote oc = Some x \<and> is_fresh_quote x i (sv_checked env purpose p) = Inr True)"
        using f by (auto simp: check_fresh_def err_simps Let_def split: option.splits if_splits)
      then show ?thesis
        using Cons.prems(1) False q f True calls1 by (fastforce simp: calls1_def Let_def)
    next
      case unusable: False
      then have "external_pass env purpose i maximum calls1 (Some oc1) ps w1 = Inr (r, n, w')"
        using Cons.prems(1) False q f by (simp add: calls1_def Let_def)
      note IH = Cons.IH[OF this]
      show ?thesis
        using IH unusable calls1 by fastforce
    qed
  qed
qed

lemma cache_pass_sound:
  assumes "cache_pass env i w ps = Inr (Some q)"
  shows "\<exists>p\<in>set ps. p_enabled p \<and> configured p (sv_settings env) \<and> usable_quote p i (sv_now env) q"
  using assms
proof (induction ps)
  case (Cons p ps)
  let ?c = "cached_quote env w p"
  show ?case
  proof (cases "p_enabled p \<and> configured p (sv_settings env) \<and> live_stored ?c (cache_status ?c p i (sv_now env))")
    case True
    then have "apply_current_live_boundary (the ?c) p i = Inr q"
      using Cons.prems by (simp add: Let_def err_simps)
    then show ?thesis
      using True cached_usable[of ?c p i "sv_now env" q] by auto
  next
    case False
    then have "cache_pass env i w ps = Inr (Some q)"
      using Cons.prems unfolding cache_pass.simps Let_def by argo
    then show ?thesis
      using Cons.IH by auto
  qed
qed simp

text \<open>Asking the providers for a price is bounded and sound: no more external calls are made than allowed, and
  a quote reported as usable comes from an enabled and configured provider of the list, is accepted, priced and stored,
  and was live when it was checked.\<close>

theorem first_usable_sound:
  assumes "first_usable env purpose i maximum ps w = Inr (r, n, w')"
  shows "0 \<le> n \<and> n \<le> max 0 maximum
    \<and> (\<forall>oc. r = Some oc \<and> oc_usable oc \<longrightarrow> (\<exists>p\<in>set ps. \<exists>q. p_enabled p \<and> configured p (sv_settings env)
          \<and> oc_quote oc = Some q \<and> q_validation_status q = ACCEPTED \<and> q_price q \<noteq> None \<and> q_persistence_status q = PERSISTED
          \<and> (cache_status (Some q) p i (sv_now env) = Some FLive \<or> is_fresh_quote q i (sv_checked env purpose p) = Inr True)))"
proof (cases "cache_pass env i w ps")
  case (Inl e)
  then show ?thesis
    using assms by (simp add: first_usable_def)
next
  case (Inr c)
  show ?thesis
  proof (cases c)
    case None
    then have e: "external_pass env purpose i maximum 0 None ps w = Inr (r, n, w')"
      using assms Inr by (simp add: first_usable_def)
    have settings: "e_settings (call_env env purpose p) = sv_settings env" for p
      by (simp add: call_env_def)
    have sound: "\<exists>p\<in>set ps. \<exists>q. p_enabled p \<and> configured p (sv_settings env)
          \<and> oc_quote oc = Some q \<and> q_validation_status q = ACCEPTED \<and> q_price q \<noteq> None \<and> q_persistence_status q = PERSISTED
          \<and> (cache_status (Some q) p i (sv_now env) = Some FLive \<or> is_fresh_quote q i (sv_checked env purpose p) = Inr True)"
      if oc: "r = Some oc" "oc_usable oc" for oc
    proof -
      obtain p w1 w2 q where p: "p \<in> set ps" "quote (call_env env purpose p) p purpose i w1 = Inr (oc, w2)"
          "oc_quote oc = Some q" "is_fresh_quote q i (sv_checked env purpose p) = Inr True"
        using external_pass_sound[OF e] oc by auto
      show ?thesis
        using quote_usable[OF p(2) oc(2)] p unfolding settings by auto
    qed
    show ?thesis
      using external_pass_sound[OF e] sound by blast
  next
    case (Some q)
    then have r: "r = Some (cached_outcome q)" "n = 0"
      using assms Inr by (simp_all add: first_usable_def)
    then show ?thesis
      using cache_pass_sound[of env i w ps q] Inr Some
      by (auto simp: cached_outcome_def usable_quote_def cache_status_live)
  qed
qed

section \<open>Examples\<close>

definition example_senv :: "(ttl_store, unit) senv" where
  "example_senv = \<lparr>sv_call = (\<lambda>_ _. example_env), sv_checked = (\<lambda>_ _. 3000000), sv_now = 3000000, sv_unix_time = 3,
     sv_ops = ttl_ops, sv_settings = Map.empty, sv_features = (\<lambda>_. True), sv_defs = [example_instrument],
     sv_registry = [example_source], sv_op_db = example_op_db, sv_loads = (\<lambda>_. None), sv_ping = True,
     sv_ok = (\<lambda>_. True), sv_db_up = True, sv_queue_up = True, sv_owner = ''o'', sv_lock_ttl_seconds = 30,
     sv_history_hours = 6, sv_history_entries = 240, sv_telegram_rows = None, sv_after = (\<lambda>_. 3000000), sv_archive = (\<lambda>_. None),
     sv_derived = \<lparr>ds_instruments = [example_instrument], ds_troy_ounce_grams = 31,
       ds_usdt_usd_safe_min = 1, ds_usdt_usd_safe_max = 1\<rparr>\<rparr>"

theorem current_policy_shrinks_windows_witness:
  "\<exists>c. current_policy (example_instrument\<lparr>i_operational_ttl_seconds := 60\<rparr>) example_canonical = Some c
     \<and> c_valid_until c = 61000000 \<and> c_valid_until c \<le> c_stale_at c"
proof -
  obtain c where c: "current_policy (example_instrument\<lparr>i_operational_ttl_seconds := 60\<rparr>) example_canonical = Some c"
      "c_valid_until c = 61000000"
    by (simp add: current_policy_def accepts_def example_instrument_def example_canonical_def current_anchor_def
        stored_anchor_def summary_time_def seconds_def Let_def)
  then show ?thesis
    using current_policy_shrinks_windows [OF c(1)] by (simp add: example_canonical_def)
qed

definition example_table :: canonical_store where
  "example_table = empty_store\<lparr>cs_rows := [example_canonical]\<rparr>"

lemma example_service_instrument:
  "service_instrument example_senv ''BTC_USD''
     = Inr (example_instrument\<lparr>i_expire_after_seconds := 600, i_stale_after_seconds := 600\<rparr>)"
  using example_operational by (simp add: service_instrument_def example_senv_def)

lemma example_stored: "stored_quotes example_senv ''BTC_USD'' example_table = [example_canonical]"
proof -
  have "store_get_canonical 3000000 ''BTC_USD'' example_table = Inr None"
    by (simp add: store_get_canonical_def example_table_def empty_store_def component_def safe_component_def)
  moreover have "latest_row ''BTC_USD'' example_table = Some example_canonical"
    by (simp add: latest_row_def example_table_def empty_store_def current_row_def)
      (simp add: example_canonical_def json_text_def direct_gold_def coalesce_def)
  moreover have "canonical_create example_canonical = Inr example_canonical"
    using example_encodable by (simp add: encodable_def canonical_create_iff canonical_key_def)
  ultimately show ?thesis
    by (simp add: stored_quotes_def present_def example_senv_def latest_canonical_def)
qed

lemma example_reads: "get_canonical example_senv ''BTC_USD'' example_table
     = Inr (current_policy (example_instrument\<lparr>i_expire_after_seconds := 600, i_stale_after_seconds := 600\<rparr>) example_canonical)"
proof -
  have "allowed_current_quote example_canonical = Inr True"
    by (simp add: allowed_current_quote_def example_canonical_def dict_get_def)
  moreover have "get_instrument (sv_defs example_senv) ''BTC_USD'' = Inr example_instrument"
      "i_instrument_id example_instrument = ''BTC_USD''" "i_enabled example_instrument"
    using example_lookup by (simp_all add: example_senv_def example_instrument_def)
  ultimately show ?thesis
    by (simp add: get_canonical_def example_service_instrument example_stored split: option.split)
qed

lemma example_in_policy:
  "\<exists>c. current_policy (example_instrument\<lparr>i_expire_after_seconds := 600, i_stale_after_seconds := 600\<rparr>) example_canonical
     = Some c"
  by (simp add: current_policy_def Let_def) (simp add: accepts_def example_instrument_def example_canonical_def)

theorem reads_newest_eligible_witness:
  "\<exists>c. get_canonical example_senv ''BTC_USD'' example_table = Inr (Some c) \<and> (1000000, 2000000) \<le> recency c"
proof -
  have look: "get_instrument (sv_defs example_senv) ''BTC_USD'' = Inr example_instrument"
      "i_instrument_id example_instrument = ''BTC_USD''"
    using example_lookup by (simp_all add: example_senv_def example_instrument_def)
  have "allowed_current_quote example_canonical = Inr True" "recency example_canonical = (1000000, 2000000)"
    by (simp_all add: allowed_current_quote_def example_canonical_def dict_get_def recency_def)
  then show ?thesis
    using reads_newest_eligible [OF example_reads look(1) example_service_instrument[folded look(2)]]
      example_in_policy example_reads look(2) by (auto simp: example_stored)
qed

lemma example_commit:
  "\<exists>c st'. commit example_senv example_canonical None empty_store = (Inr c, st')"
proof -
  have "row_fits (numbered example_canonical empty_store)"
    by (simp add: row_fits_def row_of_def numbered_def opt_below_def numeric_scale_def Let_def)
      (simp add: example_canonical_def)
  moreover have "safe_component (c_instrument_id example_canonical)"
    by (simp add: example_canonical_def safe_component_def)
  moreover have "get_instrument (sv_defs example_senv) (c_instrument_id example_canonical) = Inr example_instrument"
    using example_lookup by (simp add: example_canonical_def example_senv_def)
  ultimately show ?thesis
    using commit_takes[of example_canonical None example_senv empty_store example_instrument] example_encodable
    by (fastforce simp: refused_def example_senv_def)
qed

theorem commit_moves_forward_witness:
  "\<exists>c st'. commit example_senv example_canonical None empty_store = (Inr c, st') \<and> cs_sequence st' = 1
     \<and> cs_current st' (c_instrument_id c) \<noteq> None"
proof -
  obtain c st' where c: "commit example_senv example_canonical None empty_store = (Inr c, st')"
    using example_commit by blast
  show ?thesis
    using commit_moves_forward [OF c] c by (auto simp: refused_def empty_store_def)
qed

lemma btc_eligible_total:
  "\<forall>q\<in>set qs. c_instrument_id q = ''BTC_USD'' \<Longrightarrow> \<exists>cs. eligible_quotes i qs = Inr cs"
proof (induction qs)
  case (Cons q qs)
  have "\<exists>b. allowed_current_quote q = Inr b"
    using Cons.prems by (simp add: allowed_current_quote_def Let_def) blast
  then show ?case
    using Cons by auto
qed simp

lemma latest_canonical_id:
  assumes "latest_canonical iid st = Inr (Some q)"
  shows "c_instrument_id q = iid"
proof -
  obtain r where r: "latest_row iid st = Some r" "q = r\<lparr>c_idempotency_key := canonical_key r\<rparr>"
    using assms by (auto simp: latest_canonical_def err_simps canonical_create_iff split: option.splits)
  show ?thesis
    using max_by_in[OF r(1)[unfolded latest_row_def]] r(2) by simp
qed

theorem committed_price_is_visible_witness:
  "\<exists>c st' x. commit example_senv example_canonical None empty_store = (Inr c, st')
     \<and> get_canonical example_senv ''BTC_USD'' st' = Inr (Some x) \<and> (1000000, 2000000) \<le> recency x"
proof -
  obtain c st' where c: "commit example_senv example_canonical None empty_store = (Inr c, st')"
    using example_commit by blast
  have nr: "\<not> refused example_canonical None"
    by (simp add: refused_def)
  have look: "get_instrument (sv_defs example_senv) ''BTC_USD'' = Inr example_instrument"
      "i_instrument_id example_instrument = ''BTC_USD''" "c_instrument_id example_canonical = ''BTC_USD''"
      "0 < i_expire_after_seconds example_instrument" "i_enabled example_instrument"
    using example_lookup by (simp_all add: example_senv_def example_instrument_def example_canonical_def)
  note cached = commit_cached[OF c nr example_encodable look(2)[folded look(3)] look(4) look(1)[folded look(3)]]
  obtain i where i: "service_instrument example_senv ''BTC_USD'' = Inr i" "i_enabled i"
      "i = example_instrument\<lparr>i_expire_after_seconds := 600, i_stale_after_seconds := 600\<rparr>"
    using example_service_instrument look(5) by simp
  have ok: "sv_ok example_senv k" "sv_now example_senv = 3000000" "sv_db_up example_senv" for k
    by (simp_all add: example_senv_def)
  have "row_fits (numbered example_canonical empty_store)"
    by (simp add: row_fits_def row_of_def numbered_def opt_below_def numeric_scale_def Let_def)
      (simp add: example_canonical_def)
  then have s: "same_quote c (numbered example_canonical empty_store)" "c_is_persisted c"
    using commit_forward[OF c] nr ok by simp_all
  then have f: "c_source_summary c = c_source_summary example_canonical" "c_instrument_id c = ''BTC_USD''"
      "c_price c = c_price example_canonical"
    using look(3) by (simp_all add: same_quote_def numbered_def)
  have allowed: "allowed_current_quote c = Inr True" "current_policy i c \<noteq> None"
    unfolding allowed_current_quote_def current_policy_def f Let_def i(3)
    by (simp_all add: example_canonical_def dict_get_def accepts_def example_instrument_def)
  have "\<forall>q\<in>set (stored_quotes example_senv ''BTC_USD'' st'). c_instrument_id q = ''BTC_USD''"
    using cached f(2) latest_canonical_id[of "''BTC_USD''" st'] look ok
    by (auto simp: stored_quotes_def present_def split: sum.splits option.splits)
  then obtain cs where "eligible_quotes i (stored_quotes example_senv ''BTC_USD'' st') = Inr cs"
    using btc_eligible_total by blast
  then have g: "get_canonical example_senv ''BTC_USD'' st' = Inr (max_by recency cs)"
    using look i by (simp add: get_canonical_def)
  show ?thesis
    using committed_price_is_visible [OF c nr example_encodable look(1) look(2)[folded look(3)] look(4)
        look(1)[folded look(3)] i(1)[folded look(2)] ok(1) allowed g] c g
    by (auto simp: recency_def example_canonical_def)
qed

lemma example_first_usable:
  "\<exists>oc. first_usable example_senv FOR_NORMAL example_instrument 2 [example_provider] (example_world (Some (example_quote 60000)))
     = Inr (Some oc, 0, example_world (Some (example_quote 60000))) \<and> oc_usable oc"
proof -
  have "cache_status (Some (example_quote 60000)) example_provider example_instrument 3000000 = Some FLive"
      "q_persistence_status (example_quote 60000) = PERSISTED"
    by (simp_all add: cache_status_live example_boundaries)
  moreover have "p_enabled example_provider" "configured example_provider Map.empty"
    using example_allowed by (simp_all add: example_env_def)
  ultimately show ?thesis
    by (simp add: first_usable_def cached_quote_def example_senv_def example_world_def live_stored_def Let_def
        apply_current_live_boundary_def example_boundaries cached_outcome_def)
qed

theorem first_usable_sound_witness:
  "\<exists>oc q. first_usable example_senv FOR_NORMAL example_instrument 2 [example_provider] (example_world (Some (example_quote 60000)))
     = Inr (Some oc, 0, example_world (Some (example_quote 60000))) \<and> oc_quote oc = Some q \<and> q_price q \<noteq> None"
proof -
  obtain oc where oc: "first_usable example_senv FOR_NORMAL example_instrument 2 [example_provider]
      (example_world (Some (example_quote 60000))) = Inr (Some oc, 0, example_world (Some (example_quote 60000)))" "oc_usable oc"
    using example_first_usable by blast
  show ?thesis
    using first_usable_sound [OF oc(1)] oc by blast
qed

end
