(* ===== verification/Refresh.thy ===== *)
theory Refresh
  imports Service
begin

text \<open>
  Model of the operations of \<open>apps/api/app/pricing/service.py\<close> that change the price of an instrument:
  \<open>refresh_instrument\<close> under the refresh lock, \<open>refresh_cycle\<close> over all instruments and \<open>ingest_worker_quote\<close>.

  An operation takes the world and gives a result and the world it leaves, also where it raises. A raised error of a
  provider call leaves the world as it was before that call. The rows of anomalies, verifications and archived
  payloads are written and never read by this code; they are left out.
\<close>

section \<open>Sequences of steps\<close>

definition sbind :: "'a result \<times> 'w \<Rightarrow> ('a \<Rightarrow> 'w \<Rightarrow> 'b result \<times> 'w) \<Rightarrow> 'b result \<times> 'w" where
  "sbind m f = (case fst m of Inl e \<Rightarrow> (Inl e, snd m) | Inr x \<Rightarrow> f x (snd m))"

definition provider_step ::
  "('s pworld \<Rightarrow> ('a \<times> 's pworld) result) \<Rightarrow> 's sworld \<Rightarrow> 'a result \<times> 's sworld" where
  "provider_step f w =
     (case f (sw_providers w) of Inl e \<Rightarrow> (Inl e, w) | Inr (x, pw) \<Rightarrow> (Inr x, w\<lparr>sw_providers := pw\<rparr>))"

definition store_step ::
  "(canonical_store \<Rightarrow> 'a result \<times> canonical_store) \<Rightarrow> 's sworld \<Rightarrow> 'a result \<times> 's sworld" where
  "store_step f w = (let r = f (sw_store w) in (fst r, w\<lparr>sw_store := snd r\<rparr>))"

lemma sbind_simps [simp]:
  "sbind (Inl e, w) f = (Inl e, w)"
  "sbind (Inr x, w) f = f x w"
  by (simp_all add: sbind_def)

lemma sbind_InrE:
  assumes "sbind m f = (Inr y, w')"
  obtains x w where "m = (Inr x, w)" "f x w = (Inr y, w')"
  using assms by (cases m; cases "fst m") (auto simp: sbind_def)

section \<open>Verification of a suspicious price\<close>

definition confirms_candidate :: "provider_quote \<Rightarrow> anomaly_assessment \<Rightarrow> provider_quote \<Rightarrow> bool" where
  "confirms_candidate candidate a q \<longleftrightarrow>
     service_difference_percent (q_price candidate) (q_price q) \<le> as_dynamic_threshold_percent a"

text \<open>Whether the loop goes on with so many quotes.\<close>

definition verify_further :: "instrument_definition \<Rightarrow> anomaly_assessment \<Rightarrow> provider_quote list \<Rightarrow> bool" where
  "verify_further i a quotes \<longleftrightarrow>
     \<not> (length quotes \<ge> 1 \<and> \<not> (as_severity a \<in> {''high'', ''critical''} \<and> i_importance i \<ge> 8
          \<and> i_maximum_verification_depth i \<ge> 2))
     \<and> \<not> int (length quotes) \<ge> i_maximum_verification_depth i"

primrec verify_pass ::
  "('s, 'p) senv \<Rightarrow> instrument_definition \<Rightarrow> provider_quote \<Rightarrow> anomaly_assessment \<Rightarrow> provider_definition list
   \<Rightarrow> provider_quote list \<Rightarrow> 's sworld \<Rightarrow> provider_quote list result \<times> 's sworld" where
  "verify_pass env i candidate a [] quotes w = (Inr quotes, w)"
| "verify_pass env i candidate a (p # ps) quotes w =
     sbind (provider_step (quote (call_env env FOR_ANOMALY p) p FOR_ANOMALY i) w) (\<lambda>oc w1.
     let further = (\<lambda>qs. if verify_further i a qs then verify_pass env i candidate a ps qs w1 else (Inr qs, w1)) in
     case (if oc_usable oc then oc_quote oc else None) of
       None \<Rightarrow> further quotes
     | Some q \<Rightarrow>
         (case is_fresh_quote q i (sv_checked env FOR_ANOMALY p) of
            Inl e \<Rightarrow> (Inl e, w1)
          | Inr False \<Rightarrow> verify_pass env i candidate a ps quotes w1
          | Inr True \<Rightarrow>
              if confirms_candidate candidate a q then (Inr (quotes @ [q]), w1) else further (quotes @ [q])))"

definition stored_telegram ::
  "('s, 'p) senv \<Rightarrow> instrument_definition \<Rightarrow> string \<Rightarrow> provider_quote list option" where
  "stored_telegram env i role =
     telegram_latest
       (feature_enabled (sv_loads env) (sv_features env) (sv_op_db env) ''telegram_source_enabled'' (i_instrument_id i))
       i [role] (sv_now env) (sv_telegram_rows env)"

definition verification_quotes ::
  "('s, 'p) senv \<Rightarrow> string \<Rightarrow> provider_quote \<Rightarrow> anomaly_assessment \<Rightarrow> 's sworld
   \<Rightarrow> provider_quote list result \<times> 's sworld" where
  "verification_quotes env iid candidate a w =
     (case ebind (service_instrument env iid) (\<lambda>i.
           ebind (service_providers_for env iid [VERIFIER, COMPARE, FALLBACK]) (\<lambda>ps.
           ebind (rank_verifiers env (sw_providers w)
             (filter (\<lambda>p. p_provider_id p \<noteq> q_provider_id candidate \<and> provider_is_independent candidate p) ps))
             (\<lambda>ranked. Inr (i, ranked)))) of
        Inl e \<Rightarrow> (Inl e, w)
      | Inr (i, ranked) \<Rightarrow>
          sbind (verify_pass env i candidate a ranked [] w) (\<lambda>quotes w1.
          let remaining = max 0 (i_maximum_verification_depth i - int (length quotes)) in
          if remaining \<noteq> 0 \<and> \<not> list_ex (confirms_candidate candidate a) quotes then
            (Inr (quotes @ (case stored_telegram env i ''verifier'' of
                None \<Rightarrow> []
              | Some stored \<Rightarrow> telegram_verifiers i candidate stored (as_dynamic_threshold_percent a) remaining (sv_now env))),
             w1)
          else (Inr quotes, w1)))"

section \<open>Assessment of a candidate\<close>

definition recent_for ::
  "('s, 'p) senv \<Rightarrow> string \<Rightarrow> canonical_store \<Rightarrow> rat list result" where
  "recent_for env iid st =
     ebind (if sv_ok env ReadRecent then ebind (recent_canonical (sv_now env) 120 iid st) (\<lambda>qs. Inr (map c_price qs))
            else Inr []) (\<lambda>recent.
     Inr (if length recent < 3 then (if sv_ok env ReadDatabase then recent_prices iid 120 st else []) else recent))"

definition quote_runtime :: "provider_quote \<Rightarrow> 's pworld \<Rightarrow> provider_runtime_state" where
  "quote_runtime q w = (case w_runtime w (q_provider_id q, q_instrument_id q) of
     None \<Rightarrow> fresh_runtime (q_provider_id q) (q_instrument_id q) | Some r \<Rightarrow> r)"

definition assess_candidate ::
  "('s, 'p) senv \<Rightarrow> provider_quote \<Rightarrow> canonical_quote option \<Rightarrow> instrument_definition \<Rightarrow> 's sworld
   \<Rightarrow> anomaly_assessment option result" where
  "assess_candidate env candidate previous i w =
     (case (previous, q_price candidate) of
        (Some p, Some price) \<Rightarrow>
          if sv_now env > c_expires_at p then Inr None
          else ebind (recent_for env (q_instrument_id candidate) (sw_store w)) (\<lambda>recent.
            if \<not> sv_ok env ReadRuntime then Inl (RedisUnavailable ''Pricing cache read failed'')
            else ebind (assess i price (c_price p) (c_observed_at p) recent
                  (success_rate (quote_runtime candidate (sw_providers w))) (sv_now env)) (\<lambda>a. Inr (Some a)))
      | _ \<Rightarrow> Inr None)"

section \<open>Fallbacks\<close>

definition try_derived ::
  "('s, 'p) senv \<Rightarrow> instrument_definition \<Rightarrow> canonical_store \<Rightarrow> provider_quote option result" where
  "try_derived env i st =
     (if \<not> i_allow_derived_fallback i
        \<or> \<not> feature_enabled (sv_loads env) (sv_features env) (sv_op_db env) ''derived_fallback_enabled'' (i_instrument_id i)
      then Inr None
      else ebind (get_all_canonical env st) (\<lambda>snapshots.
        case derive (sv_derived env) (i_instrument_id i) snapshots (sv_now env) of
          Inl (DerivedPriceUnavailable _) \<Rightarrow> Inr None
        | Inl e \<Rightarrow> Inl e
        | Inr q \<Rightarrow> Inr (Some q)))"

text \<open>\<open>_try_telegram_fallback\<close>: any error gives no quote.\<close>

definition telegram_selected :: "telegram_fallback_decision \<Rightarrow> provider_quote list \<Rightarrow> provider_quote list" where
  "telegram_selected d stored =
     filter (\<lambda>q. case q_id q of None \<Rightarrow> False | Some n \<Rightarrow> n \<in> set (tf_quote_ids d)) stored"

definition try_telegram_fallback ::
  "('s, 'p) senv \<Rightarrow> instrument_definition \<Rightarrow> canonical_quote option \<Rightarrow> canonical_quote option" where
  "try_telegram_fallback env i previous =
     (case stored_telegram env i ''fallback'' of
        None \<Rightarrow> None
      | Some stored \<Rightarrow>
          let reference = (case previous of None \<Rightarrow> None
                | Some p \<Rightarrow> if sv_now env \<le> c_expires_at p then Some (c_price p) else None)
          in case telegram_fallback i stored (i_base_anomaly_threshold_percent i) reference (sv_now env) of
               Inl _ \<Rightarrow> None
             | Inr d \<Rightarrow>
                 if \<not> tf_eligible d then None
                 else case tf_price d of
                   None \<Rightarrow> None
                 | Some price \<Rightarrow>
                     if tf_quote_ids d = [] \<or>
                        length (telegram_selected d stored) \<noteq> length (remdups (tf_quote_ids d)) then None
                     else (case telegram_fallback_canonical i (telegram_selected d stored) price (tf_reason d) (sv_now env) of
                         Inl _ \<Rightarrow> None | Inr c \<Rightarrow> Some c))"

text \<open>\<open>set_provider_quote\<close> of the Redis store and \<open>_provider_ttl\<close>.\<close>

definition set_provider_quote ::
  "('s, 'p) senv \<Rightarrow> provider_quote \<Rightarrow> int \<Rightarrow> 's sworld \<Rightarrow> unit result \<times> 's sworld" where
  "set_provider_quote env q ttl w =
     (case guarded env WriteQuote (cache_retention (sv_defs env) q ttl (sv_now env)) of
        Inl e \<Rightarrow> (Inl e, w)
      | Inr _ \<Rightarrow> (Inr (), w\<lparr>sw_providers := (sw_providers w)
          \<lparr>w_cache := (w_cache (sw_providers w))((q_provider_id q, q_instrument_id q) \<mapsto> q)\<rparr>\<rparr>))"

definition provider_ttl :: "('s, 'p) senv \<Rightarrow> string \<Rightarrow> int \<Rightarrow> int" where
  "provider_ttl env pid dflt =
     (case find (\<lambda>p. p_provider_id p = pid) (rev (sv_registry env)) of
        None \<Rightarrow> dflt | Some p \<Rightarrow> p_operational_ttl_seconds p)"

definition persist_quote ::
  "('s, 'p) senv \<Rightarrow> provider_quote \<Rightarrow> 's sworld \<Rightarrow> (persistence_result \<times> provider_quote) \<times> 's sworld" where
  "persist_quote env q w =
     (let r = persist_provider_quote (sv_db_up env) (sv_queue_up env) (w_db (sw_providers w)) q
      in ((fst r, fst (snd r)), w\<lparr>sw_providers := (sw_providers w)\<lparr>w_db := snd (snd r)\<rparr>\<rparr>))"

section \<open>Refreshing an instrument\<close>

text \<open>\<open>async with self.locks.refresh_lock(..)\<close> around a body that works on the world.\<close>

definition with_refresh_lock ::
  "('s, 'p) senv \<Rightarrow> string \<Rightarrow> (lock_lease option \<Rightarrow> 's sworld \<Rightarrow> 'a result \<times> 's sworld) \<Rightarrow> 's sworld
   \<Rightarrow> 'a result \<times> 's sworld" where
  "with_refresh_lock env iid body w =
     (let redis = (\<lambda>s w. w\<lparr>sw_providers := (sw_providers w)\<lparr>w_redis := s\<rparr>\<rparr>) in
      case acquire (sv_ops env) (w_redis (sw_providers w)) (refresh_key iid) (sv_lock_ttl_seconds env * 1000) (sv_owner env) of
        Inl e \<Rightarrow> (Inl e, w)
      | Inr (None, s) \<Rightarrow> body None (redis s w)
      | Inr (Some l, s) \<Rightarrow>
          (let r = body (Some l) (redis s w)
           in (fst r, redis (snd (release (sv_ops env) (w_redis (sw_providers (snd r))) l)) (snd r))))"

text \<open>The quote of an outcome that may become the primary: usable and live at that time.\<close>

definition live_primary ::
  "instrument_definition \<Rightarrow> instant \<Rightarrow> quote_fetch_outcome option \<Rightarrow> (quote_fetch_outcome \<times> provider_quote) option result" where
  "live_primary i now oc =
     (case oc of
        None \<Rightarrow> Inr None
      | Some x \<Rightarrow>
          (case (if oc_usable x then oc_quote x else None) of
             None \<Rightarrow> Inr None
           | Some q \<Rightarrow> ebind (is_fresh_quote q i now) (\<lambda>fresh. Inr (if fresh then Some (x, q) else None))))"

definition drop_count :: "('a \<times> int \<times> 'w) result \<Rightarrow> ('a \<times> 'w) result" where
  "drop_count r = ebind r (\<lambda>(x, n, w). Inr (x, w))"

definition find_primary ::
  "('s, 'p) senv \<Rightarrow> instrument_definition \<Rightarrow> 's sworld \<Rightarrow> (quote_fetch_outcome \<times> provider_quote) option result \<times> 's sworld" where
  "find_primary env i w =
     sbind (provider_step (\<lambda>pw. drop_count (normal_quote env i pw)) w) (\<lambda>normal w1.
     case live_primary i (sv_after env FOR_NORMAL) normal of
       Inl e \<Rightarrow> (Inl e, w1)
     | Inr (Some x) \<Rightarrow> (Inr (Some x), w1)
     | Inr None \<Rightarrow>
         sbind (provider_step (\<lambda>pw. drop_count (fallback_quote env i None pw)) w1) (\<lambda>fallback w2.
         (live_primary i (sv_after env FOR_FALLBACK) fallback, w2)))"

definition commit_step ::
  "('s, 'p) senv \<Rightarrow> canonical_quote \<Rightarrow> canonical_quote option \<Rightarrow> 's sworld \<Rightarrow> canonical_quote result \<times> 's sworld" where
  "commit_step env q previous w = store_step (commit env q previous) w"

text \<open>\<open>_attach_changes\<close> and \<open>_commit\<close>.\<close>

definition publish_price ::
  "('s, 'p) senv \<Rightarrow> canonical_quote \<Rightarrow> canonical_quote option \<Rightarrow> 's sworld \<Rightarrow> canonical_quote result \<times> 's sworld" where
  "publish_price env q previous w =
     commit_step env (attach_changes (sv_ok env ReadDatabase) (sw_store w) q) previous w"

text \<open>No live quote from a provider: an approved Telegram price, else a derived one, else the previous price.\<close>

definition refresh_without_primary ::
  "('s, 'p) senv \<Rightarrow> instrument_definition \<Rightarrow> canonical_quote option \<Rightarrow> 's sworld
   \<Rightarrow> canonical_quote option result \<times> 's sworld" where
  "refresh_without_primary env i previous w =
     (case try_telegram_fallback env i previous of
        Some c \<Rightarrow> sbind (publish_price env c previous w) (\<lambda>x w1. (Inr (Some x), w1))
      | None \<Rightarrow>
          (case try_derived env i (sw_store w) of
             Inl e \<Rightarrow> (Inl e, w)
           | Inr None \<Rightarrow> (Inr previous, w)
           | Inr (Some d) \<Rightarrow>
               (let r = persist_quote env d w; stored = snd (fst r) in
                if \<not> pr_persisted (fst (fst r)) then (Inr previous, snd r)
                else
                  sbind (set_provider_quote env stored (i_operational_ttl_seconds i) (snd r)) (\<lambda>_ w2.
                  case derived_fallback i stored (sv_now env) of
                    Inl e \<Rightarrow> (Inl e, w2)
                  | Inr c \<Rightarrow> sbind (publish_price env c previous w2) (\<lambda>x w3. (Inr (Some x), w3))))))"

text \<open>A suspicious candidate: it is marked, the previous price shown as being verified, then decided.\<close>

definition suspect :: "('s, 'p) senv \<Rightarrow> provider_quote \<Rightarrow> provider_quote" where
  "suspect env q =
     (let q1 = q\<lparr>q_is_suspicious := True, q_validation_status := SUSPICIOUS\<rparr> in
      case sv_archive env q1 of None \<Rightarrow> q1 | Some reference \<Rightarrow> q1\<lparr>q_raw_payload_reference := reference\<rparr>)"

definition announce_verifying ::
  "('s, 'p) senv \<Rightarrow> canonical_quote option \<Rightarrow> provider_quote \<Rightarrow> anomaly_assessment \<Rightarrow> 's sworld
   \<Rightarrow> canonical_quote option result \<times> 's sworld" where
  "announce_verifying env previous candidate a w =
     (case previous of
        None \<Rightarrow> (Inr None, w)
      | Some p \<Rightarrow>
          (case keep_previous p candidate a CS_VERIFYING (sv_now env) of
             Inl e \<Rightarrow> (Inl e, w)
           | Inr v \<Rightarrow> sbind (commit_step env v previous w) (\<lambda>x w1. (Inr (Some x), w1))))"

definition decide ::
  "('s, 'p) senv \<Rightarrow> instrument_definition \<Rightarrow> provider_quote \<Rightarrow> canonical_quote option \<Rightarrow> anomaly_assessment option
   \<Rightarrow> provider_quote list \<Rightarrow> bool \<Rightarrow> canonical_quote option \<Rightarrow> 's sworld \<Rightarrow> canonical_quote option result \<times> 's sworld" where
  "decide env i candidate previous assessment verifiers from_cache base w =
     (case select i candidate previous assessment verifiers from_cache (sv_now env) of
        Inl e \<Rightarrow> (Inl e, w)
      | Inr d \<Rightarrow> sbind (publish_price env (d_canonical d) base w) (\<lambda>x w1. (Inr (Some x), w1)))"

definition refresh_suspicious ::
  "('s, 'p) senv \<Rightarrow> instrument_definition \<Rightarrow> canonical_quote option \<Rightarrow> quote_fetch_outcome \<Rightarrow> provider_quote
   \<Rightarrow> anomaly_assessment \<Rightarrow> 's sworld \<Rightarrow> canonical_quote option result \<times> 's sworld" where
  "refresh_suspicious env i previous oc candidate a w =
     sbind (set_provider_quote env candidate (provider_ttl env (q_provider_id candidate) (i_operational_ttl_seconds i)) w)
       (\<lambda>_ w1.
     sbind (announce_verifying env previous candidate a w1) (\<lambda>base w2.
     sbind (verification_quotes env (i_instrument_id i) candidate a w2) (\<lambda>verifiers w3.
     decide env i candidate previous (Some a) verifiers (oc_from_fresh_cache oc) base w3)))"

definition refresh_locked ::
  "('s, 'p) senv \<Rightarrow> instrument_definition \<Rightarrow> canonical_quote option \<Rightarrow> 's sworld
   \<Rightarrow> canonical_quote option result \<times> 's sworld" where
  "refresh_locked env i previous w =
     sbind (find_primary env i w) (\<lambda>primary w1.
     case primary of
       None \<Rightarrow> refresh_without_primary env i previous w1
     | Some (oc, candidate) \<Rightarrow>
         (case assess_candidate env candidate previous i w1 of
            Inl e \<Rightarrow> (Inl e, w1)
          | Inr assessment \<Rightarrow>
              (case assessment of
                 Some a \<Rightarrow>
                   if as_is_suspicious a then refresh_suspicious env i previous oc (suspect env candidate) a w1
                   else decide env i candidate previous assessment [] (oc_from_fresh_cache oc) previous w1
               | None \<Rightarrow> decide env i candidate previous assessment [] (oc_from_fresh_cache oc) previous w1)))"

definition refresh_instrument ::
  "('s, 'p) senv \<Rightarrow> string \<Rightarrow> 's sworld \<Rightarrow> canonical_quote option result \<times> 's sworld" where
  "refresh_instrument env iid w =
     (case service_instrument env iid of
        Inl e \<Rightarrow> (Inl e, w)
      | Inr i \<Rightarrow>
          if \<not> i_enabled i then (Inr None, w)
          else if \<not> sv_ping env then
            (Inl (RefreshSuspended ''Redis is unavailable; distributed pricing refresh is suspended''), w)
          else with_refresh_lock env (i_instrument_id i) (\<lambda>lease w1.
            case get_canonical env (i_instrument_id i) (sw_store w1) of
              Inl e \<Rightarrow> (Inl e, w1)
            | Inr previous \<Rightarrow> (if lease = None then (Inr previous, w1) else refresh_locked env i previous w1)) w)"

section \<open>A cycle over all instruments\<close>

definition refresh_order :: "string list" where
  "refresh_order = [''USDT_USD'', ''USDT_TOMAN'', ''USD_TOMAN'', ''BTC_USD'', ''XAU_USD_OZ'', ''XAG_USD_OZ'', ''BTC_TOMAN'',
     ''GOLD_24K_TOMAN_GRAM'', ''GOLD_18K_TOMAN_GRAM'', ''SILVER_999_TOMAN_GRAM'', ''SILVER_925_TOMAN_GRAM'']"

text \<open>\<open>f"failed:{type(exc).__name__}"\<close>: the result of a cycle for one instrument.\<close>

datatype refresh_result = StillFresh | Refreshed canonical_status | Unavailable | Failed py_error | SuspendedNoRedis

text \<open>The environment of each instrument has its own clock; an error of the refresh is a result, one of the read before
  it ends the cycle.\<close>

primrec cycle_from ::
  "(string \<Rightarrow> ('s, 'p) senv) \<Rightarrow> string list \<Rightarrow> 's sworld \<Rightarrow> (string \<times> refresh_result) list result \<times> 's sworld" where
  "cycle_from envs [] w = (Inr [], w)"
| "cycle_from envs (iid # rest) w =
     (let env = envs iid in
      case get_canonical env iid (sw_store w) of
        Inl e \<Rightarrow> (Inl e, w)
      | Inr current \<Rightarrow>
          if (case current of None \<Rightarrow> False | Some c \<Rightarrow> sv_now env \<le> c_valid_until c) then
            sbind (cycle_from envs rest w) (\<lambda>rs w1. (Inr ((iid, StillFresh) # rs), w1))
          else
            (let r = refresh_instrument env iid w;
                 res = (case fst r of Inl e \<Rightarrow> Failed e | Inr None \<Rightarrow> Unavailable
                        | Inr (Some c) \<Rightarrow> Refreshed (effective_status c (sv_now env)))
             in sbind (cycle_from envs rest (snd r)) (\<lambda>rs w1. (Inr ((iid, res) # rs), w1))))"

definition refresh_cycle ::
  "bool \<Rightarrow> (string \<Rightarrow> ('s, 'p) senv) \<Rightarrow> string list \<Rightarrow> 's sworld \<Rightarrow> (string \<times> refresh_result) list result \<times> 's sworld" where
  "refresh_cycle ping envs catalogue w =
     (if \<not> ping then (Inr (map (\<lambda>iid. (iid, SuspendedNoRedis)) catalogue), w)
      else cycle_from envs refresh_order w)"

section \<open>Quotes of the foreign worker\<close>

definition worker_maximum_source_age_seconds :: int where "worker_maximum_source_age_seconds = 600"

definition worker_live_ttl_seconds :: int where "worker_live_ttl_seconds = 360"

definition worker_providers :: "string list" where
  "worker_providers = [''coingecko_btc'', ''coingecko_usdt'', ''gold_api_free_xag'', ''gold_api_free_xau'', ''xaus_xag'']"

definition metal_providers :: "string list" where
  "metal_providers = [''gold_api_free_xag'', ''gold_api_free_xau'', ''xaus_xag'']"

datatype worker_result =
    IgnoredDisabled | IgnoredRole | IgnoredOlder | IgnoredConflict | IgnoredPriority | WorkerUnchanged
  | HistoricalPersisted | WorkerAccepted

definition worker_definition ::
  "('s, 'p) senv \<Rightarrow> string \<Rightarrow> string \<Rightarrow> instant \<Rightarrow> bool \<Rightarrow> provider_definition result" where
  "worker_definition env iid pid observed_at historical =
     (case find (\<lambda>p. p_provider_id p = pid) (providers_by_instrument (sv_registry env) iid) of
        None \<Rightarrow> Inl (ValueError ''Worker provider is not allowed for this instrument'')
      | Some d \<Rightarrow>
     ebind (require (pid \<in> set worker_providers) (ValueError ''Worker provider is not allowed for this instrument'')) (\<lambda>_.
     ebind (require (\<not> observed_at > sv_now env + seconds 300) (ValueError ''Worker quote timestamp is in the future'')) (\<lambda>_.
     ebind (require (\<not> (\<not> historical \<and> sv_now env - observed_at > seconds worker_maximum_source_age_seconds))
        (ValueError ''Worker quote timestamp is too old'')) (\<lambda>_.
     ebind (require (\<not> (historical \<and> pid \<in> set metal_providers))
        (ValueError ''Worker provider does not support historical quotes'')) (\<lambda>_. Inr d)))))"

definition worker_args ::
  "('s, 'p) senv \<Rightarrow> instrument_definition \<Rightarrow> string \<Rightarrow> provider_definition \<Rightarrow> rat \<Rightarrow> instant \<Rightarrow> bool \<Rightarrow> quote_args" where
  "worker_args env i iid d price observed_at historical = default_args
     \<lparr>a_instrument_id := iid, a_provider_id := p_provider_id d, a_source_type := ST_HTTP, a_price := PDecStr price,
      a_currency := i_quote_currency i, a_weight_unit := i_weight_unit i, a_purity := i_purity i,
      a_observed_at := utc observed_at, a_received_at := utc (sv_now env),
      a_parser_version := ''worker-relay/1.0.0'', a_validation_status := ACCEPTED,
      a_confidence_score := PDecStr (p_trust_score d),
      a_source_semantic := PStr (source_semantic_value (p_source_semantic d)),
      a_source_family := PStr (p_source_family d), a_venue := PStr (p_venue d),
      a_selected_price_semantic := PStr (price_semantic_value (p_selected_price_semantic d)),
      a_route_id := PStr ''foreign_worker_ingest'',
      a_metadata := [''quote_role'' \<mapsto> PStr (if historical then ''backfill'' else ''normal''),
        ''upstream_parser_version'' \<mapsto> PStr (p_parser_version d),
        ''provider_live_ttl_seconds'' \<mapsto> PInt worker_live_ttl_seconds,
        ''maximum_source_age_seconds'' \<mapsto> PInt worker_maximum_source_age_seconds,
        ''anchor_live_window_at_receive_time'' \<mapsto> PBool (\<not> historical)]\<rparr>"

definition definition_in_force :: "string \<Rightarrow> provider_definition \<Rightarrow> provider_definition list \<Rightarrow> provider_definition" where
  "definition_in_force pid d ps = (case find (\<lambda>p. p_provider_id p = pid) ps of None \<Rightarrow> d | Some p \<Rightarrow> p)"

text \<open>Why a definition in force refuses the quote, if it does.\<close>

definition refused_by :: "('s, 'p) senv \<Rightarrow> provider_definition \<Rightarrow> worker_result option" where
  "refused_by env d =
     (if \<not> p_enabled d \<or> \<not> configured d (sv_settings env) then Some IgnoredDisabled
      else if p_role d \<notin> {PRIMARY, FALLBACK} then Some IgnoredRole else None)"

definition ingest_historical ::
  "('s, 'p) senv \<Rightarrow> instrument_definition \<Rightarrow> string \<Rightarrow> provider_definition \<Rightarrow> provider_quote \<Rightarrow> 's sworld
   \<Rightarrow> worker_result result \<times> 's sworld" where
  "ingest_historical env i iid d q w =
     (case service_providers_for env iid [] of
        Inl e \<Rightarrow> (Inl e, w)
      | Inr ps \<Rightarrow>
          let d1 = definition_in_force (p_provider_id d) d ps in
          case refused_by env d1 of
            Some r \<Rightarrow> (Inr r, w)
          | None \<Rightarrow>
              let r = persist_quote env (q\<lparr>q_confidence_score := p_trust_score d1\<rparr>) w; q1 = snd (fst r) in
              if \<not> pr_persisted (fst (fst r)) then
                (Inl (RefreshSuspended ''Worker quote persistence is unavailable''), snd r)
              else
                (case select i q1 None None [] False (q_observed_at q1) of
                   Inl e \<Rightarrow> (Inl e, snd r)
                 | Inr dec \<Rightarrow>
                     let c = (d_canonical dec)\<lparr>c_source_summary :=
                           (c_source_summary (d_canonical dec))(''historical_backfill'' \<mapsto> PBool True)\<rparr>
                     in (case persist_canonical (sv_db_up env) (sv_queue_up env) (sv_now env) c (sw_store (snd r)) of
                           Inl e \<Rightarrow> (Inl e, snd r)
                         | Inr (stored, _, st) \<Rightarrow>
                             (if pr_persisted stored then Inr HistoricalPersisted
                              else Inl (RefreshSuspended ''Worker history persistence is unavailable''),
                              (snd r)\<lparr>sw_store := st\<rparr>))))"

text \<open>A live quote of a less important provider does not replace one that is still valid.\<close>

definition loses_priority ::
  "('s, 'p) senv \<Rightarrow> provider_definition \<Rightarrow> provider_definition list \<Rightarrow> canonical_quote option \<Rightarrow> bool" where
  "loses_priority env d ps previous =
     (case previous of
        None \<Rightarrow> False
      | Some p \<Rightarrow>
          (case find (\<lambda>x. c_source_summary p ''primary_provider_id'' = Some (PStr (p_provider_id x))) ps of
             None \<Rightarrow> False
           | Some x \<Rightarrow> sv_now env \<le> c_valid_until p
               \<and> ((p_role d \<noteq> PRIMARY \<and> p_role x = PRIMARY) \<or> (p_role d = p_role x \<and> p_priority d > p_priority x))))"

definition worker_metadata :: "provider_definition \<Rightarrow> provider_quote \<Rightarrow> provider_quote" where
  "worker_metadata d q = q\<lparr>q_confidence_score := p_trust_score d,
     q_metadata := (q_metadata q)(''provider_role'' \<mapsto> PStr (provider_role_value (p_role d)),
       ''provider_live_ttl_seconds'' \<mapsto> PInt (min worker_live_ttl_seconds (p_operational_ttl_seconds d)))\<rparr>"

definition store_worker_quote ::
  "('s, 'p) senv \<Rightarrow> instrument_definition \<Rightarrow> string \<Rightarrow> provider_definition \<Rightarrow> canonical_quote option \<Rightarrow> provider_quote
   \<Rightarrow> 's sworld \<Rightarrow> worker_result result \<times> 's sworld" where
  "store_worker_quote env i iid d previous q w =
     (case assess_candidate env q previous i w of
        Inl e \<Rightarrow> (Inl e, w)
      | Inr assessment \<Rightarrow>
          let suspicious = (case assessment of None \<Rightarrow> False | Some a \<Rightarrow> as_is_suspicious a);
              q1 = (if suspicious then q\<lparr>q_is_suspicious := True, q_validation_status := SUSPICIOUS\<rparr> else q);
              r = persist_quote env q1 w; q2 = snd (fst r) in
          if \<not> pr_persisted (fst (fst r)) then
            (Inl (RefreshSuspended ''Worker quote persistence is unavailable''), snd r)
          else
            sbind (case assessment of
                     None \<Rightarrow> (Inr [], snd r)
                   | Some a \<Rightarrow> if suspicious then verification_quotes env iid q2 a (snd r) else (Inr [], snd r)) (\<lambda>verifiers w1.
            case select i q2 previous assessment verifiers False (sv_now env) of
              Inl e \<Rightarrow> (Inl e, w1)
            | Inr dec \<Rightarrow>
                sbind (set_provider_quote env q2 (p_operational_ttl_seconds d) w1) (\<lambda>_ w2.
                sbind (publish_price env (d_canonical dec) previous w2) (\<lambda>_ w3. (Inr WorkerAccepted, w3)))))"

definition ingest_live ::
  "('s, 'p) senv \<Rightarrow> instrument_definition \<Rightarrow> string \<Rightarrow> provider_definition \<Rightarrow> provider_quote \<Rightarrow> 's sworld
   \<Rightarrow> worker_result result \<times> 's sworld" where
  "ingest_live env i iid d q w =
     (case get_canonical env iid (sw_store w) of
        Inl e \<Rightarrow> (Inl e, w)
      | Inr previous \<Rightarrow>
          if (case previous of None \<Rightarrow> False | Some p \<Rightarrow> q_observed_at q < c_observed_at p) then (Inr IgnoredOlder, w)
          else if (case previous of None \<Rightarrow> False | Some p \<Rightarrow> q_observed_at q = c_observed_at p) then
            (Inr (if q_price q \<noteq> map_option c_price previous then IgnoredConflict else WorkerUnchanged), w)
          else
            (case service_providers_for env iid [] of
               Inl e \<Rightarrow> (Inl e, w)
             | Inr ps \<Rightarrow>
                 let d1 = definition_in_force (p_provider_id d) d ps in
                 case refused_by env d1 of
                   Some r \<Rightarrow> (Inr r, w)
                 | None \<Rightarrow>
                     if loses_priority env d1 ps previous then (Inr IgnoredPriority, w)
                     else store_worker_quote env i iid d1 previous (worker_metadata d1 q) w))"

definition ingest_worker_quote ::
  "('s, 'p) senv \<Rightarrow> string \<Rightarrow> string \<Rightarrow> rat \<Rightarrow> instant \<Rightarrow> bool \<Rightarrow> 's sworld \<Rightarrow> worker_result result \<times> 's sworld" where
  "ingest_worker_quote env iid pid price observed_at historical w =
     (case ebind (worker_definition env iid pid observed_at historical) (\<lambda>d.
           ebind (service_instrument env iid) (\<lambda>i. Inr (d, i))) of
        Inl e \<Rightarrow> (Inl e, w)
      | Inr (d, i) \<Rightarrow>
          if \<not> i_enabled i then (Inr IgnoredDisabled, w)
          else if \<not> accepts i price then (Inl (ValueError ''Worker quote is outside the instrument policy''), w)
          else
            (case provider_quote_create (worker_args env i iid d price observed_at historical) of
               Inl e \<Rightarrow> (Inl e, w)
             | Inr q \<Rightarrow>
                 if historical then ingest_historical env i iid d q w
                 else if \<not> sv_ping env then (Inl (RefreshSuspended ''Worker live refresh requires Redis''), w)
                 else with_refresh_lock env iid (\<lambda>lease w1.
                   if lease = None then (Inl (RefreshSuspended ''Instrument refresh is already in progress''), w1)
                   else ingest_live env i iid d q w1) w))"

section \<open>What every operation keeps of the store\<close>

text \<open>Numbers handed out by a counter that moved from \<open>lo\<close> to \<open>hi\<close>: each once, in ascending order, and none of them before.\<close>

definition numbered_between :: "int \<Rightarrow> int \<Rightarrow> int option list \<Rightarrow> bool" where
  "numbered_between lo hi ms \<longleftrightarrow> lo \<le> hi \<and> (\<exists>ns. ms = map Some ns \<and> sorted_wrt (<) ns \<and> (\<forall>n\<in>set ns. lo < n \<and> n \<le> hi))"

lemma numbered_between_Nil [simp]: "numbered_between lo hi [] \<longleftrightarrow> lo \<le> hi"
  by (simp add: numbered_between_def)

lemma numbered_between_one: "lo < n \<Longrightarrow> n \<le> hi \<Longrightarrow> numbered_between lo hi [Some n]"
  unfolding numbered_between_def by (intro conjI exI[of _ "[n]"]) auto

lemma numbered_between_append:
  assumes "numbered_between a b xs" "numbered_between b c ys"
  shows "numbered_between a c (xs @ ys)"
proof -
  obtain ns where n: "xs = map Some ns" "sorted_wrt (<) ns" "\<forall>n\<in>set ns. a < n \<and> n \<le> b" "a \<le> b"
    using assms(1) by (auto simp: numbered_between_def)
  obtain ms where m: "ys = map Some ms" "sorted_wrt (<) ms" "\<forall>m\<in>set ms. b < m \<and> m \<le> c" "b \<le> c"
    using assms(2) by (auto simp: numbered_between_def)
  have "sorted_wrt (<) (ns @ ms)" "\<forall>n\<in>set (ns @ ms). a < n \<and> n \<le> c"
    using n m by (fastforce simp: sorted_wrt_append)+
  then show ?thesis
    using n m by (auto simp: numbered_between_def intro!: exI[of _ "ns @ ms"])
qed

text \<open>
  The store only grows. The rows of the table and the announced events stay as they were, in their order, and
  what is added comes after them with numbers that were never used: a row takes its number from the counter of the table
  and an event its sequence number from the counter in Redis.
\<close>

definition store_grows :: "canonical_store \<Rightarrow> canonical_store \<Rightarrow> bool" where
  "store_grows st st' \<longleftrightarrow>
     (\<exists>rows events. cs_rows st' = cs_rows st @ rows \<and> cs_published st' = cs_published st @ events
        \<and> numbered_between (cs_next_row st - 1) (cs_next_row st' - 1) (map c_id rows)
        \<and> numbered_between (cs_sequence st) (cs_sequence st') (map pl_sequence_number events))"

lemma store_grows_refl [intro!, simp]: "store_grows st st"
  by (simp add: store_grows_def)

lemma store_grows_trans [trans]:
  assumes "store_grows st st1" "store_grows st1 st2"
  shows "store_grows st st2"
proof -
  obtain r1 e1 where 1: "cs_rows st1 = cs_rows st @ r1" "cs_published st1 = cs_published st @ e1"
      "numbered_between (cs_next_row st - 1) (cs_next_row st1 - 1) (map c_id r1)"
      "numbered_between (cs_sequence st) (cs_sequence st1) (map pl_sequence_number e1)"
    using assms(1) by (auto simp: store_grows_def)
  obtain r2 e2 where 2: "cs_rows st2 = cs_rows st1 @ r2" "cs_published st2 = cs_published st1 @ e2"
      "numbered_between (cs_next_row st1 - 1) (cs_next_row st2 - 1) (map c_id r2)"
      "numbered_between (cs_sequence st1) (cs_sequence st2) (map pl_sequence_number e2)"
    using assms(2) by (auto simp: store_grows_def)
  show ?thesis
    unfolding store_grows_def
    by (intro exI[of _ "r1 @ r2"] exI[of _ "e1 @ e2"])
      (simp add: 1(1,2) 2(1,2) numbered_between_append[OF 1(3) 2(3)] numbered_between_append[OF 1(4) 2(4)])
qed

text \<open>\<open>grows w m\<close>: the world \<open>m\<close> leaves, result or error, has a store grown from that of \<open>w\<close>.\<close>

definition grows :: "'s sworld \<Rightarrow> 'a result \<times> 's sworld \<Rightarrow> bool" where
  "grows w m \<longleftrightarrow> store_grows (sw_store w) (sw_store (snd m))"

lemma grows_stay [intro!, simp]: "grows w (r, w)"
  by (simp add: grows_def)

lemma grows_providers [intro!, simp]: "grows w (r, w\<lparr>sw_providers := pw\<rparr>)"
  by (simp add: grows_def)

lemma grows_start: "sw_store w = sw_store w1 \<Longrightarrow> grows w1 m \<Longrightarrow> grows w m"
  by (simp add: grows_def)

lemma grows_if: "(P \<Longrightarrow> grows w a) \<Longrightarrow> (\<not> P \<Longrightarrow> grows w b) \<Longrightarrow> grows w (if P then a else b)"
  by simp

lemma grows_sbind:
  assumes "grows w m" "\<And>x w1. m = (Inr x, w1) \<Longrightarrow> grows w1 (f x w1)"
  shows "grows w (sbind m f)"
proof (cases m)
  case (Pair r w1)
  then show ?thesis
    using assms by (cases r) (auto simp: sbind_def grows_def intro: store_grows_trans)
qed

lemma grows_provider_step [intro!, simp]: "grows w (provider_step f w)"
  by (auto simp: provider_step_def split: sum.split)

lemma store_canonical_row_numbered:
  "\<exists>rows. cs_rows (snd (store_canonical_row q st)) = cs_rows st @ rows
     \<and> numbered_between (cs_next_row st - 1) (cs_next_row (snd (store_canonical_row q st)) - 1) (map c_id rows)"
  by (cases "find (same_row q) (cs_rows st)") (simp_all add: store_canonical_row_def numbered_between_one)

lemma persist_canonical_grows:
  assumes "persist_canonical up queue now q st = Inr (r, c, st')"
  shows "store_grows st st'"
proof -
  have "\<exists>rows. cs_rows st' = cs_rows st @ rows
      \<and> numbered_between (cs_next_row st - 1) (cs_next_row st' - 1) (map c_id rows)"
  proof (cases "up \<and> row_fits q")
    case True
    then have "st' = snd (store_canonical_row q st)"
      using assms unfolding persist_canonical_def if_P[OF True] Let_def by simp
    then show ?thesis
      using store_canonical_row_numbered by simp
  next
    case False
    then show ?thesis
      using assms unfolding persist_canonical_def if_not_P[OF False] Let_def by (auto simp: err_simps)
  qed
  then show ?thesis
    using persist_canonical_facts(3,5)[OF assms] by (simp add: store_grows_def)
qed

text \<open>What the writes to Redis leave alone.\<close>

definition same_table :: "canonical_store \<Rightarrow> canonical_store \<Rightarrow> bool" where
  "same_table st st' \<longleftrightarrow> cs_rows st' = cs_rows st \<and> cs_next_row st' = cs_next_row st \<and> cs_sequence st' = cs_sequence st"

lemma store_grows_same_table:
  "store_grows st st1 \<Longrightarrow> same_table st1 st2 \<Longrightarrow> cs_published st2 = cs_published st1 \<Longrightarrow> store_grows st st2"
  by (simp add: store_grows_def same_table_def)

lemma set_canonical_table: "set_canonical defs now c st = Inr st' \<Longrightarrow> same_table st st' \<and> cs_published st' = cs_published st"
  by (auto simp: set_canonical_def err_simps Let_def same_table_def)

lemma append_short_history_table:
  "append_short_history h n now c st = Inr st' \<Longrightarrow> same_table st st' \<and> cs_published st' = cs_published st"
  by (auto simp: append_short_history_def err_simps Let_def same_table_def)

lemma canonical_to_dict_sequence: "canonical_to_dict c a now ev = Inr p \<Longrightarrow> pl_sequence_number p = c_sequence_number c"
  by (auto simp: canonical_to_dict_def err_simps Let_def)

lemma publish_canonical_table:
  "publish_canonical now c st = Inr st' \<Longrightarrow>
     same_table st st' \<and> (\<exists>p. cs_published st' = cs_published st @ [p] \<and> pl_sequence_number p = c_sequence_number c)"
  by (auto simp: publish_canonical_def err_simps same_table_def dest: canonical_to_dict_sequence)

text \<open>An event of a commit carries the number that the commit drew.\<close>

lemma commit_grows: "store_grows st (snd (commit env q previous st))"
proof (cases "(case previous of None \<Rightarrow> False | Some p \<Rightarrow> c_observed_at q < c_observed_at p) \<or> \<not> sv_ok env AllocateSequence")
  case True
  then show ?thesis
    by (auto simp: commit_def)
next
  case False
  define m where "m = fst (next_sequence st)"
  define st1 where "st1 = snd (next_sequence st)"
  have n: "cs_sequence st < m" "m \<le> cs_sequence st1"
    and 1: "cs_rows st1 = cs_rows st" "cs_published st1 = cs_published st" "cs_next_row st1 = cs_next_row st"
    by (simp_all add: m_def st1_def next_sequence_def)
  then have g1: "store_grows st st1"
    by (simp add: store_grows_def)
  have ns: "next_sequence st = (m, st1)"
    by (simp add: m_def st1_def)
  let ?p = "persist_canonical (sv_db_up env) (sv_queue_up env) (sv_now env) (q\<lparr>c_sequence_number := Some m\<rparr>) st1"
  show ?thesis
  proof (cases ?p)
    case (Inl e)
    then show ?thesis
      using g1 False by (simp add: commit_def ns)
  next
    case (Inr x)
    then obtain r c st2 where p: "?p = Inr (r, c, st2)"
      by (cases x) auto
    note f = persist_canonical_facts(1,3,5)[OF p]
    have 2: "store_grows st st2"
      using g1 persist_canonical_grows[OF p] by (rule store_grows_trans)
    let ?s = "guarded env WriteCanonical (set_canonical (sv_defs env) (sv_now env) c st2)"
    have run: "commit env q previous st = (case ?s of Inl e \<Rightarrow> (Inl e, st2) | Inr st3 \<Rightarrow>
        (case guarded env WriteHistory (append_short_history (sv_history_hours env) (sv_history_entries env) (sv_now env) c st3) of
           Inl e \<Rightarrow> (Inl e, st3)
         | Inr st4 \<Rightarrow>
             if publication_changed (sv_now env) previous c then
               (case guarded env Publish (publish_canonical (sv_now env) c st4) of
                  Inl e \<Rightarrow> (Inl e, st4) | Inr st5 \<Rightarrow> (Inr c, st5))
             else (Inr c, st4)))"
      using False p by (simp add: commit_def ns)
    have 3: "same_table st2 st3 \<and> cs_published st3 = cs_published st2" if "?s = Inr st3" for st3
      using that set_canonical_table[of "sv_defs env" "sv_now env" c st2 st3] by (simp add: guarded_Inr)
    have 4: "same_table st3 st4 \<and> cs_published st4 = cs_published st3" if "guarded env WriteHistory
        (append_short_history (sv_history_hours env) (sv_history_entries env) (sv_now env) c st3) = Inr st4" for st3 st4
      using that append_short_history_table[of "sv_history_hours env" "sv_history_entries env" "sv_now env" c st3 st4]
      by (simp add: guarded_Inr)
    have 5: "store_grows st st5" if pub: "guarded env Publish (publish_canonical (sv_now env) c st4) = Inr st5"
      and t: "same_table st2 st4" "cs_published st4 = cs_published st2" for st4 st5
    proof -
      obtain pl where pl: "same_table st4 st5" "cs_published st5 = cs_published st4 @ [pl]" "pl_sequence_number pl = c_sequence_number c"
        using pub publish_canonical_table[of "sv_now env" c st4 st5] by (auto simp: guarded_Inr)
      have "c_sequence_number c = Some m"
        using f(1) by (simp add: same_quote_def)
      moreover have s5: "cs_sequence st5 = cs_sequence st1" "cs_published st5 = cs_published st @ [pl]"
          "cs_rows st5 = cs_rows st2" "cs_next_row st5 = cs_next_row st2"
        using pl t f 1 by (simp_all add: same_table_def)
      ultimately have "numbered_between (cs_sequence st) (cs_sequence st5) (map pl_sequence_number [pl])"
        using n pl(3) by (simp add: numbered_between_one)
      moreover obtain rows where "cs_rows st2 = cs_rows st @ rows"
          "numbered_between (cs_next_row st - 1) (cs_next_row st2 - 1) (map c_id rows)"
        using 2 by (auto simp: store_grows_def)
      ultimately show ?thesis
        unfolding store_grows_def by (intro exI[of _ rows] exI[of _ "[pl]"]) (simp add: s5)
    qed
    show ?thesis
    proof (cases ?s)
      case (Inl e)
      then show ?thesis
        using 2 unfolding run by simp
    next
      case s3: (Inr st3)
      have g3: "store_grows st st3"
        using store_grows_same_table[OF 2] 3[OF s3] by blast
      let ?h = "guarded env WriteHistory (append_short_history (sv_history_hours env) (sv_history_entries env) (sv_now env) c st3)"
      show ?thesis
      proof (cases ?h)
        case (Inl e)
        then show ?thesis
          using g3 unfolding run by (simp add: s3)
      next
        case s4: (Inr st4)
        have t: "same_table st2 st4" "cs_published st4 = cs_published st2"
          using 3[OF s3] 4[OF s4] by (simp_all add: same_table_def)
        have g4: "store_grows st st4"
          using store_grows_same_table[OF 2 t] .
        show ?thesis
          unfolding run s3 s4 sum.case using g4 5[OF _ t] by (simp split: sum.split)
      qed
    qed
  qed
qed

lemma commit_step_grows [intro!, simp]: "grows w (commit_step env q previous w)"
  by (simp add: commit_step_def store_step_def grows_def commit_grows Let_def)

lemma publish_price_grows [intro!, simp]: "grows w (publish_price env q previous w)"
  by (simp add: publish_price_def)

lemma set_provider_quote_grows [intro!, simp]: "grows w (set_provider_quote env q ttl w)"
  by (auto simp: set_provider_quote_def split: sum.split)

lemma persist_quote_store [simp]: "sw_store (snd (persist_quote env q w)) = sw_store w"
  by (simp add: persist_quote_def Let_def)

lemma persist_quote_grows [intro!, simp]: "grows w (r, snd (persist_quote env q w))"
  by (simp add: grows_def)

lemma find_primary_grows [intro!, simp]: "grows w (find_primary env i w)"
  unfolding find_primary_def by (intro grows_sbind) (auto split: sum.split option.split intro: grows_sbind)

lemma verify_pass_grows [intro!, simp]: "grows w (verify_pass env i candidate a ps quotes w)"
proof (induction ps arbitrary: quotes w)
  case (Cons p ps)
  have "grows w1 (verify_pass env i candidate a (p # ps) quotes w1)" for w1
    unfolding verify_pass.simps by (intro grows_sbind) (auto simp: Let_def Cons split: option.split sum.split bool.split)
  then show ?case .
qed simp

lemma verification_quotes_grows [intro!, simp]: "grows w (verification_quotes env iid candidate a w)"
  unfolding verification_quotes_def
  by (auto split: sum.split intro!: grows_sbind simp: Let_def)

lemma refresh_without_primary_grows [intro!, simp]: "grows w (refresh_without_primary env i previous w)"
proof (cases "try_telegram_fallback env i previous")
  case (Some c)
  then show ?thesis
    by (auto simp: refresh_without_primary_def intro!: grows_sbind)
next
  case None
  show ?thesis
  proof (cases "try_derived env i (sw_store w)")
    case (Inl e)
    then show ?thesis
      using None by (simp add: refresh_without_primary_def)
  next
    case (Inr x)
    show ?thesis
    proof (cases x)
      case None
      then show ?thesis
        using Inr \<open>try_telegram_fallback env i previous = None\<close> by (simp add: refresh_without_primary_def)
    next
      case (Some d)
      let ?r = "persist_quote env d w"
      have later: "grows (snd ?r) (sbind (set_provider_quote env (snd (fst ?r)) (i_operational_ttl_seconds i) (snd ?r)) (\<lambda>_ w2.
          case derived_fallback i (snd (fst ?r)) (sv_now env) of
            Inl e \<Rightarrow> (Inl e, w2)
          | Inr c \<Rightarrow> sbind (publish_price env c previous w2) (\<lambda>x w3. (Inr (Some x), w3))))"
        by (intro grows_sbind) (auto split: sum.split intro!: grows_sbind)
      show ?thesis
        using grows_start[OF persist_quote_store[symmetric] later] Inr Some None
        by (simp add: refresh_without_primary_def Let_def)
    qed
  qed
qed

lemma decide_grows [intro!, simp]: "grows w (decide env i candidate previous assessment verifiers from_cache base w)"
  unfolding decide_def by (auto split: sum.split intro!: grows_sbind)

lemma announce_verifying_grows [intro!, simp]: "grows w (announce_verifying env previous candidate a w)"
  unfolding announce_verifying_def by (auto split: sum.split option.split intro!: grows_sbind)

lemma refresh_suspicious_grows [intro!, simp]: "grows w (refresh_suspicious env i previous oc candidate a w)"
  unfolding refresh_suspicious_def by (intro grows_sbind) auto

lemma refresh_locked_grows [intro!, simp]: "grows w (refresh_locked env i previous w)"
  unfolding refresh_locked_def by (intro grows_sbind) (auto split: sum.split option.split)

lemma with_refresh_lock_grows:
  assumes "\<And>l w1. sw_store w1 = sw_store w \<Longrightarrow> grows w1 (body l w1)"
  shows "grows w (with_refresh_lock env iid body w)"
proof -
  have *: "store_grows (sw_store w) (sw_store (snd (body l (w\<lparr>sw_providers := pw\<rparr>))))" for l pw
    using assms[of "w\<lparr>sw_providers := pw\<rparr>" l] by (simp add: grows_def)
  show ?thesis
    unfolding with_refresh_lock_def Let_def grows_def using *
    by (auto split: sum.split option.split)
qed

lemma refresh_instrument_grows [intro!, simp]: "grows w (refresh_instrument env iid w)"
  unfolding refresh_instrument_def
  by (auto split: sum.split intro!: with_refresh_lock_grows)

lemma cycle_from_grows [intro!, simp]: "grows w (cycle_from envs ids w)"
proof (induction ids arbitrary: w)
  case (Cons iid ids)
  have "grows w (sbind (cycle_from envs ids (snd (refresh_instrument (envs iid) iid w))) f)" if "\<And>x w1. grows w1 (f x w1)"
    for f :: "(string \<times> refresh_result) list \<Rightarrow> 'a sworld \<Rightarrow> (string \<times> refresh_result) list result \<times> 'a sworld"
  proof -
    have "grows w (fst (refresh_instrument (envs iid) iid w), snd (refresh_instrument (envs iid) iid w))"
      by simp
    moreover have "grows (snd (refresh_instrument (envs iid) iid w))
        (sbind (cycle_from envs ids (snd (refresh_instrument (envs iid) iid w))) f)"
      by (intro grows_sbind Cons that)
    ultimately show ?thesis
      unfolding grows_def by (auto intro: store_grows_trans)
  qed
  then show ?case
    by (auto simp: Let_def split: sum.split option.split intro!: grows_sbind Cons)
qed simp

lemma ingest_historical_grows: "grows w (ingest_historical env i iid d q w)"
proof (cases "service_providers_for env iid []")
  case (Inr ps)
  let ?d = "definition_in_force (p_provider_id d) d ps"
  let ?r = "persist_quote env (q\<lparr>q_confidence_score := p_trust_score ?d\<rparr>) w"
  have "store_grows (sw_store w) st" if "persist_canonical up queue now c (sw_store w) = Inr (r, c', st)" for up queue now c r c' st
    using that by (rule persist_canonical_grows)
  then show ?thesis
    using Inr by (auto simp: ingest_historical_def Let_def grows_def split: option.split sum.split prod.split)
qed (simp add: ingest_historical_def)

lemma store_worker_quote_grows: "grows w (store_worker_quote env i iid d previous q w)"
proof (cases "assess_candidate env q previous i w")
  case (Inr assessment)
  define suspicious where "suspicious = (case assessment of None \<Rightarrow> False | Some a \<Rightarrow> as_is_suspicious a)"
  define q1 where "q1 = (if suspicious then q\<lparr>q_is_suspicious := True, q_validation_status := SUSPICIOUS\<rparr> else q)"
  let ?r = "persist_quote env q1 w"
  have later: "grows (snd ?r) (sbind (case assessment of
        None \<Rightarrow> (Inr [], snd ?r)
      | Some a \<Rightarrow> if suspicious then verification_quotes env iid (snd (fst ?r)) a (snd ?r) else (Inr [], snd ?r)) (\<lambda>verifiers w1.
      case select i (snd (fst ?r)) previous assessment verifiers False (sv_now env) of
        Inl e \<Rightarrow> (Inl e, w1)
      | Inr dec \<Rightarrow>
          sbind (set_provider_quote env (snd (fst ?r)) (p_operational_ttl_seconds d) w1) (\<lambda>_ w2.
          sbind (publish_price env (d_canonical dec) previous w2) (\<lambda>_ w3. (Inr WorkerAccepted, w3)))))"
    by (intro grows_sbind) (auto split: option.split sum.split intro!: grows_sbind)
  show ?thesis
    unfolding store_worker_quote_def Inr sum.case Let_def suspicious_def[symmetric] q1_def[symmetric]
    by (rule grows_if, rule persist_quote_grows, rule grows_start[OF persist_quote_store[symmetric] later])
qed (simp add: store_worker_quote_def)

lemma ingest_live_grows: "grows w (ingest_live env i iid d q w)"
  unfolding ingest_live_def
  by (auto simp: Let_def store_worker_quote_grows split: sum.split option.split)

lemma ingest_grows: "grows w (ingest_worker_quote env iid pid price observed_at historical w)"
  unfolding ingest_worker_quote_def
  by (auto simp: ingest_historical_grows ingest_live_grows split: sum.split intro!: with_refresh_lock_grows)

text \<open>Claim C36. Nothing is lost or numbered twice by the pricing operations: a refresh, a whole cycle and a quote of the
  worker, with a result or an error, keep all rows of the table of canonical quotes and all events announced so far,
  in their order; a new row takes a number the table has not handed out, and the events announced meanwhile carry
  sequence numbers in strictly ascending order, all of them above the counter as it was and not above the counter as
  it is. (The events are those announced on the channel; the copy of them that Redis keeps, cut at its
  maximum length, is not part of the model.)\<close>

theorem pricing_operations_lose_nothing:
  "store_grows (sw_store w) (sw_store (snd (refresh_instrument env iid w)))
   \<and> store_grows (sw_store w) (sw_store (snd (refresh_cycle ping envs catalogue w)))
   \<and> store_grows (sw_store w) (sw_store (snd (ingest_worker_quote env iid pid price observed_at historical w)))"
  using refresh_instrument_grows[of w env iid] cycle_from_grows[of w envs refresh_order]
    ingest_grows[of w env iid pid price observed_at historical]
  by (simp add: grows_def refresh_cycle_def)

section \<open>Prices only move forward\<close>

definition not_older :: "canonical_quote option \<Rightarrow> canonical_quote option \<Rightarrow> bool" where
  "not_older previous c \<longleftrightarrow> (\<forall>p. previous = Some p \<longrightarrow> (\<exists>x. c = Some x \<and> c_observed_at p \<le> c_observed_at x))"

lemma not_older_refl [simp]: "not_older previous previous"
  by (simp add: not_older_def)

lemma not_older_trans: "not_older a b \<Longrightarrow> not_older b c \<Longrightarrow> not_older a c"
  by (fastforce simp: not_older_def)

lemma commit_step_forward:
  assumes "commit_step env q previous w = (Inr c, w')"
  shows "not_older previous (Some c)"
proof -
  have "commit env q previous (sw_store w) = (Inr c, sw_store w')"
    using assms by (auto simp: commit_step_def store_step_def Let_def prod_eq_iff)
  then show ?thesis
    using commit_forward[of env q previous "sw_store w" c "sw_store w'"] by (simp add: not_older_def)
qed

lemma publish_price_forward:
  "publish_price env q previous w = (Inr c, w') \<Longrightarrow> not_older previous (Some c)"
  unfolding publish_price_def by (rule commit_step_forward)

lemma published_some_forward:
  assumes "sbind (publish_price env q previous w) (\<lambda>x w1. (Inr (Some x), w1)) = (Inr r, w')"
  shows "not_older previous r"
  using assms by (elim sbind_InrE) (auto dest: publish_price_forward)

lemma decide_forward:
  assumes "decide env i candidate previous assessment verifiers from_cache base w = (Inr r, w')"
  shows "not_older base r"
  using assms published_some_forward by (fastforce simp: decide_def split: sum.splits)

lemma announce_verifying_forward:
  assumes "announce_verifying env previous candidate a w = (Inr r, w')"
  shows "not_older previous r"
  using assms
  by (auto simp: announce_verifying_def split: option.splits sum.splits elim!: sbind_InrE dest: commit_step_forward)

lemma refresh_without_primary_forward:
  assumes "refresh_without_primary env i previous w = (Inr r, w')"
  shows "not_older previous r"
  using assms
  by (auto simp: refresh_without_primary_def Let_def split: option.splits sum.splits if_splits
      elim!: sbind_InrE dest: publish_price_forward)

lemma refresh_suspicious_forward:
  assumes "refresh_suspicious env i previous oc candidate a w = (Inr r, w')"
  shows "not_older previous r"
  using assms unfolding refresh_suspicious_def
  by (elim sbind_InrE) (blast intro: not_older_trans dest: announce_verifying_forward decide_forward)

lemma refresh_locked_forward:
  assumes "refresh_locked env i previous w = (Inr r, w')"
  shows "not_older previous r"
  using assms unfolding refresh_locked_def
  by (elim sbind_InrE)
    (auto split: option.splits sum.splits if_splits
      dest: refresh_without_primary_forward refresh_suspicious_forward decide_forward)

lemma with_refresh_lock_cases:
  assumes "with_refresh_lock env iid body w = (r, w')"
  obtains (error) e where "r = Inl e" "w' = w"
    | (busy) w1 where "sw_store w1 = sw_store w" "body None w1 = (r, w')"
    | (held) l w1 w2 where "sw_store w1 = sw_store w" "body (Some l) w1 = (r, w2)" "sw_store w' = sw_store w2"
proof (cases "acquire (sv_ops env) (w_redis (sw_providers w)) (refresh_key iid) (sv_lock_ttl_seconds env * 1000) (sv_owner env)")
  case (Inl e)
  then show ?thesis
    using assms error[of e] by (simp add: with_refresh_lock_def)
next
  case (Inr x)
  obtain lo s where x: "x = (lo, s)"
    by (cases x)
  let ?w1 = "w\<lparr>sw_providers := (sw_providers w)\<lparr>w_redis := s\<rparr>\<rparr>"
  show ?thesis
  proof (cases lo)
    case None
    then show ?thesis
      using assms busy[of ?w1] Inr x by (simp add: with_refresh_lock_def)
  next
    case (Some l)
    then show ?thesis
      using assms held[of ?w1 l "snd (body (Some l) ?w1)"] Inr x by (auto simp: with_refresh_lock_def Let_def prod_eq_iff)
  qed
qed

text \<open>Claim C1. Refreshing never takes a price back: when the instrument has a current price, a refresh that returns gives
  a price, observed no earlier than the current one, whichever way it goes: another worker holding the lock, a fresh
  quote of a provider, a Telegram or derived fallback, or a suspicious quote being verified.\<close>

theorem refresh_never_goes_back:
  assumes "refresh_instrument env iid w = (Inr r, w')" and "service_instrument env iid = Inr i" "i_enabled i"
    and "get_canonical env (i_instrument_id i) (sw_store w) = Inr (Some p)"
  shows "\<exists>c. r = Some c \<and> c_observed_at p \<le> c_observed_at c"
proof -
  have "sv_ping env"
    using assms(1-3) by (auto simp: refresh_instrument_def split: if_splits)
  then have "with_refresh_lock env (i_instrument_id i) (\<lambda>lease w1.
      case get_canonical env (i_instrument_id i) (sw_store w1) of
        Inl e \<Rightarrow> (Inl e, w1)
      | Inr previous \<Rightarrow> (if lease = None then (Inr previous, w1) else refresh_locked env i previous w1)) w = (Inr r, w')"
    using assms(1-3) by (simp add: refresh_instrument_def)
  then have "not_older (Some p) r"
    by (cases rule: with_refresh_lock_cases) (use assms(4) in \<open>auto dest: refresh_locked_forward\<close>)
  then show ?thesis
    by (simp add: not_older_def)
qed

section \<open>A cycle\<close>

text \<open>Claim C37. A cycle gives every instrument one result, in the order in which prices build on each other, whatever the
  refreshes raise; only an instrument whose current price cannot be read ends it early.\<close>

theorem cycle_gives_every_instrument_a_result:
  "(\<exists>results. fst (refresh_cycle True envs catalogue w) = Inr results \<and> map fst results = refresh_order)
   \<or> (\<exists>e. fst (refresh_cycle True envs catalogue w) = Inl e
        \<and> (\<exists>iid\<in>set refresh_order. \<exists>st. get_canonical (envs iid) iid st = Inl e))"
proof -
  have "(\<exists>results. r = Inr results \<and> map fst results = ids)
      \<or> (\<exists>e. r = Inl e \<and> (\<exists>iid\<in>set ids. \<exists>st. get_canonical (envs iid) iid st = Inl e))"
    if "cycle_from envs ids w = (r, w')" for ids r w'
    using that
  proof (induction ids arbitrary: w r w')
    case (Cons iid ids)
    have rest: ?case if "sbind (cycle_from envs ids v) (\<lambda>rs w1. (Inr ((iid, x) # rs), w1)) = (r, w')" for v x
    proof (cases "cycle_from envs ids v")
      case (Pair r1 w1)
      then show ?thesis
        using that Cons.IH[OF Pair] by (cases r1) (auto simp: sbind_def)
    qed
    show ?case
    proof (cases "get_canonical (envs iid) iid (sw_store w)")
      case (Inl e)
      then show ?thesis
        using Cons.prems by auto
    next
      case (Inr current)
      then show ?thesis
        using Cons.prems rest by (auto simp: Let_def split: if_splits)
    qed
  qed simp
  from this[of refresh_order "fst (cycle_from envs refresh_order w)" "snd (cycle_from envs refresh_order w)"]
  show ?thesis
    by (simp add: refresh_cycle_def)
qed

section \<open>The refresh lock\<close>

context redis_service
begin

lemma lock_freed:
  assumes "sv_ops env = ops" and "with_refresh_lock env iid body w = (r, w')"
    and "rd_get ops (w_redis (sw_providers w)) (refresh_key iid) \<noteq> Some (RText (sv_owner env))"
    and "\<And>w1. w_redis (sw_providers (snd (body None w1))) = w_redis (sw_providers w1)"
  shows "rd_get ops (w_redis (sw_providers w')) (refresh_key iid) \<noteq> Some (RText (sv_owner env))"
proof (cases "acquire ops (w_redis (sw_providers w)) (refresh_key iid) (sv_lock_ttl_seconds env * 1000) (sv_owner env)")
  case (Inl e)
  then show ?thesis
    using assms(1-3) by (auto simp: with_refresh_lock_def)
next
  case (Inr x)
  obtain lo s where x: "x = (lo, s)"
    by (cases x)
  let ?w1 = "w\<lparr>sw_providers := (sw_providers w)\<lparr>w_redis := s\<rparr>\<rparr>"
  show ?thesis
  proof (cases lo)
    case None
    then have "body None ?w1 = (r, w')" "s = w_redis (sw_providers w)"
      using assms(1,2) Inr x acquire_get[OF Inr[unfolded x]] by (simp_all add: with_refresh_lock_def)
    then show ?thesis
      using assms(3) assms(4)[of ?w1] by simp
  next
    case (Some l)
    define s2 where "s2 = w_redis (sw_providers (snd (body (Some l) ?w1)))"
    obtain b s3 where rel: "release ops s2 l = (b, s3)"
      by (cases "release ops s2 l")
    have "w_redis (sw_providers w') = s3"
      using assms(1,2) Inr x Some rel by (auto simp: with_refresh_lock_def Let_def s2_def)
    moreover have "l_key l = refresh_key iid" "l_owner_token l = sv_owner env"
      using acquire_lease[OF Inr[unfolded x Some]] by simp_all
    ultimately show ?thesis
      using release_get[OF rel] by (auto simp: holds_def split: if_splits)
  qed
qed

end

text \<open>The refresh lock is always given back: whatever a refresh ends in, result or error, the worker that made
  it does not hold the refresh lock of the instrument any more, unless it held it before.\<close>

theorem refresh_lock_given_back:
  assumes "redis_service (sv_ops env)"
    and "rd_get (sv_ops env) (w_redis (sw_providers w)) (refresh_key (i_instrument_id i)) \<noteq> Some (RText (sv_owner env))"
    and "service_instrument env iid = Inr i" and "refresh_instrument env iid w = (r, w')"
  shows "rd_get (sv_ops env) (w_redis (sw_providers w')) (refresh_key (i_instrument_id i)) \<noteq> Some (RText (sv_owner env))"
proof (cases "i_enabled i \<and> sv_ping env")
  case True
  let ?body = "\<lambda>lease w1. case get_canonical env (i_instrument_id i) (sw_store w1) of
        Inl e \<Rightarrow> (Inl e, w1)
      | Inr previous \<Rightarrow> (if lease = None then (Inr previous, w1) else refresh_locked env i previous w1)"
  have "with_refresh_lock env (i_instrument_id i) ?body w = (r, w')"
    using assms(3,4) True by (simp add: refresh_instrument_def)
  then show ?thesis
    by (rule redis_service.lock_freed[OF assms(1) refl _ assms(2)]) (simp split: sum.split)
next
  case False
  then have "w' = w"
    using assms(3,4) by (auto simp: refresh_instrument_def split: if_splits)
  then show ?thesis
    using assms(2) by simp
qed

section \<open>Quotes of the worker\<close>

lemma worker_definition_Inr:
  assumes "worker_definition env iid pid observed_at historical = Inr d"
  shows "pid \<in> set worker_providers" "observed_at \<le> sv_now env + seconds 300"
    "\<not> historical \<Longrightarrow> sv_now env - observed_at \<le> seconds worker_maximum_source_age_seconds"
    "historical \<Longrightarrow> pid \<notin> set metal_providers"
    "p_provider_id d = pid" "p_instrument_id d = iid"
proof -
  have f: "find (\<lambda>p. p_provider_id p = pid) (providers_by_instrument (sv_registry env) iid) = Some d"
    and rest: "pid \<in> set worker_providers" "observed_at \<le> sv_now env + seconds 300"
      "historical \<or> sv_now env - observed_at \<le> seconds worker_maximum_source_age_seconds"
      "\<not> historical \<or> pid \<notin> set metal_providers"
    using assms by (auto simp: worker_definition_def err_simps not_less split: option.splits)
  have "d \<in> set (providers_by_instrument (sv_registry env) iid)" "p_provider_id d = pid"
    using f by (auto simp: find_Some_iff)
  then show "p_provider_id d = pid" "p_instrument_id d = iid"
    by (simp_all add: providers_by_instrument_def)
  show "pid \<in> set worker_providers" "observed_at \<le> sv_now env + seconds 300"
    "\<not> historical \<Longrightarrow> sv_now env - observed_at \<le> seconds worker_maximum_source_age_seconds"
    "historical \<Longrightarrow> pid \<notin> set metal_providers"
    using rest by simp_all
qed

lemma ingest_live_cases:
  assumes "ingest_live env i iid d q w = (res, w')"
  shows "(\<forall>r. res = Inr r \<and> r \<noteq> WorkerAccepted \<longrightarrow> w' = w)
    \<and> (w' = w \<and> res \<noteq> Inr WorkerAccepted
       \<or> (\<exists>previous ps. get_canonical env iid (sw_store w) = Inr previous
           \<and> (\<forall>p. previous = Some p \<longrightarrow> c_observed_at p < q_observed_at q)
           \<and> service_providers_for env iid [] = Inr ps \<and> refused_by env (definition_in_force (p_provider_id d) d ps) = None
           \<and> \<not> loses_priority env (definition_in_force (p_provider_id d) d ps) ps previous))"
proof -
  have acc: "r' = WorkerAccepted" if "store_worker_quote env i iid d' previous q' w = (Inr r', w1)" for d' previous q' r' w1
    using that by (auto simp: store_worker_quote_def Let_def split: sum.splits option.splits if_splits elim!: sbind_InrE)
  show ?thesis
  proof (cases "get_canonical env iid (sw_store w)")
    case (Inl e)
    then show ?thesis
      using assms by (auto simp: ingest_live_def)
  next
    case previous: (Inr previous)
    let ?d = "\<lambda>ps. definition_in_force (p_provider_id d) d ps"
    show ?thesis
    proof (cases "\<exists>ps. service_providers_for env iid [] = Inr ps \<and> refused_by env (?d ps) = None
        \<and> \<not> loses_priority env (?d ps) ps previous \<and> (\<forall>p. previous = Some p \<longrightarrow> c_observed_at p < q_observed_at q)")
      case True
      then obtain ps where ps: "service_providers_for env iid [] = Inr ps" "refused_by env (?d ps) = None"
          "\<not> loses_priority env (?d ps) ps previous" "\<forall>p. previous = Some p \<longrightarrow> c_observed_at p < q_observed_at q"
        by blast
      have "store_worker_quote env i iid (?d ps) previous (worker_metadata (?d ps) q) w = (res, w')"
        using assms ps previous by (cases previous) (simp_all add: ingest_live_def Let_def)
      then show ?thesis
        using acc previous ps by blast
    next
      case False
      then have "w' = w \<and> res \<noteq> Inr WorkerAccepted"
        using assms previous unfolding ingest_live_def refused_by_def
        by (fastforce simp: Let_def split: sum.splits option.splits if_splits)
      then show ?thesis
        by blast
    qed
  qed
qed

text \<open>What a step leaves alone outside Redis: the store, the cached quotes, the runtime records and the table of quotes.\<close>

definition untouched :: "'s sworld \<Rightarrow> 's sworld \<Rightarrow> bool" where
  "untouched w w' \<longleftrightarrow> sw_store w' = sw_store w \<and> w_cache (sw_providers w') = w_cache (sw_providers w)
     \<and> w_runtime (sw_providers w') = w_runtime (sw_providers w) \<and> w_db (sw_providers w') = w_db (sw_providers w)"

lemma untouched_refl [simp]: "untouched w w"
  by (simp add: untouched_def)

lemma untouched_trans: "untouched w w1 \<Longrightarrow> untouched w1 w2 \<Longrightarrow> untouched w w2"
  by (simp add: untouched_def)

lemma locked_body_cases:
  assumes "with_refresh_lock env iid body w = (res, w')"
  obtains (failed) e where "res = Inl e" "untouched w w'"
  | (run) l w1 w2 where "untouched w w1" "body l w1 = (res, w2)" "untouched w2 w'"
proof (cases "acquire (sv_ops env) (w_redis (sw_providers w)) (refresh_key iid) (sv_lock_ttl_seconds env * 1000) (sv_owner env)")
  case (Inl e)
  then show ?thesis
    using assms that(1)[of e] by (simp add: with_refresh_lock_def)
next
  case (Inr y)
  obtain lo s where y: "y = (lo, s)"
    by (cases y)
  let ?w1 = "w\<lparr>sw_providers := (sw_providers w)\<lparr>w_redis := s\<rparr>\<rparr>"
  have w1: "untouched w ?w1"
    by (simp add: untouched_def)
  show ?thesis
  proof (cases lo)
    case None
    then have "body None ?w1 = (res, w')"
      using assms Inr y by (simp add: with_refresh_lock_def)
    then show ?thesis
      using that(2)[OF w1] untouched_refl by blast
  next
    case (Some l)
    have "body (Some l) ?w1 = (res, snd (body (Some l) ?w1))"
      using assms Inr y Some by (auto simp: with_refresh_lock_def Let_def prod_eq_iff)
    moreover have "untouched (snd (body (Some l) ?w1)) w'"
      using assms Inr y Some by (auto simp: with_refresh_lock_def Let_def untouched_def)
    ultimately show ?thesis
      using that(2)[OF w1] by blast
  qed
qed

text \<open>Claim C5. A live quote of the worker is taken only if it moves the price forward. If the call accepts it, or if it
  changes the stored prices, the cached quotes, the runtime records or the table of quotes (\<open>untouched\<close> fails), with whatever
  result or error, then it came from a provider the worker may report, was at most ten minutes old and not more than
  five minutes ahead, fitted the bounds of an enabled instrument, was observed later than the current price, and the
  definition of its provider in force did not refuse it or give way to the source of that price. And if the call
  returns anything else than accepted, none of these stores has changed.\<close>

theorem worker_quote_moves_forward:
  assumes "ingest_worker_quote env iid pid price observed_at False w = (res, w')"
  shows "(res = Inr WorkerAccepted \<or> \<not> untouched w w' \<longrightarrow> pid \<in> set worker_providers
        \<and> sv_now env - observed_at \<le> seconds worker_maximum_source_age_seconds \<and> observed_at \<le> sv_now env + seconds 300
        \<and> (\<exists>i. service_instrument env iid = Inr i \<and> i_enabled i \<and> accepts i price)
        \<and> (\<exists>d previous ps. worker_definition env iid pid observed_at False = Inr d
             \<and> get_canonical env iid (sw_store w) = Inr previous
             \<and> (\<forall>p. previous = Some p \<longrightarrow> c_observed_at p < observed_at)
             \<and> service_providers_for env iid [] = Inr ps \<and> refused_by env (definition_in_force pid d ps) = None
             \<and> \<not> loses_priority env (definition_in_force pid d ps) ps previous))
    \<and> (\<forall>r. res = Inr r \<and> r \<noteq> WorkerAccepted \<longrightarrow> untouched w w')"
proof (cases "\<exists>d i q. worker_definition env iid pid observed_at False = Inr d \<and> service_instrument env iid = Inr i
    \<and> i_enabled i \<and> accepts i price \<and> provider_quote_create (worker_args env i iid d price observed_at False) = Inr q \<and> sv_ping env")
  case False
  then have "w' = w \<and> res \<noteq> Inr WorkerAccepted"
    using assms by (auto simp: ingest_worker_quote_def err_simps split: sum.splits if_splits)
  then show ?thesis
    by simp
next
  case True
  then obtain d i q where d: "worker_definition env iid pid observed_at False = Inr d" "service_instrument env iid = Inr i"
      "i_enabled i" "accepts i price" and q: "provider_quote_create (worker_args env i iid d price observed_at False) = Inr q"
      and ping: "sv_ping env"
    by blast
  have obs: "q_observed_at q = observed_at"
    using create_fields(6)[OF q] by (simp add: worker_args_def)
  have run: "with_refresh_lock env iid (\<lambda>lease w1.
      if lease = None then (Inl (RefreshSuspended ''Instrument refresh is already in progress''), w1)
      else ingest_live env i iid d q w1) w = (res, w')"
    using assms d q ping by (simp add: ingest_worker_quote_def)
  show ?thesis
  proof (cases rule: locked_body_cases[OF run])
    case (1 e)
    then show ?thesis
      by simp
  next
    case (2 l w1 w2)
    show ?thesis
    proof (cases "l = None")
      case True
      then show ?thesis
        using 2 untouched_trans by auto
    next
      case False
      have live: "ingest_live env i iid d q w1 = (res, w2)"
        using 2(2) unfolding if_not_P[OF False] .
      have st: "sw_store w1 = sw_store w"
        using 2(1) by (simp add: untouched_def)
      have same: "untouched w w'" if "w2 = w1"
        using that 2(1,3) untouched_trans by blast
      note def = worker_definition_Inr(1-3,5)[OF d(1)]
      note cs = ingest_live_cases[OF live, unfolded st obs def(4)]
      have other: "\<forall>r. res = Inr r \<and> r \<noteq> WorkerAccepted \<longrightarrow> untouched w w'"
        using conjunct1[OF cs] same by blast
      from conjunct2[OF cs] show ?thesis
      proof
        assume "w2 = w1 \<and> res \<noteq> Inr WorkerAccepted"
        then show ?thesis
          using same by simp
      next
        assume "\<exists>previous ps. get_canonical env iid (sw_store w) = Inr previous
            \<and> (\<forall>p. previous = Some p \<longrightarrow> c_observed_at p < observed_at)
            \<and> service_providers_for env iid [] = Inr ps \<and> refused_by env (definition_in_force pid d ps) = None
            \<and> \<not> loses_priority env (definition_in_force pid d ps) ps previous"
        then have newer: "\<exists>d previous ps. worker_definition env iid pid observed_at False = Inr d
            \<and> get_canonical env iid (sw_store w) = Inr previous
            \<and> (\<forall>p. previous = Some p \<longrightarrow> c_observed_at p < observed_at)
            \<and> service_providers_for env iid [] = Inr ps \<and> refused_by env (definition_in_force pid d ps) = None
            \<and> \<not> loses_priority env (definition_in_force pid d ps) ps previous"
          using d(1) by blast
        have inst: "\<exists>i. service_instrument env iid = Inr i \<and> i_enabled i \<and> accepts i price"
          using d(2-4) by blast
        have age: "sv_now env - observed_at \<le> seconds worker_maximum_source_age_seconds"
          by (rule def(3)) simp
        show ?thesis
          by (intro conjI impI) (rule def(1) age def(2) inst newer other)+
      qed
    qed
  qed
qed

section \<open>Historical quotes\<close>

text \<open>Two stores readers cannot tell apart.\<close>

definition reads_alike :: "canonical_store \<Rightarrow> canonical_store \<Rightarrow> bool" where
  "reads_alike st st' \<longleftrightarrow> cs_current st' = cs_current st \<and> cs_all st' = cs_all st \<and> cs_all_until st' = cs_all_until st
     \<and> (\<forall>iid. latest_row iid st' = latest_row iid st)"

lemma reads_alike_canonical:
  assumes "reads_alike st st'"
  shows "get_canonical env iid st' = get_canonical env iid st"
proof -
  have "store_get_canonical now k st' = store_get_canonical now k st" "latest_canonical k st' = latest_canonical k st" for now k
    using assms by (simp_all add: reads_alike_def store_get_canonical_def latest_canonical_def)
  then have "stored_quotes env k st' = stored_quotes env k st" for k
    unfolding stored_quotes_def by simp
  then show ?thesis
    unfolding get_canonical_def by (simp cong: if_cong)
qed

lemma reads_alike_all:
  assumes "reads_alike st st'"
  shows "get_all_canonical env st' = get_all_canonical env st"
proof -
  have "store_get_all_canonical now st' = store_get_all_canonical now st" for now
    using assms by (simp add: reads_alike_def store_get_all_canonical_def live_all_def)
  moreover have "latest_all st' = latest_all st"
    using assms by (simp add: reads_alike_def latest_all_def latest_canonical_def)
  ultimately show ?thesis
    by (simp add: get_all_canonical_def Let_def)
qed

lemma historical_not_current:
  assumes "c_source_summary c ''historical_backfill'' = Some (PBool True)"
  shows "\<not> current_row (row_of c)" "\<not> current_row ((row_of c)\<lparr>c_id := n\<rparr>)"
  using assms by (simp_all add: current_row_def row_of_def json_text_def coalesce_def)

lemma historical_persist_alike:
  assumes "persist_canonical up queue now c st = Inr (r, c', st')"
    and "c_source_summary c ''historical_backfill'' = Some (PBool True)"
  shows "reads_alike st st'"
proof (cases "up \<and> row_fits c")
  case True
  then have st': "st' = snd (store_canonical_row c st)"
    using assms(1) unfolding persist_canonical_def if_P[OF True] Let_def by simp
  show ?thesis
    unfolding st' by (cases "find (same_row c) (cs_rows st)")
      (simp_all add: store_canonical_row_def reads_alike_def latest_row_def historical_not_current(2)[OF assms(2)])
next
  case False
  then show ?thesis
    using assms(1) unfolding persist_canonical_def if_not_P[OF False] Let_def
    by (auto simp: err_simps reads_alike_def latest_row_def)
qed

lemma reads_alike_refl [simp]: "reads_alike st st"
  by (simp add: reads_alike_def)

lemma ingest_historical_alike:
  "reads_alike (sw_store w) (sw_store (snd (ingest_historical env i iid d q w)))"
proof (cases "service_providers_for env iid []")
  case (Inr ps)
  have "reads_alike st st'" if "persist_canonical up queue now
      (c\<lparr>c_source_summary := (c_source_summary c)(''historical_backfill'' \<mapsto> PBool True)\<rparr>) st = Inr (r, c', st')"
    for up queue now c st r c' st'
    by (rule historical_persist_alike[OF that]) simp
  then show ?thesis
    using Inr by (auto simp: ingest_historical_def Let_def split: option.split sum.split prod.split)
qed (simp add: ingest_historical_def)

text \<open>Claim C2. Historical quotes of the worker stay out of the current prices: whatever such a quote ends in, every reader of
  the current price of one instrument or of all of them (\<open>get_canonical\<close>, \<open>get_all_canonical\<close>), at any time and under any
  settings, gets afterwards what it got before. Charts, and the recent prices that deviations are measured against, are
  meant to hold past prices and do see the new row.\<close>

theorem historical_quotes_stay_out:
  "get_canonical env' iid' (sw_store (snd (ingest_worker_quote env iid pid price observed_at True w)))
     = get_canonical env' iid' (sw_store w)
   \<and> get_all_canonical env' (sw_store (snd (ingest_worker_quote env iid pid price observed_at True w)))
     = get_all_canonical env' (sw_store w)"
proof -
  have "reads_alike (sw_store w) (sw_store (snd (ingest_worker_quote env iid pid price observed_at True w)))"
    by (auto simp: ingest_worker_quote_def ingest_historical_alike split: sum.split)
  then show ?thesis
    by (simp add: reads_alike_canonical reads_alike_all)
qed

section \<open>Examples\<close>

text \<open>A service without providers whose derived fallback is switched off, and a store with one price.\<close>

definition quiet_senv :: "(ttl_store, unit) senv" where
  "quiet_senv = example_senv\<lparr>sv_registry := [], sv_features := (\<lambda>_. False)\<rparr>"

definition quiet_world :: "ttl_store sworld" where
  "quiet_world = \<lparr>sw_providers = example_world None, sw_store = example_table\<rparr>"

lemma quiet_reads:
  "service_instrument quiet_senv iid = service_instrument example_senv iid"
  "stored_quotes quiet_senv iid st = stored_quotes example_senv iid st"
  "sv_ping quiet_senv" "sv_ops quiet_senv = ttl_ops" "sv_telegram_rows quiet_senv = None" "sv_lock_ttl_seconds quiet_senv = 30"
  "sv_defs quiet_senv = sv_defs example_senv"
  by (simp_all add: quiet_senv_def service_instrument_def stored_quotes_def) (simp_all add: example_senv_def)

lemma quiet_canonical: "get_canonical quiet_senv iid st = get_canonical example_senv iid st"
  by (simp add: get_canonical_def quiet_reads cong: if_cong)

lemma quiet_providers: "service_providers_for quiet_senv ''BTC_USD'' roles = Inr []"
  using example_lookup by (simp add: quiet_senv_def example_senv_def service_providers_for_def operational_providers_for_def
      providers_by_instrument_def providers_from_rows_def example_op_db_def sort_key_def Let_def)

lemmas quiet_facts = quiet_canonical quiet_providers

lemma quiet_locked:
  assumes "i_instrument_id i = ''BTC_USD''"
  shows "refresh_locked quiet_senv i previous w = (Inr previous, w)"
proof -
  have n: "normal_quote quiet_senv i pw = Inr (None, 0, pw)" for pw
    using assms by (simp add: normal_quote_def quiet_facts quiet_reads)
  have f: "fallback_quote quiet_senv i None pw = Inr (None, 0, pw)" for pw
    using assms by (simp add: fallback_quote_def quiet_facts quiet_reads Let_def rank_candidates_def sort_desc_def first_usable_def)
  have p: "find_primary quiet_senv i w = (Inr None, w)"
    by (simp add: find_primary_def provider_step_def drop_count_def n f live_primary_def)
  have "feature_enabled (sv_loads quiet_senv) (sv_features quiet_senv) (sv_op_db quiet_senv) ''telegram_source_enabled'' ''BTC_USD''"
      "\<not> feature_enabled (sv_loads quiet_senv) (sv_features quiet_senv) (sv_op_db quiet_senv) ''derived_fallback_enabled'' ''BTC_USD''"
    by (simp_all add: feature_enabled_def value_of_def setting_row_def setting_value_of_def quiet_senv_def example_senv_def
        example_op_db_def feature_default_def)
  then have "try_telegram_fallback quiet_senv i previous = None" "try_derived quiet_senv i st = Inr None" for st
    using assms by (simp_all add: try_telegram_fallback_def stored_telegram_def telegram_latest_def quiet_facts quiet_reads try_derived_def)
  then show ?thesis
    by (simp add: refresh_locked_def p refresh_without_primary_def)
qed

lemma quiet_refresh:
  "\<exists>w' c. refresh_instrument quiet_senv ''BTC_USD'' quiet_world = (Inr (Some c), w')
     \<and> get_canonical quiet_senv ''BTC_USD'' (sw_store quiet_world) = Inr (Some c)"
proof -
  obtain c where c: "get_canonical quiet_senv ''BTC_USD'' example_table = Inr (Some c)"
    using example_in_policy example_reads by (auto simp: quiet_facts quiet_reads)
  obtain i where i: "service_instrument quiet_senv ''BTC_USD'' = Inr i" "i_instrument_id i = ''BTC_USD''" "i_enabled i"
    using example_service_instrument by (simp add: quiet_facts quiet_reads example_instrument_def)
  obtain lo s where a: "acquire ttl_ops \<lparr>st_now = 0, st_data = Map.empty\<rparr> (refresh_key ''BTC_USD'') 30000 (sv_owner quiet_senv) = Inr (lo, s)"
    by (simp add: acquire_def st_simps st_entry_def Let_def)
  show ?thesis
    using c i a by (cases lo)
      (simp_all add: refresh_instrument_def with_refresh_lock_def quiet_world_def example_world_def quiet_facts quiet_reads quiet_locked Let_def)
qed

theorem refresh_never_goes_back_witness:
  "\<exists>w' c p. refresh_instrument quiet_senv ''BTC_USD'' quiet_world = (Inr (Some c), w')
     \<and> get_canonical quiet_senv ''BTC_USD'' (sw_store quiet_world) = Inr (Some p) \<and> c_observed_at p \<le> c_observed_at c"
proof -
  obtain w' c where r: "refresh_instrument quiet_senv ''BTC_USD'' quiet_world = (Inr (Some c), w')"
      "get_canonical quiet_senv ''BTC_USD'' (sw_store quiet_world) = Inr (Some c)"
    using quiet_refresh by blast
  obtain i where i: "service_instrument quiet_senv ''BTC_USD'' = Inr i" "i_instrument_id i = ''BTC_USD''" "i_enabled i"
    using example_service_instrument by (simp add: quiet_facts quiet_reads example_instrument_def)
  show ?thesis
    using refresh_never_goes_back [OF r(1) i(1,3) r(2)[folded i(2)]] r by auto
qed

theorem refresh_lock_given_back_witness:
  "\<exists>r w'. refresh_instrument quiet_senv ''BTC_USD'' quiet_world = (r, w')
     \<and> rd_get ttl_ops (w_redis (sw_providers w')) (refresh_key ''BTC_USD'') \<noteq> Some (RText ''o'')"
proof -
  obtain r w' where r: "refresh_instrument quiet_senv ''BTC_USD'' quiet_world = (r, w')"
    by (cases "refresh_instrument quiet_senv ''BTC_USD'' quiet_world")
  obtain i where i: "service_instrument quiet_senv ''BTC_USD'' = Inr i" "i_instrument_id i = ''BTC_USD''"
    using example_service_instrument by (simp add: quiet_facts quiet_reads example_instrument_def)
  have "redis_service (sv_ops quiet_senv)" "sv_owner quiet_senv = ''o''"
    using ttl.redis_service_axioms by (simp_all add: quiet_facts quiet_reads quiet_senv_def example_senv_def)
  moreover have "rd_get (sv_ops quiet_senv) (w_redis (sw_providers quiet_world)) k = None" for k
    by (simp add: quiet_facts quiet_reads quiet_world_def example_world_def ttl_ops_def st_entry_def)
  ultimately show ?thesis
    using refresh_lock_given_back [of quiet_senv quiet_world i "''BTC_USD''" r w'] r i by (simp add: quiet_facts quiet_reads)
qed

definition worker_senv :: "(ttl_store, unit) senv" where
  "worker_senv = example_senv\<lparr>sv_registry := [example_source\<lparr>p_provider_id := ''coingecko_btc''\<rparr>]\<rparr>"

lemma worker_reads:
  "service_instrument worker_senv iid = service_instrument example_senv iid"
  "stored_quotes worker_senv iid st = stored_quotes example_senv iid st"
  "sv_ping worker_senv" "sv_ops worker_senv = ttl_ops" "sv_lock_ttl_seconds worker_senv = 30" "sv_now worker_senv = 3000000"
  "sv_defs worker_senv = sv_defs example_senv"
  by (simp_all add: worker_senv_def service_instrument_def stored_quotes_def) (simp_all add: example_senv_def)

lemma worker_older:
  "\<exists>w'. ingest_worker_quote worker_senv ''BTC_USD'' ''coingecko_btc'' 50000 500000 False quiet_world = (Inr IgnoredOlder, w')"
proof -
  obtain d where d: "worker_definition worker_senv ''BTC_USD'' ''coingecko_btc'' 500000 False = Inr d"
      "d = example_source\<lparr>p_provider_id := ''coingecko_btc''\<rparr>"
    by (simp add: worker_definition_def worker_senv_def example_senv_def providers_by_instrument_def
        worker_providers_def metal_providers_def example_source_def sort_key_def require_def seconds_def
        worker_maximum_source_age_seconds_def)
  obtain i where i: "service_instrument worker_senv ''BTC_USD'' = Inr i" "i_enabled i" "accepts i 50000"
      "i = example_instrument\<lparr>i_expire_after_seconds := 600, i_stale_after_seconds := 600\<rparr>"
    using example_service_instrument by (simp add: worker_reads accepts_def example_instrument_def)
  obtain q where q: "provider_quote_create (worker_args worker_senv i ''BTC_USD'' d 50000 500000 False) = Inr q"
      "q_observed_at q = 500000"
    unfolding i(4) d(2)
    by (simp add: worker_reads provider_quote_create_def worker_args_def default_args_def decimal_or_none_def decimal_value_def
        seconds_def default_future_clock_skew_seconds_def normalize_source_provenance_def raw_quote_def dict_get_def or_val_def
        first_of_def enum_of_def source_semantics_def text_value_def strip_def is_space_def price_semantics_def source_spread_def
        depth_of_def ddiv_def list_items_def example_instrument_def example_source_def infer_price_semantic_def
        upper_def upper_char_def Let_def)
  obtain c where c: "get_canonical worker_senv ''BTC_USD'' example_table = Inr (Some c)" "c_observed_at c = 1000000"
  proof -
    obtain c where c: "current_policy (example_instrument\<lparr>i_expire_after_seconds := 600, i_stale_after_seconds := 600\<rparr>)
        example_canonical = Some c"
      using example_in_policy by blast
    then have "c_observed_at c = 1000000"
      using current_policy_frame[OF c] by (simp add: recency_def example_canonical_def)
    then show ?thesis
      using that c example_reads by (simp add: get_canonical_def worker_reads cong: if_cong)
  qed
  obtain lo s where a: "acquire ttl_ops \<lparr>st_now = 0, st_data = Map.empty\<rparr> (refresh_key ''BTC_USD'') 30000 (sv_owner worker_senv) = Inr (Some lo, s)"
    by (simp add: acquire_def st_simps st_entry_def Let_def)
  show ?thesis
    using d(1) i q c a by (simp add: ingest_worker_quote_def with_refresh_lock_def quiet_world_def example_world_def worker_reads
        ingest_live_def Let_def)
qed

theorem worker_quote_moves_forward_witness:
  "\<exists>w'. ingest_worker_quote worker_senv ''BTC_USD'' ''coingecko_btc'' 50000 500000 False quiet_world = (Inr IgnoredOlder, w')
     \<and> untouched quiet_world w'"
proof -
  obtain w' where w': "ingest_worker_quote worker_senv ''BTC_USD'' ''coingecko_btc'' 50000 500000 False quiet_world
      = (Inr IgnoredOlder, w')"
    using worker_older by blast
  then show ?thesis
    using worker_quote_moves_forward [OF w'] by simp
qed

end
