(* ===== verification/Sanitize.thy ===== *)
theory Sanitize
  imports Json
begin

text \<open>
  Model of \<open>sanitize_raw_payload\<close> in \<open>apps/api/app/pricing/parsers/base.py\<close>: the text of a payload that is kept for
  inspection, without secrets and of bounded size. \<open>json.dumps\<close> is a parameter; a text is measured in its UTF-8 bytes.
\<close>

section \<open>The archived text\<close>

definition redacted_keys :: "utext list" where
  "redacted_keys = map uni [''api_key'', ''apikey'', ''authorization'', ''cookie'', ''password'', ''secret'', ''session'',
     ''token'', ''x_access_token'']"

definition u_ends_with :: "utext \<Rightarrow> utext \<Rightarrow> bool" where
  "u_ends_with suffix s \<longleftrightarrow> length suffix \<le> length s \<and> drop (length s - length suffix) s = suffix"

definition sensitive_key :: "text_rt \<Rightarrow> utext \<Rightarrow> bool" where
  "sensitive_key rt k \<longleftrightarrow>
     (let normalized = map (\<lambda>c. if c = 45 then 95 else c) (u_lower rt k) in
      normalized \<in> set redacted_keys
      \<or> list_ex (\<lambda>s. u_ends_with (uni s) normalized) [''_api_key'', ''_password'', ''_secret'', ''_token''])"

text \<open>\<open>sanitize\<close> with the depths that are left.\<close>

primrec sanitize :: "text_rt \<Rightarrow> nat \<Rightarrow> json \<Rightarrow> json" where
  "sanitize rt 0 v = JStr (uni ''[depth-limited]'')"
| "sanitize rt (Suc n) v =
     (case v of
        JObj ms \<Rightarrow> JObj (foldl (\<lambda>clean (k, x).
           AList.update (take 100 k) (if sensitive_key rt k then JStr (uni ''[redacted]'') else sanitize rt n x) clean) []
           (take 100 ms))
      | JList xs \<Rightarrow> JList (map (sanitize rt n) (take 100 xs))
      | JStr s \<Rightarrow> JStr (take 1000 s)
      | _ \<Rightarrow> v)"

fun finite_json :: "json \<Rightarrow> bool" where
  "finite_json (JFloat f) = (case f of FFin _ \<Rightarrow> True | _ \<Rightarrow> False)"
| "finite_json (JList xs) = list_all finite_json xs"
| "finite_json (JObj ms) = list_all (\<lambda>m. finite_json (snd m)) ms"
| "finite_json _ = True"

definition utf8_len :: "nat \<Rightarrow> nat" where
  "utf8_len c = (if c < 128 then 1 else if c < 2048 then 2 else if c < 65536 then 3 else 4)"

definition utf8_size :: "utext \<Rightarrow> nat" where
  "utf8_size s = sum_list (map utf8_len s)"

text \<open>The first bytes of a text, without a character that is cut.\<close>

fun utf8_take :: "nat \<Rightarrow> utext \<Rightarrow> utext" where
  "utf8_take n [] = []"
| "utf8_take n (c # s) = (if utf8_len c \<le> n then c # utf8_take (n - utf8_len c) s else [])"

definition sanitize_raw_payload :: "text_rt \<Rightarrow> json \<Rightarrow> int \<Rightarrow> utext result" where
  "sanitize_raw_payload rt payload maximum_bytes =
     (let bounded_limit = nat (max 1024 (min maximum_bytes 1048576));
          clean = sanitize rt 8 payload; encoded = tr_dumps rt clean; suffix = uni [CHR 0x22, CHR ''['']
            @ uni ''truncated'' @ uni [CHR '']'', CHR 0x22, CHR ''}'']
      in if \<not> finite_json clean then Inl (ValueError ''Out of range float values are not JSON compliant'')
         else if list_ex (\<lambda>c. 55296 \<le> c \<and> c < 57344) encoded then Inl (ValueError ''surrogates not allowed'')
         else if utf8_size encoded \<le> bounded_limit then Inr encoded
         else Inr (utf8_take (max 1 (bounded_limit - length suffix)) encoded @ suffix))"

section \<open>Secrets\<close>

text \<open>Two payloads that differ in the values of sensitive members only.\<close>

inductive alike :: "text_rt \<Rightarrow> json \<Rightarrow> json \<Rightarrow> bool" for rt where
  same: "alike rt v v"
| lists: "list_all2 (alike rt) xs ys \<Longrightarrow> alike rt (JList xs) (JList ys)"
| objects: "list_all2 (\<lambda>m m'. fst m = fst m' \<and> (sensitive_key rt (fst m) \<or> alike rt (snd m) (snd m'))) ms ms'
     \<Longrightarrow> alike rt (JObj ms) (JObj ms')"

lemma foldl_alike:
  assumes "list_all2 R xs ys" "\<And>a x y. R x y \<Longrightarrow> f a x = f a y"
  shows "foldl f a xs = foldl f a ys"
  using assms(1) by (induction arbitrary: a rule: list_all2_induct) (simp_all add: assms(2))

lemma sanitize_alike: "alike rt v v' \<Longrightarrow> sanitize rt n v = sanitize rt n v'"
proof (induction n arbitrary: v v')
  case (Suc n)
  from Suc.prems show ?case
  proof cases
    case (lists xs ys)
    have "list_all2 (alike rt) (take 100 xs) (take 100 ys)"
      using lists(3) by (rule list_all2_takeI)
    then have "map (sanitize rt n) (take 100 xs) = map (sanitize rt n) (take 100 ys)"
      by (induction rule: list_all2_induct) (simp_all add: Suc.IH)
    then show ?thesis
      using lists(1,2) by simp
  next
    case (objects ms ms')
    have "list_all2 (\<lambda>m m'. fst m = fst m' \<and> (sensitive_key rt (fst m) \<or> alike rt (snd m) (snd m')))
        (take 100 ms) (take 100 ms')"
      using objects(3) by (rule list_all2_takeI)
    then show ?thesis
      unfolding objects(1,2) sanitize.simps(2) json.case json.inject
      by (rule foldl_alike) (auto simp: Suc.IH split: prod.splits)
  qed simp
qed simp

section \<open>Size\<close>

lemma utf8_size_take: "utf8_size (utf8_take n s) \<le> n"
  by (induction n s rule: utf8_take.induct) (auto simp: utf8_size_def)

lemma utf8_size_append: "utf8_size (s @ t) = utf8_size s + utf8_size t"
  by (simp add: utf8_size_def)

text \<open>Claim C40. The archived text of a payload discloses no secret, since it does not depend on the values of sensitive
  members at any depth, and it never takes more than its bound, at most a mebibyte and at least a kibibyte.\<close>

theorem archived_payload_safe:
  assumes "alike rt payload payload'"
  shows "sanitize_raw_payload rt payload maximum_bytes = sanitize_raw_payload rt payload' maximum_bytes
    \<and> (\<forall>s. sanitize_raw_payload rt payload maximum_bytes = Inr s
         \<longrightarrow> int (utf8_size s) \<le> max 1024 (min maximum_bytes 1048576))"
proof -
  have "sanitize rt 8 payload = sanitize rt 8 payload'"
    using assms by (rule sanitize_alike)
  then have 1: "sanitize_raw_payload rt payload maximum_bytes = sanitize_raw_payload rt payload' maximum_bytes"
    by (simp add: sanitize_raw_payload_def)
  define limit where "limit = nat (max 1024 (min maximum_bytes 1048576))"
  have l: "1024 \<le> limit" "int limit = max 1024 (min maximum_bytes 1048576)"
    by (simp_all add: limit_def)
  define suffix where "suffix = uni [CHR 0x22, CHR ''['']
            @ uni ''truncated'' @ uni [CHR '']'', CHR 0x22, CHR ''}'']"
  have x: "utf8_size suffix = 14" "length suffix = 14"
    by (simp_all add: suffix_def utf8_size_def uni_def utf8_len_def)
  have "utf8_size s \<le> limit" if "sanitize_raw_payload rt payload maximum_bytes = Inr s" for s
  proof (cases "utf8_size (tr_dumps rt (sanitize rt 8 payload)) \<le> limit")
    case True
    then show ?thesis
      using that by (auto simp: sanitize_raw_payload_def Let_def limit_def split: if_splits)
  next
    case False
    then have "s = utf8_take (max 1 (limit - length suffix)) (tr_dumps rt (sanitize rt 8 payload)) @ suffix"
      using that unfolding sanitize_raw_payload_def Let_def limit_def[symmetric] suffix_def[symmetric]
      by (simp split: if_splits)
    then show ?thesis
      using utf8_size_take[of "max 1 (limit - 14)" "tr_dumps rt (sanitize rt 8 payload)"] l(1)
      by (simp add: utf8_size_append x)
  qed
  then show ?thesis
    using 1 l(2) by (metis of_nat_le_iff)
qed

text \<open>A payload whose kept part holds a float that is not finite has no archived text: writing it raises.\<close>

theorem unarchivable_payload:
  assumes "\<not> finite_json (sanitize rt 8 payload)"
  shows "sanitize_raw_payload rt payload maximum_bytes = Inl (ValueError ''Out of range float values are not JSON compliant'')"
  using assms by (simp add: sanitize_raw_payload_def)

section \<open>Examples\<close>

definition ascii_rt :: text_rt where
  "ascii_rt = \<lparr>tr_upper = (\<lambda>c. [c]), tr_lower = (\<lambda>c. [c]), tr_decimal = (\<lambda>_. None), tr_isdigit = (\<lambda>_. False),
     tr_repr = (\<lambda>_. []), tr_dumps = (\<lambda>_. uni ''{}''), tr_iso = (\<lambda>_. Inl (ValueError ''Invalid isoformat string''))\<rparr>"

definition with_token :: "string \<Rightarrow> json" where
  "with_token secret = JObj [(uni ''price'', JInt 7), (uni ''Access-Token'', JStr (uni secret))]"

lemma with_token_alike: "alike ascii_rt (with_token ''abc'') (with_token ''x'')"
proof -
  have "sensitive_key ascii_rt (uni ''Access-Token'')"
    by (simp add: sensitive_key_def u_lower_def u_ends_with_def uni_def redacted_keys_def)
  then show ?thesis
    unfolding with_token_def by (intro alike.objects) (simp add: alike.same)
qed

theorem archived_payload_safe_witness:
  "sanitize_raw_payload ascii_rt (with_token ''abc'') 2048 = sanitize_raw_payload ascii_rt (with_token ''x'') 2048"
  using archived_payload_safe [OF with_token_alike] by blast

theorem unarchivable_payload_witness:
  "sanitize_raw_payload ascii_rt (JObj [(uni ''volume'', JFloat FNaN)]) 2048
     = Inl (ValueError ''Out of range float values are not JSON compliant'')"
proof (rule unarchivable_payload)
  have "\<not> sensitive_key ascii_rt (uni ''volume'')"
    by (simp add: sensitive_key_def u_lower_def u_ends_with_def uni_def redacted_keys_def)
  then show "\<not> finite_json (sanitize ascii_rt 8 (JObj [(uni ''volume'', JFloat FNaN)]))"
    by (simp add: numeral_eq_Suc)
qed

end
