(* ===== verification/Parsers.thy ===== *)
theory Parsers
  imports Json Registry Anomaly
begin

text \<open>
  Model of the parsers of \<open>apps/api/app/pricing/parsers\<close>: one function for each parser class, a datatype with one
  constructor for each class and its fields, and \<open>build_parser\<close>, the table of the parsers by their id. The texts of
  \<open>settings\<close> are a map, as in \<open>Registry\<close>.
\<close>

datatype parser =
    CoinCap string string
  | AlanchandGold18
  | Tetherland string
  | NobitexStats string bool
  | NobitexOrderBook string
  | GoldApi string
  | GoldApiFree string
  | XausSilver
  | MetalsDev string
  | CoinbaseTicker string
  | CoinGeckoSimplePrice string
  | PersianToolboxMarket string
  | WallexMarket string
  | ServixAssets string
  | TalaRates string
  | TicaroPrices string
  | ArzbinMarket string string string
  | NavasanLatest string
  | NerkhIoLite string string
  | BitpinPrices string
  | WallgoldMarket string

section \<open>Shared steps\<close>

definition refuse :: "bool \<Rightarrow> string \<Rightarrow> parse_error + unit" where
  "refuse c code = require (\<not> c) (ParserErr code)"

definition in_context :: "rat \<Rightarrow> instant \<Rightarrow> parser_context \<Rightarrow> dict \<Rightarrow> parsed_value" where
  "in_context price observed_at ctx metadata = \<lparr>pv_price = price, pv_currency = i_quote_currency (pc_instrument ctx),
     pv_weight_unit = i_weight_unit (pc_instrument ctx), pv_purity = i_purity (pc_instrument ctx),
     pv_observed_at = observed_at, pv_bid = None, pv_ask = None, pv_volume = None, pv_metadata = metadata\<rparr>"

text \<open>\<open>_parsed\<close>.\<close>

definition parsed :: "text_rt \<Rightarrow> rat \<Rightarrow> parser_context \<Rightarrow> json \<Rightarrow> dict \<Rightarrow> parse_error + parsed_value" where
  "parsed rt price ctx observed_at metadata =
     ebind (optional_timestamp rt observed_at ctx) (\<lambda>t. validate_parsed_value (in_context price t ctx metadata) ctx)"

definition price_at :: "text_rt \<Rightarrow> json \<Rightarrow> string list \<Rightarrow> parse_error + rat" where
  "price_at rt v path = ebind (exact_path v path) (\<lambda>x. strict_decimal rt x False)"

text \<open>\<open>str(value).upper() != symbol\<close>, unless the value is \<open>None\<close>.\<close>

definition states_other :: "text_rt \<Rightarrow> json \<Rightarrow> string \<Rightarrow> bool" where
  "states_other rt v symbol \<longleftrightarrow> v \<noteq> JNull \<and> u_upper rt (j_str rt v) \<noteq> uni symbol"

definition toman_units :: "utext list" where
  "toman_units = map uni [''TOMAN'', ''TMN'', ''IRT''] @ [[1578, 1608, 1605, 1575, 1606]]"

definition rial_units :: "utext list" where
  "rial_units = map uni [''RIAL'', ''IRR'', ''RLS''] @ [[1585, 1740, 1575, 1604]]"

definition unit_factor :: "text_rt \<Rightarrow> json \<Rightarrow> parse_error + string \<times> rat" where
  "unit_factor rt unit =
     (let plain = u_strip (j_str rt unit);
          normalized = u_upper rt (u_strip (if j_truth unit then j_str rt unit else []))
      in if plain \<in> set toman_units \<or> normalized \<in> set toman_units then Inr (''TOMAN'', 1)
         else if plain \<in> set rial_units \<or> normalized \<in> set rial_units then Inr (''RIAL'', 1/10)
         else if normalized = uni ''USD'' then Inr (''USD'', 1)
         else if normalized = uni ''USDT'' then Inr (''USDT'', 1)
         else Inl (ParserErr ''unknown_unit''))"

definition has_key_text :: "text_rt \<Rightarrow> string \<Rightarrow> string \<Rightarrow> (utext \<times> json) list \<Rightarrow> bool" where
  "has_key_text rt field expected ms \<longleftrightarrow>
     u_upper rt (case map_of ms (uni field) of None \<Rightarrow> [] | Some v \<Rightarrow> j_str rt v) = u_upper rt (uni expected)"

primrec node_in_values :: "text_rt \<Rightarrow> string \<Rightarrow> string \<Rightarrow> json list \<Rightarrow> (utext \<times> json) list option" where
  "node_in_values rt field expected [] = None"
| "node_in_values rt field expected (v # vs) =
     (case v of
        JObj ms \<Rightarrow> if has_key_text rt field expected ms then Some ms else node_in_values rt field expected vs
      | _ \<Rightarrow> node_in_values rt field expected vs)"

primrec node_in_rows :: "text_rt \<Rightarrow> string \<Rightarrow> string \<Rightarrow> json list \<Rightarrow> parse_error + (utext \<times> json) list" where
  "node_in_rows rt field expected [] = Inl (ParserErr ''unsupported_symbol'')"
| "node_in_rows rt field expected (v # vs) =
     ebind (require_object v) (\<lambda>ms.
     if has_key_text rt field expected ms then Inr ms else node_in_rows rt field expected vs)"

definition node_by_key :: "text_rt \<Rightarrow> json \<Rightarrow> string \<Rightarrow> string \<Rightarrow> parse_error + (utext \<times> json) list" where
  "node_by_key rt rows field expected =
     (case (case rows of
              JObj ms \<Rightarrow>
                (case j_get ms expected of
                   JObj node \<Rightarrow> Some node
                 | _ \<Rightarrow> node_in_values rt field expected (map snd ms))
            | _ \<Rightarrow> None) of
        Some node \<Rightarrow> Inr node
      | None \<Rightarrow> ebind (require_list rows) (node_in_rows rt field expected))"

definition dec :: "rat \<Rightarrow> pyval" where "dec q = PDecStr q"

definition normalization :: "rat \<Rightarrow> pyval" where
  "normalization factor = PStr (if factor = 1/10 then ''rial_to_toman'' else ''none'')"

section \<open>Tickers\<close>

definition parse_coincap :: "text_rt \<Rightarrow> string \<Rightarrow> string \<Rightarrow> json \<Rightarrow> parser_context \<Rightarrow> parse_error + parsed_value" where
  "parse_coincap rt asset_id symbol payload ctx =
     ebind (require_object payload) (\<lambda>root.
     ebind (require_object (j_get root ''data'')) (\<lambda>data.
     let text_at = (\<lambda>k. case map_of data (uni k) of None \<Rightarrow> [] | Some v \<Rightarrow> j_str rt v) in
     ebind (refuse (u_lower rt (text_at ''id'') \<noteq> uni asset_id) ''instrument_mismatch'') (\<lambda>_.
     ebind (refuse (u_upper rt (text_at ''symbol'') \<noteq> uni symbol) ''instrument_mismatch'') (\<lambda>_.
     ebind (price_at rt (JObj data) [''priceUsd'']) (\<lambda>price.
     parsed rt price ctx (j_get root ''timestamp'') [''asset_id'' \<mapsto> PStr asset_id, ''symbol'' \<mapsto> PStr symbol])))))"

definition parse_alanchand :: "text_rt \<Rightarrow> json \<Rightarrow> parser_context \<Rightarrow> parse_error + parsed_value" where
  "parse_alanchand rt payload ctx =
     ebind (exact_path payload [''data'', ''gold_18k'']) (\<lambda>v.
     ebind (require_object v) (\<lambda>node.
     ebind (price_at rt (JObj node) [''price'']) (\<lambda>price.
     parsed rt price ctx (j_or (j_get node ''updated_at'') (j_get node ''timestamp''))
       [''contract'' \<mapsto> PStr ''gold_18k_toman_per_gram''])))"

definition parse_tetherland :: "text_rt \<Rightarrow> string \<Rightarrow> json \<Rightarrow> parser_context \<Rightarrow> parse_error + parsed_value" where
  "parse_tetherland rt symbol payload ctx =
     ebind (exact_path payload [''data'', ''currencies'', symbol]) (\<lambda>v.
     ebind (require_object v) (\<lambda>node.
     ebind (refuse (states_other rt (j_or (j_get node ''symbol'') (j_get node ''code'')) symbol) ''instrument_mismatch'') (\<lambda>_.
     ebind (price_at rt (JObj node) [''price'']) (\<lambda>price.
     parsed rt price ctx (j_or (j_get node ''updated_at'') (j_get node ''timestamp''))
       [''symbol'' \<mapsto> PStr symbol, ''contract'' \<mapsto> PStr ''toman_per_unit'']))))"

section \<open>Nobitex\<close>

definition parse_nobitex_stats ::
  "text_rt \<Rightarrow> string \<Rightarrow> bool \<Rightarrow> json \<Rightarrow> parser_context \<Rightarrow> parse_error + parsed_value" where
  "parse_nobitex_stats rt pair rial payload ctx =
     ebind (exact_path payload [''stats'', pair]) (\<lambda>v.
     ebind (require_object v) (\<lambda>node.
     ebind (price_at rt (JObj node) [''latest'']) (\<lambda>latest.
     let price = (if rial then dctx (latest / 10) else latest) in
     parsed rt price ctx (j_or (j_get node ''updated_at'') (j_get node ''timestamp''))
       [''market_pair'' \<mapsto> PStr pair, ''source_currency'' \<mapsto> PStr (if rial then ''RIAL'' else ''USDT''),
        ''normalization'' \<mapsto> PStr (if rial then ''rial_to_toman'' else ''none'')])))"

definition level_price :: "text_rt \<Rightarrow> json list \<Rightarrow> parse_error + rat" where
  "level_price rt levels =
     (case levels of
        [] \<Rightarrow> Inl (ParserErr ''empty_orderbook'')
      | JList (x # _) # _ \<Rightarrow> strict_decimal rt x False
      | JObj ms # _ \<Rightarrow>
          (case map_of ms (uni ''price'') of
             None \<Rightarrow> Inl (ParserErr ''invalid_shape'') | Some x \<Rightarrow> strict_decimal rt x False)
      | _ \<Rightarrow> Inl (ParserErr ''invalid_shape''))"

definition parse_nobitex_orderbook ::
  "text_rt \<Rightarrow> string \<Rightarrow> json \<Rightarrow> parser_context \<Rightarrow> parse_error + parsed_value" where
  "parse_nobitex_orderbook rt symbol payload ctx =
     ebind (require_object payload) (\<lambda>root.
     ebind (require_object (j_get root symbol)) (\<lambda>book.
     ebind (refuse (states_other rt (j_get book ''symbol'') symbol) ''instrument_mismatch'') (\<lambda>_.
     ebind (require_list (j_get book ''bids'')) (\<lambda>bids.
     ebind (require_list (j_get book ''asks'')) (\<lambda>asks.
     ebind (level_price rt bids) (\<lambda>rial_bid.
     ebind (level_price rt asks) (\<lambda>rial_ask.
     ebind (refuse (symbol \<notin> {''BTCIRT'', ''USDTIRT''}) ''unsupported_symbol'') (\<lambda>_.
     let bid = dctx (rial_bid / 10); ask = dctx (rial_ask / 10) in
     ebind (refuse (bid > ask) ''crossed_orderbook'') (\<lambda>_.
     ebind (optional_timestamp rt (j_or (j_get book ''lastUpdate'') (j_or (j_get book ''updated_at'') (j_get root ''lastUpdate''))) ctx) (\<lambda>t.
     validate_parsed_value ((in_context (dctx (dadd bid ask / 2)) t ctx
       [''market_symbol'' \<mapsto> PStr symbol, ''selection'' \<mapsto> PStr ''best_bid_ask_midpoint'',
        ''source_currency'' \<mapsto> PStr ''RIAL'', ''normalization'' \<mapsto> PStr ''rial_to_toman'',
        ''conversion_factor'' \<mapsto> PStr ''0.1''])
       \<lparr>pv_weight_unit := UNIT, pv_purity := None, pv_bid := Some bid, pv_ask := Some ask\<rparr>) ctx))))))))))"

section \<open>Metals\<close>

definition parse_goldapi :: "text_rt \<Rightarrow> string \<Rightarrow> json \<Rightarrow> parser_context \<Rightarrow> parse_error + parsed_value" where
  "parse_goldapi rt symbol payload ctx =
     ebind (require_object payload) (\<lambda>root.
     ebind (refuse (states_other rt (j_or (j_get root ''metal'') (j_get root ''symbol'')) symbol) ''instrument_mismatch'') (\<lambda>_.
     ebind (refuse (states_other rt (j_get root ''currency'') ''USD'') ''currency_mismatch'') (\<lambda>_.
     ebind (price_at rt (JObj root) [''price'']) (\<lambda>price.
     parsed rt price ctx (j_or (j_get root ''timestamp'') (j_get root ''updated_at'')) [''metal_symbol'' \<mapsto> PStr symbol]))))"

definition parse_goldapi_free :: "text_rt \<Rightarrow> string \<Rightarrow> json \<Rightarrow> parser_context \<Rightarrow> parse_error + parsed_value" where
  "parse_goldapi_free rt symbol payload ctx =
     ebind (require_object payload) (\<lambda>root.
     ebind (refuse (states_other rt (j_or (j_get root ''symbol'') (j_get root ''metal'')) symbol) ''instrument_mismatch'') (\<lambda>_.
     ebind (refuse (j_get root ''currency'' \<noteq> JStr (uni ''USD'')) ''currency_mismatch'') (\<lambda>_.
     let source_timestamp = j_or (j_get root ''updatedAt'') (j_get root ''timestamp'') in
     ebind (refuse (source_timestamp = JNull) ''missing_timestamp'') (\<lambda>_.
     ebind (price_at rt (JObj root) [''price'']) (\<lambda>price.
     parsed rt price ctx source_timestamp [''metal_symbol'' \<mapsto> PStr symbol])))))"

definition parse_xaus :: "text_rt \<Rightarrow> json \<Rightarrow> parser_context \<Rightarrow> parse_error + parsed_value" where
  "parse_xaus rt payload ctx =
     ebind (require_object payload) (\<lambda>root.
     ebind (require_object (j_get root ''data_state'')) (\<lambda>state.
     ebind (refuse (j_get state ''status'' \<noteq> JStr (uni ''fresh'')) ''stale_quote'') (\<lambda>_.
     ebind (price_at rt (JObj root) [''silver_usd_oz'']) (\<lambda>price.
     parsed rt price ctx (j_or (j_get state ''as_of'') (j_get root ''price_as_of''))
       [''source'' \<mapsto> of_json (j_or (j_get root ''silver_source'') (JStr (uni ''xaus'')))]))))"

definition parse_metals_dev :: "text_rt \<Rightarrow> string \<Rightarrow> json \<Rightarrow> parser_context \<Rightarrow> parse_error + parsed_value" where
  "parse_metals_dev rt metal payload ctx =
     ebind (require_object payload) (\<lambda>root.
     ebind (refuse (states_other rt (j_get root ''currency'') ''USD'') ''currency_mismatch'') (\<lambda>_.
     let unit = j_get root ''unit'' in
     ebind (refuse (unit \<noteq> JNull \<and> u_lower rt (j_str rt unit) \<notin> set (map uni [''toz'', ''troy_ounce'', ''oz''])) ''unit_mismatch'') (\<lambda>_.
     ebind (price_at rt (JObj root) [''metals'', metal]) (\<lambda>price.
     parsed rt price ctx (j_or (j_get root ''timestamp'') (j_get root ''updated_at'')) [''metal'' \<mapsto> PStr metal]))))"

section \<open>Coins\<close>

definition parse_coinbase :: "text_rt \<Rightarrow> string \<Rightarrow> json \<Rightarrow> parser_context \<Rightarrow> parse_error + parsed_value" where
  "parse_coinbase rt product_id payload ctx =
     ebind (require_object payload) (\<lambda>root.
     ebind (price_at rt (JObj root) [''price'']) (\<lambda>price.
     parsed rt price ctx (j_or (j_get root ''time'') (j_get root ''trade_time''))
       [''product_id'' \<mapsto> PStr product_id, ''source_currency'' \<mapsto> PStr ''USD'', ''original_value'' \<mapsto> dec price,
        ''conversion_factor'' \<mapsto> PStr ''1'']))"

definition parse_coingecko :: "text_rt \<Rightarrow> string \<Rightarrow> json \<Rightarrow> parser_context \<Rightarrow> parse_error + parsed_value" where
  "parse_coingecko rt asset_id payload ctx =
     ebind (exact_path payload [asset_id]) (\<lambda>v.
     ebind (require_object v) (\<lambda>node.
     ebind (price_at rt (JObj node) [''usd'']) (\<lambda>price.
     parsed rt price ctx (j_get node ''last_updated_at'')
       [''asset_id'' \<mapsto> PStr asset_id, ''source_currency'' \<mapsto> PStr ''USD'', ''original_value'' \<mapsto> dec price,
        ''conversion_factor'' \<mapsto> PStr ''1''])))"

section \<open>Local references\<close>

text \<open>\<open>root.get(a) or root.get(b) or root.get(c) or payload\<close>.\<close>

definition rows_of :: "(utext \<times> json) list \<Rightarrow> string list \<Rightarrow> json" where
  "rows_of ms keys = foldr (\<lambda>k rest. j_or (j_get ms k) rest) keys (JObj ms)"

definition blank_text :: "json \<Rightarrow> bool" where
  "blank_text v = (case v of JStr s \<Rightarrow> u_strip s = [] | _ \<Rightarrow> True)"

definition stripped :: "json \<Rightarrow> json" where
  "stripped v = (case v of JStr s \<Rightarrow> JStr (u_strip s) | _ \<Rightarrow> v)"

definition toolbox_object :: "(utext \<times> json) list \<Rightarrow> string \<Rightarrow> parse_error + (utext \<times> json) list" where
  "toolbox_object ms k = ebind (exact_path (JObj ms) [k]) require_object"

text \<open>The raw price, its factor and its currency, for the asset.\<close>

definition toolbox_price ::
  "text_rt \<Rightarrow> string \<Rightarrow> (utext \<times> json) list \<Rightarrow> (utext \<times> json) list \<Rightarrow> parse_error + rat \<times> rat \<times> string" where
  "toolbox_price rt asset units data =
     (let unit = (\<lambda>k s. j_get units k = JStr (uni s)) in
      if asset = ''BTC_USD'' then
        ebind (refuse (\<not> unit ''cryptoPrice'' ''USD'') ''unknown_unit'') (\<lambda>_.
        ebind (toolbox_object data ''crypto'') (\<lambda>crypto.
        ebind (toolbox_object crypto ''BTC'') (\<lambda>node.
        ebind (refuse (j_get node ''symbol'' \<noteq> JStr (uni ''BTC'')) ''unsupported_symbol'') (\<lambda>_.
        ebind (price_at rt (JObj node) [''priceUSD'']) (\<lambda>raw. Inr (raw, 1, ''USD''))))))
      else if asset = ''GOLD_24K_TOMAN_GRAM'' then
        ebind (refuse (\<not> unit ''goldPricePerGram'' ''IRR'') ''unknown_unit'') (\<lambda>_. Inl (ParserErr ''ambiguous_purity''))
      else if asset = ''USD_TOMAN'' then
        ebind (refuse (\<not> unit ''currencyBase'' ''USD'' \<or> \<not> unit ''iranCurrency'' ''IRR'') ''unknown_unit'') (\<lambda>_.
        ebind (toolbox_object data ''currencies'') (\<lambda>currencies.
        ebind (toolbox_object currencies ''USD'') (\<lambda>usd.
        ebind (toolbox_object currencies ''IRR'') (\<lambda>irr.
        ebind (refuse (j_get usd ''code'' \<noteq> JStr (uni ''USD'') \<or> j_get irr ''code'' \<noteq> JStr (uni ''IRR'')) ''unsupported_symbol'') (\<lambda>_.
        ebind (price_at rt (JObj usd) [''rate'']) (\<lambda>base.
        ebind (refuse (base \<noteq> 1) ''invalid_base_rate'') (\<lambda>_.
        ebind (price_at rt (JObj irr) [''rate'']) (\<lambda>raw. Inr (raw, 1/10, ''RIAL'')))))))))
      else Inl (ParserErr ''unsupported_symbol''))"

definition parse_persian_toolbox :: "text_rt \<Rightarrow> string \<Rightarrow> json \<Rightarrow> parser_context \<Rightarrow> parse_error + parsed_value" where
  "parse_persian_toolbox rt asset payload ctx =
     ebind (require_object payload) (\<lambda>root.
     ebind (refuse (j_get root ''ok'' \<noteq> JBool True) ''provider_error'') (\<lambda>_.
     ebind (toolbox_object root ''data'') (\<lambda>data.
     let v = j_get data ''freshness''; freshness = u_lower rt (u_strip (if j_truth v then j_str rt v else [])) in
     ebind (refuse (freshness \<notin> set (map uni [''live'', ''cached''])) ''stale_payload'') (\<lambda>_.
     ebind (toolbox_object data ''units'') (\<lambda>units.
     ebind (ebind (exact_path (JObj data) [''sources'']) require_list) (\<lambda>sources.
     ebind (refuse (sources = [] \<or> list_ex blank_text sources) ''invalid_source'') (\<lambda>_.
     ebind (toolbox_price rt asset units data) (\<lambda>(raw, factor, source_currency).
     ebind (exact_path (JObj data) [''timestamp'']) (\<lambda>timestamp.
     parsed rt (dmul raw factor) ctx timestamp
       [''asset'' \<mapsto> PStr asset, ''freshness'' \<mapsto> of_json (JStr freshness),
        ''upstream_sources'' \<mapsto> of_json (JList (map stripped sources)), ''source_currency'' \<mapsto> PStr source_currency,
        ''original_value'' \<mapsto> dec raw, ''conversion_factor'' \<mapsto> dec factor,
        ''normalization'' \<mapsto> normalization factor])))))))))"

text \<open>\<open>node.get("stats", {}).get(..)\<close> needs an object.\<close>

definition wallex_price :: "text_rt \<Rightarrow> (utext \<times> json) list \<Rightarrow> parse_error + json" where
  "wallex_price rt node =
     (let direct = j_or (j_get node ''lastPrice'') (j_get node ''last_price'') in
      if j_truth direct then Inr direct
      else case map_of node (uni ''stats'') of
        None \<Rightarrow> Inr JNull
      | Some (JObj stats) \<Rightarrow> Inr (j_get stats ''lastPrice'')
      | Some _ \<Rightarrow> Inl (ParseOther (AttributeErr ''get'')))"

definition parse_wallex :: "text_rt \<Rightarrow> string \<Rightarrow> json \<Rightarrow> parser_context \<Rightarrow> parse_error + parsed_value" where
  "parse_wallex rt symbol payload ctx =
     ebind (require_object payload) (\<lambda>root.
     let rows = (case j_get root ''result'' of JObj r \<Rightarrow> j_get r ''symbols'' | _ \<Rightarrow> j_get root ''symbols'') in
     ebind (node_by_key rt (j_or rows (j_or (j_get root ''data'') (JObj root))) ''symbol'' symbol) (\<lambda>node.
     ebind (wallex_price rt node) (\<lambda>last.
     ebind (strict_decimal rt last False) (\<lambda>price.
     parsed rt price ctx (j_or (j_get node ''updatedAt'') (j_or (j_get node ''updated_at'') (j_get node ''timestamp'')))
       [''market_symbol'' \<mapsto> PStr symbol, ''source_currency'' \<mapsto> PStr ''TOMAN'', ''original_value'' \<mapsto> dec price,
        ''conversion_factor'' \<mapsto> PStr ''1'']))))"

definition text_ends_with :: "string \<Rightarrow> string \<Rightarrow> bool" where
  "text_ends_with suffix s \<longleftrightarrow> length suffix \<le> length s \<and> drop (length s - length suffix) s = suffix"

definition parse_servix :: "text_rt \<Rightarrow> string \<Rightarrow> json \<Rightarrow> parser_context \<Rightarrow> parse_error + parsed_value" where
  "parse_servix rt code payload ctx =
     ebind (require_object payload) (\<lambda>root.
     ebind (node_by_key rt (rows_of root [''data'', ''assets'', ''result'']) ''code'' code) (\<lambda>node.
     ebind (price_at rt (JObj node) [''value'']) (\<lambda>raw.
     let source_unit = (if text_ends_with ''_RLS'' (upper code) then ''RIAL'' else currency_value (i_quote_currency (pc_instrument ctx)));
         factor = (if source_unit = ''RIAL'' then 1/10 else 1) in
     parsed rt (dmul raw factor) ctx (j_or (j_get node ''businessTime'') (j_get node ''updated_at''))
       [''source_code'' \<mapsto> PStr code, ''source_currency'' \<mapsto> PStr source_unit, ''original_value'' \<mapsto> dec raw,
        ''conversion_factor'' \<mapsto> dec factor, ''normalization'' \<mapsto> normalization factor])))"

definition parse_tala :: "text_rt \<Rightarrow> string \<Rightarrow> json \<Rightarrow> parser_context \<Rightarrow> parse_error + parsed_value" where
  "parse_tala rt key payload ctx =
     ebind (require_object payload) (\<lambda>root.
     ebind (node_by_key rt (rows_of root [''data'', ''rates'', ''result'']) ''key'' key) (\<lambda>node.
     let status = (case map_of node (uni ''status'') of None \<Rightarrow> uni ''active'' | Some v \<Rightarrow> j_str rt v) in
     ebind (refuse (u_lower rt status \<notin> set (map uni [''active'', ''ok'', ''live''])) ''provider_disabled'') (\<lambda>_.
     ebind (unit_factor rt (j_get node ''unit'')) (\<lambda>(source_unit, factor).
     ebind (price_at rt (JObj node) [''value'']) (\<lambda>raw.
     parsed rt (dmul raw factor) ctx (j_get node ''updated_at'')
       [''source_key'' \<mapsto> PStr key, ''source_currency'' \<mapsto> PStr source_unit, ''original_value'' \<mapsto> dec raw,
        ''conversion_factor'' \<mapsto> dec factor, ''normalization'' \<mapsto> normalization factor])))))"

definition source_venues :: "utext list" where
  "source_venues = map uni [''nobitex'', ''wallex'', ''bitpin'', ''ramzinex'']"

definition parse_ticaro :: "text_rt \<Rightarrow> string \<Rightarrow> json \<Rightarrow> parser_context \<Rightarrow> parse_error + parsed_value" where
  "parse_ticaro rt pair payload ctx =
     ebind (require_object payload) (\<lambda>root.
     ebind (node_by_key rt (rows_of root [''data'', ''prices'', ''result'']) ''pair'' pair) (\<lambda>node.
     ebind (unit_factor rt (j_get node ''quote_currency'')) (\<lambda>(source_unit, factor).
     ebind (price_at rt (JObj node) [''price'']) (\<lambda>raw.
     let v = j_get node ''source''; source = u_lower rt (u_strip (if j_truth v then j_str rt v else [])) in
     parsed rt (dmul raw factor) ctx (j_get node ''fetched_at'')
       [''pair'' \<mapsto> PStr pair, ''source_currency'' \<mapsto> PStr source_unit, ''original_value'' \<mapsto> dec raw,
        ''conversion_factor'' \<mapsto> dec factor,
        ''upstream_source'' \<mapsto> (if source = [] then PNone else of_json (JStr source)),
        ''independence_venue'' \<mapsto> (if source \<in> set source_venues then of_json (JStr source) else PStr ''opaque_aggregator'')]))))"

definition opt_decimal :: "text_rt \<Rightarrow> json \<Rightarrow> parse_error + rat option" where
  "opt_decimal rt v = (if v = JNull then Inr None else ebind (strict_decimal rt v False) (\<lambda>q. Inr (Some q)))"

definition parse_arzbin ::
  "text_rt \<Rightarrow> string \<Rightarrow> string \<Rightarrow> string \<Rightarrow> json \<Rightarrow> parser_context \<Rightarrow> parse_error + parsed_value" where
  "parse_arzbin rt code semantic unit payload ctx =
     ebind (refuse (semantic \<notin> {''buy'', ''sell'', ''midpoint''}) ''invalid_price_semantic'') (\<lambda>_.
     ebind (require_object payload) (\<lambda>root.
     ebind (node_by_key rt (rows_of root [''data'', ''rates'', ''result'']) ''code'' code) (\<lambda>node.
     ebind (unit_factor rt (JStr (uni unit))) (\<lambda>(source_unit, factor).
     ebind (opt_decimal rt (j_get node ''buy'')) (\<lambda>buy.
     ebind (opt_decimal rt (j_get node ''sell'')) (\<lambda>sell.
     ebind (if semantic = ''buy'' \<and> buy \<noteq> None then Inr (the buy)
            else if semantic = ''sell'' \<and> sell \<noteq> None then Inr (the sell)
            else if semantic = ''midpoint'' \<and> buy \<noteq> None \<and> sell \<noteq> None then Inr (dctx (dadd (the buy) (the sell) / 2))
            else Inl (ParserErr ''missing_price'')) (\<lambda>raw.
     parsed rt (dmul raw factor) ctx (j_or (j_get node ''updatedAt'') (j_get node ''updated_at''))
       [''source_code'' \<mapsto> PStr code, ''selected_price_semantic'' \<mapsto> PStr semantic,
        ''source_currency'' \<mapsto> PStr source_unit, ''original_value'' \<mapsto> dec raw,
        ''conversion_factor'' \<mapsto> dec factor])))))))"

definition parse_navasan :: "text_rt \<Rightarrow> string \<Rightarrow> json \<Rightarrow> parser_context \<Rightarrow> parse_error + parsed_value" where
  "parse_navasan rt item payload ctx =
     ebind (require_object payload) (\<lambda>root.
     ebind (require_object (j_get root item)) (\<lambda>node.
     ebind (price_at rt (JObj node) [''value'']) (\<lambda>raw.
     parsed rt (dmul raw (1/10)) ctx (j_get node ''timestamp'')
       [''item'' \<mapsto> PStr item, ''source_currency'' \<mapsto> PStr ''RIAL'', ''original_value'' \<mapsto> dec raw,
        ''conversion_factor'' \<mapsto> PStr ''0.1'', ''normalization'' \<mapsto> PStr ''rial_to_toman''])))"

definition parse_nerkh_io :: "text_rt \<Rightarrow> string \<Rightarrow> string \<Rightarrow> json \<Rightarrow> parser_context \<Rightarrow> parse_error + parsed_value" where
  "parse_nerkh_io rt symbol unit payload ctx =
     ebind (refuse (unit = []) ''missing_unit_configuration'') (\<lambda>_.
     ebind (require_object payload) (\<lambda>root.
     ebind (node_by_key rt (rows_of root [''data'', ''prices'', ''result'']) ''symbol'' symbol) (\<lambda>node.
     ebind (unit_factor rt (JStr (uni unit))) (\<lambda>(source_unit, factor).
     ebind (strict_decimal rt (j_or (j_get node ''price'') (j_get node ''value'')) False) (\<lambda>raw.
     parsed rt (dmul raw factor) ctx (j_or (j_get node ''timestamp'') (j_get root ''timestamp''))
       [''symbol'' \<mapsto> PStr symbol, ''source_currency'' \<mapsto> PStr source_unit, ''original_value'' \<mapsto> dec raw,
        ''conversion_factor'' \<mapsto> dec factor, ''normalization'' \<mapsto> normalization factor])))))"

section \<open>Exchanges with one market for each symbol\<close>

text \<open>The rows whose member is the symbol; every row must be an object.\<close>

definition rows_with :: "string \<Rightarrow> string \<Rightarrow> json list \<Rightarrow> parse_error + (utext \<times> json) list list" where
  "rows_with field symbol rows =
     ebind (emap require_object rows) (\<lambda>objects. Inr (filter (\<lambda>ms. j_get ms field = JStr (uni symbol)) objects))"

definition one_market :: "(utext \<times> json) list list \<Rightarrow> parse_error + (utext \<times> json) list" where
  "one_market matches = (case matches of [m] \<Rightarrow> Inr m | _ \<Rightarrow> Inl (ParserErr ''unsupported_symbol''))"

definition parse_bitpin :: "text_rt \<Rightarrow> string \<Rightarrow> json \<Rightarrow> parser_context \<Rightarrow> parse_error + parsed_value" where
  "parse_bitpin rt symbol payload ctx =
     (let instruments = [''BTC_IRT'' \<mapsto> ''BTC_TOMAN'', ''USDT_IRT'' \<mapsto> ''USDT_TOMAN''] in
     ebind (refuse (instruments symbol \<noteq> Some (i_instrument_id (pc_instrument ctx))) ''unsupported_symbol'') (\<lambda>_.
     ebind (require_list payload) (\<lambda>rows.
     ebind (rows_with ''code'' symbol rows) (\<lambda>matches.
     ebind (one_market matches) (\<lambda>market.
     ebind (ebind (exact_path (JObj market) [''order_book_info'']) require_object) (\<lambda>book.
     ebind (exact_path (JObj book) [''time'']) (\<lambda>timestamp.
     ebind (refuse (\<not> j_truth timestamp) ''missing_timestamp'') (\<lambda>_.
     ebind (price_at rt (JObj book) [''price'']) (\<lambda>price.
     parsed rt price ctx timestamp
       [''symbol'' \<mapsto> PStr symbol, ''source_currency'' \<mapsto> PStr ''TOMAN'', ''original_value'' \<mapsto> dec price,
        ''conversion_factor'' \<mapsto> PStr ''1'', ''selected_price_field'' \<mapsto> PStr ''order_book_info.price''])))))))))"

definition parse_wallgold :: "text_rt \<Rightarrow> string \<Rightarrow> json \<Rightarrow> parser_context \<Rightarrow> parse_error + parsed_value" where
  "parse_wallgold rt symbol payload ctx =
     (let instruments = [''GLD_18C_750TMN'' \<mapsto> ''GOLD_18K_TOMAN_GRAM'', ''SLV_925TMN'' \<mapsto> ''SILVER_925_TOMAN_GRAM''] in
     ebind (refuse (instruments symbol \<noteq> Some (i_instrument_id (pc_instrument ctx))) ''unsupported_symbol'') (\<lambda>_.
     ebind (require_object payload) (\<lambda>root.
     ebind (refuse (j_get root ''success'' \<noteq> JBool True) ''provider_error'') (\<lambda>_.
     ebind (ebind (exact_path (JObj root) [''result'']) require_list) (\<lambda>rows.
     ebind (rows_with ''symbol'' symbol rows) (\<lambda>matches.
     ebind (one_market matches) (\<lambda>market.
     ebind (refuse (j_get market ''quoteAsset'' \<noteq> JStr (uni ''TMN'')
        \<or> j_get market ''baseAsset'' \<noteq> JStr (uni (take (length symbol - 3) symbol))) ''unknown_unit'') (\<lambda>_.
     ebind (refuse (j_get market ''IsEnableBuySide'' \<noteq> JBool True \<or> j_get market ''IsEnableSellSide'' \<noteq> JBool True
        \<or> j_get market ''buyStatus'' \<noteq> JStr (uni ''enable'') \<or> j_get market ''sellStatus'' \<noteq> JStr (uni ''enable'')) ''market_closed'') (\<lambda>_.
     ebind (ebind (exact_path (JObj market) [''marketCap'']) require_object) (\<lambda>stats.
     ebind (refuse (j_get stats ''symbol'' \<noteq> JStr (uni symbol)) ''unsupported_symbol'') (\<lambda>_.
     ebind (price_at rt (JObj stats) [''lastPrice'']) (\<lambda>price.
     parsed rt price ctx JNull
       [''symbol'' \<mapsto> PStr symbol, ''source_currency'' \<mapsto> PStr ''TOMAN'', ''source_weight_unit'' \<mapsto> PStr ''gram'',
        ''original_value'' \<mapsto> dec price, ''conversion_factor'' \<mapsto> PStr ''1'',
        ''timestamp_basis'' \<mapsto> PStr ''received_at'', ''provider_timestamp_available'' \<mapsto> PBool False,
        ''selected_price_field'' \<mapsto> PStr ''marketCap.lastPrice'']))))))))))))"

section \<open>The table of parsers\<close>

definition parser_setting :: "app_settings \<Rightarrow> string \<Rightarrow> string \<Rightarrow> string" where
  "parser_setting st name dflt = (case st (lower name) of None \<Rightarrow> dflt | Some v \<Rightarrow> v)"

definition build_parser :: "app_settings \<Rightarrow> string \<rightharpoonup> parser" where
  "build_parser st = map_of [
     (''wallgold_gold18_v1'', WallgoldMarket ''GLD_18C_750TMN''),
     (''wallgold_silver925_v1'', WallgoldMarket ''SLV_925TMN''),
     (''bitpin_btc_toman_v1'', BitpinPrices ''BTC_IRT''),
     (''bitpin_usdt_toman_v1'', BitpinPrices ''USDT_IRT''),
     (''nobitex_stats_usdt_rls_v1'', NobitexStats ''usdt-rls'' True),
     (''nobitex_stats_btc_rls_v1'', NobitexStats ''btc-rls'' True),
     (''nobitex_orderbook_usdtirt_v1'', NobitexOrderBook ''USDTIRT''),
     (''nobitex_orderbook_btcirt_v1'', NobitexOrderBook ''BTCIRT''),
     (''goldapi_xau_v1'', GoldApi ''XAU''),
     (''goldapi_xag_v1'', GoldApi ''XAG''),
     (''gold_api_free_xau_v1'', GoldApiFree ''XAU''),
     (''gold_api_free_xag_v1'', GoldApiFree ''XAG''),
     (''xaus_xag_v1'', XausSilver),
     (''metals_dev_gold_v1'', MetalsDev ''gold''),
     (''metals_dev_silver_v1'', MetalsDev ''silver''),
     (''coinbase_btc_usd_v1'', CoinbaseTicker ''BTC-USD''),
     (''coinbase_usdt_usd_v1'', CoinbaseTicker ''USDT-USD''),
     (''coingecko_bitcoin_usd_v1'', CoinGeckoSimplePrice ''bitcoin''),
     (''coingecko_tether_usd_v1'', CoinGeckoSimplePrice ''tether''),
     (''persian_toolbox_btc_usd_v1'', PersianToolboxMarket ''BTC_USD''),
     (''persian_toolbox_gold24_toman_v1'', PersianToolboxMarket ''GOLD_24K_TOMAN_GRAM''),
     (''persian_toolbox_usd_toman_v1'', PersianToolboxMarket ''USD_TOMAN''),
     (''wallex_usdt_toman_v1'', WallexMarket ''USDTTMN''),
     (''wallex_btc_toman_v1'', WallexMarket ''BTCTMN''),
     (''servix_usd_rls_v1'', ServixAssets ''USD_RLS''),
     (''servix_gold18_rls_v1'', ServixAssets ''GOLD_18_RLS''),
     (''servix_btc_usd_v1'', ServixAssets ''BTC_USD''),
     (''servix_usdt_usd_v1'', ServixAssets ''USDT_USD''),
     (''tala_xau_usd_v1'', TalaRates (parser_setting st ''TALA_XAU_USD_KEY'' ''ons'')),
     (''tala_xag_usd_v1'', TalaRates (parser_setting st ''TALA_XAG_USD_KEY'' ''silver'')),
     (''tala_usdt_toman_v1'', TalaRates (parser_setting st ''TALA_USDT_TOMAN_KEY'' ''usdt_irt'')),
     (''tala_gold18_toman_v1'', TalaRates (parser_setting st ''TALA_GOLD18_TOMAN_KEY'' ''geram18k'')),
     (''tala_gold24_toman_v1'', TalaRates (parser_setting st ''TALA_GOLD24_TOMAN_KEY'' ''geram24k'')),
     (''tala_silver999_toman_v1'', TalaRates (parser_setting st ''TALA_SILVER999_TOMAN_KEY'' [])),
     (''ticaro_usdt_toman_v1'', TicaroPrices (parser_setting st ''TICARO_USDT_TOMAN_PAIR'' ''USDT/TMN'')),
     (''ticaro_btc_toman_v1'', TicaroPrices (parser_setting st ''TICARO_BTC_TOMAN_PAIR'' ''BTC/TMN'')),
     (''ticaro_gold18_toman_v1'', TicaroPrices (parser_setting st ''TICARO_GOLD18_TOMAN_PAIR'' ''GOLD18/TMN'')),
     (''arzbin_usd_v1'', ArzbinMarket ''USD'' (parser_setting st ''ARZBIN_PRICE_SEMANTIC'' ''sell'') (parser_setting st ''ARZBIN_LOCAL_UNIT'' ''TOMAN'')),
     (''navasan_usd_v1'', NavasanLatest (parser_setting st ''NAVASAN_USD_ITEM'' ''usd_sell'')),
     (''navasan_usdt_v1'', NavasanLatest (parser_setting st ''NAVASAN_USDT_ITEM'' ''usdt'')),
     (''navasan_btc_v1'', NavasanLatest (parser_setting st ''NAVASAN_BTC_ITEM'' ''btc'')),
     (''navasan_gold18_v1'', NavasanLatest (parser_setting st ''NAVASAN_GOLD18_ITEM'' ''18ayar'')),
     (''navasan_xau_v1'', NavasanLatest (parser_setting st ''NAVASAN_XAU_ITEM'' ''usd_xau'')),
     (''nerkh_io_usd_v1'', NerkhIoLite (parser_setting st ''NERKH_IO_USD_SYMBOL'' ''USD'') (parser_setting st ''NERKH_IO_CURRENCY_UNIT'' [])),
     (''nerkh_io_usdt_v1'', NerkhIoLite (parser_setting st ''NERKH_IO_USDT_SYMBOL'' ''USDT'') (parser_setting st ''NERKH_IO_CRYPTO_UNIT'' [])),
     (''nerkh_io_btc_v1'', NerkhIoLite (parser_setting st ''NERKH_IO_BTC_SYMBOL'' ''BTC'') (parser_setting st ''NERKH_IO_CRYPTO_UNIT'' [])),
     (''nerkh_io_gold18_v1'', NerkhIoLite (parser_setting st ''NERKH_IO_GOLD18_SYMBOL'' ''GOLD18K'') (parser_setting st ''NERKH_IO_GOLD_UNIT'' [])),
     (''nerkh_io_gold24_v1'', NerkhIoLite (parser_setting st ''NERKH_IO_GOLD24_SYMBOL'' ''GOLD24K'') (parser_setting st ''NERKH_IO_GOLD_UNIT'' [])),
     (''nerkh_io_xau_v1'', NerkhIoLite (parser_setting st ''NERKH_IO_XAU_SYMBOL'' ''OUNCE'') (parser_setting st ''NERKH_IO_GOLD_UNIT'' [])),
     (''nerkh_io_xag_v1'', NerkhIoLite (parser_setting st ''NERKH_IO_XAG_SYMBOL'' ''OUNCE_SILVER'') (parser_setting st ''NERKH_IO_GOLD_UNIT'' [])),
     (''coincap_tether_v1'', CoinCap ''tether'' ''USDT''),
     (''coincap_bitcoin_v1'', CoinCap ''bitcoin'' ''BTC''),
     (''alanchand_gold18_v1'', AlanchandGold18),
     (''tetherland_usdt_v1'', Tetherland ''USDT''),
     (''tetherland_btc_v1'', Tetherland ''BTC'')]"

fun parse_with :: "text_rt \<Rightarrow> parser \<Rightarrow> json \<Rightarrow> parser_context \<Rightarrow> parse_error + parsed_value" where
  "parse_with rt (CoinCap asset_id symbol) = parse_coincap rt asset_id symbol"
| "parse_with rt AlanchandGold18 = parse_alanchand rt"
| "parse_with rt (Tetherland symbol) = parse_tetherland rt symbol"
| "parse_with rt (NobitexStats pair rial) = parse_nobitex_stats rt pair rial"
| "parse_with rt (NobitexOrderBook symbol) = parse_nobitex_orderbook rt symbol"
| "parse_with rt (GoldApi symbol) = parse_goldapi rt symbol"
| "parse_with rt (GoldApiFree symbol) = parse_goldapi_free rt symbol"
| "parse_with rt XausSilver = parse_xaus rt"
| "parse_with rt (MetalsDev metal) = parse_metals_dev rt metal"
| "parse_with rt (CoinbaseTicker product) = parse_coinbase rt product"
| "parse_with rt (CoinGeckoSimplePrice asset_id) = parse_coingecko rt asset_id"
| "parse_with rt (PersianToolboxMarket asset) = parse_persian_toolbox rt asset"
| "parse_with rt (WallexMarket symbol) = parse_wallex rt symbol"
| "parse_with rt (ServixAssets code) = parse_servix rt code"
| "parse_with rt (TalaRates key) = parse_tala rt key"
| "parse_with rt (TicaroPrices pair) = parse_ticaro rt pair"
| "parse_with rt (ArzbinMarket code semantic unit) = parse_arzbin rt code semantic unit"
| "parse_with rt (NavasanLatest item) = parse_navasan rt item"
| "parse_with rt (NerkhIoLite symbol unit) = parse_nerkh_io rt symbol unit"
| "parse_with rt (BitpinPrices symbol) = parse_bitpin rt symbol"
| "parse_with rt (WallgoldMarket symbol) = parse_wallgold rt symbol"

text \<open>What \<open>providers.py\<close> does with the id of a parser and a payload.\<close>

definition parse_payload ::
  "text_rt \<Rightarrow> app_settings \<Rightarrow> string \<Rightarrow> json \<Rightarrow> instrument_definition \<Rightarrow> instant \<Rightarrow> int \<Rightarrow> parse_error + parsed_value" where
  "parse_payload rt st parser_id payload i received_at maximum_age =
     (case build_parser st parser_id of
        None \<Rightarrow> Inl (ParserErr ''unknown_parser'')
      | Some p \<Rightarrow> parse_with rt p payload \<lparr>pc_instrument = i, pc_received_at = received_at, pc_maximum_age = maximum_age,
          pc_maximum_skew = default_future_clock_skew_seconds\<rparr>)"

section \<open>What a parser gives\<close>

text \<open>\<open>gives P m\<close>: a value of the computation \<open>m\<close>, if there is one, satisfies \<open>P\<close>.\<close>

definition gives :: "('a \<Rightarrow> bool) \<Rightarrow> parse_error + 'a \<Rightarrow> bool" where
  "gives P m \<longleftrightarrow> (\<forall>v. m = Inr v \<longrightarrow> P v)"

named_theorems gives_intros \<open>rules for the steps of a parser\<close>

lemma gives_Inl [simp, gives_intros]: "gives P (Inl e)"
  by (simp add: gives_def)

lemma gives_Inr [simp]: "gives P (Inr v) \<longleftrightarrow> P v"
  by (simp add: gives_def)

lemma gives_bind [gives_intros]: "(\<And>x. gives P (f x)) \<Longrightarrow> gives P (ebind m f)"
  by (cases m) (simp_all add: gives_def)

lemma gives_pair [gives_intros]: "(\<And>x y. gives P (f x y)) \<Longrightarrow> gives P (case z of (x, y) \<Rightarrow> f x y)"
  by (cases z) simp

text \<open>The value fits the instrument and is of an allowed time.\<close>

definition in_window :: "parser_context \<Rightarrow> instant \<Rightarrow> bool" where
  "in_window ctx t \<longleftrightarrow> t = pc_received_at ctx
     \<or> \<not> total_seconds (pc_received_at ctx - t) < - of_int (pc_maximum_skew ctx)
       \<and> \<not> total_seconds (pc_received_at ctx - t) > of_int (pc_maximum_age ctx)"

definition fits_context :: "parser_context \<Rightarrow> parsed_value \<Rightarrow> bool" where
  "fits_context ctx v \<longleftrightarrow> (let i = pc_instrument ctx in
     pv_currency v = i_quote_currency i \<and> pv_weight_unit v = i_weight_unit i \<and> pv_purity v = i_purity i
     \<and> accepts i (pv_price v) \<and> in_window ctx (pv_observed_at v)
     \<and> (\<forall>b a. pv_bid v = Some b \<and> pv_ask v = Some a \<longrightarrow> b \<le> a))"

lemma optional_timestamp_window: "optional_timestamp rt v ctx = Inr t \<Longrightarrow> in_window ctx t"
  by (auto simp: optional_timestamp_def in_window_def Let_def split: if_splits option.splits)

lemma validate_Inr: "validate_parsed_value v ctx = Inr w \<Longrightarrow> in_window ctx (pv_observed_at v) \<Longrightarrow> w = v \<and> fits_context ctx v"
  by (auto simp: validate_parsed_value_def fits_context_def err_simps Let_def not_less split: option.splits)

lemma parsed_fits [gives_intros]: "gives (fits_context ctx) (parsed rt price ctx observed_at metadata)"
proof -
  have "fits_context ctx v" if p: "parsed rt price ctx observed_at metadata = Inr v" for v
  proof -
    obtain t where t: "optional_timestamp rt observed_at ctx = Inr t" "validate_parsed_value (in_context price t ctx metadata) ctx = Inr v"
      using p unfolding parsed_def by (blast elim: ebind_InrE)
    show ?thesis
      using validate_Inr[OF t(2)] optional_timestamp_window[OF t(1)] by (simp add: in_context_def)
  qed
  then show ?thesis
    by (simp add: gives_def)
qed

lemma orderbook_fits: "gives (fits_context ctx) (parse_nobitex_orderbook rt symbol payload ctx)"
proof -
  have *: "gives (fits_context ctx) (ebind (optional_timestamp rt x ctx) (\<lambda>t.
      validate_parsed_value ((in_context price t ctx md)\<lparr>pv_weight_unit := UNIT, pv_purity := None, pv_bid := b, pv_ask := a\<rparr>) ctx))"
    for x price md b a
  proof (cases "optional_timestamp rt x ctx")
    case (Inr t)
    have "pv_observed_at ((in_context price t ctx md)\<lparr>pv_weight_unit := UNIT, pv_purity := None, pv_bid := b, pv_ask := a\<rparr>) = t"
      by (simp add: in_context_def)
    then show ?thesis
      using Inr optional_timestamp_window[OF Inr] validate_Inr[of _ ctx] unfolding gives_def by (metis ebind_simps(2))
  qed simp
  show ?thesis
    unfolding parse_nobitex_orderbook_def Let_def by (intro gives_bind *)
qed

lemmas parser_defs = parse_coincap_def parse_alanchand_def parse_tetherland_def parse_nobitex_stats_def parse_goldapi_def
  parse_goldapi_free_def parse_xaus_def parse_metals_dev_def parse_coinbase_def parse_coingecko_def parse_persian_toolbox_def
  parse_wallex_def parse_servix_def parse_tala_def parse_ticaro_def parse_arzbin_def parse_navasan_def parse_nerkh_io_def
  parse_bitpin_def parse_wallgold_def

lemma parse_with_fits: "gives (fits_context ctx) (parse_with rt p payload ctx)"
  by (cases p; simp only: parse_with.simps; (rule orderbook_fits | (unfold parser_defs Let_def, (rule gives_intros)+)))

text \<open>The window in microseconds.\<close>

lemma in_window_iff:
  assumes "in_window ctx t" "0 \<le> pc_maximum_age ctx" "pc_maximum_age ctx < 2 ^ 31" "0 \<le> pc_maximum_skew ctx" "pc_maximum_skew ctx < 2 ^ 31"
  shows "pc_received_at ctx - seconds (pc_maximum_age ctx) \<le> t \<and> t \<le> pc_received_at ctx + seconds (pc_maximum_skew ctx)"
proof (cases "t = pc_received_at ctx")
  case True
  then show ?thesis
    using assms(2,4) by simp
next
  case False
  then have w: "\<not> total_seconds (pc_received_at ctx - t) < - of_int (pc_maximum_skew ctx)"
      "\<not> total_seconds (pc_received_at ctx - t) > of_int (pc_maximum_age ctx)"
    using assms(1) by (simp_all add: in_window_def)
  have "total_seconds (- d) = - total_seconds d" for d
    using round_sig_minus[of 2 53 "of_int d / 1000000"] by (simp add: total_seconds_def)
  from this[of "pc_received_at ctx - t"]
  have "total_seconds (t - pc_received_at ctx) = - total_seconds (pc_received_at ctx - t)"
    by simp
  then show ?thesis
    using w total_seconds_gt_iff[OF assms(2,3), of "pc_received_at ctx - t"]
      total_seconds_gt_iff[OF assms(4,5), of "t - pc_received_at ctx"] by linarith
qed

section \<open>Which exceptions a parser raises\<close>

text \<open>A payload without a float that is not a number.\<close>

fun no_nan :: "json \<Rightarrow> bool" where
  "no_nan (JFloat f) = (f \<noteq> FNaN)"
| "no_nan (JList xs) = list_all no_nan xs"
| "no_nan (JObj ms) = list_all (\<lambda>m. no_nan (snd m)) ms"
| "no_nan _ = True"

definition raises_only :: "(py_error \<Rightarrow> bool) \<Rightarrow> parse_error + 'a \<Rightarrow> bool" where
  "raises_only E m \<longleftrightarrow> (\<forall>e. m = Inl (ParseOther e) \<longrightarrow> E e)"

named_theorems raises_intros \<open>rules for the steps of a parser\<close>

lemma raises_Inr [simp, raises_intros]: "raises_only E (Inr v)"
  by (simp add: raises_only_def)

lemma raises_Inl [simp]: "raises_only E (Inl (ParserErr c))" "raises_only E (Inl (ParseOther e)) \<longleftrightarrow> E e"
  by (auto simp: raises_only_def)

lemma raises_bind: "raises_only E m \<Longrightarrow> (\<And>x. m = Inr x \<Longrightarrow> raises_only E (f x)) \<Longrightarrow> raises_only E (ebind m f)"
  by (cases m) (simp_all add: raises_only_def)

lemma raises_refuse [simp, raises_intros]: "raises_only E (refuse c code)"
  by (simp add: refuse_def require_def)

lemma raises_require [simp]: "raises_only E (require_object v)" "raises_only E (require_list v)"
  by (simp_all add: require_object_def require_list_def split: json.split)

lemma raises_validate [simp]: "raises_only E (validate_parsed_value v ctx)"
  by (simp add: validate_parsed_value_def Let_def) (intro raises_bind; simp add: require_def)

lemma raises_timestamp [simp]: "raises_only E (optional_timestamp rt v ctx)"
  by (simp add: optional_timestamp_def Let_def split: option.split)

lemma raises_parsed [simp]: "raises_only E (parsed rt price ctx observed_at metadata)"
  unfolding parsed_def by (intro raises_bind) simp_all

lemma raises_path [simp]: "raises_only E (exact_path v path)"
proof (induction path arbitrary: v)
  case (Cons k ks)
  then show ?case
    by (simp add: Cons split: option.split) (intro raises_bind; simp split: option.split add: Cons)
qed simp

lemma raises_decimal: "no_nan v \<Longrightarrow> raises_only E (strict_decimal rt v z)"
  by (cases v) (auto simp: strict_decimal_def checked_decimal_def split: pyfloat.splits)

lemma raises_unit [simp]: "raises_only E (unit_factor rt v)"
  by (simp add: unit_factor_def Let_def)

text \<open>What is read from a payload has no such float either.\<close>

lemma no_nan_object: "require_object v = Inr ms \<Longrightarrow> no_nan v \<Longrightarrow> no_nan (JObj ms)"
  by (cases v) (simp_all add: require_object_def)

lemma no_nan_list: "require_list v = Inr xs \<Longrightarrow> no_nan v \<Longrightarrow> list_all no_nan xs"
  by (cases v) (simp_all add: require_list_def)

lemma no_nan_member: "map_of ms k = Some v \<Longrightarrow> no_nan (JObj ms) \<Longrightarrow> no_nan v"
  by (auto simp: list_all_iff dest!: map_of_SomeD)

lemma no_nan_get: "no_nan (JObj ms) \<Longrightarrow> no_nan (j_get ms k)"
  by (auto simp: j_get_def dest: no_nan_member split: option.split)

lemma no_nan_or: "no_nan a \<Longrightarrow> no_nan b \<Longrightarrow> no_nan (j_or a b)"
  by simp

lemma no_nan_path: "exact_path v path = Inr x \<Longrightarrow> no_nan v \<Longrightarrow> no_nan x"
proof (induction path arbitrary: v)
  case (Cons k ks)
  from Cons.prems(1) obtain ms y where "require_object v = Inr ms" "map_of ms (uni k) = Some y" "exact_path y ks = Inr x"
    by (auto simp: err_simps split: option.splits)
  then show ?case
    using Cons.IH no_nan_member no_nan_object Cons.prems(2) by blast
qed simp

lemma no_nan_rows: "no_nan (JObj ms) \<Longrightarrow> no_nan (rows_of ms keys)"
proof (induction keys)
  case (Cons k ks)
  then show ?case
    by (simp add: rows_of_def no_nan_get del: no_nan.simps)
qed (simp add: rows_of_def)

lemma raises_price: "no_nan v \<Longrightarrow> raises_only E (price_at rt v path)"
  unfolding price_at_def by (intro raises_bind raises_decimal) (auto dest: no_nan_path)

lemma node_in_values_no_nan: "node_in_values rt field expected vs = Some node \<Longrightarrow> list_all no_nan vs \<Longrightarrow> no_nan (JObj node)"
  by (induction vs) (auto split: json.splits if_splits)

lemma node_in_rows_facts:
  "raises_only E (node_in_rows rt field expected vs)"
  "node_in_rows rt field expected vs = Inr node \<Longrightarrow> list_all no_nan vs \<Longrightarrow> no_nan (JObj node)"
proof (induction vs)
  case (Cons v vs)
  case 1
  then show ?case
    unfolding node_in_rows.simps by (intro raises_bind) (simp_all add: Cons)
next
  case (Cons v vs)
  case 2
  then show ?case
    using no_nan_object[of v node] Cons(2) by (auto simp: err_simps split: if_splits)
qed simp_all

lemma node_by_key_facts:
  "raises_only E (node_by_key rt rows field expected)"
  "node_by_key rt rows field expected = Inr node \<Longrightarrow> no_nan rows \<Longrightarrow> no_nan (JObj node)"
proof -
  show "raises_only E (node_by_key rt rows field expected)"
    unfolding node_by_key_def by (auto split: option.split intro!: raises_bind simp: node_in_rows_facts(1))
next
  assume *: "node_by_key rt rows field expected = Inr node" "no_nan rows"
  show "no_nan (JObj node)"
  proof (cases rows)
    case (JObj ms)
    have "list_all no_nan (map snd ms)"
      using *(2) JObj by (simp add: list_all_iff)
    then show ?thesis
      using * JObj node_in_values_no_nan no_nan_get[of ms expected]
      by (auto simp: node_by_key_def require_list_def simp del: no_nan.simps split: option.splits json.splits)
  next
    case (JList xs)
    then show ?thesis
      using * node_in_rows_facts(2) by (auto simp: node_by_key_def require_list_def simp del: no_nan.simps(3))
  qed (use * in \<open>auto simp: node_by_key_def require_list_def\<close>)
qed

text \<open>The steps of the parsers as rules.\<close>

declare no_nan.simps(3) [simp del]

lemma raises_object_bind [raises_intros]:
  "no_nan v \<Longrightarrow> (\<And>ms. no_nan (JObj ms) \<Longrightarrow> raises_only E (f ms)) \<Longrightarrow> raises_only E (ebind (require_object v) f)"
  by (rule raises_bind) (simp_all add: no_nan_object)

lemma raises_list_bind [raises_intros]:
  "no_nan v \<Longrightarrow> (\<And>xs. list_all no_nan xs \<Longrightarrow> raises_only E (f xs)) \<Longrightarrow> raises_only E (ebind (require_list v) f)"
  by (rule raises_bind) (simp_all add: no_nan_list)

lemma raises_path_bind [raises_intros]:
  "no_nan v \<Longrightarrow> (\<And>x. no_nan x \<Longrightarrow> raises_only E (f x)) \<Longrightarrow> raises_only E (ebind (exact_path v path) f)"
  by (rule raises_bind) (simp_all add: no_nan_path)

lemma raises_price_bind [raises_intros]:
  "no_nan v \<Longrightarrow> (\<And>q. raises_only E (f q)) \<Longrightarrow> raises_only E (ebind (price_at rt v path) f)"
  by (rule raises_bind) (simp_all add: raises_price)

lemma raises_decimal_bind [raises_intros]:
  "no_nan v \<Longrightarrow> (\<And>q. raises_only E (f q)) \<Longrightarrow> raises_only E (ebind (strict_decimal rt v z) f)"
  by (rule raises_bind) (simp_all add: raises_decimal)

lemma raises_node_bind [raises_intros]:
  "no_nan v \<Longrightarrow> (\<And>ms. no_nan (JObj ms) \<Longrightarrow> raises_only E (f ms)) \<Longrightarrow> raises_only E (ebind (node_by_key rt v field expected) f)"
  by (rule raises_bind) (simp_all add: node_by_key_facts)

lemma raises_refuse_bind [raises_intros]:
  "(\<And>u. raises_only E (f u)) \<Longrightarrow> raises_only E (ebind (refuse c code) f)"
  by (rule raises_bind) simp_all

lemma raises_unit_bind [raises_intros]:
  "(\<And>x y. raises_only E (f x y)) \<Longrightarrow> raises_only E (ebind (unit_factor rt v) (\<lambda>(x, y). f x y))"
  by (rule raises_bind) (auto split: prod.split)

lemma raises_object_at [raises_intros]:
  assumes "no_nan v" "\<And>ms. no_nan (JObj ms) \<Longrightarrow> raises_only E (f ms)"
  shows "raises_only E (ebind (ebind (exact_path v path) require_object) f)"
proof (rule raises_bind)
  show "raises_only E (ebind (exact_path v path) require_object)"
    by (rule raises_bind) simp_all
  show "raises_only E (f ms)" if "ebind (exact_path v path) require_object = Inr ms" for ms
    using that assms no_nan_path no_nan_object by (auto simp: err_simps)
qed

lemma raises_list_at [raises_intros]:
  assumes "no_nan v" "\<And>xs. list_all no_nan xs \<Longrightarrow> raises_only E (f xs)"
  shows "raises_only E (ebind (ebind (exact_path v path) require_list) f)"
proof (rule raises_bind)
  show "raises_only E (ebind (exact_path v path) require_list)"
    by (rule raises_bind) simp_all
  show "raises_only E (f xs)" if "ebind (exact_path v path) require_list = Inr xs" for xs
    using that assms no_nan_path no_nan_list by (auto simp: err_simps)
qed

lemmas raises_rules = raises_object_at raises_list_at raises_intros raises_parsed no_nan_get no_nan_or no_nan_rows

lemma parser_raises_tickers:
  assumes "no_nan payload"
  shows "raises_only E (parse_coincap rt asset symbol payload ctx)" "raises_only E (parse_alanchand rt payload ctx)"
    "raises_only E (parse_tetherland rt symbol payload ctx)" "raises_only E (parse_nobitex_stats rt pair rial payload ctx)"
    "raises_only E (parse_goldapi rt symbol payload ctx)" "raises_only E (parse_goldapi_free rt symbol payload ctx)"
    "raises_only E (parse_xaus rt payload ctx)" "raises_only E (parse_metals_dev rt symbol payload ctx)"
    "raises_only E (parse_coinbase rt symbol payload ctx)" "raises_only E (parse_coingecko rt symbol payload ctx)"
  unfolding parser_defs Let_def by ((rule raises_rules assms | assumption)+)

lemma raises_level_bind:
  assumes "list_all no_nan levels" "\<And>q. raises_only E (f q)"
  shows "raises_only E (ebind (level_price rt levels) f)"
proof (rule raises_bind)
  show "raises_only E (level_price rt levels)"
    using assms(1) by (auto simp: level_price_def raises_decimal split: list.split json.split option.split dest: no_nan_member)
qed (rule assms(2))

lemma raises_time_bind: "(\<And>t. raises_only E (f t)) \<Longrightarrow> raises_only E (ebind (optional_timestamp rt v ctx) f)"
  by (rule raises_bind) simp_all

lemma raises_option_bind:
  assumes "no_nan v" "\<And>q. raises_only E (f q)"
  shows "raises_only E (ebind (opt_decimal rt v) f)"
proof (rule raises_bind)
  show "raises_only E (opt_decimal rt v)"
    unfolding opt_decimal_def using assms(1) by (auto intro: raises_bind raises_decimal)
qed (rule assms(2))

lemma raises_choice_bind:
  "raises_only E m \<Longrightarrow> (\<And>q. raises_only E (f q)) \<Longrightarrow> raises_only E (ebind m f)"
  by (rule raises_bind) simp_all

lemma raises_market_bind:
  assumes "list_all no_nan rows" "\<And>ms. no_nan (JObj ms) \<Longrightarrow> raises_only E (f ms)"
  shows "raises_only E (ebind (rows_with field symbol rows) (\<lambda>matches. ebind (one_market matches) f))"
proof (rule raises_bind)
  have "raises_only E (emap require_object rows)"
    by (induction rows) (auto intro!: raises_bind)
  then show "raises_only E (rows_with field symbol rows)"
    unfolding rows_with_def by (rule raises_bind) simp
next
  fix matches assume "rows_with field symbol rows = Inr matches"
  then obtain objects where o: "emap require_object rows = Inr objects" "set matches \<subseteq> set objects"
    by (auto simp: rows_with_def err_simps)
  have clean: "no_nan (JObj m)" if m: "m \<in> set matches" for m
  proof -
    obtain v where "v \<in> set rows" "require_object v = Inr m"
      using emap_Inr_in[OF o(1), of m] o(2) m by blast
    then show ?thesis
      using no_nan_object assms(1) by (auto simp: list_all_iff)
  qed
  show "raises_only E (ebind (one_market matches) f)"
  proof (rule raises_bind)
    show "raises_only E (one_market matches)"
      by (simp add: one_market_def split: list.split)
    show "raises_only E (f m)" if "one_market matches = Inr m" for m
      using that clean assms(2) by (auto simp: one_market_def split: list.splits)
  qed
qed

lemmas more_rules = raises_level_bind raises_time_bind raises_option_bind raises_market_bind raises_rules raises_validate

lemma parser_raises_others:
  assumes "no_nan payload"
  shows "raises_only E (parse_nobitex_orderbook rt symbol payload ctx)" "raises_only E (parse_servix rt symbol payload ctx)"
    "raises_only E (parse_tala rt symbol payload ctx)" "raises_only E (parse_ticaro rt symbol payload ctx)"
    "raises_only E (parse_navasan rt symbol payload ctx)" "raises_only E (parse_nerkh_io rt symbol unit payload ctx)"
    "raises_only E (parse_bitpin rt symbol payload ctx)" "raises_only E (parse_wallgold rt symbol payload ctx)"
  unfolding parser_defs parse_nobitex_orderbook_def Let_def by ((rule more_rules assms | assumption)+)

lemma parser_raises_arzbin:
  assumes "no_nan payload" shows "raises_only E (parse_arzbin rt code semantic unit payload ctx)"
proof -
  have c: "raises_only E (if a then Inr x else if b then Inr y else if c then Inr z else Inl (ParserErr k))" for a b c x y z k
    by simp
  show ?thesis
    unfolding parse_arzbin_def by ((rule raises_choice_bind[OF c] more_rules assms | assumption)+)
qed

lemma toolbox_object_bind:
  "no_nan (JObj d) \<Longrightarrow> (\<And>ms. no_nan (JObj ms) \<Longrightarrow> raises_only E (f ms)) \<Longrightarrow> raises_only E (ebind (toolbox_object d k) f)"
  unfolding toolbox_object_def by (rule raises_object_at)

lemma raises_toolbox_price:
  assumes "no_nan (JObj d)" shows "raises_only E (toolbox_price rt asset units d)"
proof -
  have split: "raises_only E (if a then x else y)" if "raises_only E x" "raises_only E y" for a x y
    using that by simp
  show ?thesis
    unfolding toolbox_price_def Let_def
    by ((rule split toolbox_object_bind more_rules assms raises_Inl | assumption)+)
qed

lemma parser_raises_toolbox:
  assumes "no_nan payload" shows "raises_only E (parse_persian_toolbox rt asset payload ctx)"
proof -
  have price: "raises_only E (ebind (toolbox_price rt asset units d) (\<lambda>(x, y, z). f x y z))"
    if "no_nan (JObj d)" "\<And>x y z. raises_only E (f x y z)" for units d f
    by (rule raises_bind) (use that in \<open>auto simp: raises_toolbox_price split: prod.split\<close>)
  show ?thesis
    unfolding parse_persian_toolbox_def Let_def by ((rule price toolbox_object_bind more_rules assms | assumption)+)
qed

lemma parser_raises_wallex:
  assumes "no_nan payload" "E (AttributeErr ''get'')" shows "raises_only E (parse_wallex rt symbol payload ctx)"
proof -
  have last: "raises_only E (ebind (wallex_price rt node) f)"
    if n: "no_nan (JObj node)" "\<And>v. no_nan v \<Longrightarrow> raises_only E (f v)" for node f
  proof (rule raises_bind)
    show "raises_only E (wallex_price rt node)"
      using assms(2) by (simp add: wallex_price_def Let_def split: option.split json.split)
    show "raises_only E (f v)" if "wallex_price rt node = Inr v" for v
    proof (rule n(2))
      show "no_nan v"
        using that n(1) no_nan_get no_nan_or no_nan_member
        by (auto simp: wallex_price_def Let_def simp del: j_or.simps split: if_splits option.splits json.splits)
    qed
  qed
  have rows: "no_nan (case j_get ms ''result'' of JObj r \<Rightarrow> j_get r ''symbols'' | _ \<Rightarrow> j_get ms ''symbols'')"
    if "no_nan (JObj ms)" for ms
    using no_nan_get[OF that, of "''result''"] no_nan_get[OF that, of "''symbols''"]
    by (cases "j_get ms ''result''") (simp_all add: no_nan_get)
  show ?thesis
    unfolding parse_wallex_def Let_def by ((rule last rows more_rules assms | assumption)+)
qed

lemma parse_with_raises:
  assumes "no_nan payload" "\<And>symbol. p = WallexMarket symbol \<Longrightarrow> E (AttributeErr ''get'')"
  shows "raises_only E (parse_with rt p payload ctx)"
  using assms by (cases p) (simp_all add: parser_raises_tickers parser_raises_others parser_raises_arzbin parser_raises_toolbox
      parser_raises_wallex)

section \<open>The stated conversion\<close>

text \<open>A value that states the number the provider sent states the factor the price came from it with: a tenth for an
  amount in Rial and one otherwise.\<close>

definition states_conversion :: "rat \<Rightarrow> dict \<Rightarrow> bool" where
  "states_conversion price md \<longleftrightarrow> (\<forall>raw. md ''original_value'' = Some (PDecStr raw) \<longrightarrow>
     (\<exists>f\<in>{1, 1/10}. md ''conversion_factor'' \<in> {Some (PDecStr f), Some (PStr (if f = 1 then ''1'' else ''0.1''))}
        \<and> md ''normalization'' \<in> {None, Some (normalization f)}
        \<and> (f = 1/10 \<longleftrightarrow> md ''source_currency'' = Some (PStr ''RIAL''))
        \<and> (price = dmul raw f \<or> f = 1 \<and> price = raw)))"

definition stated :: "parsed_value \<Rightarrow> bool" where
  "stated v \<longleftrightarrow> states_conversion (pv_price v) (pv_metadata v)"

lemma stated_parsed:
  assumes "states_conversion price md" shows "gives stated (parsed rt price ctx observed_at md)"
proof -
  have "stated v" if v: "parsed rt price ctx observed_at md = Inr v" for v
  proof -
    obtain t where "validate_parsed_value (in_context price t ctx md) ctx = Inr v"
      using v unfolding parsed_def by (blast elim: ebind_InrE)
    then have "v = in_context price t ctx md"
      unfolding validate_parsed_value_def Let_def by (auto elim!: ebind_InrE)
    then show ?thesis
      using assms by (simp add: stated_def in_context_def)
  qed
  then show ?thesis
    by (simp add: gives_def)
qed

lemma unstated: "md ''original_value'' = None \<Longrightarrow> states_conversion price md"
  by (simp add: states_conversion_def)

lemma gives_if: "gives P a \<Longrightarrow> gives P b \<Longrightarrow> gives P (if c then a else b)"
  by simp

definition unit_pair :: "string \<Rightarrow> rat \<Rightarrow> bool" where
  "unit_pair x y \<longleftrightarrow> y = 1 \<and> x \<noteq> ''RIAL'' \<or> x = ''RIAL'' \<and> y = 1/10"

lemma toolbox_units: "gives (\<lambda>z. unit_pair (snd (snd z)) (fst (snd z))) (toolbox_price rt asset units d)"
  unfolding toolbox_price_def Let_def
  by (intro gives_if gives_bind gives_Inl; simp add: unit_pair_def)

lemma unit_factor_units: "gives (\<lambda>z. unit_pair (fst z) (snd z)) (unit_factor rt v)"
  unfolding unit_factor_def Let_def by (intro gives_if gives_Inl; simp add: unit_pair_def)

lemma gives_unit_bind:
  assumes "\<And>x y. unit_pair x y \<Longrightarrow> gives P (f x y)"
  shows "gives P (ebind (unit_factor rt v) (\<lambda>(x, y). f x y))"
  using assms unit_factor_units[of rt v] by (cases "unit_factor rt v") (auto split: prod.split)

lemma gives_toolbox_bind:
  assumes "\<And>raw x y. unit_pair x y \<Longrightarrow> gives P (f raw y x)"
  shows "gives P (ebind (toolbox_price rt asset units d) (\<lambda>(raw, y, x). f raw y x))"
  using assms toolbox_units[of rt asset units d] by (cases "toolbox_price rt asset units d") (auto split: prod.split)

lemma stated_unit:
  assumes "unit_pair x y" "md ''source_currency'' = Some (PStr x)" "md ''original_value'' = Some (dec raw)"
    "md ''conversion_factor'' = Some (dec y)" "md ''normalization'' \<in> {None, Some (normalization y)}"
  shows "states_conversion (dmul raw y) md"
  using assms by (auto simp: states_conversion_def unit_pair_def dec_def)

lemma stated_same:
  assumes "md ''source_currency'' \<in> {Some (PStr ''USD''), Some (PStr ''TOMAN'')}" "md ''original_value'' = Some (dec price)"
    "md ''conversion_factor'' = Some (PStr ''1'')" "md ''normalization'' = None"
  shows "states_conversion price md"
  using assms by (auto simp: states_conversion_def dec_def)

lemma parsers_unstated:
  "gives stated (parse_coincap rt asset symbol payload ctx)" "gives stated (parse_alanchand rt payload ctx)"
  "gives stated (parse_tetherland rt symbol payload ctx)" "gives stated (parse_nobitex_stats rt pair rial payload ctx)"
  "gives stated (parse_goldapi rt symbol payload ctx)" "gives stated (parse_goldapi_free rt symbol payload ctx)"
  "gives stated (parse_xaus rt payload ctx)" "gives stated (parse_metals_dev rt symbol payload ctx)"
  unfolding parser_defs Let_def by (intro gives_bind stated_parsed unstated; simp)+

lemma parsers_same:
  "gives stated (parse_coinbase rt symbol payload ctx)" "gives stated (parse_coingecko rt symbol payload ctx)"
  "gives stated (parse_wallex rt symbol payload ctx)" "gives stated (parse_bitpin rt symbol payload ctx)"
  "gives stated (parse_wallgold rt symbol payload ctx)"
  unfolding parser_defs Let_def by ((rule gives_bind stated_parsed | (rule stated_same; (simp; fail)))+)

lemma parsers_by_unit:
  "gives stated (parse_tala rt symbol payload ctx)" "gives stated (parse_ticaro rt symbol payload ctx)"
  "gives stated (parse_arzbin rt symbol semantic unit payload ctx)" "gives stated (parse_nerkh_io rt symbol unit payload ctx)"
  "gives stated (parse_persian_toolbox rt symbol payload ctx)"
  unfolding parser_defs Let_def
  by ((rule gives_toolbox_bind gives_unit_bind gives_bind stated_parsed | (erule stated_unit; simp))+)

lemma parsers_rial: "gives stated (parse_navasan rt symbol payload ctx)" "gives stated (parse_servix rt symbol payload ctx)"
proof -
  show "gives stated (parse_navasan rt symbol payload ctx)"
    unfolding parser_defs by (intro gives_bind stated_parsed) (simp add: states_conversion_def dec_def normalization_def)
  have s: "states_conversion (dmul raw (if u = ''RIAL'' then 1/10 else 1))
      [''source_code'' \<mapsto> PStr c, ''source_currency'' \<mapsto> PStr u, ''original_value'' \<mapsto> dec raw,
       ''conversion_factor'' \<mapsto> dec (if u = ''RIAL'' then 1/10 else 1),
       ''normalization'' \<mapsto> normalization (if u = ''RIAL'' then 1/10 else 1)]" for raw u c
    by (rule stated_unit[of u]) (simp_all add: unit_pair_def)
  show "gives stated (parse_servix rt symbol payload ctx)"
    unfolding parser_defs Let_def by (intro gives_bind stated_parsed s)
qed

lemma orderbook_stated: "gives stated (parse_nobitex_orderbook rt symbol payload ctx)"
proof -
  have *: "gives stated (ebind (optional_timestamp rt x ctx) (\<lambda>t.
      validate_parsed_value ((in_context price t ctx md)\<lparr>pv_weight_unit := UNIT, pv_purity := None, pv_bid := b, pv_ask := a\<rparr>) ctx))"
    if "md ''original_value'' = None" for x price md b a
  proof -
    have "stated v" if v: "validate_parsed_value u ctx = Inr v" "pv_metadata u ''original_value'' = None" for u v
    proof -
      have "v = u"
        using v(1) unfolding validate_parsed_value_def Let_def by (auto elim!: ebind_InrE)
      then show ?thesis
        using v(2) by (simp add: stated_def unstated)
    qed
    then show ?thesis
      using that by (intro gives_bind) (simp add: gives_def in_context_def)
  qed
  show ?thesis
    unfolding parse_nobitex_orderbook_def Let_def by (intro gives_bind *) simp
qed

lemma parse_with_stated: "gives stated (parse_with rt p payload ctx)"
  by (cases p) (simp_all add: parsers_unstated parsers_same parsers_by_unit parsers_rial orderbook_stated)

section \<open>Properties\<close>

lemma parsed_value_fits:
  assumes "parse_payload rt st parser_id payload i received_at maximum_age = Inr v"
    and "0 \<le> maximum_age" "maximum_age < 2 ^ 31"
  shows "pv_currency v = i_quote_currency i \<and> pv_weight_unit v = i_weight_unit i \<and> pv_purity v = i_purity i
    \<and> accepts i (pv_price v) \<and> (\<forall>b a. pv_bid v = Some b \<and> pv_ask v = Some a \<longrightarrow> b \<le> a)
    \<and> received_at - seconds maximum_age \<le> pv_observed_at v \<and> pv_observed_at v \<le> received_at + seconds 30"
proof -
  let ?ctx = "\<lparr>pc_instrument = i, pc_received_at = received_at, pc_maximum_age = maximum_age,
    pc_maximum_skew = default_future_clock_skew_seconds\<rparr>"
  have "fits_context ?ctx v"
    using assms(1) parse_with_fits[of ?ctx] by (auto simp: parse_payload_def gives_def split: option.splits)
  moreover from this have "in_window ?ctx (pv_observed_at v)"
    by (simp add: fits_context_def Let_def)
  ultimately show ?thesis
    using in_window_iff[of ?ctx "pv_observed_at v"] assms(2,3)
    by (simp add: fits_context_def Let_def default_future_clock_skew_seconds_def)
qed

text \<open>Whatever a provider sends, a value a parser accepts fits the instrument: its currency, unit and purity are
  those of the instrument, its price is one the instrument accepts, an order book is not crossed, and the time of the
  value is at most the allowed age before its receipt and thirty seconds after it.\<close>

theorem parsed_value_fits_instrument:
  assumes "parse_payload rt st parser_id payload i received_at maximum_age = Inr v"
    and "0 \<le> maximum_age" "maximum_age < 2 ^ 31"
  shows "pv_currency v = i_quote_currency i \<and> pv_weight_unit v = i_weight_unit i \<and> pv_purity v = i_purity i
    \<and> accepts i (pv_price v) \<and> (\<forall>b a. pv_bid v = Some b \<and> pv_ask v = Some a \<longrightarrow> b \<le> a)
    \<and> received_at - seconds maximum_age \<le> pv_observed_at v \<and> pv_observed_at v \<le> received_at + seconds 30"
  by (rule parsed_value_fits[OF assms])

text \<open>Claim C39. A parser fails with an error code of its own. The only exceptions that escape it are the comparison of a
  float that is not a number, which the payload must contain, and an attribute error of the Wallex parser.\<close>

theorem parser_exceptions:
  assumes "parse_payload rt st parser_id payload i received_at maximum_age = Inl (ParseOther e)" and "no_nan payload"
  shows "e = AttributeErr ''get'' \<and> (\<exists>symbol. build_parser st parser_id = Some (WallexMarket symbol))"
proof (cases "build_parser st parser_id")
  case (Some p)
  have "raises_only (\<lambda>e. e = AttributeErr ''get'' \<and> (\<exists>symbol. p = WallexMarket symbol)) (parse_with rt p payload ctx)" for ctx
    by (rule parse_with_raises[OF assms(2)]) simp
  then show ?thesis
    using assms(1) Some by (auto simp: parse_payload_def raises_only_def)
qed (use assms(1) in \<open>simp add: parse_payload_def\<close>)

text \<open>Claim C7. The conversion a parsed value states is the one its price was computed with: where it states the number the
  provider sent, its price is that number, or a tenth of it exactly when the number is stated to be in Rial.\<close>

theorem stated_conversion_holds:
  assumes "parse_payload rt st parser_id payload i received_at maximum_age = Inr v"
    and "pv_metadata v ''original_value'' = Some (PDecStr raw)"
  shows "\<exists>f\<in>{1, 1/10}. (pv_price v = dmul raw f \<or> f = 1 \<and> pv_price v = raw)
    \<and> pv_metadata v ''conversion_factor'' \<in> {Some (PDecStr f), Some (PStr (if f = 1 then ''1'' else ''0.1''))}
    \<and> (f = 1/10 \<longleftrightarrow> pv_metadata v ''source_currency'' = Some (PStr ''RIAL''))"
proof -
  have "stated v"
    using assms(1) parse_with_stated by (auto simp: parse_payload_def gives_def split: option.splits)
  then show ?thesis
    using assms(2) unfolding stated_def states_conversion_def by blast
qed

section \<open>Examples\<close>

definition example_rt :: text_rt where
  "example_rt = \<lparr>tr_upper = (\<lambda>c. [c]), tr_lower = (\<lambda>c. [c]), tr_decimal = (\<lambda>_. None), tr_isdigit = (\<lambda>_. False),
     tr_repr = (\<lambda>_. []), tr_dumps = (\<lambda>_. []), tr_iso = (\<lambda>_. Inl (ValueError ''Invalid isoformat string''))\<rparr>"

definition example_dollar :: instrument_definition where
  "example_dollar = example_instrument\<lparr>i_instrument_id := ''USD_TOMAN'', i_quote_currency := TOMAN,
     i_minimum_price := 1000, i_maximum_price := 1000000\<rparr>"

definition example_answer :: json where
  "example_answer = JObj [(uni ''usd_sell'', JObj [(uni ''value'', JInt 600000)])]"

lemma example_parsed:
  "\<exists>v. parse_payload example_rt Map.empty ''navasan_usd_v1'' example_answer example_dollar 5000000 60 = Inr v
     \<and> pv_price v = 60000 \<and> pv_metadata v ''original_value'' = Some (PDecStr 600000)"
  by (simp add: parse_payload_def build_parser_def parser_setting_def example_answer_def parse_navasan_def require_object_def
      j_get_def price_at_def strict_decimal_def checked_decimal_def parsed_def optional_timestamp_def in_context_def
      validate_parsed_value_def accepts_def example_dollar_def example_instrument_def dmul_def dec_def)

theorem parsed_value_fits_instrument_witness:
  "\<exists>v. parse_payload example_rt Map.empty ''navasan_usd_v1'' example_answer example_dollar 5000000 60 = Inr v
     \<and> pv_currency v = TOMAN \<and> - 55000000 \<le> pv_observed_at v"
proof -
  obtain v where v: "parse_payload example_rt Map.empty ''navasan_usd_v1'' example_answer example_dollar 5000000 60 = Inr v"
    using example_parsed by blast
  show ?thesis
    using parsed_value_fits_instrument [OF v] v by (simp add: example_dollar_def seconds_def)
qed

theorem stated_conversion_holds_witness:
  "\<exists>v. parse_payload example_rt Map.empty ''navasan_usd_v1'' example_answer example_dollar 5000000 60 = Inr v
     \<and> (\<exists>f\<in>{1, 1/10}. pv_price v = dmul 600000 f \<or> f = 1 \<and> pv_price v = 600000)"
proof -
  obtain v where v: "parse_payload example_rt Map.empty ''navasan_usd_v1'' example_answer example_dollar 5000000 60 = Inr v"
      "pv_metadata v ''original_value'' = Some (PDecStr 600000)"
    using example_parsed by blast
  show ?thesis
    using stated_conversion_holds [OF v] v(1) by blast
qed

definition example_markets :: json where
  "example_markets = JObj [(uni ''symbols'', JList [JObj [(uni ''symbol'', JStr (uni ''USDTTMN'')), (uni ''stats'', JNull)]])]"

lemma example_escape:
  "parse_payload example_rt Map.empty ''wallex_usdt_toman_v1'' example_markets example_dollar 5000000 60
     = Inl (ParseOther (AttributeErr ''get''))"
  by (simp add: parse_payload_def build_parser_def example_markets_def parse_wallex_def require_object_def require_list_def
      j_get_def node_by_key_def has_key_text_def j_str_def wallex_price_def)

theorem parser_exceptions_witness:
  "\<exists>e. parse_payload example_rt Map.empty ''wallex_usdt_toman_v1'' example_markets example_dollar 5000000 60 = Inl (ParseOther e)
     \<and> e = AttributeErr ''get''"
proof -
  have "no_nan example_markets"
    by (simp add: example_markets_def no_nan.simps(3))
  then show ?thesis
    using example_escape parser_exceptions [OF example_escape] by blast
qed

end
