(* ===== verification/Parsed_Quotes.thy ===== *)
theory Parsed_Quotes
  imports Telegram_Quotes Parsers
begin

text \<open>
  The provider collector of \<open>Providers\<close> with the parsers of \<open>Parsers\<close>: what a call to a provider makes of the payload it
  received.
\<close>

definition parses :: "text_rt \<Rightarrow> ('s, json) penv \<Rightarrow> bool" where
  "parses rt env \<longleftrightarrow> e_parse env = parse_payload rt (e_settings env)"

text \<open>A quote that fits the instrument and is of an allowed time.\<close>

definition quote_fits :: "('s, 'p) penv \<Rightarrow> instrument_definition \<Rightarrow> provider_quote \<Rightarrow> bool" where
  "quote_fits env i q \<longleftrightarrow> (\<exists>price. q_price q = Some price \<and> accepts i price)
     \<and> e_received env - seconds (i_expire_after_seconds i) \<le> q_observed_at q
     \<and> q_observed_at q \<le> e_received env + seconds 30"

lemma build_quote_fits:
  assumes "parses rt env" "build_quote env p purpose i = Inr q" "i_expire_after_seconds i < 2 ^ 31"
  shows "quote_fits env i q"
proof -
  let ?age = "min (or_int (p_maximum_source_age_seconds p) (p_operational_ttl_seconds p)) (i_expire_after_seconds i)"
  obtain payload status where r: "request_payload env p = Inr (payload, status)" "0 < ?age"
    using assms(2) by (auto simp: build_quote_def Let_def err_simps not_le)
  obtain v where v: "parse_payload rt (e_settings env) (p_parser_id p) payload i (e_received env) ?age = Inr v"
    using assms(1,2) r
    by (cases "parse_payload rt (e_settings env) (p_parser_id p) payload i (e_received env) ?age")
      (auto simp: build_quote_def parses_def Let_def not_le split: parse_error.splits)
  obtain factor q0 where q0: "provider_quote_create (accepted_args env p purpose i v status factor) = Inr q0"
    and b: "apply_current_live_boundary q0 p i = Inr q"
    using assms(1,2) r v by (auto simp: build_quote_def parses_def Let_def err_simps)
  have "?age < 2 ^ 31" "?age \<le> i_expire_after_seconds i"
    using assms(3) by simp_all
  then have fits: "accepts i (pv_price v)" "e_received env - seconds ?age \<le> pv_observed_at v"
      "pv_observed_at v \<le> e_received env + seconds 30"
    using parsed_value_fits[OF v] r(2) by simp_all
  have "seconds ?age \<le> seconds (i_expire_after_seconds i)"
    by simp
  moreover have "q_price q = q_price q0" "q_observed_at q = q_observed_at q0"
    using b by (auto simp: apply_current_live_boundary_def err_simps)
  moreover have "q_observed_at q0 = pv_observed_at v" "q_price q0 = Some (pv_price v)"
    using create_fields(6,7)[OF q0] by (auto simp: accepted_args_def decimal_or_none_def err_simps dest!: decimal_value_Inr)
  ultimately show ?thesis
    using fits unfolding quote_fits_def by (auto simp del: seconds_simps simp: seconds_min)
qed

text \<open>Whatever is stored for such a quote, its price and time stay.\<close>

lemma accept_call_fits:
  assumes "accept_call env p purpose i rt q w = Inr (oc, w')" "oc_usable oc" "quote_fits env i q"
  shows "\<exists>x. oc_quote oc = Some x \<and> quote_fits env i x"
proof (cases "cache_retention (e_instruments env)
    (fst (snd (persist_provider_quote (e_db_up env) (e_queue_up env) (w_db w) q)))
    (p_operational_ttl_seconds p) (e_received env)")
  case (Inl e)
  then have False
    using assms by (cases e) (auto simp: accept_call_def Let_def dest: fail_call_outcome(1))
  then show ?thesis ..
next
  case (Inr n)
  then show ?thesis
    using assms by (auto simp: accept_call_def Let_def persist_provider_quote_def quote_fits_def split: if_splits)
qed

lemma call_and_parse_fits:
  assumes "parses rt env" "call_and_parse env p purpose runtime i w = Inr (oc, w')" "oc_usable oc"
    "i_expire_after_seconds i < 2 ^ 31"
  shows "\<exists>x. oc_quote oc = Some x \<and> quote_fits env i x"
proof (cases "build_quote env p purpose i")
  case (Inl e)
  then have False
    using assms(2,3) fail_call_outcome(1)
    by (fastforce simp: call_and_parse_def split: call_error.splits py_error.splits)
  then show ?thesis ..
next
  case (Inr q)
  then show ?thesis
    using accept_call_fits[OF _ assms(3) build_quote_fits[OF assms(1) Inr assms(4)]] assms(2)
    by (simp add: call_and_parse_def)
qed

text \<open>Claim C6. With the parsers of the repository, a quote that was asked for and may be used has a price the instrument
  accepts, and was observed no longer before its receipt than the instrument keeps a price, nor later than thirty
  seconds after it, whatever the provider answered.\<close>

theorem asked_quote_fits_instrument:
  assumes "parses rt env" and "quote env p purpose i w = Inr (oc, w')" and "oc_external_called oc" "oc_usable oc"
    and "i_expire_after_seconds i < 2 ^ 31"
  shows "\<exists>q price. oc_quote oc = Some q \<and> q_price q = Some price \<and> accepts i price
    \<and> e_received env - seconds (i_expire_after_seconds i) \<le> q_observed_at q \<and> q_observed_at q \<le> e_received env + seconds 30"
proof -
  have "\<exists>x. oc_quote oc = Some x \<and> quote_fits env i x"
    using assms(2)
  proof (cases rule: quote_cases)
    case (locked l s' w2)
    from locked(6) show ?thesis
    proof (cases rule: locked_quote_cases)
      case (called decision s'')
      then show ?thesis
        using call_and_parse_fits[OF assms(1) called(3) assms(4,5)] by blast
    qed (use assms in \<open>auto simp: cached_outcome_def\<close>)
  qed (use assms in \<open>auto simp: cached_outcome_def\<close>)
  then show ?thesis
    by (auto simp: quote_fits_def)
qed



section \<open>Examples\<close>

definition answering_env :: "json \<Rightarrow> (ttl_store, json) penv" where
  "answering_env payload = \<lparr>e_ops = ttl_ops, e_settings = Map.empty, e_instruments = [example_instrument],
     e_instrument_budgets = e_instrument_budgets example_env,
     e_urlparse = (\<lambda>_. example_url\<lparr>url_scheme := ''https'', url_hostname := ''h''\<rparr>), e_parse_date = Map.empty,
     e_http = (\<lambda>_ _ _ _ _. Inr \<lparr>rs_status = 200, rs_retry_after = None, rs_chunks = [40], rs_body = JsonBody payload\<rparr>),
     e_parser_version = (\<lambda>_. ''1''), e_parse = parse_payload example_rt Map.empty,
     e_db_up = True, e_queue_up = True, e_owner = ''o'', e_interleave = (\<lambda>w. w), e_now = 3000000,
     e_received = 4000000, e_unix_time = 0, e_latency_ms = 10, e_max_retries = 2, e_backoff_base = 1/2,
     e_max_response_bytes = 262144\<rparr>"

lemma answering_parses: "parses example_rt (answering_env payload)"
  by (simp add: parses_def answering_env_def)

lemma answered_payload: "request_payload (answering_env payload) (example_provider\<lparr>p_parser_id := x\<rparr>) = Inr (payload, 200)"
  by (simp add: request_payload_def request_credentials_def validate_destination_def answering_env_def example_provider_def
      example_url_def setting_def request_once_def lower_def strip_def numeral_3_eq_3 Let_def)


text \<open>An answer that is accepted.\<close>

definition priced :: json where "priced = JObj [(uni ''price'', JInt 50000)]"

definition priced_provider :: provider_definition where
  "priced_provider = example_provider\<lparr>p_parser_id := ''coinbase_btc_usd_v1''\<rparr>"

lemma priced_parsed:
  "\<exists>v. parse_payload example_rt Map.empty ''coinbase_btc_usd_v1'' priced example_instrument 4000000 360 = Inr v
     \<and> v = \<lparr>pv_price = 50000, pv_currency = USD, pv_weight_unit = UNIT, pv_purity = None, pv_observed_at = 4000000,
          pv_bid = None, pv_ask = None, pv_volume = None,
          pv_metadata = [''product_id'' \<mapsto> PStr ''BTC-USD'', ''source_currency'' \<mapsto> PStr ''USD'', ''original_value'' \<mapsto> PDecStr 50000,
            ''conversion_factor'' \<mapsto> PStr ''1'']\<rparr>"
  by (simp add: parse_payload_def build_parser_def priced_def parse_coinbase_def require_object_def price_at_def
      strict_decimal_def checked_decimal_def parsed_def optional_timestamp_def in_context_def validate_parsed_value_def
      accepts_def example_instrument_def j_get_def dec_def)

lemma priced_built:
  "\<exists>q. build_quote (answering_env priced) priced_provider FOR_ANOMALY example_instrument = Inr q
     \<and> q_validation_status q = ACCEPTED \<and> q_price q = Some 50000 \<and> q_observed_at q = 4000000 \<and> q_received_at q = 4000000
     \<and> q_instrument_id q = ''BTC_USD''"
proof -
  obtain v where v: "parse_payload example_rt Map.empty ''coinbase_btc_usd_v1'' priced example_instrument 4000000 360 = Inr v"
      "v = \<lparr>pv_price = 50000, pv_currency = USD, pv_weight_unit = UNIT, pv_purity = None, pv_observed_at = 4000000,
          pv_bid = None, pv_ask = None, pv_volume = None,
          pv_metadata = [''product_id'' \<mapsto> PStr ''BTC-USD'', ''source_currency'' \<mapsto> PStr ''USD'', ''original_value'' \<mapsto> PDecStr 50000,
            ''conversion_factor'' \<mapsto> PStr ''1'']\<rparr>"
    using priced_parsed by blast
  have f: "conversion_factor_arg (pv_metadata v) = Inr (PDecStr 1)"
    by (simp add: v(2) conversion_factor_arg_def dict_get_def parse_decimal_def strip_def is_space_def lower_def lower_char_def
        starts_with_def is_digit_def digits_val_def digit_val_def parse_exponent_def)
  obtain q where q: "provider_quote_create (accepted_args (answering_env priced) priced_provider FOR_ANOMALY example_instrument v 200
      (PDecStr 1)) = Inr q" "q_validation_status q = ACCEPTED" "q_price q = Some 50000" "q_observed_at q = 4000000"
      "q_received_at q = 4000000" "q_instrument_id q = ''BTC_USD''"
    by (simp add: v(2) provider_quote_create_def accepted_args_def default_args_def answering_env_def priced_provider_def
        example_provider_def example_instrument_def
        decimal_or_none_def decimal_value_def seconds_def default_future_clock_skew_seconds_def
        normalize_source_provenance_def raw_quote_def dict_get_def or_val_def first_of_def
        enum_of_def source_semantics_def text_value_def strip_def is_space_def price_semantics_def
        source_spread_def depth_of_def ddiv_def list_items_def upper_def upper_char_def
        infer_price_semantic_def opt_dec_def or_int_def Let_def)
  obtain b where b: "provider_freshness_boundaries q priced_provider example_instrument = Inr b"
    by (simp add: provider_freshness_boundaries_def q(4,5) priced_provider_def example_provider_def example_instrument_def
        or_int_def freshness_policy_post_init_def default_future_clock_skew_seconds_def time_simps seconds_def)
  have c: "min (or_int (p_maximum_source_age_seconds priced_provider) (p_operational_ttl_seconds priced_provider))
      (i_expire_after_seconds example_instrument) = 360" "p_parser_id priced_provider = ''coinbase_btc_usd_v1''"
    by (simp_all add: priced_provider_def example_provider_def example_instrument_def or_int_def)
  have e: "e_parse (answering_env priced) = parse_payload example_rt Map.empty" "e_received (answering_env priced) = 4000000"
    by (simp_all add: answering_env_def)
  have r: "request_payload (answering_env priced) priced_provider = Inr (priced, 200)"
    unfolding priced_provider_def by (rule answered_payload)
  have "build_quote (answering_env priced) priced_provider FOR_ANOMALY example_instrument
      = Inr (q\<lparr>q_metadata := (q_metadata q)(''effective_live_eligible_until'' \<mapsto> PIso (fb_live_eligible_until b))\<rparr>)"
    using v(1) f q(1) b
    by (simp add: build_quote_def c e r lift_py_def apply_current_live_boundary_def Let_def)
  then show ?thesis
    using q by simp
qed

lemma priced_windows:
  assumes "q_observed_at q = 4000000" "q_received_at q = 4000000"
  shows "\<exists>b. provider_freshness_boundaries q priced_provider example_instrument = Inr b \<and> 4000000 \<le> fb_live_eligible_until b"
  using assms by (simp add: provider_freshness_boundaries_def priced_provider_def example_provider_def example_instrument_def
      or_int_def freshness_policy_post_init_def default_future_clock_skew_seconds_def time_simps seconds_def)

lemma priced_called:
  "\<exists>oc w'. call_and_parse (answering_env priced) priced_provider FOR_ANOMALY runtime example_instrument w = Inr (oc, w')
     \<and> oc_usable oc \<and> oc_external_called oc"
proof -
  obtain q where q: "build_quote (answering_env priced) priced_provider FOR_ANOMALY example_instrument = Inr q"
      "q_validation_status q = ACCEPTED" "q_price q = Some 50000" "q_observed_at q = 4000000" "q_received_at q = 4000000"
      "q_instrument_id q = ''BTC_USD''"
    using priced_built by blast
  have live: "cache_status (Some q) priced_provider example_instrument 4000000 = Some FLive"
    using priced_windows[OF q(4,5)] q(2,3) by (auto simp: cache_status_live)
  have "get_instrument [example_instrument] ''BTC_USD'' = Inr example_instrument"
    by (rule example_lookup)
  then have "\<exists>n. cache_retention [example_instrument] (q\<lparr>q_id := x, q_persistence_status := y\<rparr>) 360 4000000 = Inr n" for x y
    using q(4-6) by (simp add: cache_retention_def freshness_policy_post_init_def example_instrument_def
        default_future_clock_skew_seconds_def time_simps seconds_def)
  then obtain n where n: "cache_retention [example_instrument]
      (q\<lparr>q_id := Some (fst (store_quote_row (w_db w) q)), q_persistence_status := PERSISTED\<rparr>) 360 4000000 = Inr n"
    by blast
  have e: "e_instruments (answering_env priced) = [example_instrument]" "e_received (answering_env priced) = 4000000"
      "e_db_up (answering_env priced)" "p_operational_ttl_seconds priced_provider = 360"
    by (simp_all add: answering_env_def priced_provider_def example_provider_def)
  show ?thesis
    by (simp add: call_and_parse_def q(1) accept_call_def persist_provider_quote_def e n live Let_def)
qed

text \<open>The budget of a provider is told by its two names and its policy.\<close>

lemma consume_cong:
  assumes "p_provider_id p = p_provider_id p'" "p_instrument_id p = p_instrument_id p'" "p_budget p = p_budget p'"
  shows "consume ops s ibs p = consume ops s ibs p'"
  by (intro ext) (simp only: consume_def provider_limits_def key_limits_def provider_key_def instrument_key_def assms)

lemma priced_consume: "consume ops s ibs priced_provider = consume ops s ibs example_provider"
  by (rule consume_cong) (simp_all add: priced_provider_def)

lemma configured_cong:
  assumes "p_provider_id p = p_provider_id p'" "p_required_settings p = p_required_settings p'"
    "p_unit_source p = p_unit_source p'" "p_api_key_setting p = p_api_key_setting p'"
  shows "configured p = configured p'"
  by (intro ext) (simp only: configured_def assms)

lemma priced_configured: "configured priced_provider = configured example_provider"
  by (rule configured_cong) (simp_all add: priced_provider_def)

lemma priced_quote:
  "\<exists>oc w'. quote (answering_env priced) priced_provider FOR_ANOMALY example_instrument (example_world None) = Inr (oc, w')
     \<and> oc_external_called oc \<and> oc_usable oc"
proof -
  let ?key = "provider_lock_key ''p'' ''BTC_USD''" and ?s = "\<lparr>st_now = 0, st_data = Map.empty\<rparr>"
  have e: "e_ops (answering_env priced) = ttl_ops" "e_instrument_budgets (answering_env priced) = e_instrument_budgets example_env"
      "e_unix_time (answering_env priced) = 0" "e_owner (answering_env priced) = ''o''" "e_interleave (answering_env priced) = (\<lambda>w. w)"
      "e_now (answering_env priced) = 3000000" "e_settings (answering_env priced) = e_settings example_env"
    by (simp_all add: answering_env_def example_env_def)
  have p: "p_provider_id priced_provider = ''p''" "p_instrument_id priced_provider = ''BTC_USD''" "p_enabled priced_provider"
    by (simp_all add: priced_provider_def example_provider_def)
  obtain l s' where a: "acquire ttl_ops ?s ?key 15000 ''o'' = Inr (Some l, s')"
    by (simp add: acquire_def st_simps st_entry_def Let_def)
  have k: "\<not> starts_with ''pricing:budget'' ?key" "?key \<noteq> cooldown_key ''p''"
    by (simp_all add: provider_lock_key_def cooldown_key_def starts_with_def)
  obtain d s'' where c: "consume ttl_ops s' (e_instrument_budgets example_env) priced_provider FOR_ANOMALY 0
      = Inr (d, s'')" "bd_allowed d"
    using example_consume[OF a k] unfolding priced_consume by blast
  obtain oc w2 where f: "call_and_parse (answering_env priced) priced_provider FOR_ANOMALY (fresh_runtime ''p'' ''BTC_USD'')
      example_instrument ((example_world None)\<lparr>w_redis := s''\<rparr>) = Inr (oc, w2)" "oc_usable oc" "oc_external_called oc"
    using priced_called by blast
  have "locked_quote (answering_env priced) priced_provider FOR_ANOMALY example_instrument
      (fresh_runtime ''p'' ''BTC_USD'') None None ((example_world None)\<lparr>w_redis := s'\<rparr>) = Inr (oc, w2)"
    using c f by (simp add: locked_quote_def Let_def example_world_def live_stored_def e)
  moreover have "circuit_open (fresh_runtime ''p'' ''BTC_USD'') 3000000 = (False, fresh_runtime ''p'' ''BTC_USD'')"
    by (simp add: circuit_open_def fresh_runtime_def)
  moreover have "configured priced_provider (e_settings example_env)"
    using example_allowed(1) unfolding priced_configured .
  ultimately show ?thesis
    using a f
    by (simp add: quote_def Let_def e p live_stored_def cache_status_def)
      (simp add: example_world_def e p runtime_of_def runtime_key_def)
qed

theorem asked_quote_fits_instrument_witness:
  "\<exists>(oc :: quote_fetch_outcome) w' q price. quote (answering_env priced) priced_provider FOR_ANOMALY example_instrument (example_world None)
       = Inr (oc, w')
     \<and> oc_quote oc = Some q \<and> q_price q = Some price \<and> accepts example_instrument price"
proof -
  obtain oc w' where q: "quote (answering_env priced) priced_provider FOR_ANOMALY example_instrument (example_world None)
      = Inr (oc, w')" "oc_external_called oc" "oc_usable oc"
    using priced_quote by blast
  show ?thesis
    using asked_quote_fits_instrument [OF answering_parses q] q(1) by (auto simp: example_instrument_def)
qed

end
