(* ===== verification/History_Parsers.thy ===== *)
theory History_Parsers
  imports Parsers
begin

text \<open>
  Model of \<open>apps/api/app/pricing/parsers/history.py\<close>: the parsers of price histories, which give the points of a range
  in the order of time.
\<close>

record history_point =
  hp_observed_at :: instant
  hp_price :: rat
  hp_volume :: "rat option"

datatype history_parser =
    NobitexUdfHistory string
  | CoinGeckoHistory string
  | ServixHistory string string rat

section \<open>Steps\<close>

text \<open>\<open>int(value)\<close> of a value of a payload; the text of a number may have digits of any script.\<close>

fun u_underscores :: "text_rt \<Rightarrow> utext \<Rightarrow> bool" where
  "u_underscores rt [] = False"
| "u_underscores rt [c] = is_decimal_char rt c"
| "u_underscores rt (c # d # s) =
     (is_decimal_char rt c \<and> (if d = 95 then u_underscores rt s else u_underscores rt (d # s)))"

definition u_int :: "text_rt \<Rightarrow> utext \<Rightarrow> int option" where
  "u_int rt s =
     (let t = u_strip s; sg = (if t \<noteq> [] \<and> hd t = 45 then - 1 else 1); ds = number_body t in
      if u_underscores rt ds then Some (sg * u_digits_val rt (filter (is_decimal_char rt) ds)) else None)"

definition j_int :: "text_rt \<Rightarrow> json \<Rightarrow> int option" where
  "j_int rt v =
     (case v of
        JInt n \<Rightarrow> Some n | JBool b \<Rightarrow> Some (if b then 1 else 0) | JFloat (FFin x) \<Rightarrow> Some (trunc x)
      | JStr s \<Rightarrow> u_int rt s | _ \<Rightarrow> None)"

definition instant_of_seconds :: "int \<Rightarrow> instant option" where
  "instant_of_seconds n = (if instant_in_range (seconds n) then Some (seconds n) else None)"

text \<open>\<open>raw_volume in (None, "")\<close>.\<close>

definition no_volume :: "json \<Rightarrow> bool" where
  "no_volume v \<longleftrightarrow> v = JNull \<or> v = JStr []"

definition volume_of :: "text_rt \<Rightarrow> json \<Rightarrow> parse_error + rat option" where
  "volume_of rt v = (if no_volume v then Inr None else ebind (strict_decimal rt v True) (\<lambda>q. Inr (Some q)))"

text \<open>A point of the loop: outside of the range it is skipped, and it must be later than the last one kept.\<close>

definition range_point ::
  "text_rt \<Rightarrow> instrument_definition \<Rightarrow> instant \<Rightarrow> instant \<Rightarrow> instant option \<Rightarrow> instant option \<Rightarrow> json \<Rightarrow> json
   \<Rightarrow> parse_error + history_point option" where
  "range_point rt i range_start range_end previous observed price_value volume_value =
     (case observed of
        None \<Rightarrow> Inl (ParserErr ''invalid_timestamp'')
      | Some t \<Rightarrow>
          if t < range_start \<or> t > range_end then Inr None
          else if (case previous of None \<Rightarrow> False | Some p \<Rightarrow> t \<le> p) then Inl (ParserErr ''history_order'')
          else ebind (strict_decimal rt price_value False) (\<lambda>price.
            ebind (refuse (\<not> accepts i price) ''outside_sanity_bounds'') (\<lambda>_.
            ebind (volume_of rt volume_value) (\<lambda>volume.
            Inr (Some \<lparr>hp_observed_at = t, hp_price = price, hp_volume = volume\<rparr>)))))"

text \<open>The loop over points that are given by their time, price and volume.\<close>

primrec range_points ::
  "text_rt \<Rightarrow> instrument_definition \<Rightarrow> instant \<Rightarrow> instant \<Rightarrow> instant option
   \<Rightarrow> (parse_error + (instant option \<times> json \<times> json)) list \<Rightarrow> parse_error + history_point list" where
  "range_points rt i range_start range_end previous [] = Inr []"
| "range_points rt i range_start range_end previous (r # rows) =
     ebind r (\<lambda>(observed, price, volume).
     ebind (range_point rt i range_start range_end previous observed price volume) (\<lambda>point.
     case point of
       None \<Rightarrow> range_points rt i range_start range_end previous rows
     | Some h \<Rightarrow> ebind (range_points rt i range_start range_end (Some (hp_observed_at h)) rows) (\<lambda>hs. Inr (h # hs))))"

section \<open>Nobitex\<close>

definition parse_nobitex_history ::
  "text_rt \<Rightarrow> json \<Rightarrow> instrument_definition \<Rightarrow> instant \<Rightarrow> instant \<Rightarrow> parse_error + history_point list" where
  "parse_nobitex_history rt payload i range_start range_end =
     ebind (require_object payload) (\<lambda>root.
     if j_get root ''s'' = JStr (uni ''no_data'') then Inr []
     else
       ebind (refuse (j_get root ''s'' \<noteq> JStr (uni ''ok'')) ''history_status'') (\<lambda>_.
       ebind (require_list (j_get root ''t'')) (\<lambda>timestamps.
       ebind (require_list (j_get root ''c'')) (\<lambda>closes.
       ebind (require_list (j_get root ''v'')) (\<lambda>volumes.
       ebind (refuse (\<not> (length timestamps = length closes \<and> length closes = length volumes)) ''history_shape'') (\<lambda>_.
       ebind (refuse (length timestamps > 20000) ''history_too_large'') (\<lambda>_.
       range_points rt i range_start range_end None
         (map (\<lambda>(t, c, v). Inr (case j_int rt t of None \<Rightarrow> None | Some n \<Rightarrow> instant_of_seconds n, c, v))
           (zip timestamps (zip closes volumes))))))))))"

section \<open>CoinGecko\<close>

text \<open>Equality of keys: numbers and truth values by value; a list or an object is no key.\<close>

definition key_number :: "json \<Rightarrow> rat option" where
  "key_number v =
     (case v of JInt n \<Rightarrow> Some (of_int n) | JBool b \<Rightarrow> Some (if b then 1 else 0) | JFloat (FFin x) \<Rightarrow> Some x | _ \<Rightarrow> None)"

definition same_key :: "json \<Rightarrow> json \<Rightarrow> bool" where
  "same_key a b \<longleftrightarrow>
     (case (key_number a, key_number b) of
        (Some x, Some y) \<Rightarrow> x = y
      | (None, None) \<Rightarrow> a = b \<and> a \<noteq> JFloat FNaN
      | _ \<Rightarrow> False)"

definition hashable :: "json \<Rightarrow> bool" where
  "hashable v = (case v of JList _ \<Rightarrow> False | JObj _ \<Rightarrow> False | _ \<Rightarrow> True)"

text \<open>The dictionary of the volumes, latest entry first; an entry whose key is no key raises.\<close>

primrec volume_entries :: "json list \<Rightarrow> (json \<times> json) list \<Rightarrow> parse_error + (json \<times> json) list" where
  "volume_entries [] entries = Inr entries"
| "volume_entries (row # rows) entries =
     (case row of
        JList [k, v] \<Rightarrow>
          if hashable k then volume_entries rows ((k, v) # entries)
          else Inl (ParseOther (TypeError ''unhashable type''))
      | _ \<Rightarrow> volume_entries rows entries)"

definition volume_at :: "(json \<times> json) list \<Rightarrow> json \<Rightarrow> json" where
  "volume_at entries k = (case find (\<lambda>e. same_key (fst e) k) entries of None \<Rightarrow> JNull | Some e \<Rightarrow> snd e)"

text \<open>\<open>int(row[0]) / 1000\<close> is a float.\<close>

definition instant_of_millis :: "int \<Rightarrow> instant option" where
  "instant_of_millis n = (case f64 (of_int n / 1000) of None \<Rightarrow> None | Some x \<Rightarrow> from_timestamp x)"

definition parse_coingecko_history ::
  "text_rt \<Rightarrow> json \<Rightarrow> instrument_definition \<Rightarrow> instant \<Rightarrow> instant \<Rightarrow> parse_error + history_point list" where
  "parse_coingecko_history rt payload i range_start range_end =
     ebind (require_object payload) (\<lambda>root.
     ebind (require_list (j_get root ''prices'')) (\<lambda>prices.
     ebind (require_list (case map_of root (uni ''total_volumes'') of None \<Rightarrow> JList [] | Some v \<Rightarrow> v)) (\<lambda>totals.
     ebind (volume_entries totals []) (\<lambda>entries.
     range_points rt i range_start range_end None
       (map (\<lambda>row. case row of
           JList [t, p] \<Rightarrow>
             Inr (case j_int rt t of None \<Rightarrow> None | Some n \<Rightarrow> instant_of_millis n, p,
               if hashable t then volume_at entries t else JNull)
         | _ \<Rightarrow> Inl (ParserErr ''history_shape'')) prices)))))"

section \<open>Servix\<close>

text \<open>The time of a row: a missing one and a wrong one are both invalid.\<close>

definition servix_time :: "text_rt \<Rightarrow> (utext \<times> json) list \<Rightarrow> parse_error + instant" where
  "servix_time rt row =
     (case map_of row (uni ''businessTime'') of
        Some (JStr s) \<Rightarrow>
          (case tr_iso rt (replace_z s) of
             Inr t \<Rightarrow> Inr t
           | Inl (ValueError _) \<Rightarrow> Inl (ParserErr ''invalid_timestamp'')
           | Inl (TypeError _) \<Rightarrow> Inl (ParserErr ''invalid_timestamp'')
           | Inl e \<Rightarrow> Inl (ParseOther e))
      | _ \<Rightarrow> Inl (ParserErr ''invalid_timestamp''))"

definition servix_point ::
  "text_rt \<Rightarrow> string \<Rightarrow> string \<Rightarrow> rat \<Rightarrow> instrument_definition \<Rightarrow> instant \<Rightarrow> instant \<Rightarrow> json
   \<Rightarrow> parse_error + history_point option" where
  "servix_point rt symbol quote_unit factor i range_start range_end raw =
     ebind (require_object raw) (\<lambda>row.
     ebind (refuse (j_get row ''code'' \<noteq> JStr (uni symbol)) ''unsupported_symbol'') (\<lambda>_.
     ebind (refuse (j_get row ''quoteUnit'' \<noteq> JStr (uni quote_unit)) ''unknown_unit'') (\<lambda>_.
     ebind (servix_time rt row) (\<lambda>t.
     if t < range_start \<or> t > range_end then Inr None
     else
       ebind (price_at rt (JObj row) [''value'']) (\<lambda>value.
       let price = dmul value factor in
       ebind (refuse (\<not> accepts i price) ''outside_sanity_bounds'') (\<lambda>_.
       Inr (Some \<lparr>hp_observed_at = t, hp_price = price, hp_volume = None\<rparr>)))))))"

fun strictly_later :: "history_point list \<Rightarrow> bool" where
  "strictly_later (a # b # hs) = (hp_observed_at a < hp_observed_at b \<and> strictly_later (b # hs))"
| "strictly_later _ = True"

definition parse_servix_history ::
  "text_rt \<Rightarrow> string \<Rightarrow> string \<Rightarrow> rat \<Rightarrow> json \<Rightarrow> instrument_definition \<Rightarrow> instant \<Rightarrow> instant
   \<Rightarrow> parse_error + history_point list" where
  "parse_servix_history rt symbol quote_unit factor payload i range_start range_end =
     ebind (require_list payload) (\<lambda>rows.
     ebind (refuse (length rows > 20000) ''history_too_large'') (\<lambda>_.
     ebind (emap (servix_point rt symbol quote_unit factor i range_start range_end) rows) (\<lambda>found.
     let points = sort_key hp_observed_at (List.map_filter (\<lambda>x. x) found) in
     ebind (refuse (\<not> strictly_later points) ''history_order'') (\<lambda>_. Inr points))))"

section \<open>The table of history parsers\<close>

definition build_history_parser :: "string \<rightharpoonup> history_parser" where
  "build_history_parser = map_of [
     (''nobitex_udf_usdtirt_v1'', NobitexUdfHistory ''USDTIRT''),
     (''nobitex_udf_btcirt_v1'', NobitexUdfHistory ''BTCIRT''),
     (''coingecko_bitcoin_usd_history_v1'', CoinGeckoHistory ''bitcoin''),
     (''coingecko_tether_usd_history_v1'', CoinGeckoHistory ''tether''),
     (''servix_btc_usd_history_v1'', ServixHistory ''BTC_USD'' ''USD'' 1),
     (''servix_usdt_usd_history_v1'', ServixHistory ''USDT_USD'' ''USD'' 1),
     (''servix_usd_rls_history_v1'', ServixHistory ''USD_RLS'' ''RLS'' (1/10))]"

fun parse_history_with ::
  "text_rt \<Rightarrow> history_parser \<Rightarrow> json \<Rightarrow> instrument_definition \<Rightarrow> instant \<Rightarrow> instant \<Rightarrow> parse_error + history_point list" where
  "parse_history_with rt (NobitexUdfHistory _) = parse_nobitex_history rt"
| "parse_history_with rt (CoinGeckoHistory _) = parse_coingecko_history rt"
| "parse_history_with rt (ServixHistory symbol unit factor) = parse_servix_history rt symbol unit factor"

definition parse_history ::
  "text_rt \<Rightarrow> string \<Rightarrow> json \<Rightarrow> instrument_definition \<Rightarrow> instant \<Rightarrow> instant \<Rightarrow> parse_error + history_point list" where
  "parse_history rt parser_id payload i range_start range_end =
     (case build_history_parser parser_id of
        None \<Rightarrow> Inl (ParserErr ''unknown_history_parser'')
      | Some p \<Rightarrow> parse_history_with rt p payload i range_start range_end)"

section \<open>What a history parser gives\<close>

definition sound_point :: "instrument_definition \<Rightarrow> instant \<Rightarrow> instant \<Rightarrow> history_point \<Rightarrow> bool" where
  "sound_point i range_start range_end h \<longleftrightarrow> range_start \<le> hp_observed_at h \<and> hp_observed_at h \<le> range_end
     \<and> accepts i (hp_price h) \<and> (\<forall>x. hp_volume h = Some x \<longrightarrow> 0 \<le> x)"

lemma strict_decimal_sign: "strict_decimal rt v z = Inr q \<Longrightarrow> (if z then 0 \<le> q else 0 < q)"
  by (auto simp: strict_decimal_def checked_decimal_def split: json.splits pyfloat.splits if_splits)

lemma volume_of_nonneg: "volume_of rt v = Inr (Some q) \<Longrightarrow> 0 \<le> q"
  using strict_decimal_sign[of rt v True] by (auto simp: volume_of_def err_simps split: if_splits)

lemma range_point_sound:
  assumes "range_point rt i range_start range_end previous observed price volume = Inr (Some h)"
  shows "sound_point i range_start range_end h \<and> (\<forall>p. previous = Some p \<longrightarrow> p < hp_observed_at h)"
  using assms volume_of_nonneg
  by (auto simp: range_point_def sound_point_def refuse_def err_simps split: option.splits if_splits)

lemma range_points_sound:
  "range_points rt i range_start range_end previous rows = Inr hs
     \<Longrightarrow> (\<forall>h\<in>set hs. sound_point i range_start range_end h \<and> (\<forall>p. previous = Some p \<longrightarrow> p < hp_observed_at h))
       \<and> sorted_wrt (<) (map hp_observed_at hs) \<and> length hs \<le> length rows"
proof (induction rows arbitrary: previous hs)
  case (Cons r rows)
  then obtain observed price volume point where
    p: "range_point rt i range_start range_end previous observed price volume = Inr point"
      "(case point of None \<Rightarrow> range_points rt i range_start range_end previous rows
        | Some h \<Rightarrow> ebind (range_points rt i range_start range_end (Some (hp_observed_at h)) rows) (\<lambda>hs. Inr (h # hs))) = Inr hs"
    by (auto simp: err_simps)
  show ?case
  proof (cases point)
    case None
    then show ?thesis
      using Cons.IH[of previous hs] p(2) by auto
  next
    case (Some h)
    then obtain rest where rest: "range_points rt i range_start range_end (Some (hp_observed_at h)) rows = Inr rest" "hs = h # rest"
      using p(2) by (auto simp: err_simps)
    show ?thesis
      using Cons.IH[OF rest(1)] range_point_sound[OF p(1)[unfolded Some]] rest(2) by fastforce
  qed
qed simp

lemma strictly_later_sorted: "strictly_later hs \<Longrightarrow> sorted_wrt (<) (map hp_observed_at hs)"
proof (induction hs rule: strictly_later.induct)
  case (1 a b hs)
  then show ?case
    by (auto intro: order_less_trans)
qed simp_all

lemma servix_point_sound:
  "servix_point rt symbol quote_unit factor i range_start range_end raw = Inr (Some h) \<Longrightarrow> sound_point i range_start range_end h"
  by (auto simp: servix_point_def sound_point_def refuse_def err_simps Let_def split: if_splits)

lemma servix_history_sound:
  assumes "parse_servix_history rt symbol quote_unit factor payload i range_start range_end = Inr hs"
  shows "(\<forall>h\<in>set hs. sound_point i range_start range_end h) \<and> sorted_wrt (<) (map hp_observed_at hs)"
proof -
  obtain rows found where f: "emap (servix_point rt symbol quote_unit factor i range_start range_end) rows = Inr found"
      "hs = sort_key hp_observed_at (List.map_filter (\<lambda>x. x) found)" "strictly_later hs"
    using assms by (auto simp: parse_servix_history_def refuse_def err_simps Let_def)
  have "sound_point i range_start range_end h" if "h \<in> set hs" for h
  proof -
    have "Some h \<in> set found"
      using that f(2) by (auto simp: map_filter_def)
    then show ?thesis
      using emap_Inr_in[OF f(1)] servix_point_sound by blast
  qed
  then show ?thesis
    using strictly_later_sorted[OF f(3)] by blast
qed

lemma history_sound:
  assumes "parse_history_with rt p payload i range_start range_end = Inr hs"
  shows "(\<forall>h\<in>set hs. sound_point i range_start range_end h) \<and> sorted_wrt (<) (map hp_observed_at hs)"
proof (cases p)
  case (NobitexUdfHistory x)
  then show ?thesis
    using assms range_points_sound
    by (fastforce simp: parse_nobitex_history_def refuse_def err_simps split: if_splits)
next
  case (CoinGeckoHistory x)
  then show ?thesis
    using assms range_points_sound by (fastforce simp: parse_coingecko_history_def err_simps)
next
  case (ServixHistory x1 x2 x3)
  then show ?thesis
    using assms servix_history_sound by simp
qed

text \<open>The points of a parsed history are strictly ordered in time, lie in the range that was asked for, have prices
  the instrument accepts and volumes that are not negative.\<close>

theorem history_points_sound:
  assumes "parse_history rt parser_id payload i range_start range_end = Inr hs"
  shows "sorted_wrt (<) (map hp_observed_at hs)
    \<and> (\<forall>h\<in>set hs. range_start \<le> hp_observed_at h \<and> hp_observed_at h \<le> range_end \<and> accepts i (hp_price h)
         \<and> (\<forall>x. hp_volume h = Some x \<longrightarrow> 0 \<le> x))"
  using assms history_sound by (fastforce simp: parse_history_def sound_point_def split: option.splits)

definition example_history :: json where
  "example_history = JObj [(uni ''s'', JStr (uni ''ok'')), (uni ''t'', JList [JInt 10, JInt 20]),
     (uni ''c'', JList [JInt 50000, JInt 60000]), (uni ''v'', JList [JNull, JInt 3])]"

lemma example_history_parsed:
  "parse_history example_rt ''nobitex_udf_usdtirt_v1'' example_history example_dollar 0 15000000
     = Inr [\<lparr>hp_observed_at = 10000000, hp_price = 50000, hp_volume = None\<rparr>]"
  by (simp add: parse_history_def build_history_parser_def parse_nobitex_history_def example_history_def require_object_def
      require_list_def j_get_def refuse_def require_def j_int_def instant_of_seconds_def instant_in_range_def seconds_def
      range_point_def strict_decimal_def checked_decimal_def accepts_def example_dollar_def example_instrument_def
      volume_of_def no_volume_def)

theorem history_points_sound_witness:
  "\<exists>hs. parse_history example_rt ''nobitex_udf_usdtirt_v1'' example_history example_dollar 0 15000000 = Inr hs
     \<and> hs \<noteq> [] \<and> sorted_wrt (<) (map hp_observed_at hs)"
  using history_points_sound [OF example_history_parsed] example_history_parsed by auto

end
