(* ===== verification/Provider_Table.thy ===== *)
theory Provider_Table
  imports Parsers History_Parsers
begin

text \<open>
  The providers that are registered in \<open>apps/api/app/pricing/registry.py\<close>: \<open>_provider\<close>, \<open>_setting_url\<close> and the tuple
  \<open>_PROVIDERS\<close>, in groups in the order of the source. \<open>urllib.parse.urljoin\<close> is the parameter \<open>uj\<close>; \<open>env\<close> are the
  variables of the environment and \<open>st\<close> the settings of the application.
\<close>

section \<open>The constructor of an entry\<close>

text \<open>The keyword arguments of \<open>_provider\<close> and their defaults.\<close>

record provider_kwargs =
  k_api_key_setting :: "string option"
  k_api_key_header :: "string option"
  k_api_key_query_parameter :: "string option"
  k_headers :: "(string \<times> string) list"
  k_history_url :: "string option"
  k_history_parser_id :: "string option"
  k_history_requires_live_quote :: bool
  k_maximum_source_age_seconds :: "int option"
  k_anchor_live_window_at_receive_time :: bool
  k_source_semantic :: source_semantic
  k_source_family :: "string option"
  k_venue :: "string option"
  k_selected_price_semantic :: price_semantic
  k_route_id :: "string option"
  k_enabled_default :: bool
  k_maximum_payload_bytes :: int
  k_requires_https :: bool
  k_credential_placement :: string
  k_unit_source :: "string option"
  k_symbol_or_pair :: "string option"
  k_selected_price_semantic_contract :: "string option"
  k_independence_group :: "string option"
  k_required_settings :: "string list"

definition default_kwargs :: provider_kwargs where
  "default_kwargs =
     \<lparr>k_api_key_setting = None, k_api_key_header = None, k_api_key_query_parameter = None, k_headers = [],
      k_history_url = None, k_history_parser_id = None, k_history_requires_live_quote = True,
      k_maximum_source_age_seconds = None, k_anchor_live_window_at_receive_time = False,
      k_source_semantic = REFERENCE_RATE, k_source_family = None, k_venue = None,
      k_selected_price_semantic = SEL_REFERENCE, k_route_id = None, k_enabled_default = True,
      k_maximum_payload_bytes = 262144, k_requires_https = False, k_credential_placement = ''none'',
      k_unit_source = None, k_symbol_or_pair = None, k_selected_price_semantic_contract = None,
      k_independence_group = None, k_required_settings = []\<rparr>"

definition enabled_by :: "environ \<Rightarrow> string \<Rightarrow> bool \<Rightarrow> bool" where
  "enabled_by env provider_id dflt = bool_env env (''PRICING_PROVIDER_'' @ upper provider_id @ ''_ENABLED'') dflt"

text \<open>\<open>_provider\<close>; the tuple holds \<open>rpm\<close>, \<open>rph\<close>, \<open>rpd\<close> and \<open>interval\<close>.\<close>

definition provider_of ::
  "environ \<Rightarrow> string \<Rightarrow> string \<Rightarrow> string \<Rightarrow> provider_role \<Rightarrow> int \<Rightarrow> rat \<Rightarrow> string \<Rightarrow> string \<Rightarrow> string \<Rightarrow> int
   \<Rightarrow> int \<times> int \<times> int \<times> int \<Rightarrow> provider_kwargs \<Rightarrow> provider_definition" where
  "provider_of env provider_id display_name instrument_id role priority trust url parser_id parser_version ttl limits k =
     (case limits of (rpm, rph, rpd, interval) \<Rightarrow>
      \<lparr>p_provider_id = provider_id, p_display_name = display_name, p_instrument_id = instrument_id,
       p_role = role, p_priority = priority, p_trust_score = trust, p_url = url, p_parser_id = parser_id,
       p_parser_version = parser_version, p_operational_ttl_seconds = ttl,
       p_budget = budget_of env provider_id rpm rph rpd interval, p_method = ''GET'',
       p_enabled = enabled_by env provider_id (k_enabled_default k),
       p_api_key_setting = k_api_key_setting k, p_api_key_header = k_api_key_header k,
       p_api_key_query_parameter = k_api_key_query_parameter k, p_static_headers = k_headers k,
       p_maximum_payload_bytes = k_maximum_payload_bytes k, p_history_url = k_history_url k,
       p_history_parser_id = k_history_parser_id k,
       p_history_requires_live_quote = k_history_requires_live_quote k,
       p_maximum_source_age_seconds = k_maximum_source_age_seconds k,
       p_anchor_live_window_at_receive_time = k_anchor_live_window_at_receive_time k,
       p_source_semantic = k_source_semantic k,
       p_source_family = or_text (k_source_family k) provider_id,
       p_venue = or_text (k_venue k) (or_text (k_source_family k) provider_id),
       p_selected_price_semantic = k_selected_price_semantic k,
       p_route_id = or_text (k_route_id k) (provider_id @ ''_rest''),
       p_requires_https = k_requires_https k, p_credential_placement = k_credential_placement k,
       p_unit_source = k_unit_source k, p_symbol_or_pair = k_symbol_or_pair k,
       p_selected_price_semantic_contract = k_selected_price_semantic_contract k,
       p_independence_group = k_independence_group k, p_required_settings = k_required_settings k\<rparr>)"

section \<open>Urls and texts of the environment\<close>

definition setting_url :: "(string \<Rightarrow> string \<Rightarrow> string) \<Rightarrow> app_settings \<Rightarrow> string \<Rightarrow> string \<Rightarrow> string" where
  "setting_url uj st base_setting path =
     (let base = or_text (st base_setting) []; slash = (\<lambda>c. c = CHR ''/'') in
      if base = [] then [] else uj (rev (dropWhile slash (rev base)) @ ''/'') (dropWhile slash path))"

definition navasan_base :: "app_settings \<Rightarrow> string" where
  "navasan_base st =
     (if setting_present st ''navasan_https_proxy_base_url'' then ''navasan_https_proxy_base_url''
      else ''navasan_api_base_url'')"

definition env_text :: "environ \<Rightarrow> string \<Rightarrow> string \<Rightarrow> string" where
  "env_text env name dflt = (case env name of None \<Rightarrow> dflt | Some raw \<Rightarrow> raw)"

section \<open>The entries\<close>

definition wallgold_sources :: "(string \<Rightarrow> string \<Rightarrow> string) \<Rightarrow> environ \<Rightarrow> app_settings \<Rightarrow> provider_definition list" where
  "wallgold_sources uj env st =
     map (\<lambda>(asset, label, instrument, symbol).
       provider_of env (''wallgold_'' @ asset) (''Wallgold '' @ label) instrument PRIMARY 0 (88/100)
         (setting_url uj st ''wallgold_api_base_url'' ''/api/v1/markets'') (''wallgold_'' @ asset @ ''_v1'')
         ''wallgold-market/1.0.0'' 60 (2, 60, 1500, 60)
         (default_kwargs\<lparr>k_source_semantic := EXCHANGE_TRADE, k_source_family := Some ''wallex'',
           k_venue := Some ''wallgold'', k_selected_price_semantic := SEL_LAST, k_symbol_or_pair := Some symbol\<rparr>))
       [(''gold18'', ''18K Gold'', ''GOLD_18K_TOMAN_GRAM'', ''GLD_18C_750TMN''),
        (''silver925'', ''925 Silver'', ''SILVER_925_TOMAN_GRAM'', ''SLV_925TMN'')]"

definition bitpin_sources :: "(string \<Rightarrow> string \<Rightarrow> string) \<Rightarrow> environ \<Rightarrow> app_settings \<Rightarrow> provider_definition list" where
  "bitpin_sources uj env st =
     map (\<lambda>(asset, instrument, symbol).
       provider_of env (''bitpin_'' @ asset @ ''_toman'') (''Bitpin '' @ upper asset @ ''-Toman'') instrument FALLBACK 3 (90/100)
         (setting_url uj st ''bitpin_api_base_url'' ''/v4/mkt/prices/'') (''bitpin_'' @ asset @ ''_toman_v1'')
         ''bitpin-prices/1.0.0'' 20 (4, 180, 4400, 20)
         (default_kwargs\<lparr>k_maximum_payload_bytes := 1048576, k_maximum_source_age_seconds := Some 60,
           k_source_semantic := EXCHANGE_TRADE, k_source_family := Some ''bitpin'', k_venue := Some ''bitpin'',
           k_selected_price_semantic := SEL_LAST, k_symbol_or_pair := Some symbol\<rparr>))
       [(''btc'', ''BTC_TOMAN'', ''BTC_IRT''), (''usdt'', ''USDT_TOMAN'', ''USDT_IRT'')]"

definition nobitex_headers :: "(string \<times> string) list" where
  "nobitex_headers = [(''User-Agent'', ''Nerkhbaan-Pricing/2'')]"

definition metal_sources :: "(string \<Rightarrow> string \<Rightarrow> string) \<Rightarrow> environ \<Rightarrow> app_settings \<Rightarrow> provider_definition list" where
  "metal_sources uj env st =
    [provider_of env ''alanchand_gold18'' ''Alanchand Gold 18K'' ''GOLD_18K_TOMAN_GRAM'' PRIMARY 1 (80/100)
       (setting_url uj st ''alanchand_api_base_url'' ''/v1/markets/gold'') ''alanchand_gold18_v1'' ''alanchand-gold18/1.0.0'' 7200
       (2, 20, 200, 7200)
       (default_kwargs\<lparr>k_api_key_setting := Some ''alanchand_api_token'', k_api_key_header := Some ''Authorization'',
         k_source_semantic := PHYSICAL_MARKET_QUOTE, k_source_family := Some ''alanchand'',
         k_venue := Some ''alanchand'', k_selected_price_semantic := SEL_PROVIDER_SELECTED\<rparr>),
     provider_of env ''goldapi_xau'' ''GoldAPI XAU'' ''XAU_USD_OZ'' PRIMARY 1 (94/100)
       (setting_url uj st ''goldapi_api_base_url'' ''/XAU/USD'') ''goldapi_xau_v1'' ''goldapi/1.0.0'' 7200
       (2, 20, 200, 7200)
       (default_kwargs\<lparr>k_api_key_setting := Some ''goldapi_api_key'', k_api_key_header := Some ''x-access-token'',
         k_source_semantic := REFERENCE_RATE, k_source_family := Some ''goldapi'', k_venue := Some ''goldapi'',
         k_selected_price_semantic := SEL_REFERENCE\<rparr>),
     provider_of env ''gold_api_free_xau'' ''Gold API Free XAU'' ''XAU_USD_OZ'' FALLBACK 2 (80/100)
       (setting_url uj st ''gold_api_base_url'' ''/price/XAU'') ''gold_api_free_xau_v1'' ''gold-api-free/1.0.0'' 3600
       (2, 30, 300, 3600)
       (default_kwargs\<lparr>k_source_semantic := REFERENCE_RATE, k_source_family := Some ''gold_api_free'',
         k_venue := Some ''gold_api_free'', k_selected_price_semantic := SEL_REFERENCE\<rparr>),
     provider_of env ''metals_dev_gold'' ''Metals.dev Gold'' ''XAU_USD_OZ'' FALLBACK 3 (90/100)
       (setting_url uj st ''metals_dev_api_base_url'' ''/latest?currency=USD&unit=toz'') ''metals_dev_gold_v1'' ''metals-dev/1.0.0'' 7200
       (2, 20, 200, 7200)
       (default_kwargs\<lparr>k_api_key_setting := Some ''metals_dev_api_key'', k_api_key_query_parameter := Some ''api_key'',
         k_source_semantic := REFERENCE_RATE, k_source_family := Some ''metals_dev'',
         k_venue := Some ''metals_dev'', k_selected_price_semantic := SEL_REFERENCE\<rparr>),
     provider_of env ''goldapi_xag'' ''GoldAPI XAG'' ''XAG_USD_OZ'' PRIMARY 1 (94/100)
       (setting_url uj st ''goldapi_api_base_url'' ''/XAG/USD'') ''goldapi_xag_v1'' ''goldapi/1.0.0'' 7200
       (2, 20, 200, 7200)
       (default_kwargs\<lparr>k_api_key_setting := Some ''goldapi_api_key'', k_api_key_header := Some ''x-access-token'',
         k_source_semantic := REFERENCE_RATE, k_source_family := Some ''goldapi'', k_venue := Some ''goldapi'',
         k_selected_price_semantic := SEL_REFERENCE\<rparr>),
     provider_of env ''gold_api_free_xag'' ''Gold API Free XAG'' ''XAG_USD_OZ'' FALLBACK 2 (80/100)
       (setting_url uj st ''gold_api_base_url'' ''/price/XAG'') ''gold_api_free_xag_v1'' ''gold-api-free/1.0.0'' 3600
       (2, 30, 300, 3600)
       (default_kwargs\<lparr>k_source_semantic := REFERENCE_RATE, k_source_family := Some ''gold_api_free'',
         k_venue := Some ''gold_api_free'', k_selected_price_semantic := SEL_REFERENCE\<rparr>),
     provider_of env ''xaus_xag'' ''XAUS Silver'' ''XAG_USD_OZ'' FALLBACK 3 (78/100)
       ''https://xaus.com/api/v1/spot?compact=1'' ''xaus_xag_v1'' ''xaus/1.0.0'' 3600
       (2, 30, 300, 3600)
       (default_kwargs\<lparr>k_source_semantic := REFERENCE_RATE, k_source_family := Some ''xaus'', k_venue := Some ''xaus'',
         k_selected_price_semantic := SEL_REFERENCE, k_enabled_default := False\<rparr>),
     provider_of env ''metals_dev_silver'' ''Metals.dev Silver'' ''XAG_USD_OZ'' FALLBACK 4 (90/100)
       (setting_url uj st ''metals_dev_api_base_url'' ''/latest?currency=USD&unit=toz'') ''metals_dev_silver_v1'' ''metals-dev/1.0.0'' 7200
       (2, 20, 200, 7200)
       (default_kwargs\<lparr>k_api_key_setting := Some ''metals_dev_api_key'', k_api_key_query_parameter := Some ''api_key'',
         k_source_semantic := REFERENCE_RATE, k_source_family := Some ''metals_dev'',
         k_venue := Some ''metals_dev'', k_selected_price_semantic := SEL_REFERENCE\<rparr>)]"

definition usdt_sources :: "(string \<Rightarrow> string \<Rightarrow> string) \<Rightarrow> environ \<Rightarrow> app_settings \<Rightarrow> provider_definition list" where
  "usdt_sources uj env st =
    [provider_of env ''nobitex_stats_usdt'' ''Nobitex USDT Stats'' ''USDT_TOMAN'' PRIMARY 1 (93/100)
       (setting_url uj st ''nobitex_api_base_url'' ''/market/stats'') ''nobitex_stats_usdt_rls_v1'' ''nobitex-stats/1.0.0'' 20
       (12, 360, 5000, 20)
       (default_kwargs\<lparr>k_headers := nobitex_headers,
         k_history_url := Some (setting_url uj st ''nobitex_api_base_url'' ''/market/udf/history''),
         k_history_parser_id := Some ''nobitex_udf_usdtirt_v1'', k_source_semantic := EXCHANGE_TRADE,
         k_source_family := Some ''nobitex'', k_venue := Some ''nobitex'', k_selected_price_semantic := SEL_LAST\<rparr>),
     provider_of env ''nobitex_orderbook_usdt'' ''Nobitex USDT Order Book'' ''USDT_TOMAN'' VERIFIER 2 (91/100)
       (setting_url uj st ''nobitex_api_base_url'' ''/v3/orderbook/all'') ''nobitex_orderbook_usdtirt_v1'' ''nobitex-orderbook/1.0.1'' 20
       (12, 360, 5000, 20)
       (default_kwargs\<lparr>k_maximum_payload_bytes := 1048576, k_headers := nobitex_headers,
         k_source_semantic := EXCHANGE_ORDERBOOK, k_source_family := Some ''nobitex'',
         k_venue := Some ''nobitex'', k_selected_price_semantic := SEL_MIDPOINT\<rparr>),
     provider_of env ''tetherland_usdt'' ''Tetherland USDT'' ''USDT_TOMAN'' FALLBACK 3 (84/100)
       (setting_url uj st ''tetherland_api_base_url'' ''/currencies'') ''tetherland_usdt_v1'' ''tetherland-currency/1.0.0'' 60
       (6, 120, 1500, 60)
       (default_kwargs\<lparr>k_source_semantic := AGGREGATOR, k_source_family := Some ''tetherland'', k_venue := Some ''tetherland'',
         k_selected_price_semantic := SEL_PROVIDER_SELECTED\<rparr>),
     provider_of env ''coinbase_usdt_usd'' ''Coinbase USDT-USD'' ''USDT_USD'' PRIMARY 1 (93/100)
       (setting_url uj st ''coinbase_api_base_url'' ''/products/USDT-USD/ticker'') ''coinbase_usdt_usd_v1'' ''coinbase-ticker/1.0.0'' 30
       (12, 360, 4000, 30)
       (default_kwargs\<lparr>k_source_semantic := EXCHANGE_TRADE, k_source_family := Some ''coinbase'', k_venue := Some ''coinbase'',
         k_selected_price_semantic := SEL_LAST\<rparr>),
     provider_of env ''coingecko_usdt'' ''CoinGecko Tether'' ''USDT_USD'' FALLBACK 2 (82/100)
       (setting_url uj st ''coingecko_api_base_url'' ''/simple/price?ids=tether&vs_currencies=usd&include_last_updated_at=true'') ''coingecko_tether_usd_v1'' ''coingecko-simple-price/1.0.0'' 120
       (10, 200, 2000, 60)
       (default_kwargs\<lparr>k_history_url := Some (setting_url uj st ''coingecko_api_base_url'' ''/coins/tether/market_chart''),
         k_history_parser_id := Some ''coingecko_tether_usd_history_v1'', k_source_semantic := AGGREGATOR,
         k_source_family := Some ''coingecko'', k_venue := Some ''opaque_aggregator'',
         k_selected_price_semantic := SEL_REFERENCE\<rparr>),
     provider_of env ''coincap_usdt'' ''CoinCap Tether'' ''USDT_USD'' FALLBACK 99 (50/100)
       (setting_url uj st ''coincap_api_base_url'' ''/assets/tether'') ''coincap_tether_v1'' ''coincap/1.0.0'' 60
       (10, 300, 3000, 60)
       (default_kwargs\<lparr>k_enabled_default := False, k_source_semantic := AGGREGATOR, k_source_family := Some ''coincap'',
         k_venue := Some ''coincap'', k_selected_price_semantic := SEL_LAST\<rparr>)]"

definition btc_sources :: "(string \<Rightarrow> string \<Rightarrow> string) \<Rightarrow> environ \<Rightarrow> app_settings \<Rightarrow> provider_definition list" where
  "btc_sources uj env st =
    [provider_of env ''nobitex_stats_btc'' ''Nobitex BTC Stats'' ''BTC_TOMAN'' PRIMARY 1 (93/100)
       (setting_url uj st ''nobitex_api_base_url'' ''/market/stats'') ''nobitex_stats_btc_rls_v1'' ''nobitex-stats/1.0.0'' 20
       (12, 360, 5000, 20)
       (default_kwargs\<lparr>k_headers := nobitex_headers,
         k_history_url := Some (setting_url uj st ''nobitex_api_base_url'' ''/market/udf/history''),
         k_history_parser_id := Some ''nobitex_udf_btcirt_v1'', k_source_semantic := EXCHANGE_TRADE,
         k_source_family := Some ''nobitex'', k_venue := Some ''nobitex'', k_selected_price_semantic := SEL_LAST\<rparr>),
     provider_of env ''nobitex_orderbook_btc'' ''Nobitex BTC Order Book'' ''BTC_TOMAN'' VERIFIER 2 (91/100)
       (setting_url uj st ''nobitex_api_base_url'' ''/v3/orderbook/all'') ''nobitex_orderbook_btcirt_v1'' ''nobitex-orderbook/1.0.1'' 20
       (12, 360, 5000, 20)
       (default_kwargs\<lparr>k_maximum_payload_bytes := 1048576, k_headers := nobitex_headers,
         k_source_semantic := EXCHANGE_ORDERBOOK, k_source_family := Some ''nobitex'',
         k_venue := Some ''nobitex'', k_selected_price_semantic := SEL_MIDPOINT\<rparr>),
     provider_of env ''tetherland_btc'' ''Tetherland BTC'' ''BTC_TOMAN'' FALLBACK 3 (84/100)
       (setting_url uj st ''tetherland_api_base_url'' ''/currencies'') ''tetherland_btc_v1'' ''tetherland-currency/1.0.0'' 60
       (6, 120, 1500, 60)
       (default_kwargs\<lparr>k_enabled_default := False, k_source_semantic := AGGREGATOR, k_source_family := Some ''tetherland'',
         k_venue := Some ''tetherland'', k_selected_price_semantic := SEL_PROVIDER_SELECTED\<rparr>),
     provider_of env ''coinbase_btc_usd'' ''Coinbase BTC-USD'' ''BTC_USD'' PRIMARY 1 (94/100)
       (setting_url uj st ''coinbase_api_base_url'' ''/products/BTC-USD/ticker'') ''coinbase_btc_usd_v1'' ''coinbase-ticker/1.0.0'' 30
       (12, 360, 4000, 30)
       (default_kwargs\<lparr>k_source_semantic := EXCHANGE_TRADE, k_source_family := Some ''coinbase'', k_venue := Some ''coinbase'',
         k_selected_price_semantic := SEL_LAST\<rparr>),
     provider_of env ''coingecko_btc'' ''CoinGecko Bitcoin'' ''BTC_USD'' FALLBACK 2 (82/100)
       (setting_url uj st ''coingecko_api_base_url'' ''/simple/price?ids=bitcoin&vs_currencies=usd&include_last_updated_at=true'') ''coingecko_bitcoin_usd_v1'' ''coingecko-simple-price/1.0.0'' 120
       (10, 200, 2000, 60)
       (default_kwargs\<lparr>k_history_url := Some (setting_url uj st ''coingecko_api_base_url'' ''/coins/bitcoin/market_chart''),
         k_history_parser_id := Some ''coingecko_bitcoin_usd_history_v1'', k_source_semantic := AGGREGATOR,
         k_source_family := Some ''coingecko'', k_venue := Some ''opaque_aggregator'',
         k_selected_price_semantic := SEL_REFERENCE\<rparr>),
     provider_of env ''persian_toolbox_btc'' ''PersianToolbox Bitcoin'' ''BTC_USD'' FALLBACK 3 (68/100)
       (setting_url uj st ''persian_toolbox_api_base_url'' ''/api/market'') ''persian_toolbox_btc_usd_v1'' ''persian-toolbox-market/1.0.0'' 600
       (2, 20, 288, 300)
       (default_kwargs\<lparr>k_maximum_source_age_seconds := Some 300, k_anchor_live_window_at_receive_time := True,
         k_source_semantic := AGGREGATOR, k_source_family := Some ''persian_toolbox'',
         k_venue := Some ''opaque_aggregator'', k_selected_price_semantic := SEL_REFERENCE,
         k_symbol_or_pair := Some ''BTC/USD''\<rparr>),
     provider_of env ''persian_toolbox_gold24'' ''PersianToolbox Gold Reference'' ''GOLD_24K_TOMAN_GRAM'' FALLBACK 20 (68/100)
       (setting_url uj st ''persian_toolbox_api_base_url'' ''/api/market'') ''persian_toolbox_gold24_toman_v1'' ''persian-toolbox-market/1.0.0'' 600
       (2, 20, 288, 300)
       (default_kwargs\<lparr>k_maximum_source_age_seconds := Some 300, k_anchor_live_window_at_receive_time := True,
         k_source_semantic := REFERENCE_RATE, k_source_family := Some ''persian_toolbox'',
         k_venue := Some ''opaque_aggregator'', k_selected_price_semantic := SEL_REFERENCE,
         k_symbol_or_pair := Some ''GOLD/IRR/GRAM'', k_enabled_default := False\<rparr>),
     provider_of env ''coincap_btc'' ''CoinCap Bitcoin'' ''BTC_USD'' FALLBACK 99 (50/100)
       (setting_url uj st ''coincap_api_base_url'' ''/assets/bitcoin'') ''coincap_bitcoin_v1'' ''coincap/1.0.0'' 30
       (12, 360, 4000, 30)
       (default_kwargs\<lparr>k_enabled_default := False, k_source_semantic := AGGREGATOR, k_source_family := Some ''coincap'',
         k_venue := Some ''coincap'', k_selected_price_semantic := SEL_LAST\<rparr>)]"

definition wallex_and_tala_sources :: "(string \<Rightarrow> string \<Rightarrow> string) \<Rightarrow> environ \<Rightarrow> app_settings \<Rightarrow> provider_definition list" where
  "wallex_and_tala_sources uj env st =
    [provider_of env ''wallex_usdt_toman'' ''Wallex USDT-Toman'' ''USDT_TOMAN'' FALLBACK 4 (90/100)
       (setting_url uj st ''wallex_api_base_url'' ''/v1/markets'') ''wallex_usdt_toman_v1'' ''wallex-market/1.0.0'' 20
       (12, 360, 5000, 20)
       (default_kwargs\<lparr>k_maximum_payload_bytes := 1048576, k_enabled_default := True, k_source_semantic := EXCHANGE_TRADE,
         k_source_family := Some ''wallex'', k_venue := Some ''wallex'', k_selected_price_semantic := SEL_LAST,
         k_symbol_or_pair := Some ''USDTTMN''\<rparr>),
     provider_of env ''wallex_btc_toman'' ''Wallex BTC-Toman'' ''BTC_TOMAN'' FALLBACK 4 (90/100)
       (setting_url uj st ''wallex_api_base_url'' ''/v1/markets'') ''wallex_btc_toman_v1'' ''wallex-market/1.0.0'' 20
       (12, 360, 5000, 20)
       (default_kwargs\<lparr>k_maximum_payload_bytes := 1048576, k_enabled_default := True, k_source_semantic := EXCHANGE_TRADE,
         k_source_family := Some ''wallex'', k_venue := Some ''wallex'', k_selected_price_semantic := SEL_LAST,
         k_symbol_or_pair := Some ''BTCTMN''\<rparr>),
     provider_of env ''tala_gold24_toman'' ''TALA 24K Gold'' ''GOLD_24K_TOMAN_GRAM'' PRIMARY 1 (78/100)
       (setting_url uj st ''tala_api_base_url'' ''/v1/rates'') ''tala_gold24_toman_v1'' ''tala-rates/1.0.0'' 60
       (4, 80, 1000, 60)
       (default_kwargs\<lparr>k_api_key_setting := Some ''tala_api_key'', k_api_key_header := Some ''x-api-key'',
         k_enabled_default := False, k_source_semantic := AGGREGATOR, k_source_family := Some ''tala'',
         k_venue := Some ''opaque_aggregator'', k_selected_price_semantic := SEL_REFERENCE,
         k_credential_placement := ''header'',
         k_symbol_or_pair := Some (env_text env ''TALA_GOLD24_TOMAN_KEY'' ''geram24k''),
         k_required_settings := [''tala_gold24_toman_key'']\<rparr>),
     provider_of env ''tala_silver999_toman'' ''TALA 999 Silver'' ''SILVER_999_TOMAN_GRAM'' PRIMARY 1 (78/100)
       (setting_url uj st ''tala_api_base_url'' ''/v1/rates'') ''tala_silver999_toman_v1'' ''tala-rates/1.0.0'' 120
       (4, 80, 1000, 120)
       (default_kwargs\<lparr>k_api_key_setting := Some ''tala_api_key'', k_api_key_header := Some ''x-api-key'',
         k_enabled_default := False, k_source_semantic := AGGREGATOR, k_source_family := Some ''tala'',
         k_venue := Some ''opaque_aggregator'', k_selected_price_semantic := SEL_REFERENCE,
         k_credential_placement := ''header'',
         k_symbol_or_pair := Some (env_text env ''TALA_SILVER999_TOMAN_KEY'' []),
         k_required_settings := [''tala_silver999_toman_key'']\<rparr>),
     provider_of env ''tala_gold18_toman'' ''TALA 18K Gold'' ''GOLD_18K_TOMAN_GRAM'' VERIFIER 10 (78/100)
       (setting_url uj st ''tala_api_base_url'' ''/v1/rates'') ''tala_gold18_toman_v1'' ''tala-rates/1.0.0'' 60
       (4, 80, 1000, 60)
       (default_kwargs\<lparr>k_api_key_setting := Some ''tala_api_key'', k_api_key_header := Some ''x-api-key'',
         k_enabled_default := False, k_source_semantic := AGGREGATOR, k_source_family := Some ''tala'',
         k_venue := Some ''opaque_aggregator'', k_selected_price_semantic := SEL_REFERENCE,
         k_credential_placement := ''header'',
         k_symbol_or_pair := Some (env_text env ''TALA_GOLD18_TOMAN_KEY'' ''geram18k''),
         k_required_settings := [''tala_gold18_toman_key'']\<rparr>),
     provider_of env ''tala_usdt_toman'' ''TALA USDT-Toman'' ''USDT_TOMAN'' FALLBACK 10 (78/100)
       (setting_url uj st ''tala_api_base_url'' ''/v1/rates'') ''tala_usdt_toman_v1'' ''tala-rates/1.0.0'' 60
       (4, 80, 1000, 60)
       (default_kwargs\<lparr>k_api_key_setting := Some ''tala_api_key'', k_api_key_header := Some ''x-api-key'',
         k_enabled_default := False, k_source_semantic := AGGREGATOR, k_source_family := Some ''tala'',
         k_venue := Some ''opaque_aggregator'', k_selected_price_semantic := SEL_REFERENCE,
         k_credential_placement := ''header'',
         k_symbol_or_pair := Some (env_text env ''TALA_USDT_TOMAN_KEY'' ''usdt_irt''),
         k_required_settings := [''tala_usdt_toman_key'']\<rparr>)]"

definition reference_sources :: "(string \<Rightarrow> string \<Rightarrow> string) \<Rightarrow> environ \<Rightarrow> app_settings \<Rightarrow> provider_definition list" where
  "reference_sources uj env st =
    [provider_of env ''navasan_usd_toman'' ''Navasan Free-Market USD'' ''USD_TOMAN'' PRIMARY 1 (72/100)
       (setting_url uj st (navasan_base st) ''/latest/'') ''navasan_usd_v1'' ''navasan-latest/1.0.0'' 300
       (2, 60, 500, 300)
       (default_kwargs\<lparr>k_api_key_setting := Some ''navasan_api_key'', k_api_key_query_parameter := Some ''api_key'',
         k_enabled_default := False, k_source_semantic := AGGREGATOR, k_source_family := Some ''navasan'',
         k_venue := Some ''opaque_aggregator'', k_selected_price_semantic := SEL_REFERENCE,
         k_requires_https := True, k_credential_placement := ''query'',
         k_symbol_or_pair := Some (env_text env ''NAVASAN_USD_ITEM'' ''usd_sell'')\<rparr>),
     provider_of env ''servix_usd_toman'' ''Servix Free-Market USD'' ''USD_TOMAN'' FALLBACK 10 (70/100)
       (setting_url uj st ''servix_api_base_url'' ''/api/v1/assets'') ''servix_usd_rls_v1'' ''servix-assets/1.0.0'' 300
       (2, 2, 16, 5400)
       (default_kwargs\<lparr>k_api_key_setting := Some ''servix_api_key'', k_api_key_header := Some ''X-API-Key'',
         k_history_url := Some (setting_url uj st ''servix_api_base_url'' ''/api/v1/assets/USD_RLS/history''),
         k_history_parser_id := Some ''servix_usd_rls_history_v1'', k_history_requires_live_quote := False,
         k_enabled_default := False, k_source_semantic := AGGREGATOR, k_source_family := Some ''servix'',
         k_venue := Some ''opaque_aggregator'', k_selected_price_semantic := SEL_REFERENCE,
         k_credential_placement := ''header'', k_symbol_or_pair := Some ''USD_RLS''\<rparr>),
     provider_of env ''persian_toolbox_usd_toman'' ''PersianToolbox USD Reference'' ''USD_TOMAN'' FALLBACK 20 (50/100)
       (setting_url uj st ''persian_toolbox_api_base_url'' ''/api/market'') ''persian_toolbox_usd_toman_v1'' ''persian-toolbox-market/1.0.0'' 600
       (2, 20, 288, 300)
       (default_kwargs\<lparr>k_enabled_default := False, k_source_semantic := REFERENCE_RATE,
         k_source_family := Some ''persian_toolbox'', k_venue := Some ''opaque_aggregator'',
         k_selected_price_semantic := SEL_REFERENCE, k_symbol_or_pair := Some ''USD/IRR''\<rparr>),
     provider_of env ''navasan_usdt'' ''Navasan USDT'' ''USDT_TOMAN'' FALLBACK 20 (72/100)
       (setting_url uj st (navasan_base st) ''/latest/'') ''navasan_usdt_v1'' ''navasan-latest/1.0.0'' 120
       (2, 60, 500, 120)
       (default_kwargs\<lparr>k_api_key_setting := Some ''navasan_api_key'', k_api_key_query_parameter := Some ''api_key'',
         k_enabled_default := False, k_source_semantic := AGGREGATOR, k_source_family := Some ''navasan'',
         k_venue := Some ''opaque_aggregator'', k_selected_price_semantic := SEL_REFERENCE,
         k_requires_https := True, k_credential_placement := ''query'',
         k_symbol_or_pair := Some (env_text env ''NAVASAN_USDT_ITEM'' ''usdt'')\<rparr>),
     provider_of env ''nerkh_io_gold24'' ''Nerkh.io Gold 24K'' ''GOLD_24K_TOMAN_GRAM'' FALLBACK 30 (74/100)
       (setting_url uj st ''nerkh_io_api_base_url'' ''/v2/prices/json/lite/gold'') ''nerkh_io_gold24_v1'' ''nerkh-io-lite/1.0.0'' 120
       (4, 80, 1000, 120)
       (default_kwargs\<lparr>k_api_key_setting := Some ''nerkh_io_bearer_token'', k_api_key_header := Some ''Authorization'',
         k_enabled_default := False, k_source_semantic := AGGREGATOR, k_source_family := Some ''nerkh_io'',
         k_venue := Some ''opaque_aggregator'', k_selected_price_semantic := SEL_REFERENCE,
         k_credential_placement := ''header'', k_unit_source := Some ''nerkh_io_gold_unit'',
         k_symbol_or_pair := Some (env_text env ''NERKH_IO_GOLD24_SYMBOL'' ''GOLD24K'')\<rparr>),
     provider_of env ''servix_btc_usd'' ''Servix BTC-USD'' ''BTC_USD'' FALLBACK 30 (74/100)
       (setting_url uj st ''servix_api_base_url'' ''/api/v1/assets'') ''servix_btc_usd_v1'' ''servix-assets/1.0.0'' 120
       (2, 2, 16, 5400)
       (default_kwargs\<lparr>k_api_key_setting := Some ''servix_api_key'', k_api_key_header := Some ''X-API-Key'',
         k_history_url := Some (setting_url uj st ''servix_api_base_url'' ''/api/v1/assets/BTC_USD/history''),
         k_history_parser_id := Some ''servix_btc_usd_history_v1'', k_history_requires_live_quote := False,
         k_enabled_default := False, k_source_semantic := AGGREGATOR, k_source_family := Some ''servix'',
         k_venue := Some ''opaque_aggregator'', k_selected_price_semantic := SEL_REFERENCE,
         k_credential_placement := ''header'', k_symbol_or_pair := Some ''BTC_USD''\<rparr>),
     provider_of env ''servix_usdt_usd'' ''Servix USDT-USD'' ''USDT_USD'' FALLBACK 30 (74/100)
       (setting_url uj st ''servix_api_base_url'' ''/api/v1/assets'') ''servix_usdt_usd_v1'' ''servix-assets/1.0.0'' 120
       (2, 2, 16, 5400)
       (default_kwargs\<lparr>k_api_key_setting := Some ''servix_api_key'', k_api_key_header := Some ''X-API-Key'',
         k_history_url := Some (setting_url uj st ''servix_api_base_url'' ''/api/v1/assets/USDT_USD/history''),
         k_history_parser_id := Some ''servix_usdt_usd_history_v1'', k_history_requires_live_quote := False,
         k_enabled_default := False, k_source_semantic := AGGREGATOR, k_source_family := Some ''servix'',
         k_venue := Some ''opaque_aggregator'', k_selected_price_semantic := SEL_REFERENCE,
         k_credential_placement := ''header'', k_symbol_or_pair := Some ''USDT_USD''\<rparr>)]"

definition registered_providers :: "(string \<Rightarrow> string \<Rightarrow> string) \<Rightarrow> environ \<Rightarrow> app_settings \<Rightarrow> provider_definition list" where
  "registered_providers uj env st =
     wallgold_sources uj env st @ bitpin_sources uj env st @ metal_sources uj env st @ usdt_sources uj env st
     @ btc_sources uj env st @ wallex_and_tala_sources uj env st @ reference_sources uj env st"

lemmas source_defs = wallgold_sources_def bitpin_sources_def metal_sources_def usdt_sources_def btc_sources_def
  wallex_and_tala_sources_def reference_sources_def

section \<open>Well-formed entries\<close>

text \<open>The parser is one that serves the instrument: those that name an instrument or a market name the right one.\<close>

fun parser_serves :: "parser \<Rightarrow> string \<Rightarrow> bool" where
  "parser_serves (BitpinPrices symbol) iid =
     ((symbol, iid) \<in> {(''BTC_IRT'', ''BTC_TOMAN''), (''USDT_IRT'', ''USDT_TOMAN'')})"
| "parser_serves (WallgoldMarket symbol) iid =
     ((symbol, iid) \<in> {(''GLD_18C_750TMN'', ''GOLD_18K_TOMAN_GRAM''), (''SLV_925TMN'', ''SILVER_925_TOMAN_GRAM'')})"
| "parser_serves (NobitexOrderBook symbol) iid =
     ((symbol, iid) \<in> {(''BTCIRT'', ''BTC_TOMAN''), (''USDTIRT'', ''USDT_TOMAN'')})"
| "parser_serves (PersianToolboxMarket asset) iid = (asset = iid)"
| "parser_serves _ iid = True"

definition budget_ok :: "provider_budget_policy \<Rightarrow> bool" where
  "budget_ok b \<longleftrightarrow> 1 \<le> b_requests_per_minute b \<and> 1 \<le> b_requests_per_hour b \<and> 1 \<le> b_requests_per_day b
     \<and> 1 \<le> b_minimum_interval_seconds b \<and> 1 \<le> b_cooldown_after_429_seconds b
     \<and> 0 \<le> b_reserved_anomaly_requests b \<and> 0 \<le> b_reserved_fallback_requests b
     \<and> b_reserved_anomaly_requests b + b_reserved_fallback_requests b < b_requests_per_day b"

definition history_ok :: "provider_definition \<Rightarrow> bool" where
  "history_ok p \<longleftrightarrow>
     (case p_history_parser_id p of
        None \<Rightarrow> p_history_url p = None
      | Some h \<Rightarrow> p_history_url p \<noteq> None \<and> build_history_parser h \<noteq> None)"

definition entry_ok :: "app_settings \<Rightarrow> provider_definition \<Rightarrow> bool" where
  "entry_ok st p \<longleftrightarrow>
     p_instrument_id p \<in> set (map i_instrument_id default_instruments)
     \<and> (case build_parser st (p_parser_id p) of None \<Rightarrow> False | Some q \<Rightarrow> parser_serves q (p_instrument_id p))
     \<and> history_ok p \<and> budget_ok (p_budget p)
     \<and> 0 < p_trust_score p \<and> p_trust_score p \<le> 1 \<and> 0 < p_operational_ttl_seconds p"

lemma budget_of_ok: "1 \<le> rpm \<Longrightarrow> 1 \<le> rph \<Longrightarrow> 1 \<le> rpd \<Longrightarrow> 1 \<le> interval \<Longrightarrow> budget_ok (budget_of env pid rpm rph rpd interval)"
  using budget_reserves_bounded[of rpm rph rpd interval env pid] by (simp add: budget_ok_def Let_def)

lemma provider_of_fields [simp]:
  "p_provider_id (provider_of env pid name iid role prio trust url parser version ttl limits k) = pid"
  "p_instrument_id (provider_of env pid name iid role prio trust url parser version ttl limits k) = iid"
  "p_parser_id (provider_of env pid name iid role prio trust url parser version ttl limits k) = parser"
  "p_history_url (provider_of env pid name iid role prio trust url parser version ttl limits k) = k_history_url k"
  "p_history_parser_id (provider_of env pid name iid role prio trust url parser version ttl limits k) = k_history_parser_id k"
  "p_trust_score (provider_of env pid name iid role prio trust url parser version ttl limits k) = trust"
  "p_operational_ttl_seconds (provider_of env pid name iid role prio trust url parser version ttl limits k) = ttl"
  "p_required_settings (provider_of env pid name iid role prio trust url parser version ttl limits k) = k_required_settings k"
  "p_unit_source (provider_of env pid name iid role prio trust url parser version ttl limits k) = k_unit_source k"
  "p_api_key_setting (provider_of env pid name iid role prio trust url parser version ttl limits k) = k_api_key_setting k"
  "p_enabled (provider_of env pid name iid role prio trust url parser version ttl limits k)
     = enabled_by env pid (k_enabled_default k)"
  by (simp_all add: provider_of_def split: prod.splits)

lemma provider_of_budget [simp]:
  "p_budget (provider_of env pid name iid role prio trust url parser version ttl (rpm, rph, rpd, interval) k)
     = budget_of env pid rpm rph rpd interval"
  by (simp add: provider_of_def)

text \<open>The entries of the tables of parsers, found one by one.\<close>

lemma map_of_hit: "map_of ((a, v) # ps) a = Some v"
  by simp

lemma map_of_skip: "k \<noteq> a \<Longrightarrow> map_of ps k = x \<Longrightarrow> map_of ((a, v) # ps) k = x"
  by simp

lemma parser_table:
  "build_parser st ''bitpin_usdt_toman_v1'' = Some (BitpinPrices ''USDT_IRT'')"
  "build_parser st ''bitpin_btc_toman_v1'' = Some (BitpinPrices ''BTC_IRT'')"
  "build_parser st ''wallgold_silver925_v1'' = Some (WallgoldMarket ''SLV_925TMN'')"
  "build_parser st ''wallgold_gold18_v1'' = Some (WallgoldMarket ''GLD_18C_750TMN'')"
  "build_parser st ''alanchand_gold18_v1'' = Some (AlanchandGold18)"
  "build_parser st ''goldapi_xau_v1'' = Some (GoldApi ''XAU'')"
  "build_parser st ''gold_api_free_xau_v1'' = Some (GoldApiFree ''XAU'')"
  "build_parser st ''metals_dev_gold_v1'' = Some (MetalsDev ''gold'')"
  "build_parser st ''goldapi_xag_v1'' = Some (GoldApi ''XAG'')"
  "build_parser st ''gold_api_free_xag_v1'' = Some (GoldApiFree ''XAG'')"
  "build_parser st ''xaus_xag_v1'' = Some (XausSilver)"
  "build_parser st ''metals_dev_silver_v1'' = Some (MetalsDev ''silver'')"
  "build_parser st ''nobitex_stats_usdt_rls_v1'' = Some (NobitexStats ''usdt-rls'' True)"
  "build_parser st ''nobitex_orderbook_usdtirt_v1'' = Some (NobitexOrderBook ''USDTIRT'')"
  "build_parser st ''tetherland_usdt_v1'' = Some (Tetherland ''USDT'')"
  "build_parser st ''coinbase_usdt_usd_v1'' = Some (CoinbaseTicker ''USDT-USD'')"
  "build_parser st ''coingecko_tether_usd_v1'' = Some (CoinGeckoSimplePrice ''tether'')"
  "build_parser st ''coincap_tether_v1'' = Some (CoinCap ''tether'' ''USDT'')"
  "build_parser st ''nobitex_stats_btc_rls_v1'' = Some (NobitexStats ''btc-rls'' True)"
  "build_parser st ''nobitex_orderbook_btcirt_v1'' = Some (NobitexOrderBook ''BTCIRT'')"
  "build_parser st ''tetherland_btc_v1'' = Some (Tetherland ''BTC'')"
  "build_parser st ''coinbase_btc_usd_v1'' = Some (CoinbaseTicker ''BTC-USD'')"
  "build_parser st ''coingecko_bitcoin_usd_v1'' = Some (CoinGeckoSimplePrice ''bitcoin'')"
  "build_parser st ''persian_toolbox_btc_usd_v1'' = Some (PersianToolboxMarket ''BTC_USD'')"
  "build_parser st ''persian_toolbox_gold24_toman_v1'' = Some (PersianToolboxMarket ''GOLD_24K_TOMAN_GRAM'')"
  "build_parser st ''coincap_bitcoin_v1'' = Some (CoinCap ''bitcoin'' ''BTC'')"
  "build_parser st ''wallex_usdt_toman_v1'' = Some (WallexMarket ''USDTTMN'')"
  "build_parser st ''wallex_btc_toman_v1'' = Some (WallexMarket ''BTCTMN'')"
  "build_parser st ''tala_gold24_toman_v1'' = Some (TalaRates (parser_setting st ''TALA_GOLD24_TOMAN_KEY'' ''geram24k''))"
  "build_parser st ''tala_silver999_toman_v1'' = Some (TalaRates (parser_setting st ''TALA_SILVER999_TOMAN_KEY'' []))"
  "build_parser st ''tala_gold18_toman_v1'' = Some (TalaRates (parser_setting st ''TALA_GOLD18_TOMAN_KEY'' ''geram18k''))"
  "build_parser st ''tala_usdt_toman_v1'' = Some (TalaRates (parser_setting st ''TALA_USDT_TOMAN_KEY'' ''usdt_irt''))"
  "build_parser st ''navasan_usd_v1'' = Some (NavasanLatest (parser_setting st ''NAVASAN_USD_ITEM'' ''usd_sell''))"
  "build_parser st ''servix_usd_rls_v1'' = Some (ServixAssets ''USD_RLS'')"
  "build_parser st ''persian_toolbox_usd_toman_v1'' = Some (PersianToolboxMarket ''USD_TOMAN'')"
  "build_parser st ''navasan_usdt_v1'' = Some (NavasanLatest (parser_setting st ''NAVASAN_USDT_ITEM'' ''usdt''))"
  "build_parser st ''nerkh_io_gold24_v1'' = Some (NerkhIoLite (parser_setting st ''NERKH_IO_GOLD24_SYMBOL'' ''GOLD24K'') (parser_setting st ''NERKH_IO_GOLD_UNIT'' []))"
  "build_parser st ''servix_btc_usd_v1'' = Some (ServixAssets ''BTC_USD'')"
  "build_parser st ''servix_usdt_usd_v1'' = Some (ServixAssets ''USDT_USD'')"
  unfolding build_parser_def by (rule map_of_hit | (rule map_of_skip, simp))+

lemma history_parser_table:
  "build_history_parser ''nobitex_udf_usdtirt_v1'' = Some (NobitexUdfHistory ''USDTIRT'')"
  "build_history_parser ''nobitex_udf_btcirt_v1'' = Some (NobitexUdfHistory ''BTCIRT'')"
  "build_history_parser ''coingecko_bitcoin_usd_history_v1'' = Some (CoinGeckoHistory ''bitcoin'')"
  "build_history_parser ''coingecko_tether_usd_history_v1'' = Some (CoinGeckoHistory ''tether'')"
  "build_history_parser ''servix_btc_usd_history_v1'' = Some (ServixHistory ''BTC_USD'' ''USD'' 1)"
  "build_history_parser ''servix_usdt_usd_history_v1'' = Some (ServixHistory ''USDT_USD'' ''USD'' 1)"
  "build_history_parser ''servix_usd_rls_history_v1'' = Some (ServixHistory ''USD_RLS'' ''RLS'' (1/10))"
  unfolding build_history_parser_def by (rule map_of_hit | (rule map_of_skip, simp))+

lemmas entry_simps = entry_ok_def history_ok_def budget_of_ok parser_table history_parser_table default_kwargs_def
  default_instruments_def instrument_of_def

lemma sources_ok:
  "list_all (entry_ok st) (wallgold_sources uj env st)" "list_all (entry_ok st) (bitpin_sources uj env st)"
  "list_all (entry_ok st) (metal_sources uj env st)" "list_all (entry_ok st) (usdt_sources uj env st)"
  "list_all (entry_ok st) (btc_sources uj env st)" "list_all (entry_ok st) (wallex_and_tala_sources uj env st)"
  "list_all (entry_ok st) (reference_sources uj env st)"
  by (simp_all add: source_defs entry_simps)

lemma registered_ids:
  "map p_provider_id (registered_providers uj env st) =
     [''wallgold_gold18'', ''wallgold_silver925'', ''bitpin_btc_toman'', ''bitpin_usdt_toman'', ''alanchand_gold18'',
      ''goldapi_xau'', ''gold_api_free_xau'', ''metals_dev_gold'', ''goldapi_xag'', ''gold_api_free_xag'', ''xaus_xag'',
      ''metals_dev_silver'', ''nobitex_stats_usdt'', ''nobitex_orderbook_usdt'', ''tetherland_usdt'', ''coinbase_usdt_usd'',
      ''coingecko_usdt'', ''coincap_usdt'', ''nobitex_stats_btc'', ''nobitex_orderbook_btc'', ''tetherland_btc'',
      ''coinbase_btc_usd'', ''coingecko_btc'', ''persian_toolbox_btc'', ''persian_toolbox_gold24'', ''coincap_btc'',
      ''wallex_usdt_toman'', ''wallex_btc_toman'', ''tala_gold24_toman'', ''tala_silver999_toman'', ''tala_gold18_toman'',
      ''tala_usdt_toman'', ''navasan_usd_toman'', ''servix_usd_toman'', ''persian_toolbox_usd_toman'', ''navasan_usdt'',
      ''nerkh_io_gold24'', ''servix_btc_usd'', ''servix_usdt_usd'']"
  by (simp add: registered_providers_def source_defs)

text \<open>Claim C22. Whatever the environment and the settings say, each registered provider is of an instrument of the
  catalogue, has a parser that serves this instrument, a history parser exactly when it has a history address, a trust
  between zero and one and a budget whose reserves leave requests, and no two providers share an identifier.\<close>

theorem registered_providers_well_formed:
  "list_all (entry_ok st) (registered_providers uj env st)
   \<and> distinct (map p_provider_id (registered_providers uj env st))"
  unfolding registered_ids by (simp add: registered_providers_def sources_ok)

section \<open>Coverage\<close>

text \<open>An instrument cannot be served if it has no enabled and configured provider and may not be derived.\<close>

lemma unservable_iff:
  "map fst (filter (\<lambda>r. cov_unservable (snd r)) (instrument_source_coverage ps defs st))
     = map fst (filter (\<lambda>(iid, derived). \<not> derived
         \<and> \<not> list_ex (\<lambda>p. p_instrument_id p = iid \<and> p_enabled p \<and> configured p st) ps)
         (map (\<lambda>i. (i_instrument_id i, i_allow_derived_fallback i)) defs))"
proof -
  have "set (filter (\<lambda>p. p_enabled p \<and> configured p st) (providers_by_instrument ps iid))
      = {p \<in> set ps. p_instrument_id p = iid \<and> p_enabled p \<and> configured p st}" for iid
    by (auto simp: providers_by_instrument_def)
  then have *: "filter (\<lambda>p. p_enabled p \<and> configured p st) (providers_by_instrument ps iid) = []
      \<longleftrightarrow> \<not> list_ex (\<lambda>p. p_instrument_id p = iid \<and> p_enabled p \<and> configured p st) ps" for iid
    by (subst set_empty[symmetric]) (auto simp: list_ex_iff)
  show ?thesis
    unfolding instrument_source_coverage_def Let_def by (induction defs) (simp_all add: * conj_commute)
qed

text \<open>The overrides of the environment change neither the identifier nor the fallback of an instrument.\<close>

lemma instruments_same:
  assumes "instruments env = Inr defs"
  shows "map (\<lambda>i. (i_instrument_id i, i_allow_derived_fallback i)) defs
    = map (\<lambda>i. (i_instrument_id i, i_allow_derived_fallback i)) default_instruments"
proof -
  have "emap (apply_environment env) ds = Inr defs \<Longrightarrow> map (\<lambda>i. (i_instrument_id i, i_allow_derived_fallback i)) defs
      = map (\<lambda>i. (i_instrument_id i, i_allow_derived_fallback i)) ds" for ds
    by (induction ds arbitrary: defs)
      (auto simp: err_simps apply_environment_def Let_def instrument_post_init_iff)
  then show ?thesis
    using assms by (simp add: instruments_def)
qed

definition switches_unset :: "environ \<Rightarrow> bool" where
  "switches_unset env \<longleftrightarrow> (\<forall>pid. env (''PRICING_PROVIDER_'' @ pid @ ''_ENABLED'') = None)"

lemma enabled_default: "switches_unset env \<Longrightarrow> enabled_by env pid d = d"
  unfolding switches_unset_def enabled_by_def bool_env_def by (simp only: option.case)

definition served :: "app_settings \<Rightarrow> string \<Rightarrow> provider_definition list \<Rightarrow> bool" where
  "served st iid ps \<longleftrightarrow> list_ex (\<lambda>p. p_instrument_id p = iid \<and> p_enabled p \<and> configured p st) ps"

lemma served_append: "served st iid (ps @ qs) \<longleftrightarrow> served st iid ps \<or> served st iid qs"
  by (simp add: served_def)

lemma keyless_configured:
  assumes "p_provider_id p \<noteq> ''persian_toolbox_gold24''" "\<not> starts_with ''navasan_'' (p_provider_id p)"
    "\<not> starts_with ''nerkh_io_'' (p_provider_id p)" "p_required_settings p = []" "p_api_key_setting p = None"
  shows "configured p st"
  using assms by (simp add: configured_def)

lemma served_by_default:
  assumes "switches_unset env"
  shows "served st ''GOLD_18K_TOMAN_GRAM'' (wallgold_sources uj env st)"
    and "served st ''XAU_USD_OZ'' (metal_sources uj env st)" "served st ''XAG_USD_OZ'' (metal_sources uj env st)"
    and "served st ''USDT_TOMAN'' (usdt_sources uj env st)" "served st ''USDT_USD'' (usdt_sources uj env st)"
    and "served st ''BTC_USD'' (btc_sources uj env st)"
  by (simp_all add: served_def source_defs enabled_default[OF assms] keyless_configured default_kwargs_def starts_with_def)

lemma unserved_by_default:
  assumes "switches_unset env"
  shows "\<not> served st ''GOLD_24K_TOMAN_GRAM'' (registered_providers uj env st)"
  by (simp add: served_def registered_providers_def source_defs enabled_default[OF assms] default_kwargs_def)

text \<open>As long as no environment variable switches a provider on or off, and whatever the settings are, 24-carat
  gold is the one instrument that the coverage report calls unservable: all others have a direct source that needs no
  key or may be derived.\<close>

theorem default_coverage:
  assumes "switches_unset env" and "instruments env = Inr defs"
  shows "map fst (filter (\<lambda>r. cov_unservable (snd r))
      (instrument_source_coverage (registered_providers uj env st) defs st)) = [''GOLD_24K_TOMAN_GRAM'']"
proof -
  have s: "served st iid (registered_providers uj env st)"
    if "iid \<in> {''GOLD_18K_TOMAN_GRAM'', ''XAU_USD_OZ'', ''XAG_USD_OZ'', ''USDT_TOMAN'', ''USDT_USD'', ''BTC_USD''}" for iid
    using that served_by_default[OF assms(1)] by (auto simp: registered_providers_def served_append)
  show ?thesis
    unfolding unservable_iff instruments_same[OF assms(2)] served_def[symmetric]
    using s unserved_by_default[OF assms(1)] by (simp add: default_instruments_def instrument_of_def)
qed

theorem default_coverage_witness:
  "\<exists>defs. instruments Map.empty = Inr defs
     \<and> map fst (filter (\<lambda>r. cov_unservable (snd r))
         (instrument_source_coverage (registered_providers (\<lambda>b p. b @ p) Map.empty Map.empty) defs Map.empty))
       = [''GOLD_24K_TOMAN_GRAM'']"
proof -
  obtain defs where d: "instruments Map.empty = Inr defs"
    using instruments_total_and_valid by blast
  have "switches_unset Map.empty"
    by (simp add: switches_unset_def)
  then show ?thesis
    using default_coverage [OF _ d] d by blast
qed

end
