(* ===== verification/Backfill_Jobs.thy ===== *)
theory Backfill_Jobs
  imports Models
begin

text \<open>
  Model of the jobs of \<open>apps/api/app/pricing/backfill.py\<close>: the table \<open>pricing_backfill_jobs\<close> and the transactions
  \<open>_insert_job\<close>, \<open>_claim_job\<close>, \<open>_retry_job\<close>, \<open>_finish_job\<close>, \<open>_renew_job\<close> and \<open>_database_backlog\<close>.

  \<^item> Each operation is one transaction and an atomic function on the table. What several workers do is the step
    relation \<open>backfill_step\<close>; a worker that claimed a job holds its number and the attempt as a token.
  \<^item> The rows that another transaction has locked are an argument of claiming.
  \<^item> A key, the digest of a range, is the list that is hashed.
\<close>

section \<open>The table\<close>

datatype backfill_status = BPending | BRetrying | BProcessing | BDeferred | BCompleted | BFailed

record backfill_job =
  bj_id :: int
  bj_instrument_id :: string
  bj_range_start :: instant
  bj_range_end :: instant
  bj_priority :: int
  bj_status :: backfill_status
  bj_attempt_count :: int
  bj_next_attempt_at :: "instant option"
  bj_idempotency_key :: idem_key
  bj_last_error :: "string option"
  bj_created_at :: instant
  bj_updated_at :: instant
  bj_completed_at :: "instant option"

record backfill_table =
  bt_jobs :: "backfill_job list"
  bt_next :: int

definition find_backfill :: "backfill_table \<Rightarrow> int \<Rightarrow> backfill_job option" where
  "find_backfill t n = find (\<lambda>j. bj_id j = n) (bt_jobs t)"

definition update_backfill :: "int \<Rightarrow> (backfill_job \<Rightarrow> backfill_job) \<Rightarrow> backfill_table \<Rightarrow> backfill_table" where
  "update_backfill n f t = t\<lparr>bt_jobs := map (\<lambda>j. if bj_id j = n then f j else j) (bt_jobs t)\<rparr>"

section \<open>Operations\<close>

text \<open>A job with the same key is kept; else a new one is pending.\<close>

definition insert_backfill ::
  "instant \<Rightarrow> string \<Rightarrow> instant \<Rightarrow> instant \<Rightarrow> int \<Rightarrow> idem_key \<Rightarrow> backfill_table \<Rightarrow> int \<times> backfill_table" where
  "insert_backfill now iid start end priority key t =
     (case find (\<lambda>j. bj_idempotency_key j = key) (bt_jobs t) of
        Some j \<Rightarrow> (bj_id j, t)
      | None \<Rightarrow>
          (bt_next t,
           t\<lparr>bt_jobs := bt_jobs t @ [\<lparr>bj_id = bt_next t, bj_instrument_id = iid, bj_range_start = start, bj_range_end = end,
               bj_priority = max 1 (min priority 1000), bj_status = BPending, bj_attempt_count = 0,
               bj_next_attempt_at = None, bj_idempotency_key = key, bj_last_error = None, bj_created_at = now,
               bj_updated_at = now, bj_completed_at = None\<rparr>],
             bt_next := bt_next t + 1\<rparr>))"

text \<open>A waiting job whose time has come, or one that was left behind for ten minutes.\<close>

definition claimable :: "string list \<Rightarrow> instant \<Rightarrow> backfill_job \<Rightarrow> bool" where
  "claimable eligible now j \<longleftrightarrow>
     bj_instrument_id j \<in> set eligible
     \<and> (bj_status j \<in> {BPending, BRetrying, BDeferred}
          \<and> (case bj_next_attempt_at j of None \<Rightarrow> True | Some due \<Rightarrow> due \<le> now)
        \<or> bj_status j = BProcessing \<and> bj_updated_at j < now - seconds 600)"

definition claimed :: "instant \<Rightarrow> backfill_job \<Rightarrow> backfill_job" where
  "claimed now j = j\<lparr>bj_status := BProcessing, bj_attempt_count := bj_attempt_count j + 1, bj_updated_at := now\<rparr>"

definition claim_backfill ::
  "string list \<Rightarrow> int set \<Rightarrow> instant \<Rightarrow> backfill_table \<Rightarrow> backfill_job option \<times> backfill_table" where
  "claim_backfill eligible locked now t =
     (case sort_key (\<lambda>j. (bj_priority j, bj_created_at j, bj_id j))
             (filter (\<lambda>j. claimable eligible now j \<and> bj_id j \<notin> locked) (bt_jobs t)) of
        [] \<Rightarrow> (None, t)
      | j # _ \<Rightarrow> (Some (claimed now j), update_backfill (bj_id j) (claimed now) t))"

text \<open>The transactions of a worker act only on the job it still owns: one in processing with its attempt.\<close>

definition owned :: "backfill_job \<Rightarrow> int option \<Rightarrow> bool" where
  "owned j attempt \<longleftrightarrow> bj_status j = BProcessing \<and> (attempt = None \<or> attempt = Some (bj_attempt_count j))"

definition retried :: "int \<Rightarrow> instant \<Rightarrow> string \<Rightarrow> int \<Rightarrow> backfill_job \<Rightarrow> backfill_job" where
  "retried maximum now err attempt j =
     (let status = (if attempt \<ge> maximum then BFailed else BRetrying)
      in j\<lparr>bj_status := status, bj_last_error := Some (take 500 err),
           bj_next_attempt_at := (if status = BFailed then None else Some (now + seconds 900)), bj_updated_at := now\<rparr>)"

definition retry_backfill :: "int \<Rightarrow> instant \<Rightarrow> int \<Rightarrow> string \<Rightarrow> int \<Rightarrow> backfill_table \<Rightarrow> backfill_table" where
  "retry_backfill maximum now n err attempt t =
     (case find_backfill t n of
        None \<Rightarrow> t
      | Some j \<Rightarrow> if owned j (Some attempt) then update_backfill n (retried maximum now err attempt) t else t)"

text \<open>A deferred job gives its attempt back.\<close>

definition finished :: "instant \<Rightarrow> backfill_status \<Rightarrow> string option \<Rightarrow> backfill_job \<Rightarrow> backfill_job" where
  "finished now status remark j =
     j\<lparr>bj_status := status, bj_last_error := remark,
       bj_next_attempt_at := (if status = BDeferred then Some (now + seconds 300) else None), bj_updated_at := now,
       bj_completed_at := (if status = BCompleted then Some now else None),
       bj_attempt_count := (if status = BDeferred then max 0 (bj_attempt_count j - 1) else bj_attempt_count j)\<rparr>"

definition finish_backfill ::
  "instant \<Rightarrow> int \<Rightarrow> backfill_status \<Rightarrow> string option \<Rightarrow> int option \<Rightarrow> backfill_table \<Rightarrow> backfill_table" where
  "finish_backfill now n status remark attempt t =
     (case find_backfill t n of
        None \<Rightarrow> t
      | Some j \<Rightarrow> if owned j attempt then update_backfill n (finished now status remark) t else t)"

definition renew_backfill :: "instant \<Rightarrow> int \<Rightarrow> int option \<Rightarrow> backfill_table \<Rightarrow> bool \<times> backfill_table" where
  "renew_backfill now n attempt t =
     (case find_backfill t n of
        None \<Rightarrow> (False, t)
      | Some j \<Rightarrow> if owned j attempt then (True, update_backfill n (\<lambda>j. j\<lparr>bj_updated_at := now\<rparr>) t) else (False, t))"

definition database_backlog :: "backfill_table \<Rightarrow> nat" where
  "database_backlog t =
     length (filter (\<lambda>j. bj_status j \<in> {BPending, BRetrying, BProcessing, BDeferred}) (bt_jobs t))"

section \<open>Workers\<close>

record backfill_state =
  bs_table :: backfill_table
  bs_tokens :: "(int \<times> int) set"

inductive backfill_step :: "int \<Rightarrow> backfill_state \<Rightarrow> backfill_state \<Rightarrow> bool" for maximum where
  insert: "backfill_step maximum s (s\<lparr>bs_table := snd (insert_backfill now iid start end priority key (bs_table s))\<rparr>)"
| claim: "claim_backfill eligible locked now (bs_table s) = (Some j, t)
    \<Longrightarrow> backfill_step maximum s (s\<lparr>bs_table := t, bs_tokens := Set.insert (bj_id j, bj_attempt_count j) (bs_tokens s)\<rparr>)"
| retry: "(n, k) \<in> bs_tokens s
    \<Longrightarrow> backfill_step maximum s (s\<lparr>bs_table := retry_backfill maximum now n err k (bs_table s), bs_tokens := bs_tokens s - {(n, k)}\<rparr>)"
| finish: "(n, k) \<in> bs_tokens s \<Longrightarrow> status \<in> {BDeferred, BCompleted}
    \<Longrightarrow> backfill_step maximum s (s\<lparr>bs_table := finish_backfill now n status remark (Some k) (bs_table s),
          bs_tokens := bs_tokens s - {(n, k)}\<rparr>)"
| renew: "(n, k) \<in> bs_tokens s
    \<Longrightarrow> backfill_step maximum s (s\<lparr>bs_table := snd (renew_backfill now n (Some k) (bs_table s))\<rparr>)"
| crash: "backfill_step maximum s (s\<lparr>bs_tokens := bs_tokens s - T\<rparr>)"

inductive backfill_reach :: "int \<Rightarrow> backfill_state \<Rightarrow> backfill_state \<Rightarrow> bool" for maximum where
  refl: "backfill_reach maximum s s"
| step: "backfill_reach maximum s u \<Longrightarrow> backfill_step maximum u v \<Longrightarrow> backfill_reach maximum s v"

section \<open>Invariant\<close>

text \<open>Numbers and keys are unique, and no token is ahead of the attempts of its job.\<close>

definition table_inv :: "backfill_table \<Rightarrow> bool" where
  "table_inv t \<longleftrightarrow> distinct (map bj_id (bt_jobs t)) \<and> distinct (map bj_idempotency_key (bt_jobs t))
     \<and> (\<forall>j\<in>set (bt_jobs t). bj_id j < bt_next t \<and> 0 \<le> bj_attempt_count j
          \<and> (bj_status j = BProcessing \<longrightarrow> 1 \<le> bj_attempt_count j))"

definition tokens_inv :: "backfill_state \<Rightarrow> bool" where
  "tokens_inv s \<longleftrightarrow> (\<forall>(n, k)\<in>bs_tokens s. \<exists>j\<in>set (bt_jobs (bs_table s)). bj_id j = n \<and> k \<le> bj_attempt_count j)"

definition workers_inv :: "backfill_state \<Rightarrow> bool" where
  "workers_inv s \<longleftrightarrow> table_inv (bs_table s) \<and> tokens_inv s"

lemma find_backfill_Some: "find_backfill t n = Some j \<Longrightarrow> j \<in> set (bt_jobs t) \<and> bj_id j = n"
  by (auto simp: find_backfill_def find_Some_iff)

lemma find_backfill_iff:
  assumes "table_inv t"
  shows "find_backfill t n = Some j \<longleftrightarrow> j \<in> set (bt_jobs t) \<and> bj_id j = n"
proof
  assume j: "j \<in> set (bt_jobs t) \<and> bj_id j = n"
  then obtain k where k: "find_backfill t n = Some k"
    unfolding find_backfill_def by (cases "find (\<lambda>j. bj_id j = n) (bt_jobs t)") (auto simp: find_None_iff)
  have "inj_on bj_id (set (bt_jobs t))"
    using assms by (simp add: table_inv_def distinct_map)
  then have "k = j"
    using find_backfill_Some[OF k] j by (auto dest: inj_onD)
  then show "find_backfill t n = Some j"
    using k by simp
qed (rule find_backfill_Some)

text \<open>An update that keeps the number, the key and the attempts in their range keeps the invariant of the table.\<close>

definition keeps_job :: "(backfill_job \<Rightarrow> backfill_job) \<Rightarrow> backfill_job \<Rightarrow> bool" where
  "keeps_job f j \<longleftrightarrow> bj_id (f j) = bj_id j \<and> bj_idempotency_key (f j) = bj_idempotency_key j
     \<and> 0 \<le> bj_attempt_count (f j) \<and> (bj_status (f j) = BProcessing \<longrightarrow> 1 \<le> bj_attempt_count (f j))"

lemma update_backfill_inv:
  assumes "table_inv t" "\<And>j. j \<in> set (bt_jobs t) \<Longrightarrow> bj_id j = n \<Longrightarrow> keeps_job f j"
  shows "table_inv (update_backfill n f t)"
proof -
  define g where "g j = (if bj_id j = n then f j else j)" for j
  have g: "update_backfill n f t = t\<lparr>bt_jobs := map g (bt_jobs t)\<rparr>"
    by (simp add: update_backfill_def g_def)
  have k: "keeps_job g j" if "j \<in> set (bt_jobs t)" for j
    using assms that by (simp add: g_def keeps_job_def table_inv_def)
  have i: "map bj_id (map g (bt_jobs t)) = map bj_id (bt_jobs t)"
    using k by (simp add: keeps_job_def)
  have "distinct (map bj_id (map g (bt_jobs t)))"
    unfolding i using assms(1) by (simp add: table_inv_def)
  moreover have y: "map bj_idempotency_key (map g (bt_jobs t)) = map bj_idempotency_key (bt_jobs t)"
    using k by (simp add: keeps_job_def)
  have "distinct (map bj_idempotency_key (map g (bt_jobs t)))"
    unfolding y using assms(1) by (simp add: table_inv_def)
  moreover have "\<forall>j\<in>set (map g (bt_jobs t)). bj_id j < bt_next t \<and> 0 \<le> bj_attempt_count j
      \<and> (bj_status j = BProcessing \<longrightarrow> 1 \<le> bj_attempt_count j)"
    using k assms(1) by (simp add: keeps_job_def table_inv_def)
  ultimately show ?thesis
    unfolding g table_inv_def by (simp del: map_map)
qed

lemma owned_update:
  assumes "table_inv t" "find_backfill t n = Some j" "keeps_job f j"
  shows "table_inv (update_backfill n f t)"
proof (rule update_backfill_inv[OF assms(1)])
  fix k
  assume "k \<in> set (bt_jobs t)" "bj_id k = n"
  then have "find_backfill t n = Some k"
    using find_backfill_iff[OF assms(1)] by simp
  then show "keeps_job f k"
    using assms(2,3) by simp
qed

lemma keeps_job_ops:
  assumes "0 \<le> bj_attempt_count j" "bj_status j = BProcessing \<longrightarrow> 1 \<le> bj_attempt_count j"
  shows "keeps_job (claimed now) j" "keeps_job (retried maximum now err k) j"
    "status \<in> {BDeferred, BCompleted} \<Longrightarrow> keeps_job (finished now status remark) j"
    "keeps_job (\<lambda>j. j\<lparr>bj_updated_at := now\<rparr>) j"
proof -
  show "keeps_job (claimed now) j"
    using assms by (simp add: keeps_job_def claimed_def)
  show "keeps_job (retried maximum now err k) j"
    using assms by (simp add: keeps_job_def retried_def Let_def)
  show "keeps_job (finished now status remark) j" if "status \<in> {BDeferred, BCompleted}"
  proof -
    have "status \<noteq> BProcessing"
      using that by auto
    then show ?thesis
      using assms(1) by (simp add: keeps_job_def finished_def)
  qed
  show "keeps_job (\<lambda>j. j\<lparr>bj_updated_at := now\<rparr>) j"
    using assms by (simp add: keeps_job_def)
qed

lemma table_inv_job:
  assumes "table_inv t" "find_backfill t n = Some j"
  shows "0 \<le> bj_attempt_count j" "bj_status j = BProcessing \<longrightarrow> 1 \<le> bj_attempt_count j"
  using assms find_backfill_Some[OF assms(2)] by (auto simp: table_inv_def)

text \<open>The job that a claim takes.\<close>

lemma claim_backfill_Some:
  assumes "claim_backfill eligible locked now t = (Some j, t')"
  obtains i where "i \<in> set (bt_jobs t)" "claimable eligible now i" "bj_id i \<notin> locked" "j = claimed now i"
    "t' = update_backfill (bj_id i) (claimed now) t"
proof -
  let ?due = "filter (\<lambda>j. claimable eligible now j \<and> bj_id j \<notin> locked) (bt_jobs t)"
  obtain i rest where i: "sort_key (\<lambda>j. (bj_priority j, bj_created_at j, bj_id j)) ?due = i # rest"
      "j = claimed now i" "t' = update_backfill (bj_id i) (claimed now) t"
    using assms by (auto simp: claim_backfill_def split: list.splits)
  have "i \<in> set (sort_key (\<lambda>j. (bj_priority j, bj_created_at j, bj_id j)) ?due)"
    unfolding i(1) by simp
  then have "i \<in> set ?due"
    by (simp only: set_sort)
  then show ?thesis
    using that[of i] i(2,3) by simp
qed

section \<open>The operations keep the invariant\<close>

text \<open>The changes an owner makes, in one form: its job is updated, or nothing happens.\<close>

lemma retry_backfill_cases:
  obtains (effect) j where "find_backfill t n = Some j" "owned j (Some k)"
      "retry_backfill maximum now n err k t = update_backfill n (retried maximum now err k) t"
  | (idle) "retry_backfill maximum now n err k t = t"
proof (cases "find_backfill t n")
  case (Some j)
  then show ?thesis
    using that by (cases "owned j (Some k)") (simp_all add: retry_backfill_def)
qed (simp add: retry_backfill_def that(2))

lemma finish_backfill_cases:
  obtains (effect) j where "find_backfill t n = Some j" "owned j k"
      "finish_backfill now n status remark k t = update_backfill n (finished now status remark) t"
  | (idle) "finish_backfill now n status remark k t = t"
proof (cases "find_backfill t n")
  case (Some j)
  then show ?thesis
    using that by (cases "owned j k") (simp_all add: finish_backfill_def)
qed (simp add: finish_backfill_def that(2))

lemma renew_backfill_cases:
  obtains (effect) j where "find_backfill t n = Some j" "owned j k"
      "renew_backfill now n k t = (True, update_backfill n (\<lambda>j. j\<lparr>bj_updated_at := now\<rparr>) t)"
  | (idle) "renew_backfill now n k t = (False, t)"
proof (cases "find_backfill t n")
  case (Some j)
  then show ?thesis
    using that by (cases "owned j k") (simp_all add: renew_backfill_def)
qed (simp add: renew_backfill_def that(2))

lemma insert_backfill_inv:
  assumes "table_inv t"
  shows "table_inv (snd (insert_backfill now iid start end priority key t))"
proof (cases "find (\<lambda>j. bj_idempotency_key j = key) (bt_jobs t)")
  case None
  then have "key \<notin> bj_idempotency_key ` set (bt_jobs t)"
    by (auto simp: find_None_iff)
  moreover have "bt_next t \<notin> bj_id ` set (bt_jobs t)"
    using assms by (auto simp: table_inv_def)
  ultimately show ?thesis
    using assms None by (auto simp: insert_backfill_def table_inv_def)
qed (simp add: insert_backfill_def assms)

lemma claim_backfill_inv:
  assumes "table_inv t" "claim_backfill eligible locked now t = (Some j, t')"
  shows "table_inv t'"
  using assms(2)
proof (rule claim_backfill_Some)
  fix i
  assume i: "i \<in> set (bt_jobs t)" "t' = update_backfill (bj_id i) (claimed now) t"
  then have f: "find_backfill t (bj_id i) = Some i"
    using find_backfill_iff[OF assms(1)] by simp
  show ?thesis
    unfolding i(2) using owned_update[OF assms(1) f] keeps_job_ops(1) table_inv_job[OF assms(1) f] by blast
qed

lemma retry_backfill_inv:
  assumes "table_inv t"
  shows "table_inv (retry_backfill maximum now n err k t)"
proof (cases rule: retry_backfill_cases[of t n k maximum now err])
  case (effect j)
  show ?thesis
    unfolding effect(3) by (rule owned_update[OF assms(1) effect(1)]) (rule keeps_job_ops(2)[OF table_inv_job[OF assms(1) effect(1)]])
qed (simp add: assms(1))

lemma finish_backfill_inv:
  assumes "table_inv t" "status \<in> {BDeferred, BCompleted}"
  shows "table_inv (finish_backfill now n status remark k t)"
proof (cases rule: finish_backfill_cases[of t n k now status remark])
  case (effect j)
  show ?thesis
    unfolding effect(3) by (rule owned_update[OF assms(1) effect(1)]) (rule keeps_job_ops(3)[OF table_inv_job[OF assms(1) effect(1)] assms(2)])
qed (simp add: assms(1))

lemma renew_backfill_inv:
  assumes "table_inv t"
  shows "table_inv (snd (renew_backfill now n k t))"
proof (cases rule: renew_backfill_cases[of t n k now])
  case (effect j)
  show ?thesis
    unfolding effect(3) snd_conv by (rule owned_update[OF assms(1) effect(1)]) (rule keeps_job_ops(4)[OF table_inv_job[OF assms(1) effect(1)]])
qed (simp add: assms(1))

text \<open>The token of a job after an update.\<close>

lemma token_update:
  assumes "\<exists>j\<in>set (bt_jobs t). bj_id j = m \<and> k \<le> bj_attempt_count j"
    and "\<And>j. j \<in> set (bt_jobs t) \<Longrightarrow> bj_id j = n \<Longrightarrow> bj_id (f j) = n \<and> (m = n \<longrightarrow> k \<le> bj_attempt_count j \<longrightarrow> k \<le> bj_attempt_count (f j))"
  shows "\<exists>j\<in>set (bt_jobs (update_backfill n f t)). bj_id j = m \<and> k \<le> bj_attempt_count j"
proof -
  obtain j where j: "j \<in> set (bt_jobs t)" "bj_id j = m" "k \<le> bj_attempt_count j"
    using assms(1) by blast
  have "(if bj_id j = n then f j else j) \<in> set (bt_jobs (update_backfill n f t))"
    using j(1) by (simp add: update_backfill_def)
  then show ?thesis
    using j assms(2)[OF j(1)] by (intro bexI) auto
qed

lemma tokens_invI:
  assumes "\<And>n k. (n, k) \<in> bs_tokens s \<Longrightarrow> \<exists>j\<in>set (bt_jobs (bs_table s)). bj_id j = n \<and> k \<le> bj_attempt_count j"
  shows "tokens_inv s"
  using assms by (auto simp: tokens_inv_def)

lemma tokens_invD: "tokens_inv s \<Longrightarrow> (n, k) \<in> bs_tokens s \<Longrightarrow> \<exists>j\<in>set (bt_jobs (bs_table s)). bj_id j = n \<and> k \<le> bj_attempt_count j"
  by (auto simp: tokens_inv_def)

text \<open>A claim hands out a token that nobody holds.\<close>

lemma claim_fresh:
  assumes "workers_inv s" "claim_backfill eligible locked now (bs_table s) = (Some j, t)"
  shows "(bj_id j, k) \<in> bs_tokens s \<Longrightarrow> k < bj_attempt_count j"
proof -
  assume k: "(bj_id j, k) \<in> bs_tokens s"
  obtain i where i: "i \<in> set (bt_jobs (bs_table s))" "j = claimed now i"
    using claim_backfill_Some[OF assms(2)] by blast
  have inv: "table_inv (bs_table s)" "tokens_inv s"
    using assms(1) by (simp_all add: workers_inv_def)
  obtain x where x: "x \<in> set (bt_jobs (bs_table s))" "bj_id x = bj_id j" "k \<le> bj_attempt_count x"
    using tokens_invD[OF inv(2) k] by blast
  have "bj_id i = bj_id j"
    using i(2) by (simp add: claimed_def)
  then have "x = i"
    using x(1,2) i(1) find_backfill_iff[OF inv(1)] by (metis option.inject)
  then show "k < bj_attempt_count j"
    using x(3) i(2) by (simp add: claimed_def)
qed

lemma workers_step:
  assumes "backfill_step maximum s s'" "workers_inv s"
  shows "workers_inv s'"
proof -
  have inv: "table_inv (bs_table s)" "tokens_inv s"
    using assms(2) by (simp_all add: workers_inv_def)
  note tok = tokens_invD[OF inv(2)]
  from assms(1) show ?thesis
  proof cases
    case (insert now iid start end' priority key)
    have "set (bt_jobs (bs_table s)) \<subseteq> set (bt_jobs (snd (insert_backfill now iid start end' priority key (bs_table s))))"
      by (auto simp: insert_backfill_def split: option.split)
    then show ?thesis
      using insert_backfill_inv[OF inv(1)] tok unfolding workers_inv_def insert tokens_inv_def by fastforce
  next
    case (claim eligible locked now j t)
    obtain i where i: "i \<in> set (bt_jobs (bs_table s))" "j = claimed now i"
        "t = update_backfill (bj_id i) (claimed now) (bs_table s)"
      using claim_backfill_Some[OF claim(2)] by blast
    have "\<exists>x\<in>set (bt_jobs t). bj_id x = n \<and> k \<le> bj_attempt_count x" if "(n, k) \<in> bs_tokens s" for n k
      unfolding i(3) by (rule token_update[OF tok[OF that]]) (simp add: claimed_def)
    moreover have "j \<in> set (bt_jobs t)"
      using i by (auto simp: update_backfill_def)
    ultimately show ?thesis
      using claim_backfill_inv[OF inv(1) claim(2)] unfolding claim(1) workers_inv_def tokens_inv_def by auto
  next
    case (retry n k now err)
    have "\<exists>x\<in>set (bt_jobs (retry_backfill maximum now n err k (bs_table s))). bj_id x = m \<and> l \<le> bj_attempt_count x"
      if "(m, l) \<in> bs_tokens s" for m l
      by (cases rule: retry_backfill_cases[of "bs_table s" n k maximum now err])
        (auto intro!: token_update tok[OF that] simp: retried_def Let_def)
    then show ?thesis
      using retry_backfill_inv[OF inv(1)] unfolding retry(1) workers_inv_def tokens_inv_def by auto
  next
    case (finish n k status now remark)
    have "\<exists>x\<in>set (bt_jobs (finish_backfill now n status remark (Some k) (bs_table s))). bj_id x = m \<and> l \<le> bj_attempt_count x"
      if l: "(m, l) \<in> bs_tokens s" "(m, l) \<noteq> (n, k)" for m l
    proof (cases rule: finish_backfill_cases[of "bs_table s" n "Some k" now status remark])
      case (effect j)
      have "l \<le> bj_attempt_count (finished now status remark i)"
        if "i \<in> set (bt_jobs (bs_table s))" "bj_id i = n" "m = n" "l \<le> bj_attempt_count i" for i
      proof -
        have "i = j"
          using that(1,2) effect(1) find_backfill_iff[OF inv(1)] by (metis option.inject)
        then show ?thesis
          using that l(2) effect(2) by (auto simp: finished_def owned_def)
      qed
      then show ?thesis
        unfolding effect(3) by (intro token_update[OF tok[OF l(1)]]) (simp add: finished_def)
    qed (use tok[OF l(1)] in simp)
    then show ?thesis
      using finish_backfill_inv[OF inv(1) finish(3)] unfolding finish(1) workers_inv_def tokens_inv_def by auto
  next
    case (renew n k now)
    have "\<exists>x\<in>set (bt_jobs (snd (renew_backfill now n (Some k) (bs_table s)))). bj_id x = m \<and> l \<le> bj_attempt_count x"
      if "(m, l) \<in> bs_tokens s" for m l
      by (cases rule: renew_backfill_cases[of "bs_table s" n "Some k" now]) (auto intro!: token_update tok[OF that])
    then show ?thesis
      using renew_backfill_inv[OF inv(1)] unfolding renew(1) workers_inv_def tokens_inv_def by auto
  next
    case (crash T)
    then show ?thesis
      using inv by (auto simp: workers_inv_def tokens_inv_def)
  qed
qed

lemma workers_reach: "backfill_reach maximum s s' \<Longrightarrow> workers_inv s \<Longrightarrow> workers_inv s'"
  by (induction rule: backfill_reach.induct) (auto intro: workers_step)

section \<open>Properties\<close>

text \<open>What a worker can do with a token.\<close>

definition settles :: "(backfill_table \<Rightarrow> backfill_table) \<Rightarrow> int \<Rightarrow> int \<Rightarrow> bool" where
  "settles f n k \<longleftrightarrow>
     (\<exists>maximum now err. f = retry_backfill maximum now n err k)
     \<or> (\<exists>now status remark. f = finish_backfill now n status remark (Some k))
     \<or> (\<exists>now. f = (\<lambda>t. snd (renew_backfill now n (Some k) t)))"

lemma settles_effect:
  assumes "settles f n k" "f t \<noteq> t"
  obtains j where "find_backfill t n = Some j" "bj_status j = BProcessing" "bj_attempt_count j = k"
proof -
  have "\<exists>j. find_backfill t n = Some j \<and> owned j (Some k)"
    using assms unfolding settles_def
    by (elim disjE exE) (auto simp: retry_backfill_def finish_backfill_def renew_backfill_def split: option.splits if_splits)
  then show ?thesis
    using that by (auto simp: owned_def)
qed

text \<open>Claim C10. However workers claim, renew, finish, retry, crash and lose jobs to each other, a job changes only through the
  worker that claimed it last: a claim always hands out a token nobody holds, greater than all held for that job, and
  a transaction of a worker that changes the table has the greatest token of its job, which is in processing.\<close>

theorem only_the_last_claimant_acts:
  assumes "backfill_reach maximum s s'" and "workers_inv s"
  shows "(\<forall>eligible locked now j t k. claim_backfill eligible locked now (bs_table s') = (Some j, t)
            \<longrightarrow> (bj_id j, k) \<in> bs_tokens s' \<longrightarrow> k < bj_attempt_count j)
    \<and> (\<forall>f n k l. settles f n k \<longrightarrow> f (bs_table s') \<noteq> bs_table s' \<longrightarrow> (n, l) \<in> bs_tokens s' \<longrightarrow> l \<le> k)"
proof (intro conjI allI impI)
  have inv: "workers_inv s'"
    by (rule workers_reach[OF assms])
  then show "k < bj_attempt_count j" if "claim_backfill eligible locked now (bs_table s') = (Some j, t)"
      "(bj_id j, k) \<in> bs_tokens s'" for eligible locked now j t k
    using claim_fresh[OF _ that] by simp
  fix f n k l
  assume f: "settles f n k" "f (bs_table s') \<noteq> bs_table s'" and l: "(n, l) \<in> bs_tokens s'"
  obtain j where j: "find_backfill (bs_table s') n = Some j" "bj_attempt_count j = k"
    using settles_effect[OF f] by blast
  obtain i where i: "i \<in> set (bt_jobs (bs_table s'))" "bj_id i = n" "l \<le> bj_attempt_count i"
    using tokens_invD l inv unfolding workers_inv_def by blast
  have "find_backfill (bs_table s') n = Some i"
    using i(1,2) inv find_backfill_iff by (simp add: workers_inv_def)
  then show "l \<le> k"
    using i(3) j by simp
qed

text \<open>How a step moves a job: settled jobs never change.\<close>

definition settled_backfill :: "backfill_job \<Rightarrow> bool" where
  "settled_backfill j \<longleftrightarrow> bj_status j \<in> {BCompleted, BFailed}"

lemma update_backfill_keeps:
  assumes "table_inv t" "find_backfill t n = Some i" "\<not> settled_backfill i" "j \<in> set (bt_jobs t)" "settled_backfill j"
  shows "j \<in> set (bt_jobs (update_backfill n f t))"
proof -
  have "bj_id j \<noteq> n"
    using assms find_backfill_iff[OF assms(1)] by (metis option.inject)
  then show ?thesis
    using assms(4) by (auto simp: update_backfill_def)
qed

lemma owned_unsettled: "owned j k \<Longrightarrow> \<not> settled_backfill j"
  by (simp add: owned_def settled_backfill_def)

lemma settled_step:
  assumes "backfill_step maximum s s'" "workers_inv s" "j \<in> set (bt_jobs (bs_table s))" "settled_backfill j"
  shows "j \<in> set (bt_jobs (bs_table s'))"
proof -
  have inv: "table_inv (bs_table s)"
    using assms(2) by (simp add: workers_inv_def)
  note keep = update_backfill_keeps[OF inv _ _ assms(3,4)]
  from assms(1) show ?thesis
  proof cases
    case (insert now iid start end' priority key)
    then show ?thesis
      using assms(3) by (auto simp: insert_backfill_def split: option.split)
  next
    case (claim eligible locked now i t)
    obtain x where x: "x \<in> set (bt_jobs (bs_table s))" "claimable eligible now x"
        "t = update_backfill (bj_id x) (claimed now) (bs_table s)"
      using claim_backfill_Some[OF claim(2)] by blast
    have "find_backfill (bs_table s) (bj_id x) = Some x" "\<not> settled_backfill x"
      using x find_backfill_iff[OF inv] by (auto simp: claimable_def settled_backfill_def)
    then show ?thesis
      unfolding claim(1) using keep by (simp add: x(3))
  next
    case (retry n k now err)
    then show ?thesis
      by (cases rule: retry_backfill_cases[of "bs_table s" n k maximum now err])
        (simp_all add: keep owned_unsettled assms(3))
  next
    case (finish n k status now remark)
    then show ?thesis
      by (cases rule: finish_backfill_cases[of "bs_table s" n "Some k" now status remark])
        (simp_all add: keep owned_unsettled assms(3))
  next
    case (renew n k now)
    then show ?thesis
      by (cases rule: renew_backfill_cases[of "bs_table s" n "Some k" now])
        (simp_all add: keep owned_unsettled assms(3))
  qed (simp add: assms(3))
qed

text \<open>A completed or failed job is final: no interleaving of workers and requests changes its row again, and the
  numbers and keys of the table stay unique.\<close>

theorem settled_backfill_is_final:
  assumes "backfill_reach maximum s s'" and "workers_inv s"
  shows "{j \<in> set (bt_jobs (bs_table s)). settled_backfill j} \<subseteq> set (bt_jobs (bs_table s'))
    \<and> distinct (map bj_id (bt_jobs (bs_table s'))) \<and> distinct (map bj_idempotency_key (bt_jobs (bs_table s')))"
proof -
  have "{j \<in> set (bt_jobs (bs_table s)). settled_backfill j} \<subseteq> set (bt_jobs (bs_table s'))"
    using assms
  proof (induction rule: backfill_reach.induct)
    case (step s u v)
    then show ?case
      using settled_step[OF step.hyps(2) workers_reach[OF step.hyps(1) step.prems]] by blast
  qed blast
  then show ?thesis
    using workers_reach[OF assms] by (simp add: workers_inv_def table_inv_def)
qed

text \<open>A round of a worker that fails: it claims the job and gives it back for a later attempt.\<close>

definition failing_round :: "int \<Rightarrow> string list \<Rightarrow> int set \<Rightarrow> instant \<Rightarrow> string \<Rightarrow> backfill_table \<Rightarrow> backfill_table" where
  "failing_round maximum eligible locked now err t =
     (case claim_backfill eligible locked now t of
        (None, t1) \<Rightarrow> t1
      | (Some j, t1) \<Rightarrow> retry_backfill maximum now (bj_id j) err (bj_attempt_count j) t1)"

lemma failing_round_effect:
  assumes "table_inv t" "claim_backfill eligible locked now t = (Some j, t1)"
  shows "find_backfill (failing_round maximum eligible locked now err t) (bj_id j)
    = Some (retried maximum now err (bj_attempt_count j) j)"
proof -
  obtain i where i: "i \<in> set (bt_jobs t)" "j = claimed now i" "t1 = update_backfill (bj_id i) (claimed now) t"
    using claim_backfill_Some[OF assms(2)] by blast
  have inv: "table_inv t1"
    by (rule claim_backfill_inv[OF assms])
  have f: "find_backfill t1 (bj_id j) = Some j"
    using i find_backfill_iff[OF inv] by (auto simp: update_backfill_def claimed_def)
  have "owned j (Some (bj_attempt_count j))"
    by (simp add: i(2) owned_def claimed_def)
  then have r: "failing_round maximum eligible locked now err t
      = update_backfill (bj_id j) (retried maximum now err (bj_attempt_count j)) t1"
    using assms(2) f by (simp add: failing_round_def retry_backfill_def)
  have "table_inv (update_backfill (bj_id j) (retried maximum now err (bj_attempt_count j)) t1)"
    by (rule owned_update[OF inv f keeps_job_ops(2)[OF table_inv_job[OF inv f]]])
  then show ?thesis
    unfolding r using f find_backfill_iff[OF inv] find_backfill_iff
    by (auto simp: update_backfill_def retried_def Let_def)
qed

text \<open>A job that keeps failing ends: each failing round takes one attempt more, gives the job back for at least
  fifteen minutes as long as attempts are left, and from the last attempt on fails it for good.\<close>

theorem failing_backfill_ends:
  assumes "table_inv t" and "claim_backfill eligible locked now t = (Some j, t1)"
  shows "\<exists>i k. find_backfill t (bj_id j) = Some i \<and> bj_attempt_count j = bj_attempt_count i + 1
    \<and> find_backfill (failing_round maximum eligible locked now err t) (bj_id j) = Some k
    \<and> bj_attempt_count k = bj_attempt_count i + 1
    \<and> (if maximum \<le> bj_attempt_count i + 1 then bj_status k = BFailed else bj_status k = BRetrying)
    \<and> (\<forall>eligible' later. claimable eligible' later k \<longrightarrow> now + seconds 900 \<le> later \<and> bj_attempt_count k < maximum)"
proof -
  obtain i where i: "i \<in> set (bt_jobs t)" "j = claimed now i"
    using claim_backfill_Some[OF assms(2)] by blast
  then have "find_backfill t (bj_id j) = Some i"
    using find_backfill_iff[OF assms(1)] by (simp add: claimed_def)
  moreover have "bj_attempt_count j = bj_attempt_count i + 1"
    by (simp add: i(2) claimed_def)
  ultimately show ?thesis
    using failing_round_effect[OF assms, of maximum err]
    by (auto simp: retried_def Let_def claimable_def split: if_splits)
qed

lemma find_append: "find P (xs @ ys) = (case find P xs of None \<Rightarrow> find P ys | Some x \<Rightarrow> Some x)"
  by (induction xs) simp_all

text \<open>Asking for the same range again is asked once: the second insertion gives the number of the first job and
  changes nothing, whatever its priority and time.\<close>

theorem insert_backfill_idempotent:
  "insert_backfill now' iid' start' end' priority' key (snd (insert_backfill now iid start end priority key t))
     = insert_backfill now iid start end priority key t"
  by (cases "find (\<lambda>j. bj_idempotency_key j = key) (bt_jobs t)") (simp_all add: insert_backfill_def find_append)

section \<open>Examples\<close>

definition example_table_of_jobs :: backfill_table where
  "example_table_of_jobs = snd (insert_backfill 0 ''BTC_USD'' 0 3600000000 200 (KeyText ''k'') \<lparr>bt_jobs = [], bt_next = 1\<rparr>)"

lemma example_jobs_inv: "table_inv example_table_of_jobs"
  unfolding example_table_of_jobs_def by (rule insert_backfill_inv) (simp add: table_inv_def)

lemma example_claim:
  "\<exists>j t. claim_backfill [''BTC_USD''] {} 1000000 example_table_of_jobs = (Some j, t) \<and> bj_id j = 1 \<and> bj_attempt_count j = 1"
  by (simp add: claim_backfill_def example_table_of_jobs_def insert_backfill_def claimable_def claimed_def)

definition idle_workers :: backfill_state where
  "idle_workers = \<lparr>bs_table = example_table_of_jobs, bs_tokens = {}\<rparr>"

lemma idle_workers_inv: "workers_inv idle_workers"
  by (simp add: workers_inv_def tokens_inv_def idle_workers_def example_jobs_inv)

theorem only_the_last_claimant_acts_witness:
  "\<exists>s. backfill_reach 5 idle_workers s \<and> (1, 1) \<in> bs_tokens s
     \<and> (\<forall>f k. settles f 1 k \<longrightarrow> f (bs_table s) \<noteq> bs_table s \<longrightarrow> 1 \<le> k)"
proof -
  obtain j t where c: "claim_backfill [''BTC_USD''] {} 1000000 (bs_table idle_workers) = (Some j, t)" "bj_id j = 1"
      "bj_attempt_count j = 1"
    using example_claim by (auto simp: idle_workers_def)
  let ?s = "idle_workers\<lparr>bs_table := t, bs_tokens := Set.insert (bj_id j, bj_attempt_count j) (bs_tokens idle_workers)\<rparr>"
  have r: "backfill_reach 5 idle_workers ?s"
    by (rule backfill_reach.step[OF backfill_reach.refl]) (rule backfill_step.claim[OF c(1)])
  have held: "(1, 1) \<in> bs_tokens ?s"
    using c(2,3) by simp
  show ?thesis
    using only_the_last_claimant_acts [OF r idle_workers_inv, THEN conjunct2] r held
    by (intro exI[of _ ?s]) blast
qed

theorem settled_backfill_is_final_witness:
  "distinct (map bj_id (bt_jobs (bs_table idle_workers)))"
  using settled_backfill_is_final [OF backfill_reach.refl idle_workers_inv] by blast

theorem failing_backfill_ends_witness:
  "\<exists>k. find_backfill (failing_round 1 [''BTC_USD''] {} 1000000 ''x'' example_table_of_jobs) 1 = Some k \<and> bj_status k = BFailed"
proof -
  obtain j t where c: "claim_backfill [''BTC_USD''] {} 1000000 example_table_of_jobs = (Some j, t)" "bj_id j = 1"
      "bj_attempt_count j = 1"
    using example_claim by blast
  obtain i :: backfill_job and k where k: "find_backfill (failing_round 1 [''BTC_USD''] {} 1000000 ''x'' example_table_of_jobs) 1 = Some k"
      "bj_attempt_count j = bj_attempt_count i + 1"
      "if (1::int) \<le> bj_attempt_count i + 1 then bj_status k = BFailed else bj_status k = BRetrying"
    using failing_backfill_ends [OF example_jobs_inv c(1), where maximum = 1 and err = "''x''"] unfolding c(2) by blast
  show ?thesis
    using k c(3) by simp
qed

end
