(* ===== verification/Backfill.thy ===== *)
theory Backfill
  imports Refresh History_Parsers Backfill_Jobs
begin

text \<open>
  Model of \<open>PricingBackfillQueue\<close> in \<open>apps/api/app/pricing/backfill.py\<close>: asking for the history of a range, taking over the
  requests that Redis kept, and processing the jobs, with the pages of a history, the quotes that are stored for its
  points and the counts of a round. The table of the jobs is in \<open>Backfill_Jobs\<close>.

  \<^item> \<open>benv\<close> adds to the environment of the service what only the backfill uses: the HTTP client as a function of address,
    parameters and headers, the statuses for which \<open>raise_for_status\<close> raises, the rows other transactions have locked,
    and what other workers do while this one waits (\<open>be_pause\<close>).
  \<^item> \<open>sv_db_up\<close> and \<open>sv_queue_up\<close> say whether the database and the streams of Redis answer during the operation.
  \<^item> An exception inside a job is the name of its class, which is all that is recorded of it. The database answers the
    transactions of a job once it has answered the claim.
  \<^item> The counts of a round are given as the list of what happened to each job.
\<close>

section \<open>The queue\<close>

datatype pause = BeforePage nat | AfterRenewal nat

datatype param = PText string | PNum int

type_synonym params = "(string \<times> param) list"

record backfill_request =
  rq_instrument_id :: string
  rq_range_start :: instant
  rq_range_end :: instant
  rq_priority :: int
  rq_key :: idem_key

record 's bworld =
  bw_world :: "'s sworld"
  bw_table :: backfill_table
  bw_stream :: "(int \<times> backfill_request) list"
  bw_next_stream :: int

record 's benv =
  be_service :: "('s, json) senv"
  be_rt :: text_rt
  be_urlparse :: "string \<Rightarrow> url_parts"
  be_http :: "string \<Rightarrow> params \<Rightarrow> (string \<times> string) list \<Rightarrow> string + json http_response"
  be_status_error :: "int \<Rightarrow> bool"
  be_instrument_budgets :: "string \<rightharpoonup> instrument_budget_policy"
  be_locked :: "int set"
  be_pause :: "pause \<Rightarrow> 's bworld \<Rightarrow> 's bworld"
  be_slow :: "nat \<Rightarrow> bool"
  be_batch_size :: nat
  be_maximum_attempts :: int

record enqueue_result =
  er_status :: string
  er_key :: idem_key
  er_job :: "int option"
  er_stream :: "int option"

definition be_now :: "'s benv \<Rightarrow> instant" where
  "be_now env = sv_now (be_service env)"

definition backfill_enabled :: "'s benv \<Rightarrow> string \<Rightarrow> bool" where
  "backfill_enabled env iid =
     (let s = be_service env in feature_enabled (sv_loads s) (sv_features s) (sv_op_db s) ''backfill_enabled'' iid)"

definition set_redis :: "'s \<Rightarrow> 's bworld \<Rightarrow> 's bworld" where
  "set_redis s w = w\<lparr>bw_world := (bw_world w)\<lparr>sw_providers := (sw_providers (bw_world w))\<lparr>w_redis := s\<rparr>\<rparr>\<rparr>"

definition redis_of :: "'s bworld \<Rightarrow> 's" where
  "redis_of w = w_redis (sw_providers (bw_world w))"

text \<open>\<open>_history_provider\<close>: the first provider that may be asked for a history.\<close>

definition history_provider :: "'s benv \<Rightarrow> string \<Rightarrow> bool \<Rightarrow> provider_definition option result" where
  "history_provider env iid independent_of_live =
     ebind (service_providers_for (be_service env) iid []) (\<lambda>ps.
     Inr (find (\<lambda>p. p_enabled p \<and> configured p (sv_settings (be_service env)) \<and> or_text (p_history_url p) [] \<noteq> []
            \<and> or_text (p_history_parser_id p) [] \<noteq> [] \<and> (\<not> independent_of_live \<or> \<not> p_history_requires_live_quote p)) ps))"

section \<open>Asking for a history\<close>

definition range_key :: "string \<Rightarrow> instant \<Rightarrow> instant \<Rightarrow> idem_key" where
  "range_key iid start end = KeyDigest [PStr iid, PIso start, PIso end]"

definition enqueue ::
  "'s benv \<Rightarrow> string \<Rightarrow> py_datetime \<Rightarrow> py_datetime \<Rightarrow> int \<Rightarrow> 's bworld \<Rightarrow> enqueue_result result \<times> 's bworld" where
  "enqueue env iid range_start range_end priority w =
     (case service_instrument (be_service env) iid of
        Inl e \<Rightarrow> (Inl e, w)
      | Inr i \<Rightarrow>
          let start = ensure_utc range_start; end = ensure_utc range_end; name = i_instrument_id i; key = range_key name start end;
              result = (\<lambda>status job stream. \<lparr>er_status = status, er_key = key, er_job = job, er_stream = stream\<rparr>) in
          if start \<ge> end then (Inl (ValueError ''Backfill range must have a positive duration''), w)
          else if \<not> i_enabled i \<or> \<not> backfill_enabled env name then (Inr (result ''disabled'' None None), w)
          else
            case history_provider env name False of
              Inl e \<Rightarrow> (Inl e, w)
            | Inr None \<Rightarrow> (Inr (result ''unsupported'' None None), w)
            | Inr (Some _) \<Rightarrow>
                if sv_db_up (be_service env) then
                  (let r = insert_backfill (be_now env) name start end priority key (bw_table w)
                   in (Inr (result ''queued'' (Some (fst r)) None), w\<lparr>bw_table := snd r\<rparr>))
                else if \<not> sv_queue_up (be_service env) then (Inl (RedisUnavailable ''xadd''), w)
                else
                  (Inr (result ''queued_redis'' None (Some (bw_next_stream w))),
                   w\<lparr>bw_stream := bw_stream w @ [(bw_next_stream w, \<lparr>rq_instrument_id = name, rq_range_start = start,
                        rq_range_end = end, rq_priority = priority, rq_key = key\<rparr>)],
                     bw_next_stream := bw_next_stream w + 1\<rparr>))"

text \<open>Requests of charts are coalesced: one for each range in buckets within a minute.\<close>

definition bucket_of :: "instant \<Rightarrow> int \<Rightarrow> int" where
  "bucket_of t bucket_seconds = trunc (total_seconds t) div bucket_seconds"

definition bucket_text :: "string \<Rightarrow> instant \<Rightarrow> instant \<Rightarrow> int \<Rightarrow> string" where
  "bucket_text iid start end bucket_seconds =
     iid @ ''|'' @ int_text (bucket_of start bucket_seconds) @ ''|'' @ int_text (bucket_of end bucket_seconds)
       @ ''|'' @ int_text bucket_seconds"

definition enqueue_automatic ::
  "'s benv \<Rightarrow> string \<Rightarrow> py_datetime \<Rightarrow> py_datetime \<Rightarrow> int \<Rightarrow> int \<Rightarrow> 's bworld \<Rightarrow> enqueue_result result \<times> 's bworld" where
  "enqueue_automatic env iid range_start range_end bucket_seconds priority w =
     (let s = be_service env;
          found = ebind (get_instrument (sv_defs s) iid) (\<lambda>d.
            ebind (operational_instruments (sv_loads s) (sv_defs s) (sv_op_db s) [i_instrument_id d]) (\<lambda>m.
            case m (i_instrument_id d) of None \<Rightarrow> Inl (KeyErr (i_instrument_id d)) | Some i \<Rightarrow> Inr i))
      in case found of
        Inl e \<Rightarrow> (Inl e, w)
      | Inr i \<Rightarrow>
          let start = ensure_utc range_start; end = ensure_utc range_end; name = i_instrument_id i;
              raw = bucket_text name start end bucket_seconds;
              nothing = (\<lambda>status. Inr \<lparr>er_status = status, er_key = KeyText raw, er_job = None, er_stream = None\<rparr>) in
          if start \<ge> end \<or> bucket_seconds \<le> 0 then
            (Inl (ValueError ''Automatic backfill range and bucket must be positive''), w)
          else if \<not> i_enabled i \<or> \<not> backfill_enabled env name then (nothing ''disabled'', w)
          else
            case acquire (sv_ops s) (redis_of w) (''pricing:backfill-auto:'' @ raw) 60000 (sv_owner s) of
              Inl _ \<Rightarrow> (nothing ''deferred'', w)
            | Inr (None, s1) \<Rightarrow> (nothing ''coalesced'', set_redis s1 w)
            | Inr (Some l, s1) \<Rightarrow>
                let r = enqueue env name (utc start) (utc end) priority (set_redis s1 w);
                    keep = (case fst r of Inl _ \<Rightarrow> False | Inr x \<Rightarrow> er_status x \<in> {''queued'', ''queued_redis''})
                in (fst r, if keep then snd r else set_redis (snd (release (sv_ops s) (redis_of (snd r)) l)) (snd r)))"

text \<open>\<open>_drain_redis_jobs\<close>: a request leaves the stream once its job is in the table.\<close>

primrec drain_requests :: "'s benv \<Rightarrow> (int \<times> backfill_request) list \<Rightarrow> 's bworld \<Rightarrow> 's bworld" where
  "drain_requests env [] w = w"
| "drain_requests env (r # rs) w =
     (if sv_db_up (be_service env) then
        (let q = snd r; t = snd (insert_backfill (be_now env) (rq_instrument_id q) (rq_range_start q) (rq_range_end q)
               (rq_priority q) (rq_key q) (bw_table w))
         in drain_requests env rs (w\<lparr>bw_table := t, bw_stream := filter (\<lambda>e. fst e \<noteq> fst r) (bw_stream w)\<rparr>))
      else w)"

definition drain_redis_jobs :: "'s benv \<Rightarrow> nat \<Rightarrow> 's bworld \<Rightarrow> 's bworld result" where
  "drain_redis_jobs env maximum w =
     (if \<not> sv_queue_up (be_service env) then Inl (RedisUnavailable ''xrange'')
      else Inr (drain_requests env (take (max 1 maximum) (bw_stream w)) w))"

section \<open>The request for a history\<close>

text \<open>The name of the class of an exception.\<close>

fun error_name :: "py_error \<Rightarrow> string" where
  "error_name (ValueError _) = ''ValueError''"
| "error_name (TypeError _) = ''TypeError''"
| "error_name (KeyErr _) = ''KeyError''"
| "error_name IndexErr = ''IndexError''"
| "error_name (InvalidOp _) = ''InvalidOperation''"
| "error_name DivisionByZero = ''ZeroDivisionError''"
| "error_name OverflowErr = ''OverflowError''"
| "error_name (AttributeErr _) = ''AttributeError''"
| "error_name (UnknownInstrument _) = ''UnknownInstrumentError''"
| "error_name (DerivedPriceUnavailable _) = ''DerivedPriceUnavailable''"
| "error_name (RefreshSuspended _) = ''PricingRefreshSuspended''"
| "error_name LeaseLost = ''PricingLeaseLost''"
| "error_name (RedisUnavailable _) = ''PricingRedisUnavailable''"
| "error_name DatabaseErr = ''OperationalError''"
| "error_name _ = ''RuntimeError''"

fun parse_error_name :: "parse_error \<Rightarrow> string" where
  "parse_error_name (ParserErr _) = ''ParserError''"
| "parse_error_name (ParseOther e) = error_name e"

text \<open>The date of an instant in UTC, as \<open>YYYY-MM-DD\<close>.\<close>

definition civil_date :: "instant \<Rightarrow> int \<times> int \<times> int" where
  "civil_date t =
     (let z = t div 86400000000 + 719468; era = z div 146097; doe = z mod 146097;
          yoe = (doe - doe div 1460 + doe div 36524 - doe div 146096) div 365;
          doy = doe - (365 * yoe + yoe div 4 - yoe div 100); mp = (5 * doy + 2) div 153;
          d = doy - (153 * mp + 2) div 5 + 1; m = (if mp < 10 then mp + 3 else mp - 9);
          y = yoe + era * 400
      in (if m \<le> 2 then y + 1 else y, m, d))"

definition padded :: "nat \<Rightarrow> int \<Rightarrow> string" where
  "padded n x = (let s = int_text x in replicate (n - length s) (CHR ''0'') @ s)"

definition date_iso :: "instant \<Rightarrow> string" where
  "date_iso t = (case civil_date t of (y, m, d) \<Rightarrow> padded 4 y @ ''-'' @ padded 2 m @ ''-'' @ padded 2 d)"

text \<open>The days that cover a range: the quotient is one of floats.\<close>

definition history_days :: "instant \<Rightarrow> instant \<Rightarrow> int" where
  "history_days start end = max 1 (min 365 (trunc (round_sig 2 53 (total_seconds (end - start) / 86400)) + 1))"

fun history_params :: "history_parser \<Rightarrow> instant \<Rightarrow> instant \<Rightarrow> params" where
  "history_params (CoinGeckoHistory _) start end =
     [(''vs_currency'', PText ''usd''), (''days'', PText (int_text (history_days start end)))]"
| "history_params (ServixHistory _ _ _) start end = [(''from'', PText (date_iso start)), (''to'', PText (date_iso end))]"
| "history_params (NobitexUdfHistory symbol) start end =
     [(''symbol'', PText symbol), (''resolution'', PText ''60''), (''from'', PNum (trunc (total_seconds start))),
      (''to'', PNum (trunc (total_seconds end)))]"

definition history_options ::
  "'s benv \<Rightarrow> provider_definition \<Rightarrow> history_parser \<Rightarrow> instant \<Rightarrow> instant
   \<Rightarrow> string + params \<times> (string \<times> string) list" where
  "history_options env p parser start end =
     (let st = sv_settings (be_service env); url = or_text (p_history_url p) [];
          headers = fold (\<lambda>(k, v). put_header k v) (p_static_headers p) [] in
      ebind (require (url \<noteq> []) ''RuntimeError'') (\<lambda>_.
      ebind (case validate_destination (be_urlparse env) (setting st ''pricing_provider_allowed_hosts'') (p\<lparr>p_url := url\<rparr>) of
               Inl _ \<Rightarrow> Inl ''ProviderCallFailure'' | Inr u \<Rightarrow> Inr u) (\<lambda>_.
      if or_text (p_api_key_setting p) [] = [] then Inr (history_params parser start end, headers)
      else
        let key = setting st (or_text (p_api_key_setting p) []); header = or_text (p_api_key_header p) [] in
        ebind (require (key \<noteq> [] \<and> header \<noteq> []) ''RuntimeError'') (\<lambda>_.
        Inr (history_params parser start end, put_header header key headers)))))"

section \<open>The pages of a history\<close>

text \<open>What ends a job early: a further page has no budget, or an exception, by the name of its class.\<close>

datatype history_failure = PageDeferred | HistoryFailed string

text \<open>What one job has at hand while it runs.\<close>

record history_task =
  ht_job :: backfill_job
  ht_provider :: provider_definition
  ht_parser :: history_parser
  ht_instrument :: instrument_definition
  ht_params :: params
  ht_headers :: "(string \<times> string) list"

definition hbind ::
  "(history_failure + 'a) \<times> 'w \<Rightarrow> ('a \<Rightarrow> 'w \<Rightarrow> (history_failure + 'b) \<times> 'w) \<Rightarrow> (history_failure + 'b) \<times> 'w" where
  "hbind m f = (case fst m of Inl e \<Rightarrow> (Inl e, snd m) | Inr x \<Rightarrow> f x (snd m))"

definition paginated_udf :: "history_parser \<Rightarrow> bool" where
  "paginated_udf parser = (case parser of NobitexUdfHistory _ \<Rightarrow> True | _ \<Rightarrow> False)"

text \<open>The claim is renewed; a job that another worker has taken over is left to it.\<close>

definition renew_claim :: "'s benv \<Rightarrow> backfill_job \<Rightarrow> 's bworld \<Rightarrow> (history_failure + unit) \<times> 's bworld" where
  "renew_claim env job w =
     (let r = renew_backfill (be_now env) (bj_id job) (Some (bj_attempt_count job)) (bw_table w)
      in (if fst r then Inr () else Inl (HistoryFailed ''RuntimeError''), w\<lparr>bw_table := snd r\<rparr>))"

definition history_budget :: "'s benv \<Rightarrow> provider_definition \<Rightarrow> 's bworld \<Rightarrow> budget_decision result \<times> 's bworld" where
  "history_budget env p w =
     (case consume (sv_ops (be_service env)) (redis_of w) (be_instrument_budgets env) p FOR_BACKFILL
             (sv_unix_time (be_service env)) of
        Inl e \<Rightarrow> (Inl e, w)
      | Inr (d, s) \<Rightarrow> (Inr d, set_redis s w))"

text \<open>A further page waits, renews the claim and asks for budget.\<close>

definition page_permission :: "'s benv \<Rightarrow> history_task \<Rightarrow> nat \<Rightarrow> 's bworld \<Rightarrow> (history_failure + unit) \<times> 's bworld" where
  "page_permission env k page w =
     (if page \<le> 1 then (Inr (), w)
      else hbind (renew_claim env (ht_job k) (be_pause env (BeforePage page) w)) (\<lambda>_ w1.
        case history_budget env (ht_provider k) w1 of
          (Inl e, w2) \<Rightarrow> (Inl (HistoryFailed (error_name e)), w2)
        | (Inr d, w2) \<Rightarrow> (if bd_allowed d then Inr () else Inl PageDeferred, w2)))"

definition page_params :: "history_task \<Rightarrow> nat \<Rightarrow> params" where
  "page_params k page = (if paginated_udf (ht_parser k) then ht_params k @ [(''page'', PNum (int page))] else ht_params k)"

definition history_page ::
  "'s benv \<Rightarrow> history_task \<Rightarrow> nat \<Rightarrow> 's bworld \<Rightarrow> (history_failure + json \<times> history_point list) \<times> 's bworld" where
  "history_page env k page w =
     (let p = ht_provider k; failed = (\<lambda>name. Inl (HistoryFailed name)) in
      case be_http env (or_text (p_history_url p) []) (page_params k page) (ht_headers k) of
        Inl name \<Rightarrow> (failed name, w)
      | Inr rs \<Rightarrow>
          if rs_status rs = 429 then
            (failed ''RuntimeError'', set_redis (record_rate_limit (sv_ops (be_service env)) (redis_of w) p) w)
          else if be_status_error env (rs_status rs) then (failed ''HTTPStatusError'', w)
          else if sum_list (rs_chunks rs) > min (p_maximum_payload_bytes p * 4) 4194304 then (failed ''ValueError'', w)
          else
            (case rs_body rs of
               JsonBody payload \<Rightarrow>
                 (case parse_history_with (be_rt env) (ht_parser k) payload (ht_instrument k)
                         (bj_range_start (ht_job k)) (bj_range_end (ht_job k)) of
                    Inl e \<Rightarrow> failed (parse_error_name e)
                  | Inr points \<Rightarrow> Inr (payload, points))
             | _ \<Rightarrow> failed ''JSONDecodeError'', w))"

text \<open>Points of a page join those seen so far; a second point for a time must be the same.\<close>

primrec merge_page :: "history_point list \<Rightarrow> history_point list \<Rightarrow> history_failure + history_point list \<times> nat" where
  "merge_page seen [] = Inr (seen, 0)"
| "merge_page seen (h # hs) =
     (case find (\<lambda>g. hp_observed_at g = hp_observed_at h) seen of
        Some g \<Rightarrow>
          if hp_price g \<noteq> hp_price h \<or> hp_volume g \<noteq> hp_volume h then Inl (HistoryFailed ''ValueError'')
          else merge_page seen hs
      | None \<Rightarrow> ebind (merge_page (seen @ [h]) hs) (\<lambda>(s, n). Inr (s, Suc n)))"

text \<open>\<open>len(payload.get("t", []))\<close>: a number has no length.\<close>

definition raw_count :: "json \<Rightarrow> history_failure + nat" where
  "raw_count payload =
     (case payload of
        JObj kvs \<Rightarrow>
          (case map_of kvs (uni ''t'') of
             None \<Rightarrow> Inr 0 | Some (JList vs) \<Rightarrow> Inr (length vs) | Some (JStr s) \<Rightarrow> Inr (length s)
           | Some (JObj es) \<Rightarrow> Inr (card (set (map fst es))) | Some _ \<Rightarrow> Inl (HistoryFailed ''TypeError''))
      | _ \<Rightarrow> Inl (HistoryFailed ''AttributeError''))"

text \<open>What follows a page: the whole history, or one more page with the points so far.\<close>

datatype page_end = Complete "history_point list" | Another "history_point list"

definition after_page :: "history_task \<Rightarrow> history_point list \<Rightarrow> json \<times> history_point list \<Rightarrow> history_failure + page_end" where
  "after_page k seen = (\<lambda>(payload, points).
     if \<not> paginated_udf (ht_parser k) then Inr (Complete points)
     else
       ebind (merge_page seen points) (\<lambda>(seen1, added).
       ebind (raw_count payload) (\<lambda>n.
       if n < 500 then Inr (Complete (sort_key hp_observed_at seen1))
       else if added = 0 \<or> length seen1 > 20000 then Inl (HistoryFailed ''ValueError'')
       else Inr (Another seen1))))"

definition one_page ::
  "'s benv \<Rightarrow> history_task \<Rightarrow> nat \<Rightarrow> history_point list \<Rightarrow> 's bworld \<Rightarrow> (history_failure + page_end) \<times> 's bworld" where
  "one_page env k page seen w =
     hbind (page_permission env k page w) (\<lambda>_ w1.
     hbind (history_page env k page w1) (\<lambda>found w2. (after_page k seen found, w2)))"

function fetch_pages ::
  "'s benv \<Rightarrow> history_task \<Rightarrow> nat \<Rightarrow> history_point list \<Rightarrow> 's bworld
   \<Rightarrow> (history_failure + history_point list) \<times> 's bworld" where
  "fetch_pages env k page seen w =
     (case one_page env k page seen w of
        (Inl e, w1) \<Rightarrow> (Inl e, w1)
      | (Inr (Complete points), w1) \<Rightarrow> (Inr points, w1)
      | (Inr (Another seen1), w1) \<Rightarrow>
          if page \<ge> 41 then (Inl (HistoryFailed ''ValueError''), w1) else fetch_pages env k (page + 1) seen1 w1)"
  by pat_completeness auto
termination
  by (relation "measure (\<lambda>(env, k, page, seen, w). 41 - page)") auto

declare fetch_pages.simps [simp del]

section \<open>Storing a history\<close>

fun history_symbol :: "history_parser \<Rightarrow> string" where
  "history_symbol (NobitexUdfHistory symbol) = symbol"
| "history_symbol (CoinGeckoHistory asset) = asset"
| "history_symbol (ServixHistory symbol _ _) = symbol"

fun history_version :: "history_parser \<Rightarrow> string" where
  "history_version (NobitexUdfHistory _) = ''nobitex-udf-history/1.0.0''"
| "history_version (CoinGeckoHistory _) = ''coingecko-market-chart/1.0.0''"
| "history_version (ServixHistory _ _ _) = ''servix-history/1.0.0''"

definition history_args :: "instant \<Rightarrow> history_task \<Rightarrow> history_point \<Rightarrow> quote_args" where
  "history_args now k h =
     (let i = ht_instrument k; p = ht_provider k in
      default_args\<lparr>a_instrument_id := i_instrument_id i, a_provider_id := p_provider_id p, a_source_type := ST_HTTP,
       a_price := PDecStr (hp_price h), a_currency := i_quote_currency i, a_weight_unit := i_weight_unit i,
       a_purity := i_purity i, a_volume := opt_dec (hp_volume h), a_observed_at := utc (hp_observed_at h),
       a_received_at := utc now, a_parser_version := history_version (ht_parser k), a_validation_status := ACCEPTED,
       a_confidence_score := PDecStr (p_trust_score p), a_is_direct := True, a_is_derived := False,
       a_source_semantic := PStr (source_semantic_value (p_source_semantic p)),
       a_source_family := PStr (p_source_family p), a_venue := PStr (p_venue p),
       a_last := (if p_selected_price_semantic p = SEL_LAST then PDecStr (hp_price h) else PNone),
       a_selected_price_semantic := PStr (price_semantic_value (p_selected_price_semantic p)),
       a_original_currency := PStr (currency_value (i_quote_currency i)), a_original_value := PDecStr (hp_price h),
       a_conversion_factor := PInt 1, a_route_id := PStr (p_route_id p @ '':history''),
       a_metadata := [''quote_role'' \<mapsto> PStr ''backfill'', ''provider_role'' \<mapsto> PStr (provider_role_value (p_role p)),
         ''history_symbol'' \<mapsto> PStr (history_symbol (ht_parser k))],
       a_persistence_status := UNPERSISTED\<rparr>)"

definition history_canonical :: "history_task \<Rightarrow> history_point \<Rightarrow> int option \<Rightarrow> canonical_quote" where
  "history_canonical k h quote_id =
     (let i = ht_instrument k; pid = p_provider_id (ht_provider k); t = hp_observed_at h in
      canonical_of (i_instrument_id i) (hp_price h) CS_CONFIRMED quote_id []
        [''primary_provider_id'' \<mapsto> PStr pid, ''provider_ids'' \<mapsto> PList [pid], ''source_count'' \<mapsto> PInt 1,
         ''direct_source_count'' \<mapsto> PInt 1, ''derived'' \<mapsto> PBool False, ''historical_backfill'' \<mapsto> PBool True]
        t t (t + seconds (i_operational_ttl_seconds i)) (t + seconds (i_stale_after_seconds i))
        (t + seconds (i_expire_after_seconds i)) ''historical_primary_provider_backfill'' NOT_REQUIRED None None)"

text \<open>A row of the table of canonical prices, or the reason there is none.\<close>

definition store_history_price ::
  "'s benv \<Rightarrow> history_task \<Rightarrow> history_point \<Rightarrow> int option \<Rightarrow> canonical_store \<Rightarrow> (history_failure + unit) \<times> canonical_store" where
  "store_history_price env k h quote_id st =
     (case ebind (canonical_create (history_canonical k h quote_id)) (\<lambda>c.
             persist_canonical (sv_db_up (be_service env)) (sv_queue_up (be_service env)) (be_now env) c st) of
        Inl e \<Rightarrow> (Inl (HistoryFailed (error_name e)), st)
      | Inr (stored, _, st1) \<Rightarrow> (if pr_persisted stored then Inr () else Inl (HistoryFailed ''RuntimeError''), st1))"

text \<open>One point: first the quote of the provider, then the canonical price that refers to it.\<close>

definition store_point :: "'s benv \<Rightarrow> history_task \<Rightarrow> history_point \<Rightarrow> 's bworld \<Rightarrow> (history_failure + unit) \<times> 's bworld" where
  "store_point env k h w =
     (case provider_quote_create (history_args (be_now env) k h) of
        Inl e \<Rightarrow> (Inl (HistoryFailed (error_name e)), w)
      | Inr q \<Rightarrow>
          let r = persist_quote (be_service env) q (bw_world w); w1 = w\<lparr>bw_world := snd r\<rparr> in
          if \<not> pr_persisted (fst (fst r)) then (Inl (HistoryFailed ''RuntimeError''), w1)
          else
            let m = store_history_price env k h (q_id (snd (fst r))) (sw_store (bw_world w1))
            in (fst m, w1\<lparr>bw_world := (bw_world w1)\<lparr>sw_store := snd m\<rparr>\<rparr>))"

text \<open>Between batches, or after a minute, the claim is renewed and other work goes on.\<close>

definition keep_claim :: "'s benv \<Rightarrow> backfill_job \<Rightarrow> nat \<Rightarrow> 's bworld \<Rightarrow> (history_failure + unit) \<times> 's bworld" where
  "keep_claim env job index w =
     (if index \<noteq> 0 \<and> (index mod max 1 (be_batch_size env) = 0 \<or> be_slow env index)
      then hbind (renew_claim env job w) (\<lambda>_ w1. (Inr (), be_pause env (AfterRenewal index) w1))
      else (Inr (), w))"

primrec store_points ::
  "'s benv \<Rightarrow> history_task \<Rightarrow> nat \<Rightarrow> history_point list \<Rightarrow> 's bworld \<Rightarrow> (history_failure + unit) \<times> 's bworld" where
  "store_points env k index [] w = (Inr (), w)"
| "store_points env k index (h # hs) w =
     hbind (keep_claim env (ht_job k) index w) (\<lambda>_ w1.
     hbind (store_point env k h w1) (\<lambda>_ w2. store_points env k (Suc index) hs w2))"

text \<open>The task of a job, with the exceptions that come before the first request.\<close>

definition history_task_of :: "'s benv \<Rightarrow> backfill_job \<Rightarrow> provider_definition \<Rightarrow> history_failure + history_task" where
  "history_task_of env job p =
     (case build_history_parser (or_text (p_history_parser_id p) []) of
        None \<Rightarrow> Inl (HistoryFailed ''ParserError'')
      | Some parser \<Rightarrow>
          (case history_options env p parser (bj_range_start job) (bj_range_end job) of
             Inl name \<Rightarrow> Inl (HistoryFailed name)
           | Inr (parameters, headers) \<Rightarrow>
               (case service_instrument (be_service env) (bj_instrument_id job) of
                  Inl e \<Rightarrow> Inl (HistoryFailed (error_name e))
                | Inr i \<Rightarrow> Inr \<lparr>ht_job = job, ht_provider = p, ht_parser = parser, ht_instrument = i,
                    ht_params = parameters, ht_headers = headers\<rparr>)))"

definition execute_history_job ::
  "'s benv \<Rightarrow> backfill_job \<Rightarrow> provider_definition \<Rightarrow> 's bworld \<Rightarrow> (history_failure + nat) \<times> 's bworld" where
  "execute_history_job env job p w =
     (if or_text (p_history_url p) [] = [] \<or> or_text (p_history_parser_id p) [] = [] then (Inr 0, w)
      else
        hbind (history_task_of env job p, w) (\<lambda>k w1.
        hbind (fetch_pages env k 1 [] w1) (\<lambda>points w2.
        hbind (store_points env k 0 points w2) (\<lambda>_ w3. (Inr (length points), w3)))))"

section \<open>A round over the jobs\<close>

text \<open>The price in Redis, where it can be read and is still live.\<close>

definition live_now :: "'s benv \<Rightarrow> string \<Rightarrow> 's bworld \<Rightarrow> bool" where
  "live_now env iid w =
     (case guarded (be_service env) ReadCanonical (store_get_canonical (be_now env) iid (sw_store (bw_world w))) of
        Inr (Some c) \<Rightarrow> be_now env \<le> c_valid_until c
      | _ \<Rightarrow> False)"

definition eligible_instrument :: "'s benv \<Rightarrow> 's bworld \<Rightarrow> string \<Rightarrow> bool result" where
  "eligible_instrument env w iid =
     ebind (service_instrument (be_service env) iid) (\<lambda>i.
     if \<not> i_enabled i \<or> \<not> backfill_enabled env iid then Inr False
     else
       ebind (history_provider env iid False) (\<lambda>found.
       case found of
         None \<Rightarrow> Inr False
       | Some p \<Rightarrow>
           if \<not> p_history_requires_live_quote p \<or> live_now env iid w then Inr True
           else ebind (history_provider env iid True) (\<lambda>independent. Inr (independent \<noteq> None))))"

definition eligible_instruments :: "'s benv \<Rightarrow> 's bworld \<Rightarrow> string list result" where
  "eligible_instruments env w =
     (let s = be_service env;
          has_history = (\<lambda>p. or_text (p_history_url p) [] \<noteq> [] \<and> or_text (p_history_parser_id p) [] \<noteq> []);
          candidates = filter (\<lambda>iid. list_ex has_history (providers_by_instrument (sv_registry s) iid))
            (map i_instrument_id (sv_defs s))
      in ebind (emap (eligible_instrument env w) candidates) (\<lambda>flags.
         Inr (map fst (filter snd (zip candidates flags)))))"

text \<open>The provider of a job; \<open>Inl\<close> with the reason to defer it.\<close>

definition job_provider :: "'s benv \<Rightarrow> backfill_job \<Rightarrow> 's bworld \<Rightarrow> (string + provider_definition) result" where
  "job_provider env job w =
     (let iid = bj_instrument_id job; live = live_now env iid w in
      if \<not> backfill_enabled env iid then Inr (Inl ''instrument_backfill_disabled'')
      else
        ebind (service_instrument (be_service env) iid) (\<lambda>i.
        if \<not> i_enabled i then Inr (Inl ''instrument_disabled'')
        else
          ebind (history_provider env iid False) (\<lambda>found.
          case found of
            None \<Rightarrow> Inr (Inl ''no_explicit_history_provider'')
          | Some p \<Rightarrow>
              ebind (if live then Inr (Some p) else history_provider env iid True) (\<lambda>chosen.
              case chosen of
                None \<Rightarrow> Inr (Inl ''live_refresh_has_priority'')
              | Some p1 \<Rightarrow>
                  if p_history_requires_live_quote p1 \<and> \<not> live then Inr (Inl ''live_refresh_has_priority'')
                  else Inr (Inr p1)))))"

datatype job_outcome = JobCompleted | JobDeferred | JobFailed

definition finish_job ::
  "'s benv \<Rightarrow> backfill_job \<Rightarrow> backfill_status \<Rightarrow> string option \<Rightarrow> 's bworld \<Rightarrow> 's bworld" where
  "finish_job env job status remark w =
     w\<lparr>bw_table := finish_backfill (be_now env) (bj_id job) status remark (Some (bj_attempt_count job)) (bw_table w)\<rparr>"

definition retry_job :: "'s benv \<Rightarrow> backfill_job \<Rightarrow> string \<Rightarrow> 's bworld \<Rightarrow> 's bworld" where
  "retry_job env job err w =
     w\<lparr>bw_table := retry_backfill (be_maximum_attempts env) (be_now env) (bj_id job) err (bj_attempt_count job) (bw_table w)\<rparr>"

text \<open>What is done with a job under its lock.\<close>

definition run_job :: "'s benv \<Rightarrow> backfill_job \<Rightarrow> provider_definition \<Rightarrow> 's bworld \<Rightarrow> job_outcome result \<times> 's bworld" where
  "run_job env job p w =
     (case history_budget env p w of
        (Inl e, w1) \<Rightarrow> (Inl e, w1)
      | (Inr d, w1) \<Rightarrow>
          if \<not> bd_allowed d then (Inr JobFailed, retry_job env job (bd_reason d) w1)
          else
            (case execute_history_job env job p w1 of
               (Inl PageDeferred, w2) \<Rightarrow> (Inr JobDeferred, finish_job env job BDeferred (Some ''history_page_budget_deferred'') w2)
             | (Inl (HistoryFailed name), w2) \<Rightarrow> (Inr JobFailed, retry_job env job (name @ '': history fetch failed'') w2)
             | (Inr n, w2) \<Rightarrow>
                 if n = 0 then (Inr JobDeferred, finish_job env job BDeferred (Some ''provider_returned_no_history'') w2)
                 else (Inr JobCompleted, finish_job env job BCompleted None w2)))"

definition with_backfill_lock ::
  "'s benv \<Rightarrow> string \<Rightarrow> (lock_lease option \<Rightarrow> 's bworld \<Rightarrow> 'a result \<times> 's bworld) \<Rightarrow> 's bworld \<Rightarrow> 'a result \<times> 's bworld" where
  "with_backfill_lock env iid body w =
     (let s = be_service env in
      case acquire (sv_ops s) (redis_of w) (backfill_key iid) 120000 (sv_owner s) of
        Inl e \<Rightarrow> (Inl e, w)
      | Inr (None, s1) \<Rightarrow> body None (set_redis s1 w)
      | Inr (Some l, s1) \<Rightarrow>
          (let r = body (Some l) (set_redis s1 w)
           in (fst r, set_redis (snd (release (sv_ops s) (redis_of (snd r)) l)) (snd r))))"

definition process_claimed :: "'s benv \<Rightarrow> backfill_job \<Rightarrow> 's bworld \<Rightarrow> job_outcome result \<times> 's bworld" where
  "process_claimed env job w =
     (case job_provider env job w of
        Inl e \<Rightarrow> (Inl e, w)
      | Inr (Inl reason) \<Rightarrow> (Inr JobDeferred, finish_job env job BDeferred (Some reason) w)
      | Inr (Inr p) \<Rightarrow>
          with_backfill_lock env (bj_instrument_id job) (\<lambda>lease w1.
            case lease of
              None \<Rightarrow> (Inr JobFailed, retry_job env job ''backfill_lock_busy'' w1)
            | Some _ \<Rightarrow> run_job env job p w1) w)"

text \<open>The loop over at most \<open>n\<close> jobs, with the outcomes so far.\<close>

primrec process_from ::
  "'s benv \<Rightarrow> string list \<Rightarrow> nat \<Rightarrow> job_outcome list \<Rightarrow> 's bworld \<Rightarrow> job_outcome list result \<times> 's bworld" where
  "process_from env eligible 0 counts w = (Inr counts, w)"
| "process_from env eligible (Suc n) counts w =
     (if \<not> sv_db_up (be_service env) then (Inl DatabaseErr, w)
      else
        (case claim_backfill eligible (be_locked env) (be_now env) (bw_table w) of
           (None, t) \<Rightarrow> (Inr counts, w\<lparr>bw_table := t\<rparr>)
         | (Some job, t) \<Rightarrow>
             (case process_claimed env job (w\<lparr>bw_table := t\<rparr>) of
                (Inl e, w1) \<Rightarrow> (Inl e, w1)
              | (Inr x, w1) \<Rightarrow> process_from env eligible n (counts @ [x]) w1)))"

definition process_jobs :: "'s benv \<Rightarrow> nat \<Rightarrow> 's bworld \<Rightarrow> job_outcome list result \<times> 's bworld" where
  "process_jobs env maximum_jobs w =
     (if \<not> sv_ping (be_service env) then (Inr [], w)
      else
        (case drain_redis_jobs env (maximum_jobs * 2) w of
           Inl e \<Rightarrow> (Inl e, w)
         | Inr w1 \<Rightarrow>
             (case eligible_instruments env w1 of
                Inl e \<Rightarrow> (Inl e, w1)
              | Inr eligible \<Rightarrow>
                  if eligible = [] then (Inr [], w1)
                  else process_from env eligible (max 1 (min maximum_jobs 20)) [] w1)))"

text \<open>\<open>_positive_int_env\<close>: a setting that is no positive integer is the default.\<close>

definition positive_int_env :: "string option \<Rightarrow> int \<Rightarrow> int" where
  "positive_int_env raw dflt =
     (case raw of
        None \<Rightarrow> dflt | Some s \<Rightarrow> (case parse_int s of Some n \<Rightarrow> if n > 0 then n else dflt | None \<Rightarrow> dflt))"

text \<open>\<open>backlog\<close>: the jobs that are not settled, and the requests Redis still keeps.\<close>

definition backlog :: "'s benv \<Rightarrow> 's bworld \<Rightarrow> nat option \<times> nat option" where
  "backlog env w =
     (if sv_db_up (be_service env) then Some (database_backlog (bw_table w)) else None,
      if sv_queue_up (be_service env) then Some (length (bw_stream w)) else None)"

section \<open>The points of a history\<close>

lemma hbind_cases:
  obtains (failed) e where "fst m = Inl e" "hbind m f = (Inl e, snd m)"
  | (more) x where "fst m = Inr x" "hbind m f = f x (snd m)"
  by (cases "fst m") (auto simp: hbind_def)

lemma hbind_Inr: "hbind m f = (Inr y, w') \<longleftrightarrow> (\<exists>x w. m = (Inr x, w) \<and> f x w = (Inr y, w'))"
  by (cases m; cases "fst m") (auto simp: hbind_def)

definition sound_points :: "history_task \<Rightarrow> history_point list \<Rightarrow> bool" where
  "sound_points k hs \<longleftrightarrow> distinct (map hp_observed_at hs)
     \<and> (\<forall>h\<in>set hs. sound_point (ht_instrument k) (bj_range_start (ht_job k)) (bj_range_end (ht_job k)) h)"

lemma merge_page_sound:
  assumes "merge_page seen hs = Inr (s, n)" "sound_points k seen"
    "\<forall>h\<in>set hs. sound_point (ht_instrument k) (bj_range_start (ht_job k)) (bj_range_end (ht_job k)) h"
  shows "sound_points k s"
  using assms
proof (induction hs arbitrary: seen n)
  case (Cons h hs)
  show ?case
  proof (cases "find (\<lambda>g. hp_observed_at g = hp_observed_at h) seen")
    case None
    then have "sound_points k (seen @ [h])"
      using Cons.prems(2,3) by (auto simp: sound_points_def find_None_iff)
    then show ?thesis
      using Cons None by (auto simp: err_simps)
  next
    case (Some g)
    then show ?thesis
      using Cons by (auto split: if_splits)
  qed
qed simp

lemma history_page_sound:
  assumes "history_page env k page w = (Inr (payload, points), w')"
  shows "sound_points k points \<and> sorted_wrt (<) (map hp_observed_at points)"
proof -
  have "parse_history_with (be_rt env) (ht_parser k) payload (ht_instrument k) (bj_range_start (ht_job k))
      (bj_range_end (ht_job k)) = Inr points"
    using assms by (auto simp: history_page_def Let_def split: sum.splits if_splits http_body.splits)
  from history_sound[OF this] show ?thesis
    by (auto simp: sound_points_def strict_sorted_iff)
qed

lemma strictly_sorted_points:
  "distinct (map hp_observed_at hs) \<Longrightarrow> sorted_wrt (<) (map hp_observed_at (sort_key hp_observed_at hs))"
  by (simp add: strict_sorted_iff distinct_map)

lemma sort_sound: "sound_points k hs \<Longrightarrow> sound_points k (sort_key hp_observed_at hs)"
  by (simp add: sound_points_def distinct_map)

lemma one_page_sound:
  assumes "one_page env k page seen w = (Inr x, w')" "sound_points k seen"
  shows "case x of Complete points \<Rightarrow> sound_points k points \<and> sorted_wrt (<) (map hp_observed_at points)
    | Another seen1 \<Rightarrow> sound_points k seen1 \<and> length seen1 \<le> 20000"
proof -
  obtain payload points w1 where p: "history_page env k page w1 = (Inr (payload, points), w')"
      "after_page k seen (payload, points) = Inr x"
    using assms(1) by (auto simp: one_page_def hbind_Inr)
  note h = history_page_sound[OF p(1)]
  show ?thesis
  proof (cases "paginated_udf (ht_parser k)")
    case True
    then obtain seen1 added n where m: "merge_page seen points = Inr (seen1, added)"
        "x = Complete (sort_key hp_observed_at seen1) \<or> x = Another seen1 \<and> length seen1 \<le> 20000"
      using p(2) by (auto simp: after_page_def err_simps split: if_splits)
    have "sound_points k seen1"
      using merge_page_sound[OF m(1) assms(2)] h by (simp add: sound_points_def)
    then show ?thesis
      using m(2) sort_sound strictly_sorted_points by (auto simp: sound_points_def)
  next
    case False
    then show ?thesis
      using p(2) h by (auto simp: after_page_def)
  qed
qed

lemma fetch_pages_sound:
  assumes "fetch_pages env k page seen w = (Inr points, w')" "sound_points k seen"
  shows "sound_points k points \<and> sorted_wrt (<) (map hp_observed_at points)"
  using assms
proof (induction env k page seen w rule: fetch_pages.induct)
  case (1 env k page seen w)
  obtain x w1 where x: "one_page env k page seen w = (x, w1)"
    by fastforce
  show ?case
  proof (cases x)
    case (Inl e)
    then show ?thesis
      using 1(2) x by (simp add: fetch_pages.simps[of env k page])
  next
    case (Inr r)
    note s = one_page_sound[OF x[unfolded Inr] 1(3)]
    show ?thesis
    proof (cases r)
      case (Complete ps)
      then show ?thesis
        using 1(2) x Inr s by (simp add: fetch_pages.simps[of env k page])
    next
      case (Another seen1)
      then have "\<not> 41 \<le> page" "fetch_pages env k (page + 1) seen1 w1 = (Inr points, w')" "sound_points k seen1"
        using 1(2) x Inr s by (auto simp: fetch_pages.simps[of env k page] split: if_splits)
      then show ?thesis
        using 1(1)[OF x[symmetric] Inr Another] by blast
    qed
  qed
qed

end
