(* ===== verification/Backfill_Runs.thy ===== *)
theory Backfill_Runs
  imports Backfill
begin

text \<open>
  What the jobs of \<open>Backfill\<close> may change. The locale \<open>history_run\<close> is the contract of one job: a relation between worlds
  that every single step of the job keeps holds between the world before the job and the one after it. It is used for
  three relations: that no reader of prices notices, that new rows come from sound points of the range, and that the
  table of the jobs moves by steps of the workers of \<open>Backfill_Jobs\<close>.
\<close>

section \<open>The contract of a job\<close>

locale history_run =
  fixes env :: "'s benv" and job :: backfill_job and p :: provider_definition
    and R :: "'s bworld \<Rightarrow> 's bworld \<Rightarrow> bool"
  assumes stay: "R w w"
    and follow: "R u v \<Longrightarrow> R v w \<Longrightarrow> R u w"
    and pause: "R w (be_pause env x w)"
    and redis: "R w (set_redis s w)"
    and renewal: "R w (snd (renew_claim env job w))"
    and quoted: "R w (w\<lparr>bw_world := snd (persist_quote (be_service env) q (bw_world w))\<rparr>)"
    and priced: "history_task_of env job p = Inr k
      \<Longrightarrow> sound_point (ht_instrument k) (bj_range_start job) (bj_range_end job) h
      \<Longrightarrow> R w (w\<lparr>bw_world := (bw_world w)\<lparr>sw_store := snd (store_history_price env k h qid (sw_store (bw_world w)))\<rparr>\<rparr>)"
begin

lemma binds:
  assumes "R w (snd m)" "\<And>x. fst m = Inr x \<Longrightarrow> R (snd m) (snd (f x (snd m)))"
  shows "R w (snd (hbind m f))"
  using assms follow by (cases rule: hbind_cases[of m f]) auto

lemma budget: "R w (snd (history_budget env q w))"
  using stay redis by (auto simp: history_budget_def split: sum.split)

lemma permission: "ht_job k = job \<Longrightarrow> R w (snd (page_permission env k page w))"
  unfolding page_permission_def
proof (split if_split, intro conjI impI, goal_cases)
  case 2
  have "R w (snd (renew_claim env (ht_job k) (be_pause env (BeforePage page) w)))"
    using follow[OF pause renewal] 2(1) by simp
  then show ?case
  proof (rule binds)
    fix x
    obtain d w2 where d: "history_budget env (ht_provider k) (snd (renew_claim env (ht_job k) (be_pause env (BeforePage page) w))) = (d, w2)"
      by fastforce
    then show "R (snd (renew_claim env (ht_job k) (be_pause env (BeforePage page) w)))
        (snd (case history_budget env (ht_provider k) (snd (renew_claim env (ht_job k) (be_pause env (BeforePage page) w))) of
          (Inl e, w2) \<Rightarrow> (Inl (HistoryFailed (error_name e)), w2)
        | (Inr d, w2) \<Rightarrow> (if bd_allowed d then Inr () else Inl PageDeferred, w2)))"
      using budget[of "snd (renew_claim env (ht_job k) (be_pause env (BeforePage page) w))" "ht_provider k"]
      by (cases d) simp_all
  qed
qed (simp add: stay)

lemma page: "R w (snd (history_page env k page w))"
  using stay redis by (auto simp: history_page_def Let_def split: sum.split http_body.split)

lemma one: "ht_job k = job \<Longrightarrow> R w (snd (one_page env k page seen w))"
  unfolding one_page_def using permission stay page by (auto intro!: binds)

lemma pages: "ht_job k = job \<Longrightarrow> R w (snd (fetch_pages env k page seen w))"
proof (induction "41 - page" arbitrary: page seen w rule: less_induct)
  case less
  obtain x w1 where x: "one_page env k page seen w = (x, w1)"
    by fastforce
  then have R: "R w w1"
    using one[OF less(2), of w page seen] by simp
  have "R w1 (snd (fetch_pages env k (page + 1) seen1 w1))" if "\<not> page \<ge> 41" for seen1
    using less(1)[of "page + 1"] less(2) that by simp
  then show ?case
    using R follow x by (auto simp: fetch_pages.simps[of env k page] split: sum.split page_end.split)
qed

lemma claim_kept: "R w (snd (keep_claim env job index w))"
  using stay renewal follow pause by (auto simp: keep_claim_def intro!: binds)

lemma point:
  assumes "history_task_of env job p = Inr k" "sound_point (ht_instrument k) (bj_range_start job) (bj_range_end job) h"
  shows "R w (snd (store_point env k h w))"
proof (cases "provider_quote_create (history_args (be_now env) k h)")
  case (Inr q)
  note w1 = quoted[of w q]
  show ?thesis
    using Inr w1 follow[OF w1 priced[OF assms]] by (simp add: store_point_def Let_def)
qed (simp add: store_point_def stay)

lemma points:
  assumes "history_task_of env job p = Inr k"
  shows "\<forall>h\<in>set hs. sound_point (ht_instrument k) (bj_range_start job) (bj_range_end job) h
    \<Longrightarrow> R w (snd (store_points env k index hs w))"
proof (induction hs arbitrary: index w)
  case (Cons h hs)
  have j: "ht_job k = job"
    using assms by (auto simp: history_task_of_def split: option.splits sum.splits)
  show ?case
    using Cons claim_kept point[OF assms] j by (auto intro!: binds)
qed (simp add: stay)

lemma executes: "R w (snd (execute_history_job env job p w))"
proof (cases "or_text (p_history_url p) [] = [] \<or> or_text (p_history_parser_id p) [] = []")
  case False
  have "R w (snd (hbind (fetch_pages env k 1 [] w) (\<lambda>points w2.
      hbind (store_points env k 0 points w2) (\<lambda>_ w3. (Inr (length points), w3)))))"
    if k: "history_task_of env job p = Inr k" for k
  proof (rule binds)
    have j: "ht_job k = job"
      using k by (auto simp: history_task_of_def split: option.splits sum.splits)
    then show "R w (snd (fetch_pages env k 1 [] w))"
      by (rule pages)
    fix hs
    assume "fst (fetch_pages env k 1 [] w) = Inr hs"
    then have "fetch_pages env k 1 [] w = (Inr hs, snd (fetch_pages env k 1 [] w))"
      by (metis prod.collapse)
    from fetch_pages_sound[OF this] have "\<forall>h\<in>set hs. sound_point (ht_instrument k) (bj_range_start job) (bj_range_end job) h"
      using j by (simp add: sound_points_def)
    then show "R (snd (fetch_pages env k 1 [] w)) (snd (hbind (store_points env k 0 hs (snd (fetch_pages env k 1 [] w)))
        (\<lambda>_ w3. (Inr (length hs), w3))))"
      using points[OF k] stay by (auto intro!: binds)
  qed
  then show ?thesis
    unfolding execute_history_job_def if_not_P[OF False] hbind_def[of "(history_task_of env job p, w)"]
    using stay by (auto split: sum.split)
qed (simp add: execute_history_job_def stay)

end

section \<open>Readers of prices\<close>

text \<open>No reader of prices can tell the worlds apart, if none can tell what other workers do meanwhile.\<close>

definition unnoticed :: "'s bworld \<Rightarrow> 's bworld \<Rightarrow> bool" where
  "unnoticed w w' \<longleftrightarrow> reads_alike (sw_store (bw_world w)) (sw_store (bw_world w'))"

definition quiet_pauses :: "'s benv \<Rightarrow> bool" where
  "quiet_pauses env \<longleftrightarrow> (\<forall>x w. unnoticed w (be_pause env x w))"

lemma unnoticed_trans: "unnoticed u v \<Longrightarrow> unnoticed v w \<Longrightarrow> unnoticed u w"
  by (simp add: unnoticed_def reads_alike_def)

lemma unnoticed_simps [simp]:
  "unnoticed w w"
  "unnoticed w (set_redis s v) = unnoticed w v"
  "unnoticed w (v\<lparr>bw_table := t\<rparr>) = unnoticed w v"
  "unnoticed w (finish_job env job status remark v) = unnoticed w v"
  "unnoticed w (retry_job env job err v) = unnoticed w v"
  by (simp_all add: unnoticed_def set_redis_def finish_job_def retry_job_def)

lemma renew_claim_world [simp]: "bw_world (snd (renew_claim env job w)) = bw_world w"
  by (simp add: renew_claim_def Let_def)

lemma canonical_create_summary: "canonical_create c = Inr d \<Longrightarrow> c_source_summary d = c_source_summary c"
  by (auto simp: canonical_create_iff)

lemma store_history_price_alike: "reads_alike st (snd (store_history_price env k h qid st))"
proof (cases "ebind (canonical_create (history_canonical k h qid)) (\<lambda>c.
    persist_canonical (sv_db_up (be_service env)) (sv_queue_up (be_service env)) (be_now env) c st)")
  case (Inr x)
  obtain stored c1 st1 where x: "x = (stored, c1, st1)"
    by (cases x) auto
  then obtain c where c: "canonical_create (history_canonical k h qid) = Inr c"
      "persist_canonical (sv_db_up (be_service env)) (sv_queue_up (be_service env)) (be_now env) c st = Inr (stored, c1, st1)"
    using Inr by (auto simp: err_simps)
  have "c_source_summary c ''historical_backfill'' = Some (PBool True)"
    using canonical_create_summary[OF c(1)] by (simp add: history_canonical_def canonical_of_def Let_def)
  from historical_persist_alike[OF c(2) this] show ?thesis
    using Inr x by (simp add: store_history_price_def)
qed (simp add: store_history_price_def)

interpretation unnoticed: history_run env job p "\<lambda>w w'. quiet_pauses env \<longrightarrow> unnoticed w w'"
  for env :: "'s benv" and job p
proof
  show "quiet_pauses env \<longrightarrow> unnoticed u w"
    if "quiet_pauses env \<longrightarrow> unnoticed u v" "quiet_pauses env \<longrightarrow> unnoticed v w" for u v w :: "'s bworld"
    using that unnoticed_trans by blast
  show "quiet_pauses env \<longrightarrow> unnoticed w (w\<lparr>bw_world := (bw_world w)\<lparr>sw_store :=
      snd (store_history_price env k h qid (sw_store (bw_world w)))\<rparr>\<rparr>)" for w :: "'s bworld" and k h qid
    by (simp add: unnoticed_def store_history_price_alike)
qed (simp_all add: quiet_pauses_def unnoticed_def set_redis_def)

lemma history_budget_unnoticed [simp]: "unnoticed w (snd (history_budget env p w))"
  by (auto simp: history_budget_def split: sum.split)

lemma run_job_unnoticed:
  assumes "quiet_pauses env"
  shows "unnoticed w (snd (run_job env job p w))"
proof -
  obtain d w1 where d: "history_budget env p w = (d, w1)"
    by fastforce
  then have w1: "unnoticed w w1"
    using history_budget_unnoticed[of w env p] by simp
  have "unnoticed w (snd (execute_history_job env job p w1))"
    using unnoticed_trans[OF w1] unnoticed.executes[where env = env and job = job and p = p and w = w1] assms by blast
  then show ?thesis
    using w1 d by (cases d) (auto simp: run_job_def split: sum.splits history_failure.splits prod.splits)
qed

lemma process_claimed_unnoticed:
  assumes "quiet_pauses env"
  shows "unnoticed w (snd (process_claimed env job w))"
proof -
  have "unnoticed w (snd (run_job env job p (set_redis s w)))" for p s
    using unnoticed_trans[of w "set_redis s w"] run_job_unnoticed[OF assms] by simp
  then show ?thesis
    by (auto simp: process_claimed_def with_backfill_lock_def Let_def split: sum.split option.split)
qed

lemma process_from_unnoticed:
  assumes "quiet_pauses env"
  shows "unnoticed w (snd (process_from env eligible n counts w))"
proof (induction n arbitrary: counts w)
  case (Suc n)
  obtain j t where c: "claim_backfill eligible (be_locked env) (be_now env) (bw_table w) = (j, t)"
    by fastforce
  show ?case
  proof (cases j)
    case (Some job)
    obtain x w1 where x: "process_claimed env job (w\<lparr>bw_table := t\<rparr>) = (x, w1)"
      by fastforce
    have "unnoticed w w1"
      using process_claimed_unnoticed[OF assms, of "w\<lparr>bw_table := t\<rparr>" job] x by (simp add: unnoticed_def)
    then show ?thesis
      using Suc unnoticed_trans[of w w1] c x Some by (auto split: sum.split)
  qed (simp add: c)
qed simp

lemma drain_world: "bw_world (drain_requests env rs w) = bw_world w"
  by (induction rs arbitrary: w) (simp_all add: Let_def)

lemma process_jobs_unnoticed:
  assumes "quiet_pauses env"
  shows "unnoticed w (snd (process_jobs env maximum w))"
proof -
  have *: "unnoticed w w1" if "drain_redis_jobs env n w = Inr w1" for n w1
    using that by (auto simp: drain_redis_jobs_def unnoticed_def drain_world split: if_splits)
  then have "unnoticed w (snd (process_from env eligible n [] w1))" if "drain_redis_jobs env (maximum * 2) w = Inr w1" for eligible n w1
    using that unnoticed_trans process_from_unnoticed[OF assms] by blast
  then show ?thesis
    using * by (auto simp: process_jobs_def split: sum.split)
qed

text \<open>Claim C8. Histories stay out of the current prices: whatever a round of the backfill stores, every reader of one
  price or of all of them, at any time and under any settings, gets afterwards what it got before.\<close>

theorem backfill_stays_out:
  assumes "quiet_pauses env"
  shows "get_canonical env' iid (sw_store (bw_world (snd (process_jobs env maximum w))))
      = get_canonical env' iid (sw_store (bw_world w))
    \<and> get_all_canonical env' (sw_store (bw_world (snd (process_jobs env maximum w))))
      = get_all_canonical env' (sw_store (bw_world w))"
  using process_jobs_unnoticed[OF assms, of w maximum] by (simp add: unnoticed_def reads_alike_canonical reads_alike_all)

section \<open>Stored prices\<close>

definition price_rows_of :: "'s bworld \<Rightarrow> canonical_quote set" where
  "price_rows_of w = set (cs_rows (sw_store (bw_world w)))"

text \<open>A row made of a point of the range of a job.\<close>

definition history_row :: "'s benv \<Rightarrow> backfill_job \<Rightarrow> canonical_quote \<Rightarrow> bool" where
  "history_row env job r \<longleftrightarrow>
     (\<exists>i x. service_instrument (be_service env) (bj_instrument_id job) = Inr i \<and> c_instrument_id r = i_instrument_id i
        \<and> bj_range_start job \<le> c_observed_at r \<and> c_observed_at r \<le> bj_range_end job
        \<and> accepts i x \<and> c_price r = numeric_scale 8 x
        \<and> c_source_summary r ''historical_backfill'' = Some (PBool True))"

definition no_rows_meanwhile :: "'s benv \<Rightarrow> bool" where
  "no_rows_meanwhile env \<longleftrightarrow> (\<forall>x w. price_rows_of (be_pause env x w) \<subseteq> price_rows_of w)"

lemma price_rows_simps [simp]:
  "price_rows_of (set_redis s w) = price_rows_of w"
  "price_rows_of (snd (renew_claim env job w)) = price_rows_of w"
  "price_rows_of (w\<lparr>bw_world := snd (persist_quote env' q (bw_world w))\<rparr>) = price_rows_of w"
  "price_rows_of (w\<lparr>bw_world := (bw_world w)\<lparr>sw_store := st\<rparr>\<rparr>) = set (cs_rows st)"
  by (simp_all add: price_rows_of_def set_redis_def)

lemma store_history_price_rows:
  assumes k: "history_task_of env job p = Inr k"
    and h: "sound_point (ht_instrument k) (bj_range_start job) (bj_range_end job) h"
    and r: "r \<in> set (cs_rows (snd (store_history_price env k h qid st)))" "r \<notin> set (cs_rows st)"
  shows "history_row env job r"
proof -
  have i: "service_instrument (be_service env) (bj_instrument_id job) = Inr (ht_instrument k)"
    using k by (auto simp: history_task_of_def split: option.splits sum.splits)
  obtain c stored c1 st1 where c: "canonical_create (history_canonical k h qid) = Inr c"
      "persist_canonical (sv_db_up (be_service env)) (sv_queue_up (be_service env)) (be_now env) c st = Inr (stored, c1, st1)"
      "r \<in> set (cs_rows st1)"
    using r by (auto simp: store_history_price_def err_simps split: sum.splits prod.splits)
  have st1: "st1 = snd (store_canonical_row c st) \<or> cs_rows st1 = cs_rows st"
    using c(2) by (auto simp: persist_canonical_def Let_def err_simps split: if_splits)
  then have "r \<in> set (cs_rows (snd (store_canonical_row c st)))"
    using c(3) r(2) by auto
  then have "r = (row_of c)\<lparr>c_id := Some (cs_next_row st)\<rparr>"
    using r(2) by (cases "find (same_row c) (cs_rows st)") (auto simp: store_canonical_row_def)
  then show ?thesis
    using c(1) h i
    by (auto simp: canonical_create_iff history_canonical_def canonical_of_def row_of_def history_row_def sound_point_def
        Let_def numeric_scale_def)
qed

interpretation rows: history_run env job p
    "\<lambda>w w'. no_rows_meanwhile env \<longrightarrow> (\<forall>r\<in>price_rows_of w' - price_rows_of w. history_row env job r)"
  for env :: "'s benv" and job p
proof
  show "no_rows_meanwhile env \<longrightarrow> (\<forall>r\<in>price_rows_of (w\<lparr>bw_world := (bw_world w)\<lparr>sw_store :=
      snd (store_history_price env k h qid (sw_store (bw_world w)))\<rparr>\<rparr>) - price_rows_of w. history_row env job r)"
    if "history_task_of env job p = Inr k" "sound_point (ht_instrument k) (bj_range_start job) (bj_range_end job) h"
    for w :: "'s bworld" and k h qid
    using store_history_price_rows[OF that] by (auto simp: price_rows_of_def)
qed (auto simp: no_rows_meanwhile_def)

text \<open>Claim C9. Every price a job adds to the table of canonical prices is one of its range: it belongs to the instrument of
  the job, was observed within the range that was asked for, is marked as historical, and is a price the instrument
  accepts, rounded to the eight digits of the column; this holds however the job ends.\<close>

theorem history_rows_in_range:
  assumes "no_rows_meanwhile env"
    and "r \<in> price_rows_of (snd (execute_history_job env job p w))" and "r \<notin> price_rows_of w"
  shows "\<exists>i x. service_instrument (be_service env) (bj_instrument_id job) = Inr i \<and> c_instrument_id r = i_instrument_id i
    \<and> bj_range_start job \<le> c_observed_at r \<and> c_observed_at r \<le> bj_range_end job
    \<and> accepts i x \<and> c_price r = numeric_scale 8 x \<and> c_source_summary r ''historical_backfill'' = Some (PBool True)"
  using rows.executes[where env = env and job = job and p = p and w = w] assms unfolding history_row_def by blast

section \<open>Workers\<close>

text \<open>The table moves by steps of workers, and the token of this one is not taken away.\<close>

definition by_steps :: "int \<Rightarrow> int \<times> int \<Rightarrow> 's bworld \<Rightarrow> 's bworld \<Rightarrow> bool" where
  "by_steps maximum x w w' \<longleftrightarrow>
     (\<forall>T. x \<in> T \<longrightarrow> (\<exists>T'. x \<in> T' \<and> backfill_reach maximum \<lparr>bs_table = bw_table w, bs_tokens = T\<rparr> \<lparr>bs_table = bw_table w', bs_tokens = T'\<rparr>))"

text \<open>Other workers make steps too.\<close>

definition workers_meanwhile :: "'s benv \<Rightarrow> bool" where
  "workers_meanwhile env \<longleftrightarrow> (\<forall>x y w. by_steps (be_maximum_attempts env) x w (be_pause env y w))"

lemma backfill_reach_trans:
  "backfill_reach m t u \<Longrightarrow> backfill_reach m s t \<Longrightarrow> backfill_reach m s u"
  by (induction rule: backfill_reach.induct) (auto intro: backfill_reach.step)

lemma by_steps_refl: "bw_table w = bw_table w' \<Longrightarrow> by_steps maximum x w w'"
  unfolding by_steps_def by (metis backfill_reach.refl)

lemma by_steps_trans: "by_steps maximum x u v \<Longrightarrow> by_steps maximum x v w \<Longrightarrow> by_steps maximum x u w"
  unfolding by_steps_def by (meson backfill_reach_trans)

lemma by_steps_renewal: "by_steps maximum (bj_id job, bj_attempt_count job) w (snd (renew_claim env job w))"
  unfolding by_steps_def
proof (intro allI impI)
  fix T :: "(int \<times> int) set"
  assume T: "(bj_id job, bj_attempt_count job) \<in> T"
  let ?s = "\<lparr>bs_table = bw_table w, bs_tokens = T\<rparr>"
  have "backfill_step maximum ?s (?s\<lparr>bs_table := snd (renew_backfill (be_now env) (bj_id job) (Some (bj_attempt_count job)) (bs_table ?s))\<rparr>)"
    using T by (intro backfill_step.renew) simp
  then show "\<exists>T'. (bj_id job, bj_attempt_count job) \<in> T' \<and> backfill_reach maximum ?s
      \<lparr>bs_table = bw_table (snd (renew_claim env job w)), bs_tokens = T'\<rparr>"
    using T backfill_reach.step[OF backfill_reach.refl] by (intro exI[of _ T]) (simp add: renew_claim_def Let_def)
qed

interpretation workers: history_run env job p
    "\<lambda>w w'. workers_meanwhile env \<longrightarrow> by_steps (be_maximum_attempts env) (bj_id job, bj_attempt_count job) w w'"
  for env :: "'s benv" and job p
proof
  show "workers_meanwhile env \<longrightarrow> by_steps (be_maximum_attempts env) (bj_id job, bj_attempt_count job) u w"
    if "workers_meanwhile env \<longrightarrow> by_steps (be_maximum_attempts env) (bj_id job, bj_attempt_count job) u v"
      "workers_meanwhile env \<longrightarrow> by_steps (be_maximum_attempts env) (bj_id job, bj_attempt_count job) v w" for u v w :: "'s bworld"
    using that by_steps_trans by blast
qed (auto simp: workers_meanwhile_def set_redis_def intro: by_steps_refl by_steps_renewal)

text \<open>The end of a job, where its token may be given up.\<close>

definition handed_back :: "int \<Rightarrow> int \<times> int \<Rightarrow> 's bworld \<Rightarrow> 's bworld \<Rightarrow> bool" where
  "handed_back maximum x w w' \<longleftrightarrow>
     (\<forall>T. x \<in> T \<longrightarrow> (\<exists>T'. backfill_reach maximum \<lparr>bs_table = bw_table w, bs_tokens = T\<rparr> \<lparr>bs_table = bw_table w', bs_tokens = T'\<rparr>))"

lemma handed_back_steps: "by_steps maximum x w w' \<Longrightarrow> handed_back maximum x w w'"
  unfolding by_steps_def handed_back_def by blast

lemma handed_back_trans: "by_steps maximum x u v \<Longrightarrow> handed_back maximum x v w \<Longrightarrow> handed_back maximum x u w"
  unfolding by_steps_def handed_back_def by (meson backfill_reach_trans)

lemma handed_back_table: "bw_table v = bw_table w \<Longrightarrow> bw_table v' = bw_table w' \<Longrightarrow> handed_back maximum x v v' = handed_back maximum x w w'"
  by (simp add: handed_back_def)

lemma handed_back_step:
  assumes "\<And>T. x \<in> T \<Longrightarrow> backfill_step maximum \<lparr>bs_table = bw_table w, bs_tokens = T\<rparr> \<lparr>bs_table = bw_table w', bs_tokens = T - {x}\<rparr>"
  shows "handed_back maximum x w w'"
  using assms backfill_reach.step[OF backfill_reach.refl] unfolding handed_back_def by blast

lemma finish_job_back:
  assumes "status \<in> {BDeferred, BCompleted}"
  shows "handed_back maximum (bj_id job, bj_attempt_count job) w (finish_job env job status remark w)"
proof (rule handed_back_step)
  fix T
  assume "(bj_id job, bj_attempt_count job) \<in> T"
  then show "backfill_step maximum \<lparr>bs_table = bw_table w, bs_tokens = T\<rparr>
      \<lparr>bs_table = bw_table (finish_job env job status remark w), bs_tokens = T - {(bj_id job, bj_attempt_count job)}\<rparr>"
    using backfill_step.finish[of "bj_id job" "bj_attempt_count job" "\<lparr>bs_table = bw_table w, bs_tokens = T\<rparr>" status maximum] assms
    by (simp add: finish_job_def)
qed

lemma retry_job_back: "handed_back (be_maximum_attempts env) (bj_id job, bj_attempt_count job) w (retry_job env job err w)"
proof (rule handed_back_step)
  fix T
  assume "(bj_id job, bj_attempt_count job) \<in> T"
  then show "backfill_step (be_maximum_attempts env) \<lparr>bs_table = bw_table w, bs_tokens = T\<rparr>
      \<lparr>bs_table = bw_table (retry_job env job err w), bs_tokens = T - {(bj_id job, bj_attempt_count job)}\<rparr>"
    using backfill_step.retry[of "bj_id job" "bj_attempt_count job" "\<lparr>bs_table = bw_table w, bs_tokens = T\<rparr>" "be_maximum_attempts env"]
    by (simp add: retry_job_def)
qed

lemma history_budget_table [simp]: "bw_table (snd (history_budget env p w)) = bw_table w"
  by (auto simp: history_budget_def set_redis_def split: sum.split)

lemma run_job_back:
  assumes "workers_meanwhile env"
  shows "handed_back (be_maximum_attempts env) (bj_id job, bj_attempt_count job) w (snd (run_job env job p w))"
proof -
  let ?m = "be_maximum_attempts env" and ?x = "(bj_id job, bj_attempt_count job)"
  obtain d w1 where d: "history_budget env p w = (d, w1)"
    by fastforce
  then have t: "bw_table w1 = bw_table w"
    using history_budget_table[of env p w] by simp
  obtain r w2 where r: "execute_history_job env job p w1 = (r, w2)"
    by fastforce
  have s: "by_steps ?m ?x w w2"
    using workers.executes[where env = env and job = job and p = p and w = w1] assms r by_steps_trans[OF by_steps_refl[OF t[symmetric]]] by simp
  have stay: "handed_back ?m ?x w w1" "handed_back ?m ?x w (retry_job env job err w1)" for err
    using by_steps_refl[OF t[symmetric]] handed_back_steps handed_back_trans retry_job_back by blast+
  have "handed_back ?m ?x w (retry_job env job err w2)" for err
    by (rule handed_back_trans[OF s retry_job_back])
  moreover have "handed_back ?m ?x w (finish_job env job status remark w2)" if "status \<in> {BDeferred, BCompleted}" for status remark
    by (rule handed_back_trans[OF s finish_job_back[OF that]])
  ultimately show ?thesis
    using stay d r by (cases d; cases r) (auto simp: run_job_def split: history_failure.split)
qed

lemma process_claimed_back:
  assumes "workers_meanwhile env"
  shows "handed_back (be_maximum_attempts env) (bj_id job, bj_attempt_count job) w (snd (process_claimed env job w))"
proof -
  let ?settled = "handed_back (be_maximum_attempts env) (bj_id job, bj_attempt_count job)"
  have r: "?settled w (snd (run_job env job p (set_redis s w)))" for p s
    using run_job_back[OF assms, of job "set_redis s w" p] handed_back_table[of "set_redis s w" w] by (simp add: set_redis_def)
  have t: "?settled w (set_redis s' v) = ?settled w v" "?settled (set_redis s w) v = ?settled w v" for s s' v
    by (rule handed_back_table; simp add: set_redis_def)+
  have "?settled w (retry_job env job err (set_redis s w))" for err s
    using retry_job_back[of env job "set_redis s w" err] t by simp
  moreover have "?settled w w"
    by (rule handed_back_steps[OF by_steps_refl]) simp
  ultimately show ?thesis
    using r t finish_job_back[of BDeferred]
    by (auto simp: process_claimed_def with_backfill_lock_def Let_def split: sum.split option.split)
qed

text \<open>Whatever tokens are held.\<close>

definition workers_reach_table :: "int \<Rightarrow> 's bworld \<Rightarrow> 's bworld \<Rightarrow> bool" where
  "workers_reach_table maximum w w' \<longleftrightarrow>
     (\<forall>T. \<exists>T'. backfill_reach maximum \<lparr>bs_table = bw_table w, bs_tokens = T\<rparr> \<lparr>bs_table = bw_table w', bs_tokens = T'\<rparr>)"

lemma workers_reach_refl: "bw_table w = bw_table w' \<Longrightarrow> workers_reach_table maximum w w'"
  unfolding workers_reach_table_def by (metis backfill_reach.refl)

lemma workers_reach_trans:
  "workers_reach_table maximum u v \<Longrightarrow> workers_reach_table maximum v w \<Longrightarrow> workers_reach_table maximum u w"
  unfolding workers_reach_table_def by (meson backfill_reach_trans)

lemma claim_steps:
  assumes "claim_backfill eligible locked now (bw_table w) = (Some job, t)"
    and "handed_back maximum (bj_id job, bj_attempt_count job) (w\<lparr>bw_table := t\<rparr>) w'"
  shows "workers_reach_table maximum w w'"
  unfolding workers_reach_table_def
proof
  fix T
  let ?s = "\<lparr>bs_table = bw_table w, bs_tokens = T\<rparr>"
    and ?u = "\<lparr>bs_table = t, bs_tokens = Set.insert (bj_id job, bj_attempt_count job) T\<rparr>"
  have "backfill_step maximum ?s ?u"
    using backfill_step.claim[of eligible locked now ?s job t maximum] assms(1) by simp
  moreover obtain T' where "backfill_reach maximum ?u \<lparr>bs_table = bw_table w', bs_tokens = T'\<rparr>"
    using assms(2) unfolding handed_back_def by (metis bworld.select_convs(2) bworld.update_convs(2) bworld.surjective insertI1)
  ultimately show "\<exists>T'. backfill_reach maximum ?s \<lparr>bs_table = bw_table w', bs_tokens = T'\<rparr>"
    using backfill_reach_trans backfill_reach.step[OF backfill_reach.refl] by blast
qed

lemma process_from_reach:
  assumes "workers_meanwhile env"
  shows "workers_reach_table (be_maximum_attempts env) w (snd (process_from env eligible n counts w))"
proof (induction n arbitrary: counts w)
  case (Suc n)
  obtain j t where c: "claim_backfill eligible (be_locked env) (be_now env) (bw_table w) = (j, t)"
    by fastforce
  show ?case
  proof (cases j)
    case None
    then have "t = bw_table w"
      using c by (auto simp: claim_backfill_def split: list.splits)
    then show ?thesis
      using c None workers_reach_refl[of w] by simp
  next
    case (Some job)
    obtain x w1 where x: "process_claimed env job (w\<lparr>bw_table := t\<rparr>) = (x, w1)"
      by fastforce
    have w1: "workers_reach_table (be_maximum_attempts env) w w1"
      using claim_steps[OF c[unfolded Some]] process_claimed_back[OF assms, of job "w\<lparr>bw_table := t\<rparr>"] x by simp
    note rest = workers_reach_trans[OF w1 Suc]
    show ?thesis
      using rest w1 c x Some workers_reach_refl[of w] by (auto split: sum.split)
  qed
qed (simp add: workers_reach_refl)

lemma drain_reach: "workers_reach_table maximum w (drain_requests env rs w)"
proof (induction rs arbitrary: w)
  case (Cons r rs)
  let ?q = "snd r"
  let ?t = "snd (insert_backfill (be_now env) (rq_instrument_id ?q) (rq_range_start ?q) (rq_range_end ?q)
      (rq_priority ?q) (rq_key ?q) (bw_table w))"
  have "workers_reach_table maximum w (w\<lparr>bw_table := ?t, bw_stream := st\<rparr>)" for st
    using backfill_reach.step[OF backfill_reach.refl backfill_step.insert[of maximum "\<lparr>bs_table = bw_table w, bs_tokens = T\<rparr>" for T]]
    unfolding workers_reach_table_def by fastforce
  then show ?case
    using Cons workers_reach_trans workers_reach_refl[of w] by (simp add: Let_def) blast
qed (simp add: workers_reach_refl)

lemma process_jobs_reach:
  assumes "workers_meanwhile env"
  shows "workers_reach_table (be_maximum_attempts env) w (snd (process_jobs env maximum w))"
proof -
  let ?m = "be_maximum_attempts env"
  have d: "workers_reach_table ?m w w1" if "drain_redis_jobs env n w = Inr w1" for n w1
    using that drain_reach by (auto simp: drain_redis_jobs_def split: if_splits)
  then have "workers_reach_table ?m w (snd (process_from env eligible n [] w1))" if "drain_redis_jobs env (maximum * 2) w = Inr w1"
    for eligible n w1
    using that workers_reach_trans process_from_reach[OF assms] by blast
  then show ?thesis
    using d workers_reach_refl[of w] by (auto simp: process_jobs_def split: sum.split)
qed

text \<open>Claim C11. A round of the backfill is a run of the workers of \<open>Backfill_Jobs\<close>: as long as other workers make only such steps
  meanwhile, the whole round, with its drained requests, pages, renewals and errors, moves the table of the jobs by
  insertions, claims, renewals, retries and finishes under its own tokens.\<close>

theorem process_jobs_refines_workers:
  assumes "workers_meanwhile env"
  shows "\<exists>T'. backfill_reach (be_maximum_attempts env) \<lparr>bs_table = bw_table w, bs_tokens = T\<rparr>
    \<lparr>bs_table = bw_table (snd (process_jobs env maximum w)), bs_tokens = T'\<rparr>"
  using process_jobs_reach[OF assms, of w maximum] unfolding workers_reach_table_def by blast

section \<open>Requests of Redis\<close>

text \<open>The numbers of the stream are unique.\<close>

definition stream_ok :: "'s bworld \<Rightarrow> bool" where
  "stream_ok w \<longleftrightarrow> distinct (map fst (bw_stream w))"

definition has_job :: "idem_key \<Rightarrow> backfill_table \<Rightarrow> bool" where
  "has_job key t \<longleftrightarrow> list_ex (\<lambda>j. bj_idempotency_key j = key) (bt_jobs t)"

lemma insert_backfill_has:
  "has_job key (snd (insert_backfill now iid start end priority key t))"
  "has_job k t \<Longrightarrow> has_job k (snd (insert_backfill now iid start end priority key t))"
proof -
  show "has_job key (snd (insert_backfill now iid start end priority key t))"
  proof (cases "find (\<lambda>j. bj_idempotency_key j = key) (bt_jobs t)")
    case (Some j)
    then have "j \<in> set (bt_jobs t)" "bj_idempotency_key j = key"
      by (auto simp: find_Some_iff)
    then show ?thesis
      using Some by (auto simp: has_job_def insert_backfill_def list_ex_iff)
  qed (simp add: has_job_def insert_backfill_def)
  show "has_job k (snd (insert_backfill now iid start end priority key t))" if "has_job k t"
    using that by (auto simp: has_job_def insert_backfill_def split: option.split)
qed

lemma drain_keeps_jobs: "has_job k (bw_table w) \<Longrightarrow> has_job k (bw_table (drain_requests env rs w))"
  by (induction rs arbitrary: w) (simp_all add: Let_def insert_backfill_has(2))

lemma drain_requests_keep:
  assumes "stream_ok w" "set rs \<subseteq> set (bw_stream w)" "e \<in> set (bw_stream w)" "distinct (map fst rs)"
  shows "e \<in> set (bw_stream (drain_requests env rs w)) \<or> has_job (rq_key (snd e)) (bw_table (drain_requests env rs w))"
  using assms
proof (induction rs arbitrary: w)
  case (Cons r rs)
  show ?case
  proof (cases "sv_db_up (be_service env)")
    case True
    let ?q = "snd r"
    let ?w = "w\<lparr>bw_table := snd (insert_backfill (be_now env) (rq_instrument_id ?q) (rq_range_start ?q) (rq_range_end ?q)
      (rq_priority ?q) (rq_key ?q) (bw_table w)), bw_stream := filter (\<lambda>e. fst e \<noteq> fst r) (bw_stream w)\<rparr>"
    have next_w: "drain_requests env (r # rs) w = drain_requests env rs ?w"
      using True by (simp add: Let_def)
    show ?thesis
    proof (cases "fst e = fst r")
      case eq: True
      have "e = r"
        using eq Cons.prems by (auto simp: stream_ok_def distinct_map dest: inj_onD)
      have "has_job (rq_key ?q) (bw_table ?w)"
        by (simp add: insert_backfill_has(1))
      from drain_keeps_jobs[OF this] show ?thesis
        unfolding next_w \<open>e = r\<close> by blast
    next
      case False
      have "stream_ok ?w"
        using Cons.prems(1) by (simp add: stream_ok_def distinct_map_filter)
      moreover have "set rs \<subseteq> set (bw_stream ?w)" "e \<in> set (bw_stream ?w)"
        using Cons.prems False by (auto simp: rev_image_eqI)
      moreover have "distinct (map fst rs)"
        using Cons.prems(4) by simp
      ultimately show ?thesis
        unfolding next_w by (rule Cons.IH)
    qed
  qed (use Cons.prems in simp)
qed simp

lemma drain_requests_all:
  assumes "sv_db_up (be_service env)"
  shows "bw_stream (drain_requests env rs w) = filter (\<lambda>e. fst e \<notin> fst ` set rs) (bw_stream w)"
  using assms by (induction rs arbitrary: w) (auto simp: Let_def intro: filter_cong)

text \<open>Claim C32. No request that Redis kept while the database was down gets lost: after a drain each one is still in the
  stream or its job is in the table, and jobs that were there stay; with the database up the oldest requests of the
  drain have left the stream.\<close>

theorem drain_loses_no_request:
  assumes "stream_ok w" and "drain_redis_jobs env maximum w = Inr w'"
  shows "(\<forall>e\<in>set (bw_stream w). e \<in> set (bw_stream w') \<or> has_job (rq_key (snd e)) (bw_table w'))
    \<and> (\<forall>key. has_job key (bw_table w) \<longrightarrow> has_job key (bw_table w'))
    \<and> (sv_db_up (be_service env) \<longrightarrow> bw_stream w' = drop (max 1 maximum) (bw_stream w))"
proof -
  let ?n = "max 1 maximum"
  have w': "w' = drain_requests env (take ?n (bw_stream w)) w"
    using assms(2) by (simp add: drain_redis_jobs_def split: if_splits)
  have d: "distinct (map fst (take ?n (bw_stream w)))"
    using distinct_take[of "map fst (bw_stream w)" ?n] assms(1) by (simp only: take_map stream_ok_def)
  have "\<forall>e\<in>set (bw_stream w). e \<in> set (bw_stream w') \<or> has_job (rq_key (snd e)) (bw_table w')"
    unfolding w' by (intro ballI drain_requests_keep[OF assms(1) set_take_subset _ d])
  moreover have "bw_stream w' = drop ?n (bw_stream w)" if "sv_db_up (be_service env)"
  proof -
    have "filter (\<lambda>e. fst e \<notin> fst ` set (take n es)) es = drop n es" if "distinct (map fst es)" for n and es :: "(int \<times> backfill_request) list"
    proof -
      have d: "distinct (map fst (take n es @ drop n es))"
        using that by simp
      have a: "filter (\<lambda>e. fst e \<notin> fst ` set (take n es)) (take n es) = []"
        by (simp add: filter_empty_conv)
      have b: "filter (\<lambda>e. fst e \<notin> fst ` set (take n es)) (drop n es) = drop n es"
        using d unfolding map_append distinct_append filter_id_conv set_map by blast
      have "filter (\<lambda>e. fst e \<notin> fst ` set (take n es)) (take n es @ drop n es) = drop n es"
        unfolding filter_append a b by simp
      then show ?thesis
        by (simp only: append_take_drop_id)
    qed
    then show ?thesis
      unfolding w' drain_requests_all[OF that] using assms(1) by (simp add: stream_ok_def)
  qed
  ultimately show ?thesis
    unfolding w' using drain_keeps_jobs by blast
qed

section \<open>Pages\<close>

text \<open>Claim C23. A fetched history is sound, however its pages overlap: its points are strictly ordered in time, one for each
  time, lie in the range of the job, have prices the instrument accepts and volumes that are not negative.\<close>

theorem fetched_history_sound:
  assumes "fetch_pages env k 1 [] w = (Inr points, w')"
  shows "sorted_wrt (<) (map hp_observed_at points)
    \<and> (\<forall>h\<in>set points. bj_range_start (ht_job k) \<le> hp_observed_at h \<and> hp_observed_at h \<le> bj_range_end (ht_job k)
         \<and> accepts (ht_instrument k) (hp_price h) \<and> (\<forall>x. hp_volume h = Some x \<longrightarrow> 0 \<le> x))"
  using fetch_pages_sound[OF assms] by (simp add: sound_points_def sound_point_def)

lemma budget_http [simp]:
  "history_budget (env\<lparr>be_http := f\<rparr>) p w = history_budget env p w"
  "renew_claim (env\<lparr>be_http := f\<rparr>) job w = renew_claim env job w"
  by (simp_all add: history_budget_def renew_claim_def be_now_def)

lemma permission_http [simp]: "page_permission (env\<lparr>be_http := f\<rparr>) k page w = page_permission env k page w"
  by (simp add: page_permission_def)

lemma one_page_http:
  assumes "f (or_text (p_history_url (ht_provider k)) []) (page_params k page) (ht_headers k)
    = be_http env (or_text (p_history_url (ht_provider k)) []) (page_params k page) (ht_headers k)"
  shows "one_page (env\<lparr>be_http := f\<rparr>) k page seen w = one_page env k page seen w"
proof -
  have h: "history_page (env\<lparr>be_http := f\<rparr>) k page u = history_page env k page u" for u
    using assms by (simp add: history_page_def Let_def split: sum.split http_body.split)
  show ?thesis
    by (simp add: one_page_def h)
qed

lemma fetch_pages_http:
  assumes "\<And>n. n \<le> 41 \<Longrightarrow> f (or_text (p_history_url (ht_provider k)) []) (page_params k n) (ht_headers k)
      = be_http env (or_text (p_history_url (ht_provider k)) []) (page_params k n) (ht_headers k)"
    and "page \<le> 41"
  shows "fetch_pages (env\<lparr>be_http := f\<rparr>) k page seen w = fetch_pages env k page seen w"
  using assms(2)
proof (induction "41 - page" arbitrary: page seen w rule: less_induct)
  case less
  have o: "one_page (env\<lparr>be_http := f\<rparr>) k page seen w = one_page env k page seen w"
    using assms(1)[OF less(2)] by (rule one_page_http)
  have "fetch_pages (env\<lparr>be_http := f\<rparr>) k (page + 1) seen1 w1 = fetch_pages env k (page + 1) seen1 w1"
    if "\<not> page \<ge> 41" for seen1 w1
    using less(1)[of "page + 1"] that by simp
  then show ?case
    unfolding fetch_pages.simps[of _ k page] o by (simp split: prod.split sum.split page_end.split)
qed

text \<open>A history takes at most 41 requests: what the provider would answer to any further page, and to any other
  request, has no influence on the points, on the errors or on the state.\<close>

theorem history_pages_bounded:
  assumes "\<forall>n\<in>{..41}. f (or_text (p_history_url (ht_provider k)) []) (page_params k n) (ht_headers k)
    = be_http env (or_text (p_history_url (ht_provider k)) []) (page_params k n) (ht_headers k)"
  shows "fetch_pages (env\<lparr>be_http := f\<rparr>) k 1 seen w = fetch_pages env k 1 seen w"
  using assms by (intro fetch_pages_http) simp_all

section \<open>Requests of charts\<close>

lemma set_redis_same [simp]: "set_redis (redis_of w) w = w"
  by (simp add: set_redis_def redis_of_def)

lemma redis_of_set [simp]: "redis_of (set_redis s w) = s"
  by (simp add: set_redis_def redis_of_def)

lemma enqueue_redis [simp]: "redis_of (snd (enqueue env iid start end' priority w)) = redis_of w"
  by (auto simp: enqueue_def Let_def redis_of_def split: sum.split option.split)

lemma enqueue_automatic_queued:
  assumes "redis_service (sv_ops (be_service env))"
    and "enqueue_automatic env iid start end' b priority w = (Inr r, w')"
    and "er_status r \<in> {''queued'', ''queued_redis''}"
  obtains d m i where "get_instrument (sv_defs (be_service env)) iid = Inr d"
    "operational_instruments (sv_loads (be_service env)) (sv_defs (be_service env)) (sv_op_db (be_service env)) [i_instrument_id d] = Inr m"
    "m (i_instrument_id d) = Some i" "i_enabled i" "backfill_enabled env (i_instrument_id i)" "0 < b"
    "rd_get (sv_ops (be_service env)) (redis_of w')
       (''pricing:backfill-auto:'' @ bucket_text (i_instrument_id i) (ensure_utc start) (ensure_utc end') b) \<noteq> None"
proof -
  have l: "rd_get (sv_ops (be_service env)) s' key \<noteq> None" if "acquire (sv_ops (be_service env)) s key 60000 o' = Inr (Some l, s')"
    for s key o' l s'
    using redis_service.acquire_get[OF assms(1) that] by simp
  show ?thesis
    using assms(2,3) that l
    by (auto simp: enqueue_automatic_def Let_def err_simps split: sum.splits option.splits if_splits)
qed

text \<open>Claim C33. Requests of charts do not pile up: once a range has been queued, any request for the same instrument whose
  ends fall into the same buckets is answered without touching the queue or the table, as long as the mark in Redis
  lives.\<close>

theorem automatic_requests_coalesce:
  assumes "redis_service (sv_ops (be_service env))"
    and "enqueue_automatic env iid start end' b priority w = (Inr r, w')"
    and "er_status r \<in> {''queued'', ''queued_redis''}"
    and "ensure_utc start2 < ensure_utc end2"
    and "bucket_of (ensure_utc start2) b = bucket_of (ensure_utc start) b"
    and "bucket_of (ensure_utc end2) b = bucket_of (ensure_utc end') b"
  shows "\<exists>r2. enqueue_automatic env iid start2 end2 b priority2 w' = (Inr r2, w') \<and> er_status r2 = ''coalesced''"
proof -
  obtain d m i where f: "get_instrument (sv_defs (be_service env)) iid = Inr d"
      "operational_instruments (sv_loads (be_service env)) (sv_defs (be_service env)) (sv_op_db (be_service env)) [i_instrument_id d] = Inr m"
      "m (i_instrument_id d) = Some i" "i_enabled i" "backfill_enabled env (i_instrument_id i)" "0 < b"
    and key: "rd_get (sv_ops (be_service env)) (redis_of w')
       (''pricing:backfill-auto:'' @ bucket_text (i_instrument_id i) (ensure_utc start) (ensure_utc end') b) \<noteq> None"
    using enqueue_automatic_queued[OF assms(1-3)] by blast
  have t: "bucket_text (i_instrument_id i) (ensure_utc start2) (ensure_utc end2) b
      = bucket_text (i_instrument_id i) (ensure_utc start) (ensure_utc end') b"
    using assms(5,6) by (simp add: bucket_text_def)
  obtain v where "rd_get (sv_ops (be_service env)) (redis_of w')
       (''pricing:backfill-auto:'' @ bucket_text (i_instrument_id i) (ensure_utc start) (ensure_utc end') b) = Some v"
    using key by blast
  note busy = redis_service.acquire_busy[OF assms(1) this, of 60000]
  show ?thesis
    using f assms(4) t busy by (simp add: enqueue_automatic_def Let_def)
qed

section \<open>Examples\<close>

text \<open>A provider with a history of one point, and a job that asks for it.\<close>

definition history_source :: provider_definition where
  "history_source = example_source\<lparr>p_history_url := Some ''https://h/u'', p_history_parser_id := Some ''nobitex_udf_btcirt_v1''\<rparr>"

definition one_point :: json where
  "one_point = JObj [(uni ''s'', JStr (uni ''ok'')), (uni ''t'', JList [JInt 1]), (uni ''c'', JList [JInt 60000]),
     (uni ''v'', JList [JNull])]"

definition silent_env :: "(ttl_store, json) penv" where
  "silent_env = \<lparr>e_ops = ttl_ops, e_settings = Map.empty, e_instruments = [example_instrument],
     e_instrument_budgets = Map.empty, e_urlparse = (\<lambda>_. example_url), e_parse_date = Map.empty, e_http = (\<lambda>_ _ _ _ _. Inl ()),
     e_parser_version = (\<lambda>_. ''1''), e_parse = (\<lambda>_ _ _ _ _. Inl (ParserErr ''invalid_payload'')), e_db_up = True,
     e_queue_up = True, e_owner = ''o'', e_interleave = (\<lambda>w. w), e_now = 3000000, e_received = 4000000, e_unix_time = 0,
     e_latency_ms = 10, e_max_retries = 2, e_backoff_base = 1/2, e_max_response_bytes = 262144\<rparr>"

definition history_senv :: "(ttl_store, json) senv" where
  "history_senv = \<lparr>sv_call = (\<lambda>_ _. silent_env), sv_checked = (\<lambda>_ _. 3000000), sv_now = 3000000, sv_unix_time = 3,
     sv_ops = ttl_ops, sv_settings = Map.empty, sv_features = (\<lambda>_. True), sv_defs = [example_instrument],
     sv_registry = [history_source], sv_op_db = example_op_db\<lparr>od_instruments := None\<rparr>, sv_loads = (\<lambda>_. None), sv_ping = True,
     sv_ok = (\<lambda>_. True), sv_db_up = True, sv_queue_up = True, sv_owner = ''o'', sv_lock_ttl_seconds = 30,
     sv_history_hours = 6, sv_history_entries = 240, sv_telegram_rows = None, sv_after = (\<lambda>_. 3000000), sv_archive = (\<lambda>_. None),
     sv_derived = \<lparr>ds_instruments = [example_instrument], ds_troy_ounce_grams = 31,
       ds_usdt_usd_safe_min = 1, ds_usdt_usd_safe_max = 1\<rparr>\<rparr>"

definition example_benv :: "ttl_store benv" where
  "example_benv = \<lparr>be_service = history_senv, be_rt = example_rt,
     be_urlparse = (\<lambda>_. example_url\<lparr>url_scheme := ''https'', url_hostname := ''h''\<rparr>),
     be_http = (\<lambda>_ _ _. Inr \<lparr>rs_status = 200, rs_retry_after = None, rs_chunks = [60], rs_body = JsonBody one_point\<rparr>),
     be_status_error = (\<lambda>_. False), be_instrument_budgets = Map.empty, be_locked = {}, be_pause = (\<lambda>_ w. w),
     be_slow = (\<lambda>_. False), be_batch_size = 100, be_maximum_attempts = 5\<rparr>"

definition example_bworld :: "ttl_store bworld" where
  "example_bworld = \<lparr>bw_world = \<lparr>sw_providers = example_world None, sw_store = empty_store\<rparr>,
     bw_table = example_table_of_jobs, bw_stream = [], bw_next_stream = 1\<rparr>"

definition example_task :: history_task where
  "example_task = \<lparr>ht_job = hd (bt_jobs example_table_of_jobs), ht_provider = history_source,
     ht_parser = NobitexUdfHistory ''BTCIRT'',
     ht_instrument = example_instrument,
     ht_params = history_params (NobitexUdfHistory ''BTCIRT'') 0 3600000000, ht_headers = []\<rparr>"

lemma example_job_fields:
  "bj_instrument_id (ht_job example_task) = ''BTC_USD''" "bj_range_start (ht_job example_task) = 0"
  "bj_range_end (ht_job example_task) = 3600000000"
  by (simp_all add: example_task_def example_table_of_jobs_def insert_backfill_def)

lemma history_source_fields:
  "p_history_url history_source = Some ''https://h/u''" "p_history_parser_id history_source = Some ''nobitex_udf_btcirt_v1''"
  "p_static_headers history_source = []" "p_api_key_setting history_source = None" "p_maximum_payload_bytes history_source = 1000"
  by (simp_all add: history_source_def) (simp_all add: example_source_def)

lemma example_benv_instrument: "service_instrument (be_service example_benv) ''BTC_USD'' = Inr example_instrument"
  by (simp add: example_benv_def history_senv_def service_instrument_def operational_instrument_def example_lookup Let_def)

lemma example_history_task: "history_task_of example_benv (ht_job example_task) history_source = Inr example_task"
proof -
  note example_benv_instrument
  moreover have "history_options example_benv history_source (NobitexUdfHistory ''BTCIRT'') 0 3600000000
      = Inr (history_params (NobitexUdfHistory ''BTCIRT'') 0 3600000000, [])"
    by (simp add: history_options_def history_source_fields validate_destination_def example_benv_def example_url_def
        setting_def Let_def require_def lower_def)
      (simp add: history_senv_def strip_def)
  moreover have "build_history_parser ''nobitex_udf_btcirt_v1'' = Some (NobitexUdfHistory ''BTCIRT'')"
    by (simp add: build_history_parser_def)
  ultimately show ?thesis
    by (simp add: history_task_of_def example_job_fields history_source_fields) (simp add: example_task_def)
qed

lemma example_fetch:
  "fetch_pages example_benv example_task 1 [] w = (Inr [\<lparr>hp_observed_at = 1000000, hp_price = 60000, hp_volume = None\<rparr>], w)"
proof -
  have i: "accepts (ht_instrument example_task) 60000"
    by (simp add: example_task_def accepts_def) (simp add: example_instrument_def)
  have "parse_nobitex_history example_rt one_point (ht_instrument example_task) 0 3600000000
      = Inr [\<lparr>hp_observed_at = 1000000, hp_price = 60000, hp_volume = None\<rparr>]"
    by (simp add: parse_nobitex_history_def one_point_def require_object_def require_list_def j_get_def refuse_def require_def
        j_int_def instant_of_seconds_def instant_in_range_def seconds_def range_point_def strict_decimal_def checked_decimal_def
        i volume_of_def no_volume_def)
  then have "history_page example_benv example_task 1 w
      = (Inr (one_point, [\<lparr>hp_observed_at = 1000000, hp_price = 60000, hp_volume = None\<rparr>]), w)"
    unfolding history_page_def example_job_fields
    by (simp add: example_task_def example_benv_def history_source_fields Let_def)
  moreover have "after_page example_task [] (one_point, [h]) = Inr (Complete [h])" for h
    by (simp add: after_page_def example_task_def paginated_udf_def one_point_def raw_count_def)
  ultimately have "one_page example_benv example_task 1 [] w
      = (Inr (Complete [\<lparr>hp_observed_at = 1000000, hp_price = 60000, hp_volume = None\<rparr>]), w)"
    by (simp add: one_page_def page_permission_def hbind_def)
  then show ?thesis
    by (subst fetch_pages.simps) simp
qed

theorem fetched_history_sound_witness:
  "\<exists>points w'. fetch_pages example_benv example_task 1 [] example_bworld = (Inr points, w') \<and> points \<noteq> []
     \<and> sorted_wrt (<) (map hp_observed_at points)"
  using fetched_history_sound [OF example_fetch] example_fetch by blast

theorem history_pages_bounded_witness:
  "fetch_pages (example_benv\<lparr>be_http := (\<lambda>url ps hs. if (''page'', PNum 42) \<in> set ps then Inl ''ReadTimeout''
       else be_http example_benv url ps hs)\<rparr>) example_task 1 [] example_bworld
     = fetch_pages example_benv example_task 1 [] example_bworld"
  by (rule history_pages_bounded) (simp add: page_params_def example_task_def paginated_udf_def)

theorem backfill_stays_out_witness:
  "get_canonical example_senv ''BTC_USD'' (sw_store (bw_world (snd (process_jobs example_benv 2 example_bworld))))
     = get_canonical example_senv ''BTC_USD'' empty_store"
  using backfill_stays_out [of example_benv example_senv "''BTC_USD''" 2 example_bworld]
  by (simp add: quiet_pauses_def example_benv_def example_bworld_def)

theorem process_jobs_refines_workers_witness:
  "\<exists>T'. backfill_reach 5 \<lparr>bs_table = example_table_of_jobs, bs_tokens = {}\<rparr>
     \<lparr>bs_table = bw_table (snd (process_jobs example_benv 2 example_bworld)), bs_tokens = T'\<rparr>"
proof -
  have "workers_meanwhile example_benv" "be_maximum_attempts example_benv = 5" "bw_table example_bworld = example_table_of_jobs"
    by (simp_all add: workers_meanwhile_def example_benv_def example_bworld_def by_steps_refl)
  then show ?thesis
    using process_jobs_refines_workers [of example_benv example_bworld "{}" 2] by simp
qed

theorem drain_loses_no_request_witness:
  "\<exists>w'. drain_redis_jobs example_benv 4 (example_bworld\<lparr>bw_stream := [(1, \<lparr>rq_instrument_id = ''BTC_USD'', rq_range_start = 0,
        rq_range_end = 9, rq_priority = 200, rq_key = KeyText ''n''\<rparr>)]\<rparr>) = Inr w'
     \<and> bw_stream w' = [] \<and> has_job (KeyText ''n'') (bw_table w')"
proof -
  let ?w = "example_bworld\<lparr>bw_stream := [(1, \<lparr>rq_instrument_id = ''BTC_USD'', rq_range_start = 0,
        rq_range_end = 9, rq_priority = 200, rq_key = KeyText ''n''\<rparr>)]\<rparr>"
  have up: "sv_queue_up (be_service example_benv)" "sv_db_up (be_service example_benv)"
    by (simp_all add: example_benv_def) (simp_all add: history_senv_def)
  then obtain w' where w': "drain_redis_jobs example_benv 4 ?w = Inr w'"
    by (simp add: drain_redis_jobs_def)
  then show ?thesis
    using drain_loses_no_request [OF _ w'] up by (auto simp: stream_ok_def)
qed

lemma example_history_quote:
  "is_ok (provider_quote_create (history_args 3000000 example_task \<lparr>hp_observed_at = 1000000, hp_price = 60000, hp_volume = None\<rparr>))"
  by (simp add: provider_quote_create_def history_args_def default_args_def example_task_def history_source_def Let_def)
    (simp add: example_source_def example_instrument_def decimal_or_none_def decimal_value_def seconds_def opt_dec_def
      default_future_clock_skew_seconds_def normalize_source_provenance_def raw_quote_def dict_get_def or_val_def first_of_def
      enum_of_def source_semantics_def text_value_def strip_def is_space_def price_semantics_def
      source_spread_def depth_of_def ddiv_def list_items_def upper_def upper_char_def
      infer_price_semantic_def Let_def)

lemma example_history_row:
  "\<exists>r st. store_history_price example_benv example_task \<lparr>hp_observed_at = 1000000, hp_price = 60000, hp_volume = None\<rparr> qid empty_store
     = (Inr (), st) \<and> r \<in> set (cs_rows st)"
proof -
  let ?c = "history_canonical example_task \<lparr>hp_observed_at = 1000000, hp_price = 60000, hp_volume = None\<rparr> qid"
  obtain c where c: "canonical_create ?c = Inr c" "c_price c = 60000" "c_candidate_price c = None" "c_change_1h c = None"
      "c_change_24h c = None" "c_change_7d c = None" "c_change_30d c = None"
    by (simp add: canonical_create_iff history_canonical_def canonical_of_def Let_def valid_canonical_def example_task_def
        example_instrument_def seconds_def)
  have "row_fits c"
    using c by (simp add: row_fits_def row_of_def opt_below_def numeric_scale_def Let_def)
  then show ?thesis
    using c(1) by (simp add: store_history_price_def persist_canonical_def store_canonical_row_def empty_store_def
        example_benv_def history_senv_def Let_def)
qed

theorem history_rows_in_range_witness:
  "\<exists>r. r \<in> price_rows_of (snd (execute_history_job example_benv (ht_job example_task) history_source example_bworld))
     \<and> c_instrument_id r = ''BTC_USD'' \<and> 0 \<le> c_observed_at r \<and> c_observed_at r \<le> 3600000000"
proof -
  let ?h = "\<lparr>hp_observed_at = 1000000, hp_price = 60000, hp_volume = None\<rparr>"
  obtain q where q: "provider_quote_create (history_args (be_now example_benv) example_task ?h) = Inr q"
    using example_history_quote by (auto simp: is_ok_iff example_benv_def be_now_def history_senv_def)
  have up: "sv_db_up (be_service example_benv)"
    by (simp add: example_benv_def history_senv_def)
  let ?p = "persist_quote (be_service example_benv) q (bw_world example_bworld)"
  obtain r st where r: "store_history_price example_benv example_task ?h (q_id (snd (fst ?p))) empty_store = (Inr (), st)"
      "r \<in> set (cs_rows st)"
    using example_history_row by blast
  have p: "pr_persisted (fst (fst ?p))" "sw_store (snd ?p) = empty_store"
    using up by (simp_all add: persist_quote_def persist_provider_quote_def Let_def example_bworld_def)
  have "store_point example_benv example_task ?h example_bworld
      = (Inr (), example_bworld\<lparr>bw_world := (snd ?p)\<lparr>sw_store := st\<rparr>\<rparr>)"
    using q r(1) p by (simp add: store_point_def Let_def)
  then have "execute_history_job example_benv (ht_job example_task) history_source example_bworld
      = (Inr 1, example_bworld\<lparr>bw_world := (snd ?p)\<lparr>sw_store := st\<rparr>\<rparr>)"
    by (simp add: execute_history_job_def history_source_fields example_history_task hbind_def example_fetch[unfolded One_nat_def] keep_claim_def)
  then have "r \<in> price_rows_of (snd (execute_history_job example_benv (ht_job example_task) history_source example_bworld))"
    using r(2) by (simp add: price_rows_of_def)
  moreover have "r \<notin> price_rows_of example_bworld" "no_rows_meanwhile example_benv"
    by (simp_all add: price_rows_of_def example_bworld_def empty_store_def no_rows_meanwhile_def example_benv_def)
  moreover note example_benv_instrument
  ultimately show ?thesis
    using history_rows_in_range [of example_benv r "ht_job example_task" history_source example_bworld]
    by (auto simp: example_job_fields example_instrument_def)
qed

lemma example_effective: "effective_provider (\<lambda>_. None) Map.empty history_source = history_source"
  by (simp add: effective_provider_def setting_value_of_def override_budget_def int_field_def override_enabled_def
      override_role_def sane_provider_def Let_def) (simp add: history_source_def example_source_def)

lemma example_provider_found: "history_provider example_benv ''BTC_USD'' False = Inr (Some history_source)"
proof -
  let ?db = "example_op_db\<lparr>od_instruments := None\<rparr>"
  have o: "provider_override_rows ?db ids = Map.empty" for ids
    by (auto simp: provider_override_rows_def example_op_db_def fun_eq_iff)
  have b: "providers_by_instrument [history_source] (i_instrument_id example_instrument) = [history_source]"
    by (simp add: providers_by_instrument_def) (simp add: history_source_def example_source_def example_instrument_def)
  have r: "od_providers example_op_db = Some (\<lambda>_. [])"
    by (simp add: example_op_db_def)
  have "service_providers_for history_senv ''BTC_USD'' [] = Inr [history_source]"
    by (simp add: service_providers_for_def history_senv_def operational_providers_for_def example_lookup b r o
        providers_from_rows_def example_effective Let_def)
  moreover have "p_enabled history_source" "configured history_source Map.empty"
    by (simp_all add: configured_def history_source_def) (simp_all add: example_source_def starts_with_def)
  ultimately show ?thesis
    by (simp add: history_provider_def example_benv_def history_source_fields) (simp add: history_senv_def history_source_fields)
qed

lemma example_automatic:
  "\<exists>r w'. enqueue_automatic example_benv ''BTC_USD'' (utc 0) (utc 7200000000) 3600 250 example_bworld = (Inr r, w')
     \<and> er_status r = ''queued''"
proof -
  have i: "i_instrument_id example_instrument = ''BTC_USD''" "i_enabled example_instrument"
    by (simp_all add: example_instrument_def)
  have f: "get_instrument (sv_defs history_senv) ''BTC_USD'' = Inr example_instrument"
      "operational_instruments (sv_loads history_senv) (sv_defs history_senv) (sv_op_db history_senv) [''BTC_USD'']
        = Inr [''BTC_USD'' \<mapsto> example_instrument]"
    using i by (simp_all add: history_senv_def example_lookup operational_instruments_def fun_eq_iff)
  have b: "backfill_enabled example_benv ''BTC_USD''"
    by (simp add: backfill_enabled_def example_benv_def history_senv_def feature_enabled_def value_of_def setting_row_def
        setting_value_of_def example_op_db_def feature_default_def)
  have s: "be_service example_benv = history_senv" "sv_ops history_senv = ttl_ops" "sv_db_up history_senv"
    by (simp_all add: example_benv_def history_senv_def)
  obtain l s1 where a: "acquire ttl_ops (redis_of example_bworld) (''pricing:backfill-auto:'' @ bucket_text ''BTC_USD'' 0 7200000000 3600)
      60000 (sv_owner history_senv) = Inr (Some l, s1)"
    by (simp add: acquire_def redis_of_def example_bworld_def example_world_def st_simps st_entry_def Let_def)
  have q: "enqueue example_benv ''BTC_USD'' (utc 0) (utc 7200000000) 250 w = (Inr \<lparr>er_status = ''queued'',
        er_key = range_key ''BTC_USD'' 0 7200000000, er_job = Some (fst (insert_backfill (be_now example_benv) ''BTC_USD'' 0
          7200000000 250 (range_key ''BTC_USD'' 0 7200000000) (bw_table w))), er_stream = None\<rparr>,
      w\<lparr>bw_table := snd (insert_backfill (be_now example_benv) ''BTC_USD'' 0 7200000000 250
          (range_key ''BTC_USD'' 0 7200000000) (bw_table w))\<rparr>)" for w
    using example_benv_instrument i b example_provider_found s by (simp add: enqueue_def Let_def)
  show ?thesis
    using f i b s a q by (simp add: enqueue_automatic_def Let_def)
qed

theorem automatic_requests_coalesce_witness:
  "\<exists>w' r. enqueue_automatic example_benv ''BTC_USD'' (utc 1000000) (utc 7201000000) 3600 250 w' = (Inr r, w')
     \<and> er_status r = ''coalesced''"
proof -
  obtain r w' where r: "enqueue_automatic example_benv ''BTC_USD'' (utc 0) (utc 7200000000) 3600 250 example_bworld = (Inr r, w')"
      "er_status r = ''queued''"
    using example_automatic by blast
  have "bucket_of 1000000 3600 = bucket_of 0 3600" "bucket_of 7201000000 3600 = bucket_of 7200000000 3600"
    by code_simp+
  moreover have "sv_ops (be_service example_benv) = ttl_ops"
    by (simp add: example_benv_def history_senv_def)
  ultimately show ?thesis
    using automatic_requests_coalesce [OF _ r(1), of "utc 1000000" "utc 7201000000" 250] r(2) ttl.redis_service_axioms
    by auto
qed

end
