(* ===== verification/Price_Stream.thy ===== *)
theory Price_Stream
  imports Canonical_Store Json Operational
begin

text \<open>
  Model of \<open>PriceWebSocketHub\<close> in \<open>apps/api/app/pricing/websocket.py\<close> and of the handshake in
  \<open>apps/api/app/routers/price_ws.py\<close>: the connections of one worker with their queues, the dispatcher that hands every
  event of the Redis channel to every queue, the snapshots that are read for new connections and after a gap, and the
  frames of clients.

  \<^item> The tasks of the event loop interleave in any order: \<open>stream_step\<close> is one step of any of them.
  \<^item> \<open>hb_published\<close> is what was published on the channel so far. An item of a queue carries the place of its event in this
    list, and a snapshot how many events had been published when it was read; the program has neither number.
  \<^item> \<open>cn_held\<close> is the result of the task that takes from the queue; a new connection holds \<open>Join\<close> until it got its first
    snapshot. \<open>cn_log\<close> is what the connection did so far: what it sent, the updates it passed over, and the instruments
    it was subscribed to at first and after every frame of the client.
  \<^item> A read of all prices that has begun and not finished is shared (\<open>hb_read\<close>): \<open>Some None\<close> before the prices are read,
    \<open>Some (Some n)\<close> after that, until it is finished.
\<close>

section \<open>Events\<close>

record public_event =
  ev_payload :: canonical_payload
  ev_asset :: "string option"
  ev_sequence :: "int option"
  ev_currency :: currency
  ev_market :: market
  ev_unit :: weight_unit
  ev_purity :: pyval
  ev_display_decimals :: int
  ev_persistence_status :: string

definition public_event_of :: "instrument_definition list \<Rightarrow> instant \<Rightarrow> canonical_quote \<Rightarrow> public_event result" where
  "public_event_of defs now c =
     ebind (get_instrument defs (c_instrument_id c)) (\<lambda>i.
     ebind (canonical_to_dict c False now True) (\<lambda>payload.
     ebind (json_number (i_purity i)) (\<lambda>purity.
     Inr \<lparr>ev_payload = payload, ev_asset = legacy_asset_for_instrument (c_instrument_id c), ev_sequence = c_sequence_number c,
          ev_currency = i_quote_currency i, ev_market = i_market i, ev_unit = i_weight_unit i, ev_purity = purity,
          ev_display_decimals = i_display_decimals i,
          ev_persistence_status = (if c_is_persisted c then ''persisted'' else ''unpersisted'')\<rparr>)))"

definition event_instrument :: "public_event \<Rightarrow> string" where
  "event_instrument e = pl_instrument_id (ev_payload e)"

datatype queue_item = Join | Resync string | Update nat public_event

datatype outcome =
    Subscribed "string list"
  | SnapshotSent "string option" nat "public_event list"
  | UpdateSent nat public_event
  | UpdateIgnored nat public_event
  | HeartbeatSent

record connection =
  cn_id :: nat
  cn_subscriptions :: "string list"
  cn_queue :: "queue_item list"
  cn_held :: "queue_item option"
  cn_waits :: bool
  cn_window_started :: rat
  cn_messages :: int
  cn_log :: "outcome list"

record hub =
  hb_connections :: "connection list"
  hb_published :: "canonical_payload list"
  hb_channel :: "(nat \<times> canonical_payload) list"
  hb_subscribed :: bool
  hb_resync_due :: bool
  hb_read :: "nat option option"

definition client_queue_size :: nat where "client_queue_size = 64"

definition client_message_limit :: int where "client_message_limit = 30"

section \<open>The handshake\<close>

text \<open>\<open>_origin\<close> of a text; \<open>split\<close> gives its scheme and its network location, or that it is no URL.\<close>

definition origin_of :: "(string \<rightharpoonup> string \<times> string) \<Rightarrow> string \<Rightarrow> string option" where
  "origin_of split value =
     (case split value of
        None \<Rightarrow> None
      | Some (scheme, netloc) \<Rightarrow>
          if scheme \<notin> {''http'', ''https''} \<or> netloc = [] then None else Some (scheme @ ''://'' @ netloc))"

definition allowed_origins :: "(string \<rightharpoonup> string \<times> string) \<Rightarrow> string list \<Rightarrow> string \<Rightarrow> string \<Rightarrow> string set" where
  "allowed_origins split given public_origin admin_origin =
     set (List.map_filter (\<lambda>x. x)
       (map (\<lambda>item. origin_of split (strip item)) (filter (\<lambda>item. strip item \<noteq> []) given)
        @ [origin_of split public_origin, origin_of split admin_origin]))"

text \<open>Only a browser sends an origin, and it must be an allowed one.\<close>

definition handshake_allowed :: "(string \<rightharpoonup> string \<times> string) \<Rightarrow> string set \<Rightarrow> string option \<Rightarrow> bool" where
  "handshake_allowed split allowed header =
     (case header of
        None \<Rightarrow> True
      | Some h \<Rightarrow> (case origin_of split h of None \<Rightarrow> False | Some x \<Rightarrow> x \<in> allowed))"

definition requested_instruments :: "instrument_definition list \<Rightarrow> string list \<Rightarrow> string list option" where
  "requested_instruments defs names =
     (let known = remdups (map i_instrument_id (List.map_filter
            (\<lambda>n. case get_instrument defs n of Inl _ \<Rightarrow> None | Inr i \<Rightarrow> Some i) (take 100 names)))
      in if known = [] then None else Some known)"

section \<open>Connections\<close>

definition update_connection :: "nat \<Rightarrow> (connection \<Rightarrow> connection) \<Rightarrow> hub \<Rightarrow> hub" where
  "update_connection n f h = h\<lparr>hb_connections := map (\<lambda>c. if cn_id c = n then f c else c) (hb_connections h)\<rparr>"

text \<open>\<open>_register\<close>, refused at capacity.\<close>

definition register :: "nat \<Rightarrow> nat \<Rightarrow> string list \<Rightarrow> rat \<Rightarrow> hub \<Rightarrow> hub option" where
  "register maximum n subscriptions now h =
     (if length (hb_connections h) \<ge> maximum then None
      else Some (h\<lparr>hb_connections := hb_connections h @ [\<lparr>cn_id = n, cn_subscriptions = subscriptions, cn_queue = [],
             cn_held = Some Join, cn_waits = False, cn_window_started = now, cn_messages = 0, cn_log = [Subscribed subscriptions]\<rparr>]\<rparr>))"

text \<open>The subscription to the channel is dropped; what was in transit is lost.\<close>

definition drop_subscription :: "hub \<Rightarrow> hub" where
  "drop_subscription h = h\<lparr>hb_subscribed := False, hb_channel := []\<rparr>"

definition unregister :: "nat \<Rightarrow> hub \<Rightarrow> hub" where
  "unregister n h =
     (let h1 = h\<lparr>hb_connections := filter (\<lambda>c. cn_id c \<noteq> n) (hb_connections h)\<rparr>
      in if hb_connections h1 = [] then drop_subscription h1 else h1)"

section \<open>The dispatcher\<close>

text \<open>A full queue gives way to a request for a snapshot.\<close>

definition offer :: "queue_item \<Rightarrow> queue_item list \<Rightarrow> queue_item list" where
  "offer x q = (if length q < client_queue_size then q @ [x] else [Resync ''queue_overflow''])"

definition offer_all :: "queue_item \<Rightarrow> hub \<Rightarrow> hub" where
  "offer_all x h = h\<lparr>hb_connections := map (\<lambda>c. c\<lparr>cn_queue := offer x (cn_queue c)\<rparr>) (hb_connections h)\<rparr>"

text \<open>\<open>_request_resync\<close>: the queues are emptied first.\<close>

definition request_resync :: "string \<Rightarrow> hub \<Rightarrow> hub" where
  "request_resync reason h =
     h\<lparr>hb_connections := map (\<lambda>c. c\<lparr>cn_queue := [Resync reason]\<rparr>) (hb_connections h), hb_resync_due := False\<rparr>"

definition skipped_error :: "py_error \<Rightarrow> bool" where
  "skipped_error e = (case e of KeyErr _ \<Rightarrow> True | UnknownInstrument _ \<Rightarrow> True | TypeError _ \<Rightarrow> True | ValueError _ \<Rightarrow> True | _ \<Rightarrow> False)"

text \<open>One message of the channel: what cannot be read is skipped, any other exception drops the subscription.\<close>

definition dispatch :: "instrument_definition list \<Rightarrow> instant \<Rightarrow> hub \<Rightarrow> hub" where
  "dispatch defs now h =
     (case hb_channel h of
        [] \<Rightarrow> h
      | (k, p) # rest \<Rightarrow>
          (case canonical_from_dict p of
             Inl e \<Rightarrow> if skipped_error e then h\<lparr>hb_channel := rest\<rparr> else drop_subscription h
           | Inr c \<Rightarrow>
               (case public_event_of defs now c of
                  Inl _ \<Rightarrow> drop_subscription h
                | Inr e \<Rightarrow> offer_all (Update k e) (h\<lparr>hb_channel := rest\<rparr>))))"

section \<open>The loop of a connection\<close>

definition take_item :: "connection \<Rightarrow> connection" where
  "take_item c =
     (case (cn_held c, cn_queue c) of
        (None, x # q) \<Rightarrow> c\<lparr>cn_held := Some x, cn_queue := q\<rparr>
      | _ \<Rightarrow> c)"

text \<open>An update is sent if its instrument is subscribed.\<close>

definition send_update :: "connection \<Rightarrow> connection" where
  "send_update c =
     (case cn_held c of
        Some (Update k e) \<Rightarrow>
          c\<lparr>cn_held := None,
            cn_log := cn_log c @ [if event_instrument e \<in> set (cn_subscriptions c) then UpdateSent k e else UpdateIgnored k e]\<rparr>
      | _ \<Rightarrow> c)"

definition needs_snapshot :: "connection \<Rightarrow> bool" where
  "needs_snapshot c \<longleftrightarrow> (case cn_held c of Some Join \<Rightarrow> True | Some (Resync _) \<Rightarrow> True | _ \<Rightarrow> False)"

text \<open>\<open>_read_snapshot\<close>: an unfinished read is joined, else one is begun.\<close>

definition ask_snapshot :: "nat \<Rightarrow> hub \<Rightarrow> hub" where
  "ask_snapshot n h =
     update_connection n (\<lambda>c. c\<lparr>cn_waits := True\<rparr>)
       (h\<lparr>hb_read := (case hb_read h of None \<Rightarrow> Some None | Some r \<Rightarrow> Some r)\<rparr>)"

definition capture :: "hub \<Rightarrow> hub" where
  "capture h = (case hb_read h of Some None \<Rightarrow> h\<lparr>hb_read := Some (Some (length (hb_published h)))\<rparr> | _ \<Rightarrow> h)"

definition give_snapshot :: "nat \<Rightarrow> public_event list \<Rightarrow> connection \<Rightarrow> connection" where
  "give_snapshot n prices c =
     (if cn_waits c then
        c\<lparr>cn_waits := False, cn_held := None,
          cn_log := cn_log c @ [SnapshotSent (case cn_held c of Some (Resync reason) \<Rightarrow> Some reason | _ \<Rightarrow> None) n
            (filter (\<lambda>e. event_instrument e \<in> set (cn_subscriptions c)) prices)]\<rparr>
      else c)"

text \<open>The read is finished with the prices it captured; if it raised, the connections that waited for it end.\<close>

definition finish_read :: "(nat \<Rightarrow> public_event list result) \<Rightarrow> hub \<Rightarrow> hub" where
  "finish_read prices h =
     (case hb_read h of
        Some (Some n) \<Rightarrow>
          (case prices n of
             Inr ps \<Rightarrow> h\<lparr>hb_read := None, hb_connections := map (give_snapshot n ps) (hb_connections h)\<rparr>
           | Inl _ \<Rightarrow> foldr unregister (map cn_id (filter cn_waits (hb_connections h))) (h\<lparr>hb_read := None\<rparr>))
      | _ \<Rightarrow> h)"

section \<open>Frames of clients\<close>

definition known_instrument :: "text_rt \<Rightarrow> instrument_definition list \<Rightarrow> json \<Rightarrow> string option" where
  "known_instrument rt defs v =
     (case v of
        JStr s \<Rightarrow> map_option i_instrument_id (List.find (\<lambda>d. uni (i_instrument_id d) = u_upper rt (u_strip s)) defs)
      | _ \<Rightarrow> None)"

definition handle_client_message ::
  "text_rt \<Rightarrow> (utext \<rightharpoonup> json) \<Rightarrow> instrument_definition list \<Rightarrow> utext \<Rightarrow> string list \<Rightarrow> string list" where
  "handle_client_message rt loads defs message subscriptions =
     (if length message > 4096 then subscriptions
      else
        case loads message of
          Some (JObj ms) \<Rightarrow>
            if j_get ms ''event_type'' \<noteq> JStr (uni ''subscribe'') then subscriptions
            else
              (case j_get ms ''instruments'' of
                 JList vs \<Rightarrow>
                   let normalized = remdups (List.map_filter (known_instrument rt defs) (take 100 vs))
                   in if normalized = [] then subscriptions else normalized
               | _ \<Rightarrow> subscriptions)
        | _ \<Rightarrow> subscriptions)"

text \<open>A frame counts in the minute since the window was opened; one frame too many ends the connection.\<close>

definition client_frame :: "(string list \<Rightarrow> string list) \<Rightarrow> rat \<Rightarrow> connection \<Rightarrow> connection option" where
  "client_frame handle now c =
     (let fresh = now - cn_window_started c \<ge> 60; count = (if fresh then 1 else cn_messages c + 1)
      in if count > client_message_limit then None
         else Some (c\<lparr>cn_window_started := (if fresh then now else cn_window_started c), cn_messages := count,
                cn_subscriptions := handle (cn_subscriptions c),
                cn_log := cn_log c @ [Subscribed (handle (cn_subscriptions c))]\<rparr>))"

section \<open>Steps\<close>

text \<open>
  One step of a worker. \<open>late\<close> says whether a connection may join a read whose prices have been read already, as the
  program allows; without it every snapshot is at least as new as the wish for it.
\<close>

record stream_env =
  se_defs :: "instrument_definition list"
  se_rt :: text_rt
  se_loads :: "utext \<rightharpoonup> json"
  se_maximum :: nat
  se_prices :: "nat \<Rightarrow> public_event list result"

inductive stream_step :: "bool \<Rightarrow> stream_env \<Rightarrow> hub \<Rightarrow> hub \<Rightarrow> bool" for late env where
  publish: "stream_step late env h (h\<lparr>hb_published := hb_published h @ [p],
      hb_channel := hb_channel h @ (if hb_subscribed h then [(length (hb_published h), p)] else [])\<rparr>)"
| connect: "\<not> hb_subscribed h \<Longrightarrow> hb_connections h \<noteq> []
    \<Longrightarrow> stream_step late env h (h\<lparr>hb_subscribed := True, hb_resync_due := True\<rparr>)"
| resync: "hb_subscribed h \<Longrightarrow> hb_resync_due h \<Longrightarrow> stream_step late env h (request_resync ''subscription_connected'' h)"
| dispatch: "hb_subscribed h \<Longrightarrow> \<not> hb_resync_due h \<Longrightarrow> stream_step late env h (dispatch (se_defs env) now h)"
| drop: "stream_step late env h (drop_subscription h)"
| register: "n \<notin> cn_id ` set (hb_connections h) \<Longrightarrow> subs \<noteq> [] \<Longrightarrow> register (se_maximum env) n subs now h = Some h'
    \<Longrightarrow> stream_step late env h h'"
| leave: "stream_step late env h (unregister n h)"
| take: "stream_step late env h (update_connection n take_item h)"
| send: "stream_step late env h (update_connection n send_update h)"
| heartbeat: "stream_step late env h (update_connection n (\<lambda>c. c\<lparr>cn_log := cn_log c @ [HeartbeatSent]\<rparr>) h)"
| ask: "c \<in> set (hb_connections h) \<Longrightarrow> needs_snapshot c \<Longrightarrow> \<not> cn_waits c
    \<Longrightarrow> late \<or> (\<forall>n. hb_read h \<noteq> Some (Some n)) \<Longrightarrow> stream_step late env h (ask_snapshot (cn_id c) h)"
| capture: "stream_step late env h (capture h)"
| finish: "stream_step late env h (finish_read (se_prices env) h)"
| frame: "c \<in> set (hb_connections h) \<Longrightarrow> \<not> cn_waits c
    \<Longrightarrow> client_frame (handle_client_message (se_rt env) (se_loads env) (se_defs env) message) now c = Some c'
    \<Longrightarrow> stream_step late env h (update_connection (cn_id c) (\<lambda>_. c') h)"
| too_many: "c \<in> set (hb_connections h) \<Longrightarrow> \<not> cn_waits c
    \<Longrightarrow> client_frame (handle_client_message (se_rt env) (se_loads env) (se_defs env) message) now c = None
    \<Longrightarrow> stream_step late env h (unregister (cn_id c) h)"

inductive stream_reach :: "bool \<Rightarrow> stream_env \<Rightarrow> hub \<Rightarrow> hub \<Rightarrow> bool" for late env where
  refl: "stream_reach late env h h"
| step: "stream_reach late env h u \<Longrightarrow> stream_step late env u v \<Longrightarrow> stream_reach late env h v"

definition empty_hub :: hub where
  "empty_hub = \<lparr>hb_connections = [], hb_published = [], hb_channel = [], hb_subscribed = False, hb_resync_due = False,
     hb_read = None\<rparr>"

section \<open>What a connection has been told\<close>

text \<open>
  An event counts as announced to a connection if its update was taken from the queue, or a snapshot was given that was
  read after it (\<open>told\<close>). That the client has got it says more (\<open>got\<close>): the update was sent, or its instrument was
  not subscribed when it was passed over; or the snapshot that was sent holds exactly the prices of the instruments
  subscribed at that time, as they were read after the event.
\<close>

definition told :: "connection \<Rightarrow> nat \<Rightarrow> bool" where
  "told c k \<longleftrightarrow> (\<exists>x\<in>set (cn_log c). case x of SnapshotSent _ n _ \<Rightarrow> k < n | UpdateSent m _ \<Rightarrow> m = k | UpdateIgnored m _ \<Rightarrow> m = k
     | HeartbeatSent \<Rightarrow> False | Subscribed _ \<Rightarrow> False)"

text \<open>The event is the one made from the \<open>k\<close>-th publication.\<close>

definition announces :: "stream_env \<Rightarrow> canonical_payload list \<Rightarrow> nat \<Rightarrow> public_event \<Rightarrow> bool" where
  "announces env published k e \<longleftrightarrow> k < length published
     \<and> (\<exists>q now. canonical_from_dict (published ! k) = Inr q \<and> public_event_of (se_defs env) now q = Inr e)"

definition settles :: "stream_env \<Rightarrow> canonical_payload list \<Rightarrow> nat \<Rightarrow> string list \<Rightarrow> outcome \<Rightarrow> bool" where
  "settles env published k subscribed x \<longleftrightarrow>
     (case x of
        SnapshotSent _ n shown \<Rightarrow> k < n
          \<and> (\<exists>ps. se_prices env n = Inr ps \<and> shown = filter (\<lambda>e. event_instrument e \<in> set subscribed) ps)
      | UpdateSent m e \<Rightarrow> m = k \<and> announces env published k e
      | UpdateIgnored m e \<Rightarrow> m = k \<and> announces env published k e \<and> event_instrument e \<notin> set subscribed
      | _ \<Rightarrow> False)"

definition subscribed_after :: "string list \<Rightarrow> outcome \<Rightarrow> string list" where
  "subscribed_after subscribed x = (case x of Subscribed s \<Rightarrow> s | _ \<Rightarrow> subscribed)"

primrec settled_in :: "stream_env \<Rightarrow> canonical_payload list \<Rightarrow> nat \<Rightarrow> outcome list \<Rightarrow> string list \<Rightarrow> bool" where
  "settled_in env published k [] subscribed \<longleftrightarrow> False"
| "settled_in env published k (x # xs) subscribed \<longleftrightarrow>
     settles env published k subscribed x \<or> settled_in env published k xs (subscribed_after subscribed x)"

definition got :: "stream_env \<Rightarrow> canonical_payload list \<Rightarrow> connection \<Rightarrow> nat \<Rightarrow> bool" where
  "got env published c k \<longleftrightarrow> settled_in env published k (cn_log c) []"

lemma settled_in_append [simp]:
  "settled_in env published k (xs @ ys) subscribed
     \<longleftrightarrow> settled_in env published k xs subscribed \<or> settled_in env published k ys (foldl subscribed_after subscribed xs)"
  by (induction xs arbitrary: subscribed) auto

lemma got_cong: "cn_log c' = cn_log c \<Longrightarrow> got env published c' k = got env published c k"
  by (simp add: got_def)

lemma got_longer: "cn_log c' = cn_log c @ xs \<Longrightarrow> got env published c k \<Longrightarrow> got env published c' k"
  by (simp add: got_def)

lemma announces_more: "announces env published k e \<Longrightarrow> announces env (published @ [p]) k e"
  by (auto simp: announces_def nth_append)

lemma got_more: "got env published c k \<Longrightarrow> got env (published @ [p]) c k"
proof -
  have "settled_in env published k xs subscribed \<Longrightarrow> settled_in env (published @ [p]) k xs subscribed" for xs subscribed
    by (induction xs arbitrary: subscribed) (auto simp: settles_def announces_more split: outcome.splits)
  then show "got env published c k \<Longrightarrow> ?thesis"
    by (simp add: got_def)
qed

definition items :: "connection \<Rightarrow> queue_item set" where
  "items c = set (cn_queue c) \<union> set_option (cn_held c)"

definition asks :: "queue_item \<Rightarrow> bool" where
  "asks x \<longleftrightarrow> (case x of Update _ _ \<Rightarrow> False | _ \<Rightarrow> True)"

text \<open>A snapshot is still to come that will be read after everything published so far.\<close>

definition snapshot_ahead :: "hub \<Rightarrow> connection \<Rightarrow> bool" where
  "snapshot_ahead h c \<longleftrightarrow> (\<exists>x\<in>set (cn_queue c). asks x)
     \<or> needs_snapshot c \<and> (cn_waits c \<longrightarrow> hb_read h = Some None)"

definition on_its_way :: "hub \<Rightarrow> connection \<Rightarrow> nat \<Rightarrow> bool" where
  "on_its_way h c k \<longleftrightarrow>
     (\<exists>e. Update k e \<in> items c) \<or> snapshot_ahead h c \<or> k \<in> fst ` set (hb_channel h)
     \<or> (\<exists>n. cn_waits c \<and> hb_read h = Some (Some n) \<and> k < n)
     \<or> \<not> hb_subscribed h \<or> hb_resync_due h"

definition readable :: "hub \<Rightarrow> nat \<Rightarrow> bool" where
  "readable h k \<longleftrightarrow> k < length (hb_published h) \<and> is_ok (canonical_from_dict (hb_published h ! k))"

definition hub_inv :: "hub \<Rightarrow> bool" where
  "hub_inv h \<longleftrightarrow> distinct (map cn_id (hb_connections h))
     \<and> (\<forall>(k, p)\<in>set (hb_channel h). k < length (hb_published h) \<and> hb_published h ! k = p)
     \<and> (\<forall>c\<in>set (hb_connections h). cn_waits c \<longrightarrow> needs_snapshot c \<and> hb_read h \<noteq> None)
     \<and> (\<forall>n. hb_read h = Some (Some n) \<longrightarrow> n \<le> length (hb_published h))"

definition safe :: "stream_env \<Rightarrow> hub \<Rightarrow> connection \<Rightarrow> nat \<Rightarrow> bool" where
  "safe env h c k \<longleftrightarrow> got env (hb_published h) c k \<or> on_its_way h c k"

definition no_gap :: "stream_env \<Rightarrow> hub \<Rightarrow> bool" where
  "no_gap env h \<longleftrightarrow> (\<forall>c\<in>set (hb_connections h). \<forall>k. readable h k \<longrightarrow> safe env h c k)"

text \<open>The log of a connection ends with the subscriptions in force, and what it is about to send was published.\<close>

definition faithful :: "stream_env \<Rightarrow> canonical_payload list \<Rightarrow> connection \<Rightarrow> bool" where
  "faithful env published c \<longleftrightarrow> foldl subscribed_after [] (cn_log c) = cn_subscriptions c
     \<and> (\<forall>k e. Update k e \<in> items c \<longrightarrow> announces env published k e)"

definition all_faithful :: "stream_env \<Rightarrow> hub \<Rightarrow> bool" where
  "all_faithful env h \<longleftrightarrow> (\<forall>c\<in>set (hb_connections h). faithful env (hb_published h) c)"

text \<open>What a step leaves alone.\<close>

definition same_hub :: "hub \<Rightarrow> hub \<Rightarrow> bool" where
  "same_hub h h' \<longleftrightarrow> hb_published h' = hb_published h \<and> hb_channel h' = hb_channel h \<and> hb_subscribed h' = hb_subscribed h
     \<and> hb_resync_due h' = hb_resync_due h \<and> hb_read h' = hb_read h"

lemma same_hub_safe: "same_hub h h' \<Longrightarrow> safe env h' c k = safe env h c k \<and> readable h' k = readable h k"
  by (simp add: same_hub_def safe_def on_its_way_def snapshot_ahead_def readable_def)

lemma update_connection_simps [simp]:
  "hb_connections (update_connection n f h) = map (\<lambda>c. if cn_id c = n then f c else c) (hb_connections h)"
  "hb_published (update_connection n f h) = hb_published h" "hb_channel (update_connection n f h) = hb_channel h"
  "hb_subscribed (update_connection n f h) = hb_subscribed h" "hb_resync_due (update_connection n f h) = hb_resync_due h"
  "hb_read (update_connection n f h) = hb_read h"
  by (simp_all add: update_connection_def)

lemma same_hub_update [simp]: "same_hub h (update_connection n f h)"
  by (simp add: same_hub_def)

lemma updated_ids:
  assumes "\<And>c. c \<in> set cs \<Longrightarrow> cn_id (f c) = cn_id c"
  shows "map cn_id (map f cs) = map cn_id cs"
  using assms by simp

text \<open>A change of one connection keeps the invariants if it keeps them for that connection.\<close>

lemma update_connection_inv:
  assumes "hub_inv h" "\<And>c. c \<in> set (hb_connections h) \<Longrightarrow> cn_id c = n \<Longrightarrow>
      cn_id (f c) = n \<and> (cn_waits (f c) \<longrightarrow> needs_snapshot (f c) \<and> hb_read h \<noteq> None)"
  shows "hub_inv (update_connection n f h)"
proof -
  have "map cn_id (map (\<lambda>c. if cn_id c = n then f c else c) (hb_connections h)) = map cn_id (hb_connections h)"
    using assms(2) by (intro updated_ids) simp
  then have "distinct (map cn_id (map (\<lambda>c. if cn_id c = n then f c else c) (hb_connections h)))"
    using assms(1) by (simp add: hub_inv_def del: map_map)
  then show ?thesis
    using assms by (auto simp: hub_inv_def)
qed

lemma update_connection_no_gap:
  assumes "no_gap env h" "\<And>c k. c \<in> set (hb_connections h) \<Longrightarrow> cn_id c = n \<Longrightarrow> safe env h c k \<Longrightarrow> safe env h (f c) k"
  shows "no_gap env (update_connection n f h)"
  using assms same_hub_safe[OF same_hub_update] by (auto simp: no_gap_def)

lemma update_connection_faithful:
  assumes "all_faithful env h" "\<And>c. c \<in> set (hb_connections h) \<Longrightarrow> cn_id c = n \<Longrightarrow> faithful env (hb_published h) c
      \<Longrightarrow> faithful env (hb_published h) (f c)"
  shows "all_faithful env (update_connection n f h)"
  using assms by (auto simp: all_faithful_def)

lemma unregister_cases:
  "hb_connections (unregister n h) = filter (\<lambda>c. cn_id c \<noteq> n) (hb_connections h)"
  "hb_published (unregister n h) = hb_published h" "hb_read (unregister n h) = hb_read h"
  "set (hb_channel (unregister n h)) \<subseteq> set (hb_channel h)"
  "hb_connections (unregister n h) \<noteq> [] \<Longrightarrow> same_hub h (unregister n h)"
  by (auto simp: unregister_def drop_subscription_def same_hub_def Let_def)

lemma unregister_inv: "hub_inv h \<Longrightarrow> hub_inv (unregister n h)"
  using unregister_cases[of n h] by (auto simp: hub_inv_def distinct_map_filter)

lemma unregister_faithful: "all_faithful env h \<Longrightarrow> all_faithful env (unregister n h)"
  by (simp add: all_faithful_def unregister_cases)

lemma unregister_no_gap: "no_gap env h \<Longrightarrow> no_gap env (unregister n h)"
  using unregister_cases[of n h] same_hub_safe[of h "unregister n h"]
  by (cases "hb_connections (unregister n h) = []") (auto simp: no_gap_def)

lemma foldr_unregister_inv: "hub_inv h \<Longrightarrow> hub_inv (foldr unregister ns h)"
  by (induction ns) (simp_all add: unregister_inv)

section \<open>The steps keep the invariants\<close>

lemma dispatch_cases:
  obtains (none) "dispatch defs now h = h"
  | (skip) k p rest where "hb_channel h = (k, p) # rest" "\<not> is_ok (canonical_from_dict p)" "dispatch defs now h = h\<lparr>hb_channel := rest\<rparr>"
  | (drop) "dispatch defs now h = drop_subscription h"
  | (offer) k p rest c e where "hb_channel h = (k, p) # rest" "canonical_from_dict p = Inr c" "public_event_of defs now c = Inr e"
      "dispatch defs now h = offer_all (Update k e) (h\<lparr>hb_channel := rest\<rparr>)"
proof (cases "hb_channel h")
  case (Cons m rest)
  obtain k p where m: "m = (k, p)"
    by fastforce
  show ?thesis
  proof (cases "canonical_from_dict p")
    case (Inl e)
    then show ?thesis
      using Cons m that(2,3) by (cases "skipped_error e") (simp_all add: dispatch_def)
  next
    case (Inr c)
    then show ?thesis
      using Cons m that(3,4) by (cases "public_event_of defs now c") (simp_all add: dispatch_def)
  qed
qed (use that(1) in \<open>simp add: dispatch_def\<close>)

lemma offer_items: "x \<in> set (offer x q) \<or> (\<exists>y\<in>set (offer x q). asks y)"
  by (simp add: offer_def asks_def)

lemma offer_keeps: "y \<in> set q \<Longrightarrow> y \<in> set (offer x q) \<or> (\<exists>z\<in>set (offer x q). asks z)"
  by (simp add: offer_def asks_def)

lemma needs_snapshot_queue [simp]:
  "needs_snapshot (c\<lparr>cn_queue := q\<rparr>) = needs_snapshot c" "got env ps (c\<lparr>cn_queue := q\<rparr>) k = got env ps c k"
  "needs_snapshot (c\<lparr>cn_waits := b\<rparr>) = needs_snapshot c" "got env ps (c\<lparr>cn_waits := b\<rparr>) k = got env ps c k"
  by (simp_all add: needs_snapshot_def got_def)

lemma offered_safe:
  assumes "safe env h c k" "hb_channel h = (m, p) # rest"
  shows "safe env (h\<lparr>hb_channel := rest, hb_connections := cs\<rparr>) (c\<lparr>cn_queue := offer (Update m e) (cn_queue c)\<rparr>) k"
proof (cases "\<exists>z\<in>set (offer (Update m e) (cn_queue c)). asks z")
  case True
  then show ?thesis
    by (simp add: safe_def on_its_way_def snapshot_ahead_def)
next
  case False
  then have "Update m e \<in> set (offer (Update m e) (cn_queue c))" "set (cn_queue c) \<subseteq> set (offer (Update m e) (cn_queue c))"
    using offer_items offer_keeps by blast+
  then show ?thesis
    using assms by (auto simp: safe_def on_its_way_def snapshot_ahead_def items_def)
qed

lemma take_item_cases:
  obtains (none) "take_item c = c"
  | (taken) x q where "cn_held c = None" "cn_queue c = x # q" "take_item c = c\<lparr>cn_held := Some x, cn_queue := q\<rparr>"
  by (cases "cn_held c"; cases "cn_queue c") (simp_all add: take_item_def)

lemma send_update_cases:
  obtains (none) "send_update c = c"
  | (sent) k e where "cn_held c = Some (Update k e)" "send_update c = c\<lparr>cn_held := None, cn_log := cn_log c @
      [if event_instrument e \<in> set (cn_subscriptions c) then UpdateSent k e else UpdateIgnored k e]\<rparr>"
proof (cases "\<exists>k e. cn_held c = Some (Update k e)")
  case True
  then obtain k e where h: "cn_held c = Some (Update k e)"
    by blast
  then show ?thesis
    by (intro that(2)[OF h]) (simp add: send_update_def)
next
  case False
  then have "send_update c = c"
    by (auto simp: send_update_def split: option.splits queue_item.splits)
  then show ?thesis
    by (rule that(1))
qed

lemma send_update_got:
  assumes "cn_held c = Some (Update k e)" "faithful env published c"
  shows "got env published (send_update c) k"
proof -
  have "announces env published k e" "foldl subscribed_after [] (cn_log c) = cn_subscriptions c"
    using assms by (auto simp: faithful_def items_def)
  then show ?thesis
    using assms(1) by (simp add: got_def send_update_def settles_def)
qed

lemma send_update_safe:
  assumes "safe env h c k" "cn_waits c \<longrightarrow> needs_snapshot c" "faithful env (hb_published h) c"
  shows "safe env h (send_update c) k"
proof (cases rule: send_update_cases[of c])
  case (sent m e)
  then have "\<not> cn_waits c" "\<not> needs_snapshot c"
    using assms(2) by (auto simp: needs_snapshot_def)
  moreover have "got env (hb_published h) (send_update c) m" "got env (hb_published h) c k \<Longrightarrow> got env (hb_published h) (send_update c) k"
    using send_update_got[OF sent(1) assms(3)] got_longer unfolding sent(2) by simp_all
  ultimately show ?thesis
    using assms(1) sent by (auto simp: safe_def on_its_way_def snapshot_ahead_def items_def)
qed (use assms(1) in simp)

lemma send_update_faithful:
  assumes "faithful env published c"
  shows "faithful env published (send_update c)"
  by (cases rule: send_update_cases[of c]) (use assms in \<open>auto simp: faithful_def items_def subscribed_after_def\<close>)

lemma take_item_safe:
  assumes "safe env h c k" "cn_waits c \<longrightarrow> needs_snapshot c"
  shows "safe env h (take_item c) k"
proof (cases rule: take_item_cases[of c])
  case (taken x q)
  then have w: "\<not> cn_waits c" "\<not> needs_snapshot c"
    using assms(2) by (auto simp: needs_snapshot_def)
  have "asks x \<longleftrightarrow> needs_snapshot (take_item c)" "got env (hb_published h) (take_item c) k = got env (hb_published h) c k"
      "items (take_item c) = items c"
    unfolding taken(3) using taken(1,2) by (auto simp: asks_def needs_snapshot_def got_def items_def split: queue_item.split)
  then show ?thesis
    using assms(1) taken w by (auto simp: safe_def on_its_way_def snapshot_ahead_def)
qed (use assms(1) in simp)

lemma take_item_faithful: "faithful env published c \<Longrightarrow> faithful env published (take_item c)"
  by (cases rule: take_item_cases[of c]) (auto simp: faithful_def items_def)

lemma give_snapshot_got:
  assumes "cn_waits c" "faithful env published c" "se_prices env n = Inr ps" "k < n"
  shows "got env published (give_snapshot n ps c) k"
  using assms by (simp add: got_def give_snapshot_def settles_def faithful_def)

lemma give_snapshot_safe:
  assumes "safe env h c k" "hb_read h = Some (Some n)" "cn_waits c \<longrightarrow> needs_snapshot c" "faithful env (hb_published h) c"
    and "se_prices env n = Inr ps"
  shows "safe env (h\<lparr>hb_read := None, hb_connections := cs\<rparr>) (give_snapshot n ps c) k"
proof (cases "cn_waits c")
  case True
  have t: "got env (hb_published h) (give_snapshot n ps c) m" if "got env (hb_published h) c m \<or> m < n" for m
    using that give_snapshot_got[OF True assms(4,5)] got_longer[of "give_snapshot n ps c" c] True
    by (auto simp: give_snapshot_def)
  have "Update k e \<notin> set_option (cn_held c)" for e
    using True assms(3) by (auto simp: needs_snapshot_def)
  then show ?thesis
    using assms(1,2) t True by (auto simp: safe_def on_its_way_def snapshot_ahead_def items_def give_snapshot_def)
qed (use assms(1) in \<open>auto simp: give_snapshot_def safe_def on_its_way_def snapshot_ahead_def\<close>)

lemma give_snapshot_faithful: "faithful env published c \<Longrightarrow> faithful env published (give_snapshot n ps c)"
  by (auto simp: give_snapshot_def faithful_def items_def subscribed_after_def)

lemma hub_inv_waits: "hub_inv h \<Longrightarrow> c \<in> set (hb_connections h) \<Longrightarrow> cn_waits c \<longrightarrow> needs_snapshot c"
  by (simp add: hub_inv_def)

lemma client_frame_Some:
  "client_frame handle now c = Some c' \<Longrightarrow> cn_id c' = cn_id c \<and> cn_queue c' = cn_queue c \<and> cn_held c' = cn_held c
     \<and> cn_waits c' = cn_waits c \<and> cn_log c' = cn_log c @ [Subscribed (cn_subscriptions c')] \<and> cn_messages c' \<le> client_message_limit"
  by (auto simp: client_frame_def Let_def split: if_splits)

lemma finish_read_cases:
  obtains (none) "finish_read prices h = h"
  | (given) n ps where "hb_read h = Some (Some n)" "prices n = Inr ps"
      "finish_read prices h = h\<lparr>hb_read := None, hb_connections := map (give_snapshot n ps) (hb_connections h)\<rparr>"
  | (failed) n where "hb_read h = Some (Some n)"
      "finish_read prices h = foldr unregister (map cn_id (filter cn_waits (hb_connections h))) (h\<lparr>hb_read := None\<rparr>)"
proof (cases "\<exists>n. hb_read h = Some (Some n)")
  case True
  then obtain n where n: "hb_read h = Some (Some n)"
    by blast
  then show ?thesis
    using that(2,3)[OF n] by (cases "prices n") (simp_all add: finish_read_def)
next
  case False
  then have "finish_read prices h = h"
    by (auto simp: finish_read_def split: option.splits)
  then show ?thesis
    by (rule that(1))
qed

lemma foldr_unregister_gone:
  "c \<in> set (hb_connections (foldr unregister ns h)) \<Longrightarrow> c \<in> set (hb_connections h) \<and> cn_id c \<notin> set ns"
  by (induction ns) (auto simp: unregister_cases(1))

lemma foldr_unregister_no_gap: "no_gap env h \<Longrightarrow> no_gap env (foldr unregister ns h)"
  by (induction ns) (simp_all add: unregister_no_gap)

lemma foldr_unregister_faithful: "all_faithful env h \<Longrightarrow> all_faithful env (foldr unregister ns h)"
  by (induction ns) (simp_all add: unregister_faithful)

lemma foldr_unregister_read: "foldr unregister ns (h\<lparr>hb_read := r\<rparr>) = (foldr unregister ns h)\<lparr>hb_read := r\<rparr>"
  by (induction ns) (simp_all add: unregister_def drop_subscription_def Let_def)

lemma give_snapshot_simps [simp]:
  "cn_id (give_snapshot n ps c) = cn_id c" "\<not> cn_waits (give_snapshot n ps c)"
  by (simp_all add: give_snapshot_def)

lemma hub_inv_step:
  assumes "stream_step late env h h'" "hub_inv h"
  shows "hub_inv h'"
  using assms(1)
proof cases
  case (publish p)
  then show ?thesis
    using assms(2) by (auto simp: hub_inv_def nth_append)
next
  case (dispatch now)
  show ?thesis
    unfolding dispatch(1) using assms(2)
    by (cases rule: dispatch_cases[of "se_defs env" now h])
      (auto simp: hub_inv_def drop_subscription_def offer_all_def comp_def)
next
  case (register n subs now)
  then show ?thesis
    using assms(2) by (auto simp: hub_inv_def register_def split: if_splits)
next
  case (take n)
  show ?thesis
    unfolding take
  proof (rule update_connection_inv[OF assms(2)])
    fix c
    assume c: "c \<in> set (hb_connections h)" "cn_id c = n"
    then show "cn_id (take_item c) = n \<and> (cn_waits (take_item c) \<longrightarrow> needs_snapshot (take_item c) \<and> hb_read h \<noteq> None)"
      using assms(2) by (cases rule: take_item_cases[of c]) (auto simp: hub_inv_def needs_snapshot_def)
  qed
next
  case (send n)
  show ?thesis
    unfolding send
  proof (rule update_connection_inv[OF assms(2)])
    fix c
    assume c: "c \<in> set (hb_connections h)" "cn_id c = n"
    then show "cn_id (send_update c) = n \<and> (cn_waits (send_update c) \<longrightarrow> needs_snapshot (send_update c) \<and> hb_read h \<noteq> None)"
      using assms(2) by (cases rule: send_update_cases[of c]) (auto simp: hub_inv_def needs_snapshot_def)
  qed
next
  case (ask c)
  have "hub_inv (h\<lparr>hb_read := (case hb_read h of None \<Rightarrow> Some None | Some r \<Rightarrow> Some r)\<rparr>)"
    using assms(2) by (auto simp: hub_inv_def split: option.split)
  moreover have "d = c" if "d \<in> set (hb_connections h)" "cn_id d = cn_id c" for d
    using that ask(2) assms(2) by (auto simp: hub_inv_def distinct_map dest: inj_onD)
  ultimately show ?thesis
    unfolding ask(1) ask_snapshot_def using ask(3) by (intro update_connection_inv) (auto split: option.split)
next
  case finish
  show ?thesis
  proof (cases rule: finish_read_cases[of "se_prices env" h])
    case (given n ps)
    then show ?thesis
      unfolding finish using assms(2) by (auto simp: hub_inv_def comp_def)
  next
    case (failed n)
    define g where "g = foldr unregister (map cn_id (filter cn_waits (hb_connections h))) h"
    have g: "hub_inv g"
      unfolding g_def by (rule foldr_unregister_inv[OF assms(2)])
    have "\<not> cn_waits c" if "c \<in> set (hb_connections g)" for c
      using foldr_unregister_gone[OF that[unfolded g_def]] by auto
    then have "hub_inv (g\<lparr>hb_read := None\<rparr>)"
      using g by (simp add: hub_inv_def)
    then show ?thesis
      unfolding finish failed(2) foldr_unregister_read g_def .
  qed (use assms(2) finish in simp)
next
  case (leave n)
  then show ?thesis
    using unregister_inv assms(2) by simp
next
  case (too_many c message now)
  then show ?thesis
    using unregister_inv assms(2) by simp
next
  case (heartbeat n)
  show ?thesis
    unfolding heartbeat using assms(2) by (intro update_connection_inv) (auto simp: hub_inv_def needs_snapshot_def)
next
  case (frame c message now c')
  have "d = c" if "d \<in> set (hb_connections h)" "cn_id d = cn_id c" for d
    using that frame(2) assms(2) by (auto simp: hub_inv_def distinct_map dest: inj_onD)
  then show ?thesis
    unfolding frame(1) using assms(2) client_frame_Some[OF frame(4)] frame(3) by (intro update_connection_inv) auto
next
  case capture
  then show ?thesis
    using assms(2) by (auto simp: hub_inv_def capture_def split: option.split)
next
  case resync
  then show ?thesis
    using assms(2) by (simp add: hub_inv_def request_resync_def comp_def)
qed (use assms(2) in \<open>simp_all add: hub_inv_def drop_subscription_def\<close>)

lemma all_faithful_step:
  assumes "stream_step late env h h'" "hub_inv h" "all_faithful env h"
  shows "all_faithful env h'"
  using assms(1)
proof cases
  case (publish p)
  then show ?thesis
    using assms(3) announces_more by (fastforce simp: all_faithful_def faithful_def)
next
  case (dispatch now)
  show ?thesis
  proof (cases rule: dispatch_cases[of "se_defs env" now h])
    case (offer k p rest c e)
    have "announces env (hb_published h) k e"
      using offer(1-3) assms(2) by (auto simp: announces_def hub_inv_def)
    moreover have "x \<in> set (offer (Update k e) q) \<Longrightarrow> x \<in> set q \<or> x = Update k e \<or> asks x" for x q
      by (auto simp: offer_def asks_def split: if_splits)
    ultimately have "faithful env (hb_published h) (d\<lparr>cn_queue := offer (Update k e) (cn_queue d)\<rparr>)"
      if "faithful env (hb_published h) d" for d
      using that by (fastforce simp: faithful_def items_def asks_def)
    then show ?thesis
      unfolding dispatch offer(4) using assms(3) by (simp add: all_faithful_def offer_all_def)
  qed (use dispatch assms(3) in \<open>simp_all add: all_faithful_def drop_subscription_def\<close>)
next
  case (register n subs now)
  then obtain c where c: "hb_connections h' = hb_connections h @ [c]" "hb_published h' = hb_published h"
      "faithful env (hb_published h) c"
    by (auto simp: register_def faithful_def items_def subscribed_after_def split: if_splits)
  then show ?thesis
    using assms(3) by (auto simp: all_faithful_def)
next
  case (leave n)
  then show ?thesis
    using unregister_faithful assms(3) by simp
next
  case (too_many c message now)
  then show ?thesis
    using unregister_faithful assms(3) by simp
next
  case (take n)
  show ?thesis
    unfolding take by (intro update_connection_faithful[OF assms(3)] take_item_faithful)
next
  case (send n)
  show ?thesis
    unfolding send by (intro update_connection_faithful[OF assms(3)] send_update_faithful)
next
  case (heartbeat n)
  show ?thesis
    unfolding heartbeat
    by (rule update_connection_faithful[OF assms(3)]) (simp add: faithful_def items_def subscribed_after_def)
next
  case (ask c)
  have "all_faithful env (h\<lparr>hb_read := r\<rparr>)" for r
    using assms(3) by (simp add: all_faithful_def)
  then show ?thesis
    unfolding ask(1) ask_snapshot_def
    by (intro update_connection_faithful) (simp_all add: faithful_def items_def)
next
  case capture
  then show ?thesis
    using assms(3) by (auto simp: all_faithful_def capture_def split: option.split)
next
  case finish
  show ?thesis
  proof (cases rule: finish_read_cases[of "se_prices env" h])
    case (given n ps)
    then show ?thesis
      unfolding finish given(3) using assms(3) give_snapshot_faithful by (simp add: all_faithful_def)
  next
    case (failed n)
    have "all_faithful env (h\<lparr>hb_read := None\<rparr>)"
      using assms(3) by (simp add: all_faithful_def)
    then show ?thesis
      unfolding finish failed(2) by (rule foldr_unregister_faithful)
  qed (use finish assms(3) in simp)
next
  case (frame c message now c')
  have "faithful env (hb_published h) c'" if "faithful env (hb_published h) d" "d \<in> set (hb_connections h)" "cn_id d = cn_id c" for d
  proof -
    have "d = c"
      using that(2,3) frame(2) assms(2) by (auto simp: hub_inv_def distinct_map dest: inj_onD)
    then show ?thesis
      using that(1) client_frame_Some[OF frame(4)] by (simp add: faithful_def items_def subscribed_after_def)
  qed
  then show ?thesis
    unfolding frame(1) by (intro update_connection_faithful[OF assms(3)])
next
  case resync
  then show ?thesis
    using assms(3) by (auto simp: all_faithful_def request_resync_def faithful_def items_def)
qed (use assms(3) in \<open>simp_all add: all_faithful_def drop_subscription_def\<close>)

lemma resynced_safe: "safe env (request_resync reason h) (c\<lparr>cn_queue := [Resync reason]\<rparr>) k"
  by (simp add: safe_def on_its_way_def snapshot_ahead_def asks_def)

lemma no_gap_step:
  assumes "stream_step False env h h'" "hub_inv h" "no_gap env h" "all_faithful env h"
  shows "no_gap env h'"
  using assms(1)
proof cases
  case (publish p)
  show ?thesis
    unfolding no_gap_def
  proof (intro ballI allI impI)
    fix c k
    assume c: "c \<in> set (hb_connections h')" "readable h' k"
    show "safe env h' c k"
    proof (cases "k < length (hb_published h)")
      case True
      then have "readable h k"
        using c(2) publish by (simp add: readable_def nth_append)
      then have "safe env h c k"
        using assms(3) c(1) publish by (simp add: no_gap_def)
      then show ?thesis
        unfolding publish by (auto simp: safe_def on_its_way_def snapshot_ahead_def got_more)
    next
      case False
      then have "k = length (hb_published h)"
        using c(2) publish by (simp add: readable_def)
      then show ?thesis
        unfolding publish by (simp add: safe_def on_its_way_def)
    qed
  qed
next
  case connect
  then show ?thesis
    by (simp add: no_gap_def safe_def on_its_way_def)
next
  case resync
  then show ?thesis
    using resynced_safe[of env "''subscription_connected''" h] by (auto simp: no_gap_def request_resync_def)
next
  case (dispatch now)
  show ?thesis
  proof (cases rule: dispatch_cases[of "se_defs env" now h])
    case none
    then show ?thesis
      using dispatch assms(3) by simp
  next
    case (skip k p rest)
    have r: "\<not> readable h k"
      using skip(1,2) assms(2) by (auto simp: readable_def hub_inv_def)
    have "safe env (h\<lparr>hb_channel := rest\<rparr>) c m" if "c \<in> set (hb_connections h)" "readable h m" for c m
      using that r assms(3) skip(1) by (fastforce simp: no_gap_def safe_def on_its_way_def snapshot_ahead_def)
    then show ?thesis
      unfolding dispatch skip(3) by (simp add: no_gap_def readable_def)
  next
    case drop
    then show ?thesis
      unfolding dispatch by (simp add: no_gap_def safe_def on_its_way_def drop_subscription_def)
  next
    case (offer k p rest q e)
    show ?thesis
      unfolding dispatch offer(4) using assms(3) offered_safe[OF _ offer(1)]
      by (auto simp: no_gap_def offer_all_def readable_def)
  qed
next
  case drop
  then show ?thesis
    by (simp add: no_gap_def safe_def on_its_way_def drop_subscription_def)
next
  case (register n subs now)
  then obtain c where c: "hb_connections h' = hb_connections h @ [c]" "needs_snapshot c" "\<not> cn_waits c" "same_hub h h'"
    by (auto simp: register_def same_hub_def needs_snapshot_def split: if_splits)
  have "safe env h c k" for k
    using c(2,3) by (simp add: safe_def on_its_way_def snapshot_ahead_def)
  then show ?thesis
    using assms(3) c(1) same_hub_safe[OF c(4)] by (auto simp: no_gap_def)
next
  case (leave n)
  then show ?thesis
    using unregister_no_gap assms(3) by simp
next
  case (too_many c message now)
  then show ?thesis
    using unregister_no_gap assms(3) by simp
next
  case (take n)
  show ?thesis
    unfolding take by (intro update_connection_no_gap[OF assms(3)] take_item_safe hub_inv_waits[OF assms(2)])
next
  case (send n)
  show ?thesis
    unfolding send using assms(4)
    by (intro update_connection_no_gap[OF assms(3)] send_update_safe hub_inv_waits[OF assms(2)]) (simp_all add: all_faithful_def)
next
  case (heartbeat n)
  show ?thesis
    unfolding heartbeat
    by (rule update_connection_no_gap[OF assms(3)])
      (auto simp: safe_def on_its_way_def snapshot_ahead_def needs_snapshot_def items_def got_def)
next
  case (ask c)
  let ?g = "h\<lparr>hb_read := (case hb_read h of None \<Rightarrow> Some None | Some r \<Rightarrow> Some r)\<rparr>"
  have r: "hb_read ?g = Some None"
    using ask(5) by (cases "hb_read h") auto
  have "safe env ?g d k" if "d \<in> set (hb_connections h)" "safe env h d k" for d k
    using that r assms(2) ask(5) unfolding safe_def on_its_way_def snapshot_ahead_def by (auto simp: hub_inv_def)
  then have g: "no_gap env ?g"
    using assms(3) by (simp add: no_gap_def readable_def)
  have "safe env ?g (d\<lparr>cn_waits := True\<rparr>) k" if "safe env ?g d k" for d k
    using that r unfolding safe_def on_its_way_def snapshot_ahead_def by (auto simp: items_def)
  then show ?thesis
    unfolding ask(1) ask_snapshot_def by (intro update_connection_no_gap[OF g])
next
  case capture
  show ?thesis
  proof (cases "hb_read h = Some None")
    case True
    have "safe env (h\<lparr>hb_read := Some (Some (length (hb_published h)))\<rparr>) c k" if "safe env h c k" "k < length (hb_published h)" for c k
      using that True by (auto simp: safe_def on_its_way_def snapshot_ahead_def)
    then show ?thesis
      unfolding capture using True assms(3) by (simp add: capture_def no_gap_def readable_def)
  next
    case False
    then have "capture h = h"
      by (auto simp: capture_def split: option.splits)
    then show ?thesis
      using capture assms(3) by simp
  qed
next
  case finish
  show ?thesis
  proof (cases rule: finish_read_cases[of "se_prices env" h])
    case none
    then show ?thesis
      using finish assms(3) by simp
  next
    case (given n ps)
    show ?thesis
      unfolding finish given(3) using assms(3,4) give_snapshot_safe[OF _ given(1) _ _ given(2)] hub_inv_waits[OF assms(2)]
      by (auto simp: no_gap_def readable_def all_faithful_def)
  next
    case (failed n)
    define g where "g = foldr unregister (map cn_id (filter cn_waits (hb_connections h))) h"
    have g: "no_gap env g"
      unfolding g_def by (rule foldr_unregister_no_gap[OF assms(3)])
    have "\<not> cn_waits c" if "c \<in> set (hb_connections g)" for c
      using foldr_unregister_gone[OF that[unfolded g_def]] by auto
    then have "no_gap env (g\<lparr>hb_read := None\<rparr>)"
      using g by (auto simp: no_gap_def readable_def safe_def on_its_way_def snapshot_ahead_def)
    then show ?thesis
      unfolding finish failed(2) foldr_unregister_read g_def .
  qed
next
  case (frame c message now c')
  have "d = c" if "d \<in> set (hb_connections h)" "cn_id d = cn_id c" for d
    using that frame(2) assms(2) by (auto simp: hub_inv_def distinct_map dest: inj_onD)
  moreover have "safe env h c' k" if "safe env h c k" for k
    using that client_frame_Some[OF frame(4)] got_longer[of c' c]
    by (auto simp: safe_def on_its_way_def snapshot_ahead_def needs_snapshot_def items_def)
  ultimately show ?thesis
    unfolding frame(1) by (intro update_connection_no_gap[OF assms(3)]) auto
qed

lemma empty_hub_inv: "hub_inv empty_hub" "all_faithful env empty_hub" "no_gap env empty_hub"
  by (simp_all add: hub_inv_def no_gap_def all_faithful_def empty_hub_def)

lemma hub_inv_reach: "stream_reach late env h h' \<Longrightarrow> hub_inv h \<Longrightarrow> hub_inv h'"
  by (induction rule: stream_reach.induct) (auto intro: hub_inv_step)

lemma all_faithful_reach: "stream_reach late env h h' \<Longrightarrow> hub_inv h \<Longrightarrow> all_faithful env h \<Longrightarrow> all_faithful env h'"
  by (induction rule: stream_reach.induct) (auto intro: all_faithful_step hub_inv_reach)

lemma no_gap_reach:
  "stream_reach False env h h' \<Longrightarrow> hub_inv h \<Longrightarrow> all_faithful env h \<Longrightarrow> no_gap env h \<Longrightarrow> no_gap env h'"
  by (induction rule: stream_reach.induct) (auto intro: no_gap_step hub_inv_reach all_faithful_reach)

section \<open>Properties\<close>

text \<open>A connection that has nothing left to do, at a worker that has nothing in transit.\<close>

definition settled_stream :: "hub \<Rightarrow> connection \<Rightarrow> bool" where
  "settled_stream h c \<longleftrightarrow> c \<in> set (hb_connections h) \<and> cn_queue c = [] \<and> cn_held c = None
     \<and> hb_channel h = [] \<and> hb_subscribed h \<and> \<not> hb_resync_due h"

lemma settled_got:
  assumes "hub_inv h" "no_gap env h" "settled_stream h c" "readable h k"
  shows "got env (hb_published h) c k"
proof -
  have "\<not> needs_snapshot c" "\<not> cn_waits c"
    using assms(1,3) by (auto simp: settled_stream_def needs_snapshot_def hub_inv_def)
  then have "\<not> on_its_way h c k"
    using assms(3) by (simp add: settled_stream_def on_its_way_def snapshot_ahead_def items_def)
  then show ?thesis
    using assms(2-4) by (auto simp: no_gap_def safe_def settled_stream_def)
qed

text \<open>Claim C15. No gap is silent as long as no connection joins a read of the prices that is already behind it: however
  updates, overflowing queues, lost and renewed subscriptions, new and leaving clients and changes of what they subscribe
  interleave, a client with nothing left to receive has got every event ever published (that can be read). That is,
  the event made from this very publication was sent to it, or was passed over at a moment when its instrument was not
  subscribed, or a snapshot was sent that had been read after the event and held exactly the prices then read for the
  instruments subscribed at that moment.\<close>

theorem no_silent_gap:
  assumes "stream_reach False env empty_hub h" and "settled_stream h c" and "readable h k"
  shows "got env (hb_published h) c k"
  using settled_got[OF hub_inv_reach[OF assms(1)] no_gap_reach[OF assms(1)] assms(2,3)] empty_hub_inv by blast

definition hub_bounded :: "nat \<Rightarrow> hub \<Rightarrow> bool" where
  "hub_bounded maximum h \<longleftrightarrow> length (hb_connections h) \<le> maximum
     \<and> (\<forall>c\<in>set (hb_connections h). length (cn_queue c) \<le> client_queue_size \<and> cn_messages c \<le> client_message_limit
          \<and> cn_subscriptions c \<noteq> [])"

lemma offer_bounded: "length q \<le> client_queue_size \<Longrightarrow> length (offer x q) \<le> client_queue_size"
  by (simp add: offer_def client_queue_size_def)

lemma update_connection_bounded:
  assumes "hub_bounded m h" "\<And>c. c \<in> set (hb_connections h) \<Longrightarrow> cn_id c = n \<Longrightarrow> length (cn_queue (f c)) \<le> client_queue_size
      \<and> cn_messages (f c) \<le> client_message_limit \<and> cn_subscriptions (f c) \<noteq> []"
  shows "hub_bounded m (update_connection n f h)"
  using assms by (auto simp: hub_bounded_def)

lemma handle_client_message_nonempty: "subs \<noteq> [] \<Longrightarrow> handle_client_message rt loads defs message subs \<noteq> []"
  by (auto simp: handle_client_message_def Let_def split: option.split json.split)

lemma foldr_unregister_bounded: "hub_bounded m h \<Longrightarrow> hub_bounded m (foldr unregister ns h)"
proof (induction ns)
  case (Cons n ns)
  define g where "g = foldr unregister ns h"
  have "length (filter (\<lambda>c. cn_id c \<noteq> n) (hb_connections g)) \<le> m" "\<forall>c\<in>set (hb_connections g). length (cn_queue c) \<le> client_queue_size
      \<and> cn_messages c \<le> client_message_limit \<and> cn_subscriptions c \<noteq> []"
    using Cons order_trans[OF length_filter_le] unfolding g_def hub_bounded_def by blast+
  then show ?case
    by (simp add: hub_bounded_def unregister_cases(1) flip: g_def)
qed simp

lemma hub_bounded_step:
  assumes "stream_step late env h h'" "hub_bounded (se_maximum env) h"
  shows "hub_bounded (se_maximum env) h'"
  using assms(1)
proof cases
  case resync
  then show ?thesis
    using assms(2) by (auto simp: hub_bounded_def request_resync_def client_queue_size_def)
next
  case (dispatch now)
  show ?thesis
    unfolding dispatch(1) using assms(2) offer_bounded
    by (cases rule: dispatch_cases[of "se_defs env" now h]) (auto simp: hub_bounded_def drop_subscription_def offer_all_def)
next
  case (register n subs now)
  then show ?thesis
    using assms(2) by (auto simp: hub_bounded_def register_def client_message_limit_def split: if_splits)
next
  case (leave n)
  then show ?thesis
    using foldr_unregister_bounded[OF assms(2), of "[n]"] by simp
next
  case (too_many c message now)
  then show ?thesis
    using foldr_unregister_bounded[OF assms(2), of "[cn_id c]"] by simp
next
  case (take n)
  show ?thesis
    unfolding take
  proof (rule update_connection_bounded[OF assms(2)])
    fix c
    assume "c \<in> set (hb_connections h)"
    then show "length (cn_queue (take_item c)) \<le> client_queue_size \<and> cn_messages (take_item c) \<le> client_message_limit
        \<and> cn_subscriptions (take_item c) \<noteq> []"
      using assms(2) by (cases rule: take_item_cases[of c]) (auto simp: hub_bounded_def)
  qed
next
  case (send n)
  show ?thesis
    unfolding send using assms(2)
    by (intro update_connection_bounded[OF assms(2)]) (auto simp: hub_bounded_def send_update_def split: option.split queue_item.split)
next
  case (heartbeat n)
  show ?thesis
    unfolding heartbeat using assms(2) by (intro update_connection_bounded[OF assms(2)]) (simp add: hub_bounded_def)
next
  case (ask c)
  show ?thesis
    unfolding ask(1) ask_snapshot_def using assms(2) by (intro update_connection_bounded) (simp_all add: hub_bounded_def)
next
  case finish
  show ?thesis
  proof (cases rule: finish_read_cases[of "se_prices env" h])
    case (given n ps)
    then show ?thesis
      unfolding finish using assms(2) by (auto simp: hub_bounded_def give_snapshot_def)
  next
    case (failed n)
    have "hub_bounded (se_maximum env) (h\<lparr>hb_read := None\<rparr>)"
      using assms(2) by (simp add: hub_bounded_def)
    then show ?thesis
      unfolding finish failed(2) by (rule foldr_unregister_bounded)
  qed (use assms(2) finish in simp)
next
  case (frame c message now c')
  have "cn_subscriptions c' \<noteq> []"
    using frame(2,4) assms(2) handle_client_message_nonempty
    by (auto simp: client_frame_def Let_def hub_bounded_def split: if_splits)
  then show ?thesis
    unfolding frame(1) using client_frame_Some[OF frame(4)] frame(2) assms(2)
    by (intro update_connection_bounded[OF assms(2)]) (auto simp: hub_bounded_def)
qed (use assms(2) in \<open>simp_all add: hub_bounded_def drop_subscription_def capture_def split: option.split\<close>)

lemma hub_bounded_reach: "stream_reach late env h h' \<Longrightarrow> hub_bounded (se_maximum env) h \<Longrightarrow> hub_bounded (se_maximum env) h'"
  by (induction rule: stream_reach.induct) (auto intro: hub_bounded_step)

text \<open>Claim C34. A worker of the price stream stays within its bounds, whatever clients and the network do: it has at most
  its number of connections, each with a number of its own, at most 64 waiting events and at most 30 frames in the
  running minute, and each is subscribed to something.\<close>

theorem stream_stays_bounded:
  assumes "stream_reach late env empty_hub h"
  shows "length (hb_connections h) \<le> se_maximum env \<and> distinct (map cn_id (hb_connections h))
    \<and> (\<forall>c\<in>set (hb_connections h). length (cn_queue c) \<le> 64 \<and> cn_messages c \<le> 30 \<and> cn_subscriptions c \<noteq> [])"
proof -
  have "hub_bounded (se_maximum env) h"
    using hub_bounded_reach[OF assms] by (simp add: hub_bounded_def empty_hub_def)
  moreover have "hub_inv h"
    using hub_inv_reach[OF assms] empty_hub_inv by blast
  ultimately show ?thesis
    by (simp add: hub_bounded_def hub_inv_def client_queue_size_def client_message_limit_def)
qed

section \<open>Examples\<close>

definition plain_rt :: text_rt where
  "plain_rt = \<lparr>tr_upper = (\<lambda>c. [c]), tr_lower = (\<lambda>c. [c]), tr_decimal = (\<lambda>_. None), tr_isdigit = (\<lambda>_. False),
     tr_repr = (\<lambda>_. []), tr_dumps = (\<lambda>_. []), tr_iso = (\<lambda>_. Inl (ValueError ''Invalid isoformat string''))\<rparr>"

definition example_stream :: stream_env where
  "example_stream = \<lparr>se_defs = [example_instrument], se_rt = plain_rt, se_loads = Map.empty, se_maximum = 2,
     se_prices = (\<lambda>_. Inr [])\<rparr>"

definition stream_client :: "nat \<Rightarrow> queue_item list \<Rightarrow> queue_item option \<Rightarrow> bool \<Rightarrow> outcome list \<Rightarrow> connection" where
  "stream_client n q held waits done_so_far = \<lparr>cn_id = n, cn_subscriptions = [''BTC_USD''], cn_queue = q, cn_held = held,
     cn_waits = waits, cn_window_started = 0, cn_messages = 0, cn_log = Subscribed [''BTC_USD''] # done_so_far\<rparr>"

definition stream_hub :: "connection list \<Rightarrow> canonical_payload list \<Rightarrow> (nat \<times> canonical_payload) list \<Rightarrow> nat option option \<Rightarrow> hub" where
  "stream_hub cs published transit reading = \<lparr>hb_connections = cs, hb_published = published, hb_channel = transit,
     hb_subscribed = True, hb_resync_due = False, hb_read = reading\<rparr>"

lemma stream_hub_steps:
  assumes "e = example_stream"
  shows "cs \<noteq> [] \<Longrightarrow> stream_step late e (stream_hub cs ps ts r) (stream_hub cs (ps @ [p]) (ts @ [(length ps, p)]) r)"
    "stream_step late e (stream_hub cs ps ts (Some None)) (stream_hub cs ps ts (Some (Some (length ps))))"
    "stream_step late e (stream_hub cs ps ts (Some (Some n))) (stream_hub (map (give_snapshot n []) cs) ps ts None)"
    "late \<or> (\<forall>n. r \<noteq> Some (Some n)) \<Longrightarrow> c \<in> set cs \<Longrightarrow> needs_snapshot c \<Longrightarrow> \<not> cn_waits c \<Longrightarrow>
       stream_step late e (stream_hub cs ps ts r)
         (stream_hub (map (\<lambda>d. if cn_id d = cn_id c then d\<lparr>cn_waits := True\<rparr> else d) cs) ps ts
           (case r of None \<Rightarrow> Some None | Some x \<Rightarrow> Some x))"
    "stream_step late e (stream_hub cs ps ts r) (stream_hub (map (\<lambda>c. if cn_id c = n then take_item c else c) cs) ps ts r)"
    "length cs < 2 \<Longrightarrow> n \<notin> cn_id ` set cs \<Longrightarrow>
       stream_step late e (stream_hub cs ps ts r) (stream_hub (cs @ [stream_client n [] (Some Join) False []]) ps ts r)"
proof -
  let ?h = "stream_hub cs ps ts r"
  show "stream_step late e ?h (stream_hub cs (ps @ [p]) (ts @ [(length ps, p)]) r)" if "cs \<noteq> []"
    using stream_step.publish[of late e ?h p] by (simp add: stream_hub_def)
  show "stream_step late e (stream_hub cs ps ts (Some None)) (stream_hub cs ps ts (Some (Some (length ps))))"
    using stream_step.capture[of late e "stream_hub cs ps ts (Some None)"] by (simp add: stream_hub_def capture_def)
  show "stream_step late e (stream_hub cs ps ts (Some (Some n))) (stream_hub (map (give_snapshot n []) cs) ps ts None)"
    using stream_step.finish[of late e "stream_hub cs ps ts (Some (Some n))"] assms
    by (simp add: stream_hub_def finish_read_def example_stream_def)
  show "stream_step late e ?h (stream_hub (map (\<lambda>d. if cn_id d = cn_id c then d\<lparr>cn_waits := True\<rparr> else d) cs) ps ts
         (case r of None \<Rightarrow> Some None | Some x \<Rightarrow> Some x))"
    if "late \<or> (\<forall>n. r \<noteq> Some (Some n))" "c \<in> set cs" "needs_snapshot c" "\<not> cn_waits c"
    using stream_step.ask[of c ?h late e] that by (simp add: stream_hub_def ask_snapshot_def update_connection_def)
  show "stream_step late e ?h (stream_hub (map (\<lambda>c. if cn_id c = n then take_item c else c) cs) ps ts r)"
    using stream_step.take[of late e ?h n] by (simp add: stream_hub_def update_connection_def)
  show "stream_step late e ?h (stream_hub (cs @ [stream_client n [] (Some Join) False []]) ps ts r)"
    if "length cs < 2" "n \<notin> cn_id ` set cs"
    using stream_step.register[of n ?h "[''BTC_USD'']" e 0 "stream_hub (cs @ [stream_client n [] (Some Join) False []]) ps ts r" late]
      that assms by (simp add: stream_hub_def register_def example_stream_def stream_client_def)
qed

lemma stream_begins:
  "stream_reach late example_stream empty_hub
     (stream_hub [stream_client 1 [Resync ''subscription_connected''] (Some Join) False []] [p] [] None)"
proof -
  let ?c = "stream_client 1 [] (Some Join) False []"
  define h where "h = empty_hub\<lparr>hb_published := [p]\<rparr>"
  have p: "stream_step late example_stream empty_hub h"
    using stream_step.publish[of late example_stream empty_hub p] by (simp add: empty_hub_def h_def)
  have r: "stream_step late example_stream h (h\<lparr>hb_connections := [?c]\<rparr>)"
    using stream_step.register[of 1 h "[''BTC_USD'']" example_stream 0 "h\<lparr>hb_connections := [?c]\<rparr>" late]
    by (simp add: h_def empty_hub_def register_def example_stream_def stream_client_def)
  have c: "stream_step late example_stream (h\<lparr>hb_connections := [?c]\<rparr>)
      (h\<lparr>hb_connections := [?c], hb_subscribed := True, hb_resync_due := True\<rparr>)"
    using stream_step.connect[of "h\<lparr>hb_connections := [?c]\<rparr>" late example_stream] by (simp add: h_def empty_hub_def)
  have s: "stream_step late example_stream (h\<lparr>hb_connections := [?c], hb_subscribed := True, hb_resync_due := True\<rparr>)
      (stream_hub [stream_client 1 [Resync ''subscription_connected''] (Some Join) False []] [p] [] None)"
    using stream_step.resync[of "h\<lparr>hb_connections := [?c], hb_subscribed := True, hb_resync_due := True\<rparr>" late example_stream]
    by (simp add: h_def empty_hub_def request_resync_def stream_hub_def stream_client_def)
  show ?thesis
    by (rule stream_reach.step[OF stream_reach.step[OF stream_reach.step[OF stream_reach.step[OF stream_reach.refl p] r] c] s])
qed

lemma stream_client_simps [simp]:
  "cn_id (stream_client n q held w l) = n" "cn_waits (stream_client n q held w l) = w"
  "(stream_client n q held w l)\<lparr>cn_waits := v\<rparr> = stream_client n q held v l"
  "(stream_client n q held w l)\<lparr>cn_queue := r\<rparr> = stream_client n r held w l"
  "cn_queue (stream_client n q held w l) = q" "cn_held (stream_client n q held w l) = held"
  "cn_log (stream_client n q held w l) = Subscribed [''BTC_USD''] # l"
  "take_item (stream_client n (x # q) None w l) = stream_client n q (Some x) w l"
  "give_snapshot k [] (stream_client n q held True l)
     = stream_client n q None False (l @ [SnapshotSent (case held of Some (Resync reason) \<Rightarrow> Some reason | _ \<Rightarrow> None) k []])"
  "needs_snapshot (stream_client n q (Some Join) w l)" "needs_snapshot (stream_client n q (Some (Resync m)) w l)"
  by (simp_all add: stream_client_def take_item_def give_snapshot_def needs_snapshot_def)

lemmas stream_run = stream_reach.step[OF _ stream_hub_steps(1)[OF HOL.refl]] stream_reach.step[OF _ stream_hub_steps(2)[OF HOL.refl]]
  stream_reach.step[OF _ stream_hub_steps(3)[OF HOL.refl]] stream_reach.step[OF _ stream_hub_steps(4)[OF HOL.refl]]
  stream_reach.step[OF _ stream_hub_steps(5)[OF HOL.refl]] stream_reach.step[OF _ stream_hub_steps(6)[OF HOL.refl]]

text \<open>A connection that joined after an event was published, and got a snapshot twice.\<close>

definition quiet_hub :: "canonical_payload \<Rightarrow> hub" where
  "quiet_hub p = stream_hub [stream_client 1 [] None False
     [SnapshotSent None 1 [], SnapshotSent (Some ''subscription_connected'') 1 []]] [p] [] None"

lemma stream_greeted:
  "stream_reach late example_stream empty_hub
     (stream_hub [stream_client 1 [Resync ''subscription_connected''] (Some Join) True []] [p] [] (Some (Some 1)))"
proof -
  let ?r = "''subscription_connected''"
  have "stream_reach late example_stream empty_hub
      (stream_hub [stream_client 1 [Resync ?r] (Some Join) True []] [p] [] (Some None))"
    using stream_run(4)[OF stream_begins, of late "stream_client 1 [Resync ?r] (Some Join) False []"] by simp
  from stream_run(2)[OF this] show ?thesis
    by simp
qed

lemma quiet_reach: "stream_reach late example_stream empty_hub (quiet_hub p)"
proof -
  let ?r = "''subscription_connected''"
  have "stream_reach late example_stream empty_hub
      (stream_hub [stream_client 1 [Resync ?r] None False [SnapshotSent None 1 []]] [p] [] None)"
    using stream_run(3)[OF stream_greeted] by simp
  then have "stream_reach late example_stream empty_hub
      (stream_hub [stream_client 1 [] (Some (Resync ?r)) False [SnapshotSent None 1 []]] [p] [] None)"
    using stream_run(5)[where n = 1] by fastforce
  then have "stream_reach late example_stream empty_hub
      (stream_hub [stream_client 1 [] (Some (Resync ?r)) True [SnapshotSent None 1 []]] [p] [] (Some None))"
    using stream_run(4)[where c = "stream_client 1 [] (Some (Resync ?r)) False [SnapshotSent None 1 []]"] by fastforce
  from stream_run(3)[OF stream_run(2)[OF this]] show ?thesis
    by (simp add: quiet_hub_def)
qed

lemma example_readable:
  obtains p where "canonical_from_dict p = Inr example_canonical"
  using canonical_codec_round_trip_aux[OF example_encodable, of 0] by blast

theorem no_silent_gap_witness:
  "\<exists>p. stream_reach False example_stream empty_hub (quiet_hub p) \<and> readable (quiet_hub p) 0
     \<and> (\<exists>c. settled_stream (quiet_hub p) c \<and> got example_stream (hb_published (quiet_hub p)) c 0)"
proof -
  obtain p where p: "canonical_from_dict p = Inr example_canonical"
    by (rule example_readable)
  let ?c = "stream_client 1 [] None False [SnapshotSent None 1 [], SnapshotSent (Some ''subscription_connected'') 1 []]"
  have r: "readable (quiet_hub p) 0"
    using p by (simp add: readable_def quiet_hub_def stream_hub_def)
  have c: "settled_stream (quiet_hub p) ?c"
    by (simp add: settled_stream_def quiet_hub_def stream_hub_def)
  show ?thesis
    using quiet_reach r c no_silent_gap[OF quiet_reach c r] by blast
qed

theorem stream_stays_bounded_witness:
  "\<exists>p. stream_reach True example_stream empty_hub (quiet_hub p) \<and> length (hb_connections (quiet_hub p)) \<le> 2"
proof -
  obtain p where "stream_reach True example_stream empty_hub (quiet_hub p)"
    using quiet_reach by blast
  then show ?thesis
    using stream_stays_bounded[of True example_stream "quiet_hub p"] by (auto simp: example_stream_def)
qed

lemma example_event: "\<exists>e. public_event_of [example_instrument] 3000000 example_canonical = Inr e"
proof -
  obtain payload where "canonical_to_dict example_canonical False 3000000 True = Inr payload"
    using example_canonical_public unfolding is_ok_iff by auto
  moreover have "c_instrument_id example_canonical = ''BTC_USD''" "i_purity example_instrument = None"
    by (simp_all add: example_canonical_def example_instrument_def)
  ultimately show ?thesis
    by (simp add: public_event_of_def example_lookup json_number_def)
qed

lemma dispatched_to_one:
  assumes "canonical_from_dict p = Inr example_canonical" "length q < 64"
  shows "\<exists>e. stream_step late example_stream (stream_hub [stream_client 1 q held w l] ps [(k, p)] r)
     (stream_hub [stream_client 1 (q @ [Update k e]) held w l] ps [] r)"
proof -
  obtain e where e: "public_event_of [example_instrument] 3000000 example_canonical = Inr e"
    using example_event by blast
  have "dispatch [example_instrument] 3000000 (stream_hub [stream_client 1 q held w l] ps [(k, p)] r)
      = stream_hub [stream_client 1 (q @ [Update k e]) held w l] ps [] r"
    using assms(2) by (simp add: dispatch_def stream_hub_def assms(1) e offer_all_def offer_def client_queue_size_def)
  then show ?thesis
    using stream_step.dispatch[of "stream_hub [stream_client 1 q held w l] ps [(k, p)] r" late example_stream 3000000]
    by (auto simp: stream_hub_def example_stream_def)
qed

text \<open>Claim C16. A read of the prices may be joined as long as it is unfinished, even when its prices were read long ago. A
  client that joins it misses what was published in between, and nothing will tell it: its queue is empty, no
  snapshot is due, and the worker has nothing in transit.\<close>

theorem shared_read_leaves_gap:
  "\<exists>h c k. stream_reach True example_stream empty_hub h \<and> settled_stream h c \<and> readable h k \<and> \<not> told c k"
proof -
  obtain p where p: "canonical_from_dict p = Inr example_canonical"
    by (rule example_readable)
  let ?r = "''subscription_connected''" and ?go = "stream_reach True example_stream empty_hub"
  have "?go (stream_hub [stream_client 1 [Resync ?r] (Some Join) True []] [p, p] [(1, p)] (Some (Some 1)))"
    using stream_run(1)[OF stream_greeted, of True p p] by simp
  then obtain e where "?go (stream_hub [stream_client 1 [Resync ?r, Update 1 e] (Some Join) True []] [p, p] [] (Some (Some 1)))"
    using stream_reach.step dispatched_to_one[OF p, of "[Resync ?r]"] by fastforce
  from stream_run(6)[OF this, of 2]
  have "?go (stream_hub [stream_client 1 [Resync ?r, Update 1 e] (Some Join) True [], stream_client 2 [] (Some Join) False []]
      [p, p] [] (Some (Some 1)))"
    by simp
  from stream_run(4)[OF this, of "stream_client 2 [] (Some Join) False []"]
  have "?go (stream_hub [stream_client 1 [Resync ?r, Update 1 e] (Some Join) True [], stream_client 2 [] (Some Join) True []]
      [p, p] [] (Some (Some 1)))"
    by simp
  from stream_run(3)[OF this]
  have h: "?go (stream_hub [stream_client 1 [Resync ?r, Update 1 e] None False [SnapshotSent None 1 []],
      stream_client 2 [] None False [SnapshotSent None 1 []]] [p, p] [] None)" (is "stream_reach _ _ _ ?h")
    by simp
  have "settled_stream ?h (stream_client 2 [] None False [SnapshotSent None 1 []])"
    by (simp add: settled_stream_def stream_hub_def)
  moreover have "readable ?h 1" "\<not> told (stream_client 2 [] None False [SnapshotSent None 1 []]) 1"
    using p by (simp_all add: readable_def stream_hub_def told_def)
  ultimately show ?thesis
    using h by blast
qed

end
