(* ===== verification/Charts.thy ===== *)
theory Charts
  imports Backfill_Runs
begin

text \<open>
  Model of the charts of \<open>apps/api/app/pricing/history.py\<close> and of \<open>InstrumentPricingService.canonical_history\<close>: the
  canonical prices of an instrument in a timeframe, one candle for each bucket, with the prices of the former table
  where there are none, whether the chart is complete, and the request for the history it lacks.

  \<^item> \<open>first\<close> and \<open>last\<close> of TimescaleDB and the sorted \<open>array_agg\<close> give the price of the first and of the last row of a
    bucket, so both forms of the statement are one definition. The order of rows of the same instant is the table's.
  \<^item> Readers that ask for the same chart at once share one read; the answer is the one of \<open>canonical_history\<close>.
  \<^item> The average of a group of floats is computed by the database, and is the argument \<open>avg\<close>.
\<close>

section \<open>Timeframes\<close>

record timeframe_policy =
  tf_duration :: int
  tf_bucket :: int
  tf_bucket_seconds :: int
  tf_baseline_tolerance :: int

text \<open>All of them in seconds, \<open>tf_bucket\<close> being the interval that is given to the database.\<close>

definition timeframes :: "string \<rightharpoonup> timeframe_policy" where
  "timeframes = map_of
     [(''1h'', \<lparr>tf_duration = 3600, tf_bucket = 60, tf_bucket_seconds = 60, tf_baseline_tolerance = 900\<rparr>),
      (''24h'', \<lparr>tf_duration = 86400, tf_bucket = 900, tf_bucket_seconds = 900, tf_baseline_tolerance = 10800\<rparr>),
      (''7d'', \<lparr>tf_duration = 604800, tf_bucket = 3600, tf_bucket_seconds = 3600, tf_baseline_tolerance = 43200\<rparr>),
      (''30d'', \<lparr>tf_duration = 2592000, tf_bucket = 14400, tf_bucket_seconds = 14400, tf_baseline_tolerance = 172800\<rparr>),
      (''1y'', \<lparr>tf_duration = 31536000, tf_bucket = 86400, tf_bucket_seconds = 86400, tf_baseline_tolerance = 604800\<rparr>)]"

section \<open>Candles\<close>

text \<open>\<open>date_bin\<close> counts its intervals from the year 2000.\<close>

definition date_bin :: "int \<Rightarrow> instant \<Rightarrow> instant" where
  "date_bin interval t = (let origin = 946684800000000 in origin + (t - origin) div interval * interval)"

record candle =
  cd_bucket :: instant
  cd_open :: rat
  cd_close :: rat
  cd_high :: rat
  cd_low :: rat
  cd_count :: int

definition candle_of :: "instant \<Rightarrow> canonical_quote list \<Rightarrow> candle" where
  "candle_of b rows =
     (let rs = sort_key c_canonical_at rows; prices = map c_price rs
      in \<lparr>cd_bucket = b, cd_open = hd prices, cd_close = List.last prices, cd_high = Max (set prices), cd_low = Min (set prices),
          cd_count = int (length prices)\<rparr>)"

definition chart_rows :: "string \<Rightarrow> instant \<Rightarrow> instant \<Rightarrow> canonical_store \<Rightarrow> canonical_quote list" where
  "chart_rows iid start stop st = filter (\<lambda>r. start \<le> c_canonical_at r \<and> c_canonical_at r \<le> stop) (price_rows iid st)"

text \<open>\<open>GROUP BY bucket ORDER BY bucket\<close>.\<close>

definition grouped :: "('a \<Rightarrow> instant) \<Rightarrow> 'a list \<Rightarrow> (instant \<times> 'a list) list" where
  "grouped bucket rows =
     map (\<lambda>b. (b, filter (\<lambda>r. bucket r = b) rows)) (sort (remdups (map bucket rows)))"

definition candles :: "string \<Rightarrow> instant \<Rightarrow> instant \<Rightarrow> int \<Rightarrow> canonical_store \<Rightarrow> candle list" where
  "candles iid start stop bucket st =
     map (\<lambda>(b, rows). candle_of b rows)
       (grouped (\<lambda>r. date_bin (seconds bucket) (c_canonical_at r)) (chart_rows iid start stop st))"

record chart_point =
  cp_timestamp :: instant
  cp_open :: pyfloat
  cp_close :: pyfloat
  cp_high :: pyfloat
  cp_low :: pyfloat
  cp_value :: pyfloat
  cp_sample_count :: int
  cp_source :: "string option"

definition float_of :: "rat \<Rightarrow> pyfloat" where
  "float_of q = of_f64 (0 \<le> q) (f64 q)"

definition query_canonical_history :: "string \<Rightarrow> instant \<Rightarrow> instant \<Rightarrow> int \<Rightarrow> canonical_store \<Rightarrow> chart_point list" where
  "query_canonical_history iid start stop bucket st =
     map (\<lambda>c. \<lparr>cp_timestamp = cd_bucket c, cp_open = float_of (cd_open c), cp_close = float_of (cd_close c),
            cp_high = float_of (cd_high c), cp_low = float_of (cd_low c), cp_value = float_of (cd_close c),
            cp_sample_count = cd_count c, cp_source = None\<rparr>)
       (candles iid start stop bucket st)"

text \<open>The former table of prices, which nothing writes any more.\<close>

record market_price =
  mp_time :: instant
  mp_asset :: string
  mp_region :: string
  mp_price_usd :: "pyfloat option"
  mp_price_toman :: "pyfloat option"

definition legacy_column :: "string \<Rightarrow> market_price \<Rightarrow> pyfloat option" where
  "legacy_column iid = (if starts_with (rev ''TOMAN'') (rev iid) then mp_price_toman else mp_price_usd)"

definition legacy_rows :: "market_price list \<Rightarrow> string \<Rightarrow> instant \<Rightarrow> instant \<Rightarrow> market_price list" where
  "legacy_rows table iid start stop =
     (let asset = (if starts_with ''USDT'' iid then ''usdt'' else ''btc'');
          region = (if starts_with (rev ''TOMAN'') (rev iid) then ''iran'' else ''international'')
      in filter (\<lambda>r. mp_asset r = asset \<and> mp_region r = region \<and> start \<le> mp_time r \<and> mp_time r \<le> stop
           \<and> legacy_column iid r \<noteq> None) table)"

definition legacy_point :: "(pyfloat list \<Rightarrow> pyfloat) \<Rightarrow> string \<Rightarrow> instant \<Rightarrow> market_price list \<Rightarrow> chart_point" where
  "legacy_point avg iid b rows =
     (let v = avg (List.map_filter (legacy_column iid) rows) in
      \<lparr>cp_timestamp = b, cp_open = v, cp_close = v, cp_high = v, cp_low = v, cp_value = v,
       cp_sample_count = int (length rows), cp_source = Some ''legacy_internal_history''\<rparr>)"

definition query_legacy_history ::
  "(pyfloat list \<Rightarrow> pyfloat) \<Rightarrow> market_price list \<Rightarrow> string \<Rightarrow> instant \<Rightarrow> instant \<Rightarrow> int \<Rightarrow> chart_point list" where
  "query_legacy_history avg table iid start stop bucket =
     map (\<lambda>(b, rows). legacy_point avg iid b rows)
       (grouped (\<lambda>r. date_bin (seconds bucket) (mp_time r)) (legacy_rows table iid start stop))"

section \<open>Charts\<close>

record history_result =
  hr_instrument_id :: string
  hr_timeframe :: string
  hr_status :: string
  hr_range_start :: instant
  hr_range_end :: instant
  hr_points :: "chart_point list"
  hr_missing_before :: "instant option"

definition holes :: "int \<Rightarrow> instant list \<Rightarrow> bool" where
  "holes tolerance ts \<longleftrightarrow> (\<exists>(a, b)\<in>set (zip ts (tl ts)). b - a > tolerance)"

definition is_partial :: "timeframe_policy \<Rightarrow> instant \<Rightarrow> instant \<Rightarrow> instant list \<Rightarrow> bool" where
  "is_partial policy start stop points =
     (let ts = sort (remdups points); tolerance = seconds (tf_bucket_seconds policy * 2)
      in case points of
           [] \<Rightarrow> True
         | first # _ \<Rightarrow> first > start + tolerance \<or> List.last ts < stop - tolerance \<or> holes tolerance ts
             \<or> int (length ts) < max 1 (tf_duration policy div tf_bucket_seconds policy - 2))"

record chart_env =
  ce_defs :: "instrument_definition list"
  ce_avg :: "pyfloat list \<Rightarrow> pyfloat"
  ce_market_prices :: "market_price list"

definition chart_points ::
  "chart_env \<Rightarrow> timeframe_policy \<Rightarrow> string \<Rightarrow> instant \<Rightarrow> instant \<Rightarrow> canonical_store \<Rightarrow> chart_point list" where
  "chart_points env policy iid start stop st =
     (let points = query_canonical_history iid start stop (tf_bucket policy) st
      in if points = [] \<and> iid \<in> {''USDT_TOMAN'', ''USDT_USD'', ''BTC_TOMAN'', ''BTC_USD''}
         then query_legacy_history (ce_avg env) (ce_market_prices env) iid start stop (tf_bucket policy) else points)"

definition chart_of :: "string \<Rightarrow> string \<Rightarrow> timeframe_policy \<Rightarrow> instant \<Rightarrow> instant \<Rightarrow> chart_point list \<Rightarrow> history_result" where
  "chart_of iid timeframe policy start stop points =
     (let first = (case points of [] \<Rightarrow> None | p # _ \<Rightarrow> Some (cp_timestamp p));
          partial = is_partial policy start stop (map cp_timestamp points);
          tolerance = seconds (tf_bucket_seconds policy * 2)
      in \<lparr>hr_instrument_id = iid, hr_timeframe = timeframe, hr_status = (if partial then ''partial'' else ''complete''),
          hr_range_start = start, hr_range_end = stop, hr_points = points,
          hr_missing_before = (case first of None \<Rightarrow> None
            | Some t \<Rightarrow> if partial \<and> t > start + tolerance then Some t else None)\<rparr>)"

definition read_canonical_history ::
  "chart_env \<Rightarrow> string \<Rightarrow> string \<Rightarrow> instant \<Rightarrow> canonical_store \<Rightarrow> history_result result" where
  "read_canonical_history env iid timeframe stop st =
     ebind (get_instrument (ce_defs env) iid) (\<lambda>_.
     case timeframes timeframe of
       None \<Rightarrow> Inl (ValueError ''Unsupported timeframe'')
     | Some policy \<Rightarrow>
         (let start = stop - seconds (tf_duration policy)
          in Inr (chart_of iid timeframe policy start stop (chart_points env policy iid start stop st))))"

definition canonical_history_of ::
  "chart_env \<Rightarrow> string \<Rightarrow> string \<Rightarrow> instant \<Rightarrow> canonical_store \<Rightarrow> history_result result" where
  "canonical_history_of env iid timeframe stop st =
     ebind (get_instrument (ce_defs env) iid) (\<lambda>d.
     if timeframes timeframe = None then Inl (ValueError ''Unsupported timeframe'')
     else read_canonical_history env (i_instrument_id d) timeframe stop st)"

text \<open>The chart of the service: a hole is asked for, and a failure to ask is no failure of the chart.\<close>

definition has_history_route :: "provider_definition list \<Rightarrow> string \<Rightarrow> bool" where
  "has_history_route registry iid \<longleftrightarrow>
     (\<exists>p\<in>set registry. p_instrument_id p = iid \<and> or_text (p_history_url p) [] \<noteq> [] \<and> or_text (p_history_parser_id p) [] \<noteq> [])"

definition canonical_history ::
  "chart_env \<Rightarrow> 's benv \<Rightarrow> string \<Rightarrow> string \<Rightarrow> 's bworld \<Rightarrow> history_result result \<times> 's bworld" where
  "canonical_history ce env iid timeframe w =
     (let s = be_service env in
      case ebind (get_instrument (sv_defs s) iid) (\<lambda>d.
             canonical_history_of ce (i_instrument_id d) timeframe (sv_now s) (sw_store (bw_world w))) of
        Inl e \<Rightarrow> (Inl e, w)
      | Inr r \<Rightarrow>
          if hr_status r = ''partial'' \<and> has_history_route (sv_registry s) (hr_instrument_id r) then
            (Inr r, snd (enqueue_automatic env (hr_instrument_id r) (utc (hr_range_start r))
               (utc (case hr_missing_before r of None \<Rightarrow> hr_range_end r | Some t \<Rightarrow> t))
               (case timeframes timeframe of None \<Rightarrow> 0 | Some p \<Rightarrow> tf_bucket_seconds p) 250 w))
          else (Inr r, w))"

section \<open>Lemmas\<close>

lemma date_bin_bounds:
  assumes "0 < interval"
  shows "date_bin interval t \<le> t" "t < date_bin interval t + interval"
proof -
  let ?o = "946684800000000 :: int"
  have "(t - ?o) div interval * interval = t - ?o - (t - ?o) mod interval"
    by (simp add: minus_mod_eq_div_mult)
  moreover have "0 \<le> (t - ?o) mod interval" "(t - ?o) mod interval < interval"
    using assms by simp_all
  ultimately show "date_bin interval t \<le> t" "t < date_bin interval t + interval"
    by (simp_all add: date_bin_def)
qed

lemma grouped_keys: "map fst (grouped f rows) = sort (remdups (map f rows))"
  by (simp add: grouped_def comp_def)

lemma grouped_ascending: "sorted_wrt (<) (map fst (grouped f rows))"
  by (simp add: grouped_keys strict_sorted_iff)

lemma grouped_member: "(b, rs) \<in> set (grouped f rows) \<longleftrightarrow> b \<in> f ` set rows \<and> rs = filter (\<lambda>r. f r = b) rows"
  by (auto simp: grouped_def)

lemma grouped_nonempty: "(b, rs) \<in> set (grouped f rows) \<Longrightarrow> rs \<noteq> []"
  by (auto simp: grouped_member filter_empty_conv)

lemma sum_filter_parts:
  assumes "distinct bs" "f ` set rows \<subseteq> set bs"
  shows "sum_list (map (\<lambda>b. length (filter (\<lambda>r. f r = b) rows)) bs) = length rows"
  using assms(2)
proof (induction rows)
  case (Cons r rows)
  have "sum_list (map (\<lambda>b. length (filter (\<lambda>x. f x = b) (r # rows))) bs)
      = sum_list (map (\<lambda>b. (if f r = b then 1 else 0) + length (filter (\<lambda>x. f x = b) rows)) bs)"
    by (intro arg_cong[where f = sum_list] map_cong) simp_all
  also have "\<dots> = sum_list (map (\<lambda>b. if f r = b then 1 else 0) bs) + length rows"
    using Cons by (simp add: sum_list_addf)
  also have "sum_list (map (\<lambda>b. if f r = b then 1 else 0) bs) = (1 :: nat)"
    using assms(1) Cons.prems by (simp add: sum_list_distinct_conv_sum_set)
  finally show ?case
    by simp
qed simp

lemma grouped_counts: "sum_list (map (length \<circ> snd) (grouped f rows)) = length rows"
  using sum_filter_parts[of "sort (remdups (map f rows))" f rows] by (simp add: grouped_def comp_def)

text \<open>Points without holes come near every time between the ends.\<close>

lemma near_some_point:
  assumes "0 \<le> tol" and "ts \<noteq> []" "\<not> holes tol ts" "hd ts \<le> t + tol" "t \<le> List.last ts + tol"
  shows "\<exists>b\<in>set ts. \<bar>b - t\<bar> \<le> tol"
  using assms(2-)
proof (induction ts)
  case (Cons a rest)
  show ?case
  proof (cases "rest = [] \<or> t \<le> a + tol")
    case True
    then have "\<bar>a - t\<bar> \<le> tol"
      using Cons.prems(3,4) by auto
    then show ?thesis
      by auto
  next
    case False
    then obtain b more where r: "rest = b # more"
      by (cases rest) auto
    then have "b - a \<le> tol" "\<not> holes tol rest"
      using Cons.prems(2) by (auto simp: holes_def)
    then have "\<exists>b\<in>set rest. \<bar>b - t\<bar> \<le> tol"
      using False Cons.prems(4) r assms(1) by (intro Cons.IH) auto
    then show ?thesis
      by auto
  qed
qed simp

lemma complete_points:
  assumes "0 \<le> tf_bucket_seconds policy" and "\<not> is_partial policy start stop points" "sorted_wrt (<) points" "start \<le> t" "t \<le> stop"
  shows "\<exists>b\<in>set points. \<bar>b - t\<bar> \<le> seconds (tf_bucket_seconds policy * 2)"
proof -
  have s: "sort (remdups points) = points"
    using assms(3) by (simp add: strict_sorted_iff distinct_remdups_id sorted_sort_id)
  obtain p ps where p: "points = p # ps"
    using assms(2) by (cases points) (auto simp: is_partial_def)
  show ?thesis
    using assms(1,2,4,5) s by (intro near_some_point) (auto simp: is_partial_def p Let_def seconds_def)
qed

text \<open>Candles.\<close>

lemma candle_of_sound:
  assumes "rows \<noteq> []"
  shows "cd_low (candle_of b rows) \<le> cd_open (candle_of b rows)" "cd_open (candle_of b rows) \<le> cd_high (candle_of b rows)"
    "cd_low (candle_of b rows) \<le> cd_close (candle_of b rows)" "cd_close (candle_of b rows) \<le> cd_high (candle_of b rows)"
    "{cd_open (candle_of b rows), cd_close (candle_of b rows), cd_high (candle_of b rows), cd_low (candle_of b rows)}
       \<subseteq> c_price ` set rows"
    "r \<in> set rows \<Longrightarrow> cd_low (candle_of b rows) \<le> c_price r \<and> c_price r \<le> cd_high (candle_of b rows)"
proof -
  let ?p = "map c_price (sort_key c_canonical_at rows)"
  have p: "?p \<noteq> []" "set ?p = c_price ` set rows"
    using assms by (simp_all, metis length_0_conv length_sort)
  then have m: "Min (set ?p) \<in> set ?p" "Max (set ?p) \<in> set ?p" "hd ?p \<in> set ?p" "List.last ?p \<in> set ?p"
    using Min_in[of "set ?p"] Max_in[of "set ?p"] hd_in_set[OF p(1)] last_in_set[OF p(1)] assms by simp_all
  show "{cd_open (candle_of b rows), cd_close (candle_of b rows), cd_high (candle_of b rows), cd_low (candle_of b rows)}
       \<subseteq> c_price ` set rows"
    using m unfolding p(2) by (simp add: candle_of_def Let_def)
  show "cd_low (candle_of b rows) \<le> cd_open (candle_of b rows)" "cd_open (candle_of b rows) \<le> cd_high (candle_of b rows)"
    "cd_low (candle_of b rows) \<le> cd_close (candle_of b rows)" "cd_close (candle_of b rows) \<le> cd_high (candle_of b rows)"
    using m by (simp_all add: candle_of_def Let_def del: set_map)
  show "r \<in> set rows \<Longrightarrow> cd_low (candle_of b rows) \<le> c_price r \<and> c_price r \<le> cd_high (candle_of b rows)"
    by (simp add: candle_of_def Let_def)
qed

lemma candle_of_fields [simp]: "cd_bucket (candle_of b rows) = b" "cd_count (candle_of b rows) = int (length rows)"
  by (simp_all add: candle_of_def Let_def)

lemma candles_ascending: "sorted_wrt (<) (map cd_bucket (candles iid start stop bucket st))"
proof -
  have "map cd_bucket (candles iid start stop bucket st)
      = map fst (grouped (\<lambda>r. date_bin (seconds bucket) (c_canonical_at r)) (chart_rows iid start stop st))"
    by (simp add: candles_def case_prod_beta comp_def)
  then show ?thesis
    using grouped_ascending by simp
qed

lemma candle_cases:
  assumes "c \<in> set (candles iid start stop bucket st)"
  obtains rows where "rows = filter (\<lambda>r. date_bin (seconds bucket) (c_canonical_at r) = cd_bucket c) (chart_rows iid start stop st)"
    "rows \<noteq> []" "c = candle_of (cd_bucket c) rows"
proof -
  obtain b rows where b: "(b, rows) \<in> set (grouped (\<lambda>r. date_bin (seconds bucket) (c_canonical_at r)) (chart_rows iid start stop st))"
      "c = candle_of b rows"
    using assms unfolding candles_def by auto
  then show ?thesis
    using that[of rows] grouped_nonempty[OF b(1)] by (simp add: grouped_member)
qed

lemma candle_of_row:
  assumes "r \<in> set (chart_rows iid start stop st)"
  obtains c where "c \<in> set (candles iid start stop bucket st)" "cd_bucket c = date_bin (seconds bucket) (c_canonical_at r)"
    "cd_low c \<le> c_price r" "c_price r \<le> cd_high c"
proof -
  let ?f = "\<lambda>r. date_bin (seconds bucket) (c_canonical_at r)"
  let ?rows = "filter (\<lambda>x. ?f x = ?f r) (chart_rows iid start stop st)"
  have g: "(?f r, ?rows) \<in> set (grouped ?f (chart_rows iid start stop st))"
    using assms by (simp add: grouped_member)
  then have "candle_of (?f r) ?rows \<in> set (candles iid start stop bucket st)"
    unfolding candles_def by (metis (mono_tags, lifting) case_prod_conv image_eqI list.set_map)
  moreover have "r \<in> set ?rows" "?rows \<noteq> []"
    using assms by (auto simp: filter_empty_conv)
  ultimately show ?thesis
    using that candle_of_sound(6) by (metis candle_of_fields(1))
qed

lemma candle_counts: "sum_list (map cd_count (candles iid start stop bucket st)) = int (length (chart_rows iid start stop st))"
proof -
  let ?g = "grouped (\<lambda>r. date_bin (seconds bucket) (c_canonical_at r)) (chart_rows iid start stop st)"
  have "map cd_count (candles iid start stop bucket st) = map int (map (length \<circ> snd) ?g)"
    by (simp add: candles_def case_prod_beta comp_def)
  moreover have "sum_list (map int ns) = int (sum_list ns)" for ns
    by (induction ns) simp_all
  ultimately show ?thesis
    unfolding grouped_counts by (simp only: grouped_counts)
qed

lemma timeframe_sane:
  "timeframes tf = Some p \<Longrightarrow> 0 < tf_bucket p \<and> tf_bucket_seconds p = tf_bucket p \<and> tf_bucket p \<le> tf_duration p"
  by (auto simp: timeframes_def map_of_eq_Some_iff split: if_splits)

text \<open>The times of a chart are ascending, and each is the bucket of some price in the range.\<close>

definition sampled :: "instant \<Rightarrow> instant \<Rightarrow> int \<Rightarrow> instant set \<Rightarrow> instant list \<Rightarrow> bool" where
  "sampled start stop bucket moments ts \<longleftrightarrow> sorted_wrt (<) ts
     \<and> (\<forall>b\<in>set ts. \<exists>t\<in>moments. start \<le> t \<and> t \<le> stop \<and> b = date_bin (seconds bucket) t)"

lemma canonical_sampled:
  "sampled start stop bucket (c_canonical_at ` set (chart_rows iid start stop st))
     (map cp_timestamp (query_canonical_history iid start stop bucket st))"
proof -
  have m: "map cp_timestamp (query_canonical_history iid start stop bucket st) = map cd_bucket (candles iid start stop bucket st)"
    by (simp add: query_canonical_history_def comp_def)
  have "\<exists>r\<in>set (chart_rows iid start stop st). cd_bucket c = date_bin (seconds bucket) (c_canonical_at r)"
    if "c \<in> set (candles iid start stop bucket st)" for c
    using that by (rule candle_cases) (metis (mono_tags, lifting) filter_empty_conv)
  then show ?thesis
    unfolding sampled_def m using candles_ascending by (fastforce simp: chart_rows_def)
qed

lemma legacy_sampled:
  "sampled start stop bucket (mp_time ` set (legacy_rows table iid start stop)) (map cp_timestamp (query_legacy_history avg table iid start stop bucket))"
proof -
  let ?g = "grouped (\<lambda>r. date_bin (seconds bucket) (mp_time r)) (legacy_rows table iid start stop)"
  have m: "map cp_timestamp (query_legacy_history avg table iid start stop bucket) = map fst ?g"
    by (simp add: query_legacy_history_def legacy_point_def case_prod_beta comp_def Let_def)
  have r: "set (legacy_rows table iid start stop) \<subseteq> {x \<in> set table. start \<le> mp_time x \<and> mp_time x \<le> stop}"
    by (auto simp: legacy_rows_def Let_def)
  have "\<exists>x\<in>set (legacy_rows table iid start stop). b = date_bin (seconds bucket) (mp_time x)" if "b \<in> fst ` set ?g" for b
    using that by (auto simp: grouped_member)
  then show ?thesis
    unfolding sampled_def m using grouped_ascending r by (fastforce simp: subset_iff)
qed

lemma chart_sampled:
  obtains moments where "sampled start stop (tf_bucket policy) moments (map cp_timestamp (chart_points env policy iid start stop st))"
    "moments \<subseteq> c_canonical_at ` set (chart_rows iid start stop st) \<union> mp_time ` set (legacy_rows (ce_market_prices env) iid start stop)"
proof (cases "chart_points env policy iid start stop st = query_canonical_history iid start stop (tf_bucket policy) st")
  case True
  then show ?thesis
    using that[OF _ Un_upper1] canonical_sampled by simp
next
  case False
  then have "chart_points env policy iid start stop st
      = query_legacy_history (ce_avg env) (ce_market_prices env) iid start stop (tf_bucket policy)"
    by (auto simp: chart_points_def Let_def)
  then show ?thesis
    using that[OF _ Un_upper2] legacy_sampled by simp
qed

lemma chart_result:
  assumes "canonical_history_of env iid timeframe stop st = Inr r"
  obtains policy key start where "timeframes timeframe = Some policy" "start = stop - seconds (tf_duration policy)"
    "r = chart_of key timeframe policy start stop (chart_points env policy key start stop st)"
proof -
  obtain d :: instrument_definition where "read_canonical_history env (i_instrument_id d) timeframe stop st = Inr r"
    using assms unfolding canonical_history_of_def by (auto simp: ebind_Inr split: if_splits)
  then show ?thesis
    using that unfolding read_canonical_history_def by (auto simp: ebind_Inr Let_def split: option.splits)
qed

lemma chart_of_fields [simp]:
  "hr_instrument_id (chart_of key tf policy start stop ps) = key" "hr_range_start (chart_of key tf policy start stop ps) = start"
  "hr_range_end (chart_of key tf policy start stop ps) = stop" "hr_points (chart_of key tf policy start stop ps) = ps"
  "hr_status (chart_of key tf policy start stop ps)
     = (if is_partial policy start stop (map cp_timestamp ps) then ''partial'' else ''complete'')"
  by (simp_all add: chart_of_def Let_def)

text \<open>Claim C13. A chart is complete only if it is: at every moment of its range some price was taken within three buckets of
  that moment, a canonical price of the instrument or one of the former table.\<close>

theorem complete_chart_covers_its_range:
  assumes "canonical_history_of env iid timeframe stop st = Inr r" and "hr_status r = ''complete''"
    and "hr_range_start r \<le> t" and "t \<le> hr_range_end r" and "timeframes timeframe = Some policy"
  shows "\<exists>s\<in>c_canonical_at ` set (chart_rows (hr_instrument_id r) (hr_range_start r) (hr_range_end r) st)
      \<union> mp_time ` set (legacy_rows (ce_market_prices env) (hr_instrument_id r) (hr_range_start r) (hr_range_end r)). \<bar>s - t\<bar> < seconds (3 * tf_bucket policy)"
proof (rule chart_result[OF assms(1)])
  fix p key start
  assume p: "timeframes timeframe = Some p"
    and r: "r = chart_of key timeframe p start stop (chart_points env p key start stop st)"
  note sane = timeframe_sane[OF p]
  obtain moments where s: "sampled start stop (tf_bucket p) moments (map cp_timestamp (chart_points env p key start stop st))"
      "moments \<subseteq> c_canonical_at ` set (chart_rows key start stop st) \<union> mp_time ` set (legacy_rows (ce_market_prices env) key start stop)"
    by (rule chart_sampled)
  have "\<not> is_partial p start stop (map cp_timestamp (chart_points env p key start stop st))" "start \<le> t" "t \<le> stop"
    using assms(2-4) by (auto simp: r split: if_splits)
  then obtain b where b: "b \<in> set (map cp_timestamp (chart_points env p key start stop st))" "\<bar>b - t\<bar> \<le> seconds (tf_bucket p * 2)"
    using complete_points[of p start stop _ t] s(1) sane unfolding sampled_def by (metis less_imp_le)
  then obtain x where x: "x \<in> moments" "b = date_bin (seconds (tf_bucket p)) x"
    using s(1) unfolding sampled_def by blast
  then have "b \<le> x" "x < b + seconds (tf_bucket p)"
    using date_bin_bounds[of "seconds (tf_bucket p)" x] sane by (simp_all add: seconds_def)
  then have "\<bar>x - t\<bar> < seconds (3 * tf_bucket p)"
    using b(2) sane by (simp add: seconds_def abs_if split: if_splits)
  then show ?thesis
    using x(1) s(2) p assms(5) r by auto
qed

section \<open>What a chart asks for\<close>

lemma enqueue_new:
  assumes "j \<in> set (bt_jobs (bw_table (snd (enqueue env iid (utc start) (utc stop) priority w)))) - set (bt_jobs (bw_table w))"
  shows "bj_range_start j = start \<and> bj_range_end j = stop \<and> bj_status j = BPending"
  using assms by (auto simp: enqueue_def insert_backfill_def Let_def split: sum.splits option.splits if_splits)

lemma enqueue_new_request:
  assumes "x \<in> set (bw_stream (snd (enqueue env iid (utc start) (utc stop) priority w))) - set (bw_stream w)"
  shows "rq_range_start (snd x) = start \<and> rq_range_end (snd x) = stop"
  using assms by (auto simp: enqueue_def Let_def split: sum.splits option.splits if_splits)

lemma enqueue_keeps:
  "bw_world (snd (enqueue env iid start stop priority w)) = bw_world w"
  "set (bt_jobs (bw_table w)) \<subseteq> set (bt_jobs (bw_table (snd (enqueue env iid start stop priority w))))"
  "set (bw_stream w) \<subseteq> set (bw_stream (snd (enqueue env iid start stop priority w)))"
  by (auto simp: enqueue_def insert_backfill_def Let_def split: sum.splits option.splits)

lemma set_redis_simps [simp]:
  "bw_table (set_redis s w) = bw_table w" "bw_stream (set_redis s w) = bw_stream w"
  "sw_store (bw_world (set_redis s w)) = sw_store (bw_world w)"
  by (simp_all add: set_redis_def)

lemma enqueue_automatic_cases:
  obtains (none) s where "snd (enqueue_automatic env iid start stop b priority w) \<in> {w, set_redis s w}"
  | (asked) s1 s2 name where "ensure_utc start < ensure_utc stop"
      "snd (enqueue_automatic env iid start stop b priority w)
         \<in> {snd (enqueue env name (utc (ensure_utc start)) (utc (ensure_utc stop)) priority (set_redis s1 w)),
            set_redis s2 (snd (enqueue env name (utc (ensure_utc start)) (utc (ensure_utc stop)) priority (set_redis s1 w)))}"
proof -
  let ?s = "be_service env" and ?r = "enqueue_automatic env iid start stop b priority w"
  let ?found = "ebind (get_instrument (sv_defs ?s) iid) (\<lambda>d.
      ebind (operational_instruments (sv_loads ?s) (sv_defs ?s) (sv_op_db ?s) [i_instrument_id d]) (\<lambda>m.
      case m (i_instrument_id d) of None \<Rightarrow> Inl (KeyErr (i_instrument_id d)) | Some i \<Rightarrow> Inr i))"
  show ?thesis
  proof (cases ?found)
    case (Inl e)
    then show ?thesis
      using that(1) by (simp add: enqueue_automatic_def Let_def)
  next
    case (Inr i)
    let ?raw = "''pricing:backfill-auto:'' @ bucket_text (i_instrument_id i) (ensure_utc start) (ensure_utc stop) b"
    show ?thesis
    proof (cases "ensure_utc start \<ge> ensure_utc stop \<or> b \<le> 0 \<or> \<not> i_enabled i \<or> \<not> backfill_enabled env (i_instrument_id i)")
      case True
      then show ?thesis
        using Inr that(1) by (auto simp: enqueue_automatic_def Let_def)
    next
      case False
      show ?thesis
      proof (cases "acquire (sv_ops ?s) (redis_of w) ?raw 60000 (sv_owner ?s)")
        case (Inl e)
        then show ?thesis
          using Inr False that(1) by (simp add: enqueue_automatic_def Let_def)
      next
        case a: (Inr lease)
        obtain l s1 where l: "lease = (l, s1)"
          by fastforce
        show ?thesis
        proof (cases l)
          case None
          then show ?thesis
            using Inr False a l that(1)[of s1] by (simp add: enqueue_automatic_def Let_def)
        next
          case (Some x)
          define q where "q = snd (enqueue env (i_instrument_id i) (utc (ensure_utc start)) (utc (ensure_utc stop)) priority (set_redis s1 w))"
          have "\<exists>s2. snd ?r \<in> {q, set_redis s2 q}"
            using Inr False a l Some by (auto simp: enqueue_automatic_def Let_def q_def)
          then show ?thesis
            using False that(2) unfolding q_def by (meson not_le)
        qed
      qed
    qed
  qed
qed

text \<open>Claim C14. A reader of charts changes nothing that is stored: a complete chart leaves the world as it is, and an
  incomplete one adds at most requests for its own range up to where its prices begin, jobs or entries of the stream.\<close>

theorem chart_asks_only_for_its_range:
  assumes "canonical_history ce env iid timeframe w = (Inr r, w')"
  shows "sw_store (bw_world w') = sw_store (bw_world w) \<and> (hr_status r = ''complete'' \<longrightarrow> w' = w)
    \<and> set (bt_jobs (bw_table w)) \<subseteq> set (bt_jobs (bw_table w')) \<and> set (bw_stream w) \<subseteq> set (bw_stream w')
    \<and> (\<forall>j\<in>set (bt_jobs (bw_table w')) - set (bt_jobs (bw_table w)). bj_status j = BPending
         \<and> bj_range_start j = hr_range_start r \<and> bj_range_start j < bj_range_end j \<and> bj_range_end j \<le> hr_range_end r
         \<and> (\<forall>t. hr_missing_before r = Some t \<longrightarrow> bj_range_end j = t))
    \<and> (\<forall>x\<in>set (bw_stream w') - set (bw_stream w). rq_range_start (snd x) = hr_range_start r
         \<and> rq_range_start (snd x) < rq_range_end (snd x) \<and> rq_range_end (snd x) \<le> hr_range_end r
         \<and> (\<forall>t. hr_missing_before r = Some t \<longrightarrow> rq_range_end (snd x) = t))"
proof -
  define stop where "stop = (case hr_missing_before r of None \<Rightarrow> hr_range_end r | Some t \<Rightarrow> t)"
  obtain d :: instrument_definition where k: "canonical_history_of ce (i_instrument_id d) timeframe
      (sv_now (be_service env)) (sw_store (bw_world w)) = Inr r"
    using assms unfolding canonical_history_def Let_def by (auto simp: ebind_Inr split: sum.splits if_splits)
  have w': "hr_status r = ''complete'' \<longrightarrow> w' = w"
      "w' = w \<or> (\<exists>name b. w' = snd (enqueue_automatic env name (utc (hr_range_start r)) (utc stop) b 250 w))"
    using assms unfolding canonical_history_def Let_def stop_def by (auto split: sum.splits if_splits)
  let ?now = "sv_now (be_service env)" and ?st = "sw_store (bw_world w)"
  have le: "stop \<le> hr_range_end r"
  proof (rule chart_result[OF k])
    fix policy key start
    assume p: "timeframes timeframe = Some policy"
      and r: "r = chart_of key timeframe policy start ?now (chart_points ce policy key start ?now ?st)"
    obtain moments where "sampled start ?now (tf_bucket policy) moments (map cp_timestamp (chart_points ce policy key start ?now ?st))"
      by (rule chart_sampled)
    moreover have "stop \<in> cp_timestamp ` set (chart_points ce policy key start ?now ?st) \<or> stop = ?now"
      by (cases "chart_points ce policy key start ?now ?st") (auto simp: stop_def r chart_of_def Let_def)
    ultimately show ?thesis
      using date_bin_bounds(1)[of "seconds (tf_bucket policy)"] timeframe_sane[OF p]
      unfolding sampled_def by (fastforce simp: r seconds_def intro: order_trans)
  qed
  have t: "hr_missing_before r = Some t \<longrightarrow> stop = t" for t
    by (simp add: stop_def)
  show ?thesis
  proof (cases "w' = w")
    case False
    then obtain name b where e: "w' = snd (enqueue_automatic env name (utc (hr_range_start r)) (utc stop) b 250 w)"
      using w'(2) by blast
    show ?thesis
    proof (cases rule: enqueue_automatic_cases[of env name "utc (hr_range_start r)" "utc stop" b 250 w])
      case (none s)
      then show ?thesis
        using w'(1) unfolding e by auto
    next
      case (asked s1 s2 n)
      define q where "q = snd (enqueue env n (utc (hr_range_start r)) (utc stop) 250 (set_redis s1 w))"
      have q: "w' = q \<or> w' = set_redis s2 q" and lt: "hr_range_start r < stop"
        using asked unfolding e q_def by simp_all
      have f: "bw_table w' = bw_table q" "bw_stream w' = bw_stream q" "sw_store (bw_world w') = sw_store (bw_world q)"
        using q by auto
      show ?thesis
        using w'(1) lt le t unfolding f q_def
        using enqueue_new[of _ env n "hr_range_start r" stop 250 "set_redis s1 w"]
          enqueue_new_request[of _ env n "hr_range_start r" stop 250 "set_redis s1 w"]
          enqueue_keeps[where env = env and iid = n and w = "set_redis s1 w" and start = "utc (hr_range_start r)"
            and stop = "utc stop" and priority = 250]
        by auto
    qed
  qed simp
qed

section \<open>Examples\<close>

definition example_market :: "market_price list" where
  "example_market = map (\<lambda>n. \<lparr>mp_time = n * 60000000, mp_asset = ''btc'', mp_region = ''international'',
     mp_price_usd = Some (FFin 60000), mp_price_toman = None\<rparr>) [0..59]"

definition example_charts :: chart_env where
  "example_charts = \<lparr>ce_defs = [example_instrument], ce_avg = hd, ce_market_prices = example_market\<rparr>"

lemma date_bin_minute: "date_bin 60000000 (n * 60000000) = n * 60000000"
proof -
  have "n * 60000000 - 946684800000000 = (n - 15778080) * (60000000 :: int)"
    by simp
  then show ?thesis
    unfolding date_bin_def Let_def by simp
qed

lemma example_market_times:
  "map cp_timestamp (query_legacy_history hd example_market ''BTC_USD'' 0 3600000000 60) = map (\<lambda>n. n * 60000000) [0..59]"
proof -
  have r: "legacy_rows example_market ''BTC_USD'' 0 3600000000 = example_market"
    unfolding legacy_rows_def Let_def
    by (rule filter_True) (auto simp: example_market_def legacy_column_def starts_with_def)
  have "sorted_wrt (<) (map (\<lambda>n. n * 60000000) [0..59 :: int])"
    by (simp add: sorted_wrt_map sorted_wrt_upto)
  moreover have "map (\<lambda>r. date_bin (seconds 60) (mp_time r)) example_market = map (\<lambda>n. n * 60000000) [0..59]"
    by (simp add: example_market_def seconds_def date_bin_minute comp_def del: upto_rec_numeral)
  ultimately have "map fst (grouped (\<lambda>r. date_bin (seconds 60) (mp_time r)) example_market) = map (\<lambda>n. n * 60000000) [0..59]"
    by (simp add: grouped_keys strict_sorted_iff distinct_remdups_id sorted_sort_id del: upto_rec_numeral)
  then show ?thesis
    by (simp add: query_legacy_history_def r legacy_point_def case_prod_beta comp_def Let_def del: upto_rec_numeral)
qed

lemma example_market_complete:
  "\<not> is_partial \<lparr>tf_duration = 3600, tf_bucket = 60, tf_bucket_seconds = 60, tf_baseline_tolerance = 900\<rparr> 0 3600000000
     (map (\<lambda>n. n * 60000000) [0..59])"
  by code_simp

lemma example_complete_chart:
  "\<exists>r. canonical_history_of example_charts ''BTC_USD'' ''1h'' 3600000000 empty_store = Inr r
     \<and> hr_status r = ''complete'' \<and> hr_range_start r = 0 \<and> hr_range_end r = 3600000000 \<and> hr_instrument_id r = ''BTC_USD''"
proof -
  let ?p = "\<lparr>tf_duration = 3600, tf_bucket = 60, tf_bucket_seconds = 60, tf_baseline_tolerance = 900\<rparr>"
  have t: "timeframes ''1h'' = Some ?p"
    by (simp add: timeframes_def)
  have i: "i_instrument_id example_instrument = ''BTC_USD''" "ce_defs example_charts = [example_instrument]"
    by (simp_all add: example_instrument_def example_charts_def)
  have "query_canonical_history ''BTC_USD'' 0 3600000000 60 empty_store = []"
    by (simp add: query_canonical_history_def candles_def grouped_def chart_rows_def price_rows_def empty_store_def)
  then have "chart_points example_charts ?p ''BTC_USD'' 0 3600000000 empty_store
      = query_legacy_history hd example_market ''BTC_USD'' 0 3600000000 60"
    by (simp add: chart_points_def example_charts_def)
  then show ?thesis
    using t i example_market_times example_market_complete
    by (simp add: canonical_history_of_def read_canonical_history_def example_lookup seconds_def Let_def)
qed

theorem complete_chart_covers_its_range_witness:
  "\<exists>s\<in>mp_time ` set (legacy_rows example_market ''BTC_USD'' 0 3600000000). \<bar>s - 1234567890\<bar> < seconds 180"
proof -
  obtain r where r: "canonical_history_of example_charts ''BTC_USD'' ''1h'' 3600000000 empty_store = Inr r"
      "hr_status r = ''complete''" "hr_range_start r = 0" "hr_range_end r = 3600000000" "hr_instrument_id r = ''BTC_USD''"
    using example_complete_chart by blast
  have t: "timeframes ''1h'' = Some \<lparr>tf_duration = 3600, tf_bucket = 60, tf_bucket_seconds = 60, tf_baseline_tolerance = 900\<rparr>"
    by (simp add: timeframes_def)
  have "chart_rows ''BTC_USD'' 0 3600000000 empty_store = []"
    by (simp add: chart_rows_def price_rows_def empty_store_def)
  then show ?thesis
    using complete_chart_covers_its_range [OF r(1,2) _ _ t, of 1234567890] r(3-5) by (simp add: example_charts_def)
qed

theorem chart_asks_only_for_its_range_witness:
  "\<exists>r w'. canonical_history example_charts example_benv ''BTC_USD'' ''1h'' example_bworld = (Inr r, w')
     \<and> sw_store (bw_world w') = sw_store (bw_world example_bworld)"
proof -
  have i: "i_instrument_id example_instrument = ''BTC_USD''" "ce_defs example_charts = [example_instrument]"
      "sv_defs (be_service example_benv) = [example_instrument]"
    by (simp_all add: example_instrument_def example_charts_def example_benv_def history_senv_def)
  obtain r w' where "canonical_history example_charts example_benv ''BTC_USD'' ''1h'' example_bworld = (Inr r, w')"
    using i by (simp add: canonical_history_def canonical_history_of_def read_canonical_history_def example_lookup timeframes_def Let_def)
      (metis surj_pair)
  then show ?thesis
    using chart_asks_only_for_its_range by blast
qed

end
