(* ===== verification/Public_Prices.thy ===== *)
theory Public_Prices
  imports Charts Alerts Refresh
begin

text \<open>
  Model of \<open>apps/api/app/pricing/compatibility.py\<close>: the prices of gold, silver, tether and bitcoin as the clients of the
  first version read them, each from a canonical quote in dollars and one in tomans, with their short histories and charts,
  and the checks at start-up; and of the loops of \<open>apps/api/app/services/background.py\<close> that refresh prices and hand them
  to the alerts.

  \<^item> The flat entries of an asset are a dictionary, which the alerts read; its history, units and summaries of sources,
    which they do not read, stand beside it. The Persian texts are left out.
  \<^item> Readers that ask at once share one read, as for the charts.
\<close>

section \<open>One asset\<close>

definition legacy_labels :: "(string \<times> string) list" where
  "legacy_labels = [(''gold'', ''Gold''), (''silver'', ''Silver''), (''usdt'', ''Tether''), (''btc'', ''Bitcoin'')]"

definition legacy_assets :: "string list" where
  "legacy_assets = [''gold'', ''silver'', ''usdt'', ''btc'']"

definition legacy_id :: "string \<Rightarrow> string \<Rightarrow> string result" where
  "legacy_id asset cur = (case map_of legacy_asset_mapping (asset, cur) of None \<Rightarrow> Inl (KeyErr asset) | Some iid \<Rightarrow> Inr iid)"

definition number_of :: "rat \<Rightarrow> pyval" where
  "number_of q = PFloat (float_of q)"

definition number_or_none :: "rat option \<Rightarrow> pyval" where
  "number_or_none v = (case v of None \<Rightarrow> PNone | Some q \<Rightarrow> number_of q)"

text \<open>\<open>_quote_policy_fields\<close> without the prefix of the currency.\<close>

definition policy_entries :: "instant \<Rightarrow> canonical_quote option \<Rightarrow> (string \<times> pyval) list" where
  "policy_entries now oq =
     (case oq of
        None \<Rightarrow>
          [(''is_persisted'', PBool False), (''persistence_status'', PStr ''unpersisted''), (''is_suspicious'', PBool False),
           (''expired'', PBool True), (''live_eligible'', PBool False), (''source_semantic'', PStr ''unknown''),
           (''spread_bps'', PNone), (''maximum_spread_bps'', PNone), (''derivation_depth'', PInt 0)]
      | Some q \<Rightarrow>
          let effective = effective_status q now; summary = c_source_summary q; stated = dict_get summary ''source_semantic'' PNone;
              semantic = (if stated = PNone \<and> c_status q = CS_DERIVED_FALLBACK then PStr ''derived'' else stated)
          in [(''is_persisted'', PBool (c_is_persisted q)),
              (''persistence_status'', PStr (if c_is_persisted q then ''persisted'' else ''unpersisted'')),
              (''is_suspicious'', PBool (effective \<in> {CS_SUSPICIOUS, CS_SUSPICIOUS_UNCONFIRMED, CS_VERIFYING})),
              (''expired'', PBool (effective = CS_EXPIRED)), (''live_eligible'', PBool (now \<le> c_valid_until q)),
              (''source_semantic'', PStr (py_text (or_val semantic (PStr ''unknown'')))),
              (''spread_bps'', dict_get summary ''spread_bps'' PNone),
              (''maximum_spread_bps'', dict_get summary ''maximum_spread_bps'' PNone),
              (''derivation_depth'', dict_get summary ''derivation_depth'' (PInt 0))])"

definition quote_policy_fields :: "string \<Rightarrow> instant \<Rightarrow> canonical_quote option \<Rightarrow> dict" where
  "quote_policy_fields prefix now oq = map_of (map (\<lambda>(k, v). (prefix @ ''_'' @ k, v)) (policy_entries now oq))"

definition policy_summary_keys :: "string list" where
  "policy_summary_keys = [''source_semantic'', ''source_family'', ''venue'', ''selected_price_semantic'', ''spread_bps'', ''derivation_depth'']"

definition policy_summary :: "canonical_quote option \<Rightarrow> dict" where
  "policy_summary oq =
     (case oq of None \<Rightarrow> Map.empty | Some q \<Rightarrow> (\<lambda>k. if k \<in> set policy_summary_keys then c_source_summary q k else None))"

record unit_descriptor =
  ud_instrument_id :: string
  ud_quote_currency :: currency
  ud_weight_unit :: weight_unit
  ud_purity :: pyval
  ud_market :: market
  ud_display_decimals :: int

definition unit_descriptor_of :: "instrument_definition list \<Rightarrow> string \<Rightarrow> unit_descriptor result" where
  "unit_descriptor_of defs iid =
     ebind (get_instrument defs iid) (\<lambda>d.
     Inr \<lparr>ud_instrument_id = i_instrument_id d, ud_quote_currency = i_quote_currency d, ud_weight_unit = i_weight_unit d,
          ud_purity = number_or_none (i_purity d), ud_market = i_market d, ud_display_decimals = i_display_decimals d\<rparr>)"

definition public_source :: "canonical_quote option \<Rightarrow> string" where
  "public_source oq =
     (case oq of None \<Rightarrow> ''unavailable''
      | Some q \<Rightarrow> if c_status q = CS_DERIVED_FALLBACK then ''derived'' else ''canonical'')"

definition status_text :: "instant \<Rightarrow> canonical_quote option \<Rightarrow> string" where
  "status_text now oq =
     (case oq of None \<Rightarrow> ''unavailable'' | Some q \<Rightarrow> canonical_status_value (effective_status q now))"

section \<open>Short histories and charts\<close>

record series_row =
  sr_timestamp :: instant
  sr_usd :: "pyfloat option"
  sr_toman :: "pyfloat option"
  sr_open :: "pyfloat option"
  sr_close :: "pyfloat option"
  sr_high :: "pyfloat option"
  sr_low :: "pyfloat option"

definition minute_of :: "instant \<Rightarrow> instant" where
  "minute_of t = t - t mod 60000000"

text \<open>The quotes come newest first and are entered oldest first: the newest of a minute stays.\<close>

definition by_minute :: "canonical_quote list \<Rightarrow> (instant \<times> pyfloat) list" where
  "by_minute quotes = map (\<lambda>q. (minute_of (c_canonical_at q), float_of (c_price q))) quotes"

definition short_history :: "canonical_quote list result \<Rightarrow> canonical_quote list result \<Rightarrow> series_row list" where
  "short_history usd toman =
     (case (usd, toman) of
        (Inr us, Inr ts) \<Rightarrow>
          let buckets = sort (remdups (map fst (by_minute us @ by_minute ts)))
          in map (\<lambda>t. \<lparr>sr_timestamp = t, sr_usd = map_of (by_minute us) t, sr_toman = map_of (by_minute ts) t,
                   sr_open = None, sr_close = None, sr_high = None, sr_low = None\<rparr>)
               (drop (length buckets - 48) buckets)
      | _ \<Rightarrow> [])"

definition point_at :: "instant \<Rightarrow> chart_point list \<Rightarrow> chart_point option" where
  "point_at t points = List.find (\<lambda>p. cp_timestamp p = t) (rev points)"

definition merge_history :: "chart_point list \<Rightarrow> chart_point list \<Rightarrow> series_row list" where
  "merge_history usd toman =
     map (\<lambda>t. let u = point_at t usd; m = point_at t toman in
            \<lparr>sr_timestamp = t, sr_usd = map_option cp_value u, sr_toman = map_option cp_value m,
             sr_open = map_option cp_open m, sr_close = map_option cp_close m, sr_high = map_option cp_high m,
             sr_low = map_option cp_low m\<rparr>)
       (sort (remdups (map cp_timestamp usd @ map cp_timestamp toman)))"

record legacy_history =
  lh_asset :: string
  lh_timeframe :: string
  lh_status :: string
  lh_points :: "series_row list"

text \<open>Both charts are read, and each asks for what it lacks.\<close>

definition get_history ::
  "chart_env \<Rightarrow> 's benv \<Rightarrow> string \<Rightarrow> string \<Rightarrow> 's bworld \<Rightarrow> legacy_history result \<times> 's bworld" where
  "get_history ce env asset timeframe w =
     (let normalized = lower asset in
      if map_of legacy_labels normalized = None then (Inl (ValueError ''Unknown asset''), w)
      else if timeframes timeframe = None then (Inl (ValueError ''Unsupported timeframe''), w)
      else
        case (legacy_id normalized ''usd'', legacy_id normalized ''toman'') of
          (Inr usd_id, Inr toman_id) \<Rightarrow>
            (let u = canonical_history ce env usd_id timeframe w; t = canonical_history ce env toman_id timeframe (snd u)
             in (ebind (fst u) (\<lambda>usd. ebind (fst t) (\<lambda>toman.
                   Inr \<lparr>lh_asset = normalized, lh_timeframe = timeframe,
                        lh_status = (if ''partial'' \<in> {hr_status usd, hr_status toman} then ''partial'' else ''complete''),
                        lh_points = merge_history (hr_points usd) (hr_points toman)\<rparr>)), snd t))
        | (Inl e, _) \<Rightarrow> (Inl e, w)
        | (_, Inl e) \<Rightarrow> (Inl e, w))"

section \<open>The prices\<close>

text \<open>The clock is read for the age, the status and the policy of each of the two quotes.\<close>

record asset_clock =
  ac_age_usd :: instant
  ac_age_toman :: instant
  ac_status_usd :: instant
  ac_status_toman :: instant
  ac_policy_usd :: instant
  ac_policy_toman :: instant

record asset_payload =
  ap_fields :: dict
  ap_unit_usd :: unit_descriptor
  ap_unit_toman :: unit_descriptor
  ap_summary_usd :: dict
  ap_summary_toman :: dict
  ap_history :: "series_row list"

definition stale_minutes :: "(instant \<times> canonical_quote option) list \<Rightarrow> pyval" where
  "stale_minutes quotes =
     (let ages = concat (map (\<lambda>(now, q). case q of None \<Rightarrow> [] | Some c \<Rightarrow> [(now - c_observed_at c) div 60000000]) quotes)
      in if ages = [] then PNone else PInt (Max (set ages)))"

definition asset_change :: "canonical_quote option \<Rightarrow> canonical_quote option \<Rightarrow> rat option" where
  "asset_change usd toman =
     (case toman of Some t \<Rightarrow> c_change_24h t | None \<Rightarrow> (case usd of Some u \<Rightarrow> c_change_24h u | None \<Rightarrow> None))"

definition asset_fields :: "string \<Rightarrow> string \<Rightarrow> string \<Rightarrow> asset_clock \<Rightarrow> canonical_quote option \<Rightarrow> canonical_quote option \<Rightarrow> dict" where
  "asset_fields asset usd_id toman_id clock usd toman =
     (let change = asset_change usd toman in
      map_of
        [(''asset'', PStr asset), (''label_en'', PStr (or_text (map_of legacy_labels asset) [])),
         (''price_usd'', number_or_none (map_option c_price usd)), (''price_toman'', number_or_none (map_option c_price toman)),
         (''instrument_id_usd'', PStr usd_id), (''instrument_id_toman'', PStr toman_id),
         (''change_percent_usd'', number_or_none (Option.bind usd c_change_24h)),
         (''change_percent_toman'', number_or_none (Option.bind toman c_change_24h)),
         (''change_percent'', number_or_none change),
         (''trend'', PStr (case change of None \<Rightarrow> ''neutral'' | Some c \<Rightarrow> if c \<ge> 0 then ''up'' else ''down'')),
         (''source_usd'', PStr (public_source usd)), (''source_toman'', PStr (public_source toman)),
         (''usd_status'', PStr (status_text (ac_status_usd clock) usd)),
         (''toman_status'', PStr (status_text (ac_status_toman clock) toman)),
         (''stale_minutes'', stale_minutes [(ac_age_usd clock, usd), (ac_age_toman clock, toman)]),
         (''chart_error'', PBool (usd = None \<and> toman = None))]
      ++ quote_policy_fields ''usd'' (ac_policy_usd clock) usd ++ quote_policy_fields ''toman'' (ac_policy_toman clock) toman)"

definition asset_payload_of ::
  "instrument_definition list \<Rightarrow> quote_table \<Rightarrow> asset_clock \<Rightarrow> series_row list \<Rightarrow> string \<Rightarrow> asset_payload result" where
  "asset_payload_of defs snapshots clock history asset =
     ebind (legacy_id asset ''usd'') (\<lambda>usd_id.
     ebind (legacy_id asset ''toman'') (\<lambda>toman_id.
     ebind (unit_descriptor_of defs usd_id) (\<lambda>unit_usd.
     ebind (unit_descriptor_of defs toman_id) (\<lambda>unit_toman.
     let usd = snapshots usd_id; toman = snapshots toman_id in
     Inr \<lparr>ap_fields = asset_fields asset usd_id toman_id clock usd toman, ap_unit_usd = unit_usd, ap_unit_toman = unit_toman,
          ap_summary_usd = policy_summary usd, ap_summary_toman = policy_summary toman, ap_history = history\<rparr>))))"

text \<open>\<open>get_prices\<close>: the short histories are read before the quotes.\<close>

record price_clock =
  pk_read :: instant
  pk_asset :: "string \<Rightarrow> asset_clock"
  pk_now :: instant

record prices_payload =
  pp_refreshed_at :: instant
  pp_assets :: "asset_payload list"

definition short_history_of :: "('s, 'p) senv \<Rightarrow> canonical_store \<Rightarrow> string \<Rightarrow> series_row list result" where
  "short_history_of env st asset =
     ebind (legacy_id asset ''usd'') (\<lambda>usd_id. ebind (legacy_id asset ''toman'') (\<lambda>toman_id.
     let read = (\<lambda>iid. if sv_ok env ReadRecent then recent_canonical (sv_now env) 48 iid st
                  else Inl (RedisUnavailable ''Pricing cache read failed''))
     in Inr (short_history (read usd_id) (read toman_id))))"

definition quotes_of :: "instrument_definition list \<Rightarrow> quote_table \<Rightarrow> canonical_quote list" where
  "quotes_of defs snapshots = List.map_filter (\<lambda>d. snapshots (i_instrument_id d)) defs"

definition refreshed_at :: "instant \<Rightarrow> canonical_quote list \<Rightarrow> instant" where
  "refreshed_at now quotes = (if quotes = [] then now else Max (set (map c_canonical_at quotes)))"

definition build_prices ::
  "instrument_definition list \<Rightarrow> quote_table \<Rightarrow> (string \<Rightarrow> series_row list) \<Rightarrow> price_clock \<Rightarrow> prices_payload result" where
  "build_prices defs snapshots histories clock =
     ebind (emap (\<lambda>asset. asset_payload_of defs snapshots (pk_asset clock asset) (histories asset) asset) legacy_assets) (\<lambda>assets.
     Inr \<lparr>pp_refreshed_at = refreshed_at (pk_now clock) (quotes_of defs snapshots), pp_assets = assets\<rparr>)"

definition get_prices :: "('s, 'p) senv \<Rightarrow> price_clock \<Rightarrow> canonical_store \<Rightarrow> prices_payload result" where
  "get_prices env clock st =
     ebind (emap (short_history_of env st) legacy_assets) (\<lambda>series.
     ebind (get_all_canonical (env\<lparr>sv_now := pk_read clock\<rparr>) st) (\<lambda>snapshots.
     build_prices (sv_defs env) snapshots
       (\<lambda>a. case map_of (zip legacy_assets series) a of None \<Rightarrow> [] | Some rows \<Rightarrow> rows) clock))"

section \<open>Health and start-up checks\<close>

record chain_health =
  ch_status :: string
  ch_source :: string
  ch_updated_at :: "instant option"
  ch_error :: "string option"

definition chain_health_of :: "instant \<Rightarrow> canonical_quote option \<Rightarrow> chain_health" where
  "chain_health_of now oq =
     \<lparr>ch_status = status_text now oq, ch_source = public_source oq, ch_updated_at = map_option c_canonical_at oq,
      ch_error = (if oq = None then Some ''No canonical snapshot'' else None)\<rparr>"

record startup_state =
  su_required_keys :: "string list"
  su_missing_keys :: "string list"
  su_optional_keys :: "string list"
  su_missing_optional_keys :: "string list"
  su_strict :: bool
  su_without_direct_source :: "string list"
  su_unservable :: "string list"
  su_ok :: bool

definition startup_checks ::
  "provider_definition list \<Rightarrow> instrument_definition list \<Rightarrow> app_settings \<Rightarrow> bool \<Rightarrow> startup_state" where
  "startup_checks ps defs st strict =
     (let coverage = instrument_source_coverage ps defs st;
          missing_sources = missing_source_instruments ps defs st;
          unservable = sort (map fst (filter (\<lambda>(_, row). cov_unservable row) coverage));
          keys = sort (remdups (filter (\<lambda>k. k \<noteq> []) (List.map_filter p_api_key_setting ps)));
          missing = filter (\<lambda>k. \<not> setting_present st k) keys
      in \<lparr>su_required_keys = (if strict then keys else []), su_missing_keys = (if strict then missing else []),
          su_optional_keys = (if strict then [] else keys), su_missing_optional_keys = (if strict then [] else missing),
          su_strict = strict, su_without_direct_source = missing_sources, su_unservable = unservable,
          su_ok = (unservable = [] \<and> \<not> (strict \<and> missing \<noteq> []))\<rparr>)"

record legacy_health =
  le_last_refresh_at :: "instant option"
  le_startup :: startup_state
  le_chains :: "(string \<times> chain_health \<times> chain_health) list"

definition legacy_health_of ::
  "('s, 'p) senv \<Rightarrow> bool \<Rightarrow> (string \<Rightarrow> string \<Rightarrow> instant) \<Rightarrow> canonical_store \<Rightarrow> legacy_health result" where
  "legacy_health_of env strict clock st =
     ebind (get_all_canonical env st) (\<lambda>snapshots.
     let quotes = quotes_of (sv_defs env) snapshots in
     ebind (emap (\<lambda>asset.
         ebind (legacy_id asset ''toman'') (\<lambda>toman. ebind (legacy_id asset ''usd'') (\<lambda>usd.
         Inr (asset, chain_health_of (clock asset ''iran'') (snapshots toman),
                chain_health_of (clock asset ''international'') (snapshots usd))))) (map fst legacy_labels)) (\<lambda>chains.
     Inr \<lparr>le_last_refresh_at = (if quotes = [] then None else Some (Max (set (map c_canonical_at quotes)))),
          le_startup = startup_checks (sv_registry env) (sv_defs env) (sv_settings env) strict, le_chains = chains\<rparr>))"

section \<open>The loops\<close>

text \<open>What the loop of the refresh keeps for health routes.\<close>

fun refresh_text :: "refresh_result \<Rightarrow> string" where
  "refresh_text StillFresh = ''fresh''"
| "refresh_text (Refreshed s) = canonical_status_value s"
| "refresh_text Unavailable = ''unavailable''"
| "refresh_text (Failed e) = ''failed''"
| "refresh_text SuspendedNoRedis = ''suspended_redis_unavailable''"

record refresh_state =
  rf_state :: string
  rf_last_started_at :: "instant option"
  rf_last_completed_at :: "instant option"
  rf_failed :: bool
  rf_result_counts :: "(string \<times> nat) list"

definition pricing_available :: "(string \<times> refresh_result) list \<Rightarrow> bool" where
  "pricing_available results \<longleftrightarrow> \<not> (results \<noteq> [] \<and> list_all (\<lambda>r. snd r = SuspendedNoRedis) results)"

definition result_counts :: "(string \<times> refresh_result) list \<Rightarrow> (string \<times> nat) list" where
  "result_counts results =
     (let texts = map (refresh_text \<circ> snd) results
      in map (\<lambda>t. (t, length (filter (\<lambda>x. x = t) texts))) (sort (remdups texts)))"

definition usable_results :: "(string \<times> nat) list \<Rightarrow> nat" where
  "usable_results counts =
     sum_list (map snd (filter (\<lambda>c. fst c \<in> {''live'', ''confirmed'', ''fresh_cache'', ''fresh'', ''derived_fallback''}) counts))"

text \<open>One turn of the loop: whether prices are available, and the state.\<close>

definition refresh_turn ::
  "instant \<Rightarrow> instant \<Rightarrow> (string \<times> refresh_result) list result \<Rightarrow> bool \<times> refresh_state \<Rightarrow> bool \<times> refresh_state" where
  "refresh_turn started ended outcome s =
     (let running = (snd s)\<lparr>rf_state := ''running'', rf_last_started_at := Some started, rf_failed := False\<rparr> in
      case outcome of
        Inl _ \<Rightarrow> (fst s, running\<lparr>rf_state := ''failed'', rf_last_completed_at := Some ended, rf_failed := True\<rparr>)
      | Inr results \<Rightarrow>
          let counts = result_counts results
          in (pricing_available results,
              running\<lparr>rf_state := (if usable_results counts > 0 then ''healthy'' else ''degraded''),
                 rf_last_completed_at := Some ended, rf_result_counts := counts\<rparr>))"

definition refresh_health :: "bool \<Rightarrow> bool \<Rightarrow> instant \<Rightarrow> int \<Rightarrow> refresh_state \<Rightarrow> refresh_state" where
  "refresh_health running stopped now interval s =
     (let s1 = (if running \<and> stopped then s\<lparr>rf_state := ''failed'', rf_failed := True\<rparr> else s)
      in case (case rf_last_completed_at s of None \<Rightarrow> rf_last_started_at s | Some t \<Rightarrow> Some t) of
           None \<Rightarrow> s1
         | Some t \<Rightarrow> if running \<and> now - t > seconds (max 120 (interval * 3)) then s1\<lparr>rf_state := ''stalled''\<rparr> else s1)"

text \<open>The assets that alerts are evaluated on: those of the old clients, and every instrument under its own name.\<close>

record alert_clock =
  ak_prices :: price_clock
  ak_read :: instant
  ak_status :: "string \<Rightarrow> instant"
  ak_policy :: "string \<Rightarrow> instant"
  ak_evaluated :: instant

definition explicit_asset :: "instrument_definition list \<Rightarrow> alert_clock \<Rightarrow> string \<times> canonical_quote \<Rightarrow> dict result" where
  "explicit_asset defs clock entry =
     (case entry of (iid, q) \<Rightarrow>
       ebind (get_instrument defs iid) (\<lambda>d.
       let cur = lower (currency_value (i_quote_currency d)) in
       Inr (map_of [(''asset'', PStr iid), (''price_'' @ cur, number_of (c_price q)),
              (cur @ ''_status'', PStr (status_text (ak_status clock iid) (Some q)))]
            ++ quote_policy_fields cur (ak_policy clock iid) (Some q))))"

definition entries_of :: "instrument_definition list \<Rightarrow> quote_table \<Rightarrow> (string \<times> canonical_quote) list" where
  "entries_of defs snapshots =
     List.map_filter (\<lambda>d. map_option (Pair (i_instrument_id d)) (snapshots (i_instrument_id d))) defs"

definition alert_assets :: "('s, 'p) senv \<Rightarrow> alert_clock \<Rightarrow> canonical_store \<Rightarrow> canonical_store \<Rightarrow> dict list result" where
  "alert_assets env clock st later =
     ebind (get_prices env (ak_prices clock) st) (\<lambda>prices.
     ebind (get_all_canonical (env\<lparr>sv_now := ak_read clock\<rparr>) later) (\<lambda>snapshots.
     ebind (emap (explicit_asset (sv_defs env) clock) (entries_of (sv_defs env) snapshots)) (\<lambda>explicit.
     Inr (map ap_fields (pp_assets prices) @ explicit))))"

text \<open>One turn of the loop of alerts; \<open>later\<close> is the store at the second read.\<close>

definition alert_turn ::
  "('s, 'p) senv \<Rightarrow> alert_clock \<Rightarrow> (string \<rightharpoonup> ast_node) \<Rightarrow> delivery_settings \<Rightarrow> int set \<Rightarrow> bool \<Rightarrow> canonical_store \<Rightarrow> canonical_store
   \<Rightarrow> alert_db \<Rightarrow> alert_db" where
  "alert_turn env clock parse settings locked available st later db =
     (if \<not> available then db
      else case alert_assets env clock st later of
             Inl _ \<Rightarrow> db
           | Inr assets \<Rightarrow> snd (evaluate_and_enqueue parse settings assets (ak_evaluated clock) locked db))"

section \<open>What an asset shows\<close>

text \<open>The entries for a currency show a quote, read at some times.\<close>

definition shows_quote :: "dict \<Rightarrow> string \<Rightarrow> canonical_quote \<Rightarrow> instant \<Rightarrow> instant \<Rightarrow> bool" where
  "shows_quote f cur q t1 t2 \<longleftrightarrow> f (cur @ ''_status'') = Some (PStr (status_text t1 (Some q)))
     \<and> f (''price_'' @ cur) = Some (number_of (c_price q))
     \<and> f (cur @ ''_is_persisted'') = Some (PBool (c_is_persisted q))
     \<and> f (cur @ ''_live_eligible'') = Some (PBool (t2 \<le> c_valid_until q))
     \<and> f (cur @ ''_expired'') = Some (PBool (effective_status q t2 = CS_EXPIRED))
     \<and> f (cur @ ''_is_suspicious'') = Some (PBool (effective_status q t2 \<in> {CS_SUSPICIOUS, CS_SUSPICIOUS_UNCONFIRMED, CS_VERIFYING}))"

definition shows_nothing :: "dict \<Rightarrow> string \<Rightarrow> bool" where
  "shows_nothing f cur \<longleftrightarrow> f (cur @ ''_status'') \<in> {None, Some (PStr ''unavailable'')} \<and> f ''status'' = None"

lemma prefixed_lookup:
  "map_of (map (\<lambda>(k, v). (p @ ''_'' @ k, v)) es) key
     = (if take (length p + 1) key = p @ ''_'' then map_of es (drop (length p + 1) key) else None)"
proof -
  have l: "length p + 1 = length (p @ ''_'')"
    by simp
  have "p @ ''_'' @ k = key \<longleftrightarrow> take (length p + 1) key = p @ ''_'' \<and> drop (length p + 1) key = k" for k
    unfolding l append_eq_conv_conj[of "p @ ''_''" k key, unfolded append_assoc]
    by (rule arg_cong2[where f = conj, OF eq_commute eq_commute])
  note key_eq = this
  show ?thesis
  proof (induction es)
    case (Cons e es)
    obtain k v where e: "e = (k, v)"
      by fastforce
    have l: "map_of (map (\<lambda>(k, v). (p @ ''_'' @ k, v)) (e # es)) key
        = (if p @ ''_'' @ k = key then Some v else map_of (map (\<lambda>(k, v). (p @ ''_'' @ k, v)) es) key)"
      by (simp add: e eq_commute)
    have r: "map_of (e # es) x = (if x = k then Some v else map_of es x)" for x
      by (simp add: e)
    show ?case
      unfolding l r Cons.IH key_eq
      by (cases "take (length p + 1) key = p @ ''_''"; cases "drop (length p + 1) key = k") simp_all
  qed simp
qed

lemma policy_lookup:
  "quote_policy_fields p now oq key
     = (if take (length p + 1) key = p @ ''_'' then map_of (policy_entries now oq) (drop (length p + 1) key) else None)"
  by (simp only: quote_policy_fields_def prefixed_lookup)

lemma policy_entry_Some:
  "map_of (policy_entries now (Some q)) ''is_persisted'' = Some (PBool (c_is_persisted q))"
  "map_of (policy_entries now (Some q)) ''live_eligible'' = Some (PBool (now \<le> c_valid_until q))"
  "map_of (policy_entries now (Some q)) ''expired'' = Some (PBool (effective_status q now = CS_EXPIRED))"
  "map_of (policy_entries now (Some q)) ''is_suspicious''
     = Some (PBool (effective_status q now \<in> {CS_SUSPICIOUS, CS_SUSPICIOUS_UNCONFIRMED, CS_VERIFYING}))"
  by (simp_all add: policy_entries_def Let_def)

lemma policy_entry_status: "map_of (policy_entries now oq) ''status'' = None"
  by (cases oq) (simp_all add: policy_entries_def Let_def)

lemma asset_fields_show:
  assumes "f = asset_fields asset usd_id toman_id clock usd toman"
  shows "f ''asset'' = Some (PStr asset)"
    "usd = Some q \<Longrightarrow> shows_quote f ''usd'' q (ac_status_usd clock) (ac_policy_usd clock)"
    "usd = None \<Longrightarrow> shows_nothing f ''usd''"
    "toman = Some r \<Longrightarrow> shows_quote f ''toman'' r (ac_status_toman clock) (ac_policy_toman clock)"
    "toman = None \<Longrightarrow> shows_nothing f ''toman''"
proof -
  note at = asset_fields_def Let_def policy_lookup policy_entry_Some policy_entry_status map_add_def
  show "f ''asset'' = Some (PStr asset)"
    unfolding assms by (simp add: at)
  show "shows_quote f ''usd'' q (ac_status_usd clock) (ac_policy_usd clock)" if "usd = Some q"
    unfolding assms shows_quote_def by (simp add: that at number_or_none_def)
  show "shows_nothing f ''usd''" if "usd = None"
    unfolding assms shows_nothing_def by (simp add: that at status_text_def)
  show "shows_quote f ''toman'' r (ac_status_toman clock) (ac_policy_toman clock)" if "toman = Some r"
    unfolding assms shows_quote_def by (simp add: that at number_or_none_def)
  show "shows_nothing f ''toman''" if "toman = None"
    unfolding assms shows_nothing_def by (simp add: that at status_text_def)
qed

lemma explicit_asset_shows:
  assumes "explicit_asset defs clock (iid, q) = Inr f"
  shows "f ''asset'' = Some (PStr iid)"
    "\<exists>d. get_instrument defs iid = Inr d
       \<and> shows_quote f (lower (currency_value (i_quote_currency d))) q (ak_status clock iid) (ak_policy clock iid)
       \<and> (\<forall>cur\<in>{''usd'', ''toman''}. cur \<noteq> lower (currency_value (i_quote_currency d)) \<longrightarrow> shows_nothing f cur)"
proof -
  obtain d where d: "get_instrument defs iid = Inr d"
      "f = map_of [(''asset'', PStr iid), (''price_'' @ lower (currency_value (i_quote_currency d)), number_of (c_price q)),
              (lower (currency_value (i_quote_currency d)) @ ''_status'', PStr (status_text (ak_status clock iid) (Some q)))]
            ++ quote_policy_fields (lower (currency_value (i_quote_currency d))) (ak_policy clock iid) (Some q)"
    using assms by (auto simp: explicit_asset_def ebind_Inr Let_def)
  have c: "lower (currency_value (i_quote_currency d)) = (case i_quote_currency d of USD \<Rightarrow> ''usd'' | TOMAN \<Rightarrow> ''toman'')"
    by (cases "i_quote_currency d") (simp_all, code_simp+)
  show "f ''asset'' = Some (PStr iid)"
    unfolding d(2) c by (cases "i_quote_currency d")
      (simp_all add: policy_lookup policy_entry_Some policy_entry_status map_add_def)
  have "shows_quote f (lower (currency_value (i_quote_currency d))) q (ak_status clock iid) (ak_policy clock iid)"
    unfolding d(2) c shows_quote_def by (cases "i_quote_currency d")
      (simp_all add: policy_lookup policy_entry_Some policy_entry_status map_add_def)
  moreover have "\<forall>cur\<in>{''usd'', ''toman''}. cur \<noteq> lower (currency_value (i_quote_currency d)) \<longrightarrow> shows_nothing f cur"
    unfolding d(2) c shows_nothing_def by (cases "i_quote_currency d")
      (simp_all add: policy_lookup policy_entry_Some policy_entry_status map_add_def)
  ultimately show "\<exists>d. get_instrument defs iid = Inr d
       \<and> shows_quote f (lower (currency_value (i_quote_currency d))) q (ak_status clock iid) (ak_policy clock iid)
       \<and> (\<forall>cur\<in>{''usd'', ''toman''}. cur \<noteq> lower (currency_value (i_quote_currency d)) \<longrightarrow> shows_nothing f cur)"
    using d(1) by blast
qed

lemma lower_status [simp]: "lower (canonical_status_value s) = canonical_status_value s"
  by (cases s) (simp_all, code_simp+)

lemma status_value_inj: "canonical_status_value s = canonical_status_value t \<longleftrightarrow> s = t"
  by (cases s; cases t) simp_all

lemma allowed_canonical:
  assumes "canonical_status_value (effective_status q t) \<in> set (allowed_statuses mode)"
  shows "canonical_status_value (c_status q) \<in> set (allowed_statuses mode)"
  using assms by (auto simp: effective_status_def allowed_statuses_def split: if_splits)

lemma shown_asset_status:
  assumes "shows_quote f (if cur = ''usd'' then ''usd'' else ''toman'') q t1 t2"
  shows "asset_status f cur = canonical_status_value (effective_status q t1)"
proof -
  have "canonical_status_value s \<noteq> []" for s
    by (cases s) simp_all
  then show ?thesis
    using assms by (auto simp: asset_status_def shows_quote_def dict_get_def or_val_def status_text_def)
qed

lemma nothing_asset_status:
  assumes "shows_nothing f (if cur = ''usd'' then ''usd'' else ''toman'')"
  shows "asset_status f cur \<notin> set (allowed_statuses mode)"
proof -
  have "lower ''unavailable'' = ''unavailable''"
    by code_simp
  then have "asset_status f cur = ''unavailable''"
    using assms by (auto simp: asset_status_def shows_nothing_def dict_get_def or_val_def)
  then show ?thesis
    by (simp add: allowed_statuses_def)
qed

lemma shown_flag:
  assumes "f ((if cur = ''usd'' then ''usd'' else ''toman'') @ ''_'' @ key) = Some (PBool x)"
  shows "asset_policy_flag f cur key dflt = Some x"
  using assms by (auto simp: asset_policy_flag_def asset_policy_value_def dict_get_def split: if_splits)

lemma shown_flags:
  assumes "shows_quote f (if cur = ''usd'' then ''usd'' else ''toman'') q t1 t2"
  shows "asset_policy_flag f cur ''is_persisted'' d = Some (c_is_persisted q)"
    "asset_policy_flag f cur ''live_eligible'' d = Some (t2 \<le> c_valid_until q)"
  using assms by (intro shown_flag; simp add: shows_quote_def)+

text \<open>What every asset of the list is.\<close>

definition asset_of_quote :: "instant \<Rightarrow> quote_table \<Rightarrow> quote_table \<Rightarrow> string \<Rightarrow> string \<Rightarrow> dict \<Rightarrow> bool" where
  "asset_of_quote now first later name cur f \<longleftrightarrow> f ''asset'' = Some (PStr name)
     \<and> (shows_nothing f cur
        \<or> (\<exists>snapshots\<in>{first, later}. \<exists>iid q t1 t2. snapshots iid = Some q \<and> now \<le> t2 \<and> shows_quote f cur q t1 t2
             \<and> (iid = name \<or> map_of legacy_asset_mapping (name, cur) = Some iid)))"

definition clock_from :: "instant \<Rightarrow> alert_clock \<Rightarrow> bool" where
  "clock_from now clock \<longleftrightarrow> (\<forall>x. now \<le> ac_policy_usd (pk_asset (ak_prices clock) x)
     \<and> now \<le> ac_policy_toman (pk_asset (ak_prices clock) x) \<and> now \<le> ak_policy clock x)"

lemma legacy_asset_of_quote:
  assumes "asset_payload_of defs snapshots (pk_asset (ak_prices clock) asset) h asset = Inr p" "clock_from now clock"
    and "cur \<in> {''usd'', ''toman''}"
  shows "asset_of_quote now snapshots later asset cur (ap_fields p)"
proof -
  obtain u m where i: "legacy_id asset ''usd'' = Inr u" "legacy_id asset ''toman'' = Inr m"
    and f: "ap_fields p = asset_fields asset u m (pk_asset (ak_prices clock) asset) (snapshots u) (snapshots m)"
    using assms(1) by (auto simp: asset_payload_of_def ebind_Inr Let_def)
  note s = asset_fields_show[OF f]
  have m: "map_of legacy_asset_mapping (asset, ''usd'') = Some u" "map_of legacy_asset_mapping (asset, ''toman'') = Some m"
    using i by (auto simp: legacy_id_def split: option.splits)
  show ?thesis
  proof (cases "cur = ''usd''")
    case True
    then show ?thesis
      using s(1-3) m(1) assms(2) unfolding asset_of_quote_def clock_from_def by (cases "snapshots u") blast+
  next
    case False
    then have "cur = ''toman''"
      using assms(3) by simp
    then show ?thesis
      using s(1,4,5) m(2) assms(2) unfolding asset_of_quote_def clock_from_def by (cases "snapshots m") blast+
  qed
qed

lemma explicit_asset_of_quote:
  assumes "explicit_asset defs clock (iid, q) = Inr f" "later iid = Some q" "clock_from now clock" "cur \<in> {''usd'', ''toman''}"
  shows "asset_of_quote now first later iid cur f"
proof -
  obtain d :: instrument_definition where
    d: "shows_quote f (lower (currency_value (i_quote_currency d))) q (ak_status clock iid) (ak_policy clock iid)"
      "cur \<noteq> lower (currency_value (i_quote_currency d)) \<Longrightarrow> shows_nothing f cur"
    using explicit_asset_shows(2)[OF assms(1)] assms(4) by blast
  have n: "now \<le> ak_policy clock iid"
    using assms(3) by (simp add: clock_from_def)
  have "shows_nothing f cur \<or> shows_quote f cur q (ak_status clock iid) (ak_policy clock iid)"
    using d by (cases "cur = lower (currency_value (i_quote_currency d))") simp_all
  then show ?thesis
    unfolding asset_of_quote_def using explicit_asset_shows(1)[OF assms(1)] assms(2) n by blast
qed

lemma entries_of_in: "(iid, q) \<in> set (entries_of defs snapshots) \<Longrightarrow> snapshots iid = Some q"
  by (auto simp: entries_of_def map_filter_def)

lemma alert_assets_quotes:
  assumes "alert_assets env clock st later = Inr assets"
  obtains first second where "get_all_canonical (env\<lparr>sv_now := pk_read (ak_prices clock)\<rparr>) st = Inr first"
    "get_all_canonical (env\<lparr>sv_now := ak_read clock\<rparr>) later = Inr second"
    "\<forall>f\<in>set assets. \<forall>now cur. clock_from now clock \<longrightarrow> cur \<in> {''usd'', ''toman''} \<longrightarrow>
       (\<exists>name. asset_of_quote now first second name cur f)"
proof -
  obtain prices second explicit where p: "get_prices env (ak_prices clock) st = Inr prices"
    and s: "get_all_canonical (env\<lparr>sv_now := ak_read clock\<rparr>) later = Inr second"
    and e: "emap (explicit_asset (sv_defs env) clock) (entries_of (sv_defs env) second) = Inr explicit"
    and a: "assets = map ap_fields (pp_assets prices) @ explicit"
    using assms by (auto simp: alert_assets_def ebind_Inr)
  obtain first hist where f: "get_all_canonical (env\<lparr>sv_now := pk_read (ak_prices clock)\<rparr>) st = Inr first"
    and b: "emap (\<lambda>asset. asset_payload_of (sv_defs env) first (pk_asset (ak_prices clock) asset) (hist asset) asset)
        legacy_assets = Inr (pp_assets prices)"
    using p by (auto simp: get_prices_def build_prices_def ebind_Inr)
  have "\<exists>name. asset_of_quote now first second name cur x"
    if x: "x \<in> set assets" and n: "clock_from now clock" "cur \<in> {''usd'', ''toman''}" for x now cur
  proof (cases "x \<in> set explicit")
    case True
    then obtain iid q where i: "(iid, q) \<in> set (entries_of (sv_defs env) second)" "explicit_asset (sv_defs env) clock (iid, q) = Inr x"
      using emap_Inr_in[OF e] by fastforce
    have "second iid = Some q"
      by (rule entries_of_in[OF i(1)])
    then have "asset_of_quote now first second iid cur x"
      by (intro explicit_asset_of_quote[OF i(2)] n)
    then show ?thesis
      by blast
  next
    case False
    then obtain p where "p \<in> set (pp_assets prices)" "x = ap_fields p"
      using x a by auto
    then show ?thesis
      using emap_Inr_in[OF b] legacy_asset_of_quote[OF _ n] by blast
  qed
  then show ?thesis
    using that[OF f s] by blast
qed

text \<open>A quote that is read is one its instrument accepts.\<close>

lemma read_snapshot_accepts:
  assumes "read_snapshot database cached definitions keys = Inr table" "table iid = Some q"
  shows "\<exists>i. definitions iid = Some i \<and> i_enabled i \<and> accepts i (c_price q)"
  using assms
proof (induction keys arbitrary: table)
  case (Cons key keys)
  obtain d c rest where r: "read_snapshot database cached definitions keys = Inr rest"
    and t: "table = (case newer_of d c of None \<Rightarrow> rest | Some q \<Rightarrow> (case definitions key of None \<Rightarrow> rest
        | Some i \<Rightarrow> (case current_policy i q of None \<Rightarrow> rest | Some a \<Rightarrow> rest(key \<mapsto> a))))"
    using Cons.prems(1) by (auto simp: ebind_Inr)
  show ?case
  proof (cases "rest iid = Some q")
    case True
    then show ?thesis
      using Cons.IH[OF r] by simp
  next
    case False
    then obtain i q0 where "definitions iid = Some i" "current_policy i q0 = Some q"
      using Cons.prems(2) t by (auto split: option.splits if_splits)
    then show ?thesis
      by (auto simp: current_policy_def Let_def split: if_splits)
  qed
qed simp

definition in_force :: "('s, 'p) senv \<Rightarrow> string \<Rightarrow> canonical_quote \<Rightarrow> bool" where
  "in_force env iid q \<longleftrightarrow>
     (case operational_instruments (sv_loads env) (sv_defs env) (sv_op_db env) (map i_instrument_id (sv_defs env)) of
        Inl _ \<Rightarrow> False
      | Inr m \<Rightarrow> (case m iid of None \<Rightarrow> False | Some i \<Rightarrow> i_enabled i \<and> accepts i (c_price q)))"

lemma get_all_in_force:
  assumes "get_all_canonical (env\<lparr>sv_now := now\<rparr>) st = Inr table" "table iid = Some q"
  shows "in_force env iid q"
proof -
  let ?defs = "map i_instrument_id (sv_defs env)"
  obtain m d c where m: "operational_instruments (sv_loads env) (sv_defs env) (sv_op_db env) ?defs = Inr m"
    and t: "read_snapshot d c m ?defs = Inr table"
    using assms(1) by (auto simp: get_all_canonical_def Let_def ebind_Inr)
  show ?thesis
    using read_snapshot_accepts[OF t assms(2)] by (auto simp: in_force_def m)
qed

section \<open>Properties\<close>

text \<open>Claim C4. An alert on a price never fires on anything but a canonical price in force. Behind a condition that is met
  stands a quote that one of the two reads of the current prices gave (that of the assets of the old clients, or that of the
  instruments), for the alert's instrument or for the instrument that the asset of the old clients names in the
  currency of the alert. This very quote is persisted, was still live when it was looked at, has a status the alert
  allows, belongs to an enabled instrument within whose bounds it is, and reaches the target.\<close>

theorem alert_fires_on_price_in_force:
  assumes "alert_assets env clock st later = Inr assets" and "clock_from now clock"
    and "should_trigger_model parse a assets = Inr True" and "al_alert_type a \<noteq> ''formula''"
  shows "\<exists>iid q t. (\<exists>table. table iid = Some q \<and> (get_all_canonical (env\<lparr>sv_now := pk_read (ak_prices clock)\<rparr>) st = Inr table
         \<or> get_all_canonical (env\<lparr>sv_now := ak_read clock\<rparr>) later = Inr table))
    \<and> in_force env iid q \<and> c_is_persisted q \<and> now \<le> c_valid_until q
    \<and> canonical_status_value (c_status q) \<in> set (allowed_statuses (al_price_source_mode a))
    \<and> (iid = alert_asset_id a
       \<or> map_of legacy_asset_mapping (alert_asset_id a, if al_currency_mode a = ''usd'' then ''usd'' else ''toman'') = Some iid)
    \<and> al_target_price a = Some t
    \<and> (al_condition a = ''above'' \<and> float_leq t (float_of (c_price q)) \<or> al_condition a = ''below'' \<and> float_leq (float_of (c_price q)) t)"
proof -
  let ?cur = "if al_currency_mode a = ''usd'' then ''usd'' else ''toman''"
  obtain f x t where f: "f \<in> set assets" "f ''asset'' = Some (PStr (alert_asset_id a))"
    and ok: "asset_status f (al_currency_mode a) \<in> set (allowed_statuses (al_price_source_mode a))"
      "asset_policy_flag f (al_currency_mode a) ''live_eligible'' False = Some True"
      "asset_policy_flag f (al_currency_mode a) ''is_persisted'' False = Some True"
    and t: "al_target_price a = Some t"
      "finite_number (dict_get f (if al_currency_mode a = ''usd'' then ''price_usd'' else ''price_toman'') PNone) = Inr (Some x)"
      "al_condition a = ''above'' \<and> float_leq t (FFin x) \<or> al_condition a = ''below'' \<and> float_leq (FFin x) t"
    using price_alert_justified[OF assms(3,4)] by blast
  obtain first second where r: "get_all_canonical (env\<lparr>sv_now := pk_read (ak_prices clock)\<rparr>) st = Inr first"
      "get_all_canonical (env\<lparr>sv_now := ak_read clock\<rparr>) later = Inr second"
    and shown: "\<forall>f\<in>set assets. \<forall>now cur. clock_from now clock \<longrightarrow> cur \<in> {''usd'', ''toman''} \<longrightarrow>
       (\<exists>name. asset_of_quote now first second name cur f)"
    by (rule alert_assets_quotes[OF assms(1)])
  have cur: "?cur \<in> {''usd'', ''toman''}"
    by simp
  obtain name where n: "asset_of_quote now first second name ?cur f"
    using shown[rule_format, OF f(1) assms(2) cur] by blast
  then have name: "name = alert_asset_id a"
    using f(2) by (simp add: asset_of_quote_def)
  have "\<not> shows_nothing f ?cur"
    using nothing_asset_status ok(1) by blast
  then obtain snapshots iid q t1 t2 where s: "snapshots \<in> {first, second}" "snapshots iid = Some q" "now \<le> t2"
      "shows_quote f ?cur q t1 t2" "iid = name \<or> map_of legacy_asset_mapping (name, ?cur) = Some iid"
    using n unfolding asset_of_quote_def by blast
  have read: "\<exists>table. table iid = Some q \<and> (get_all_canonical (env\<lparr>sv_now := pk_read (ak_prices clock)\<rparr>) st = Inr table
      \<or> get_all_canonical (env\<lparr>sv_now := ak_read clock\<rparr>) later = Inr table)"
    using r s(1,2) by blast
  have force: "in_force env iid q"
    using get_all_in_force[OF r(1)] get_all_in_force[OF r(2)] s(1,2) by blast
  have live: "c_is_persisted q" "now \<le> c_valid_until q"
    using ok(2,3) shown_flags[OF s(4)] s(3) by simp_all
  have status: "canonical_status_value (c_status q) \<in> set (allowed_statuses (al_price_source_mode a))"
    using ok(1) allowed_canonical unfolding shown_asset_status[OF s(4)] by blast
  have "dict_get f (if al_currency_mode a = ''usd'' then ''price_usd'' else ''price_toman'') PNone = PFloat (float_of (c_price q))"
    using s(4) by (auto simp: shows_quote_def dict_get_def number_of_def split: if_splits)
  then have x: "FFin x = float_of (c_price q)"
    using t(2) by (cases "float_of (c_price q)") simp_all
  show ?thesis
    using read force live status s(5)[unfolded name] t(1) t(3)[unfolded x] by (intro exI[of _ iid] exI[of _ q] exI[of _ t] conjI)
qed

section \<open>Examples\<close>

definition shown_row :: canonical_quote where
  "shown_row = example_canonical\<lparr>c_source_summary := [''source_semantic'' \<mapsto> PStr ''aggregator'']\<rparr>"

definition legacy_names :: "string list" where
  "legacy_names = [''XAU_USD_OZ'', ''GOLD_18K_TOMAN_GRAM'', ''XAG_USD_OZ'', ''SILVER_999_TOMAN_GRAM'', ''USDT_USD'', ''USDT_TOMAN'',
     ''BTC_USD'', ''BTC_TOMAN'']"

definition shown_senv :: "(ttl_store, json) senv" where
  "shown_senv = history_senv\<lparr>sv_defs := map (\<lambda>k. example_instrument\<lparr>i_instrument_id := k\<rparr>) legacy_names\<rparr>"

definition shown_store :: canonical_store where
  "shown_store = empty_store\<lparr>cs_rows := [shown_row]\<rparr>"

definition shown_clock :: alert_clock where
  "shown_clock = \<lparr>ak_prices = \<lparr>pk_read = 3000000, pk_asset = (\<lambda>_. \<lparr>ac_age_usd = 3000000, ac_age_toman = 3000000,
        ac_status_usd = 3000000, ac_status_toman = 3000000, ac_policy_usd = 3000000, ac_policy_toman = 3000000\<rparr>), pk_now = 3000000\<rparr>,
     ak_read = 3000000, ak_status = (\<lambda>_. 3000000), ak_policy = (\<lambda>_. 3000000), ak_evaluated = 3000000\<rparr>"

lemma shown_instruments:
  "k \<in> set legacy_names \<Longrightarrow> get_instrument (sv_defs shown_senv) k = Inr (example_instrument\<lparr>i_instrument_id := k\<rparr>)"
proof -
  have "list_all (\<lambda>k. upper (strip k) = k) legacy_names"
    by code_simp
  moreover have "k \<in> set names \<Longrightarrow> List.find (\<lambda>d. i_instrument_id d = k)
      (map (\<lambda>k. example_instrument\<lparr>i_instrument_id := k\<rparr>) names) = Some (example_instrument\<lparr>i_instrument_id := k\<rparr>)" for names
    by (induction names) auto
  ultimately show "k \<in> set legacy_names \<Longrightarrow> ?thesis"
    by (simp add: get_instrument_def find_instrument_def shown_senv_def list_all_iff)
qed

lemma shown_latest: "latest_all shown_store = [''BTC_USD'' \<mapsto> shown_row]"
proof
  fix k
  have c: "current_row shown_row" "c_instrument_id shown_row = ''BTC_USD''"
    by (simp_all add: current_row_def shown_row_def example_canonical_def json_text_def direct_gold_def coalesce_def)
  have "canonical_create shown_row = Inr shown_row"
    using example_encodable by (simp add: encodable_def canonical_create_iff canonical_key_def shown_row_def valid_canonical_def)
  then show "latest_all shown_store k = [''BTC_USD'' \<mapsto> shown_row] k"
    using c by (cases "k = ''BTC_USD''")
      (simp_all add: latest_all_def latest_canonical_def latest_row_def shown_store_def empty_store_def)
qed

lemma shown_definitions:
  "set ks \<subseteq> set legacy_names \<Longrightarrow> instrument_fallbacks (sv_defs shown_senv) ks
     = Inr (\<lambda>k. if k \<in> set ks then Some (example_instrument\<lparr>i_instrument_id := k\<rparr>) else None)"
proof (induction ks)
  case (Cons k ks)
  then show ?case
    using shown_instruments[of k] by (simp add: fun_eq_iff)
qed (simp add: fun_eq_iff)

lemma shown_policy:
  "\<exists>q. current_policy (example_instrument\<lparr>i_instrument_id := ''BTC_USD''\<rparr>) shown_row = Some q \<and> c_is_persisted q
     \<and> c_status q = CS_CONFIRMED \<and> c_price q = 50000 \<and> c_source_summary q = [''source_semantic'' \<mapsto> PStr ''aggregator'']
     \<and> 3000000 \<le> c_valid_until q \<and> 3000000 \<le> c_stale_at q \<and> 3000000 \<le> c_expires_at q"
  by (simp add: current_policy_def accepts_def example_instrument_def shown_row_def example_canonical_def current_anchor_def
      stored_anchor_def summary_time_def seconds_def Let_def)

lemma shown_quotes:
  obtains q where "get_all_canonical (shown_senv\<lparr>sv_now := 3000000\<rparr>) shown_store = Inr [''BTC_USD'' \<mapsto> q]"
    "c_is_persisted q" "c_status q = CS_CONFIRMED" "c_price q = 50000"
    "c_source_summary q = [''source_semantic'' \<mapsto> PStr ''aggregator'']"
    "3000000 \<le> c_valid_until q" "3000000 \<le> c_stale_at q" "3000000 \<le> c_expires_at q"
proof -
  obtain q where q: "current_policy (example_instrument\<lparr>i_instrument_id := ''BTC_USD''\<rparr>) shown_row = Some q"
    "c_is_persisted q" "c_status q = CS_CONFIRMED" "c_price q = 50000"
    "c_source_summary q = [''source_semantic'' \<mapsto> PStr ''aggregator'']"
    "3000000 \<le> c_valid_until q" "3000000 \<le> c_stale_at q" "3000000 \<le> c_expires_at q"
    using shown_policy by blast
  have a: "allowed_current_quote shown_row = Inr True"
    by (simp add: allowed_current_quote_def shown_row_def example_canonical_def dict_get_def)
  have c: "store_get_all_canonical now shown_store = Map.empty" for now
    by (simp add: store_get_all_canonical_def live_all_def shown_store_def empty_store_def fun_eq_iff)
  have i: "map i_instrument_id (sv_defs shown_senv) = legacy_names"
    by (simp add: shown_senv_def comp_def)
  have d: "operational_instruments (sv_loads shown_senv) (sv_defs shown_senv) (sv_op_db shown_senv) legacy_names
      = Inr (\<lambda>k. if k \<in> set legacy_names then Some (example_instrument\<lparr>i_instrument_id := k\<rparr>) else None)"
    using shown_definitions[of legacy_names] by (simp add: operational_instruments_def) (simp add: shown_senv_def history_senv_def)
  have r: "read_snapshot [''BTC_USD'' \<mapsto> shown_row] Map.empty
        (\<lambda>k. if k \<in> set legacy_names then Some (example_instrument\<lparr>i_instrument_id := k\<rparr>) else None) ks
      = Inr (if ''BTC_USD'' \<in> set ks then [''BTC_USD'' \<mapsto> q] else Map.empty)" if "set ks \<subseteq> set legacy_names" for ks
    using that
  proof (induction ks)
    case (Cons k ks)
    then show ?case
      using a q(1) by (cases "k = ''BTC_USD''") (simp_all add: allowed_only_def newer_of_def fun_eq_iff)
  qed simp
  have "''BTC_USD'' \<in> set legacy_names"
    by (simp add: legacy_names_def)
  then have "get_all_canonical (shown_senv\<lparr>sv_now := 3000000\<rparr>) shown_store = Inr [''BTC_USD'' \<mapsto> q]"
    using r[of legacy_names] by (simp add: get_all_canonical_def i d c shown_latest) (simp add: shown_senv_def history_senv_def)
  then show ?thesis
    using that q by blast
qed

lemma shown_payload:
  assumes "asset \<in> set legacy_assets"
  shows "\<exists>p. asset_payload_of (sv_defs shown_senv) table clock h asset = Inr p
     \<and> ap_fields p = asset_fields asset (the (map_of legacy_asset_mapping (asset, ''usd'')))
         (the (map_of legacy_asset_mapping (asset, ''toman''))) clock (table (the (map_of legacy_asset_mapping (asset, ''usd''))))
         (table (the (map_of legacy_asset_mapping (asset, ''toman''))))"
proof -
  have "list_all (\<lambda>a. \<exists>u m. map_of legacy_asset_mapping (a, ''usd'') = Some u \<and> map_of legacy_asset_mapping (a, ''toman'') = Some m
      \<and> u \<in> set legacy_names \<and> m \<in> set legacy_names) legacy_assets"
    by (simp add: legacy_assets_def legacy_asset_mapping_def legacy_names_def)
  then obtain u m where "map_of legacy_asset_mapping (asset, ''usd'') = Some u" "map_of legacy_asset_mapping (asset, ''toman'') = Some m"
      "u \<in> set legacy_names" "m \<in> set legacy_names"
    using assms by (auto simp: list_all_iff)
  then show ?thesis
    using shown_instruments[of u] shown_instruments[of m]
    by (simp add: asset_payload_of_def legacy_id_def unit_descriptor_of_def Let_def)
qed

lemma shown_assets:
  obtains q rest where "alert_assets shown_senv shown_clock shown_store shown_store
      = Inr (asset_fields ''gold'' ''XAU_USD_OZ'' ''GOLD_18K_TOMAN_GRAM'' (pk_asset (ak_prices shown_clock) ''gold'') None None
        # asset_fields ''silver'' ''XAG_USD_OZ'' ''SILVER_999_TOMAN_GRAM'' (pk_asset (ak_prices shown_clock) ''silver'') None None
        # asset_fields ''usdt'' ''USDT_USD'' ''USDT_TOMAN'' (pk_asset (ak_prices shown_clock) ''usdt'') None None
        # asset_fields ''btc'' ''BTC_USD'' ''BTC_TOMAN'' (pk_asset (ak_prices shown_clock) ''btc'') (Some q) None # rest)"
    "c_is_persisted q" "c_status q = CS_CONFIRMED" "c_price q = 50000"
    "c_source_summary q = [''source_semantic'' \<mapsto> PStr ''aggregator'']"
    "3000000 \<le> c_valid_until q" "3000000 \<le> c_stale_at q" "3000000 \<le> c_expires_at q"
proof (rule shown_quotes)
  fix q
  assume g: "get_all_canonical (shown_senv\<lparr>sv_now := 3000000\<rparr>) shown_store = Inr [''BTC_USD'' \<mapsto> q]"
    and q: "c_is_persisted q" "c_status q = CS_CONFIRMED" "c_price q = 50000"
      "c_source_summary q = [''source_semantic'' \<mapsto> PStr ''aggregator'']"
      "3000000 \<le> c_valid_until q" "3000000 \<le> c_stale_at q" "3000000 \<le> c_expires_at q"
  have h: "\<exists>series. emap (short_history_of shown_senv shown_store) legacy_assets = Inr series"
    by (simp add: legacy_assets_def short_history_of_def legacy_id_def legacy_asset_mapping_def Let_def)
  obtain f where e: "explicit_asset (sv_defs shown_senv) shown_clock (''BTC_USD'', q) = Inr f"
    using shown_instruments[of "''BTC_USD''"] by (simp add: explicit_asset_def legacy_names_def Let_def)
  have n: "entries_of (sv_defs shown_senv) [''BTC_USD'' \<mapsto> q] = [(''BTC_USD'', q)]"
    by (simp add: entries_of_def shown_senv_def legacy_names_def map_filter_simps)
  define table where "table = [''BTC_USD'' \<mapsto> q]"
  let ?c = "pk_asset (ak_prices shown_clock)" and ?pay = "\<lambda>h a. asset_payload_of (sv_defs shown_senv) table (pk_asset (ak_prices shown_clock) a) (h a) a"
  note at = shown_payload[of _ table] legacy_assets_def legacy_asset_mapping_def table_def
  have "\<exists>p. ?pay h ''gold'' = Inr p \<and> ap_fields p = asset_fields ''gold'' ''XAU_USD_OZ'' ''GOLD_18K_TOMAN_GRAM'' (?c ''gold'') None None"
    "\<exists>p. ?pay h ''silver'' = Inr p \<and> ap_fields p = asset_fields ''silver'' ''XAG_USD_OZ'' ''SILVER_999_TOMAN_GRAM'' (?c ''silver'') None None"
    "\<exists>p. ?pay h ''usdt'' = Inr p \<and> ap_fields p = asset_fields ''usdt'' ''USDT_USD'' ''USDT_TOMAN'' (?c ''usdt'') None None"
    "\<exists>p. ?pay h ''btc'' = Inr p \<and> ap_fields p = asset_fields ''btc'' ''BTC_USD'' ''BTC_TOMAN'' (?c ''btc'') (Some q) None" for h
    using shown_payload[of "''gold''" table "?c ''gold''" "h ''gold''"] shown_payload[of "''silver''" table "?c ''silver''" "h ''silver''"]
      shown_payload[of "''usdt''" table "?c ''usdt''" "h ''usdt''"] shown_payload[of "''btc''" table "?c ''btc''" "h ''btc''"]
    by (simp_all add: legacy_assets_def legacy_asset_mapping_def table_def)
  note each = this
  have "\<exists>ps. emap (?pay h) legacy_assets = Inr ps \<and> map ap_fields ps =
      [asset_fields ''gold'' ''XAU_USD_OZ'' ''GOLD_18K_TOMAN_GRAM'' (?c ''gold'') None None,
       asset_fields ''silver'' ''XAG_USD_OZ'' ''SILVER_999_TOMAN_GRAM'' (?c ''silver'') None None,
       asset_fields ''usdt'' ''USDT_USD'' ''USDT_TOMAN'' (?c ''usdt'') None None,
       asset_fields ''btc'' ''BTC_USD'' ''BTC_TOMAN'' (?c ''btc'') (Some q) None]" for h
  proof -
    obtain g s u b where "?pay h ''gold'' = Inr g" "?pay h ''silver'' = Inr s" "?pay h ''usdt'' = Inr u" "?pay h ''btc'' = Inr b"
      and "ap_fields g = asset_fields ''gold'' ''XAU_USD_OZ'' ''GOLD_18K_TOMAN_GRAM'' (?c ''gold'') None None"
        "ap_fields s = asset_fields ''silver'' ''XAG_USD_OZ'' ''SILVER_999_TOMAN_GRAM'' (?c ''silver'') None None"
        "ap_fields u = asset_fields ''usdt'' ''USDT_USD'' ''USDT_TOMAN'' (?c ''usdt'') None None"
        "ap_fields b = asset_fields ''btc'' ''BTC_USD'' ''BTC_TOMAN'' (?c ''btc'') (Some q) None"
      using each[of h] by blast
    then show ?thesis
      by (intro exI[of _ "[g, s, u, b]"]) (simp add: legacy_assets_def)
  qed
  note payloads = this
  obtain series where s: "emap (short_history_of shown_senv shown_store) legacy_assets = Inr series"
    using h by blast
  define hist where "hist = (\<lambda>a. case map_of (zip legacy_assets series) a of None \<Rightarrow> [] | Some rows \<Rightarrow> rows)"
  obtain ps where both: "emap (?pay hist) legacy_assets = Inr ps \<and> map ap_fields ps =
      [asset_fields ''gold'' ''XAU_USD_OZ'' ''GOLD_18K_TOMAN_GRAM'' (?c ''gold'') None None,
       asset_fields ''silver'' ''XAG_USD_OZ'' ''SILVER_999_TOMAN_GRAM'' (?c ''silver'') None None,
       asset_fields ''usdt'' ''USDT_USD'' ''USDT_TOMAN'' (?c ''usdt'') None None,
       asset_fields ''btc'' ''BTC_USD'' ''BTC_TOMAN'' (?c ''btc'') (Some q) None]"
    using payloads[of hist] by (rule exE)
  note ps = both[THEN conjunct1] both[THEN conjunct2]
  have r: "pk_read (ak_prices shown_clock) = 3000000"
    by (simp add: shown_clock_def)
  define prices where "prices = \<lparr>pp_refreshed_at = refreshed_at (pk_now (ak_prices shown_clock)) (quotes_of (sv_defs shown_senv) table),
      pp_assets = ps\<rparr>"
  have p: "get_prices shown_senv (ak_prices shown_clock) shown_store = Inr prices"
    unfolding get_prices_def s ebind_simps r g table_def[symmetric] build_prices_def ps(1)[unfolded hist_def] prices_def
    by (rule HOL.refl)
  have a: "map ap_fields (pp_assets prices) = map ap_fields ps"
    by (simp add: prices_def)
  have k: "ak_read shown_clock = 3000000"
    by (simp add: shown_clock_def)
  show ?thesis
    by (rule that[OF _ q, of "[f]"]) (simp add: alert_assets_def p g k n e a ps(2))
qed

lemma shown_btc_operational:
  assumes "f = asset_fields ''btc'' ''BTC_USD'' ''BTC_TOMAN'' (pk_asset (ak_prices shown_clock) ''btc'') (Some q) None"
    and "c_is_persisted q" "c_status q = CS_CONFIRMED" "c_price q = 50000"
    and "c_source_summary q = [''source_semantic'' \<mapsto> PStr ''aggregator'']"
    and "3000000 \<le> c_valid_until q" "3000000 \<le> c_stale_at q" "3000000 \<le> c_expires_at q"
  shows "asset_is_operational f ''usd'' ''ordinary'' = Inr True" "dict_get f ''price_usd'' PNone = PFloat (FFin 50000)"
proof -
  have e: "effective_status q 3000000 = CS_CONFIRMED"
    using assms by (simp add: effective_status_def)
  have c: "ac_status_usd (pk_asset (ak_prices shown_clock) ''btc'') = 3000000" "ac_policy_usd (pk_asset (ak_prices shown_clock) ''btc'') = 3000000"
    by (simp_all add: shown_clock_def)
  have s: "shows_quote f ''usd'' q 3000000 3000000"
    using asset_fields_show(2)[OF assms(1) HOL.refl] c by simp
  note at = asset_fields_def Let_def policy_lookup map_add_def c
  have p: "map_of (policy_entries 3000000 (Some q)) ''persistence_status'' = Some (PStr ''persisted'')"
    "map_of (policy_entries 3000000 (Some q)) ''source_semantic'' = Some (PStr ''aggregator'')"
    "map_of (policy_entries 3000000 (Some q)) ''spread_bps'' = Some PNone"
    "map_of (policy_entries 3000000 (Some q)) ''derivation_depth'' = Some (PInt 0)"
    using assms by (simp_all add: policy_entries_def Let_def dict_get_def or_val_def)
  have v: "f ''usd_persistence_status'' = Some (PStr ''persisted'')" "f ''usd_source_semantic'' = Some (PStr ''aggregator'')"
      "f ''usd_spread_bps'' = Some PNone" "f ''usd_derivation_depth'' = Some (PInt 0)"
    unfolding assms(1) using p by (simp_all add: at)
  have w: "lower ''persisted'' = ''persisted''" "lower ''aggregator'' = ''aggregator''"
    by code_simp+
  have flags: "asset_policy_flag f ''usd'' ''live_eligible'' False = Some True" "asset_policy_flag f ''usd'' ''is_persisted'' False = Some True"
      "asset_policy_flag f ''usd'' ''is_suspicious'' True = Some False" "asset_policy_flag f ''usd'' ''expired'' True = Some False"
    using s assms(2,6) e by (simp_all add: shows_quote_def asset_policy_flag_def asset_policy_value_def dict_get_def)
  have "asset_status f ''usd'' = ''confirmed''"
    using shown_asset_status[of f "''usd''" q 3000000 3000000] s e by simp
  then show "asset_is_operational f ''usd'' ''ordinary'' = Inr True"
    using flags v w by (simp add: asset_is_operational_def asset_policy_value_def dict_get_def allowed_statuses_def allowed_semantics_def
        caught_def spread_ok_def)
  show "dict_get f ''price_usd'' PNone = PFloat (FFin 50000)"
    using s assms(4) by (simp add: shows_quote_def dict_get_def number_of_def float_of_def of_f64_def)
qed

theorem alert_fires_on_price_in_force_witness:
  "\<exists>iid q t table. get_all_canonical (shown_senv\<lparr>sv_now := 3000000\<rparr>) shown_store = Inr table \<and> table iid = Some q
     \<and> in_force shown_senv iid q \<and> c_is_persisted q \<and> (3000000 :: instant) \<le> c_valid_until q \<and> float_leq t (float_of (c_price q))"
proof (rule shown_assets)
  fix q rest
  let ?f = "\<lambda>asset usd toman oq. asset_fields asset usd toman (pk_asset (ak_prices shown_clock) asset) oq None"
  let ?assets = "?f ''gold'' ''XAU_USD_OZ'' ''GOLD_18K_TOMAN_GRAM'' None # ?f ''silver'' ''XAG_USD_OZ'' ''SILVER_999_TOMAN_GRAM'' None
     # ?f ''usdt'' ''USDT_USD'' ''USDT_TOMAN'' None # ?f ''btc'' ''BTC_USD'' ''BTC_TOMAN'' (Some q) # rest"
  let ?a = "(example_alert ''one_time'')\<lparr>al_asset := ''btc''\<rparr>"
  assume a: "alert_assets shown_senv shown_clock shown_store shown_store = Inr ?assets"
    and q: "c_is_persisted q" "c_status q = CS_CONFIRMED" "c_price q = 50000"
      "c_source_summary q = [''source_semantic'' \<mapsto> PStr ''aggregator'']"
      "3000000 \<le> c_valid_until q" "3000000 \<le> c_stale_at q" "3000000 \<le> c_expires_at q"
  note b = shown_btc_operational[OF HOL.refl q]
  have names: "?f x u t oq ''asset'' = Some (PStr x)" for x u t oq
    by (rule asset_fields_show(1)[OF HOL.refl])
  have fields: "al_alert_type ?a = ''price''" "alert_asset_id ?a = ''btc''" "al_currency_mode ?a = ''usd''"
      "al_price_source_mode ?a = ''ordinary''" "al_target_price ?a = Some (FFin 100)" "al_condition ?a = ''above''"
    by (simp_all add: example_alert_def alert_asset_id_def)
  have "find_asset ?assets ''btc'' = Inr (Some (?f ''btc'' ''BTC_USD'' ''BTC_TOMAN'' (Some q)))"
    by (simp add: names)
  then have t: "should_trigger_model example_parse ?a ?assets = Inr True"
    using b by (simp add: should_trigger_model_def fields price_reached_def del: find_asset.simps)
  have c: "clock_from 3000000 shown_clock"
    by (simp add: clock_from_def shown_clock_def)
  have n: "al_alert_type ?a \<noteq> ''formula''"
    by (simp add: fields)
  have k: "pk_read (ak_prices shown_clock) = 3000000" "ak_read shown_clock = 3000000"
    by (simp_all add: shown_clock_def)
  show ?thesis
    using alert_fires_on_price_in_force [OF a c t n] fields(6) unfolding k by fastforce
qed

end
