(* ===== verification/Spec2Isabelle.thy ===== *)
theory Spec2Isabelle
  imports Delivery Refresh Sanitize Parsed_Quotes Provider_Table Backfill_Runs Price_Stream Public_Prices
begin

text \<open>
  Verification of the pricing backend of Nerkhbaan, the FastAPI application under \<open>apps/api/app\<close>.

  The application collects prices of currencies, metals and coins from many providers, decides one canonical price
  for each instrument, keeps it in Redis and in a database, and evaluates the alerts of its users on these prices.
  The development is a shallow embedding: a function of the source is a function of its model, a dataclass a record,
  an enum a datatype, an exception a value of the sum type \<open>'a result\<close>, and an operation on Redis, the database or
  the memory of a process takes the state and gives the state it leaves.

  \<^bold>\<open>The parts and their theories.\<close> Paths are relative to \<open>apps/api/app/pricing\<close> unless they say otherwise.

  \<^item> Foundations. \<open>Prelude\<close>: exceptions, loops over lists, orders, text. \<open>Py_Numbers\<close>: \<open>Decimal\<close> with its 28
    digits and floats with 53 bits, both as rational numbers. \<open>Py_Values\<close>: the values of Python dictionaries and
    their conversions. \<open>Float_Text\<close>: decimals survive being stored as floats.
  \<^item> Data. \<open>Models\<close> (\<open>models.py\<close>): the quotes, their constructors and public views. \<open>Instruments\<close>
    (\<open>instruments.py\<close>): the catalogue. \<open>Registry\<close> (\<open>registry.py\<close>): provider definitions and request budgets.
    \<open>Provider_Table\<close> (\<open>registry.py\<close>): the providers that are registered, with their parsers, limits and histories.
    \<open>Operational\<close> (\<open>operational.py\<close>): the definitions in force once the settings in the database are applied.
  \<^item> Policies. \<open>Freshness\<close> (\<open>freshness.py\<close>): the windows in which a quote is live, stale or expired. \<open>Anomaly\<close>
    (\<open>anomaly.py\<close>): when a new price is suspicious. \<open>Source_Policy\<close> (\<open>source_policy.py\<close>): which Telegram
    observations count. \<open>Canonical\<close> (\<open>canonical.py\<close>): the choice of the canonical price. \<open>Derived\<close> (\<open>derived.py\<close>,
    \<open>quote_visibility.py\<close>): prices computed from others. \<open>Selection\<close> is the contract their selection loops share.
  \<^item> Shared services. \<open>Redis\<close>: the interface of Redis as a locale, with a store that satisfies it. \<open>Locks\<close>
    (\<open>locks.py\<close>): leases. \<open>Budgets\<close> (\<open>budgets.py\<close>): request counters and cooldowns.
  \<^item> Answers of providers. \<open>Json\<close> (\<open>parsers/base.py\<close>): payloads, and the readers of numbers, times and paths.
    \<open>Parsers\<close> (\<open>parsers/*.py\<close>): the parser of every provider and the table of them. \<open>History_Parsers\<close>
    (\<open>parsers/history.py\<close>): the parsers of price histories. \<open>Sanitize\<close> (\<open>parsers/base.py\<close>): what is archived.
    \<open>Parsed_Quotes\<close>: the provider collector with these parsers.
  \<^item> Operations. \<open>Providers\<close> (\<open>providers.py\<close>): one request to a provider. \<open>Telegram_Quotes\<close> (\<open>telegram.py\<close>): the
    stored Telegram observations. \<open>Canonical_Store\<close> (\<open>cache.py\<close>, \<open>persistence.py\<close>, \<open>history.py\<close>): the places a
    canonical price is kept. \<open>Service\<close> and \<open>Refresh\<close> (\<open>service.py\<close>): reading, asking the providers, committing,
    refreshing an instrument or all of them, quotes of the foreign worker.
  \<^item> Histories. \<open>Backfill_Jobs\<close> (\<open>backfill.py\<close>): the table of the jobs and what several workers do to it, as a step
    relation. \<open>Backfill\<close>: asking for the history of a range, its pages, storing its points, a round over the jobs.
    \<open>Backfill_Runs\<close>: the contract of one job as a locale, with an interpretation for each of three relations.
  \<^item> Prices for readers. \<open>Charts\<close> (\<open>history.py\<close>, \<open>service.py\<close>): candles, whether a chart is complete, the request for what it
    lacks. \<open>Public_Prices\<close> (\<open>compatibility.py\<close>, \<open>apps/api/app/services/background.py\<close>): the assets of older clients, the
    state of the refresh loop, and the turn of the alert loop that hands these assets and every instrument to \<open>Alerts\<close>.
  \<^item> The stream of prices. \<open>Price_Stream\<close> (\<open>websocket.py\<close>, \<open>apps/api/app/routers/price_ws.py\<close>): the connections of a worker,
    their queues, the dispatcher that feeds them, the reads of all prices they share and the frames of clients, as a step
    relation of the tasks of one worker. Its argument \<open>late\<close> says whether a read may be joined after its prices were read.
  \<^item> Alerts, under \<open>apps/api/app\<close>. \<open>Formula\<close> and \<open>Alerts\<close> (\<open>services/alert_engine.py\<close>): formulas of users and the
    rounds of evaluation. \<open>Delivery\<close> (\<open>services/dlq_worker.py\<close>, \<open>admin/routers/health_jobs.py\<close>): the jobs that
    send what was triggered.

  \<^bold>\<open>How they are put together.\<close> \<open>refresh_instrument\<close> runs under a lease of \<open>Locks\<close>, asks providers through
  \<open>Providers.quote\<close> (itself under a lease, a budget of \<open>Budgets\<close> and a circuit breaker), compares with \<open>Anomaly\<close>,
  decides with \<open>Canonical.select\<close>, falls back on \<open>Telegram_Quotes\<close> and \<open>Derived\<close>, and commits through
  \<open>Canonical_Store\<close>. A provider or a step that raises ends the operation with the error and the state left so far.

  \<^bold>\<open>What the lemmas show.\<close> For each component the properties listed under its claims. The lines that run through all of
  them: windows are nested and only shrink (\<open>Freshness\<close>, \<open>Canonical\<close>, \<open>Service\<close>); a suspicious price needs
  independent support (\<open>Canonical\<close>); outside calls are bounded and guarded (\<open>Providers\<close>, \<open>Budgets\<close>, \<open>Locks\<close>,
  \<open>Service\<close>); nothing stored is lost or numbered twice and prices never go back (\<open>Canonical_Store\<close>, \<open>Service\<close>, \<open>Refresh\<close>); what is
  stored is read back unchanged, if its decimals are short enough for a float (\<open>Canonical_Store\<close>); histories never reach the current prices, and a job belongs to
  its last claimant (\<open>Backfill_Runs\<close>, \<open>Backfill_Jobs\<close>); a client of the stream misses nothing silently that it is
  subscribed to, but for a late joiner of a shared read (\<open>Price_Stream\<close>); a complete chart has no hole (\<open>Charts\<close>); an alert on a price fires only on
  a price in force (\<open>Public_Prices\<close>); alerts and deliveries happen at most as often as allowed
  (\<open>Alerts\<close>, \<open>Delivery\<close>).

  \<^bold>\<open>Parameters.\<close> Code that is not in the repository is an argument: Redis (with the laws of \<open>redis_service\<close>), the
  HTTP client, URL and date parsing (with \<open>urljoin\<close> and \<open>raise_for_status\<close>), the tables of Unicode and the texts of floats (\<open>Json.text_rt\<close>), \<open>json.loads\<close> of settings, \<open>ast.parse\<close>, the delivery channels, the average of floats
  that the database computes, and the rows SQL statements give. SHA-256 digests are the tuple they are computed from. Each reading of a clock is a field of the
  environment of the operation; the fields of \<open>Service.senv\<close> name the points where it is read.

  \<^bold>\<open>Approximations.\<close>
  \<^item> A decimal is its value: the exponent (trailing zeros) and the exponent limits of the context are not represented.
  \<^item> Instants are unbounded counts of microseconds in UTC.
  \<^item> Texts of payloads are sequences of code points, all other texts of the characters up to code 255; the text of values other than texts, integers and truth
    values is a marker of their kind (\<open>py_text\<close>).
  \<^item> Metrics, traces, log messages and the wording of errors are left out.
  \<^item> Members of a sorted set in Redis with the same score are in insertion order. The stream of backfill requests is not
    trimmed at its maximum length, and the stream that keeps copies of the announced events, of which the program reads only
    the length, is left out.
  \<^item> The collector of \<open>Providers\<close> takes the parsers as an argument, which \<open>Parsed_Quotes\<close> gives, and assumes that a payload can
    be archived; \<open>Sanitize\<close> shows when it cannot.
  \<^item> Rows that are written and never read by the modelled code (anomalies, verifications, archived payloads, marks
    of suspicious quotes) are left out. Of a stored provider quote the table keeps its key and number.
  \<^item> A provider call that raises leaves the world as it was before the call. A refresh whose lease is lost while it
    runs is not cancelled in \<open>Refresh\<close>; \<open>Locks\<close> has the renewal loop.
  \<^item> What other workers do while a backfill job waits is the argument \<open>be_pause\<close>, and the laws it needs are hypotheses of
    the properties (\<open>quiet_pauses\<close>, \<open>no_rows_meanwhile\<close>, \<open>workers_meanwhile\<close>).
  \<^item> Operational settings hold finite decimals, and so do the prices of Telegram rows.

  \<^bold>\<open>Bounds.\<close> Recursion is structural or has a measure: retries run over the number of attempts left, the queue is
  flushed over its entries, the pages of a history over what is left of 41, formulas are evaluated over their depth. No fuel is needed.

  \<^bold>\<open>Not modelled.\<close> The charts of single providers (\<open>history.py\<close>), the health of the
  pricing (\<open>health.py\<close>) and the payloads of the API that only format; the routers and their schemas (authentication, notifications, support, push, administration); sessions,
  passwords and tokens (\<open>security.py\<close>, \<open>admin\<close>); migrations, configuration, the front end, infrastructure and
  scripts.
\<close>

end
